(* ===== verification/Prelude.thy ===== *)
theory Prelude
  imports Main "HOL-Library.Word" "HOL-Library.Signed_Division"
begin

text \<open>
  Shared vocabulary of the development: the machine integer types of the C code, the outcome of
  a C routine, little-endian encoding of multi-byte operands (the code moves every operand with
  \<open>memcpy\<close> on little-endian targets), C's truncating signed division, and the generic
  lemmas on lists and words the components share.
\<close>

unbundle bit_operations_syntax

text \<open>
  Collections: \<open>opcodes\<close> unfolds the numeric codes of the instruction set, \<open>limits\<close> the table sizes
  of the host configuration, \<open>frame\<close> the "this operation leaves that field alone" facts.
\<close>

named_theorems opcodes "numeric codes of the instruction set"
named_theorems limits "table sizes of the host configuration"
named_theorems frame "what an operation leaves unchanged"

type_synonym u8 = "8 word"
type_synonym u16 = "16 word"
type_synonym u32 = "32 word"
type_synonym u64 = "64 word"

text \<open>
  An \<open>int64_t\<close> is kept as its 64 bits (\<^typ>\<open>u64\<close>) and read with \<open>sint\<close>; addition,
  subtraction and negation wrap, which is what the firmware's targets do.
\<close>

type_synonym i64 = "64 word"

section \<open>Outcomes\<close>

text \<open>
  \<open>Ok\<close> is a normal result. \<open>Err\<close> is a call of \<open>bc_vm_error\<close> or \<open>error\<close>, which does not
  return: it carries the message and the state at the call. \<open>Fault\<close> stands for what the C
  standard or the hardware leaves open: an access outside an array, a wild pointer, a
  conversion or a shift outside its defined range. A theorem that an operation never yields
  \<open>Fault\<close> is a memory-safety statement about the C code.
\<close>

datatype ('s, 'a) outcome = Ok 'a | Err string 's | Fault

fun bindO :: "('s, 'a) outcome \<Rightarrow> ('a \<Rightarrow> ('s, 'b) outcome) \<Rightarrow> ('s, 'b) outcome" where
  "bindO (Ok x) f = f x"
| "bindO (Err m s) f = Err m s"
| "bindO Fault f = Fault"

fun is_fault :: "('s, 'a) outcome \<Rightarrow> bool" where
  "is_fault Fault = True"
| "is_fault _ = False"

fun is_ok :: "('s, 'a) outcome \<Rightarrow> bool" where
  "is_ok (Ok _) = True"
| "is_ok _ = False"

lemma bindO_Ok_iff [simp]: "bindO m f = Ok y \<longleftrightarrow> (\<exists>x. m = Ok x \<and> f x = Ok y)"
  by (cases m) auto

lemma bindO_Fault_iff: "bindO m f = Fault \<longleftrightarrow> m = Fault \<or> (\<exists>x. m = Ok x \<and> f x = Fault)"
  by (cases m) auto

lemma bindO_assoc: "bindO (bindO m f) g = bindO m (\<lambda>x. bindO (f x) g)"
  by (cases m) auto

lemma is_fault_iff [simp]: "is_fault m \<longleftrightarrow> m = Fault"
  by (cases m) auto

section \<open>Little-endian bytes\<close>

fun le_enc :: "nat \<Rightarrow> nat \<Rightarrow> u8 list" where
  "le_enc 0 x = []"
| "le_enc (Suc n) x = of_nat (x mod 256) # le_enc n (x div 256)"

fun le_dec :: "u8 list \<Rightarrow> nat" where
  "le_dec [] = 0"
| "le_dec (b # bs) = unat b + 256 * le_dec bs"

lemma length_le_enc [simp]: "length (le_enc n x) = n"
  by (induction n arbitrary: x) auto

lemma unat_of_nat_u8: "unat (of_nat x :: u8) = x mod 256"
  by (simp add: unat_of_nat)

lemma le_dec_enc: "le_dec (le_enc n x) = x mod 256 ^ n"
proof (induction n arbitrary: x)
  case 0
  show ?case by simp
next
  case (Suc n)
  have "le_dec (le_enc (Suc n) x) = x mod 256 + 256 * (x div 256 mod 256 ^ n)"
    by (simp add: Suc.IH unat_of_nat_u8)
  also have "\<dots> = x mod 256 ^ Suc n"
    by (simp add: mod_mult2_eq)
  finally show ?case .
qed

lemma le_dec_bound: "le_dec bs < 256 ^ length bs"
proof (induction bs)
  case Nil
  show ?case by simp
next
  case (Cons b bs)
  have "unat b < 256" using unsigned_less [of b] by simp
  with Cons.IH have "unat b + 256 * le_dec bs < 256 * (le_dec bs + 1)" by simp
  also have "\<dots> \<le> 256 * 256 ^ length bs" using Cons.IH by simp
  finally show ?case by simp
qed

lemma le_enc_dec: "le_enc (length bs) (le_dec bs) = bs"
proof (induction bs)
  case Nil
  show ?case by simp
next
  case (Cons b bs)
  have b: "unat b < 256" using unsigned_less [of b] by simp
  then have "(unat b + 256 * le_dec bs) mod 256 = unat b"
    and "(unat b + 256 * le_dec bs) div 256 = le_dec bs" by auto
  with Cons.IH show ?case by simp
qed

lemma of_nat_le_dec_enc_unat:
  fixes w :: "'a::len word"
  assumes "LENGTH('a) \<le> 8 * n"
  shows "of_nat (le_dec (le_enc n (unat w))) = w"
proof -
  have "unat w < 2 ^ LENGTH('a)" by (rule unsigned_less)
  also have "(2::nat) ^ LENGTH('a) \<le> 2 ^ (8 * n)"
    using assms by (intro power_increasing) auto
  also have "(2::nat) ^ (8 * n) = 256 ^ n" by (simp add: power_mult)
  finally show ?thesis by (simp add: le_dec_enc)
qed

section \<open>C integer arithmetic\<close>

text \<open>C's \<open>/\<close> and \<open>%\<close> truncate towards zero; \<open>x\<close> and \<open>y\<close> are the signed readings.\<close>

definition sdiv64 :: "i64 \<Rightarrow> i64 \<Rightarrow> i64" where
  "sdiv64 a b = word_of_int (sint a sdiv sint b)"

definition smod64 :: "i64 \<Rightarrow> i64 \<Rightarrow> i64" where
  "smod64 a b = word_of_int (sint a smod sint b)"

definition bool_i64 :: "bool \<Rightarrow> i64" where
  "bool_i64 b = (if b then 1 else 0)"

lemma bool_i64_eq_0 [simp]: "bool_i64 b = 0 \<longleftrightarrow> \<not> b"
  by (simp add: bool_i64_def)

section \<open>Lists read and written by index\<close>

definition get_idx :: "'a list \<Rightarrow> nat \<Rightarrow> 'a option" where
  "get_idx xs i = (if i < length xs then Some (xs ! i) else None)"

lemma get_idx_Some_iff [simp]: "get_idx xs i = Some x \<longleftrightarrow> i < length xs \<and> xs ! i = x"
  by (auto simp: get_idx_def)

lemma get_idx_None_iff [simp]: "get_idx xs i = None \<longleftrightarrow> length xs \<le> i"
  by (auto simp: get_idx_def)

text \<open>Overwrite a slice: \<open>memcpy(xs + at, ys, |ys|)\<close> inside the list.\<close>

definition splice :: "'a list \<Rightarrow> nat \<Rightarrow> 'a list \<Rightarrow> 'a list" where
  "splice xs at ys = take at xs @ ys @ drop (at + length ys) xs"

lemma length_splice [simp]: "at + length ys \<le> length xs \<Longrightarrow> length (splice xs at ys) = length xs"
  by (simp add: splice_def)

lemma take_drop_splice [simp]:
  "at + length ys \<le> length xs \<Longrightarrow> take (length ys) (drop at (splice xs at ys)) = ys"
  by (simp add: splice_def)

lemma nth_splice:
  "at + length ys \<le> length xs \<Longrightarrow> i < length xs \<Longrightarrow>
   splice xs at ys ! i = (if at \<le> i \<and> i < at + length ys then ys ! (i - at) else xs ! i)"
  by (auto simp: splice_def nth_append min_def)

section \<open>C strings and characters\<close>

text \<open>Bytes of a C string, without the terminator.\<close>

type_synonym cstr = "u8 list"

definition c_strlen_bytes :: "u8 list \<Rightarrow> cstr" where
  "c_strlen_bytes bs = takeWhile (\<lambda>b. b \<noteq> 0) bs"

definition tolower8 :: "u8 \<Rightarrow> u8" where
  "tolower8 c = (if 0x41 \<le> c \<and> c \<le> 0x5A then c + 0x20 else c)"

definition toupper8 :: "u8 \<Rightarrow> u8" where
  "toupper8 c = (if 0x61 \<le> c \<and> c \<le> 0x7A then c - 0x20 else c)"

definition isdigit8 :: "u8 \<Rightarrow> bool" where
  "isdigit8 c \<longleftrightarrow> 0x30 \<le> c \<and> c \<le> 0x39"

definition isalpha8 :: "u8 \<Rightarrow> bool" where
  "isalpha8 c \<longleftrightarrow> 0x41 \<le> c \<and> c \<le> 0x5A \<or> 0x61 \<le> c \<and> c \<le> 0x7A"

definition isalnum8 :: "u8 \<Rightarrow> bool" where
  "isalnum8 c \<longleftrightarrow> isalpha8 c \<or> isdigit8 c"

text \<open>
  \<open>strcasecmp(a, b) == 0\<close> on terminated strings, and \<open>strlen(a) == n && strncasecmp(a, b, n) == 0\<close>
  for an \<open>n\<close>-byte \<open>b\<close>: the same test once terminators are dropped.
\<close>

definition same_name :: "cstr \<Rightarrow> cstr \<Rightarrow> bool" where
  "same_name a b \<longleftrightarrow> map tolower8 a = map tolower8 b"

lemma same_name_refl [simp]: "same_name a a"
  by (simp add: same_name_def)

lemma same_name_sym: "same_name a b \<Longrightarrow> same_name b a"
  by (simp add: same_name_def)

lemma same_name_trans: "same_name a b \<Longrightarrow> same_name b c \<Longrightarrow> same_name a c"
  by (simp add: same_name_def)

section \<open>Decimal output\<close>

text \<open>\<open>%u\<close> and \<open>%d\<close> of the C library, least significant digit last.\<close>

fun dec_nat :: "nat \<Rightarrow> string" where
  "dec_nat n = (if n < 10 then [char_of (48 + n)] else dec_nat (n div 10) @ [char_of (48 + n mod 10)])"

declare dec_nat.simps [simp del]

definition dec_int :: "int \<Rightarrow> string" where
  "dec_int i = (if i < 0 then CHR 0x2D # dec_nat (nat (- i)) else dec_nat (nat i))"

definition cstr_string :: "cstr \<Rightarrow> string" where
  "cstr_string bs = map (\<lambda>b. char_of (unat b)) bs"

section \<open>First match in a table\<close>

text \<open>The linear searches of the compiler's tables: the index of the first entry that satisfies \<open>P\<close>.\<close>

fun find_index :: "('a \<Rightarrow> bool) \<Rightarrow> 'a list \<Rightarrow> nat option" where
  "find_index P [] = None"
| "find_index P (x # xs) = (if P x then Some 0 else map_option Suc (find_index P xs))"

lemma find_index_None_iff: "find_index P xs = None \<longleftrightarrow> (\<forall>x\<in>set xs. \<not> P x)"
  by (induction xs) auto

lemma find_index_Some: "find_index P xs = Some i \<Longrightarrow> i < length xs \<and> P (xs ! i) \<and> (\<forall>j<i. \<not> P (xs ! j))"
proof (induction xs arbitrary: i)
  case Nil
  then show ?case by simp
next
  case (Cons x xs)
  then show ?case by (auto split: if_splits simp: less_Suc_eq_0_disj nth_Cons split: nat.splits)
qed

lemma find_index_append:
  "find_index P (xs @ ys) = (case find_index P xs of Some i \<Rightarrow> Some i
     | None \<Rightarrow> map_option (\<lambda>i. length xs + i) (find_index P ys))"
  by (induction xs; cases "find_index P ys") (auto split: option.splits)

lemma find_index_Some_append [simp]: "find_index P xs = Some i \<Longrightarrow> find_index P (xs @ ys) = Some i"
  by (simp add: find_index_append)

end
