(* ===== verification/VmInt.thy ===== *)
theory VmInt
  imports Prelude
begin

text \<open>
  The integer helpers of the bytecode VM (\<open>runtime/vm/bc_vm.c\<close>): the wrapped 64-bit product,
  the fused multiply-and-divide \<open>bc_vm_muldiv_pow2_int\<close>, and \<open>bc_vm_mulshr_int\<close>, which builds
  the 128-bit product of two 64-bit magnitudes from four 32-bit partial products and shifts it.
  The lemmas relate them to arithmetic on \<^typ>\<open>int\<close>.
\<close>

section \<open>Definitions\<close>

definition vm_uabs64 :: "i64 \<Rightarrow> u64" where
  "vm_uabs64 v = (if 0 \<le>s v then v else - (v + 1) + 1)"

definition vm_mul_i_wrap :: "i64 \<Rightarrow> i64 \<Rightarrow> i64" where
  "vm_mul_i_wrap a b = a * b"

definition vm_muldiv_pow2 :: "'s \<Rightarrow> i64 \<Rightarrow> i64 \<Rightarrow> int \<Rightarrow> ('s, i64) outcome" where
  "vm_muldiv_pow2 s a b bits =
     (if bits < 0 \<or> bits > 62 then Err ''Number out of bounds'' s
      else Ok (sdiv64 (vm_mul_i_wrap a b) (push_bit (nat bits) 1)))"

text \<open>The 128-bit product of \<open>ua\<close> and \<open>ub\<close> as the pair \<open>(hi, lo)\<close>.\<close>

definition vm_mul128 :: "u64 \<Rightarrow> u64 \<Rightarrow> u64 \<times> u64" where
  "vm_mul128 ua ub =
     (let a0 = ua AND 0xFFFFFFFF; a1 = drop_bit 32 ua;
          b0 = ub AND 0xFFFFFFFF; b1 = drop_bit 32 ub;
          p0 = a0 * b0; p1 = a0 * b1; p2 = a1 * b0; p3 = a1 * b1;
          lo0 = p0; hi0 = p3;
          add1 = push_bit 32 p1; lo1 = lo0 + add1;
          hi1 = (if lo1 < add1 then hi0 + 1 else hi0) + drop_bit 32 p1;
          add2 = push_bit 32 p2; lo2 = lo1 + add2;
          hi2 = (if lo2 < add2 then hi1 + 1 else hi1) + drop_bit 32 p2
      in (hi2, lo2))"

definition vm_mulshr :: "'s \<Rightarrow> i64 \<Rightarrow> i64 \<Rightarrow> int \<Rightarrow> ('s, i64) outcome" where
  "vm_mulshr s a b bits =
     (if bits < 0 \<or> bits > 62 then Err ''Number out of bounds'' s
      else let ua = vm_uabs64 a; ub = vm_uabs64 b;
               negative = ((a <s 0) \<noteq> (b <s 0));
               (hi, lo) = vm_mul128 ua ub
           in if bits = 0 \<and> hi \<noteq> 0 then Err ''Integer overflow'' s
              else let mag = (if bits = 0 then lo
                              else push_bit (nat (64 - bits)) hi OR drop_bit (nat bits) lo)
                   in if \<not> negative
                      then (if mag > 0x7FFFFFFFFFFFFFFF then Err ''Integer overflow'' s else Ok mag)
                      else (if mag > 0x8000000000000000 then Err ''Integer overflow'' s
                            else Ok (- mag)))"

section \<open>The partial products build the 128-bit product\<close>

lemma unat_vm_uabs64: "unat (vm_uabs64 v) = nat \<bar>sint v\<bar>"
proof -
  have range: "- (2 ^ 63) \<le> sint v" "sint v < 2 ^ 63"
    using sint_ge [of v] sint_lt [of v] by simp_all
  have w: "uint (word_of_int x :: i64) = x" if "0 \<le> x" "x < 2 ^ 64" for x :: int
    using that by (simp add: unsigned_of_int take_bit_int_eq_self)
  show ?thesis
  proof (cases "0 \<le> sint v")
    case True
    then have "uint v = sint v" using w [of "sint v"] range by simp
    with True show ?thesis by (simp add: vm_uabs64_def word_sle_eq unat_eq_nat_uint)
  next
    case False
    have "- (v + 1) + 1 = word_of_int (- sint v)" by simp
    moreover have "uint (word_of_int (- sint v) :: i64) = - sint v"
      using w [of "- sint v"] False range by simp
    ultimately show ?thesis using False by (simp add: vm_uabs64_def word_sle_eq unat_eq_nat_uint)
  qed
qed

lemma unat_add_carry:
  fixes x y :: u64
  shows "unat x + unat y = unat (x + y) + (if x + y < y then 2 ^ 64 else 0)"
proof -
  have b: "unat x < 2 ^ 64" "unat y < 2 ^ 64" using unsigned_less [of x] unsigned_less [of y] by simp_all
  have s: "unat (x + y) = (unat x + unat y) mod 2 ^ 64" by (simp add: unat_word_ariths)
  show ?thesis
  proof (cases "unat x + unat y < 2 ^ 64")
    case True
    then show ?thesis using s b by (simp add: word_less_nat_alt)
  next
    case False
    then have "unat (x + y) = unat x + unat y - 2 ^ 64" using s b
      by (simp add: mod_if)
    with False b show ?thesis by (simp add: word_less_nat_alt)
  qed
qed

lemma unat_mul_half:
  fixes x y :: u64
  assumes "unat x < 2 ^ 32" "unat y < 2 ^ 32"
  shows "unat (x * y) = unat x * unat y"
proof -
  have "unat x * unat y < 2 ^ 32 * 2 ^ 32"
    using assms by (intro mult_strict_mono) auto
  then show ?thesis by (simp add: unat_word_ariths)
qed

lemma unat_low_half: "unat (x AND 0xFFFFFFFF :: u64) = unat x mod 2 ^ 32"
proof -
  have "x AND 0xFFFFFFFF = take_bit 32 x" by (simp add: take_bit_eq_mask mask_eq_exp_minus_1)
  then show ?thesis by (simp only: unsigned_take_bit_eq) (simp only: take_bit_eq_mod)
qed

lemma unat_high_half: "unat (drop_bit 32 x :: u64) = unat x div 2 ^ 32"
  by (simp only: unat_drop_bit_eq) (simp only: drop_bit_eq_div)

lemma unat_push_half: "unat (push_bit 32 x :: u64) = unat x mod 2 ^ 32 * 2 ^ 32"
proof -
  have "unat (push_bit 32 x) = unat x * 2 ^ 32 mod 2 ^ 64"
    by (simp only: unsigned_push_bit_eq) (simp add: take_bit_eq_mod push_bit_eq_mult)
  also have "\<dots> = unat x mod 2 ^ 32 * 2 ^ 32"
    using mult_mod_left [of "unat x" "2 ^ 32" "2 ^ 32 :: nat"] by simp
  finally show ?thesis .
qed

lemma half_split: "2 ^ 32 * n = n div 2 ^ 32 * 2 ^ 64 + n mod 2 ^ 32 * (2 ^ 32 :: nat)"
proof -
  have "2 ^ 32 * n = 2 ^ 32 * (n div 2 ^ 32 * 2 ^ 32 + n mod 2 ^ 32)" by (simp only: div_mult_mod_eq)
  also have "\<dots> = n div 2 ^ 32 * 2 ^ 64 + n mod 2 ^ 32 * (2 ^ 32 :: nat)" by (simp only: distrib_left) simp
  finally show ?thesis .
qed

lemma vm_mul128_correct:
  "unat (fst (vm_mul128 ua ub)) * 2 ^ 64 + unat (snd (vm_mul128 ua ub)) = unat ua * unat ub"
proof -
  define a0 b0 a1 b1 where "a0 = ua AND 0xFFFFFFFF" "b0 = ub AND 0xFFFFFFFF"
    "a1 = drop_bit 32 ua" "b1 = drop_bit 32 ub"
  note ab = this
  define p0 p1 p2 p3 where "p0 = a0 * b0" "p1 = a0 * b1" "p2 = a1 * b0" "p3 = a1 * b1"
  note p = this
  define x where "x = push_bit 32 p1" 
  define y where "y = push_bit 32 p2"
  define l1 where "l1 = p0 + x" 
  define l2 where "l2 = l1 + y"
  define c1 :: nat where "c1 = (if l1 < x then 1 else 0)"
  define c2 :: nat where "c2 = (if l2 < y then 1 else 0)"
  define H where "H = unat p3 + c1 + unat p1 div 2 ^ 32 + c2 + unat p2 div 2 ^ 32"
  have small: "unat a0 < 2 ^ 32" "unat b0 < 2 ^ 32" "unat a1 < 2 ^ 32" "unat b1 < 2 ^ 32"
    using unsigned_less [of ua] unsigned_less [of ub]
    by (auto simp: ab unat_low_half unat_high_half intro: less_mult_imp_div_less)
  have ua: "unat ua = unat a0 + 2 ^ 32 * unat a1" and ub: "unat ub = unat b0 + 2 ^ 32 * unat b1"
    unfolding ab unat_low_half unat_high_half by simp_all
  have prods: "unat p0 = unat a0 * unat b0" "unat p1 = unat a0 * unat b1"
    "unat p2 = unat a1 * unat b0" "unat p3 = unat a1 * unat b1"
    using small by (simp_all add: p unat_mul_half)
  have total: "unat ua * unat ub = unat p0 + 2 ^ 32 * unat p1 + 2 ^ 32 * unat p2 + 2 ^ 64 * unat p3"
    unfolding ua ub prods by (simp add: algebra_simps)
  have s1: "unat p0 + unat x = unat l1 + c1 * 2 ^ 64" and s2: "unat l1 + unat y = unat l2 + c2 * 2 ^ 64"
    using unat_add_carry [of p0 x] unat_add_carry [of l1 y] by (auto simp: l1_def l2_def c1_def c2_def)
  have sh1: "2 ^ 32 * unat p1 = unat p1 div 2 ^ 32 * 2 ^ 64 + unat x"
    and sh2: "2 ^ 32 * unat p2 = unat p2 div 2 ^ 32 * 2 ^ 64 + unat y"
    unfolding x_def y_def unat_push_half
    by (rule half_split)+
  have main: "unat ua * unat ub = H * 2 ^ 64 + unat l2"
    unfolding total sh1 sh2 H_def using s1 s2 by simp
  have "unat ua * unat ub < 2 ^ 64 * 2 ^ 64"
    using unsigned_less [of ua] unsigned_less [of ub] by (intro mult_strict_mono) auto
  with main have "H * 2 ^ 64 < 2 ^ 64 * 2 ^ 64" by linarith
  then have H: "H < 2 ^ 64" by simp
  define h where "h = (if l2 < y then (if l1 < x then p3 + 1 else p3) + drop_bit 32 p1 + 1
       else (if l1 < x then p3 + 1 else p3) + drop_bit 32 p1) + drop_bit 32 p2"
  have d: "drop_bit 32 p1 = of_nat (unat p1 div 2 ^ 32)" "drop_bit 32 p2 = of_nat (unat p2 div 2 ^ 32)"
    by (simp_all only: unat_high_half [symmetric] of_nat_unat ucast_id)
  have "h = of_nat H"
    unfolding h_def H_def d by (simp add: c1_def c2_def)
  with H have "unat h = H" by (simp add: unat_of_nat)
  moreover have "vm_mul128 ua ub = (h, l2)"
    by (simp add: vm_mul128_def Let_def h_def l2_def l1_def x_def y_def p ab)
  ultimately show ?thesis using main by simp
qed

lemma unat_shift_join:
  assumes "0 < k" "k < 64"
  shows "unat (push_bit (64 - k) hi OR drop_bit k lo :: u64)
    = (unat hi * 2 ^ 64 + unat lo) div 2 ^ k mod 2 ^ 64"
proof -
  let ?h = "push_bit (64 - k) hi :: u64" and ?l = "drop_bit k lo :: u64"
  have pw: "(2::nat) ^ 64 = 2 ^ (64 - k) * 2 ^ k" using assms by (simp flip: power_add)
  have "\<not> bit ?h n \<or> \<not> bit ?l n" for n
    using bit_imp_le_length [of lo "n + k"] assms by (auto simp: bit_simps add.commute)
  then have "?h OR ?l = ?h + ?l" by (simp add: disjunctive_add)
  then have "unat (?h OR ?l) = (unat ?h + unat ?l) mod 2 ^ 64" by (simp add: unat_word_ariths)
  also have "unat ?h = unat hi * 2 ^ (64 - k) mod 2 ^ 64"
    by (simp only: unsigned_push_bit_eq) (simp add: take_bit_eq_mod push_bit_eq_mult)
  also have "unat ?l = unat lo div 2 ^ k"
    by (simp only: unat_drop_bit_eq) (simp only: drop_bit_eq_div)
  also have "(unat hi * 2 ^ (64 - k) mod 2 ^ 64 + unat lo div 2 ^ k) mod 2 ^ 64
      = (unat hi * 2 ^ (64 - k) + unat lo div 2 ^ k) mod 2 ^ 64" by (simp add: mod_simps)
  also have "unat hi * 2 ^ (64 - k) + unat lo div 2 ^ k = (unat hi * 2 ^ 64 + unat lo) div 2 ^ k"
    unfolding pw by (simp flip: mult.assoc)
  finally show ?thesis .
qed

text \<open>The magnitude the shift produces, as a quotient.\<close>

definition mulshr_mag :: "i64 \<Rightarrow> i64 \<Rightarrow> nat \<Rightarrow> nat" where
  "mulshr_mag a b k = nat (\<bar>sint a\<bar> * \<bar>sint b\<bar>) div 2 ^ k"

lemma vm_mulshr_eq:
  fixes a b :: i64
  assumes k: "0 \<le> bits" "bits \<le> 62"
  defines "m \<equiv> mulshr_mag a b (nat bits)"
  defines "neg \<equiv> ((sint a < 0) \<noteq> (sint b < 0))"
  shows "vm_mulshr s a b bits =
    (if bits = 0 \<and> 2 ^ 64 \<le> m then Err ''Integer overflow'' s
     else if m mod 2 ^ 64 > (if neg then 2 ^ 63 else 2 ^ 63 - 1) then Err ''Integer overflow'' s
     else Ok (if neg then - of_nat m else of_nat m))"
proof -
  obtain hi lo where hl: "vm_mul128 (vm_uabs64 a) (vm_uabs64 b) = (hi, lo)" by fastforce
  have P: "unat hi * 2 ^ 64 + unat lo = nat (\<bar>sint a\<bar> * \<bar>sint b\<bar>)"
    using vm_mul128_correct [of "vm_uabs64 a" "vm_uabs64 b"]
    by (simp add: hl unat_vm_uabs64 nat_mult_distrib)
  define mag where "mag = (if bits = 0 then lo
    else push_bit (nat (64 - bits)) hi OR drop_bit (nat bits) lo)"
  have lo64: "unat lo < 2 ^ 64" using unsigned_less [of lo] by simp
  have mag: "unat mag = m mod 2 ^ 64"
  proof (cases "bits = 0")
    case True
    then have "m = unat hi * 2 ^ 64 + unat lo" by (simp add: m_def mulshr_mag_def flip: P)
    with True lo64 show ?thesis by (simp add: mag_def)
  next
    case False
    then have "0 < nat bits" "nat bits < 64" "nat (64 - bits) = 64 - nat bits"
      using k by auto
    then show ?thesis using False unat_shift_join [of "nat bits" hi lo]
      by (simp add: mag_def m_def mulshr_mag_def flip: P)
  qed
  then have magw: "mag = of_nat m" 
    by (simp add: word_unat_eq_iff unat_of_nat)
  have hi0: "hi \<noteq> 0 \<longleftrightarrow> 2 ^ 64 \<le> m" if "bits = 0"
  proof -
    have m: "m = unat hi * 2 ^ 64 + unat lo" using that by (simp add: m_def mulshr_mag_def flip: P)
    show ?thesis
    proof (cases "unat hi = 0")
      case True with lo64 m show ?thesis by (auto simp: unat_eq_0)
    next
      case False then show ?thesis using m by (cases "unat hi") auto
    qed
  qed
  have neg: "((a <s 0) = (\<not> b <s 0)) = neg" "((a <s 0) = (b <s 0)) = (\<not> neg)"
    by (auto simp: neg_def word_sless_alt)
  have cmp: "(mag > 0x7FFFFFFFFFFFFFFF) = (m mod 2 ^ 64 > 2 ^ 63 - 1)"
    "(mag > 0x8000000000000000) = (m mod 2 ^ 64 > 2 ^ 63)"
    by (simp_all add: word_less_nat_alt mag)
  have "vm_mulshr s a b bits = (if bits = 0 \<and> hi \<noteq> 0 then Err ''Integer overflow'' s
     else if neg then (if mag > 0x8000000000000000 then Err ''Integer overflow'' s else Ok (- mag))
     else (if mag > 0x7FFFFFFFFFFFFFFF then Err ''Integer overflow'' s else Ok mag))"
    using k by (simp add: vm_mulshr_def Let_def hl neg mag_def)
  also have "\<dots> = (if bits = 0 \<and> 2 ^ 64 \<le> m then Err ''Integer overflow'' s
     else if m mod 2 ^ 64 > (if neg then 2 ^ 63 else 2 ^ 63 - 1) then Err ''Integer overflow'' s
     else Ok (if neg then - of_nat m else of_nat m))"
    unfolding cmp unfolding magw using hi0 by (cases neg) auto
  finally show ?thesis .
qed

lemma sdiv_pow2: "(x::int) sdiv 2 ^ k = sgn x * (\<bar>x\<bar> div 2 ^ k)"
  by (simp add: signed_divide_int_def)


section \<open>What the fused shift computes\<close>

text \<open>
  C12: whenever the exact quotient of the 128-bit product by \<open>2 ^ bits\<close>, truncated towards
  zero, fits an \<open>int64_t\<close>, MULSHR returns it.
\<close>

theorem mulshr_exact:
  assumes "0 \<le> bits" "bits \<le> 62"
    and "- (2 ^ 63) \<le> (sint a * sint b) sdiv 2 ^ nat bits"
    and "(sint a * sint b) sdiv 2 ^ nat bits < 2 ^ 63"
  shows "\<exists>r. vm_mulshr s a b bits = Ok r \<and> sint r = (sint a * sint b) sdiv 2 ^ nat bits"
proof -
  define m where "m = mulshr_mag a b (nat bits)"
  define x where "x = sint a * sint b"
  have m: "int m = \<bar>x\<bar> div 2 ^ nat bits"
    by (simp add: m_def mulshr_mag_def x_def abs_mult zdiv_int)
  have q: "x sdiv 2 ^ nat bits = sgn x * int m" by (simp add: sdiv_pow2 m)
  define neg where "neg = ((sint a < 0) \<noteq> (sint b < 0))"
  have sgn: "sgn x * int m = (if neg then - int m else int m)"
    using m by (auto simp: neg_def x_def sgn_mult sgn_if zero_less_mult_iff mult_less_0_iff)
  have lim: "m \<le> (if neg then 2 ^ 63 else 2 ^ 63 - 1)"
    using assms(3,4) unfolding x_def [symmetric] q sgn by (auto split: if_splits)
  then have mm: "m mod 2 ^ 64 = m" "m < 2 ^ 64" by (auto split: if_splits)
  have "vm_mulshr s a b bits = Ok (if neg then - of_nat m else of_nat m)"
    using lim mm by (simp only: vm_mulshr_eq [OF assms(1,2), of s a b, folded m_def neg_def]) simp
  moreover have "sint (if neg then - of_nat m else of_nat m :: i64) = (if neg then - int m else int m)"
  proof -
    have e: "(if neg then - of_nat m else of_nat m :: i64) = word_of_int (if neg then - int m else int m)" by simp
    show ?thesis unfolding e using lim
      by (auto simp: signed_of_int signed_take_bit_int_eq_self split: if_splits)
  qed
  ultimately show ?thesis using q sgn by (simp add: x_def)
qed

theorem mulshr_exact_witness:
  "\<exists>r. vm_mulshr () (- 7) 0x4000000000000001 2 = Ok r \<and>
     sint r = (sint (- 7 :: i64) * sint (0x4000000000000001 :: i64)) sdiv 2 ^ nat 2"
proof -
  have "(sint (- 7 :: i64) * sint (0x4000000000000001 :: i64)) sdiv 2 ^ nat 2 = - 8070450532247928833"
    by (simp add: signed_divide_int_def)
  then show ?thesis by (intro mulshr_exact) simp_all
qed

text \<open>
  C13: the overflow test looks at the low 64 bits of the shifted product only. For every shift
  from 1 to 60 the product of \<open>2 ^ 62\<close> with itself, whose exact quotient is far above the
  \<open>int64_t\<close> range, is returned as 0 without an error; only \<open>bits = 0\<close> checks the high word.
\<close>

theorem mulshr_overflow_gap:
  assumes "1 \<le> bits" "bits \<le> 60"
  shows "vm_mulshr s 0x4000000000000000 0x4000000000000000 bits = Ok 0 \<and>
    2 ^ 64 \<le> (sint (0x4000000000000000 :: i64) * sint (0x4000000000000000 :: i64)) sdiv 2 ^ nat bits"
proof

  have p: "(2::nat) ^ 124 div 2 ^ nat bits = 2 ^ (124 - nat bits)" 
    using assms by (simp add: power_diff)
  have "nat bits \<le> 60" using assms by simp
  then have "124 - nat bits = 64 + (60 - nat bits)" by simp
  then have e: "(2::nat) ^ (124 - nat bits) = 2 ^ 64 * 2 ^ (60 - nat bits)"
    by (simp only: power_add)
  have m: "mulshr_mag 0x4000000000000000 0x4000000000000000 (nat bits) = 2 ^ 64 * 2 ^ (60 - nat bits)"
    using p e by (simp add: mulshr_mag_def)
  have z: "(of_nat (2 ^ 64 * 2 ^ (60 - nat bits)) :: i64) = 0"
    by (simp only: word_of_nat_eq_0_iff) simp
  show "vm_mulshr s 0x4000000000000000 0x4000000000000000 bits = Ok 0"
    using assms by (simp only: vm_mulshr_eq m z) simp
  have "\<bar>sint (0x4000000000000000 :: i64) * sint (0x4000000000000000 :: i64)\<bar> div 2 ^ nat bits
      = int (2 ^ 64 * 2 ^ (60 - nat bits))"
    unfolding m [symmetric] by (simp add: mulshr_mag_def zdiv_int)
  then show "2 ^ 64 \<le> (sint (0x4000000000000000 :: i64) * sint (0x4000000000000000 :: i64)) sdiv 2 ^ nat bits"
    by (simp add: sdiv_pow2)
qed

theorem mulshr_overflow_gap_witness:
  "vm_mulshr () 0x4000000000000000 0x4000000000000000 1 = Ok 0"
  using mulshr_overflow_gap [of 1 "()"] by simp

end
