(* ===== verification/F64.thy ===== *)
theory F64
  imports Prelude
begin

text \<open>
  \<open>MMFLOAT\<close> is C's \<open>double\<close>: IEEE-754 binary64 with round-to-nearest-even, kept as its 64
  bits so that the unions of the VM (\<open>BCValue\<close>) read back the same bits. Every finite double is
  an integer multiple of \<open>2 ^ - 1074\<close>; \<open>f_int\<close> is that integer, so sums, products, quotients
  and remainders are computed exactly over \<^typ>\<open>int\<close> and rounded once by \<open>round_mag\<close>.
  Conversions to \<open>int64_t\<close> out of range are undefined in C and yield \<open>None\<close>.
\<close>

type_synonym f64 = "64 word"

section \<open>Decoding\<close>

definition f_sign :: "f64 \<Rightarrow> bool" where
  "f_sign x = (2 ^ 63 \<le> unat x)"

definition f_mag :: "f64 \<Rightarrow> nat" where
  "f_mag x = unat x mod 2 ^ 63"

definition f_inf_mag :: nat where
  "f_inf_mag = 2047 * 2 ^ 52"

definition f_is_nan :: "f64 \<Rightarrow> bool" where
  "f_is_nan x = (f_mag x > f_inf_mag)"

definition f_is_inf :: "f64 \<Rightarrow> bool" where
  "f_is_inf x = (f_mag x = f_inf_mag)"

definition f_finite :: "f64 \<Rightarrow> bool" where
  "f_finite x = (f_mag x < f_inf_mag)"

text \<open>The magnitude bits of a finite double as a multiple of \<open>2 ^ - 1074\<close>.\<close>

definition mag_val :: "nat \<Rightarrow> nat" where
  "mag_val b = (if b < 2 ^ 52 then b
                else (b mod 2 ^ 52 + 2 ^ 52) * 2 ^ (b div 2 ^ 52 - 1))"

definition f_int :: "f64 \<Rightarrow> int" where
  "f_int x = (if f_sign x then - int (mag_val (f_mag x)) else int (mag_val (f_mag x)))"

section \<open>Rounding\<close>

fun bit_len_acc :: "nat \<Rightarrow> nat \<Rightarrow> nat" where
  "bit_len_acc n acc = (if n = 0 then acc else bit_len_acc (n div 2) (acc + 1))"

declare bit_len_acc.simps [simp del]

definition bit_len :: "nat \<Rightarrow> nat" where
  "bit_len n = bit_len_acc n 0"

text \<open>On numerals the bit length follows the binary representation.\<close>

lemma bit_len_acc_eval:
  "bit_len_acc 0 acc = acc"
  "bit_len_acc 1 acc = acc + 1"
  "bit_len_acc (Suc 0) acc = acc + 1"
  "bit_len_acc (numeral (Num.Bit0 m)) acc = bit_len_acc (numeral m) (acc + 1)"
  "bit_len_acc (numeral (Num.Bit1 m)) acc = bit_len_acc (numeral m) (acc + 1)"
  by (subst bit_len_acc.simps, simp add: bit_len_acc.simps)+

text \<open>Nearest-even rounding of \<open>n / d\<close> (in units of \<open>2 ^ - 1074\<close>) to magnitude bits.\<close>

definition round_mag :: "nat \<Rightarrow> nat \<Rightarrow> nat" where
  "round_mag n d =
     (let k = bit_len (n div d) - 53;
          dk = d * 2 ^ k;
          q = n div dk;
          r = n mod dk;
          q' = (if 2 * r > dk \<or> (2 * r = dk \<and> odd q) then q + 1 else q)
      in min f_inf_mag (k * 2 ^ 52 + q'))"

definition f_pack :: "bool \<Rightarrow> nat \<Rightarrow> f64" where
  "f_pack neg mag = of_nat ((if neg then 2 ^ 63 else 0) + mag)"

definition f_nan :: f64 where "f_nan = 0x7FF8000000000000"

definition f_inf :: "bool \<Rightarrow> f64" where "f_inf neg = f_pack neg f_inf_mag"

definition f_zero :: "bool \<Rightarrow> f64" where "f_zero neg = f_pack neg 0"

text \<open>Round the rational \<open>x / d\<close>; \<open>zneg\<close> is the sign of an exact zero.\<close>

definition f_round :: "bool \<Rightarrow> int \<Rightarrow> nat \<Rightarrow> f64" where
  "f_round zneg x d =
     (if x = 0 then f_zero zneg else f_pack (x < 0) (round_mag (nat \<bar>x\<bar>) d))"

section \<open>Arithmetic\<close>

definition f_neg :: "f64 \<Rightarrow> f64" where
  "f_neg x = x XOR 0x8000000000000000"

definition f_add :: "f64 \<Rightarrow> f64 \<Rightarrow> f64" where
  "f_add a b =
     (if f_is_nan a \<or> f_is_nan b then f_nan
      else if f_is_inf a then (if f_is_inf b \<and> f_sign a \<noteq> f_sign b then f_nan else f_inf (f_sign a))
      else if f_is_inf b then f_inf (f_sign b)
      else f_round (f_sign a \<and> f_sign b) (f_int a + f_int b) 1)"

definition f_sub :: "f64 \<Rightarrow> f64 \<Rightarrow> f64" where
  "f_sub a b = f_add a (f_neg b)"

definition f_mul :: "f64 \<Rightarrow> f64 \<Rightarrow> f64" where
  "f_mul a b =
     (let neg = (f_sign a \<noteq> f_sign b) in
      if f_is_nan a \<or> f_is_nan b then f_nan
      else if f_is_inf a \<or> f_is_inf b
           then (if f_mag a = 0 \<or> f_mag b = 0 then f_nan else f_inf neg)
      else f_round neg (f_int a * f_int b) (2 ^ 1074))"

definition f_div :: "f64 \<Rightarrow> f64 \<Rightarrow> f64" where
  "f_div a b =
     (let neg = (f_sign a \<noteq> f_sign b) in
      if f_is_nan a \<or> f_is_nan b then f_nan
      else if f_is_inf a then (if f_is_inf b then f_nan else f_inf neg)
      else if f_is_inf b then f_zero neg
      else if f_int b = 0 then (if f_int a = 0 then f_nan else f_inf neg)
      else f_round neg (f_int a * 2 ^ 1074 * sgn (f_int b)) (nat \<bar>f_int b\<bar>))"

text \<open>C's \<open>fmod\<close>: the exact remainder of truncating division, with the dividend's sign.\<close>

definition f_mod :: "f64 \<Rightarrow> f64 \<Rightarrow> f64" where
  "f_mod a b =
     (if f_is_nan a \<or> f_is_nan b \<or> f_is_inf a \<or> f_int b = 0 \<and> f_finite b then f_nan
      else if f_is_inf b then a
      else f_round (f_sign a) (f_int a smod f_int b) 1)"

definition f_eq :: "f64 \<Rightarrow> f64 \<Rightarrow> bool" where
  "f_eq a b = (if f_is_nan a \<or> f_is_nan b then False
     else if f_is_inf a \<or> f_is_inf b then a = b else f_int a = f_int b)"

definition f_lt :: "f64 \<Rightarrow> f64 \<Rightarrow> bool" where
  "f_lt a b = (if f_is_nan a \<or> f_is_nan b then False
     else if f_is_inf a then f_sign a \<and> \<not> (f_is_inf b \<and> f_sign b)
     else if f_is_inf b then \<not> f_sign b
     else f_int a < f_int b)"

definition f_le :: "f64 \<Rightarrow> f64 \<Rightarrow> bool" where
  "f_le a b = (f_lt a b \<or> f_eq a b)"

section \<open>Conversions\<close>

definition f_of_i64 :: "i64 \<Rightarrow> f64" where
  "f_of_i64 i = f_round False (sint i * 2 ^ 1074) 1"

text \<open>The truncating cast \<open>(int64_t)x\<close>.\<close>

definition f_trunc :: "f64 \<Rightarrow> i64 option" where
  "f_trunc x =
     (if \<not> f_finite x then None
      else let t = f_int x sdiv 2 ^ 1074
           in if - (2 ^ 63) \<le> t \<and> t < 2 ^ 63 then Some (word_of_int t) else None)"

definition f_half :: f64 where "f_half = 0x3FE0000000000000"

text \<open>
  The VM's inline rounding \<open>(x >= 0) ? (int64_t)(x + 0.5) : (int64_t)(x - 0.5)\<close>.
\<close>

definition f_round_half_away :: "f64 \<Rightarrow> i64 option" where
  "f_round_half_away x =
     (if f_le (f_zero False) x then f_trunc (f_add x f_half) else f_trunc (f_sub x f_half))"

text \<open>
  \<open>FloatToInt64\<close> of the interpreter (\<open>core/mmbasic/MMBasic.c\<close>): a range check, a plain cast
  beyond \<open>2 ^ 52 - 1\<close> and the same rounding below. Its bounds are the doubles nearest to
  \<open>- 2 ^ 63 - 0.5\<close> and \<open>2 ^ 63 - 1 + 0.5\<close>, that is \<open>\<plusminus> 2 ^ 63\<close>.
\<close>

definition FloatToInt64 :: "'s \<Rightarrow> f64 \<Rightarrow> ('s, i64) outcome" where
  "FloatToInt64 s x =
     (if f_lt x 0xC3E0000000000000 \<or> f_lt 0x43E0000000000000 x then Err ''Number too large'' s
      else case (if f_lt x (f_of_i64 (- 0xfffffffffffff)) \<or> f_lt (f_of_i64 0xfffffffffffff) x
                 then f_trunc x else f_round_half_away x)
           of None \<Rightarrow> Fault | Some i \<Rightarrow> Ok i)"

section \<open>Exactness on dyadics\<close>

lemma bit_len_acc_bounds:
  "0 < n \<Longrightarrow> acc < bit_len_acc n acc \<and> 2 ^ (bit_len_acc n acc - acc - 1) \<le> n \<and>
     n < 2 ^ (bit_len_acc n acc - acc)"
proof (induction n acc rule: bit_len_acc.induct)
  case (1 n acc)
  show ?case
  proof (cases "n div 2 = 0")
    case True
    with "1.prems" have "n = 1" by auto
    then show ?thesis by (simp add: bit_len_acc_eval)
  next
    case False
    define l where "l = bit_len_acc (n div 2) (acc + 1)"
    have IH: "acc + 1 < l" "2 ^ (l - (acc + 1) - 1) \<le> n div 2" "n div 2 < 2 ^ (l - (acc + 1))"
      using "1.IH" "1.prems" False by (auto simp: l_def)
    then obtain d where d: "l = acc + 2 + d" using le_Suc_ex [of "acc + 2" l] by auto
    have "bit_len_acc n acc = l" using "1.prems" by (subst bit_len_acc.simps) (simp add: l_def)
    moreover have "2 ^ Suc d \<le> n" "n < 2 ^ Suc (Suc d)" using IH(2,3) by (auto simp: d)
    ultimately show ?thesis by (simp add: d numeral_2_eq_2)
  qed
qed

lemma bit_len_bounds:
  assumes "0 < n"
  shows "0 < bit_len n" "2 ^ (bit_len n - 1) \<le> n" "n < 2 ^ bit_len n"
  using bit_len_acc_bounds [OF assms, of 0] by (simp_all add: bit_len_def)

lemma div_mod_join: "x < c \<Longrightarrow> (y * c + x) div c = y \<and> (y * c + x) mod c = (x :: nat)"
  by simp

text \<open>A dyadic with a 53-bit significand is its own rounding.\<close>

lemma round_mag_exact:
  assumes m: "m < 2 ^ 53" and k: "k \<le> 2045"
  shows "mag_val (round_mag (m * 2 ^ k) 1) = m * 2 ^ k \<and> round_mag (m * 2 ^ k) 1 < f_inf_mag"
proof -
  define n where "n = m * 2 ^ k"
  define j where "j = bit_len n - 53"
  have bound: "n < 2 ^ (53 + k)" using m by (simp add: n_def power_add)
  show ?thesis
  proof (cases "n < 2 ^ 53")
    case True
    have "j = 0"
    proof (cases "n = 0")
      case False
      have "\<not> 53 < bit_len n"
      proof
        assume "53 < bit_len n"
        then have "(2::nat) ^ 53 \<le> 2 ^ (bit_len n - 1)" by (intro power_increasing) auto
        with bit_len_bounds(2) [of n] False True show False by simp
      qed
      then show ?thesis by (simp add: j_def)
    qed (simp add: j_def bit_len_def bit_len_acc_eval)
    then have r: "round_mag n 1 = n" using True
      by (simp add: round_mag_def Let_def j_def f_inf_mag_def min_def)
    have "mag_val n = n"
    proof (cases "n < 2 ^ 52")
      case True then show ?thesis by (simp add: mag_val_def)
    next
      case False
      then have "n div 2 ^ 52 = 1" "n mod 2 ^ 52 = n - 2 ^ 52"
        using True by (auto simp: div_if mod_if)
      with False show ?thesis by (simp add: mag_val_def)
    qed
    with r True show ?thesis by (simp add: n_def f_inf_mag_def)
  next
    case False
    then have n0: "0 < n" by simp
    have bl: "53 < bit_len n"
    proof (rule ccontr)
      assume "\<not> 53 < bit_len n"
      then have "(2::nat) ^ bit_len n \<le> 2 ^ 53" by (intro power_increasing) auto
      with bit_len_bounds(3) [OF n0] False show False by simp
    qed
    have jl: "bit_len n = 53 + j" using bl by (simp add: j_def)
    have lo: "2 ^ (52 + j) \<le> n" and hi: "n < 2 ^ (53 + j)"
      using bit_len_bounds(2,3) [OF n0] by (simp_all add: jl)
    have jk: "j \<le> k"
    proof (rule ccontr)
      assume "\<not> j \<le> k"
      then have "(2::nat) ^ (53 + k) \<le> 2 ^ (52 + j)" by (intro power_increasing) auto
      with lo bound show False by simp
    qed
    define q where "q = m * 2 ^ (k - j)"
    have nq: "n = q * 2 ^ j" using jk by (simp add: n_def q_def flip: power_add)
    have ql: "2 ^ 52 \<le> q" "q < 2 ^ 53"
      using lo hi by (simp_all add: nq power_add)
    have r: "round_mag n 1 = min f_inf_mag (j * 2 ^ 52 + q)"
    proof -
      have "n div (1 * 2 ^ j) = q" "n mod (1 * 2 ^ j) = 0" by (simp_all add: nq)
      then show ?thesis by (simp add: round_mag_def Let_def j_def [symmetric])
    qed
    have lim: "j * 2 ^ 52 + q < f_inf_mag" using jk k ql by (simp add: f_inf_mag_def)
    have dm: "(j * 2 ^ 52 + q) div 2 ^ 52 = j + 1" "(j * 2 ^ 52 + q) mod 2 ^ 52 = q - 2 ^ 52"
    proof -
      have e: "j * 2 ^ 52 + q = (j + 1) * 2 ^ 52 + (q - 2 ^ 52)" using ql by simp
      have "q - 2 ^ 52 < 2 ^ 52" using ql by simp
      then show "(j * 2 ^ 52 + q) div 2 ^ 52 = j + 1" "(j * 2 ^ 52 + q) mod 2 ^ 52 = q - 2 ^ 52"
        unfolding e using div_mod_join [of "q - 2 ^ 52" "2 ^ 52" "j + 1"] by blast+
    qed
    have "\<not> j * 2 ^ 52 + q < 2 ^ 52" using ql by simp
    then have "mag_val (j * 2 ^ 52 + q) = (q - 2 ^ 52 + 2 ^ 52) * 2 ^ j"
      unfolding mag_val_def dm by simp
    also have "\<dots> = n" using ql by (simp add: nq)
    finally show ?thesis using r lim by (simp add: n_def)
  qed
qed

lemma f_pack_fields:
  assumes "mag < 2 ^ 63"
  shows "f_sign (f_pack neg mag) = neg" "f_mag (f_pack neg mag) = mag"
proof -
  have "unat (f_pack neg mag) = (if neg then 2 ^ 63 else 0) + mag"
    using assms by (auto simp: f_pack_def unat_of_nat simp del: of_nat_add)
  with assms show "f_sign (f_pack neg mag) = neg" "f_mag (f_pack neg mag) = mag"
    by (auto simp: f_sign_def f_mag_def)
qed

text \<open>Integers scaled by a power of two round to themselves.\<close>

lemma f_round_exact:
  assumes "\<bar>m\<bar> < 2 ^ 53" "k \<le> 2045"
  shows "f_finite (f_round z (m * 2 ^ k) 1) \<and> f_int (f_round z (m * 2 ^ k) 1) = m * 2 ^ k"
proof (cases "m = 0")
  case True
  then show ?thesis
    by (simp add: f_round_def f_zero_def f_finite_def f_int_def f_pack_fields mag_val_def f_inf_mag_def)
next
  case False
  have n: "nat \<bar>m * 2 ^ k\<bar> = nat \<bar>m\<bar> * 2 ^ k" by (simp add: abs_mult nat_mult_distrib nat_power_eq)
  define R where "R = round_mag (nat \<bar>m * 2 ^ k\<bar>) 1"
  have r: "mag_val R = nat \<bar>m * 2 ^ k\<bar>" "R < f_inf_mag"
    using round_mag_exact [of "nat \<bar>m\<bar>" k] assms unfolding n R_def by auto
  then have lt: "R < 2 ^ 63" by (simp add: f_inf_mag_def)
  have e: "f_round z (m * 2 ^ k) 1 = f_pack (m < 0) R"
    using False by (simp add: f_round_def R_def mult_less_0_iff)
  show ?thesis using r unfolding e
    by (auto simp: f_finite_def f_int_def f_pack_fields [OF lt] zero_less_mult_iff mult_less_0_iff mult_le_0_iff abs_mult)
qed

lemma f_round_exact_int:
  assumes "\<bar>i\<bar> \<le> 2 ^ 53" "0 < k" "k \<le> 1074"
  shows "f_finite (f_round z (i * 2 ^ k) 1) \<and> f_int (f_round z (i * 2 ^ k) 1) = i * 2 ^ k"
proof (cases "\<bar>i\<bar> = 2 ^ 53")
  case True
  then have "i * 2 ^ k = sgn i * 2 ^ (53 + k)"
    by (simp add: sgn_if abs_if power_add split: if_splits)
  moreover have "\<bar>sgn i\<bar> < (2::int) ^ 53" by (simp add: sgn_if)
  ultimately show ?thesis using f_round_exact [of "sgn i" "53 + k" z] assms by simp
next
  case False
  then show ?thesis using f_round_exact [of i k z] assms by simp
qed

lemma f_of_i64_exact:
  assumes "\<bar>sint i\<bar> \<le> 2 ^ 53"
  shows "f_finite (f_of_i64 i)" "f_int (f_of_i64 i) = sint i * 2 ^ 1074"
  using f_round_exact_int [OF assms, of 1074 False] by (simp_all only: f_of_i64_def)

lemma f_trunc_int:
  assumes "f_finite x" "f_int x sdiv 2 ^ 1074 = t" "- (2 ^ 63) \<le> t" "t < 2 ^ 63"
  shows "f_trunc x = Some (word_of_int t)"
  using assms by (simp add: f_trunc_def Let_def)

lemma f_trunc_of_i64:
  assumes "\<bar>sint i\<bar> \<le> 2 ^ 53"
  shows "f_trunc (f_of_i64 i) = Some i"
proof -
  have "(sint i * 2 ^ 1074) sdiv 2 ^ 1074 = sint i"
    by (simp only: signed_divide_int_def) (simp add: abs_mult sgn_mult abs_sgn_eq mult_sgn_abs)
  then show ?thesis
    using f_trunc_int [OF f_of_i64_exact(1) [OF assms]] f_of_i64_exact(2) [OF assms]
      sint_ge [of i] sint_lt [of i] by simp
qed

lemma f_add_commute: "f_add a b = f_add b a"
  by (auto simp: f_add_def add.commute conj_commute)

lemma f_mul_commute: "f_mul a b = f_mul b a"
proof -
  have "(f_sign a \<noteq> f_sign b) = (f_sign b \<noteq> f_sign a)" by blast
  moreover have "f_int a * f_int b = f_int b * f_int a" by (rule mult.commute)
  ultimately show ?thesis by (simp only: f_mul_def Let_def disj_commute)
qed


lemma f_half_exact: "f_finite f_half" "f_int f_half = 2 ^ 1073"
  by (simp_all add: f_half_def f_finite_def f_int_def f_mag_def f_sign_def f_inf_mag_def mag_val_def)

lemma f_finite_not: "f_finite x \<Longrightarrow> \<not> f_is_nan x" "f_finite x \<Longrightarrow> \<not> f_is_inf x"
  by (auto simp: f_finite_def f_is_nan_def f_is_inf_def)

lemma f_neg_half: "f_finite (f_neg f_half)" "f_int (f_neg f_half) = - (2 ^ 1073)"
  by (simp_all add: f_neg_def f_half_def f_finite_def f_int_def f_mag_def f_sign_def f_inf_mag_def mag_val_def)

lemma f_add_finite:
  "f_finite a \<Longrightarrow> f_finite b \<Longrightarrow>
   f_add a b = f_round (f_sign a \<and> f_sign b) (f_int a + f_int b) 1"
  by (simp add: f_add_def f_finite_not)

lemma f_zero_fields: "f_finite (f_zero z)" "f_int (f_zero z) = 0"
  by (simp_all add: f_zero_def f_finite_def f_int_def f_pack_fields mag_val_def f_inf_mag_def)

lemma f_le_finite: "f_finite a \<Longrightarrow> f_finite b \<Longrightarrow> f_le a b = (f_int a \<le> f_int b)"
  by (auto simp: f_le_def f_lt_def f_eq_def f_finite_not)

lemma f_lt_finite: "f_finite a \<Longrightarrow> f_finite b \<Longrightarrow> f_lt a b = (f_int a < f_int b)"
  by (simp add: f_lt_def f_finite_not)

lemma f_eq_finite: "f_finite a \<Longrightarrow> f_finite b \<Longrightarrow> f_eq a b = (f_int a = f_int b)"
  by (simp add: f_eq_def f_finite_not)

text \<open>Adding a half to an integer below \<open>2 ^ 52\<close> is exact, so the inline rounding is the identity there.\<close>

lemma half_odd: "i * 2 ^ 1074 + 2 ^ 1073 = (2 * i + 1) * (2 ^ 1073 :: int)"
  "i * 2 ^ 1074 - 2 ^ 1073 = (2 * i - 1) * (2 ^ 1073 :: int)"
proof -
  have "(2::int) ^ 1074 = 2 * 2 ^ 1073" by (simp flip: power_Suc)
  then show "i * 2 ^ 1074 + 2 ^ 1073 = (2 * i + 1) * (2 ^ 1073 :: int)"
    "i * 2 ^ 1074 - 2 ^ 1073 = (2 * i - 1) * (2 ^ 1073 :: int)"
    by (simp_all only: distrib_right left_diff_distrib mult.assoc mult_1)
qed

lemma sdiv_half:
  "0 \<le> i \<Longrightarrow> ((2 * i + 1) * 2 ^ 1073) sdiv 2 ^ 1074 = (i :: int)"
  "i < 0 \<Longrightarrow> ((2 * i - 1) * 2 ^ 1073) sdiv 2 ^ 1074 = (i :: int)"
proof -
  define c :: int where "c = 2 ^ 1073"
  have c: "0 < c" "(2::int) ^ 1074 = 2 * c" by (simp_all add: c_def flip: power_Suc)
  { assume "0 \<le> i"
    then have "((2 * i + 1) * c) sdiv (2 * c) = ((2 * i + 1) * c) div (2 * c)"
      using c(1) by (simp add: signed_divide_int_def sgn_mult)
    also have "\<dots> = (2 * i + 1) div 2" using c(1) by simp
    finally show "((2 * i + 1) * 2 ^ 1073) sdiv 2 ^ 1074 = i"
      unfolding c(2) by (simp add: c_def) }
  { assume "i < 0"
    then have "((2 * i - 1) * c) sdiv (2 * c) = - (((1 - 2 * i) * c) div (2 * c))"
      using c(1) by (simp add: signed_divide_int_def sgn_mult abs_mult)
    also have "((1 - 2 * i) * c) div (2 * c) = (1 - 2 * i) div 2" using c(1) by simp
    also have "- ((1 - 2 * i) div 2) = i" by presburger
    finally show "((2 * i - 1) * 2 ^ 1073) sdiv 2 ^ 1074 = i"
      unfolding c(2) by (simp add: c_def) }
qed


section \<open>The VM's rounding against the interpreter's\<close>

text \<open>C14: rounding a converted integer gives the integer back for every magnitude below \<open>2 ^ 52\<close>.\<close>

theorem round_half_away_of_i64:
  assumes "\<bar>sint i\<bar> < 2 ^ 52"
  shows "f_round_half_away (f_of_i64 i) = Some i"
proof -
  have le: "\<bar>sint i\<bar> \<le> 2 ^ 53" using assms by simp
  note x = f_of_i64_exact [OF le]
  have rng: "- (2 ^ 63) \<le> sint i" "sint i < 2 ^ 63" using sint_ge [of i] sint_lt [of i] by simp_all
  show ?thesis
  proof (cases "0 \<le> sint i")
    case True
    have "f_le (f_zero False) (f_of_i64 i)"
      using True x by (simp only: f_le_finite f_zero_fields) (simp only: zero_le_mult_iff zero_le_power zero_le_numeral simp_thms)
    moreover have a: "f_finite (f_add (f_of_i64 i) f_half) \<and> f_int (f_add (f_of_i64 i) f_half) = (2 * sint i + 1) * 2 ^ 1073"
      unfolding f_add_finite [OF x(1) f_half_exact(1)] x(2) f_half_exact(2) half_odd
      using assms True by (intro f_round_exact) auto
    ultimately show ?thesis
      using f_trunc_int [OF conjunct1 [OF a] _ rng] sdiv_half(1) [OF True] a
      by (simp only: f_round_half_away_def if_True) simp
  next
    case False
    have "\<not> f_le (f_zero False) (f_of_i64 i)"
      using False x by (simp only: f_le_finite f_zero_fields) (simp only: zero_le_mult_iff zero_less_power zero_less_numeral not_le simp_thms, simp)
    moreover have a: "f_finite (f_sub (f_of_i64 i) f_half) \<and> f_int (f_sub (f_of_i64 i) f_half) = (2 * sint i - 1) * 2 ^ 1073"
      unfolding f_sub_def f_add_finite [OF x(1) f_neg_half(1)] x(2) f_neg_half(2)
        diff_conv_add_uminus [symmetric] half_odd
      using assms False by (intro f_round_exact) auto
    ultimately show ?thesis
      using f_trunc_int [OF conjunct1 [OF a] _ rng] sdiv_half(2) [of "sint i"] False a
      by (simp only: f_round_half_away_def if_False) simp
  qed
qed

theorem round_half_away_of_i64_witness:
  "f_round_half_away (f_of_i64 (- 42)) = Some (- 42)"
  by (rule round_half_away_of_i64) simp

named_theorems f64_eval

lemmas [f64_eval] = f_round_half_away_def f_half_def f_trunc_def f_finite_def f_inf_mag_def
  f_mag_def f_add_def f_sub_def f_neg_def f_le_def f_lt_def f_eq_def f_zero_def f_inf_def f_nan_def
  f_pack_def f_is_nan_def f_is_inf_def f_round_def round_mag_def f_int_def f_sign_def mag_val_def
  f_of_i64_def signed_divide_int_def Let_def bit_len_def bit_len_acc_eval

lemma f_of_i64_values:
  "f_of_i64 4503599627370497 = 0x4330000000000001"
  "f_of_i64 0xfffffffffffff = 0x432FFFFFFFFFFFFE"
  "f_of_i64 (- 0xfffffffffffff) = 0xC32FFFFFFFFFFFFE"
  by (simp_all add: f64_eval)

lemma round_half_away_2p52_1: "f_round_half_away 0x4330000000000001 = Some 4503599627370498"
  by (simp add: f64_eval)

lemma round_half_away_below_half: "f_round_half_away 0x3FDFFFFFFFFFFFFF = Some 1"
  by (simp add: f64_eval)

lemma f_lt_2p52_1: "f_lt 0x432FFFFFFFFFFFFE 0x4330000000000001"
   "\<not> f_lt 0x4330000000000001 0xC3E0000000000000" "\<not> f_lt 0x43E0000000000000 0x4330000000000001"
  by (simp_all add: f64_eval)

lemma f_trunc_2p52_1: "f_trunc 0x4330000000000001 = Some 4503599627370497"
  by (simp add: f64_eval)


end
