(* ===== verification/MMHeap.thy ===== *)
theory MMHeap
  imports Prelude
begin

text \<open>
  The page heap of \<open>core/mmbasic/Memory.c\<close>: 256-byte pages with two status bits each, packed 16 to
  a 32-bit word of \<open>mmap\<close>. Addresses are offsets from \<open>MMHeap\<close>; a page's address is 256 times its
  index. The port modelled has no PSRAM (\<open>PSRAMsize\<close> is 0 and the PSRAM branches are dead).
  The first half translates the C code on the packed words; the second half shows that it refines
  an array of page states, and that allocation returns the highest run of free pages, fails only
  when there is none, and keeps every other block.
\<close>

section \<open>State and bit-level access\<close>

text \<open>What \<open>TryGetMemory\<close> records when it runs out: \<open>bc_alloc_fail_size\<close> and its companions.\<close>

record alloc_fail =
  fail_size :: int
  fail_pages :: nat
  fail_used :: nat
  fail_free :: nat
  fail_longest :: nat
  fail_total :: nat

record mmheap =
  mmap :: "u32 list"
  hmem :: "nat \<Rightarrow> u8"
  afail :: alloc_fail

definition PAGESIZE :: nat where "PAGESIZE = 256"
definition PAGESPERWORD :: nat where "PAGESPERWORD = 16"
definition PUSED :: nat where "PUSED = 1"
definition PLAST :: nat where "PLAST = 2"

text \<open>The number of pages: \<open>heap_memory_size / PAGESIZE\<close>.\<close>

definition npages :: "mmheap \<Rightarrow> nat" where
  "npages h = PAGESPERWORD * length (mmap h)"

definition word_get :: "u32 \<Rightarrow> nat \<Rightarrow> nat" where
  "word_get w i = unat (drop_bit i w AND 3)"

definition word_set :: "u32 \<Rightarrow> nat \<Rightarrow> nat \<Rightarrow> u32" where
  "word_set w i bits = push_bit i (of_nat bits) OR (w AND NOT (push_bit i 3))"

text \<open>\<open>None\<close>: the page's word lies outside \<open>mmap\<close>.\<close>

definition MBitsGet :: "mmheap \<Rightarrow> nat \<Rightarrow> nat option" where
  "MBitsGet h addr =
     (let p = addr div PAGESIZE
      in map_option (\<lambda>w. word_get w ((p mod PAGESPERWORD) * 2)) (get_idx (mmap h) (p div PAGESPERWORD)))"

definition MBitsSet :: "mmheap \<Rightarrow> nat \<Rightarrow> nat \<Rightarrow> mmheap" where
  "MBitsSet h addr bits =
     (let p = addr div PAGESIZE; k = p div PAGESPERWORD
      in h\<lparr>mmap := (mmap h)[k := word_set (mmap h ! k) ((p mod PAGESPERWORD) * 2) bits]\<rparr>)"

definition page_used :: "mmheap \<Rightarrow> nat \<Rightarrow> bool" where
  "page_used h addr = (case MBitsGet h addr of None \<Rightarrow> True | Some b \<Rightarrow> odd b)"

section \<open>Allocation from the top\<close>

text \<open>
  The scan of \<open>TryGetMemory\<close>: \<open>n\<close> and \<open>j\<close> are C \<open>unsigned int\<close>s; \<open>p\<close> counts the pages still to
  look at, so the page looked at is \<open>p - 1\<close>.
\<close>

fun top_scan :: "mmheap \<Rightarrow> nat \<Rightarrow> u32 \<Rightarrow> u32 \<Rightarrow> nat option" where
  "top_scan h 0 n j = None"
| "top_scan h (Suc p) n j =
     (if \<not> page_used h (p * PAGESIZE)
      then (if n - 1 = 0 then Some p else top_scan h p (n - 1) j)
      else top_scan h p j j)"

text \<open>\<open>while (j--) MBitsSet(addr + (j * PAGESIZE), PUSED)\<close>.\<close>

fun mark_used :: "mmheap \<Rightarrow> nat \<Rightarrow> nat \<Rightarrow> mmheap" where
  "mark_used h addr 0 = h"
| "mark_used h addr (Suc j) = mark_used (MBitsSet h (addr + j * PAGESIZE) PUSED) addr j"

definition memset0 :: "mmheap \<Rightarrow> nat \<Rightarrow> nat \<Rightarrow> mmheap" where
  "memset0 h addr sz = h\<lparr>hmem := (\<lambda>a. if addr \<le> a \<and> a < addr + sz then 0 else hmem h a)\<rparr>"

fun scan_stats :: "mmheap \<Rightarrow> nat list \<Rightarrow> nat \<Rightarrow> nat \<Rightarrow> nat \<Rightarrow> nat \<Rightarrow> nat \<times> nat \<times> nat" where
  "scan_stats h [] used free longest cur = (used, free, max longest cur)"
| "scan_stats h (p # ps) used free longest cur =
     (if page_used h (p * PAGESIZE)
      then scan_stats h ps (used + 1) free (max longest cur) 0
      else scan_stats h ps used (free + 1) longest (cur + 1))"

text \<open>\<open>(used, free, largest free run, total)\<close> in pages.\<close>

definition heap_scan_stats :: "mmheap \<Rightarrow> nat \<times> nat \<times> nat \<times> nat" where
  "heap_scan_stats h =
     (let (used, free, longest) = scan_stats h [0..<npages h] 0 0 0 0
      in (used, free, longest, npages h))"

definition TryGetMemory :: "mmheap \<Rightarrow> int \<Rightarrow> mmheap \<times> nat option" where
  "TryGetMemory h sz =
     (let k = nat ((sz + int PAGESIZE - 1) div int PAGESIZE) in
      case top_scan h (npages h) (of_nat k) (of_nat k) of
        Some p \<Rightarrow>
          let addr = p * PAGESIZE; j = k - 1;
              h1 = MBitsSet h (addr + j * PAGESIZE) (PUSED + PLAST);
              h2 = mark_used h1 addr j
          in (memset0 h2 addr (nat sz), Some addr)
      | None \<Rightarrow>
          let (used, free, longest, total) = heap_scan_stats h
          in (h\<lparr>afail := \<lparr>fail_size = sz, fail_pages = k, fail_used = used, fail_free = free,
                          fail_longest = longest, fail_total = total\<rparr>\<rparr>, None))"

text \<open>\<open>bc_alloc\<close> and \<open>bc_free\<close> of \<open>runtime/vm/bc_alloc.c\<close>.\<close>

definition bc_alloc :: "mmheap \<Rightarrow> nat \<Rightarrow> mmheap \<times> nat option" where
  "bc_alloc h sz = TryGetMemory h (int (if sz = 0 then 1 else sz))"

section \<open>Release and size\<close>

text \<open>The \<open>do ... while\<close> of \<open>FreeMemory\<close>; \<open>None\<close>: it ran past the end of the map.\<close>

function free_loop :: "mmheap \<Rightarrow> nat \<Rightarrow> mmheap option" where
  "free_loop h addr =
     (case MBitsGet h addr of None \<Rightarrow> None
      | Some bits \<Rightarrow>
          let h' = MBitsSet h addr 0
          in if bits \<noteq> PUSED + PLAST then free_loop h' (addr + PAGESIZE) else Some h')"
  by pat_completeness auto
termination
  by (relation "measure (\<lambda>(h, addr). npages h * PAGESIZE - addr)")
    (auto simp: MBitsGet_def MBitsSet_def npages_def PAGESIZE_def PAGESPERWORD_def Let_def
      get_idx_def div_less_iff_less_mult algebra_simps split: if_splits)

declare free_loop.simps [simp del]

definition FreeMemory :: "mmheap \<Rightarrow> nat option \<Rightarrow> mmheap option" where
  "FreeMemory h addr = (case addr of None \<Rightarrow> Some h | Some a \<Rightarrow> free_loop h a)"

function memsize_loop :: "mmheap \<Rightarrow> nat \<Rightarrow> nat \<Rightarrow> nat option" where
  "memsize_loop h addr i =
     (case MBitsGet h addr of None \<Rightarrow> None
      | Some bits \<Rightarrow>
          if bits \<noteq> PUSED + PLAST then memsize_loop h (addr + PAGESIZE) (i + PAGESIZE)
          else Some (i + PAGESIZE))"
  by pat_completeness auto
termination
  by (relation "measure (\<lambda>(h, addr, i). npages h * PAGESIZE - addr)")
    (auto simp: MBitsGet_def npages_def PAGESIZE_def PAGESPERWORD_def Let_def
      get_idx_def div_less_iff_less_mult algebra_simps split: if_splits)

declare memsize_loop.simps [simp del]

definition MemSize :: "mmheap \<Rightarrow> nat \<Rightarrow> nat option" where
  "MemSize h addr = (if addr < npages h * PAGESIZE then memsize_loop h addr 0 else Some 0)"

section \<open>Allocation from the bottom and the counters\<close>

text \<open>
  \<open>GetSystemMemory\<close> scans upwards and stops before the last page; \<open>n\<close> counts the free run.
  The C code walks back from the run's last page, marking as it goes.
\<close>

fun bottom_scan :: "mmheap \<Rightarrow> nat list \<Rightarrow> int \<Rightarrow> int \<Rightarrow> nat option" where
  "bottom_scan h [] n k = None"
| "bottom_scan h (p # ps) n k =
     (if \<not> page_used h (p * PAGESIZE)
      then (if n + 1 = k then Some p else bottom_scan h ps (n + 1) k)
      else bottom_scan h ps 0 k)"

fun mark_down :: "mmheap \<Rightarrow> nat \<Rightarrow> nat \<Rightarrow> mmheap \<times> nat" where
  "mark_down h addr 0 = (h, addr)"
| "mark_down h addr (Suc k) = mark_down (MBitsSet h (addr - PAGESIZE) PUSED) (addr - PAGESIZE) k"

definition GetSystemMemory :: "mmheap \<Rightarrow> int \<Rightarrow> (mmheap, mmheap \<times> nat) outcome" where
  "GetSystemMemory h sz =
     (let k = (sz + int PAGESIZE - 1) div int PAGESIZE in
      case bottom_scan h [0..<npages h - 1] 0 k of
        Some p \<Rightarrow>
          let (h', addr) = mark_down (MBitsSet h (p * PAGESIZE) (PUSED + PLAST)) (p * PAGESIZE) (nat (k - 1))
          in Ok (memset0 h' addr (nat sz), addr)
      | None \<Rightarrow> Err ''Not enough Heap memory'' h)"

definition FreeSpaceOnHeap :: "mmheap \<Rightarrow> nat" where
  "FreeSpaceOnHeap h = length (filter (\<lambda>p. \<not> page_used h (p * PAGESIZE)) (rev [0..<npages h])) * PAGESIZE"

definition UsedHeap :: "mmheap \<Rightarrow> nat" where
  "UsedHeap h = length (filter (\<lambda>p. page_used h (p * PAGESIZE)) (rev [0..<npages h])) * PAGESIZE"

definition LargestContiguousHeap :: "mmheap \<Rightarrow> nat" where
  "LargestContiguousHeap h =
     length (takeWhile (\<lambda>p. \<not> page_used h (p * PAGESIZE)) [0..<npages h - 1]) * PAGESIZE"

definition InitHeap :: "mmheap \<Rightarrow> mmheap" where
  "InitHeap h = h\<lparr>mmap := replicate (length (mmap h)) 0, hmem := (\<lambda>_. 0)\<rparr>"

section \<open>The packed words refine an array of page states\<close>

definition pages :: "mmheap \<Rightarrow> nat list" where
  "pages h = map (\<lambda>p. word_get (mmap h ! (p div 16)) ((p mod 16) * 2)) [0..<npages h]"

lemma three_eq_mask: "(3 :: u32) = mask 2"
  by (simp add: mask_eq_exp_minus_1)

lemma word_get_mask: "word_get w i = unat (take_bit 2 (drop_bit i w))"
  by (simp add: word_get_def three_eq_mask take_bit_eq_mask)

lemma word_get_bound: "word_get w i < 4"
proof -
  have "unat (take_bit 2 (drop_bit i w)) = unat (drop_bit i w) mod 2 ^ 2"
    by (simp only: unsigned_take_bit_eq) (simp only: take_bit_eq_mod)
  then show ?thesis by (simp add: word_get_mask)
qed

lemma word_get_set_same:
  assumes "b < 4" "i \<le> 30"
  shows "word_get (word_set w i b) i = b"
proof -
  have "take_bit 2 (drop_bit i (word_set w i b)) = take_bit 2 (of_nat b :: u32)"
    using assms by (intro bit_word_eqI) (auto simp: word_set_def bit_simps three_eq_mask)
  then have "word_get (word_set w i b) i = unat (take_bit 2 (of_nat b :: u32))"
    by (simp only: word_get_mask)
  also have "\<dots> = b mod 2 ^ 2 "
    using assms by (simp only: unsigned_take_bit_eq) (simp add: take_bit_eq_mod unat_of_nat)
  finally show ?thesis using assms by simp
qed

lemma word_get_set_other:
  assumes "b < 4" "i + 2 \<le> j \<or> j + 2 \<le> i" 
  shows "word_get (word_set w i b) j = word_get w j"
proof -
  have b: "\<not> bit b n" if "2 \<le> n" for n
  proof -
    have "take_bit 2 b = b" using assms(1) by (simp add: take_bit_nat_eq_self)
    with that show ?thesis by (metis bit_take_bit_iff not_less)
  qed
  have "take_bit 2 (drop_bit j (word_set w i b)) = take_bit 2 (drop_bit j w)"
    using assms(2) bit_imp_le_length [of w]
    by (intro bit_word_eqI) (auto simp: word_set_def bit_simps three_eq_mask b)
  then show ?thesis by (simp only: word_get_mask)
qed

lemma length_pages [simp]: "length (pages h) = npages h"
  by (simp add: pages_def)

lemma pages_nth: "p < npages h \<Longrightarrow> pages h ! p = word_get (mmap h ! (p div 16)) ((p mod 16) * 2)"
  by (simp add: pages_def)

lemma MBitsGet_pages: "MBitsGet h (p * PAGESIZE) = (if p < npages h then Some (pages h ! p) else None)"
  by (auto simp: MBitsGet_def Let_def PAGESIZE_def PAGESPERWORD_def npages_def pages_def get_idx_def
      div_less_iff_less_mult algebra_simps)

lemma npages_MBitsSet [simp]: "npages (MBitsSet h a b) = npages h"
  by (simp add: MBitsSet_def npages_def Let_def)

lemma hmem_MBitsSet [simp]: "hmem (MBitsSet h a b) = hmem h"
  by (simp add: MBitsSet_def Let_def)

text \<open>Setting a page's bits in its word is an update of the page array.\<close>

lemma pages_MBitsSet:
  assumes "p < npages h" "b < 4"
  shows "pages (MBitsSet h (p * PAGESIZE) b) = (pages h)[p := b]"
proof (rule nth_equalityI)
  show "length (pages (MBitsSet h (p * PAGESIZE) b)) = length ((pages h)[p := b])" by simp
next
  fix q assume "q < length (pages (MBitsSet h (p * PAGESIZE) b))"
  then have q: "q < npages h" by simp
  have len: "p div 16 < length (mmap h)" "q div 16 < length (mmap h)"
    using assms(1) q by (auto simp: npages_def PAGESPERWORD_def div_less_iff_less_mult algebra_simps)
  have val: "pages (MBitsSet h (p * PAGESIZE) b) ! q
      = word_get ((mmap h)[p div 16 := word_set (mmap h ! (p div 16)) ((p mod 16) * 2) b] ! (q div 16)) ((q mod 16) * 2)"
    using q by (simp add: pages_nth) (simp add: MBitsSet_def Let_def PAGESIZE_def PAGESPERWORD_def)
  show "pages (MBitsSet h (p * PAGESIZE) b) ! q = (pages h)[p := b] ! q"
  proof (cases "q div 16 = p div 16")
    case False
    then have "q \<noteq> p" by auto
    with False val q show ?thesis by (simp add: pages_nth)
  next
    case same: True
    show ?thesis
    proof (cases "q = p")
      case True
      then show ?thesis using val len assms q by (simp add: word_get_set_same)
    next
      case False
      with same have "p mod 16 \<noteq> q mod 16" by (metis div_mult_mod_eq)
      then have "(p mod 16) * 2 + 2 \<le> (q mod 16) * 2 \<or> (q mod 16) * 2 + 2 \<le> (p mod 16) * 2" by arith
      then show ?thesis using val len assms q False same
        by (simp add: word_get_set_other pages_nth)
    qed
  qed
qed

lemma page_used_pages: "p < npages h \<Longrightarrow> page_used h (p * PAGESIZE) \<longleftrightarrow> odd (pages h ! p)"
  by (simp add: page_used_def MBitsGet_pages)

lemma pages_memset0 [simp]: "pages (memset0 h a n) = pages h"
  by (simp add: memset0_def pages_def npages_def)

lemma npages_memset0 [simp]: "npages (memset0 h a n) = npages h"
  by (simp add: memset0_def npages_def)

section \<open>Free runs and blocks\<close>

definition free_run :: "nat list \<Rightarrow> nat \<Rightarrow> nat \<Rightarrow> bool" where
  "free_run ps a k \<longleftrightarrow> a + k \<le> length ps \<and> (\<forall>i<k. even (ps ! (a + i)))"

text \<open>The scan finds the highest free run of \<open>k\<close> pages.\<close>

lemma top_scan_spec:
  assumes "1 \<le> n" "n \<le> k" "k < 2 ^ 32" "P + (k - n) \<le> npages h"
    and "\<forall>i<k - n. even (pages h ! (P + i))"
    and "P + (k - n) = npages h \<or> odd (pages h ! (P + (k - n)))"
    and "\<forall>a'\<ge>P. \<not> free_run (pages h) a' k"
  shows "case top_scan h P (of_nat n) (of_nat k) of
      None \<Rightarrow> \<forall>a. \<not> free_run (pages h) a k
    | Some a \<Rightarrow> free_run (pages h) a k \<and> (\<forall>a'>a. \<not> free_run (pages h) a' k)"
  using assms
proof (induction P arbitrary: n)
  case 0
  then show ?case by simp
next
  case (Suc P)
  have P: "P < npages h" using Suc.prems by simp
  have n1: "(of_nat n - 1 = (0::u32)) = (n = 1)"
  proof -
    have "unat (of_nat n :: u32) = n" using Suc.prems by (simp add: unat_of_nat)
    then have "(of_nat n = (1::u32)) = (n = 1)" by (auto simp: word_unat_eq_iff)
    then show ?thesis by simp
  qed
  have n2: "(of_nat n - 1 :: u32) = of_nat (n - 1)" using Suc.prems by simp
  show ?case
  proof (cases "odd (pages h ! P)")
    case True
    have "\<forall>a'\<ge>P. \<not> free_run (pages h) a' k"
      using Suc.prems True unfolding free_run_def by (metis Suc_leI add.right_neutral le_neq_implies_less le_trans less_le_trans zero_less_one)
    then have "case top_scan h P (of_nat k) (of_nat k) of
      None \<Rightarrow> \<forall>a. \<not> free_run (pages h) a k
    | Some a \<Rightarrow> free_run (pages h) a k \<and> (\<forall>a'>a. \<not> free_run (pages h) a' k)"
      using Suc.prems True P by (intro Suc.IH) auto
    then show ?thesis using True P by (simp add: page_used_pages)
  next
    case False
    show ?thesis
    proof (cases "n = 1")
      case True
      have "even (pages h ! (P + i))" if "i < k" for i
        using that False Suc.prems(5) True by (cases i) auto
      then have "free_run (pages h) P k" using Suc.prems True by (auto simp: free_run_def)
      then show ?thesis using False P True Suc.prems n1 by (auto simp: page_used_pages Suc_le_eq)
    next
      case n: False
      have e: "P + (k - (n - 1)) = Suc P + (k - n)" using n Suc.prems by simp
      have ev: "\<forall>i<k - (n - 1). even (pages h ! (P + i))"
      proof (intro allI impI)
        fix i assume "i < k - (n - 1)"
        then show "even (pages h ! (P + i))" using False Suc.prems(5) Suc.prems(1,2) by (cases i) auto
      qed
      have "\<not> free_run (pages h) P k"
      proof
        assume fr: "free_run (pages h) P k"
        have "k - (n - 1) < k" using n Suc.prems by simp
        with fr have "even (pages h ! (P + (k - (n - 1))))" "P + (k - (n - 1)) < npages h"
          unfolding free_run_def by auto
        then show False using Suc.prems(6) unfolding e by simp
      qed
      then have nf: "\<forall>a'\<ge>P. \<not> free_run (pages h) a' k"
        using Suc.prems(7) by (metis Suc_leI le_neq_implies_less)
      have bd: "P + (k - (n - 1)) = npages h \<or> odd (pages h ! (P + (k - (n - 1))))"
        unfolding e by (rule Suc.prems(6))
      have rng: "1 \<le> n - 1" "n - 1 \<le> k" "P + (k - (n - 1)) \<le> npages h"
        using Suc.prems n by auto
      have "case top_scan h P (of_nat (n - 1)) (of_nat k) of
        None \<Rightarrow> \<forall>a. \<not> free_run (pages h) a k
      | Some a \<Rightarrow> free_run (pages h) a k \<and> (\<forall>a'>a. \<not> free_run (pages h) a' k)"
        by (rule Suc.IH [OF rng(1,2) Suc.prems(3) rng(3) ev bd nf])
      then show ?thesis using False P n n1 n2 by (simp add: page_used_pages)
    qed
  qed
qed


text \<open>The page states of an allocated block of \<open>k\<close> pages.\<close>

definition blk :: "nat \<Rightarrow> nat list" where
  "blk k = replicate (k - 1) 1 @ [3]"

lemma length_blk [simp]: "0 < k \<Longrightarrow> length (blk k) = k"
  by (simp add: blk_def)

lemma blk_nth: "i < k \<Longrightarrow> blk k ! i = (if i = k - 1 then 3 else 1)"
  by (auto simp: blk_def nth_append)

lemma npages_mark_used [simp]: "npages (mark_used h a j) = npages h"
  by (induction j arbitrary: h) auto

lemma hmem_mark_used [simp]: "hmem (mark_used h a j) = hmem h"
  by (induction j arbitrary: h) auto

lemma pages_mark_used:
  "a + j \<le> npages h \<Longrightarrow> p < npages h \<Longrightarrow>
   pages (mark_used h (a * PAGESIZE) j) ! p = (if a \<le> p \<and> p < a + j then 1 else pages h ! p)"
proof (induction j arbitrary: h)
  case 0
  then show ?case by simp
next
  case (Suc j)
  have e: "a * PAGESIZE + j * PAGESIZE = (a + j) * PAGESIZE" by (simp add: algebra_simps)
  let ?h = "MBitsSet h ((a + j) * PAGESIZE) PUSED"
  have "pages ?h = (pages h)[a + j := 1]"
    using Suc.prems by (simp add: pages_MBitsSet PUSED_def)
  moreover have "pages (mark_used ?h (a * PAGESIZE) j) ! p = (if a \<le> p \<and> p < a + j then 1 else pages ?h ! p)"
    using Suc.prems by (intro Suc.IH) auto
  moreover have "mark_used h (a * PAGESIZE) (Suc j) = mark_used ?h (a * PAGESIZE) j"
    by (simp only: mark_used.simps e)
  moreover have "a + j < npages h" using Suc.prems by simp
  ultimately show ?case using Suc.prems(2) by (simp only: nth_list_update length_pages) auto
qed

definition pages_for :: "nat \<Rightarrow> nat" where
  "pages_for n = (n + 255) div 256"

lemma pages_for_int: "nat ((int n + int PAGESIZE - 1) div int PAGESIZE) = pages_for n"
proof -
  have "int n + int PAGESIZE - 1 = int (n + 255)" by (simp add: PAGESIZE_def)
  then show ?thesis by (simp add: pages_for_def PAGESIZE_def zdiv_int [symmetric] del: of_nat_add)
qed

lemma pages_for_pos [simp]: "0 < n \<Longrightarrow> 0 < pages_for n"
  by (simp add: pages_for_def)

lemma pages_for_bound: "n \<le> pages_for n * 256"
  using div_mult_mod_eq [of "n + 255" 256] mod_less_divisor [of 256 "n + 255"]
  unfolding pages_for_def by linarith

lemma top_scan_pages:
  assumes "0 < k" "k < 2 ^ 32"
  shows "case top_scan h (npages h) (of_nat k) (of_nat k) of
      None \<Rightarrow> \<forall>a. \<not> free_run (pages h) a k
    | Some a \<Rightarrow> free_run (pages h) a k \<and> (\<forall>a'>a. \<not> free_run (pages h) a' k)"
  using assms by (intro top_scan_spec) (auto simp: free_run_def)

text \<open>A successful \<open>TryGetMemory\<close>, on page states and bytes.\<close>

lemma TryGetMemory_Some:
  assumes "0 < n" "pages_for n < 2 ^ 32" "TryGetMemory h (int n) = (h', Some addr)"
  obtains a where "addr = a * PAGESIZE" "free_run (pages h) a (pages_for n)"
    "\<forall>a'>a. \<not> free_run (pages h) a' (pages_for n)"
    "pages h' = splice (pages h) a (blk (pages_for n))"
    "hmem h' = (\<lambda>b. if addr \<le> b \<and> b < addr + n then 0 else hmem h b)"
    "npages h' = npages h"
proof -
  let ?k = "pages_for n"
  have k: "0 < ?k" using assms(1) by simp
  from assms(3) obtain a where sc: "top_scan h (npages h) (of_nat ?k) (of_nat ?k) = Some a"
    and ad: "addr = a * PAGESIZE"
    and h': "h' = memset0 (mark_used (MBitsSet h (addr + (?k - 1) * PAGESIZE) (PUSED + PLAST)) addr (?k - 1)) addr n"
    by (auto simp: TryGetMemory_def pages_for_int Let_def split: option.splits prod.splits)
  have fr: "free_run (pages h) a ?k" "\<forall>a'>a. \<not> free_run (pages h) a' ?k"
    using top_scan_pages [OF k assms(2), of h] by (auto simp: sc)
  then have ak: "a + ?k \<le> npages h" by (simp add: free_run_def)
  have e: "addr + (?k - 1) * PAGESIZE = (a + ?k - 1) * PAGESIZE"
    using k by (cases ?k) (simp_all add: ad algebra_simps)
  define h1 where "h1 = MBitsSet h ((a + ?k - 1) * PAGESIZE) 3"
  have "PUSED + PLAST = 3" by (simp add: PUSED_def PLAST_def)
  then have h'2: "h' = memset0 (mark_used h1 (a * PAGESIZE) (?k - 1)) addr n"
    unfolding h' e h1_def by (simp only: ad)
  have pg: "pages h' = splice (pages h) a (blk ?k)"
  proof (rule nth_equalityI)
    show "length (pages h') = length (splice (pages h) a (blk ?k))" using ak k by (simp add: h'2 h1_def)
  next
    fix p assume "p < length (pages h')"
    then have p: "p < npages h" by (simp add: h'2 h1_def)
    have l: "a + ?k - 1 < npages h" using ak k by simp
    have "pages h' ! p = (if a \<le> p \<and> p < a + (?k - 1) then 1 else pages h1 ! p)"
      unfolding h'2 pages_memset0 using ak p by (intro pages_mark_used) (simp_all add: h1_def)
    also have "\<dots> = (if a \<le> p \<and> p < a + (?k - 1) then 1 else (pages h)[a + ?k - 1 := 3] ! p)"
      unfolding h1_def using l by (simp add: pages_MBitsSet)
    also have "\<dots> = splice (pages h) a (blk ?k) ! p"
      using ak p k by (auto simp: nth_splice blk_nth nth_list_update)
    finally show "pages h' ! p = splice (pages h) a (blk ?k) ! p" .
  qed
  have hm: "hmem h' = (\<lambda>b. if addr \<le> b \<and> b < addr + n then 0 else hmem h b)"
    by (auto simp: h'2 h1_def memset0_def)
  have np: "npages h' = npages h" by (simp add: h'2 h1_def)
  show thesis by (rule that [OF ad fr pg hm np])
qed

lemma TryGetMemory_None:
  assumes "0 < n" "pages_for n < 2 ^ 32" "TryGetMemory h (int n) = (h', None)"
  shows "\<forall>a. \<not> free_run (pages h) a (pages_for n)" "pages h' = pages h" "hmem h' = hmem h"
  using assms top_scan_pages [of "pages_for n" h]
  by (auto simp: TryGetMemory_def pages_for_int Let_def pages_def npages_def split: option.splits prod.splits)

section \<open>Well-formed maps and the live blocks\<close>

text \<open>
  Each page is free (0), inside a block (1) or the last of a block (3), and a page inside a block
  is followed by another page of the block.
\<close>

definition wf_pages :: "nat list \<Rightarrow> bool" where
  "wf_pages ps \<longleftrightarrow> (\<forall>i<length ps. ps ! i \<in> {0, 1, 3} \<and>
     (ps ! i = 1 \<longrightarrow> i + 1 < length ps \<and> ps ! (i + 1) \<in> {1, 3}))"

definition is_block :: "nat list \<Rightarrow> nat \<Rightarrow> nat \<Rightarrow> bool" where
  "is_block ps a k \<longleftrightarrow> 0 < k \<and> a + k \<le> length ps \<and> (\<forall>i<k - 1. ps ! (a + i) = 1) \<and>
     ps ! (a + k - 1) = 3 \<and> (0 < a \<longrightarrow> ps ! (a - 1) \<noteq> 1)"

lemma wf_pagesD:
  assumes "wf_pages ps" "i < length ps"
  shows "ps ! i = 0 \<or> ps ! i = 1 \<or> ps ! i = 3"
    and "ps ! i = 1 \<Longrightarrow> i + 1 < length ps \<and> (ps ! (i + 1) = 1 \<or> ps ! (i + 1) = 3)"
  using assms by (auto simp: wf_pages_def)

lemma free_run_zero:
  assumes "wf_pages ps" "free_run ps a k" "i < k"
  shows "ps ! (a + i) = 0"
  using assms wf_pagesD(1) [of ps "a + i"] by (auto simp: free_run_def)

lemma is_block_page:
  assumes "is_block ps a k" "a \<le> i" "i < a + k"
  shows "ps ! i = (if i = a + k - 1 then 3 else 1)"
proof -
  obtain d where "i = a + d" using assms(2) le_Suc_ex by blast
  with assms show ?thesis by (auto simp: is_block_def)
qed

text \<open>Blocks of one map never overlap.\<close>

lemma is_block_disjoint:
  assumes "is_block ps a k" "is_block ps b m"
  shows "a = b \<and> k = m \<or> a + k \<le> b \<or> b + m \<le> a"
proof -
  have one: "a' + k' \<le> b'" if 1: "is_block ps a' k'" and 2: "is_block ps b' m'" and "a' < b'" for a' k' b' m'
  proof (rule ccontr)
    assume "\<not> a' + k' \<le> b'"
    then have "ps ! (b' - 1) = 1" using is_block_page [OF 1, of "b' - 1"] \<open>a' < b'\<close> by auto
    then show False using 2 \<open>a' < b'\<close> by (simp add: is_block_def)
  qed
  have same: "k' \<le> m'" if 1: "is_block ps a' k'" and 2: "is_block ps a' m'" for a' k' m'
  proof (rule ccontr)
    assume c: "\<not> k' \<le> m'"
    have "0 < m'" using 2 by (simp add: is_block_def)
    then have i: "a' \<le> a' + m' - 1" "a' + m' - 1 < a' + k'" "a' + m' - 1 < a' + m'"
      "a' + m' - 1 \<noteq> a' + k' - 1" using c by auto
    show False using is_block_page [OF 1 i(1,2)] is_block_page [OF 2 i(1,3)] i(4) by simp
  qed
  show ?thesis using one [OF assms] one [OF assms(2,1)] same assms by (metis linorder_neqE_nat le_antisym)
qed

lemma splice_blk_nth:
  assumes "a + k \<le> length ps" "0 < k" "i < length ps"
  shows "splice ps a (blk k) ! i =
    (if a \<le> i \<and> i < a + k then (if i = a + k - 1 then 3 else 1) else ps ! i)"
proof (cases "a \<le> i \<and> i < a + k")
  case True
  then have "i - a < k" "(i - a = k - 1) = (i = a + k - 1)" by auto
  then show ?thesis using True assms by (simp add: nth_splice blk_nth)
next
  case False
  then show ?thesis using assms by (auto simp: nth_splice)
qed

lemma wf_pages_splice_blk:
  assumes wf: "wf_pages ps" and fr: "free_run ps a k" and k: "0 < k"
  shows "wf_pages (splice ps a (blk k))"
proof -
  have len: "a + k \<le> length ps" using fr by (simp add: free_run_def)
  have "splice ps a (blk k) ! i \<in> {0, 1, 3} \<and> (splice ps a (blk k) ! i = 1 \<longrightarrow>
      i + 1 < length ps \<and> splice ps a (blk k) ! (i + 1) \<in> {1, 3})" if i: "i < length ps" for i
  proof (cases "a \<le> i \<and> i < a + k")
    case True
    show ?thesis
    proof (cases "i = a + k - 1")
      case True
      then show ?thesis using len k i \<open>a \<le> i \<and> i < a + k\<close> by (simp add: splice_blk_nth)
    next
      case False
      then have "i + 1 < a + k" using \<open>a \<le> i \<and> i < a + k\<close> by auto
      then show ?thesis using len k i \<open>a \<le> i \<and> i < a + k\<close> by (simp add: splice_blk_nth)
    qed
  next
    case out: False
    show ?thesis
    proof (cases "ps ! i = 1")
      case True
      then have n: "i + 1 < length ps" "ps ! (i + 1) = 1 \<or> ps ! (i + 1) = 3"
        using wf_pagesD(2) [OF wf i] by auto
      have "i + 1 \<noteq> a" using n free_run_zero [OF wf fr, of 0] k by auto
      then show ?thesis using out n True len k i by (auto simp: splice_blk_nth)
    next
      case False
      then show ?thesis using out len k i wf_pagesD(1) [OF wf i] by (auto simp: splice_blk_nth)
    qed
  qed
  then show ?thesis using len k by (simp add: wf_pages_def)
qed

lemma is_block_cong:
  assumes "length ps = length qs" "\<And>i. b \<le> i \<Longrightarrow> i < b + m \<Longrightarrow> ps ! i = qs ! i"
    and "0 < b \<Longrightarrow> (ps ! (b - 1) = 1) = (qs ! (b - 1) = 1)"
  shows "is_block ps b m = is_block qs b m"
proof -
  have "(\<forall>i<m - 1. ps ! (b + i) = 1) = (\<forall>i<m - 1. qs ! (b + i) = 1)"
    using assms(2) by auto
  moreover have "0 < m \<Longrightarrow> ps ! (b + m - 1) = qs ! (b + m - 1)"
    using assms(2) [of "b + m - 1"] by auto
  ultimately show ?thesis using assms(1,3) by (auto simp: is_block_def)
qed

lemma is_block_splice_blk:
  assumes wf: "wf_pages ps" and fr: "free_run ps a k" and k: "0 < k"
  shows "is_block (splice ps a (blk k)) b m \<longleftrightarrow> (b = a \<and> m = k) \<or> is_block ps b m"
proof -
  let ?qs = "splice ps a (blk k)"
  have len: "a + k \<le> length ps" "length ?qs = length ps" using fr k by (simp_all add: free_run_def)
  have q: "?qs ! i = (if a \<le> i \<and> i < a + k then (if i = a + k - 1 then 3 else 1) else ps ! i)"
    if "i < length ps" for i using that len k by (intro splice_blk_nth) auto
  have z: "ps ! i = 0" if "a \<le> i" "i < a + k" for i
    using free_run_zero [OF wf fr, of "i - a"] that by simp
  have pre: "0 < a \<Longrightarrow> ps ! (a - 1) \<noteq> 1"
    using wf_pagesD(2) [OF wf, of "a - 1"] z [of a] len k by (cases a) auto
  have new: "is_block ?qs a k"
  proof -
    have "\<forall>i<k - 1. ?qs ! (a + i) = 1" using q len by auto
    moreover have "?qs ! (a + k - 1) = 3" using q [of "a + k - 1"] len k by auto
    moreover have "0 < a \<Longrightarrow> ?qs ! (a - 1) \<noteq> 1" using q [of "a - 1"] len k pre by auto
    ultimately show ?thesis using len k by (simp add: is_block_def)
  qed
  have same: "is_block ?qs b m = is_block ps b m" if out: "b + m \<le> a \<or> a + k \<le> b" and bl: "b + m \<le> length ps" "0 < m"
  proof (rule is_block_cong)
    show "length ?qs = length ps" by (rule len(2))
    show "?qs ! i = ps ! i" if "b \<le> i" "i < b + m" for i
      using q [of i] that out bl by auto
    assume b0: "0 < b"
    show "(?qs ! (b - 1) = 1) = (ps ! (b - 1) = 1)"
    proof (cases "a \<le> b - 1 \<and> b - 1 < a + k")
      case True
      then have "b - 1 = a + k - 1" using out bl b0 by auto
      then show ?thesis using q [of "b - 1"] z [of "b - 1"] True bl by simp
    next
      case False
      then show ?thesis using q [of "b - 1"] bl b0 by auto
    qed
  qed
  show ?thesis
  proof
    assume b: "is_block ?qs b m"
    then have bl: "b + m \<le> length ps" "0 < m" using len by (auto simp: is_block_def)
    from is_block_disjoint [OF b new] show "b = a \<and> m = k \<or> is_block ps b m"
      using same [OF _ bl] b by blast
  next
    assume "b = a \<and> m = k \<or> is_block ps b m"
    then show "is_block ?qs b m"
    proof
      assume b: "is_block ps b m"
      then have bl: "b + m \<le> length ps" "0 < m" by (auto simp: is_block_def)
      have "b + m \<le> a \<or> a + k \<le> b"
      proof (rule ccontr)
        assume "\<not> (b + m \<le> a \<or> a + k \<le> b)"
        then have "a \<le> max a b" "max a b < a + k" "b \<le> max a b" "max a b < b + m"
          using k bl by auto
        then show False using z [of "max a b"] is_block_page [OF b, of "max a b"] by (auto split: if_splits)
      qed
      then show ?thesis using same [OF _ bl] b by blast
    qed (use new in blast)
  qed
qed

section \<open>Release\<close>

text \<open>\<open>FreeMemory\<close> on the start of a block clears exactly its pages.\<close>

lemma free_loop_block:
  assumes "0 < k" "a + k \<le> npages h" "\<forall>i<k - 1. pages h ! (a + i) = 1" "pages h ! (a + k - 1) = 3"
  shows "\<exists>h'. free_loop h (a * PAGESIZE) = Some h' \<and> pages h' = splice (pages h) a (replicate k 0) \<and>
     hmem h' = hmem h \<and> npages h' = npages h"
  using assms
proof (induction k arbitrary: a h)
  case 0
  then show ?case by simp
next
  case (Suc k)
  have a: "a < npages h" using Suc.prems by simp
  let ?h = "MBitsSet h (a * PAGESIZE) 0"
  have get: "MBitsGet h (a * PAGESIZE) = Some (pages h ! a)" using a by (simp add: MBitsGet_pages)
  have pg: "pages ?h = (pages h)[a := 0]" using a by (simp add: pages_MBitsSet)
  have upd: "(pages h)[a := 0] = splice (pages h) a (replicate 1 0)"
    using a by (simp add: splice_def upd_conv_take_nth_drop)
  have u: "PUSED + PLAST = 3" by (simp add: PUSED_def PLAST_def)
  show ?case
  proof (cases "k = 0")
    case True
    then have "free_loop h (a * PAGESIZE) = Some ?h"
      using get Suc.prems(4) by (subst free_loop.simps) (simp add: u Let_def)
    then show ?thesis using pg upd True by simp
  next
    case False
    then have "pages h ! a = 1" using Suc.prems(3) by (metis add.right_neutral diff_Suc_1 gr0I)
    then have step: "free_loop h (a * PAGESIZE) = free_loop ?h ((a + 1) * PAGESIZE)"
      using get by (subst free_loop.simps) (simp add: PUSED_def PLAST_def Let_def algebra_simps)
    have "\<exists>h'. free_loop ?h ((a + 1) * PAGESIZE) = Some h' \<and>
       pages h' = splice (pages ?h) (a + 1) (replicate k 0) \<and> hmem h' = hmem ?h \<and> npages h' = npages ?h"
    proof (rule Suc.IH)
      show "\<forall>i<k - 1. pages ?h ! (a + 1 + i) = 1"
      proof (intro allI impI)
        fix i assume "i < k - 1"
        then show "pages ?h ! (a + 1 + i) = 1" using Suc.prems(2) Suc.prems(3) [rule_format, of "Suc i"] pg by simp
      qed
      show "pages ?h ! (a + 1 + k - 1) = 3" using Suc.prems(4) False pg by simp
    qed (use False Suc.prems in auto)
    moreover have "splice (pages ?h) (a + 1) (replicate k 0) = splice (pages h) a (replicate (Suc k) 0)"
      using a Suc.prems(2) unfolding pg by (simp add: splice_def take_Suc_conv_app_nth replicate_app_Cons_same)
    ultimately show ?thesis using step by auto
  qed
qed

lemma memsize_loop_block:
  assumes "0 < k" "a + k \<le> npages h" "\<forall>i<k - 1. pages h ! (a + i) = 1" "pages h ! (a + k - 1) = 3"
  shows "memsize_loop h (a * PAGESIZE) n = Some (n + k * PAGESIZE)"
  using assms
proof (induction k arbitrary: a n)
  case 0
  then show ?case by simp
next
  case (Suc k)
  have a: "a < npages h" using Suc.prems by simp
  have get: "MBitsGet h (a * PAGESIZE) = Some (pages h ! a)" using a by (simp add: MBitsGet_pages)
  have u: "PUSED + PLAST = 3" by (simp add: PUSED_def PLAST_def)
  show ?case
  proof (cases "k = 0")
    case True
    then show ?thesis using get Suc.prems(4) by (subst memsize_loop.simps) (simp add: u)
  next
    case False
    then have "pages h ! a = 1" using Suc.prems(3) by (metis add.right_neutral diff_Suc_1 gr0I)
    then have "memsize_loop h (a * PAGESIZE) n = memsize_loop h ((a + 1) * PAGESIZE) (n + PAGESIZE)"
      using get by (subst memsize_loop.simps) (simp add: PUSED_def PLAST_def algebra_simps)
    also have "\<dots> = Some (n + PAGESIZE + k * PAGESIZE)"
    proof (rule Suc.IH)
      show "\<forall>i<k - 1. pages h ! (a + 1 + i) = 1"
        using Suc.prems(3) by (metis Suc_eq_plus1_left add.assoc add_Suc_right diff_Suc_1 less_diff_conv plus_1_eq_Suc)
      show "pages h ! (a + 1 + k - 1) = 3" using Suc.prems(4) by simp
    qed (use False Suc.prems in auto)
    finally show ?thesis by simp
  qed
qed

lemma FreeMemory_block:
  assumes "is_block (pages h) a k"
  obtains h' where "FreeMemory h (Some (a * PAGESIZE)) = Some h'"
    "pages h' = splice (pages h) a (replicate k 0)" "hmem h' = hmem h" "npages h' = npages h"
  using free_loop_block [of k a h] assms by (auto simp: FreeMemory_def is_block_def)


lemma splice_zero_nth:
  assumes "a + k \<le> length ps" "i < length ps"
  shows "splice ps a (replicate k 0) ! i = (if a \<le> i \<and> i < a + k then 0 else ps ! i)"
  using assms by (auto simp: nth_splice)

lemma wf_pages_splice_zero:
  assumes wf: "wf_pages ps" and b: "is_block ps a k"
  shows "wf_pages (splice ps a (replicate k 0))"
proof -
  have len: "a + k \<le> length ps" "0 < k" using b by (simp_all add: is_block_def)
  let ?qs = "splice ps a (replicate k 0)"
  have "?qs ! i \<in> {0, 1, 3} \<and> (?qs ! i = 1 \<longrightarrow> i + 1 < length ps \<and> ?qs ! (i + 1) \<in> {1, 3})"
    if i: "i < length ps" for i
  proof (cases "?qs ! i = 1")
    case True
    then have out: "\<not> (a \<le> i \<and> i < a + k)" and one: "ps ! i = 1"
      using splice_zero_nth [OF len(1) i] by (auto split: if_splits)
    have n: "i + 1 < length ps" "ps ! (i + 1) = 1 \<or> ps ! (i + 1) = 3"
      using wf_pagesD(2) [OF wf i one] by auto
    have "i + 1 \<noteq> a" using b one by (auto simp: is_block_def)
    then have "\<not> (a \<le> i + 1 \<and> i + 1 < a + k)" using out by auto
    then show ?thesis using splice_zero_nth [OF len(1) n(1)] n True by simp
  next
    case False
    then show ?thesis using splice_zero_nth [OF len(1) i] wf_pagesD(1) [OF wf i] by auto
  qed
  then show ?thesis using len by (simp add: wf_pages_def)
qed

lemma is_block_splice_zero:
  assumes b: "is_block ps a k"
  shows "is_block (splice ps a (replicate k 0)) c m \<longleftrightarrow> is_block ps c m \<and> (c, m) \<noteq> (a, k)"
proof -
  let ?qs = "splice ps a (replicate k 0)"
  have len: "a + k \<le> length ps" "0 < k" "length ?qs = length ps" using b by (simp_all add: is_block_def)
  have q: "?qs ! i = (if a \<le> i \<and> i < a + k then 0 else ps ! i)" if "i < length ps" for i
    using splice_zero_nth [OF len(1) that] .
  have same: "is_block ?qs c m = is_block ps c m"
    if out: "c + m \<le> a \<or> a + k \<le> c" and cl: "c + m \<le> length ps" "0 < m"
  proof (rule is_block_cong)
    show "length ?qs = length ps" by (rule len(3))
    show "?qs ! i = ps ! i" if "c \<le> i" "i < c + m" for i using q [of i] that out cl by auto
    assume c0: "0 < c"
    show "(?qs ! (c - 1) = 1) = (ps ! (c - 1) = 1)"
    proof (cases "a \<le> c - 1 \<and> c - 1 < a + k")
      case True
      then have e: "c - 1 = a + k - 1" using out cl c0 by auto
      have "ps ! (c - 1) = 3" using b unfolding e by (simp add: is_block_def)
      then show ?thesis using q [of "c - 1"] True cl by simp
    next
      case False
      then show ?thesis using q [of "c - 1"] cl c0 by auto
    qed
  qed
  show ?thesis
  proof
    assume c: "is_block ?qs c m"
    then have cl: "c + m \<le> length ps" "0 < m" using len by (auto simp: is_block_def)
    have out: "c + m \<le> a \<or> a + k \<le> c"
    proof (rule ccontr)
      assume "\<not> (c + m \<le> a \<or> a + k \<le> c)"
      then have "a \<le> max a c" "max a c < a + k" "c \<le> max a c" "max a c < c + m" using len cl by auto
      then show False using q [of "max a c"] len is_block_page [OF c, of "max a c"] by (auto split: if_splits)
    qed
    then show "is_block ps c m \<and> (c, m) \<noteq> (a, k)" using same [OF out cl] c cl len by auto
  next
    assume c: "is_block ps c m \<and> (c, m) \<noteq> (a, k)"
    then have cl: "c + m \<le> length ps" "0 < m" by (auto simp: is_block_def)
    have out: "c + m \<le> a \<or> a + k \<le> c" using is_block_disjoint [OF b, of c m] c by auto
    then show "is_block ?qs c m" using same [OF out cl] c by simp
  qed
qed

section \<open>The allocator's contract\<close>

text \<open>
  What the VM relies on: the live blocks \<open>(address, bytes)\<close> never overlap, an allocation adds one
  fresh block that is large enough or changes nothing, and releasing a live block removes it only.
\<close>

locale block_heap =
  fixes inv :: "'s \<Rightarrow> bool" and live :: "'s \<Rightarrow> (nat \<times> nat) set"
    and alloc :: "'s \<Rightarrow> nat \<Rightarrow> 's \<times> nat option" and free :: "'s \<Rightarrow> nat option \<Rightarrow> 's option"
    and limit :: nat
  assumes live_disjoint:
      "inv s \<Longrightarrow> (a, m) \<in> live s \<Longrightarrow> (b, n) \<in> live s \<Longrightarrow> (a, m) = (b, n) \<or> a + m \<le> b \<or> b + n \<le> a"
    and live_pos: "(a, m) \<in> live s \<Longrightarrow> 0 < m"
    and alloc_live: "inv s \<Longrightarrow> n < limit \<Longrightarrow> alloc s n = (s', Some a) \<Longrightarrow>
      inv s' \<and> (\<exists>m\<ge>n. (a, m) \<notin> live s \<and> live s' = insert (a, m) (live s))"
    and alloc_fail: "inv s \<Longrightarrow> n < limit \<Longrightarrow> alloc s n = (s', None) \<Longrightarrow> inv s' \<and> live s' = live s"
    and free_live: "inv s \<Longrightarrow> (a, m) \<in> live s \<Longrightarrow>
      \<exists>s'. free s (Some a) = Some s' \<and> inv s' \<and> live s' = live s - {(a, m)}"
begin

lemma live_unique: "inv s \<Longrightarrow> (a, m) \<in> live s \<Longrightarrow> (a, n) \<in> live s \<Longrightarrow> m = n"
  using live_disjoint [of s a m a n] live_pos [of a m s] live_pos [of a n s] by auto

lemma alloc_fresh:
  assumes "inv s" "n < limit" "alloc s n = (s', Some a)" "(b, l) \<in> live s"
  shows "a + n \<le> b \<or> b + l \<le> a"
proof -
  from alloc_live [OF assms(1-3)] obtain m where m: "inv s'" "n \<le> m" "(a, m) \<notin> live s"
    "live s' = insert (a, m) (live s)" by blast
  have "(a, m) = (b, l) \<or> a + m \<le> b \<or> b + l \<le> a"
    using live_disjoint [OF m(1), of a m b l] m(4) assms(4) by simp
  then show ?thesis using m assms(4) by auto
qed

lemma alloc_free_live:
  assumes "inv s" "n < limit" "alloc s n = (s', Some a)"
  shows "\<exists>s''. free s' (Some a) = Some s'' \<and> inv s'' \<and> live s'' = live s"
proof -
  from alloc_live [OF assms] obtain m where m: "inv s'" "(a, m) \<notin> live s" "live s' = insert (a, m) (live s)"
    by blast
  then show ?thesis using free_live [of s' a m] by auto
qed

lemma alloc_twice_disjoint:
  assumes "inv s" "n < limit" "alloc s n = (s1, Some a)" "l < limit" "alloc s1 l = (s2, Some b)"
  shows "a + n \<le> b \<or> b + l \<le> a"
proof -
  from alloc_live [OF assms(1-3)] obtain m where m: "inv s1" "n \<le> m" "(a, m) \<in> live s1" by blast
  then show ?thesis using alloc_fresh [OF m(1) assms(4,5), of a m] by auto
qed

end

definition heap_inv :: "mmheap \<Rightarrow> bool" where
  "heap_inv h = wf_pages (pages h)"

definition heap_live :: "mmheap \<Rightarrow> (nat \<times> nat) set" where
  "heap_live h = {(a * PAGESIZE, k * PAGESIZE) | a k. is_block (pages h) a k}"

lemma pages_for_limit: "n < 2 ^ 31 \<Longrightarrow> pages_for n < 2 ^ 32"
  by (simp add: pages_for_def)

lemma block_offsets: "a * PAGESIZE = b * PAGESIZE \<longleftrightarrow> a = b" "a * PAGESIZE + k * PAGESIZE \<le> b * PAGESIZE \<longleftrightarrow> a + k \<le> b"
  by (auto simp: PAGESIZE_def)

lemma TryGetMemory_live:
  assumes "heap_inv h" "0 < n" "n < 2 ^ 31" "TryGetMemory h (int n) = (h', Some addr)"
  shows "heap_inv h' \<and> (\<exists>m\<ge>n. (addr, m) \<notin> heap_live h \<and> heap_live h' = insert (addr, m) (heap_live h))"
proof -
  from assms TryGetMemory_Some [OF assms(2) pages_for_limit [OF assms(3)] assms(4)]
  obtain a where a: "addr = a * PAGESIZE" "free_run (pages h) a (pages_for n)"
    "pages h' = splice (pages h) a (blk (pages_for n))" by blast
  have wf: "wf_pages (pages h)" using assms(1) by (simp add: heap_inv_def)
  have k: "0 < pages_for n" using assms(2) by simp
  have "heap_inv h'" using wf_pages_splice_blk [OF wf a(2) k] by (simp add: heap_inv_def a(3))
  moreover have "heap_live h' = insert (addr, pages_for n * PAGESIZE) (heap_live h)"
    unfolding heap_live_def a(3) is_block_splice_blk [OF wf a(2) k] a(1) by auto
  moreover have "(addr, pages_for n * PAGESIZE) \<notin> heap_live h"
  proof
    assume "(addr, pages_for n * PAGESIZE) \<in> heap_live h"
    then obtain l where l: "is_block (pages h) a l"
      by (auto simp: heap_live_def a(1) PAGESIZE_def)
    then have "pages h ! a \<noteq> 0" using is_block_page [OF l, of a] by (auto simp: is_block_def split: if_splits)
    then show False using free_run_zero [OF wf a(2), of 0] k by simp
  qed
  moreover have "n \<le> pages_for n * PAGESIZE" using pages_for_bound by (simp add: PAGESIZE_def)
  ultimately show ?thesis by blast
qed

lemma FreeMemory_live:
  assumes "heap_inv h" "(addr, m) \<in> heap_live h"
  shows "\<exists>h'. FreeMemory h (Some addr) = Some h' \<and> heap_inv h' \<and> heap_live h' = heap_live h - {(addr, m)}"
proof -
  from assms(2) obtain a k where b: "addr = a * PAGESIZE" "m = k * PAGESIZE" "is_block (pages h) a k"
    by (auto simp: heap_live_def)
  from FreeMemory_block [OF b(3)] obtain h' where h': "FreeMemory h (Some addr) = Some h'"
    "pages h' = splice (pages h) a (replicate k 0)" by (auto simp: b(1))
  have "heap_inv h'" using wf_pages_splice_zero [OF _ b(3)] assms(1) by (simp add: heap_inv_def h'(2))
  moreover have "heap_live h' = heap_live h - {(addr, m)}"
    unfolding heap_live_def h'(2) is_block_splice_zero [OF b(3)] b(1,2)
    by (auto simp: PAGESIZE_def)
  ultimately show ?thesis using h'(1) by blast
qed

interpretation mmh: block_heap heap_inv heap_live bc_alloc FreeMemory "2 ^ 31"
proof
  show "(a, m) = (b, n) \<or> a + m \<le> b \<or> b + n \<le> a"
    if "(a, m) \<in> heap_live s" "(b, n) \<in> heap_live s" for s a m b n
    using that is_block_disjoint [of "pages s"] by (fastforce simp: heap_live_def block_offsets)
  show "0 < m" if "(a, m) \<in> heap_live s" for a m s
    using that by (auto simp: heap_live_def is_block_def PAGESIZE_def)
  show "heap_inv s' \<and> (\<exists>m\<ge>n. (a, m) \<notin> heap_live s \<and> heap_live s' = insert (a, m) (heap_live s))"
    if "heap_inv s" "n < 2 ^ 31" "bc_alloc s n = (s', Some a)" for s n s' a
    using TryGetMemory_live [OF that(1), of "if n = 0 then 1 else n" s' a] that(2,3)
    by (auto simp: bc_alloc_def split: if_splits)
  show "heap_inv s' \<and> heap_live s' = heap_live s"
    if "heap_inv s" "n < 2 ^ 31" "bc_alloc s n = (s', None)" for s n s'
  proof -
    have "pages s' = pages s"
      using TryGetMemory_None(2) [of "if n = 0 then 1 else n" s s'] pages_for_limit [of "if n = 0 then 1 else n"] that(2,3)
      by (auto simp: bc_alloc_def split: if_splits)
    then show ?thesis using that(1) by (simp add: heap_inv_def heap_live_def)
  qed
  show "\<exists>s'. FreeMemory s (Some a) = Some s' \<and> heap_inv s' \<and> heap_live s' = heap_live s - {(a, m)}"
    if "heap_inv s" "(a, m) \<in> heap_live s" for s a m
    by (rule FreeMemory_live [OF that])
qed


section \<open>Properties of the page heap\<close>

definition heap8 :: mmheap where
  "heap8 = \<lparr>mmap = [0], hmem = (\<lambda>_. 7),
     afail = \<lparr>fail_size = 0, fail_pages = 0, fail_used = 0, fail_free = 0, fail_longest = 0, fail_total = 0\<rparr>\<rparr>"

lemma npages_heap8: "npages heap8 = 16"
  by (simp add: npages_def heap8_def PAGESPERWORD_def)

lemma pages_heap8: "p < 16 \<Longrightarrow> pages heap8 ! p = 0"
  by (simp add: pages_nth npages_heap8) (simp add: heap8_def word_get_def)

lemma heap8_inv: "heap_inv heap8"
  by (simp add: heap_inv_def wf_pages_def npages_heap8 pages_heap8)

lemma heap8_TryGetMemory:
  obtains h' addr where "TryGetMemory heap8 (int 300) = (h', Some addr)"
proof (cases "snd (TryGetMemory heap8 (int 300))")
  case None
  then have "TryGetMemory heap8 (int 300) = (fst (TryGetMemory heap8 (int 300)), None)"
    by (metis prod.collapse)
  then have "\<not> free_run (pages heap8) 0 (pages_for 300)"
    using TryGetMemory_None(1) [of 300 heap8] by (simp add: pages_for_def)
  then show thesis by (simp add: free_run_def npages_heap8 pages_heap8 pages_for_def)
next
  case (Some addr)
  then show thesis using that by (metis prod.collapse)
qed

lemma heap8_bc_alloc:
  obtains h' addr where "bc_alloc heap8 300 = (h', Some addr)"
  using heap8_TryGetMemory by (auto simp: bc_alloc_def)

text \<open>The same heap with its first page in use.\<close>

definition heap8b :: mmheap where
  "heap8b = MBitsSet heap8 0 3"

lemma pages_heap8b: "pages heap8b = (pages heap8)[0 := 3]"
  using pages_MBitsSet [of 0 heap8 3] by (simp add: heap8b_def npages_heap8)

lemma npages_heap8b: "npages heap8b = 16"
  by (simp add: heap8b_def npages_heap8)

lemma heap8b_inv: "heap_inv heap8b"
  by (simp add: heap_inv_def wf_pages_def npages_heap8 pages_heap8b pages_heap8 nth_list_update)

lemma heap8b_live: "(0, 256) \<in> heap_live heap8b"
proof -
  have "is_block (pages heap8b) 0 1" by (simp add: is_block_def npages_heap8 pages_heap8b)
  then show ?thesis by (force simp: heap_live_def PAGESIZE_def)
qed

lemma heap8b_bc_alloc:
  obtains h' addr where "bc_alloc heap8b 300 = (h', Some addr)"
proof (cases "snd (TryGetMemory heap8b (int 300))")
  case None
  then have "TryGetMemory heap8b (int 300) = (fst (TryGetMemory heap8b (int 300)), None)"
    by (metis prod.collapse)
  then have "\<not> free_run (pages heap8b) 1 (pages_for 300)"
    using TryGetMemory_None(1) [of 300 heap8b] by (simp add: pages_for_def)
  then show thesis by (simp add: free_run_def npages_heap8 pages_heap8b pages_heap8 pages_for_def)
next
  case (Some addr)
  then show thesis using that by (auto simp: bc_alloc_def) (metis prod.collapse)
qed

text \<open>
  C6: a successful \<open>TryGetMemory\<close> takes the highest run of free pages that is large enough, marks
  exactly that run, zeroes the bytes asked for and leaves every other page and byte alone.
\<close>

theorem TryGetMemory_highest_run:
  assumes "0 < n" "n < 2 ^ 31" "TryGetMemory h (int n) = (h', Some addr)"
  shows "\<exists>a. addr = a * PAGESIZE \<and> free_run (pages h) a (pages_for n) \<and>
    (\<forall>a'>a. \<not> free_run (pages h) a' (pages_for n)) \<and>
    pages h' = splice (pages h) a (blk (pages_for n)) \<and>
    hmem h' = (\<lambda>b. if addr \<le> b \<and> b < addr + n then 0 else hmem h b)"
proof -
  obtain a where "addr = a * PAGESIZE" "free_run (pages h) a (pages_for n)"
    "\<forall>a'>a. \<not> free_run (pages h) a' (pages_for n)"
    "pages h' = splice (pages h) a (blk (pages_for n))"
    "hmem h' = (\<lambda>b. if addr \<le> b \<and> b < addr + n then 0 else hmem h b)"
    by (rule TryGetMemory_Some [OF assms(1) pages_for_limit [OF assms(2)] assms(3)])
  then show ?thesis by blast
qed

theorem TryGetMemory_highest_run_witness:
  "\<exists>h' addr a. TryGetMemory heap8 (int 300) = (h', Some addr) \<and> addr = a * PAGESIZE \<and>
     pages h' = splice (pages heap8) a (blk (pages_for 300))"
proof -
  obtain h' addr where "TryGetMemory heap8 (int 300) = (h', Some addr)" by (rule heap8_TryGetMemory)
  then show ?thesis using TryGetMemory_highest_run [of 300 heap8 h' addr] by fastforce
qed

text \<open>
  C9: the allocator is complete: a request is refused only when no run of enough consecutive free
  pages exists anywhere in the heap, and a refused request changes no page and no byte.
\<close>

theorem TryGetMemory_complete:
  assumes "0 < n" "n < 2 ^ 31"
  shows "snd (TryGetMemory h (int n)) = None \<longleftrightarrow> (\<forall>a. \<not> free_run (pages h) a (pages_for n))"
    (is "?L \<longleftrightarrow> ?R")
proof
  assume ?L
  then obtain h' where "TryGetMemory h (int n) = (h', None)" by (metis prod.collapse)
  then show ?R using TryGetMemory_None(1) [OF assms(1) pages_for_limit [OF assms(2)]] by blast
next
  assume R: ?R
  show ?L
  proof (rule ccontr)
    assume "\<not> ?L"
    then obtain h' addr where "TryGetMemory h (int n) = (h', Some addr)" by (metis not_None_eq prod.collapse)
    then show False using TryGetMemory_Some [OF assms(1) pages_for_limit [OF assms(2)]] R by metis
  qed
qed

theorem TryGetMemory_complete_witness:
  "snd (TryGetMemory heap8 (int 300)) = None \<longleftrightarrow> (\<forall>a. \<not> free_run (pages heap8) a (pages_for 300))"
  by (rule TryGetMemory_complete) simp_all

text \<open>
  C8: releasing a fresh allocation restores the page map bit for bit, on every well-formed heap.
\<close>

theorem alloc_free_restores_pages:
  assumes "heap_inv h" "n < 2 ^ 31" "bc_alloc h n = (h', Some addr)"
  shows "\<exists>h''. FreeMemory h' (Some addr) = Some h'' \<and> pages h'' = pages h"
proof -
  define m where "m = (if n = 0 then 1 else n)"
  have m: "0 < m" "pages_for m < 2 ^ 32" "TryGetMemory h (int m) = (h', Some addr)"
    using assms(2,3) by (auto simp: m_def bc_alloc_def pages_for_def)
  from TryGetMemory_Some [OF this] obtain a where a: "addr = a * PAGESIZE" "free_run (pages h) a (pages_for m)"
    "pages h' = splice (pages h) a (blk (pages_for m))" by metis
  have wf: "wf_pages (pages h)" using assms(1) by (simp add: heap_inv_def)
  have k: "0 < pages_for m" "a + pages_for m \<le> npages h" using m a(2) by (simp_all add: free_run_def)
  have "is_block (pages h') a (pages_for m)" using is_block_splice_blk [OF wf a(2) k(1)] by (simp add: a(3))
  from FreeMemory_block [OF this] obtain h'' where h'': "FreeMemory h' (Some addr) = Some h''"
    "pages h'' = splice (pages h') a (replicate (pages_for m) 0)" by (metis a(1))
  have "pages h'' = pages h"
  proof (rule nth_equalityI)
    show l: "length (pages h'') = length (pages h)" using k unfolding h''(2) a(3) by simp
    fix i assume "i < length (pages h'')"
    then have i: "i < npages h" using l by simp
    show "pages h'' ! i = pages h ! i"
      unfolding h''(2) a(3) using k i free_run_zero [OF wf a(2), of "i - a"]
      by (auto simp: splice_zero_nth splice_blk_nth)
  qed
  with h''(1) show ?thesis by blast
qed

theorem alloc_free_restores_pages_witness:
  "\<exists>h' addr h''. bc_alloc heap8 300 = (h', Some addr) \<and> FreeMemory h' (Some addr) = Some h'' \<and>
     pages h'' = pages heap8"
proof -
  obtain h' addr where "bc_alloc heap8 300 = (h', Some addr)" by (rule heap8_bc_alloc)
  then show ?thesis using alloc_free_restores_pages [OF heap8_inv, of 300 h' addr] by auto
qed

text \<open>
  C7: an allocation never overlaps a live block: every block live before stays live, the new one is
  disjoint from all of them, and the map stays well formed.
\<close>

theorem bc_alloc_no_overlap:
  assumes "heap_inv h" "n < 2 ^ 31" "bc_alloc h n = (h', Some addr)" "(b, l) \<in> heap_live h"
  shows "heap_inv h' \<and> (b, l) \<in> heap_live h' \<and> (addr + n \<le> b \<or> b + l \<le> addr)"
  using mmh.alloc_live [OF assms(1-3)] mmh.alloc_fresh [OF assms] assms(4) by blast

theorem bc_alloc_no_overlap_witness:
  "\<exists>h' addr. bc_alloc heap8b 300 = (h', Some addr) \<and> (0, 256) \<in> heap_live h' \<and> 256 \<le> addr"
proof -
  obtain h' addr where "bc_alloc heap8b 300 = (h', Some addr)" by (rule heap8b_bc_alloc)
  then show ?thesis using bc_alloc_no_overlap [OF heap8b_inv _ _ heap8b_live, of 300 h' addr] by auto
qed

text \<open>C10: \<open>MemSize\<close> of a live block is its size in bytes.\<close>

theorem MemSize_live:
  assumes "(addr, m) \<in> heap_live h"
  shows "MemSize h addr = Some m"
proof -
  from assms obtain a k where b: "addr = a * PAGESIZE" "m = k * PAGESIZE" "is_block (pages h) a k"
    by (auto simp: heap_live_def)
  have "a < npages h" using b(3) by (auto simp: is_block_def)
  then have "addr < npages h * PAGESIZE" unfolding b(1) by (simp add: PAGESIZE_def)
  then show ?thesis using memsize_loop_block [of k a h 0] b by (simp add: MemSize_def is_block_def)
qed

theorem MemSize_live_witness: "MemSize heap8b 0 = Some 256"
  by (rule MemSize_live [OF heap8b_live])


end
