(* ===== verification/Bytecode.thy ===== *)
theory Bytecode
  imports Prelude
begin

text \<open>
  The instruction set of \<open>runtime/vm/bytecode.h\<close>: the numeric opcodes, the table sizes of the host
  configuration, the value type tags, and the instructions with their operands. An instruction is
  encoded as its opcode byte followed by little-endian operands; \<open>decode\<close> reads what the dispatch
  loop of \<open>bc_vm.c\<close> reads for that opcode (\<open>READ_U8\<close>, \<open>READ_U16\<close>, ...), \<open>encode\<close> writes what the
  compiler emits (\<open>bc_emit_byte\<close>, \<open>bc_emit_u16\<close>, ...).
  The opcodes of device commands (graphics, files, pins, bridge) have codes here but no instruction.
\<close>

section \<open>Opcodes\<close>

definition OP_NOP :: u8 where [opcodes]: "OP_NOP = 0x00"
definition OP_PUSH_INT :: u8 where [opcodes]: "OP_PUSH_INT = 0x01"
definition OP_PUSH_FLT :: u8 where [opcodes]: "OP_PUSH_FLT = 0x02"
definition OP_PUSH_STR :: u8 where [opcodes]: "OP_PUSH_STR = 0x03"
definition OP_PUSH_ZERO :: u8 where [opcodes]: "OP_PUSH_ZERO = 0x04"
definition OP_PUSH_ONE :: u8 where [opcodes]: "OP_PUSH_ONE = 0x05"
definition OP_LOAD_I :: u8 where [opcodes]: "OP_LOAD_I = 0x06"
definition OP_LOAD_F :: u8 where [opcodes]: "OP_LOAD_F = 0x07"
definition OP_LOAD_S :: u8 where [opcodes]: "OP_LOAD_S = 0x08"
definition OP_STORE_I :: u8 where [opcodes]: "OP_STORE_I = 0x09"
definition OP_STORE_F :: u8 where [opcodes]: "OP_STORE_F = 0x0A"
definition OP_STORE_S :: u8 where [opcodes]: "OP_STORE_S = 0x0B"
definition OP_LOAD_ARR_I :: u8 where [opcodes]: "OP_LOAD_ARR_I = 0x0C"
definition OP_LOAD_ARR_F :: u8 where [opcodes]: "OP_LOAD_ARR_F = 0x0D"
definition OP_LOAD_ARR_S :: u8 where [opcodes]: "OP_LOAD_ARR_S = 0x0E"
definition OP_STORE_ARR_I :: u8 where [opcodes]: "OP_STORE_ARR_I = 0x0F"
definition OP_STORE_ARR_F :: u8 where [opcodes]: "OP_STORE_ARR_F = 0x10"
definition OP_STORE_ARR_S :: u8 where [opcodes]: "OP_STORE_ARR_S = 0x11"
definition OP_POP :: u8 where [opcodes]: "OP_POP = 0x12"
definition OP_DUP :: u8 where [opcodes]: "OP_DUP = 0x13"
definition OP_CVT_I2F :: u8 where [opcodes]: "OP_CVT_I2F = 0x14"
definition OP_CVT_F2I :: u8 where [opcodes]: "OP_CVT_F2I = 0x15"
definition OP_PUSHREF_G :: u8 where [opcodes]: "OP_PUSHREF_G = 0x1B"
definition OP_PUSHREF_L :: u8 where [opcodes]: "OP_PUSHREF_L = 0x1C"
definition OP_PUSHREF_AELEM :: u8 where [opcodes]: "OP_PUSHREF_AELEM = 0x1D"
definition OP_DIM_LOCAL_ARR_I :: u8 where [opcodes]: "OP_DIM_LOCAL_ARR_I = 0x25"
definition OP_DIM_LOCAL_ARR_F :: u8 where [opcodes]: "OP_DIM_LOCAL_ARR_F = 0x26"
definition OP_DIM_LOCAL_ARR_S :: u8 where [opcodes]: "OP_DIM_LOCAL_ARR_S = 0x27"
definition OP_ADD_I :: u8 where [opcodes]: "OP_ADD_I = 0x20"
definition OP_SUB_I :: u8 where [opcodes]: "OP_SUB_I = 0x21"
definition OP_MUL_I :: u8 where [opcodes]: "OP_MUL_I = 0x22"
definition OP_IDIV_I :: u8 where [opcodes]: "OP_IDIV_I = 0x23"
definition OP_MOD_I :: u8 where [opcodes]: "OP_MOD_I = 0x24"
definition OP_ADD_F :: u8 where [opcodes]: "OP_ADD_F = 0x28"
definition OP_SUB_F :: u8 where [opcodes]: "OP_SUB_F = 0x29"
definition OP_MUL_F :: u8 where [opcodes]: "OP_MUL_F = 0x2A"
definition OP_DIV_F :: u8 where [opcodes]: "OP_DIV_F = 0x2B"
definition OP_POW_F :: u8 where [opcodes]: "OP_POW_F = 0x2C"
definition OP_MOD_F :: u8 where [opcodes]: "OP_MOD_F = 0x2D"
definition OP_ADD_S :: u8 where [opcodes]: "OP_ADD_S = 0x30"
definition OP_NEG_I :: u8 where [opcodes]: "OP_NEG_I = 0x38"
definition OP_NEG_F :: u8 where [opcodes]: "OP_NEG_F = 0x39"
definition OP_NOT :: u8 where [opcodes]: "OP_NOT = 0x3A"
definition OP_INV :: u8 where [opcodes]: "OP_INV = 0x3B"
definition OP_AND :: u8 where [opcodes]: "OP_AND = 0x40"
definition OP_OR :: u8 where [opcodes]: "OP_OR = 0x41"
definition OP_XOR :: u8 where [opcodes]: "OP_XOR = 0x42"
definition OP_SHL :: u8 where [opcodes]: "OP_SHL = 0x43"
definition OP_SHR :: u8 where [opcodes]: "OP_SHR = 0x44"
definition OP_EQ_I :: u8 where [opcodes]: "OP_EQ_I = 0x48"
definition OP_NE_I :: u8 where [opcodes]: "OP_NE_I = 0x49"
definition OP_LT_I :: u8 where [opcodes]: "OP_LT_I = 0x4A"
definition OP_GT_I :: u8 where [opcodes]: "OP_GT_I = 0x4B"
definition OP_LE_I :: u8 where [opcodes]: "OP_LE_I = 0x4C"
definition OP_GE_I :: u8 where [opcodes]: "OP_GE_I = 0x4D"
definition OP_EQ_F :: u8 where [opcodes]: "OP_EQ_F = 0x50"
definition OP_NE_F :: u8 where [opcodes]: "OP_NE_F = 0x51"
definition OP_LT_F :: u8 where [opcodes]: "OP_LT_F = 0x52"
definition OP_GT_F :: u8 where [opcodes]: "OP_GT_F = 0x53"
definition OP_LE_F :: u8 where [opcodes]: "OP_LE_F = 0x54"
definition OP_GE_F :: u8 where [opcodes]: "OP_GE_F = 0x55"
definition OP_EQ_S :: u8 where [opcodes]: "OP_EQ_S = 0x58"
definition OP_NE_S :: u8 where [opcodes]: "OP_NE_S = 0x59"
definition OP_LT_S :: u8 where [opcodes]: "OP_LT_S = 0x5A"
definition OP_GT_S :: u8 where [opcodes]: "OP_GT_S = 0x5B"
definition OP_LE_S :: u8 where [opcodes]: "OP_LE_S = 0x5C"
definition OP_GE_S :: u8 where [opcodes]: "OP_GE_S = 0x5D"
definition OP_JMP :: u8 where [opcodes]: "OP_JMP = 0x60"
definition OP_JMP_ABS :: u8 where [opcodes]: "OP_JMP_ABS = 0x61"
definition OP_JZ :: u8 where [opcodes]: "OP_JZ = 0x62"
definition OP_JNZ :: u8 where [opcodes]: "OP_JNZ = 0x63"
definition OP_GOSUB :: u8 where [opcodes]: "OP_GOSUB = 0x64"
definition OP_RETURN :: u8 where [opcodes]: "OP_RETURN = 0x65"
definition OP_FOR_INIT_I :: u8 where [opcodes]: "OP_FOR_INIT_I = 0x66"
definition OP_FOR_NEXT_I :: u8 where [opcodes]: "OP_FOR_NEXT_I = 0x67"
definition OP_FOR_INIT_F :: u8 where [opcodes]: "OP_FOR_INIT_F = 0x68"
definition OP_FOR_NEXT_F :: u8 where [opcodes]: "OP_FOR_NEXT_F = 0x69"
definition OP_CALL_SUB :: u8 where [opcodes]: "OP_CALL_SUB = 0x70"
definition OP_CALL_FUN :: u8 where [opcodes]: "OP_CALL_FUN = 0x71"
definition OP_RET_SUB :: u8 where [opcodes]: "OP_RET_SUB = 0x72"
definition OP_RET_FUN :: u8 where [opcodes]: "OP_RET_FUN = 0x73"
definition OP_ENTER_FRAME :: u8 where [opcodes]: "OP_ENTER_FRAME = 0x74"
definition OP_LEAVE_FRAME :: u8 where [opcodes]: "OP_LEAVE_FRAME = 0x75"
definition OP_LOAD_LOCAL_I :: u8 where [opcodes]: "OP_LOAD_LOCAL_I = 0x76"
definition OP_LOAD_LOCAL_F :: u8 where [opcodes]: "OP_LOAD_LOCAL_F = 0x77"
definition OP_LOAD_LOCAL_S :: u8 where [opcodes]: "OP_LOAD_LOCAL_S = 0x78"
definition OP_STORE_LOCAL_I :: u8 where [opcodes]: "OP_STORE_LOCAL_I = 0x79"
definition OP_STORE_LOCAL_F :: u8 where [opcodes]: "OP_STORE_LOCAL_F = 0x7A"
definition OP_STORE_LOCAL_S :: u8 where [opcodes]: "OP_STORE_LOCAL_S = 0x7B"
definition OP_LOAD_LOCAL_ARR_I :: u8 where [opcodes]: "OP_LOAD_LOCAL_ARR_I = 0x7C"
definition OP_LOAD_LOCAL_ARR_F :: u8 where [opcodes]: "OP_LOAD_LOCAL_ARR_F = 0x7D"
definition OP_LOAD_LOCAL_ARR_S :: u8 where [opcodes]: "OP_LOAD_LOCAL_ARR_S = 0x7E"
definition OP_STORE_LOCAL_ARR_I :: u8 where [opcodes]: "OP_STORE_LOCAL_ARR_I = 0x7F"
definition OP_BRIDGE_CMD :: u8 where [opcodes]: "OP_BRIDGE_CMD = 0x80"
definition OP_BRIDGE_FUN_I :: u8 where [opcodes]: "OP_BRIDGE_FUN_I = 0x81"
definition OP_BRIDGE_FUN_F :: u8 where [opcodes]: "OP_BRIDGE_FUN_F = 0x82"
definition OP_BRIDGE_FUN_S :: u8 where [opcodes]: "OP_BRIDGE_FUN_S = 0x83"
definition OP_STORE_LOCAL_ARR_F :: u8 where [opcodes]: "OP_STORE_LOCAL_ARR_F = 0x84"
definition OP_STORE_LOCAL_ARR_S :: u8 where [opcodes]: "OP_STORE_LOCAL_ARR_S = 0x85"
definition OP_FAST_LOOP :: u8 where [opcodes]: "OP_FAST_LOOP = 0x86"
definition OP_PRINT_INT :: u8 where [opcodes]: "OP_PRINT_INT = 0x88"
definition OP_PRINT_FLT :: u8 where [opcodes]: "OP_PRINT_FLT = 0x89"
definition OP_PRINT_STR :: u8 where [opcodes]: "OP_PRINT_STR = 0x8A"
definition OP_PRINT_NEWLINE :: u8 where [opcodes]: "OP_PRINT_NEWLINE = 0x8B"
definition OP_PRINT_TAB :: u8 where [opcodes]: "OP_PRINT_TAB = 0x8C"
definition OP_DIM_ARR_I :: u8 where [opcodes]: "OP_DIM_ARR_I = 0x90"
definition OP_DIM_ARR_F :: u8 where [opcodes]: "OP_DIM_ARR_F = 0x91"
definition OP_DIM_ARR_S :: u8 where [opcodes]: "OP_DIM_ARR_S = 0x92"
definition OP_LOAD_STRUCT_FIELD_I :: u8 where [opcodes]: "OP_LOAD_STRUCT_FIELD_I = 0x93"
definition OP_LOAD_STRUCT_FIELD_F :: u8 where [opcodes]: "OP_LOAD_STRUCT_FIELD_F = 0x94"
definition OP_LOAD_STRUCT_FIELD_S :: u8 where [opcodes]: "OP_LOAD_STRUCT_FIELD_S = 0x95"
definition OP_STORE_STRUCT_FIELD_I :: u8 where [opcodes]: "OP_STORE_STRUCT_FIELD_I = 0x96"
definition OP_STORE_STRUCT_FIELD_F :: u8 where [opcodes]: "OP_STORE_STRUCT_FIELD_F = 0x97"
definition OP_STORE_STRUCT_FIELD_S :: u8 where [opcodes]: "OP_STORE_STRUCT_FIELD_S = 0x98"
definition OP_LOAD_STRUCT_ELEM_I :: u8 where [opcodes]: "OP_LOAD_STRUCT_ELEM_I = 0x99"
definition OP_LOAD_STRUCT_ELEM_F :: u8 where [opcodes]: "OP_LOAD_STRUCT_ELEM_F = 0x9A"
definition OP_LOAD_STRUCT_ELEM_S :: u8 where [opcodes]: "OP_LOAD_STRUCT_ELEM_S = 0x9B"
definition OP_STORE_STRUCT_ELEM_I :: u8 where [opcodes]: "OP_STORE_STRUCT_ELEM_I = 0x9C"
definition OP_STORE_STRUCT_ELEM_F :: u8 where [opcodes]: "OP_STORE_STRUCT_ELEM_F = 0x9D"
definition OP_STORE_STRUCT_ELEM_S :: u8 where [opcodes]: "OP_STORE_STRUCT_ELEM_S = 0x9E"
definition OP_LOAD_STRUCT_NESTED_I :: u8 where [opcodes]: "OP_LOAD_STRUCT_NESTED_I = 0x9F"
definition OP_LOAD_STRUCT_NESTED_F :: u8 where [opcodes]: "OP_LOAD_STRUCT_NESTED_F = 0x16"
definition OP_LOAD_STRUCT_NESTED_S :: u8 where [opcodes]: "OP_LOAD_STRUCT_NESTED_S = 0x17"
definition OP_STORE_STRUCT_NESTED_I :: u8 where [opcodes]: "OP_STORE_STRUCT_NESTED_I = 0x18"
definition OP_STORE_STRUCT_NESTED_F :: u8 where [opcodes]: "OP_STORE_STRUCT_NESTED_F = 0x19"
definition OP_STORE_STRUCT_NESTED_S :: u8 where [opcodes]: "OP_STORE_STRUCT_NESTED_S = 0x1A"
definition OP_STR_LEN :: u8 where [opcodes]: "OP_STR_LEN = 0xA0"
definition OP_STR_LEFT :: u8 where [opcodes]: "OP_STR_LEFT = 0xA1"
definition OP_STR_RIGHT :: u8 where [opcodes]: "OP_STR_RIGHT = 0xA2"
definition OP_STR_MID2 :: u8 where [opcodes]: "OP_STR_MID2 = 0xA3"
definition OP_STR_MID3 :: u8 where [opcodes]: "OP_STR_MID3 = 0xA4"
definition OP_STR_UCASE :: u8 where [opcodes]: "OP_STR_UCASE = 0xA5"
definition OP_STR_LCASE :: u8 where [opcodes]: "OP_STR_LCASE = 0xA6"
definition OP_STR_VAL :: u8 where [opcodes]: "OP_STR_VAL = 0xA7"
definition OP_STR_STR :: u8 where [opcodes]: "OP_STR_STR = 0xA8"
definition OP_STR_CHR :: u8 where [opcodes]: "OP_STR_CHR = 0xA9"
definition OP_STR_ASC :: u8 where [opcodes]: "OP_STR_ASC = 0xAA"
definition OP_STR_INSTR :: u8 where [opcodes]: "OP_STR_INSTR = 0xAB"
definition OP_STR_HEX :: u8 where [opcodes]: "OP_STR_HEX = 0xAC"
definition OP_STR_OCT :: u8 where [opcodes]: "OP_STR_OCT = 0xAD"
definition OP_STR_BIN :: u8 where [opcodes]: "OP_STR_BIN = 0xAE"
definition OP_MATH_SIN :: u8 where [opcodes]: "OP_MATH_SIN = 0xB0"
definition OP_MATH_COS :: u8 where [opcodes]: "OP_MATH_COS = 0xB1"
definition OP_MATH_TAN :: u8 where [opcodes]: "OP_MATH_TAN = 0xB2"
definition OP_MATH_ATN :: u8 where [opcodes]: "OP_MATH_ATN = 0xB3"
definition OP_MATH_SQR :: u8 where [opcodes]: "OP_MATH_SQR = 0xB4"
definition OP_MATH_LOG :: u8 where [opcodes]: "OP_MATH_LOG = 0xB5"
definition OP_MATH_EXP :: u8 where [opcodes]: "OP_MATH_EXP = 0xB6"
definition OP_MATH_ABS :: u8 where [opcodes]: "OP_MATH_ABS = 0xB7"
definition OP_MATH_SGN :: u8 where [opcodes]: "OP_MATH_SGN = 0xB8"
definition OP_MATH_INT :: u8 where [opcodes]: "OP_MATH_INT = 0xB9"
definition OP_MATH_FIX :: u8 where [opcodes]: "OP_MATH_FIX = 0xBA"
definition OP_MATH_CINT :: u8 where [opcodes]: "OP_MATH_CINT = 0xBB"
definition OP_MATH_RAD :: u8 where [opcodes]: "OP_MATH_RAD = 0xBC"
definition OP_MATH_DEG :: u8 where [opcodes]: "OP_MATH_DEG = 0xBD"
definition OP_MATH_PI :: u8 where [opcodes]: "OP_MATH_PI = 0xBE"
definition OP_MATH_MAX :: u8 where [opcodes]: "OP_MATH_MAX = 0xBF"
definition OP_MATH_MIN :: u8 where [opcodes]: "OP_MATH_MIN = 0xC0"
definition OP_READ_I :: u8 where [opcodes]: "OP_READ_I = 0xC1"
definition OP_READ_F :: u8 where [opcodes]: "OP_READ_F = 0xC2"
definition OP_READ_S :: u8 where [opcodes]: "OP_READ_S = 0xC3"
definition OP_RESTORE :: u8 where [opcodes]: "OP_RESTORE = 0xC4"
definition OP_RESTORE_DATA :: u8 where [opcodes]: "OP_RESTORE_DATA = 0x87"
definition OP_STR_SPACE :: u8 where [opcodes]: "OP_STR_SPACE = 0xC5"
definition OP_STR_STRING :: u8 where [opcodes]: "OP_STR_STRING = 0xC6"
definition OP_STR_INKEY :: u8 where [opcodes]: "OP_STR_INKEY = 0xC7"
definition OP_RND :: u8 where [opcodes]: "OP_RND = 0xC8"
definition OP_INC_I :: u8 where [opcodes]: "OP_INC_I = 0xC9"
definition OP_INC_F :: u8 where [opcodes]: "OP_INC_F = 0xCA"
definition OP_RANDOMIZE :: u8 where [opcodes]: "OP_RANDOMIZE = 0xCB"
definition OP_ERROR_S :: u8 where [opcodes]: "OP_ERROR_S = 0xCC"
definition OP_ERROR_EMPTY :: u8 where [opcodes]: "OP_ERROR_EMPTY = 0xCD"
definition OP_CLEAR :: u8 where [opcodes]: "OP_CLEAR = 0xCE"
definition OP_FASTGFX_SWAP :: u8 where [opcodes]: "OP_FASTGFX_SWAP = 0xCF"
definition OP_FASTGFX_SYNC :: u8 where [opcodes]: "OP_FASTGFX_SYNC = 0xD0"
definition OP_BOX :: u8 where [opcodes]: "OP_BOX = 0xD1"
definition OP_RGB :: u8 where [opcodes]: "OP_RGB = 0xD2"
definition OP_CIRCLE :: u8 where [opcodes]: "OP_CIRCLE = 0xD3"
definition OP_DRAW_LINE :: u8 where [opcodes]: "OP_DRAW_LINE = 0xD4"
definition OP_TEXT :: u8 where [opcodes]: "OP_TEXT = 0xD5"
definition OP_CLS :: u8 where [opcodes]: "OP_CLS = 0xD6"
definition OP_PIXEL :: u8 where [opcodes]: "OP_PIXEL = 0xD7"
definition OP_FASTGFX_CREATE :: u8 where [opcodes]: "OP_FASTGFX_CREATE = 0xD8"
definition OP_FASTGFX_CLOSE :: u8 where [opcodes]: "OP_FASTGFX_CLOSE = 0xD9"
definition OP_FASTGFX_FPS :: u8 where [opcodes]: "OP_FASTGFX_FPS = 0xDA"
definition OP_MATH_ASIN :: u8 where [opcodes]: "OP_MATH_ASIN = 0xDB"
definition OP_MATH_ACOS :: u8 where [opcodes]: "OP_MATH_ACOS = 0xDC"
definition OP_MATH_ATAN2 :: u8 where [opcodes]: "OP_MATH_ATAN2 = 0xDD"
definition OP_TIMER :: u8 where [opcodes]: "OP_TIMER = 0xDE"
definition OP_MM_HRES :: u8 where [opcodes]: "OP_MM_HRES = 0xDF"
definition OP_MM_VRES :: u8 where [opcodes]: "OP_MM_VRES = 0xE0"
definition OP_STR_FIELD3 :: u8 where [opcodes]: "OP_STR_FIELD3 = 0xE1"
definition OP_COLOUR :: u8 where [opcodes]: "OP_COLOUR = 0xE2"
definition OP_PAUSE :: u8 where [opcodes]: "OP_PAUSE = 0xE3"
definition OP_STR_DATE :: u8 where [opcodes]: "OP_STR_DATE = 0xE4"
definition OP_STR_TIME :: u8 where [opcodes]: "OP_STR_TIME = 0xE5"
definition OP_KEYDOWN :: u8 where [opcodes]: "OP_KEYDOWN = 0xE6"
definition OP_MATH_MULDIV :: u8 where [opcodes]: "OP_MATH_MULDIV = 0xE7"
definition OP_MATH_SQRDIV :: u8 where [opcodes]: "OP_MATH_SQRDIV = 0xE8"
definition OP_SETPIN :: u8 where [opcodes]: "OP_SETPIN = 0xE9"
definition OP_PIN_READ :: u8 where [opcodes]: "OP_PIN_READ = 0xEA"
definition OP_PIN_WRITE :: u8 where [opcodes]: "OP_PIN_WRITE = 0xEB"
definition OP_FILE :: u8 where [opcodes]: "OP_FILE = 0xEC"
definition OP_PIXEL_READ :: u8 where [opcodes]: "OP_PIXEL_READ = 0xED"
definition OP_MATH_MULSHR :: u8 where [opcodes]: "OP_MATH_MULSHR = 0xEE"
definition OP_RBOX :: u8 where [opcodes]: "OP_RBOX = 0xEF"
definition OP_ARC :: u8 where [opcodes]: "OP_ARC = 0xF2"
definition OP_TRIANGLE :: u8 where [opcodes]: "OP_TRIANGLE = 0xF3"
definition OP_FONT :: u8 where [opcodes]: "OP_FONT = 0xF4"
definition OP_POLYGON :: u8 where [opcodes]: "OP_POLYGON = 0xF5"
definition OP_PWM :: u8 where [opcodes]: "OP_PWM = 0xF6"
definition OP_SERVO :: u8 where [opcodes]: "OP_SERVO = 0xF7"
definition OP_SYSCALL :: u8 where [opcodes]: "OP_SYSCALL = 0xF8"
definition OP_MATH_SQRSHR :: u8 where [opcodes]: "OP_MATH_SQRSHR = 0xF9"
definition OP_MATH_MULSHRADD :: u8 where [opcodes]: "OP_MATH_MULSHRADD = 0xFA"
definition OP_JCMP_I :: u8 where [opcodes]: "OP_JCMP_I = 0xFB"
definition OP_JCMP_F :: u8 where [opcodes]: "OP_JCMP_F = 0xFC"
definition OP_MOV_VAR :: u8 where [opcodes]: "OP_MOV_VAR = 0xFD"
definition OP_LINE :: u8 where [opcodes]: "OP_LINE = 0xF0"
definition OP_CHECKINT :: u8 where [opcodes]: "OP_CHECKINT = 0xF1"
definition OP_END :: u8 where [opcodes]: "OP_END = 0xFE"
definition OP_HALT :: u8 where [opcodes]: "OP_HALT = 0xFF"

section \<open>Limits and tags\<close>

definition T_NBR :: u8 where [opcodes]: "T_NBR = 0x01"
definition T_STR :: u8 where [opcodes]: "T_STR = 0x02"
definition T_INT :: u8 where [opcodes]: "T_INT = 0x04"
definition BC_STK_GARR_I :: u8 where [opcodes]: "BC_STK_GARR_I = 0x80"
definition BC_STK_GARR_F :: u8 where [opcodes]: "BC_STK_GARR_F = 0x81"
definition BC_STK_GARR_S :: u8 where [opcodes]: "BC_STK_GARR_S = 0x82"
definition BC_STK_LARR_I :: u8 where [opcodes]: "BC_STK_LARR_I = 0x83"
definition BC_STK_LARR_F :: u8 where [opcodes]: "BC_STK_LARR_F = 0x84"
definition BC_STK_LARR_S :: u8 where [opcodes]: "BC_STK_LARR_S = 0x85"
definition BC_STK_SREF_G :: u8 where [opcodes]: "BC_STK_SREF_G = 0x86"
definition BC_STK_SREF_L :: u8 where [opcodes]: "BC_STK_SREF_L = 0x87"
definition BC_STK_SREF_AELEM :: u8 where [opcodes]: "BC_STK_SREF_AELEM = 0x88"

definition BC_MAX_CODE :: nat where [limits]: "BC_MAX_CODE = 64 * 1024"
definition BC_MAX_CONSTANTS :: nat where [limits]: "BC_MAX_CONSTANTS = 512"
definition BC_MAX_SLOTS :: nat where [limits]: "BC_MAX_SLOTS = 512"
definition BC_MAX_SUBFUNS :: nat where [limits]: "BC_MAX_SUBFUNS = 256"
definition BC_MAX_FIXUPS :: nat where [limits]: "BC_MAX_FIXUPS = 2048"
definition BC_MAX_LINEMAP :: nat where [limits]: "BC_MAX_LINEMAP = 4096"
definition BC_MAX_LOCALS :: nat where [limits]: "BC_MAX_LOCALS = 64"
definition BC_MAX_PARAMS :: nat where [limits]: "BC_MAX_PARAMS = 16"
definition BC_MAX_LOCAL_META :: nat where [limits]: "BC_MAX_LOCAL_META = 4096"
definition BC_MAX_NEST :: nat where [limits]: "BC_MAX_NEST = 64"
definition BC_MAX_DATA_ITEMS :: nat where [limits]: "BC_MAX_DATA_ITEMS = 1024"
definition BC_MAX_LABELS :: nat where [limits]: "BC_MAX_LABELS = 32"
definition BC_MAX_LABEL_NAME :: nat where [limits]: "BC_MAX_LABEL_NAME = 31"
definition BC_MAX_CONST_BYTES :: nat where [limits]: "BC_MAX_CONST_BYTES = 512 * 256"
definition MAXVARLEN :: nat where [limits]: "MAXVARLEN = 32"
definition MAXSTRLEN :: nat where [limits]: "MAXSTRLEN = 255"
definition STRINGSIZE :: nat where [limits]: "STRINGSIZE = 256"
definition MAXDIM :: nat where [limits]: "MAXDIM = 6"
definition VM_STACK_SIZE :: int where [limits]: "VM_STACK_SIZE = 256"
definition VM_MAX_CALL :: nat where [limits]: "VM_MAX_CALL = 64"
definition VM_MAX_FOR :: nat where [limits]: "VM_MAX_FOR = 32"
definition VM_MAX_GOSUB :: nat where [limits]: "VM_MAX_GOSUB = 64"
definition VM_MAX_LOCALS :: nat where [limits]: "VM_MAX_LOCALS = 1024"
definition MAX_FAST_REGS :: nat where [limits]: "MAX_FAST_REGS = 64"

section \<open>Instructions\<close>

text \<open>
  The suffixes \<open>_I\<close>, \<open>_F\<close>, \<open>_S\<close> of the opcode names are \<open>TI\<close>, \<open>TF\<close>, \<open>TS\<close>; the infix \<open>_LOCAL\<close> is
  \<open>Local\<close>. The other parameters are the operands in the order they are encoded.
\<close>

datatype vty = TI | TF | TS
datatype scope = Global | Local
datatype rel = EQ | NE | LT | GT | LE | GE
datatype (plugins only: ) ibin = ADD | SUB | MUL | IDIV | MOD | BAND | BOR | BXOR | SHL | SHR
datatype fbin = FADD | FSUB | FMUL | FDIV | FPOW | FMOD
datatype (plugins only: ) sfun = LEN | LEFT | RIGHT | MID2 | MID3 | UCASE | LCASE | STRD | CHRD | ASC | HEX | OCT | BIN
  | SPACE | STRINGD | FIELD3
datatype (plugins only: ) mfun = SIN | COS | TAN | ATN | SQR | LOG | EXP | ABS | SGN | INTF | FIX | CINT | RAD | DEG | PIC
  | MAXF | MINF | ASIN | ACOS | ATAN2 | MULSHR | MULDIV | SQRSHR | SQRDIV | MULSHRADD

datatype (plugins only: ) instr =
    I_NOP | I_PUSH_INT i64 | I_PUSH_FLT u64 | I_PUSH_STR u16 | I_PUSH_ZERO | I_PUSH_ONE
  | I_LOAD scope vty u16 | I_STORE scope vty u16
  | I_LOAD_ARR scope vty u16 u8 | I_STORE_ARR scope vty u16 u8
  | I_POP | I_DUP | I_CVT_I2F | I_CVT_F2I
  | I_PUSHREF scope u16 u8 | I_PUSHREF_AELEM u16 u8 u8
  | I_BIN_I ibin | I_BIN_F fbin | I_ADD_S | I_NEG_I | I_NEG_F | I_NOT | I_INV | I_CMP vty rel
  | I_JMP u16 | I_JMP_ABS u32 | I_JZ u16 | I_JNZ u16 | I_JCMP_I u8 u16 | I_JCMP_F u8 u16
  | I_MOV_VAR u8 u16 u16 | I_GOSUB u32 | I_RETURN
  | I_FOR_INIT vty u16 u16 u16 u16 | I_FOR_NEXT vty u16 u16 u16 u16
  | I_CALL_SUB u16 u8 | I_CALL_FUN u16 u8 | I_RET_SUB | I_RET_FUN | I_ENTER_FRAME u16 | I_LEAVE_FRAME
  | I_PRINT_INT u8 | I_PRINT_STR u8 | I_PRINT_NEWLINE | I_PRINT_TAB
  | I_DIM_ARR scope vty u16 u8
  | I_LOAD_FIELD vty u16 u16 | I_STORE_FIELD_I u16 u16 | I_STORE_FIELD_F u16 u16 | I_STORE_FIELD_S u16 u16 u16
  | I_STR sfun | I_STR_INSTR u8 | I_MATH mfun
  | I_INC_I u16 | I_INC_F u16 | I_READ vty | I_RESTORE | I_RESTORE_DATA u16
  | I_ERROR_S | I_ERROR_EMPTY | I_LINE u16 | I_CHECKINT | I_END | I_HALT

section \<open>Decoding\<close>

definition get8 :: "(u8 \<Rightarrow> u8 list \<Rightarrow> 'a option) \<Rightarrow> u8 list \<Rightarrow> 'a option" where
  "get8 k bs = (case bs of [] \<Rightarrow> None | b # r \<Rightarrow> k b r)"

definition get16 :: "(u16 \<Rightarrow> u8 list \<Rightarrow> 'a option) \<Rightarrow> u8 list \<Rightarrow> 'a option" where
  "get16 k bs = (if 2 \<le> length bs then k (of_nat (le_dec (take 2 bs))) (drop 2 bs) else None)"

definition get32 :: "(u32 \<Rightarrow> u8 list \<Rightarrow> 'a option) \<Rightarrow> u8 list \<Rightarrow> 'a option" where
  "get32 k bs = (if 4 \<le> length bs then k (of_nat (le_dec (take 4 bs))) (drop 4 bs) else None)"

definition get64 :: "(u64 \<Rightarrow> u8 list \<Rightarrow> 'a option) \<Rightarrow> u8 list \<Rightarrow> 'a option" where
  "get64 k bs = (if 8 \<le> length bs then k (of_nat (le_dec (take 8 bs))) (drop 8 bs) else None)"

definition ret :: "instr \<Rightarrow> u8 list \<Rightarrow> (instr \<times> u8 list) option" where
  "ret i r = Some (i, r)"

definition decode_table :: "(u8 \<times> (u8 list \<Rightarrow> (instr \<times> u8 list) option)) list" where
  "decode_table =
   [(OP_NOP, ret I_NOP),
    (OP_PUSH_INT, get64 (\<lambda>a. ret (I_PUSH_INT a))),
    (OP_PUSH_FLT, get64 (\<lambda>a. ret (I_PUSH_FLT a))),
    (OP_PUSH_STR, get16 (\<lambda>a. ret (I_PUSH_STR a))),
    (OP_PUSH_ZERO, ret I_PUSH_ZERO),
    (OP_PUSH_ONE, ret I_PUSH_ONE),
    (OP_LOAD_I, get16 (\<lambda>a. ret (I_LOAD Global TI a))),
    (OP_LOAD_F, get16 (\<lambda>a. ret (I_LOAD Global TF a))),
    (OP_LOAD_S, get16 (\<lambda>a. ret (I_LOAD Global TS a))),
    (OP_STORE_I, get16 (\<lambda>a. ret (I_STORE Global TI a))),
    (OP_STORE_F, get16 (\<lambda>a. ret (I_STORE Global TF a))),
    (OP_STORE_S, get16 (\<lambda>a. ret (I_STORE Global TS a))),
    (OP_LOAD_ARR_I, get16 (\<lambda>a. get8 (\<lambda>b. ret (I_LOAD_ARR Global TI a b)))),
    (OP_LOAD_ARR_F, get16 (\<lambda>a. get8 (\<lambda>b. ret (I_LOAD_ARR Global TF a b)))),
    (OP_LOAD_ARR_S, get16 (\<lambda>a. get8 (\<lambda>b. ret (I_LOAD_ARR Global TS a b)))),
    (OP_STORE_ARR_I, get16 (\<lambda>a. get8 (\<lambda>b. ret (I_STORE_ARR Global TI a b)))),
    (OP_STORE_ARR_F, get16 (\<lambda>a. get8 (\<lambda>b. ret (I_STORE_ARR Global TF a b)))),
    (OP_STORE_ARR_S, get16 (\<lambda>a. get8 (\<lambda>b. ret (I_STORE_ARR Global TS a b)))),
    (OP_POP, ret I_POP),
    (OP_DUP, ret I_DUP),
    (OP_CVT_I2F, ret I_CVT_I2F),
    (OP_CVT_F2I, ret I_CVT_F2I),
    (OP_PUSHREF_G, get16 (\<lambda>a. get8 (\<lambda>b. ret (I_PUSHREF Global a b)))),
    (OP_PUSHREF_L, get16 (\<lambda>a. get8 (\<lambda>b. ret (I_PUSHREF Local a b)))),
    (OP_PUSHREF_AELEM, get16 (\<lambda>a. get8 (\<lambda>b. get8 (\<lambda>c. ret (I_PUSHREF_AELEM a b c))))),
    (OP_DIM_LOCAL_ARR_I, get16 (\<lambda>a. get8 (\<lambda>b. ret (I_DIM_ARR Local TI a b)))),
    (OP_DIM_LOCAL_ARR_F, get16 (\<lambda>a. get8 (\<lambda>b. ret (I_DIM_ARR Local TF a b)))),
    (OP_DIM_LOCAL_ARR_S, get16 (\<lambda>a. get8 (\<lambda>b. ret (I_DIM_ARR Local TS a b)))),
    (OP_ADD_I, ret (I_BIN_I ADD)),
    (OP_SUB_I, ret (I_BIN_I SUB)),
    (OP_MUL_I, ret (I_BIN_I MUL)),
    (OP_IDIV_I, ret (I_BIN_I IDIV)),
    (OP_MOD_I, ret (I_BIN_I MOD)),
    (OP_AND, ret (I_BIN_I BAND)),
    (OP_OR, ret (I_BIN_I BOR)),
    (OP_XOR, ret (I_BIN_I BXOR)),
    (OP_SHL, ret (I_BIN_I SHL)),
    (OP_SHR, ret (I_BIN_I SHR)),
    (OP_ADD_F, ret (I_BIN_F FADD)),
    (OP_SUB_F, ret (I_BIN_F FSUB)),
    (OP_MUL_F, ret (I_BIN_F FMUL)),
    (OP_DIV_F, ret (I_BIN_F FDIV)),
    (OP_POW_F, ret (I_BIN_F FPOW)),
    (OP_MOD_F, ret (I_BIN_F FMOD)),
    (OP_ADD_S, ret I_ADD_S),
    (OP_NEG_I, ret I_NEG_I),
    (OP_NEG_F, ret I_NEG_F),
    (OP_NOT, ret I_NOT),
    (OP_INV, ret I_INV),
    (OP_EQ_I, ret (I_CMP TI EQ)),
    (OP_NE_I, ret (I_CMP TI NE)),
    (OP_LT_I, ret (I_CMP TI LT)),
    (OP_GT_I, ret (I_CMP TI GT)),
    (OP_LE_I, ret (I_CMP TI LE)),
    (OP_GE_I, ret (I_CMP TI GE)),
    (OP_EQ_F, ret (I_CMP TF EQ)),
    (OP_NE_F, ret (I_CMP TF NE)),
    (OP_LT_F, ret (I_CMP TF LT)),
    (OP_GT_F, ret (I_CMP TF GT)),
    (OP_LE_F, ret (I_CMP TF LE)),
    (OP_GE_F, ret (I_CMP TF GE)),
    (OP_EQ_S, ret (I_CMP TS EQ)),
    (OP_NE_S, ret (I_CMP TS NE)),
    (OP_LT_S, ret (I_CMP TS LT)),
    (OP_GT_S, ret (I_CMP TS GT)),
    (OP_LE_S, ret (I_CMP TS LE)),
    (OP_GE_S, ret (I_CMP TS GE)),
    (OP_JMP, get16 (\<lambda>a. ret (I_JMP a))),
    (OP_JMP_ABS, get32 (\<lambda>a. ret (I_JMP_ABS a))),
    (OP_JZ, get16 (\<lambda>a. ret (I_JZ a))),
    (OP_JNZ, get16 (\<lambda>a. ret (I_JNZ a))),
    (OP_JCMP_I, get8 (\<lambda>a. get16 (\<lambda>b. ret (I_JCMP_I a b)))),
    (OP_JCMP_F, get8 (\<lambda>a. get16 (\<lambda>b. ret (I_JCMP_F a b)))),
    (OP_MOV_VAR, get8 (\<lambda>a. get16 (\<lambda>b. get16 (\<lambda>c. ret (I_MOV_VAR a b c))))),
    (OP_GOSUB, get32 (\<lambda>a. ret (I_GOSUB a))),
    (OP_RETURN, ret I_RETURN),
    (OP_FOR_INIT_I, get16 (\<lambda>a. get16 (\<lambda>b. get16 (\<lambda>c. get16 (\<lambda>d. ret (I_FOR_INIT TI a b c d)))))),
    (OP_FOR_INIT_F, get16 (\<lambda>a. get16 (\<lambda>b. get16 (\<lambda>c. get16 (\<lambda>d. ret (I_FOR_INIT TF a b c d)))))),
    (OP_FOR_NEXT_I, get16 (\<lambda>a. get16 (\<lambda>b. get16 (\<lambda>c. get16 (\<lambda>d. ret (I_FOR_NEXT TI a b c d)))))),
    (OP_FOR_NEXT_F, get16 (\<lambda>a. get16 (\<lambda>b. get16 (\<lambda>c. get16 (\<lambda>d. ret (I_FOR_NEXT TF a b c d)))))),
    (OP_CALL_SUB, get16 (\<lambda>a. get8 (\<lambda>b. ret (I_CALL_SUB a b)))),
    (OP_CALL_FUN, get16 (\<lambda>a. get8 (\<lambda>b. ret (I_CALL_FUN a b)))),
    (OP_RET_SUB, ret I_RET_SUB),
    (OP_RET_FUN, ret I_RET_FUN),
    (OP_ENTER_FRAME, get16 (\<lambda>a. ret (I_ENTER_FRAME a))),
    (OP_LEAVE_FRAME, ret I_LEAVE_FRAME),
    (OP_LOAD_LOCAL_I, get16 (\<lambda>a. ret (I_LOAD Local TI a))),
    (OP_LOAD_LOCAL_F, get16 (\<lambda>a. ret (I_LOAD Local TF a))),
    (OP_LOAD_LOCAL_S, get16 (\<lambda>a. ret (I_LOAD Local TS a))),
    (OP_STORE_LOCAL_I, get16 (\<lambda>a. ret (I_STORE Local TI a))),
    (OP_STORE_LOCAL_F, get16 (\<lambda>a. ret (I_STORE Local TF a))),
    (OP_STORE_LOCAL_S, get16 (\<lambda>a. ret (I_STORE Local TS a))),
    (OP_LOAD_LOCAL_ARR_I, get16 (\<lambda>a. get8 (\<lambda>b. ret (I_LOAD_ARR Local TI a b)))),
    (OP_LOAD_LOCAL_ARR_F, get16 (\<lambda>a. get8 (\<lambda>b. ret (I_LOAD_ARR Local TF a b)))),
    (OP_LOAD_LOCAL_ARR_S, get16 (\<lambda>a. get8 (\<lambda>b. ret (I_LOAD_ARR Local TS a b)))),
    (OP_STORE_LOCAL_ARR_I, get16 (\<lambda>a. get8 (\<lambda>b. ret (I_STORE_ARR Local TI a b)))),
    (OP_STORE_LOCAL_ARR_F, get16 (\<lambda>a. get8 (\<lambda>b. ret (I_STORE_ARR Local TF a b)))),
    (OP_STORE_LOCAL_ARR_S, get16 (\<lambda>a. get8 (\<lambda>b. ret (I_STORE_ARR Local TS a b)))),
    (OP_PRINT_INT, get8 (\<lambda>a. ret (I_PRINT_INT a))),
    (OP_PRINT_STR, get8 (\<lambda>a. ret (I_PRINT_STR a))),
    (OP_PRINT_NEWLINE, ret I_PRINT_NEWLINE),
    (OP_PRINT_TAB, ret I_PRINT_TAB),
    (OP_DIM_ARR_I, get16 (\<lambda>a. get8 (\<lambda>b. ret (I_DIM_ARR Global TI a b)))),
    (OP_DIM_ARR_F, get16 (\<lambda>a. get8 (\<lambda>b. ret (I_DIM_ARR Global TF a b)))),
    (OP_DIM_ARR_S, get16 (\<lambda>a. get8 (\<lambda>b. ret (I_DIM_ARR Global TS a b)))),
    (OP_LOAD_STRUCT_FIELD_I, get16 (\<lambda>a. get16 (\<lambda>b. ret (I_LOAD_FIELD TI a b)))),
    (OP_LOAD_STRUCT_FIELD_F, get16 (\<lambda>a. get16 (\<lambda>b. ret (I_LOAD_FIELD TF a b)))),
    (OP_LOAD_STRUCT_FIELD_S, get16 (\<lambda>a. get16 (\<lambda>b. ret (I_LOAD_FIELD TS a b)))),
    (OP_STORE_STRUCT_FIELD_I, get16 (\<lambda>a. get16 (\<lambda>b. ret (I_STORE_FIELD_I a b)))),
    (OP_STORE_STRUCT_FIELD_F, get16 (\<lambda>a. get16 (\<lambda>b. ret (I_STORE_FIELD_F a b)))),
    (OP_STORE_STRUCT_FIELD_S, get16 (\<lambda>a. get16 (\<lambda>b. get16 (\<lambda>c. ret (I_STORE_FIELD_S a b c))))),
    (OP_STR_LEN, ret (I_STR LEN)),
    (OP_STR_LEFT, ret (I_STR LEFT)),
    (OP_STR_RIGHT, ret (I_STR RIGHT)),
    (OP_STR_MID2, ret (I_STR MID2)),
    (OP_STR_MID3, ret (I_STR MID3)),
    (OP_STR_UCASE, ret (I_STR UCASE)),
    (OP_STR_LCASE, ret (I_STR LCASE)),
    (OP_STR_STR, ret (I_STR STRD)),
    (OP_STR_CHR, ret (I_STR CHRD)),
    (OP_STR_ASC, ret (I_STR ASC)),
    (OP_STR_HEX, ret (I_STR HEX)),
    (OP_STR_OCT, ret (I_STR OCT)),
    (OP_STR_BIN, ret (I_STR BIN)),
    (OP_STR_SPACE, ret (I_STR SPACE)),
    (OP_STR_STRING, ret (I_STR STRINGD)),
    (OP_STR_FIELD3, ret (I_STR FIELD3)),
    (OP_STR_INSTR, get8 (\<lambda>a. ret (I_STR_INSTR a))),
    (OP_MATH_SIN, ret (I_MATH SIN)),
    (OP_MATH_COS, ret (I_MATH COS)),
    (OP_MATH_TAN, ret (I_MATH TAN)),
    (OP_MATH_ATN, ret (I_MATH ATN)),
    (OP_MATH_SQR, ret (I_MATH SQR)),
    (OP_MATH_LOG, ret (I_MATH LOG)),
    (OP_MATH_EXP, ret (I_MATH EXP)),
    (OP_MATH_ABS, ret (I_MATH ABS)),
    (OP_MATH_SGN, ret (I_MATH SGN)),
    (OP_MATH_FIX, ret (I_MATH FIX)),
    (OP_MATH_CINT, ret (I_MATH CINT)),
    (OP_MATH_RAD, ret (I_MATH RAD)),
    (OP_MATH_DEG, ret (I_MATH DEG)),
    (OP_MATH_ASIN, ret (I_MATH ASIN)),
    (OP_MATH_ACOS, ret (I_MATH ACOS)),
    (OP_MATH_ATAN2, ret (I_MATH ATAN2)),
    (OP_MATH_MULSHR, ret (I_MATH MULSHR)),
    (OP_MATH_MULDIV, ret (I_MATH MULDIV)),
    (OP_MATH_SQRSHR, ret (I_MATH SQRSHR)),
    (OP_MATH_SQRDIV, ret (I_MATH SQRDIV)),
    (OP_MATH_MULSHRADD, ret (I_MATH MULSHRADD)),
    (OP_MATH_INT, ret (I_MATH INTF)),
    (OP_MATH_PI, ret (I_MATH PIC)),
    (OP_MATH_MAX, ret (I_MATH MAXF)),
    (OP_MATH_MIN, ret (I_MATH MINF)),
    (OP_INC_I, get16 (\<lambda>a. ret (I_INC_I a))),
    (OP_INC_F, get16 (\<lambda>a. ret (I_INC_F a))),
    (OP_READ_I, ret (I_READ TI)),
    (OP_READ_F, ret (I_READ TF)),
    (OP_READ_S, ret (I_READ TS)),
    (OP_RESTORE, ret I_RESTORE),
    (OP_RESTORE_DATA, get16 (\<lambda>a. ret (I_RESTORE_DATA a))),
    (OP_ERROR_S, ret I_ERROR_S),
    (OP_ERROR_EMPTY, ret I_ERROR_EMPTY),
    (OP_LINE, get16 (\<lambda>a. ret (I_LINE a))),
    (OP_CHECKINT, ret I_CHECKINT),
    (OP_END, ret I_END),
    (OP_HALT, ret I_HALT)]"

text \<open>
  \<open>Trunc\<close>: the instruction runs past the end of the bytes. \<open>Other\<close>: an opcode of a device command
  or a byte that is no opcode.
\<close>

primrec find_op :: "u8 \<Rightarrow> (u8 \<times> 'a) list \<Rightarrow> 'a option" where
  "find_op c [] = None"
| "find_op c (e # t) = (if unat c = unat (fst e) then Some (snd e) else find_op c t)"

datatype decoded = Instr instr "u8 list" | Trunc | Other u8

definition decode :: "u8 list \<Rightarrow> decoded" where
  "decode bs = (case bs of [] \<Rightarrow> Trunc
     | b # r \<Rightarrow> (case find_op b decode_table of None \<Rightarrow> Other b
         | Some p \<Rightarrow> (case p r of None \<Rightarrow> Trunc | Some (i, r') \<Rightarrow> Instr i r')))"

section \<open>Encoding\<close>

definition e16 :: "u16 \<Rightarrow> u8 list" where "e16 w = le_enc 2 (unat w)"
definition e32 :: "u32 \<Rightarrow> u8 list" where "e32 w = le_enc 4 (unat w)"
definition e64 :: "u64 \<Rightarrow> u8 list" where "e64 w = le_enc 8 (unat w)"

definition code_LOAD :: "scope \<Rightarrow> vty \<Rightarrow> u8" where
  "code_LOAD x y = (case x of Global \<Rightarrow> (case y of TI \<Rightarrow> OP_LOAD_I | TF \<Rightarrow> OP_LOAD_F | TS \<Rightarrow> OP_LOAD_S)
     | Local \<Rightarrow> (case y of TI \<Rightarrow> OP_LOAD_LOCAL_I | TF \<Rightarrow> OP_LOAD_LOCAL_F | TS \<Rightarrow> OP_LOAD_LOCAL_S))"

definition code_STORE :: "scope \<Rightarrow> vty \<Rightarrow> u8" where
  "code_STORE x y = (case x of Global \<Rightarrow> (case y of TI \<Rightarrow> OP_STORE_I | TF \<Rightarrow> OP_STORE_F | TS \<Rightarrow> OP_STORE_S)
     | Local \<Rightarrow> (case y of TI \<Rightarrow> OP_STORE_LOCAL_I | TF \<Rightarrow> OP_STORE_LOCAL_F | TS \<Rightarrow> OP_STORE_LOCAL_S))"

definition code_LOAD_ARR :: "scope \<Rightarrow> vty \<Rightarrow> u8" where
  "code_LOAD_ARR x y = (case x of Global \<Rightarrow> (case y of TI \<Rightarrow> OP_LOAD_ARR_I | TF \<Rightarrow> OP_LOAD_ARR_F | TS \<Rightarrow> OP_LOAD_ARR_S)
     | Local \<Rightarrow> (case y of TI \<Rightarrow> OP_LOAD_LOCAL_ARR_I | TF \<Rightarrow> OP_LOAD_LOCAL_ARR_F | TS \<Rightarrow> OP_LOAD_LOCAL_ARR_S))"

definition code_STORE_ARR :: "scope \<Rightarrow> vty \<Rightarrow> u8" where
  "code_STORE_ARR x y = (case x of Global \<Rightarrow> (case y of TI \<Rightarrow> OP_STORE_ARR_I | TF \<Rightarrow> OP_STORE_ARR_F | TS \<Rightarrow> OP_STORE_ARR_S)
     | Local \<Rightarrow> (case y of TI \<Rightarrow> OP_STORE_LOCAL_ARR_I | TF \<Rightarrow> OP_STORE_LOCAL_ARR_F | TS \<Rightarrow> OP_STORE_LOCAL_ARR_S))"

definition code_PUSHREF :: "scope \<Rightarrow> u8" where
  "code_PUSHREF x = (case x of Global \<Rightarrow> OP_PUSHREF_G
     | Local \<Rightarrow> OP_PUSHREF_L)"

definition code_DIM_ARR :: "scope \<Rightarrow> vty \<Rightarrow> u8" where
  "code_DIM_ARR x y = (case x of Local \<Rightarrow> (case y of TI \<Rightarrow> OP_DIM_LOCAL_ARR_I | TF \<Rightarrow> OP_DIM_LOCAL_ARR_F | TS \<Rightarrow> OP_DIM_LOCAL_ARR_S)
     | Global \<Rightarrow> (case y of TI \<Rightarrow> OP_DIM_ARR_I | TF \<Rightarrow> OP_DIM_ARR_F | TS \<Rightarrow> OP_DIM_ARR_S))"

definition code_BIN_I :: "ibin \<Rightarrow> u8" where
  "code_BIN_I x = (case x of ADD \<Rightarrow> OP_ADD_I
     | SUB \<Rightarrow> OP_SUB_I
     | MUL \<Rightarrow> OP_MUL_I
     | IDIV \<Rightarrow> OP_IDIV_I
     | MOD \<Rightarrow> OP_MOD_I
     | BAND \<Rightarrow> OP_AND
     | BOR \<Rightarrow> OP_OR
     | BXOR \<Rightarrow> OP_XOR
     | SHL \<Rightarrow> OP_SHL
     | SHR \<Rightarrow> OP_SHR)"

definition code_BIN_F :: "fbin \<Rightarrow> u8" where
  "code_BIN_F x = (case x of FADD \<Rightarrow> OP_ADD_F
     | FSUB \<Rightarrow> OP_SUB_F
     | FMUL \<Rightarrow> OP_MUL_F
     | FDIV \<Rightarrow> OP_DIV_F
     | FPOW \<Rightarrow> OP_POW_F
     | FMOD \<Rightarrow> OP_MOD_F)"

definition code_CMP :: "vty \<Rightarrow> rel \<Rightarrow> u8" where
  "code_CMP x y = (case x of TI \<Rightarrow> (case y of EQ \<Rightarrow> OP_EQ_I | NE \<Rightarrow> OP_NE_I | LT \<Rightarrow> OP_LT_I | GT \<Rightarrow> OP_GT_I | LE \<Rightarrow> OP_LE_I | GE \<Rightarrow> OP_GE_I)
     | TF \<Rightarrow> (case y of EQ \<Rightarrow> OP_EQ_F | NE \<Rightarrow> OP_NE_F | LT \<Rightarrow> OP_LT_F | GT \<Rightarrow> OP_GT_F | LE \<Rightarrow> OP_LE_F | GE \<Rightarrow> OP_GE_F)
     | TS \<Rightarrow> (case y of EQ \<Rightarrow> OP_EQ_S | NE \<Rightarrow> OP_NE_S | LT \<Rightarrow> OP_LT_S | GT \<Rightarrow> OP_GT_S | LE \<Rightarrow> OP_LE_S | GE \<Rightarrow> OP_GE_S))"

definition code_FOR_INIT :: "vty \<Rightarrow> u8" where
  "code_FOR_INIT x = (case x of TI \<Rightarrow> OP_FOR_INIT_I
     | TF \<Rightarrow> OP_FOR_INIT_F
     | _ \<Rightarrow> OP_NOP)"

definition code_FOR_NEXT :: "vty \<Rightarrow> u8" where
  "code_FOR_NEXT x = (case x of TI \<Rightarrow> OP_FOR_NEXT_I
     | TF \<Rightarrow> OP_FOR_NEXT_F
     | _ \<Rightarrow> OP_NOP)"

definition code_LOAD_FIELD :: "vty \<Rightarrow> u8" where
  "code_LOAD_FIELD x = (case x of TI \<Rightarrow> OP_LOAD_STRUCT_FIELD_I
     | TF \<Rightarrow> OP_LOAD_STRUCT_FIELD_F
     | TS \<Rightarrow> OP_LOAD_STRUCT_FIELD_S)"

definition code_STR :: "sfun \<Rightarrow> u8" where
  "code_STR x = (case x of LEN \<Rightarrow> OP_STR_LEN
     | LEFT \<Rightarrow> OP_STR_LEFT
     | RIGHT \<Rightarrow> OP_STR_RIGHT
     | MID2 \<Rightarrow> OP_STR_MID2
     | MID3 \<Rightarrow> OP_STR_MID3
     | UCASE \<Rightarrow> OP_STR_UCASE
     | LCASE \<Rightarrow> OP_STR_LCASE
     | STRD \<Rightarrow> OP_STR_STR
     | CHRD \<Rightarrow> OP_STR_CHR
     | ASC \<Rightarrow> OP_STR_ASC
     | HEX \<Rightarrow> OP_STR_HEX
     | OCT \<Rightarrow> OP_STR_OCT
     | BIN \<Rightarrow> OP_STR_BIN
     | SPACE \<Rightarrow> OP_STR_SPACE
     | STRINGD \<Rightarrow> OP_STR_STRING
     | FIELD3 \<Rightarrow> OP_STR_FIELD3)"

definition code_MATH :: "mfun \<Rightarrow> u8" where
  "code_MATH x = (case x of SIN \<Rightarrow> OP_MATH_SIN
     | COS \<Rightarrow> OP_MATH_COS
     | TAN \<Rightarrow> OP_MATH_TAN
     | ATN \<Rightarrow> OP_MATH_ATN
     | SQR \<Rightarrow> OP_MATH_SQR
     | LOG \<Rightarrow> OP_MATH_LOG
     | EXP \<Rightarrow> OP_MATH_EXP
     | ABS \<Rightarrow> OP_MATH_ABS
     | SGN \<Rightarrow> OP_MATH_SGN
     | FIX \<Rightarrow> OP_MATH_FIX
     | CINT \<Rightarrow> OP_MATH_CINT
     | RAD \<Rightarrow> OP_MATH_RAD
     | DEG \<Rightarrow> OP_MATH_DEG
     | ASIN \<Rightarrow> OP_MATH_ASIN
     | ACOS \<Rightarrow> OP_MATH_ACOS
     | ATAN2 \<Rightarrow> OP_MATH_ATAN2
     | MULSHR \<Rightarrow> OP_MATH_MULSHR
     | MULDIV \<Rightarrow> OP_MATH_MULDIV
     | SQRSHR \<Rightarrow> OP_MATH_SQRSHR
     | SQRDIV \<Rightarrow> OP_MATH_SQRDIV
     | MULSHRADD \<Rightarrow> OP_MATH_MULSHRADD
     | INTF \<Rightarrow> OP_MATH_INT
     | PIC \<Rightarrow> OP_MATH_PI
     | MAXF \<Rightarrow> OP_MATH_MAX
     | MINF \<Rightarrow> OP_MATH_MIN)"

definition code_READ :: "vty \<Rightarrow> u8" where
  "code_READ x = (case x of TI \<Rightarrow> OP_READ_I
     | TF \<Rightarrow> OP_READ_F
     | TS \<Rightarrow> OP_READ_S)"

primrec encode :: "instr \<Rightarrow> u8 list" where
  "encode I_NOP = [OP_NOP]"
| "encode (I_PUSH_INT a) = [OP_PUSH_INT] @ e64 a"
| "encode (I_PUSH_FLT a) = [OP_PUSH_FLT] @ e64 a"
| "encode (I_PUSH_STR a) = [OP_PUSH_STR] @ e16 a"
| "encode I_PUSH_ZERO = [OP_PUSH_ZERO]"
| "encode I_PUSH_ONE = [OP_PUSH_ONE]"
| "encode (I_LOAD s t a) = [code_LOAD s t] @ e16 a"
| "encode (I_STORE s t a) = [code_STORE s t] @ e16 a"
| "encode (I_LOAD_ARR s t a b) = [code_LOAD_ARR s t] @ e16 a @ [b]"
| "encode (I_STORE_ARR s t a b) = [code_STORE_ARR s t] @ e16 a @ [b]"
| "encode I_POP = [OP_POP]"
| "encode I_DUP = [OP_DUP]"
| "encode I_CVT_I2F = [OP_CVT_I2F]"
| "encode I_CVT_F2I = [OP_CVT_F2I]"
| "encode (I_PUSHREF s a b) = [code_PUSHREF s] @ e16 a @ [b]"
| "encode (I_PUSHREF_AELEM a b c) = [OP_PUSHREF_AELEM] @ e16 a @ [b, c]"
| "encode (I_DIM_ARR s t a b) = [code_DIM_ARR s t] @ e16 a @ [b]"
| "encode (I_BIN_I s) = [code_BIN_I s]"
| "encode (I_BIN_F s) = [code_BIN_F s]"
| "encode I_ADD_S = [OP_ADD_S]"
| "encode I_NEG_I = [OP_NEG_I]"
| "encode I_NEG_F = [OP_NEG_F]"
| "encode I_NOT = [OP_NOT]"
| "encode I_INV = [OP_INV]"
| "encode (I_CMP s t) = [code_CMP s t]"
| "encode (I_JMP a) = [OP_JMP] @ e16 a"
| "encode (I_JMP_ABS a) = [OP_JMP_ABS] @ e32 a"
| "encode (I_JZ a) = [OP_JZ] @ e16 a"
| "encode (I_JNZ a) = [OP_JNZ] @ e16 a"
| "encode (I_JCMP_I a b) = [OP_JCMP_I] @ [a] @ e16 b"
| "encode (I_JCMP_F a b) = [OP_JCMP_F] @ [a] @ e16 b"
| "encode (I_MOV_VAR a b c) = [OP_MOV_VAR] @ [a] @ e16 b @ e16 c"
| "encode (I_GOSUB a) = [OP_GOSUB] @ e32 a"
| "encode I_RETURN = [OP_RETURN]"
| "encode (I_FOR_INIT s a b c d) = [code_FOR_INIT s] @ e16 a @ e16 b @ e16 c @ e16 d"
| "encode (I_FOR_NEXT s a b c d) = [code_FOR_NEXT s] @ e16 a @ e16 b @ e16 c @ e16 d"
| "encode (I_CALL_SUB a b) = [OP_CALL_SUB] @ e16 a @ [b]"
| "encode (I_CALL_FUN a b) = [OP_CALL_FUN] @ e16 a @ [b]"
| "encode I_RET_SUB = [OP_RET_SUB]"
| "encode I_RET_FUN = [OP_RET_FUN]"
| "encode (I_ENTER_FRAME a) = [OP_ENTER_FRAME] @ e16 a"
| "encode I_LEAVE_FRAME = [OP_LEAVE_FRAME]"
| "encode (I_PRINT_INT a) = [OP_PRINT_INT] @ [a]"
| "encode (I_PRINT_STR a) = [OP_PRINT_STR] @ [a]"
| "encode I_PRINT_NEWLINE = [OP_PRINT_NEWLINE]"
| "encode I_PRINT_TAB = [OP_PRINT_TAB]"
| "encode (I_LOAD_FIELD s a b) = [code_LOAD_FIELD s] @ e16 a @ e16 b"
| "encode (I_STORE_FIELD_I a b) = [OP_STORE_STRUCT_FIELD_I] @ e16 a @ e16 b"
| "encode (I_STORE_FIELD_F a b) = [OP_STORE_STRUCT_FIELD_F] @ e16 a @ e16 b"
| "encode (I_STORE_FIELD_S a b c) = [OP_STORE_STRUCT_FIELD_S] @ e16 a @ e16 b @ e16 c"
| "encode (I_STR s) = [code_STR s]"
| "encode (I_STR_INSTR a) = [OP_STR_INSTR] @ [a]"
| "encode (I_MATH s) = [code_MATH s]"
| "encode (I_INC_I a) = [OP_INC_I] @ e16 a"
| "encode (I_INC_F a) = [OP_INC_F] @ e16 a"
| "encode (I_READ s) = [code_READ s]"
| "encode I_RESTORE = [OP_RESTORE]"
| "encode (I_RESTORE_DATA a) = [OP_RESTORE_DATA] @ e16 a"
| "encode I_ERROR_S = [OP_ERROR_S]"
| "encode I_ERROR_EMPTY = [OP_ERROR_EMPTY]"
| "encode (I_LINE a) = [OP_LINE] @ e16 a"
| "encode I_CHECKINT = [OP_CHECKINT]"
| "encode I_END = [OP_END]"
| "encode I_HALT = [OP_HALT]"

lemmas code_defs = code_BIN_F_def code_BIN_I_def code_CMP_def code_DIM_ARR_def code_FOR_INIT_def code_FOR_NEXT_def code_LOAD_ARR_def code_LOAD_FIELD_def code_LOAD_def code_MATH_def code_PUSHREF_def code_READ_def code_STORE_ARR_def code_STORE_def code_STR_def

lemma get8_simp [simp]: "get8 k (b # r) = k b r"
  by (simp add: get8_def)

lemma get16_e16 [simp]: "get16 k (e16 w @ r) = k w r"
  by (simp add: get16_def e16_def of_nat_le_dec_enc_unat)

lemma get32_e32 [simp]: "get32 k (e32 w @ r) = k w r"
  by (simp add: get32_def e32_def of_nat_le_dec_enc_unat)

lemma get64_e64 [simp]: "get64 k (e64 w @ r) = k w r"
  by (simp add: get64_def e64_def of_nat_le_dec_enc_unat)

text \<open>The instructions the compiler can emit: a \<open>FOR\<close> variable is never a string.\<close>

definition for_ok :: "instr \<Rightarrow> bool" where
  "for_ok i \<longleftrightarrow> (case i of I_FOR_INIT t a b c d \<Rightarrow> t \<noteq> TS | I_FOR_NEXT t a b c d \<Rightarrow> t \<noteq> TS | _ \<Rightarrow> True)"

lemma decode_simp [simp]: "decode (b # r) = (case find_op b decode_table of None \<Rightarrow> Other b
    | Some p \<Rightarrow> (case p r of None \<Rightarrow> Trunc | Some (i, r') \<Rightarrow> Instr i r'))"
  by (simp add: decode_def)

lemma op_nats:
  "unat OP_NOP = 0"
  "unat OP_PUSH_INT = 1"
  "unat OP_PUSH_FLT = 2"
  "unat OP_PUSH_STR = 3"
  "unat OP_PUSH_ZERO = 4"
  "unat OP_PUSH_ONE = 5"
  "unat OP_LOAD_I = 6"
  "unat OP_LOAD_F = 7"
  "unat OP_LOAD_S = 8"
  "unat OP_STORE_I = 9"
  "unat OP_STORE_F = 10"
  "unat OP_STORE_S = 11"
  "unat OP_LOAD_ARR_I = 12"
  "unat OP_LOAD_ARR_F = 13"
  "unat OP_LOAD_ARR_S = 14"
  "unat OP_STORE_ARR_I = 15"
  "unat OP_STORE_ARR_F = 16"
  "unat OP_STORE_ARR_S = 17"
  "unat OP_POP = 18"
  "unat OP_DUP = 19"
  "unat OP_CVT_I2F = 20"
  "unat OP_CVT_F2I = 21"
  "unat OP_PUSHREF_G = 27"
  "unat OP_PUSHREF_L = 28"
  "unat OP_PUSHREF_AELEM = 29"
  "unat OP_DIM_LOCAL_ARR_I = 37"
  "unat OP_DIM_LOCAL_ARR_F = 38"
  "unat OP_DIM_LOCAL_ARR_S = 39"
  "unat OP_ADD_I = 32"
  "unat OP_SUB_I = 33"
  "unat OP_MUL_I = 34"
  "unat OP_IDIV_I = 35"
  "unat OP_MOD_I = 36"
  "unat OP_AND = 64"
  "unat OP_OR = 65"
  "unat OP_XOR = 66"
  "unat OP_SHL = 67"
  "unat OP_SHR = 68"
  "unat OP_ADD_F = 40"
  "unat OP_SUB_F = 41"
  "unat OP_MUL_F = 42"
  "unat OP_DIV_F = 43"
  "unat OP_POW_F = 44"
  "unat OP_MOD_F = 45"
  "unat OP_ADD_S = 48"
  "unat OP_NEG_I = 56"
  "unat OP_NEG_F = 57"
  "unat OP_NOT = 58"
  "unat OP_INV = 59"
  "unat OP_EQ_I = 72"
  "unat OP_NE_I = 73"
  "unat OP_LT_I = 74"
  "unat OP_GT_I = 75"
  "unat OP_LE_I = 76"
  "unat OP_GE_I = 77"
  "unat OP_EQ_F = 80"
  "unat OP_NE_F = 81"
  "unat OP_LT_F = 82"
  "unat OP_GT_F = 83"
  "unat OP_LE_F = 84"
  "unat OP_GE_F = 85"
  "unat OP_EQ_S = 88"
  "unat OP_NE_S = 89"
  "unat OP_LT_S = 90"
  "unat OP_GT_S = 91"
  "unat OP_LE_S = 92"
  "unat OP_GE_S = 93"
  "unat OP_JMP = 96"
  "unat OP_JMP_ABS = 97"
  "unat OP_JZ = 98"
  "unat OP_JNZ = 99"
  "unat OP_JCMP_I = 251"
  "unat OP_JCMP_F = 252"
  "unat OP_MOV_VAR = 253"
  "unat OP_GOSUB = 100"
  "unat OP_RETURN = 101"
  "unat OP_FOR_INIT_I = 102"
  "unat OP_FOR_INIT_F = 104"
  "unat OP_FOR_NEXT_I = 103"
  "unat OP_FOR_NEXT_F = 105"
  "unat OP_CALL_SUB = 112"
  "unat OP_CALL_FUN = 113"
  "unat OP_RET_SUB = 114"
  "unat OP_RET_FUN = 115"
  "unat OP_ENTER_FRAME = 116"
  "unat OP_LEAVE_FRAME = 117"
  "unat OP_LOAD_LOCAL_I = 118"
  "unat OP_LOAD_LOCAL_F = 119"
  "unat OP_LOAD_LOCAL_S = 120"
  "unat OP_STORE_LOCAL_I = 121"
  "unat OP_STORE_LOCAL_F = 122"
  "unat OP_STORE_LOCAL_S = 123"
  "unat OP_LOAD_LOCAL_ARR_I = 124"
  "unat OP_LOAD_LOCAL_ARR_F = 125"
  "unat OP_LOAD_LOCAL_ARR_S = 126"
  "unat OP_STORE_LOCAL_ARR_I = 127"
  "unat OP_STORE_LOCAL_ARR_F = 132"
  "unat OP_STORE_LOCAL_ARR_S = 133"
  "unat OP_PRINT_INT = 136"
  "unat OP_PRINT_STR = 138"
  "unat OP_PRINT_NEWLINE = 139"
  "unat OP_PRINT_TAB = 140"
  "unat OP_DIM_ARR_I = 144"
  "unat OP_DIM_ARR_F = 145"
  "unat OP_DIM_ARR_S = 146"
  "unat OP_LOAD_STRUCT_FIELD_I = 147"
  "unat OP_LOAD_STRUCT_FIELD_F = 148"
  "unat OP_LOAD_STRUCT_FIELD_S = 149"
  "unat OP_STORE_STRUCT_FIELD_I = 150"
  "unat OP_STORE_STRUCT_FIELD_F = 151"
  "unat OP_STORE_STRUCT_FIELD_S = 152"
  "unat OP_STR_LEN = 160"
  "unat OP_STR_LEFT = 161"
  "unat OP_STR_RIGHT = 162"
  "unat OP_STR_MID2 = 163"
  "unat OP_STR_MID3 = 164"
  "unat OP_STR_UCASE = 165"
  "unat OP_STR_LCASE = 166"
  "unat OP_STR_STR = 168"
  "unat OP_STR_CHR = 169"
  "unat OP_STR_ASC = 170"
  "unat OP_STR_HEX = 172"
  "unat OP_STR_OCT = 173"
  "unat OP_STR_BIN = 174"
  "unat OP_STR_SPACE = 197"
  "unat OP_STR_STRING = 198"
  "unat OP_STR_FIELD3 = 225"
  "unat OP_STR_INSTR = 171"
  "unat OP_MATH_SIN = 176"
  "unat OP_MATH_COS = 177"
  "unat OP_MATH_TAN = 178"
  "unat OP_MATH_ATN = 179"
  "unat OP_MATH_SQR = 180"
  "unat OP_MATH_LOG = 181"
  "unat OP_MATH_EXP = 182"
  "unat OP_MATH_ABS = 183"
  "unat OP_MATH_SGN = 184"
  "unat OP_MATH_FIX = 186"
  "unat OP_MATH_CINT = 187"
  "unat OP_MATH_RAD = 188"
  "unat OP_MATH_DEG = 189"
  "unat OP_MATH_ASIN = 219"
  "unat OP_MATH_ACOS = 220"
  "unat OP_MATH_ATAN2 = 221"
  "unat OP_MATH_MULSHR = 238"
  "unat OP_MATH_MULDIV = 231"
  "unat OP_MATH_SQRSHR = 249"
  "unat OP_MATH_SQRDIV = 232"
  "unat OP_MATH_MULSHRADD = 250"
  "unat OP_MATH_INT = 185"
  "unat OP_MATH_PI = 190"
  "unat OP_MATH_MAX = 191"
  "unat OP_MATH_MIN = 192"
  "unat OP_INC_I = 201"
  "unat OP_INC_F = 202"
  "unat OP_READ_I = 193"
  "unat OP_READ_F = 194"
  "unat OP_READ_S = 195"
  "unat OP_RESTORE = 196"
  "unat OP_RESTORE_DATA = 135"
  "unat OP_ERROR_S = 204"
  "unat OP_ERROR_EMPTY = 205"
  "unat OP_LINE = 240"
  "unat OP_CHECKINT = 241"
  "unat OP_END = 254"
  "unat OP_HALT = 255"
  by (simp_all add: opcodes)

lemma decode_lookup1:
  "find_op OP_NOP decode_table = Some (ret I_NOP)"
  "find_op OP_PUSH_INT decode_table = Some (get64 (\<lambda>a. ret (I_PUSH_INT a)))"
  "find_op OP_PUSH_FLT decode_table = Some (get64 (\<lambda>a. ret (I_PUSH_FLT a)))"
  "find_op OP_PUSH_STR decode_table = Some (get16 (\<lambda>a. ret (I_PUSH_STR a)))"
  "find_op OP_PUSH_ZERO decode_table = Some (ret I_PUSH_ZERO)"
  "find_op OP_PUSH_ONE decode_table = Some (ret I_PUSH_ONE)"
  "find_op OP_LOAD_I decode_table = Some (get16 (\<lambda>a. ret (I_LOAD Global TI a)))"
  "find_op OP_LOAD_F decode_table = Some (get16 (\<lambda>a. ret (I_LOAD Global TF a)))"
  "find_op OP_LOAD_S decode_table = Some (get16 (\<lambda>a. ret (I_LOAD Global TS a)))"
  "find_op OP_STORE_I decode_table = Some (get16 (\<lambda>a. ret (I_STORE Global TI a)))"
  "find_op OP_STORE_F decode_table = Some (get16 (\<lambda>a. ret (I_STORE Global TF a)))"
  "find_op OP_STORE_S decode_table = Some (get16 (\<lambda>a. ret (I_STORE Global TS a)))"
  "find_op OP_LOAD_ARR_I decode_table = Some (get16 (\<lambda>a. get8 (\<lambda>b. ret (I_LOAD_ARR Global TI a b))))"
  "find_op OP_LOAD_ARR_F decode_table = Some (get16 (\<lambda>a. get8 (\<lambda>b. ret (I_LOAD_ARR Global TF a b))))"
  "find_op OP_LOAD_ARR_S decode_table = Some (get16 (\<lambda>a. get8 (\<lambda>b. ret (I_LOAD_ARR Global TS a b))))"
  "find_op OP_STORE_ARR_I decode_table = Some (get16 (\<lambda>a. get8 (\<lambda>b. ret (I_STORE_ARR Global TI a b))))"
  "find_op OP_STORE_ARR_F decode_table = Some (get16 (\<lambda>a. get8 (\<lambda>b. ret (I_STORE_ARR Global TF a b))))"
  "find_op OP_STORE_ARR_S decode_table = Some (get16 (\<lambda>a. get8 (\<lambda>b. ret (I_STORE_ARR Global TS a b))))"
  "find_op OP_POP decode_table = Some (ret I_POP)"
  "find_op OP_DUP decode_table = Some (ret I_DUP)"
  "find_op OP_CVT_I2F decode_table = Some (ret I_CVT_I2F)"
  "find_op OP_CVT_F2I decode_table = Some (ret I_CVT_F2I)"
  "find_op OP_PUSHREF_G decode_table = Some (get16 (\<lambda>a. get8 (\<lambda>b. ret (I_PUSHREF Global a b))))"
  "find_op OP_PUSHREF_L decode_table = Some (get16 (\<lambda>a. get8 (\<lambda>b. ret (I_PUSHREF Local a b))))"
  "find_op OP_PUSHREF_AELEM decode_table = Some (get16 (\<lambda>a. get8 (\<lambda>b. get8 (\<lambda>c. ret (I_PUSHREF_AELEM a b c)))))"
  "find_op OP_DIM_LOCAL_ARR_I decode_table = Some (get16 (\<lambda>a. get8 (\<lambda>b. ret (I_DIM_ARR Local TI a b))))"
  "find_op OP_DIM_LOCAL_ARR_F decode_table = Some (get16 (\<lambda>a. get8 (\<lambda>b. ret (I_DIM_ARR Local TF a b))))"
  "find_op OP_DIM_LOCAL_ARR_S decode_table = Some (get16 (\<lambda>a. get8 (\<lambda>b. ret (I_DIM_ARR Local TS a b))))"
  "find_op OP_ADD_I decode_table = Some (ret (I_BIN_I ADD))"
  "find_op OP_SUB_I decode_table = Some (ret (I_BIN_I SUB))"
  "find_op OP_MUL_I decode_table = Some (ret (I_BIN_I MUL))"
  "find_op OP_IDIV_I decode_table = Some (ret (I_BIN_I IDIV))"
  "find_op OP_MOD_I decode_table = Some (ret (I_BIN_I MOD))"
  "find_op OP_AND decode_table = Some (ret (I_BIN_I BAND))"
  "find_op OP_OR decode_table = Some (ret (I_BIN_I BOR))"
  "find_op OP_XOR decode_table = Some (ret (I_BIN_I BXOR))"
  "find_op OP_SHL decode_table = Some (ret (I_BIN_I SHL))"
  "find_op OP_SHR decode_table = Some (ret (I_BIN_I SHR))"
  "find_op OP_ADD_F decode_table = Some (ret (I_BIN_F FADD))"
  "find_op OP_SUB_F decode_table = Some (ret (I_BIN_F FSUB))"
  "find_op OP_MUL_F decode_table = Some (ret (I_BIN_F FMUL))"
  "find_op OP_DIV_F decode_table = Some (ret (I_BIN_F FDIV))"
  by (simp_all add: decode_table_def op_nats)

lemma decode_lookup2:
  "find_op OP_POW_F decode_table = Some (ret (I_BIN_F FPOW))"
  "find_op OP_MOD_F decode_table = Some (ret (I_BIN_F FMOD))"
  "find_op OP_ADD_S decode_table = Some (ret I_ADD_S)"
  "find_op OP_NEG_I decode_table = Some (ret I_NEG_I)"
  "find_op OP_NEG_F decode_table = Some (ret I_NEG_F)"
  "find_op OP_NOT decode_table = Some (ret I_NOT)"
  "find_op OP_INV decode_table = Some (ret I_INV)"
  "find_op OP_EQ_I decode_table = Some (ret (I_CMP TI EQ))"
  "find_op OP_NE_I decode_table = Some (ret (I_CMP TI NE))"
  "find_op OP_LT_I decode_table = Some (ret (I_CMP TI LT))"
  "find_op OP_GT_I decode_table = Some (ret (I_CMP TI GT))"
  "find_op OP_LE_I decode_table = Some (ret (I_CMP TI LE))"
  "find_op OP_GE_I decode_table = Some (ret (I_CMP TI GE))"
  "find_op OP_EQ_F decode_table = Some (ret (I_CMP TF EQ))"
  "find_op OP_NE_F decode_table = Some (ret (I_CMP TF NE))"
  "find_op OP_LT_F decode_table = Some (ret (I_CMP TF LT))"
  "find_op OP_GT_F decode_table = Some (ret (I_CMP TF GT))"
  "find_op OP_LE_F decode_table = Some (ret (I_CMP TF LE))"
  "find_op OP_GE_F decode_table = Some (ret (I_CMP TF GE))"
  "find_op OP_EQ_S decode_table = Some (ret (I_CMP TS EQ))"
  "find_op OP_NE_S decode_table = Some (ret (I_CMP TS NE))"
  "find_op OP_LT_S decode_table = Some (ret (I_CMP TS LT))"
  "find_op OP_GT_S decode_table = Some (ret (I_CMP TS GT))"
  "find_op OP_LE_S decode_table = Some (ret (I_CMP TS LE))"
  "find_op OP_GE_S decode_table = Some (ret (I_CMP TS GE))"
  "find_op OP_JMP decode_table = Some (get16 (\<lambda>a. ret (I_JMP a)))"
  "find_op OP_JMP_ABS decode_table = Some (get32 (\<lambda>a. ret (I_JMP_ABS a)))"
  "find_op OP_JZ decode_table = Some (get16 (\<lambda>a. ret (I_JZ a)))"
  "find_op OP_JNZ decode_table = Some (get16 (\<lambda>a. ret (I_JNZ a)))"
  "find_op OP_JCMP_I decode_table = Some (get8 (\<lambda>a. get16 (\<lambda>b. ret (I_JCMP_I a b))))"
  "find_op OP_JCMP_F decode_table = Some (get8 (\<lambda>a. get16 (\<lambda>b. ret (I_JCMP_F a b))))"
  "find_op OP_MOV_VAR decode_table = Some (get8 (\<lambda>a. get16 (\<lambda>b. get16 (\<lambda>c. ret (I_MOV_VAR a b c)))))"
  "find_op OP_GOSUB decode_table = Some (get32 (\<lambda>a. ret (I_GOSUB a)))"
  "find_op OP_RETURN decode_table = Some (ret I_RETURN)"
  "find_op OP_FOR_INIT_I decode_table = Some (get16 (\<lambda>a. get16 (\<lambda>b. get16 (\<lambda>c. get16 (\<lambda>d. ret (I_FOR_INIT TI a b c d))))))"
  "find_op OP_FOR_INIT_F decode_table = Some (get16 (\<lambda>a. get16 (\<lambda>b. get16 (\<lambda>c. get16 (\<lambda>d. ret (I_FOR_INIT TF a b c d))))))"
  "find_op OP_FOR_NEXT_I decode_table = Some (get16 (\<lambda>a. get16 (\<lambda>b. get16 (\<lambda>c. get16 (\<lambda>d. ret (I_FOR_NEXT TI a b c d))))))"
  "find_op OP_FOR_NEXT_F decode_table = Some (get16 (\<lambda>a. get16 (\<lambda>b. get16 (\<lambda>c. get16 (\<lambda>d. ret (I_FOR_NEXT TF a b c d))))))"
  "find_op OP_CALL_SUB decode_table = Some (get16 (\<lambda>a. get8 (\<lambda>b. ret (I_CALL_SUB a b))))"
  "find_op OP_CALL_FUN decode_table = Some (get16 (\<lambda>a. get8 (\<lambda>b. ret (I_CALL_FUN a b))))"
  "find_op OP_RET_SUB decode_table = Some (ret I_RET_SUB)"
  "find_op OP_RET_FUN decode_table = Some (ret I_RET_FUN)"
  by (simp_all add: decode_table_def op_nats)

lemma decode_lookup3:
  "find_op OP_ENTER_FRAME decode_table = Some (get16 (\<lambda>a. ret (I_ENTER_FRAME a)))"
  "find_op OP_LEAVE_FRAME decode_table = Some (ret I_LEAVE_FRAME)"
  "find_op OP_LOAD_LOCAL_I decode_table = Some (get16 (\<lambda>a. ret (I_LOAD Local TI a)))"
  "find_op OP_LOAD_LOCAL_F decode_table = Some (get16 (\<lambda>a. ret (I_LOAD Local TF a)))"
  "find_op OP_LOAD_LOCAL_S decode_table = Some (get16 (\<lambda>a. ret (I_LOAD Local TS a)))"
  "find_op OP_STORE_LOCAL_I decode_table = Some (get16 (\<lambda>a. ret (I_STORE Local TI a)))"
  "find_op OP_STORE_LOCAL_F decode_table = Some (get16 (\<lambda>a. ret (I_STORE Local TF a)))"
  "find_op OP_STORE_LOCAL_S decode_table = Some (get16 (\<lambda>a. ret (I_STORE Local TS a)))"
  "find_op OP_LOAD_LOCAL_ARR_I decode_table = Some (get16 (\<lambda>a. get8 (\<lambda>b. ret (I_LOAD_ARR Local TI a b))))"
  "find_op OP_LOAD_LOCAL_ARR_F decode_table = Some (get16 (\<lambda>a. get8 (\<lambda>b. ret (I_LOAD_ARR Local TF a b))))"
  "find_op OP_LOAD_LOCAL_ARR_S decode_table = Some (get16 (\<lambda>a. get8 (\<lambda>b. ret (I_LOAD_ARR Local TS a b))))"
  "find_op OP_STORE_LOCAL_ARR_I decode_table = Some (get16 (\<lambda>a. get8 (\<lambda>b. ret (I_STORE_ARR Local TI a b))))"
  "find_op OP_STORE_LOCAL_ARR_F decode_table = Some (get16 (\<lambda>a. get8 (\<lambda>b. ret (I_STORE_ARR Local TF a b))))"
  "find_op OP_STORE_LOCAL_ARR_S decode_table = Some (get16 (\<lambda>a. get8 (\<lambda>b. ret (I_STORE_ARR Local TS a b))))"
  "find_op OP_PRINT_INT decode_table = Some (get8 (\<lambda>a. ret (I_PRINT_INT a)))"
  "find_op OP_PRINT_STR decode_table = Some (get8 (\<lambda>a. ret (I_PRINT_STR a)))"
  "find_op OP_PRINT_NEWLINE decode_table = Some (ret I_PRINT_NEWLINE)"
  "find_op OP_PRINT_TAB decode_table = Some (ret I_PRINT_TAB)"
  "find_op OP_DIM_ARR_I decode_table = Some (get16 (\<lambda>a. get8 (\<lambda>b. ret (I_DIM_ARR Global TI a b))))"
  "find_op OP_DIM_ARR_F decode_table = Some (get16 (\<lambda>a. get8 (\<lambda>b. ret (I_DIM_ARR Global TF a b))))"
  "find_op OP_DIM_ARR_S decode_table = Some (get16 (\<lambda>a. get8 (\<lambda>b. ret (I_DIM_ARR Global TS a b))))"
  "find_op OP_LOAD_STRUCT_FIELD_I decode_table = Some (get16 (\<lambda>a. get16 (\<lambda>b. ret (I_LOAD_FIELD TI a b))))"
  "find_op OP_LOAD_STRUCT_FIELD_F decode_table = Some (get16 (\<lambda>a. get16 (\<lambda>b. ret (I_LOAD_FIELD TF a b))))"
  "find_op OP_LOAD_STRUCT_FIELD_S decode_table = Some (get16 (\<lambda>a. get16 (\<lambda>b. ret (I_LOAD_FIELD TS a b))))"
  "find_op OP_STORE_STRUCT_FIELD_I decode_table = Some (get16 (\<lambda>a. get16 (\<lambda>b. ret (I_STORE_FIELD_I a b))))"
  "find_op OP_STORE_STRUCT_FIELD_F decode_table = Some (get16 (\<lambda>a. get16 (\<lambda>b. ret (I_STORE_FIELD_F a b))))"
  "find_op OP_STORE_STRUCT_FIELD_S decode_table = Some (get16 (\<lambda>a. get16 (\<lambda>b. get16 (\<lambda>c. ret (I_STORE_FIELD_S a b c)))))"
  "find_op OP_STR_LEN decode_table = Some (ret (I_STR LEN))"
  "find_op OP_STR_LEFT decode_table = Some (ret (I_STR LEFT))"
  "find_op OP_STR_RIGHT decode_table = Some (ret (I_STR RIGHT))"
  "find_op OP_STR_MID2 decode_table = Some (ret (I_STR MID2))"
  "find_op OP_STR_MID3 decode_table = Some (ret (I_STR MID3))"
  "find_op OP_STR_UCASE decode_table = Some (ret (I_STR UCASE))"
  "find_op OP_STR_LCASE decode_table = Some (ret (I_STR LCASE))"
  "find_op OP_STR_STR decode_table = Some (ret (I_STR STRD))"
  "find_op OP_STR_CHR decode_table = Some (ret (I_STR CHRD))"
  "find_op OP_STR_ASC decode_table = Some (ret (I_STR ASC))"
  "find_op OP_STR_HEX decode_table = Some (ret (I_STR HEX))"
  "find_op OP_STR_OCT decode_table = Some (ret (I_STR OCT))"
  "find_op OP_STR_BIN decode_table = Some (ret (I_STR BIN))"
  "find_op OP_STR_SPACE decode_table = Some (ret (I_STR SPACE))"
  "find_op OP_STR_STRING decode_table = Some (ret (I_STR STRINGD))"
  by (simp_all add: decode_table_def op_nats)

lemma decode_lookup4:
  "find_op OP_STR_FIELD3 decode_table = Some (ret (I_STR FIELD3))"
  "find_op OP_STR_INSTR decode_table = Some (get8 (\<lambda>a. ret (I_STR_INSTR a)))"
  "find_op OP_MATH_SIN decode_table = Some (ret (I_MATH SIN))"
  "find_op OP_MATH_COS decode_table = Some (ret (I_MATH COS))"
  "find_op OP_MATH_TAN decode_table = Some (ret (I_MATH TAN))"
  "find_op OP_MATH_ATN decode_table = Some (ret (I_MATH ATN))"
  "find_op OP_MATH_SQR decode_table = Some (ret (I_MATH SQR))"
  "find_op OP_MATH_LOG decode_table = Some (ret (I_MATH LOG))"
  "find_op OP_MATH_EXP decode_table = Some (ret (I_MATH EXP))"
  "find_op OP_MATH_ABS decode_table = Some (ret (I_MATH ABS))"
  "find_op OP_MATH_SGN decode_table = Some (ret (I_MATH SGN))"
  "find_op OP_MATH_FIX decode_table = Some (ret (I_MATH FIX))"
  "find_op OP_MATH_CINT decode_table = Some (ret (I_MATH CINT))"
  "find_op OP_MATH_RAD decode_table = Some (ret (I_MATH RAD))"
  "find_op OP_MATH_DEG decode_table = Some (ret (I_MATH DEG))"
  "find_op OP_MATH_ASIN decode_table = Some (ret (I_MATH ASIN))"
  "find_op OP_MATH_ACOS decode_table = Some (ret (I_MATH ACOS))"
  "find_op OP_MATH_ATAN2 decode_table = Some (ret (I_MATH ATAN2))"
  "find_op OP_MATH_MULSHR decode_table = Some (ret (I_MATH MULSHR))"
  "find_op OP_MATH_MULDIV decode_table = Some (ret (I_MATH MULDIV))"
  "find_op OP_MATH_SQRSHR decode_table = Some (ret (I_MATH SQRSHR))"
  "find_op OP_MATH_SQRDIV decode_table = Some (ret (I_MATH SQRDIV))"
  "find_op OP_MATH_MULSHRADD decode_table = Some (ret (I_MATH MULSHRADD))"
  "find_op OP_MATH_INT decode_table = Some (ret (I_MATH INTF))"
  "find_op OP_MATH_PI decode_table = Some (ret (I_MATH PIC))"
  "find_op OP_MATH_MAX decode_table = Some (ret (I_MATH MAXF))"
  "find_op OP_MATH_MIN decode_table = Some (ret (I_MATH MINF))"
  "find_op OP_INC_I decode_table = Some (get16 (\<lambda>a. ret (I_INC_I a)))"
  "find_op OP_INC_F decode_table = Some (get16 (\<lambda>a. ret (I_INC_F a)))"
  "find_op OP_READ_I decode_table = Some (ret (I_READ TI))"
  "find_op OP_READ_F decode_table = Some (ret (I_READ TF))"
  "find_op OP_READ_S decode_table = Some (ret (I_READ TS))"
  "find_op OP_RESTORE decode_table = Some (ret I_RESTORE)"
  "find_op OP_RESTORE_DATA decode_table = Some (get16 (\<lambda>a. ret (I_RESTORE_DATA a)))"
  "find_op OP_ERROR_S decode_table = Some (ret I_ERROR_S)"
  "find_op OP_ERROR_EMPTY decode_table = Some (ret I_ERROR_EMPTY)"
  "find_op OP_LINE decode_table = Some (get16 (\<lambda>a. ret (I_LINE a)))"
  "find_op OP_CHECKINT decode_table = Some (ret I_CHECKINT)"
  "find_op OP_END decode_table = Some (ret I_END)"
  "find_op OP_HALT decode_table = Some (ret I_HALT)"
  by (simp_all add: decode_table_def op_nats)

lemmas decode_lookup = decode_lookup1 decode_lookup2 decode_lookup3 decode_lookup4

lemma decode_encode:
  assumes "for_ok i"
  shows "decode (encode i @ r) = Instr i r"
  using assms
  by (cases i; simp add: code_defs for_ok_def ret_def decode_lookup
      split: vty.splits scope.splits rel.splits ibin.splits fbin.splits sfun.splits mfun.splits)

text \<open>Every encoding starts with its opcode byte, so it is never empty.\<close>

lemma encode_nonempty [simp]: "encode i \<noteq> []"
  by (cases i) simp_all



end
