(* ===== verification/Compiler.thy ===== *)
theory Compiler
  imports Bytecode
begin

text \<open>
  The compiler's core tables, \<open>runtime/vm/bc_compiler_core.c\<close>: code emission and patching, variable
  slots, locals, the string constant pool, SUB/FUNCTION lookup, the line and label maps, the nesting
  stack and the forward-reference fixups. The state is \<open>BCCompiler\<close> of \<open>bytecode.h\<close>; an array with
  its count is a list whose length is the count (\<open>bc_compiler_alloc\<close> zeroes the arrays and every
  operation writes an entry before it counts it). Errors do not abort: \<open>bc_set_error\<close> records the
  first one. \<open>None\<close> in a result stands for a write outside an array.
\<close>

section \<open>State\<close>

record BCSlot =
  slot_name :: cstr
  slot_type :: u8
  slot_is_array :: u8
  slot_is_const :: u8
  slot_ndims :: u8
  slot_dims :: "int list"
  slot_const_ival :: i64
  slot_const_fval :: u64
  slot_struct_idx :: int

record BCSubFun =
  sf_name :: cstr
  sf_entry_addr :: u32
  sf_nparams :: u8
  sf_param_types :: "u8 list"
  sf_param_is_array :: "u8 list"
  sf_param_is_byval :: "u8 list"
  sf_return_type :: u8
  sf_bridged :: u8
  sf_nlocals :: u16

record BCConstant =
  const_off :: nat
  const_len :: u16

record BCFixup =
  fx_patch_addr :: u32
  fx_target_line :: int
  fx_target_label :: int
  fx_size :: u8
  fx_is_relative :: u8
  fx_is_data_index :: u8

record BCLineMap =
  lm_lineno :: u16
  lm_offset :: u32

record BCLabelMap =
  lab_name :: cstr
  lab_offset :: u32
  lab_data_index :: u16

datatype BCNestType = NEST_IF | NEST_FOR | NEST_DO | NEST_WHILE | NEST_SELECT | NEST_SUB | NEST_FUNCTION

record BCNestEntry =
  ne_type :: BCNestType
  ne_addr1 :: u32
  ne_addr2 :: u32
  ne_addr3 :: u32
  ne_var_slot :: u16
  ne_lim_slot :: u16
  ne_step_slot :: u16
  ne_var_type :: u8
  ne_has_else :: u8
  ne_select_slot :: u16
  ne_select_type :: u8
  ne_case_end_fixups :: "u32 list"
  ne_exit_fixups :: "u32 list"
  ne_continue_fixups :: "u32 list"

text \<open>A \<open>DATA\<close> item: the union is kept as its 64 bits.\<close>

record BCDataItem =
  data_value :: u64
  data_type :: u8

record BCLocalMeta =
  meta_name :: cstr
  meta_type :: u8
  meta_is_array :: u8

record BCLocalVar =
  loc_name :: cstr
  loc_type :: u8
  loc_is_array :: u8
  loc_is_static :: u8
  loc_static_slot :: u16

record BCCompiler =
  code :: "u8 list"
  constants :: "BCConstant list"
  const_pool :: "u8 list"
  slots :: "BCSlot list"
  next_hidden_slot :: u16
  subfuns :: "BCSubFun list"
  subfun_locals_base :: "u16 list"
  fixups :: "BCFixup list"
  linemap :: "BCLineMap list"
  labelmap :: "BCLabelMap list"
  nest_stack :: "BCNestEntry list"
  current_subfun :: int
  cs_line :: u16
  cs_locals :: "BCLocalVar list"
  local_meta :: "BCLocalMeta list"
  data_pool :: "BCDataItem list"
  error_line :: u16
  error_msg :: string
  has_error :: bool

text \<open>\<open>bc_set_error\<close>: the first error wins; the message buffer holds 127 characters.\<close>

definition bc_set_error :: "BCCompiler \<Rightarrow> string \<Rightarrow> BCCompiler" where
  "bc_set_error cs msg =
     (if has_error cs then cs
      else cs\<lparr>has_error := True, error_line := cs_line cs, error_msg := take 127 msg\<rparr>)"

definition quoted :: "cstr \<Rightarrow> string" where
  "quoted name = CHR 0x27 # cstr_string name @ [CHR 0x27]"

definition bc_compiler_init :: "BCCompiler \<Rightarrow> BCCompiler" where
  "bc_compiler_init cs =
     cs\<lparr>code := [], constants := [], slots := [], next_hidden_slot := 0, subfuns := [],
        subfun_locals_base := replicate BC_MAX_SUBFUNS 0, fixups := [], linemap := [], labelmap := [],
        nest_stack := [], current_subfun := -1, cs_line := 0, cs_locals := [], local_meta := [],
        data_pool := [], error_line := 0, error_msg := [], has_error := False\<rparr>"

section \<open>Emission and patching\<close>

definition emit_bytes :: "BCCompiler \<Rightarrow> u8 list \<Rightarrow> BCCompiler" where
  "emit_bytes cs bs =
     (if length (code cs) + length bs > BC_MAX_CODE
      then bc_set_error cs (''Bytecode overflow ('' @ dec_nat BC_MAX_CODE @ '' bytes)'')
      else cs\<lparr>code := code cs @ bs\<rparr>)"

definition bc_emit_byte :: "BCCompiler \<Rightarrow> u8 \<Rightarrow> BCCompiler" where
  "bc_emit_byte cs b = emit_bytes cs [b]"

definition bc_emit_u16 :: "BCCompiler \<Rightarrow> u16 \<Rightarrow> BCCompiler" where
  "bc_emit_u16 cs v = emit_bytes cs (le_enc 2 (unat v))"

definition bc_emit_i16 :: "BCCompiler \<Rightarrow> u16 \<Rightarrow> BCCompiler" where
  "bc_emit_i16 cs v = emit_bytes cs (le_enc 2 (unat v))"

definition bc_emit_u32 :: "BCCompiler \<Rightarrow> u32 \<Rightarrow> BCCompiler" where
  "bc_emit_u32 cs v = emit_bytes cs (le_enc 4 (unat v))"

definition bc_emit_ptr :: "BCCompiler \<Rightarrow> u64 \<Rightarrow> BCCompiler" where
  "bc_emit_ptr cs v = emit_bytes cs (le_enc 8 (unat v))"

definition bc_emit_i64 :: "BCCompiler \<Rightarrow> i64 \<Rightarrow> BCCompiler" where
  "bc_emit_i64 cs v = emit_bytes cs (le_enc 8 (unat v))"

definition bc_emit_f64 :: "BCCompiler \<Rightarrow> u64 \<Rightarrow> BCCompiler" where
  "bc_emit_f64 cs v = emit_bytes cs (le_enc 8 (unat v))"

text \<open>
  The range check of the patch functions is in 32-bit unsigned arithmetic and so wraps for
  addresses at the top of the range; the write itself is then outside the code.
\<close>

definition patch_bytes :: "BCCompiler \<Rightarrow> u32 \<Rightarrow> u8 list \<Rightarrow> BCCompiler option" where
  "patch_bytes cs addr bs =
     (if addr + of_nat (length bs) > of_nat (length (code cs))
      then Some (bc_set_error cs (''Patch address '' @ dec_nat (unat addr) @ '' out of range (code_len=''
             @ dec_nat (length (code cs)) @ '')''))
      else if unat addr + length bs \<le> length (code cs)
      then Some (cs\<lparr>code := splice (code cs) (unat addr) bs\<rparr>)
      else None)"

definition bc_patch_u16 :: "BCCompiler \<Rightarrow> u32 \<Rightarrow> u16 \<Rightarrow> BCCompiler option" where
  "bc_patch_u16 cs addr v = patch_bytes cs addr (le_enc 2 (unat v))"

definition bc_patch_i16 :: "BCCompiler \<Rightarrow> u32 \<Rightarrow> u16 \<Rightarrow> BCCompiler option" where
  "bc_patch_i16 cs addr v = patch_bytes cs addr (le_enc 2 (unat v))"

definition bc_patch_u32 :: "BCCompiler \<Rightarrow> u32 \<Rightarrow> u32 \<Rightarrow> BCCompiler option" where
  "bc_patch_u32 cs addr v = patch_bytes cs addr (le_enc 4 (unat v))"

section \<open>Variable slots, locals and subroutines\<close>

text \<open>What ends up in a \<open>char name[n + 1]\<close> after \<open>memcpy\<close> of at most \<open>n\<close> bytes and the terminator.\<close>

definition stored_name :: "nat \<Rightarrow> cstr \<Rightarrow> cstr" where
  "stored_name n name = c_strlen_bytes (take n name)"

definition bc_find_slot :: "BCCompiler \<Rightarrow> cstr \<Rightarrow> u16" where
  "bc_find_slot cs name =
     (case find_index (\<lambda>s. same_name (slot_name s) name) (slots cs) of
        Some i \<Rightarrow> of_nat i | None \<Rightarrow> 0xFFFF)"

definition bc_add_slot :: "BCCompiler \<Rightarrow> cstr \<Rightarrow> u8 \<Rightarrow> u8 \<Rightarrow> BCCompiler \<times> u16" where
  "bc_add_slot cs name ty is_array =
     (if length (slots cs) \<ge> BC_MAX_SLOTS
      then (bc_set_error cs (''Too many variable slots (max '' @ dec_nat BC_MAX_SLOTS @ '')''), 0xFFFF)
      else (cs\<lparr>slots := slots cs @ [\<lparr>slot_name = stored_name MAXVARLEN name, slot_type = ty,
                slot_is_array = is_array, slot_is_const = 0, slot_ndims = 0, slot_dims = replicate MAXDIM 0,
                slot_const_ival = 0, slot_const_fval = 0, slot_struct_idx = -1\<rparr>]\<rparr>,
            of_nat (length (slots cs))))"

definition bc_find_local :: "BCCompiler \<Rightarrow> cstr \<Rightarrow> int" where
  "bc_find_local cs name =
     (case find_index (\<lambda>l. same_name (loc_name l) name) (cs_locals cs) of
        Some i \<Rightarrow> int i | None \<Rightarrow> -1)"

definition bc_add_local :: "BCCompiler \<Rightarrow> cstr \<Rightarrow> u8 \<Rightarrow> u8 \<Rightarrow> BCCompiler \<times> int" where
  "bc_add_local cs name ty is_array =
     (if length (cs_locals cs) \<ge> BC_MAX_LOCALS
      then (bc_set_error cs (''Too many local variables (max '' @ dec_nat BC_MAX_LOCALS @ '')''), -1)
      else (cs\<lparr>cs_locals := cs_locals cs @ [\<lparr>loc_name = stored_name MAXVARLEN name, loc_type = ty,
                loc_is_array = is_array, loc_is_static = 0, loc_static_slot = 0\<rparr>]\<rparr>,
            int (length (cs_locals cs))))"

definition meta_of :: "BCLocalVar \<Rightarrow> BCLocalMeta" where
  "meta_of l = \<lparr>meta_name = loc_name l, meta_type = loc_type l, meta_is_array = loc_is_array l\<rparr>"

definition bc_commit_locals :: "BCCompiler \<Rightarrow> int \<Rightarrow> BCCompiler \<times> int" where
  "bc_commit_locals cs sf_idx =
     (if sf_idx < 0 \<or> sf_idx \<ge> int (length (subfuns cs))
      then (bc_set_error cs ''Invalid SUB/FUNCTION local metadata'', -1)
      else if length (local_meta cs) + length (cs_locals cs) > BC_MAX_LOCAL_META
      then (bc_set_error cs (''Too many local metadata entries (max '' @ dec_nat BC_MAX_LOCAL_META @ '')''), -1)
      else (cs\<lparr>subfun_locals_base := (subfun_locals_base cs)[nat sf_idx := of_nat (length (local_meta cs))],
               local_meta := local_meta cs @ map meta_of (cs_locals cs)\<rparr>, 0))"

definition bc_find_subfun :: "BCCompiler \<Rightarrow> cstr \<Rightarrow> int" where
  "bc_find_subfun cs name =
     (case find_index (\<lambda>s. same_name (sf_name s) name) (subfuns cs) of
        Some i \<Rightarrow> int i | None \<Rightarrow> -1)"

section \<open>String constants\<close>

definition const_bytes :: "BCCompiler \<Rightarrow> nat \<Rightarrow> u8 list" where
  "const_bytes cs i =
     take (unat (const_len (constants cs ! i))) (drop (const_off (constants cs ! i)) (const_pool cs))"

definition bc_add_constant_string :: "BCCompiler \<Rightarrow> u8 list \<Rightarrow> BCCompiler \<times> u16" where
  "bc_add_constant_string cs data =
     (case find_index (\<lambda>c. const_len c = of_nat (length data) \<and>
             take (length data) (drop (const_off c) (const_pool cs)) = data) (constants cs) of
        Some i \<Rightarrow> (cs, of_nat i)
      | None \<Rightarrow>
          if length (constants cs) \<ge> BC_MAX_CONSTANTS
          then (bc_set_error cs (''Too many string constants (max '' @ dec_nat BC_MAX_CONSTANTS @ '')''), 0xFFFF)
          else let copy = take (STRINGSIZE - 1) data in
            if length (const_pool cs) + length copy + 1 > BC_MAX_CONST_BYTES
            then (bc_set_error cs (''String constant pool full (max '' @ dec_nat BC_MAX_CONST_BYTES @ '' bytes)''), 0xFFFF)
            else (cs\<lparr>constants := constants cs @ [\<lparr>const_off = length (const_pool cs), const_len = of_nat (length copy)\<rparr>],
                     const_pool := const_pool cs @ copy @ [0]\<rparr>,
                  of_nat (length (constants cs))))"

section \<open>Line and label maps\<close>

definition bc_add_linemap_entry :: "BCCompiler \<Rightarrow> u16 \<Rightarrow> u32 \<Rightarrow> BCCompiler \<times> int" where
  "bc_add_linemap_entry cs lineno offset =
     (if length (linemap cs) \<ge> BC_MAX_LINEMAP
      then (bc_set_error cs (''Too many line map entries (max '' @ dec_nat BC_MAX_LINEMAP @ '')''), -1)
      else (cs\<lparr>linemap := linemap cs @ [\<lparr>lm_lineno = lineno, lm_offset = offset\<rparr>]\<rparr>, 0))"

definition bc_linemap_lookup :: "BCCompiler \<Rightarrow> u16 \<Rightarrow> u32" where
  "bc_linemap_lookup cs lineno =
     (case find_index (\<lambda>e. lm_lineno e = lineno) (linemap cs) of
        Some i \<Rightarrow> lm_offset (linemap cs ! i) | None \<Rightarrow> 0xFFFFFFFF)"

definition bc_labelmap_index :: "BCCompiler \<Rightarrow> cstr \<Rightarrow> nat option" where
  "bc_labelmap_index cs name = find_index (\<lambda>l. same_name (lab_name l) name) (labelmap cs)"

definition bc_add_labelmap_entry :: "BCCompiler \<Rightarrow> cstr \<Rightarrow> u32 \<Rightarrow> BCCompiler \<times> int" where
  "bc_add_labelmap_entry cs name offset =
     (if bc_labelmap_index cs name \<noteq> None
      then (bc_set_error cs (''Duplicate label '' @ quoted name), -1)
      else if length (labelmap cs) \<ge> BC_MAX_LABELS
      then (bc_set_error cs (''Too many labels (max '' @ dec_nat BC_MAX_LABELS @ '')''), -1)
      else (cs\<lparr>labelmap := labelmap cs @ [\<lparr>lab_name = stored_name BC_MAX_LABEL_NAME name, lab_offset = offset,
              lab_data_index = of_nat (length (data_pool cs))\<rparr>]\<rparr>, 0))"

definition bc_labelmap_lookup :: "BCCompiler \<Rightarrow> cstr \<Rightarrow> u32" where
  "bc_labelmap_lookup cs name =
     (case bc_labelmap_index cs name of None \<Rightarrow> 0xFFFFFFFF | Some i \<Rightarrow> lab_offset (labelmap cs ! i))"

section \<open>Nesting stack\<close>

definition nest_zero :: "BCNestType \<Rightarrow> BCNestEntry" where
  "nest_zero ty = \<lparr>ne_type = ty, ne_addr1 = 0, ne_addr2 = 0, ne_addr3 = 0, ne_var_slot = 0, ne_lim_slot = 0,
     ne_step_slot = 0, ne_var_type = 0, ne_has_else = 0, ne_select_slot = 0, ne_select_type = 0,
     ne_case_end_fixups = [], ne_exit_fixups = [], ne_continue_fixups = []\<rparr>"

definition bc_nest_push :: "BCCompiler \<Rightarrow> BCNestType \<Rightarrow> BCCompiler" where
  "bc_nest_push cs ty =
     (if length (nest_stack cs) \<ge> BC_MAX_NEST
      then bc_set_error cs (''Nesting too deep (max '' @ dec_nat BC_MAX_NEST @ '')'')
      else cs\<lparr>nest_stack := nest_stack cs @ [nest_zero ty]\<rparr>)"

text \<open>The C functions return a pointer into \<open>nest_stack\<close>; here it is the index.\<close>

definition bc_nest_top :: "BCCompiler \<Rightarrow> nat option" where
  "bc_nest_top cs = (if nest_stack cs = [] then None else Some (length (nest_stack cs) - 1))"

definition bc_nest_find :: "BCCompiler \<Rightarrow> BCNestType \<Rightarrow> nat option" where
  "bc_nest_find cs ty =
     map_option (\<lambda>i. length (nest_stack cs) - 1 - i) (find_index (\<lambda>e. ne_type e = ty) (rev (nest_stack cs)))"

definition bc_nest_pop :: "BCCompiler \<Rightarrow> BCCompiler" where
  "bc_nest_pop cs =
     (if nest_stack cs = [] then bc_set_error cs ''Nesting stack underflow''
      else cs\<lparr>nest_stack := butlast (nest_stack cs)\<rparr>)"

section \<open>Fixups\<close>

definition bc_add_fixup_line :: "BCCompiler \<Rightarrow> u32 \<Rightarrow> int \<Rightarrow> u8 \<Rightarrow> u8 \<Rightarrow> BCCompiler" where
  "bc_add_fixup_line cs patch_addr target_line sz is_relative =
     (if length (fixups cs) \<ge> BC_MAX_FIXUPS
      then bc_set_error cs (''Too many fixups (max '' @ dec_nat BC_MAX_FIXUPS @ '')'')
      else cs\<lparr>fixups := fixups cs @ [\<lparr>fx_patch_addr = patch_addr, fx_target_line = target_line,
             fx_target_label = -1, fx_size = sz, fx_is_relative = is_relative, fx_is_data_index = 0\<rparr>]\<rparr>)"

text \<open>The label's index, with a placeholder entry when it is not known yet; \<open>None\<close>: the table is full.\<close>

definition label_placeholder :: "BCCompiler \<Rightarrow> cstr \<Rightarrow> BCCompiler \<times> nat option" where
  "label_placeholder cs name =
     (case bc_labelmap_index cs name of
        Some i \<Rightarrow> (cs, Some i)
      | None \<Rightarrow>
          if length (labelmap cs) \<ge> BC_MAX_LABELS
          then (bc_set_error cs (''Too many labels (max '' @ dec_nat BC_MAX_LABELS @ '')''), None)
          else (cs\<lparr>labelmap := labelmap cs @ [\<lparr>lab_name = stored_name BC_MAX_LABEL_NAME name,
                   lab_offset = 0xFFFFFFFF, lab_data_index = 0xFFFF\<rparr>]\<rparr>, Some (length (labelmap cs))))"

definition add_label_fixup :: "BCCompiler \<Rightarrow> u32 \<Rightarrow> cstr \<Rightarrow> u8 \<Rightarrow> u8 \<Rightarrow> u8 \<Rightarrow> BCCompiler" where
  "add_label_fixup cs patch_addr name sz is_relative is_data =
     (if length (fixups cs) \<ge> BC_MAX_FIXUPS
      then bc_set_error cs (''Too many fixups (max '' @ dec_nat BC_MAX_FIXUPS @ '')'')
      else case label_placeholder cs name of
        (cs', None) \<Rightarrow> cs'
      | (cs', Some i) \<Rightarrow> cs'\<lparr>fixups := fixups cs' @ [\<lparr>fx_patch_addr = patch_addr, fx_target_line = -1,
             fx_target_label = int i, fx_size = sz, fx_is_relative = is_relative, fx_is_data_index = is_data\<rparr>]\<rparr>)"

definition bc_add_fixup_label :: "BCCompiler \<Rightarrow> u32 \<Rightarrow> cstr \<Rightarrow> u8 \<Rightarrow> u8 \<Rightarrow> BCCompiler" where
  "bc_add_fixup_label cs patch_addr name sz is_relative = add_label_fixup cs patch_addr name sz is_relative 0"

definition bc_add_fixup_label_data_index :: "BCCompiler \<Rightarrow> u32 \<Rightarrow> cstr \<Rightarrow> BCCompiler" where
  "bc_add_fixup_label_data_index cs patch_addr name = add_label_fixup cs patch_addr name 2 0 1"

text \<open>
  What a fixup resolves to: an error message, a \<open>DATA\<close> index or a code address. \<open>0xFFFFFFFF\<close> and
  \<open>0xFFFF\<close> mark what is not defined.
\<close>

datatype target = Undefined string | DataIndex u16 | Address u32

definition label_of :: "BCCompiler \<Rightarrow> int \<Rightarrow> BCLabelMap option" where
  "label_of cs l = (if 0 \<le> l then get_idx (labelmap cs) (nat l) else None)"

definition fixup_target :: "BCCompiler \<Rightarrow> BCFixup \<Rightarrow> target" where
  "fixup_target cs f =
     (if fx_is_data_index f \<noteq> 0 then
        (case label_of cs (fx_target_label f) of
           None \<Rightarrow> Undefined ''Bad fixup''
         | Some l \<Rightarrow> if lab_data_index l = 0xFFFF
             then Undefined (''Undefined label '' @ quoted (lab_name l) @ '' in RESTORE'')
             else DataIndex (lab_data_index l))
      else if 0 \<le> fx_target_line f then
        (let t = bc_linemap_lookup cs (word_of_int (fx_target_line f))
         in if t = 0xFFFFFFFF then Undefined (''Undefined line number '' @ dec_int (fx_target_line f)) else Address t)
      else
        (case label_of cs (fx_target_label f) of
           None \<Rightarrow> Undefined ''Bad fixup''
         | Some l \<Rightarrow> if lab_offset l = 0xFFFFFFFF
             then Undefined (''Undefined label '' @ quoted (lab_name l)) else Address (lab_offset l)))"

text \<open>One round of the loop: the new state and whether the loop goes on.\<close>

definition resolve_fixup :: "BCCompiler \<Rightarrow> BCFixup \<Rightarrow> (BCCompiler \<times> bool) option" where
  "resolve_fixup cs f =
     (case fixup_target cs f of
        Undefined msg \<Rightarrow> Some (bc_set_error cs msg, False)
      | DataIndex d \<Rightarrow> map_option (\<lambda>c. (c, True)) (bc_patch_u16 cs (fx_patch_addr f) d)
      | Address t \<Rightarrow>
          if fx_is_relative f \<noteq> 0 then
            (let off = t - (fx_patch_addr f + ucast (fx_size f)) in
             if fx_size f = 2 then
               (if sint off < -32768 \<or> 32767 < sint off
                then Some (bc_set_error cs (''Relative jump out of range (line '' @ dec_int (fx_target_line f) @ '')''), False)
                else map_option (\<lambda>c. (c, True)) (bc_patch_i16 cs (fx_patch_addr f) (ucast off)))
             else map_option (\<lambda>c. (c, True)) (bc_patch_u32 cs (fx_patch_addr f) off))
          else if fx_size f = 4 then map_option (\<lambda>c. (c, True)) (bc_patch_u32 cs (fx_patch_addr f) t)
          else map_option (\<lambda>c. (c, True)) (bc_patch_u16 cs (fx_patch_addr f) (ucast t)))"

fun resolve_list :: "BCCompiler \<Rightarrow> BCFixup list \<Rightarrow> BCCompiler option" where
  "resolve_list cs [] = Some cs"
| "resolve_list cs (f # fs) =
     (case resolve_fixup cs f of None \<Rightarrow> None
      | Some (cs', False) \<Rightarrow> Some cs'
      | Some (cs', True) \<Rightarrow> resolve_list cs' fs)"

definition bc_resolve_fixups :: "BCCompiler \<Rightarrow> BCCompiler option" where
  "bc_resolve_fixups cs = resolve_list cs (fixups cs)"

section \<open>Variable access\<close>

definition hex_digit :: "nat \<Rightarrow> char" where
  "hex_digit d = char_of (if d < 10 then 48 + d else 55 + d)"

definition hex2 :: "u8 \<Rightarrow> string" where
  "hex2 b = [hex_digit (unat b div 16), hex_digit (unat b mod 16)]"

definition vty_of :: "u8 \<Rightarrow> vty option" where
  "vty_of t = (if t = T_INT then Some TI else if t = T_NBR then Some TF else if t = T_STR then Some TS else None)"

definition scope_of :: "bool \<Rightarrow> scope" where
  "scope_of is_local = (if is_local then Local else Global)"

definition bc_emit_load_var :: "BCCompiler \<Rightarrow> u16 \<Rightarrow> u8 \<Rightarrow> bool \<Rightarrow> BCCompiler" where
  "bc_emit_load_var cs slot ty is_local =
     (case vty_of ty of
        None \<Rightarrow> bc_set_error cs (''Unknown type 0x'' @ hex2 ty @ '' in load '' @ (if is_local then ''local'' else ''global''))
      | Some t \<Rightarrow> bc_emit_u16 (bc_emit_byte cs (code_LOAD (scope_of is_local) t)) slot)"

definition bc_emit_store_var :: "BCCompiler \<Rightarrow> u16 \<Rightarrow> u8 \<Rightarrow> bool \<Rightarrow> BCCompiler" where
  "bc_emit_store_var cs slot ty is_local =
     (case vty_of ty of
        None \<Rightarrow> bc_set_error cs (''Unknown type 0x'' @ hex2 ty @ '' in store '' @ (if is_local then ''local'' else ''global''))
      | Some t \<Rightarrow> bc_emit_u16 (bc_emit_byte cs (code_STORE (scope_of is_local) t)) slot)"

section \<open>Variable names in the source\<close>

definition isnamestart :: "u8 \<Rightarrow> bool" where
  "isnamestart c \<longleftrightarrow> isalpha8 c \<or> c = 0x5F"

definition isnamechar :: "u8 \<Rightarrow> bool" where
  "isnamechar c \<longleftrightarrow> isalnum8 c \<or> c = 0x5F \<or> c = 0x2E"

text \<open>\<open>*p\<close> of a terminated string.\<close>

definition at :: "u8 list \<Rightarrow> u8" where
  "at p = (case p of [] \<Rightarrow> 0 | c # _ \<Rightarrow> c)"

definition is_suffix_char :: "u8 \<Rightarrow> bool" where
  "is_suffix_char c \<longleftrightarrow> c = 0x25 \<or> c = 0x21 \<or> c = 0x24"

definition bc_type_from_suffix :: "u8 \<Rightarrow> u8" where
  "bc_type_from_suffix c = (if c = 0x25 then T_INT else if c = 0x21 then T_NBR else if c = 0x24 then T_STR else 0)"

text \<open>The result is \<open>(length, type, is_array)\<close>.\<close>

definition bc_parse_varname :: "u8 list \<Rightarrow> nat \<times> u8 \<times> bool" where
  "bc_parse_varname p =
     (if \<not> isnamestart (at p) then (0, 0, False)
      else let len = length (takeWhile isnamechar p); c = at (drop len p);
               len' = (if is_suffix_char c then len + 1 else len)
           in (len', if is_suffix_char c then bc_type_from_suffix c else 0, at (drop len' p) = 0x28))"

fun skip_parens :: "nat \<Rightarrow> u8 list \<Rightarrow> u8 list" where
  "skip_parens depth [] = []"
| "skip_parens depth (c # p) =
     (if c = 0 then c # p
      else let depth' = (if c = 0x28 then depth + 1 else if c = 0x29 then depth - 1 else depth)
           in if 0 < depth' then skip_parens depth' p else p)"

definition bc_skip_var :: "u8 list \<Rightarrow> u8 list" where
  "bc_skip_var p =
     (if \<not> isnamestart (at p) then p
      else let p1 = dropWhile isnamechar p;
               p2 = (if is_suffix_char (at p1) then drop 1 p1 else p1)
           in if at p2 = 0x28 then skip_parens 0 p2 else p2)"

section \<open>The tables stay within their bounds\<close>

definition const_ok :: "u8 list \<Rightarrow> BCConstant \<Rightarrow> bool" where
  "const_ok pool c \<longleftrightarrow> unat (const_len c) \<le> MAXSTRLEN \<and>
     const_off c + unat (const_len c) < length pool \<and> pool ! (const_off c + unat (const_len c)) = 0"

definition compiler_ok :: "BCCompiler \<Rightarrow> bool" where
  "compiler_ok cs \<longleftrightarrow> length (code cs) \<le> BC_MAX_CODE \<and> length (constants cs) \<le> BC_MAX_CONSTANTS \<and>
     length (const_pool cs) \<le> BC_MAX_CONST_BYTES \<and> (\<forall>c\<in>set (constants cs). const_ok (const_pool cs) c) \<and>
     length (slots cs) \<le> BC_MAX_SLOTS \<and> length (subfuns cs) \<le> BC_MAX_SUBFUNS \<and>
     length (subfun_locals_base cs) = BC_MAX_SUBFUNS \<and> length (fixups cs) \<le> BC_MAX_FIXUPS \<and>
     length (linemap cs) \<le> BC_MAX_LINEMAP \<and> length (labelmap cs) \<le> BC_MAX_LABELS \<and>
     length (nest_stack cs) \<le> BC_MAX_NEST \<and> length (cs_locals cs) \<le> BC_MAX_LOCALS \<and>
     length (local_meta cs) \<le> BC_MAX_LOCAL_META"

text \<open>One call of a compiler-core operation.\<close>

inductive core_step :: "BCCompiler \<Rightarrow> BCCompiler \<Rightarrow> bool" where
  init: "core_step cs (bc_compiler_init cs)"
| emit_byte: "core_step cs (bc_emit_byte cs b)"
| emit_u16: "core_step cs (bc_emit_u16 cs w)"
| emit_u32: "core_step cs (bc_emit_u32 cs l)"
| emit_i64: "core_step cs (bc_emit_i64 cs q)"
| patch_u16: "bc_patch_u16 cs addr w = Some cs' \<Longrightarrow> core_step cs cs'"
| patch_u32: "bc_patch_u32 cs addr l = Some cs' \<Longrightarrow> core_step cs cs'"
| add_slot: "core_step cs (fst (bc_add_slot cs name ty arr))"
| add_local: "core_step cs (fst (bc_add_local cs name ty arr))"
| commit_locals: "core_step cs (fst (bc_commit_locals cs sf))"
| add_constant: "core_step cs (fst (bc_add_constant_string cs data))"
| add_line: "core_step cs (fst (bc_add_linemap_entry cs lineno off))"
| add_label: "core_step cs (fst (bc_add_labelmap_entry cs name off))"
| nest_push: "core_step cs (bc_nest_push cs nt)"
| nest_pop: "core_step cs (bc_nest_pop cs)"
| fixup_line: "core_step cs (bc_add_fixup_line cs addr ln sz rel)"
| fixup_label: "core_step cs (bc_add_fixup_label cs addr name sz rel)"
| fixup_data: "core_step cs (bc_add_fixup_label_data_index cs addr name)"
| resolve: "bc_resolve_fixups cs = Some cs' \<Longrightarrow> core_step cs cs'"
| load_var: "core_step cs (bc_emit_load_var cs slot ty loc)"
| store_var: "core_step cs (bc_emit_store_var cs slot ty loc)"
| set_error: "core_step cs (bc_set_error cs msg)"

lemma set_error_ok [simp]: "compiler_ok (bc_set_error cs msg) = compiler_ok cs"
  by (simp add: bc_set_error_def compiler_ok_def)

lemma set_error_fields [simp]:
  "code (bc_set_error cs msg) = code cs" "constants (bc_set_error cs msg) = constants cs"
  "const_pool (bc_set_error cs msg) = const_pool cs" "slots (bc_set_error cs msg) = slots cs"
  "fixups (bc_set_error cs msg) = fixups cs" "linemap (bc_set_error cs msg) = linemap cs"
  "labelmap (bc_set_error cs msg) = labelmap cs" "cs_locals (bc_set_error cs msg) = cs_locals cs"
  "nest_stack (bc_set_error cs msg) = nest_stack cs" "subfuns (bc_set_error cs msg) = subfuns cs"
  "subfun_locals_base (bc_set_error cs msg) = subfun_locals_base cs"
  "local_meta (bc_set_error cs msg) = local_meta cs" "data_pool (bc_set_error cs msg) = data_pool cs"
  "has_error (bc_set_error cs msg)"
  by (simp_all add: bc_set_error_def)

lemma emit_bytes_ok: "compiler_ok cs \<Longrightarrow> compiler_ok (emit_bytes cs bs)"
  by (simp add: emit_bytes_def) (simp add: compiler_ok_def)

lemma patch_bytes_ok: "compiler_ok cs \<Longrightarrow> patch_bytes cs addr bs = Some cs' \<Longrightarrow> compiler_ok cs'"
  by (auto simp: patch_bytes_def compiler_ok_def split: if_splits simp: bc_set_error_def)

lemma const_ok_append: "const_ok pool c \<Longrightarrow> const_ok (pool @ bs) c"
  by (auto simp: const_ok_def nth_append)

lemma add_constant_ok:
  assumes "compiler_ok cs"
  shows "compiler_ok (fst (bc_add_constant_string cs data))"
proof (cases "find_index (\<lambda>c. const_len c = of_nat (length data) \<and>
             take (length data) (drop (const_off c) (const_pool cs)) = data) (constants cs)")
  case (Some i)
  then show ?thesis using assms by (simp add: bc_add_constant_string_def)
next
  case None
  let ?copy = "take (STRINGSIZE - 1) data"
  have l: "length ?copy \<le> 255" by (simp add: STRINGSIZE_def)
  then have w: "unat (of_nat (length ?copy) :: u16) = length ?copy" by (simp add: unat_of_nat)
  have new: "const_ok (const_pool cs @ ?copy @ [0]) \<lparr>const_off = length (const_pool cs), const_len = of_nat (length ?copy)\<rparr>"
    using l w by (simp add: const_ok_def MAXSTRLEN_def nth_append)
  show ?thesis
    using assms new const_ok_append by (auto simp: bc_add_constant_string_def None Let_def compiler_ok_def)
qed

lemma label_placeholder_ok: "compiler_ok cs \<Longrightarrow> compiler_ok (fst (label_placeholder cs name))"
  by (simp add: label_placeholder_def split: option.split) (simp add: compiler_ok_def)

lemma label_placeholder_fixups [simp]: "fixups (fst (label_placeholder cs name)) = fixups cs"
  by (auto simp: label_placeholder_def split: option.splits)

lemma add_label_fixup_ok:
  assumes "compiler_ok cs"
  shows "compiler_ok (add_label_fixup cs addr name sz rel dat)"
proof -
  obtain cs1 r where lp: "label_placeholder cs name = (cs1, r)" by (cases "label_placeholder cs name")
  then have "compiler_ok cs1" "fixups cs1 = fixups cs"
    using label_placeholder_ok [OF assms, of name] label_placeholder_fixups [of cs name] by simp_all
  then show ?thesis using assms
    by (simp add: add_label_fixup_def lp split: option.split) (simp add: compiler_ok_def)
qed

lemma resolve_fixup_cases:
  assumes "resolve_fixup cs f = Some (cs', b)"
  shows "(\<exists>m. cs' = bc_set_error cs m) \<or> (\<exists>a bs. patch_bytes cs a bs = Some cs')"
  using assms
  by (auto simp: resolve_fixup_def bc_patch_u16_def bc_patch_i16_def bc_patch_u32_def Let_def
      split: target.splits if_splits)

lemma resolve_fixup_ok: "compiler_ok cs \<Longrightarrow> resolve_fixup cs f = Some (cs', b) \<Longrightarrow> compiler_ok cs'"
  using resolve_fixup_cases patch_bytes_ok by fastforce

lemma resolve_list_ok: "compiler_ok cs \<Longrightarrow> resolve_list cs fs = Some cs' \<Longrightarrow> compiler_ok cs'"
  by (induction cs fs rule: resolve_list.induct)
    (auto split: option.splits bool.splits dest: resolve_fixup_ok)

lemmas compiler_ops = bc_add_slot_def bc_add_local_def bc_add_linemap_entry_def bc_add_labelmap_entry_def
  bc_nest_push_def bc_nest_pop_def bc_commit_locals_def bc_add_fixup_line_def bc_add_fixup_label_def
  bc_add_fixup_label_data_index_def bc_emit_byte_def bc_emit_u16_def bc_emit_u32_def bc_emit_i64_def
  bc_patch_u16_def bc_patch_i16_def bc_patch_u32_def bc_resolve_fixups_def bc_emit_load_var_def
  bc_emit_store_var_def

lemma table_ops_ok:
  assumes "compiler_ok cs"
  shows "compiler_ok (fst (bc_add_slot cs name ty arr))"
    "compiler_ok (fst (bc_add_local cs name ty arr))"
    "compiler_ok (fst (bc_add_linemap_entry cs lineno off))"
    "compiler_ok (fst (bc_add_labelmap_entry cs name off))"
    "compiler_ok (bc_nest_push cs nt)"
    "compiler_ok (bc_nest_pop cs)"
    "compiler_ok (bc_add_fixup_line cs addr ln sz rel)"
    "compiler_ok (fst (bc_commit_locals cs sf))"
  using assms
  by (simp_all add: compiler_ops) (auto simp: compiler_ok_def)

lemma core_step_ok:
  assumes "core_step cs cs'" "compiler_ok cs"
  shows "compiler_ok cs'"
  using assms
proof (induction rule: core_step.induct)
  case (init cs)
  then show ?case by (simp add: bc_compiler_init_def compiler_ok_def)
next
  case (add_constant cs data)
  then show ?case by (simp add: add_constant_ok)
qed (auto intro: patch_bytes_ok resolve_list_ok emit_bytes_ok add_label_fixup_ok table_ops_ok
    simp: bc_emit_byte_def bc_emit_u16_def bc_emit_u32_def bc_emit_i64_def bc_patch_u16_def bc_patch_u32_def
      bc_resolve_fixups_def bc_add_fixup_label_def bc_add_fixup_label_data_index_def
      bc_emit_load_var_def bc_emit_store_var_def split: option.splits)

inductive core_reach :: "BCCompiler \<Rightarrow> bool" where
  start: "core_reach (bc_compiler_init cs)" if "const_pool cs = []"
| step: "core_reach cs \<Longrightarrow> core_step cs cs' \<Longrightarrow> core_reach cs'"

text \<open>
  C17: from the initialised state, no sequence of compiler-core calls overruns a table: code,
  constants and their bytes, slots, locals, metadata, line map, labels, nesting and fixups all stay
  within the sizes \<open>bc_compiler_alloc\<close> reserved, and every string constant lies inside the pool
  with its terminator behind it.
\<close>

theorem core_reach_ok:
  assumes "core_reach cs"
  shows "compiler_ok cs"
  using assms
proof (induction rule: core_reach.induct)
  case (start cs)
  then show ?case by (simp add: bc_compiler_init_def compiler_ok_def)
next
  case (step cs cs')
  then show ?case using core_step_ok by blast
qed

definition empty_compiler :: BCCompiler where
  "empty_compiler = bc_compiler_init \<lparr>code = [], constants = [], const_pool = [], slots = [], next_hidden_slot = 0,
     subfuns = [], subfun_locals_base = [], fixups = [], linemap = [], labelmap = [], nest_stack = [],
     current_subfun = 0, cs_line = 0, cs_locals = [], local_meta = [], data_pool = [], error_line = 0,
     error_msg = [], has_error = False\<rparr>"

lemma empty_compiler_reach: "core_reach empty_compiler"
  unfolding empty_compiler_def by (rule core_reach.start) simp

lemma empty_compiler_ok [simp]: "compiler_ok empty_compiler"
  by (simp add: empty_compiler_def bc_compiler_init_def compiler_ok_def)

theorem core_reach_ok_witness:
  "compiler_ok (bc_nest_pop (fst (bc_add_constant_string (bc_emit_byte empty_compiler OP_END) [104, 105])))"
  by (rule core_reach_ok [OF core_reach.step [OF core_reach.step [OF core_reach.step
      [OF empty_compiler_reach core_step.emit_byte] core_step.add_constant] core_step.nest_pop]])

section \<open>Errors are sticky\<close>

lemma set_error_sticky: "has_error cs \<Longrightarrow> bc_set_error cs msg = cs"
  by (simp add: bc_set_error_def)

definition same_error :: "BCCompiler \<Rightarrow> BCCompiler \<Rightarrow> bool" where
  "same_error cs cs' \<longleftrightarrow> has_error cs' \<and> error_msg cs' = error_msg cs \<and> error_line cs' = error_line cs"

lemma patch_bytes_sticky: "has_error cs \<Longrightarrow> patch_bytes cs addr bs = Some cs' \<Longrightarrow> same_error cs cs'"
  by (auto simp: patch_bytes_def set_error_sticky same_error_def split: if_splits)

lemma resolve_fixup_sticky:
  assumes "has_error cs" "resolve_fixup cs f = Some (cs', b)"
  shows "same_error cs cs'"
  using resolve_fixup_cases [OF assms(2)]
proof
  assume "\<exists>m. cs' = bc_set_error cs m"
  then show ?thesis using assms(1) by (auto simp: set_error_sticky same_error_def)
next
  assume "\<exists>a bs. patch_bytes cs a bs = Some cs'"
  then show ?thesis using patch_bytes_sticky [OF assms(1)] by blast
qed

lemma resolve_list_sticky: "has_error cs \<Longrightarrow> resolve_list cs fs = Some cs' \<Longrightarrow> same_error cs cs'"
proof (induction fs arbitrary: cs)
  case Nil
  then show ?case by (simp add: same_error_def)
next
  case (Cons f fs)
  then obtain c b where r: "resolve_fixup cs f = Some (c, b)" by (auto split: option.splits)
  have s: "same_error cs c" using resolve_fixup_sticky [OF Cons.prems(1) r] .
  show ?case
  proof (cases b)
    case True
    then have "resolve_list c fs = Some cs'" using Cons.prems(2) r by simp
    moreover have "has_error c" using s by (simp add: same_error_def)
    ultimately have "same_error c cs'" using Cons.IH by blast
    with s show ?thesis by (simp add: same_error_def)
  next
    case False
    then show ?thesis using Cons.prems(2) r s by simp
  qed
qed

lemma label_placeholder_sticky:
  "has_error cs \<Longrightarrow> label_placeholder cs name = (cs1, r) \<Longrightarrow> same_error cs cs1"
  by (auto simp: label_placeholder_def set_error_sticky same_error_def split: option.splits if_splits)

lemma add_label_fixup_sticky: "has_error cs \<Longrightarrow> same_error cs (add_label_fixup cs addr name sz rel dat)"
  by (cases "label_placeholder cs name")
    (auto simp: add_label_fixup_def set_error_sticky same_error_def dest: label_placeholder_sticky split: option.split)

text \<open>
  C18: the first error is the one reported: once \<open>bc_set_error\<close> has recorded a message and a line,
  no later compiler-core call changes them or clears the error, except \<open>bc_compiler_init\<close>.
\<close>

theorem first_error_kept:
  assumes "core_step cs cs'" "has_error cs" "cs' \<noteq> bc_compiler_init cs"
  shows "has_error cs' \<and> error_msg cs' = error_msg cs \<and> error_line cs' = error_line cs"
proof -
  have "same_error cs cs'"
    using assms
  proof (induction rule: core_step.induct)
    case (patch_u16 cs addr w cs')
    then show ?case by (simp add: bc_patch_u16_def patch_bytes_sticky)
  next
    case (patch_u32 cs addr l cs')
    then show ?case by (simp add: bc_patch_u32_def patch_bytes_sticky)
  next
    case (resolve cs cs')
    then show ?case by (simp add: bc_resolve_fixups_def resolve_list_sticky)
  next
    case (fixup_label cs addr name sz rel)
    then show ?case by (simp add: bc_add_fixup_label_def add_label_fixup_sticky)
  next
    case (fixup_data cs addr name)
    then show ?case by (simp add: bc_add_fixup_label_data_index_def add_label_fixup_sticky)
  next
    case (add_constant cs data)
    then show ?case by (auto simp: bc_add_constant_string_def set_error_sticky same_error_def Let_def split: option.split)
  qed (auto simp: compiler_ops emit_bytes_def set_error_sticky same_error_def split: option.split)
  then show ?thesis by (simp add: same_error_def)
qed

theorem first_error_kept_witness:
  "has_error (bc_emit_byte (bc_nest_pop (bc_nest_pop empty_compiler)) OP_END) \<and>
   error_msg (bc_emit_byte (bc_nest_pop (bc_nest_pop empty_compiler)) OP_END) = ''Nesting stack underflow''"
proof -
  let ?cs = "bc_nest_pop (bc_nest_pop empty_compiler)"
  have e: "has_error ?cs" "error_msg ?cs = ''Nesting stack underflow''"
    by (simp_all add: bc_nest_pop_def empty_compiler_def bc_compiler_init_def bc_set_error_def)
  have "bc_emit_byte ?cs OP_END \<noteq> bc_compiler_init ?cs"
    using e by (auto simp: bc_emit_byte_def emit_bytes_def bc_compiler_init_def bc_set_error_def
        dest: arg_cong [of _ _ has_error] split: if_splits)
  with first_error_kept [OF core_step.emit_byte e(1), of OP_END] e(2) show ?thesis by simp
qed

section \<open>The string constant pool\<close>

lemma const_bytes_append:
  assumes "const_ok pool c"
  shows "take (unat (const_len c)) (drop (const_off c) (pool @ bs)) = take (unat (const_len c)) (drop (const_off c) pool)"
  using assms by (simp add: const_ok_def)

lemma find_index_add_constant:
  assumes ok: "compiler_ok cs" and len: "length data \<le> MAXSTRLEN"
    and new: "find_index (\<lambda>c. const_len c = of_nat (length data) \<and>
             take (length data) (drop (const_off c) (const_pool cs)) = data) (constants cs) = None"
    and room: "length (constants cs) < BC_MAX_CONSTANTS" "length (const_pool cs) + length data + 1 \<le> BC_MAX_CONST_BYTES"
  defines "cs' \<equiv> fst (bc_add_constant_string cs data)"
  shows "constants cs' = constants cs @ [\<lparr>const_off = length (const_pool cs), const_len = of_nat (length data)\<rparr>]"
    "const_pool cs' = const_pool cs @ data @ [0]"
    "snd (bc_add_constant_string cs data) = of_nat (length (constants cs))"
    "code cs' = code cs"
  using len room by (simp_all add: cs'_def bc_add_constant_string_def new Let_def STRINGSIZE_def MAXSTRLEN_def)

text \<open>
  C19: the pool gives back what was put in. For a string of at most 255 bytes and when the pool has
  room, the index returned is in range and its bytes are the string; every constant added before
  keeps its bytes; and adding the same string again returns the same index and changes nothing.
\<close>

theorem add_constant_roundtrip:
  assumes ok: "compiler_ok cs" and len: "length data \<le> MAXSTRLEN"
    and room: "length (constants cs) < BC_MAX_CONSTANTS" "length (const_pool cs) + length data + 1 \<le> BC_MAX_CONST_BYTES"
    and add: "bc_add_constant_string cs data = (cs', idx)"
  shows "unat idx < length (constants cs') \<and> const_bytes cs' (unat idx) = data \<and>
    (\<forall>i<length (constants cs). const_bytes cs' i = const_bytes cs i) \<and>
    bc_add_constant_string cs' data = (cs', idx)"
proof (cases "find_index (\<lambda>c. const_len c = of_nat (length data) \<and>
             take (length data) (drop (const_off c) (const_pool cs)) = data) (constants cs)")
  case (Some i)
  then have r: "cs' = cs" "idx = of_nat i" using add by (simp_all add: bc_add_constant_string_def)
  have i: "i < length (constants cs)" "const_len (constants cs ! i) = of_nat (length data)"
    "take (length data) (drop (const_off (constants cs ! i)) (const_pool cs)) = data"
    using find_index_Some [OF Some] by simp_all
  have "i < 65536" using i(1) room by (simp add: BC_MAX_CONSTANTS_def)
  then have ui: "unat idx = i" by (simp add: r unat_of_nat)
  have "unat (of_nat (length data) :: u16) = length data" using len by (simp add: unat_of_nat MAXSTRLEN_def)
  then show ?thesis using add i ui r by (simp add: const_bytes_def)
next
  case None
  from find_index_add_constant [OF ok len None room] add
  have c: "constants cs' = constants cs @ [\<lparr>const_off = length (const_pool cs), const_len = of_nat (length data)\<rparr>]"
    "const_pool cs' = const_pool cs @ data @ [0]" "idx = of_nat (length (constants cs))" by simp_all
  have ui: "unat idx = length (constants cs)" using room by (simp add: c(3) unat_of_nat BC_MAX_CONSTANTS_def)
  have ul: "unat (of_nat (length data) :: u16) = length data" using len by (simp add: unat_of_nat MAXSTRLEN_def)
  have old: "const_bytes cs' i = const_bytes cs i" if "i < length (constants cs)" for i
  proof -
    have "const_ok (const_pool cs) (constants cs ! i)" using ok that by (simp add: compiler_ok_def)
    then show ?thesis using that const_bytes_append
      by (simp add: const_bytes_def c nth_append del: take_append drop_append)
  qed
  have "find_index (\<lambda>k. const_len k = of_nat (length data) \<and>
      take (length data) (drop (const_off k) (const_pool cs')) = data) (constants cs') = Some (length (constants cs))"
  proof -
    have "find_index (\<lambda>k. const_len k = of_nat (length data) \<and>
      take (length data) (drop (const_off k) (const_pool cs')) = data) (constants cs) = None"
      using None ok ul unfolding find_index_None_iff c(2)
      by (auto simp: compiler_ok_def const_ok_def)
    then show ?thesis by (simp add: c find_index_append)
  qed
  then have "bc_add_constant_string cs' data = (cs', idx)" by (simp add: bc_add_constant_string_def c(3))
  moreover have "const_bytes cs' (unat idx) = data" unfolding const_bytes_def ui by (simp add: c ul)
  ultimately show ?thesis using ui old c(1) by simp
qed

theorem add_constant_roundtrip_witness:
  "const_bytes (fst (bc_add_constant_string (fst (bc_add_constant_string empty_compiler [104, 105])) [33])) 0 = [104, 105]"
proof -
  let ?c1 = "fst (bc_add_constant_string empty_compiler [104, 105])"
  have c1: "constants ?c1 = [\<lparr>const_off = 0, const_len = 2\<rparr>]" "const_pool ?c1 = [104, 105, 0]"
    by (simp_all add: bc_add_constant_string_def empty_compiler_def bc_compiler_init_def limits)
  have "compiler_ok ?c1" by (rule add_constant_ok) simp
  then show ?thesis
    using add_constant_roundtrip [of ?c1 "[33]" "fst (bc_add_constant_string ?c1 [33])" "snd (bc_add_constant_string ?c1 [33])"] c1
    by (simp add: limits const_bytes_def)
qed

section \<open>Fixups land on their targets\<close>

text \<open>The bytes a fixup patches, and what the VM makes of them.\<close>

definition fx_width :: "BCFixup \<Rightarrow> nat" where
  "fx_width f = (if fx_is_data_index f \<noteq> 0 then 2
     else if fx_is_relative f \<noteq> 0 then (if fx_size f = 2 then 2 else 4)
     else if fx_size f = 4 then 4 else 2)"

definition fx_site :: "BCFixup \<Rightarrow> nat set" where
  "fx_site f = {unat (fx_patch_addr f)..<unat (fx_patch_addr f) + fx_width f}"

definition fx_operand :: "u8 list \<Rightarrow> BCFixup \<Rightarrow> nat" where
  "fx_operand bs f = le_dec (take (fx_width f) (drop (unat (fx_patch_addr f)) bs))"

definition lands :: "BCCompiler \<Rightarrow> BCFixup \<Rightarrow> bool" where
  "lands cs f =
     (case fixup_target cs f of
        Undefined msg \<Rightarrow> False
      | DataIndex d \<Rightarrow> of_nat (fx_operand (code cs) f) = d
      | Address t \<Rightarrow>
          if fx_is_relative f \<noteq> 0 then
            (if fx_size f = 2
             then fx_patch_addr f + 2 + scast (of_nat (fx_operand (code cs) f) :: u16) = t
             else fx_patch_addr f + ucast (fx_size f) + of_nat (fx_operand (code cs) f) = t)
          else if fx_size f = 4 then of_nat (fx_operand (code cs) f) = t
          else (of_nat (fx_operand (code cs) f) :: u16) = ucast t)"

lemma scast_ucast_16:
  fixes off :: u32
  assumes "-32768 \<le> sint off" "sint off \<le> 32767"
  shows "scast (ucast off :: u16) = off"
proof -
  have "sint (ucast off :: u16) = signed_take_bit 15 (uint off)"
    by (simp add: sint_uint unsigned_ucast_eq signed_take_bit_take_bit)
  also have "\<dots> = signed_take_bit 15 (sint off)"
    by (simp add: sint_uint signed_take_bit_signed_take_bit)
  also have "\<dots> = sint off" using assms by (intro signed_take_bit_int_eq_self) simp_all
  finally show ?thesis by (simp add: scast_eq)
qed

lemma patch_bytes_in:
  assumes "length (code cs) \<le> BC_MAX_CODE" "unat addr + length bs \<le> length (code cs)"
  shows "patch_bytes cs addr bs = Some (cs\<lparr>code := splice (code cs) (unat addr) bs\<rparr>)"
proof -
  have l: "length (code cs) < 2 ^ 32" using assms(1) by (simp add: BC_MAX_CODE_def)
  have u: "unat (of_nat (length (code cs)) :: u32) = length (code cs)"
    using l by (simp add: unat_of_nat)
  have "unat (addr + of_nat (length bs)) = (unat addr + length bs) mod 2 ^ 32"
    by (simp add: unat_word_ariths unat_of_nat mod_simps)
  also have "\<dots> = unat addr + length bs" using assms(2) l by simp
  finally have "\<not> addr + of_nat (length bs) > of_nat (length (code cs))"
    using assms(2) u by (simp add: word_less_nat_alt)
  then show ?thesis using assms(2) by (simp add: patch_bytes_def)
qed

lemma fx_operand_splice:
  assumes "length bs = fx_width f" "unat (fx_patch_addr f) + fx_width f \<le> length cd"
  shows "fx_operand (splice cd (unat (fx_patch_addr f)) bs) f = le_dec bs"
  using assms take_drop_splice [of "unat (fx_patch_addr f)" bs cd] by (simp add: fx_operand_def)

lemma fixup_target_cong:
  assumes "linemap c = linemap cs" "labelmap c = labelmap cs"
  shows "fixup_target c f = fixup_target cs f"
  unfolding fixup_target_def label_of_def bc_linemap_lookup_def assms by (rule refl)

lemma resolve_fixup_lands:
  assumes r: "resolve_fixup cs f = Some (c, b)" and ne: "\<not> has_error c"
    and len: "length (code cs) \<le> BC_MAX_CODE" and site: "unat (fx_patch_addr f) + fx_width f \<le> length (code cs)"
  shows "b \<and> (\<exists>bs. length bs = fx_width f \<and> c = cs\<lparr>code := splice (code cs) (unat (fx_patch_addr f)) bs\<rparr>) \<and> lands c f"
proof -
  have main: "b \<and> (\<exists>bs. length bs = fx_width f \<and> c = cs\<lparr>code := splice (code cs) (unat (fx_patch_addr f)) bs\<rparr>) \<and> lands c f"
    if p: "patch_bytes cs (fx_patch_addr f) bs = Some c" "b" "length bs = fx_width f"
    and l: "fx_operand (code c) f = le_dec bs \<Longrightarrow> lands c f" for bs
  proof -
    have "c = cs\<lparr>code := splice (code cs) (unat (fx_patch_addr f)) bs\<rparr>"
      using patch_bytes_in [OF len, of "fx_patch_addr f" bs] p(1,3) site by simp
    moreover from this have "fx_operand (code c) f = le_dec bs"
      using fx_operand_splice [OF p(3) site] by simp
    ultimately show ?thesis using p l by blast
  qed
  have tg: "fixup_target c f = fixup_target cs f" if "patch_bytes cs (fx_patch_addr f) bs = Some c" for bs
    using that ne by (intro fixup_target_cong) (auto simp: patch_bytes_def split: if_splits)
  show ?thesis
  proof (cases "fixup_target cs f")
    case (Undefined msg)
    then show ?thesis using r ne by (auto simp: resolve_fixup_def)
  next
    case (DataIndex d)
    then have dat: "fx_is_data_index f \<noteq> 0"
      by (auto simp: fixup_target_def Let_def split: if_splits option.splits)
    from DataIndex r have p: "patch_bytes cs (fx_patch_addr f) (le_enc 2 (unat d)) = Some c" "b"
      by (auto simp: resolve_fixup_def bc_patch_u16_def)
    show ?thesis
      by (rule main [OF p]) (simp_all add: fx_width_def dat lands_def tg [OF p(1)] DataIndex of_nat_le_dec_enc_unat)
  next
    case (Address t)
    then have dat: "fx_is_data_index f = 0"
      by (auto simp: fixup_target_def Let_def split: if_splits option.splits)
    let ?off = "t - (fx_patch_addr f + ucast (fx_size f))"
    consider "fx_is_relative f \<noteq> 0" "fx_size f = 2" | "fx_is_relative f \<noteq> 0" "fx_size f \<noteq> 2"
      | "fx_is_relative f = 0" "fx_size f = 4" | "fx_is_relative f = 0" "fx_size f \<noteq> 4" by blast
    then show ?thesis
    proof cases
      case 1
      have u: "ucast (fx_size f) = (2 :: u32)" using 1(2) by simp
      have rng: "-32768 \<le> sint ?off" "sint ?off \<le> 32767"
        using r ne Address 1 by (auto simp: resolve_fixup_def Let_def split: if_splits)
      have p: "patch_bytes cs (fx_patch_addr f) (le_enc 2 (unat (ucast ?off :: u16))) = Some c" "b"
        using r ne Address 1 by (auto simp: resolve_fixup_def Let_def bc_patch_i16_def split: if_splits)
      have sc: "fx_patch_addr f + 2 + scast (ucast (t - (fx_patch_addr f + 2)) :: u16) = t"
        using scast_ucast_16 [OF rng] unfolding u by simp
      show ?thesis
        by (rule main [OF p]) (simp_all add: fx_width_def dat 1 lands_def tg [OF p(1)] Address
            of_nat_le_dec_enc_unat sc)
    next
      case 2
      then have p: "patch_bytes cs (fx_patch_addr f) (le_enc 4 (unat ?off)) = Some c" "b"
        using r Address by (auto simp: resolve_fixup_def Let_def bc_patch_u32_def)
      show ?thesis
        by (rule main [OF p]) (simp_all add: fx_width_def dat 2 lands_def tg [OF p(1)] Address of_nat_le_dec_enc_unat)
    next
      case 3
      then have p: "patch_bytes cs (fx_patch_addr f) (le_enc 4 (unat t)) = Some c" "b"
        using r Address by (auto simp: resolve_fixup_def Let_def bc_patch_u32_def)
      show ?thesis
        by (rule main [OF p]) (simp_all add: fx_width_def dat 3 lands_def tg [OF p(1)] Address of_nat_le_dec_enc_unat)
    next
      case 4
      then have p: "patch_bytes cs (fx_patch_addr f) (le_enc 2 (unat (ucast t :: u16))) = Some c" "b"
        using r Address by (auto simp: resolve_fixup_def Let_def bc_patch_u16_def)
      show ?thesis
        by (rule main [OF p]) (simp_all add: fx_width_def dat 4 lands_def tg [OF p(1)] Address of_nat_le_dec_enc_unat)
    qed
  qed
qed

lemma nth_splice_outside:
  assumes "a + length bs \<le> length cd" "i < length cd" "i \<notin> {a..<a + length bs}"
  shows "splice cd a bs ! i = cd ! i"
  using assms by (auto simp: nth_splice)

lemma fx_operand_cong:
  assumes "length cd = length cd'" "\<And>i. i \<in> fx_site f \<Longrightarrow> i < length cd \<Longrightarrow> cd ! i = cd' ! i"
  shows "fx_operand cd f = fx_operand cd' f"
proof -
  have "take (fx_width f) (drop (unat (fx_patch_addr f)) cd) = take (fx_width f) (drop (unat (fx_patch_addr f)) cd')"
    using assms by (intro nth_equalityI) (auto simp: fx_site_def)
  then show ?thesis by (simp add: fx_operand_def)
qed

lemma resolve_list_lands:
  assumes "resolve_list cs fs = Some cs'" "\<not> has_error cs'" "length (code cs) \<le> BC_MAX_CODE"
    and "\<forall>f\<in>set fs. unat (fx_patch_addr f) + fx_width f \<le> length (code cs)"
    and "sorted_wrt (\<lambda>f g. fx_site f \<inter> fx_site g = {}) fs"
  shows "length (code cs') = length (code cs) \<and> linemap cs' = linemap cs \<and> labelmap cs' = labelmap cs \<and>
    (\<forall>f\<in>set fs. lands cs' f) \<and> (\<forall>i<length (code cs). i \<notin> \<Union> (fx_site ` set fs) \<longrightarrow> code cs' ! i = code cs ! i)"
  using assms
proof (induction fs arbitrary: cs)
  case Nil
  then show ?case by simp
next
  case (Cons f fs)
  then obtain c b where r: "resolve_fixup cs f = Some (c, b)" by (auto split: option.splits)
  have ne: "\<not> has_error c"
  proof
    assume e: "has_error c"
    show False
    proof (cases b)
      case True
      then have "resolve_list c fs = Some cs'" using Cons.prems(1) r by simp
      then show False using resolve_list_sticky [OF e] Cons.prems(2) by (auto simp: same_error_def)
    next
      case False
      then show False using Cons.prems(1,2) r e by simp
    qed
  qed
  have site: "unat (fx_patch_addr f) + fx_width f \<le> length (code cs)" using Cons.prems(4) by simp
  from resolve_fixup_lands [OF r ne Cons.prems(3) site] obtain bs where b: "b"
    and bs: "length bs = fx_width f" "c = cs\<lparr>code := splice (code cs) (unat (fx_patch_addr f)) bs\<rparr>" and l: "lands c f"
    by blast
  have lc: "length (code c) = length (code cs)" using bs site by simp
  have out: "code c ! i = code cs ! i" if "i < length (code cs)" "i \<notin> fx_site f" for i
    using that bs site nth_splice_outside [of "unat (fx_patch_addr f)" bs "code cs" i] by (simp add: fx_site_def)
  have "resolve_list c fs = Some cs'" using Cons.prems(1) r b by simp
  then have IH: "length (code cs') = length (code c) \<and> linemap cs' = linemap c \<and> labelmap cs' = labelmap c \<and>
    (\<forall>f\<in>set fs. lands cs' f) \<and> (\<forall>i<length (code c). i \<notin> \<Union> (fx_site ` set fs) \<longrightarrow> code cs' ! i = code c ! i)"
    using Cons.prems lc by (intro Cons.IH) simp_all
  have disj: "i \<notin> \<Union> (fx_site ` set fs)" if "i \<in> fx_site f" for i
    using Cons.prems(5) that by auto
  have "fx_operand (code cs') f = fx_operand (code c) f"
    using IH disj by (intro fx_operand_cong) auto
  moreover have "fixup_target cs' f = fixup_target c f" using IH by (intro fixup_target_cong) simp_all
  ultimately have "lands cs' f = lands c f" by (simp only: lands_def)
  then have "lands cs' f" using l by simp
  then show ?case using IH lc out bs(2) by auto
qed

lemma resolve_fixup_in_bounds:
  assumes "length (code cs) \<le> BC_MAX_CODE" "unat (fx_patch_addr f) + fx_width f \<le> length (code cs)"
  obtains c b where "resolve_fixup cs f = Some (c, b)" "length (code c) = length (code cs)"
proof -
  have p: "\<exists>c. patch_bytes cs (fx_patch_addr f) bs = Some c \<and> length (code c) = length (code cs)"
    if "length bs = fx_width f" for bs
    using patch_bytes_in [OF assms(1), of "fx_patch_addr f" bs] assms(2) that by simp
  have "\<exists>r. resolve_fixup cs f = Some r \<and> length (code (fst r)) = length (code cs)"
  proof (cases "fixup_target cs f")
    case (Undefined msg)
    then show ?thesis by (simp add: resolve_fixup_def del: split_paired_Ex)
  next
    case (DataIndex d)
    then have "fx_is_data_index f \<noteq> 0" by (auto simp: fixup_target_def Let_def split: if_splits option.splits)
    then show ?thesis using p [of "le_enc 2 (unat d)"] DataIndex
      by (auto simp: resolve_fixup_def bc_patch_u16_def fx_width_def simp del: split_paired_Ex)
  next
    case (Address t)
    then have d: "fx_is_data_index f = 0" by (auto simp: fixup_target_def Let_def split: if_splits option.splits)
    let ?off = "t - (fx_patch_addr f + ucast (fx_size f))"
    show ?thesis using p [of "le_enc 2 (unat (ucast ?off :: u16))"] p [of "le_enc 4 (unat ?off)"]
        p [of "le_enc 4 (unat t)"] p [of "le_enc 2 (unat (ucast t :: u16))"] Address d
      by (auto simp: resolve_fixup_def Let_def bc_patch_u16_def bc_patch_i16_def bc_patch_u32_def fx_width_def
          simp del: split_paired_Ex split: if_splits)
  qed
  with that show ?thesis by fastforce
qed

lemma resolve_list_in_bounds:
  assumes "length (code cs) \<le> BC_MAX_CODE"
    and "\<forall>f\<in>set fs. unat (fx_patch_addr f) + fx_width f \<le> length (code cs)"
  shows "resolve_list cs fs \<noteq> None"
  using assms
proof (induction fs arbitrary: cs)
  case Nil
  then show ?case by simp
next
  case (Cons f fs)
  obtain c b where c: "resolve_fixup cs f = Some (c, b)" "length (code c) = length (code cs)"
    using resolve_fixup_in_bounds [of cs f] Cons.prems by auto
  then have "resolve_list c fs \<noteq> None" using Cons by (intro Cons.IH) simp_all
  with c show ?case by (cases b) simp_all
qed

text \<open>
  C20: forward references land. When every patch site was reserved inside the code and no two
  overlap, \<open>bc_resolve_fixups\<close> never writes outside the code; and when it ends without an error,
  every jump operand, read as the VM reads it (relative to the byte behind it, or absolute), gives
  the address of its line or label and every \<open>RESTORE\<close> operand its \<open>DATA\<close> index, while every byte
  that is no patch site keeps its value.
\<close>

theorem resolve_fixups_land:
  assumes "compiler_ok cs" "\<forall>f\<in>set (fixups cs). unat (fx_patch_addr f) + fx_width f \<le> length (code cs)"
    and "sorted_wrt (\<lambda>f g. fx_site f \<inter> fx_site g = {}) (fixups cs)"
  shows "\<exists>cs'. bc_resolve_fixups cs = Some cs' \<and> (\<not> has_error cs' \<longrightarrow>
    length (code cs') = length (code cs) \<and> (\<forall>f\<in>set (fixups cs). lands cs' f) \<and>
    (\<forall>i<length (code cs). i \<notin> \<Union> (fx_site ` set (fixups cs)) \<longrightarrow> code cs' ! i = code cs ! i))"
proof -
  have len: "length (code cs) \<le> BC_MAX_CODE" using assms(1) by (simp add: compiler_ok_def)
  obtain cs' where r: "resolve_list cs (fixups cs) = Some cs'"
    using resolve_list_in_bounds [OF len assms(2)] by blast
  then show ?thesis using resolve_list_lands [OF r _ len assms(2,3)] by (auto simp: bc_resolve_fixups_def)
qed

text \<open>A \<open>JMP\<close> to line 20 with 9 bytes of code, the line at offset 8.\<close>

definition jump_program :: BCCompiler where
  "jump_program = empty_compiler\<lparr>code := [OP_JMP, 0, 0, 1, 1, 1, 1, 1, OP_END],
     linemap := [\<lparr>lm_lineno = 10, lm_offset = 0\<rparr>, \<lparr>lm_lineno = 20, lm_offset = 8\<rparr>],
     fixups := [\<lparr>fx_patch_addr = 1, fx_target_line = 20, fx_target_label = -1, fx_size = 2,
       fx_is_relative = 1, fx_is_data_index = 0\<rparr>]\<rparr>"

theorem resolve_fixups_land_witness:
  "\<exists>cs'. bc_resolve_fixups jump_program = Some cs' \<and> code cs' = [OP_JMP, 5, 0, 1, 1, 1, 1, 1, OP_END] \<and>
     lands cs' (hd (fixups jump_program))"
proof -
  have ok: "compiler_ok jump_program"
    by (simp add: jump_program_def compiler_ok_def limits empty_compiler_def bc_compiler_init_def)
  have enc: "le_enc 2 5 = [5, 0]" by (simp add: numeral_2_eq_2)
  have r: "bc_resolve_fixups jump_program = Some (jump_program\<lparr>code := [OP_JMP, 5, 0, 1, 1, 1, 1, 1, OP_END]\<rparr>)"
    by (simp add: bc_resolve_fixups_def jump_program_def resolve_fixup_def fixup_target_def bc_linemap_lookup_def
        empty_compiler_def bc_compiler_init_def bc_patch_i16_def patch_bytes_def splice_def enc)
  have "\<not> has_error (jump_program\<lparr>code := [OP_JMP, 5, 0, 1, 1, 1, 1, 1, OP_END]\<rparr>)"
    by (simp add: jump_program_def empty_compiler_def bc_compiler_init_def)
  then show ?thesis using resolve_fixups_land [OF ok] r
    by (simp add: jump_program_def fx_width_def)
qed

section \<open>Symbol tables\<close>

text \<open>
  What the compiler expects of a table of names: a lookup that ignores case, and an insertion that
  gives a fresh name an index of its own and disturbs no other name.
\<close>

locale symbol_table =
  fixes inv :: "'s \<Rightarrow> bool" and find :: "'s \<Rightarrow> cstr \<Rightarrow> nat option"
    and add :: "'s \<Rightarrow> cstr \<Rightarrow> 's \<times> nat option" and ok_name :: "cstr \<Rightarrow> bool"
  assumes find_same: "same_name m n \<Longrightarrow> find s m = find s n"
    and find_inj: "find s m = Some i \<Longrightarrow> find s n = Some i \<Longrightarrow> same_name m n"
    and add_inv: "inv s \<Longrightarrow> add s n = (s', r) \<Longrightarrow> inv s'"
    and add_find: "inv s \<Longrightarrow> ok_name n \<Longrightarrow> find s n = None \<Longrightarrow> add s n = (s', Some i) \<Longrightarrow> find s' n = Some i"
    and add_keep: "inv s \<Longrightarrow> find s m = Some i \<Longrightarrow> add s n = (s', r) \<Longrightarrow> find s' m = Some i"
begin

definition resolve :: "'s \<Rightarrow> cstr \<Rightarrow> 's \<times> nat option" where
  "resolve s n = (case find s n of Some i \<Rightarrow> (s, Some i) | None \<Rightarrow> add s n)"

lemma resolve_inv: "inv s \<Longrightarrow> resolve s n = (s', r) \<Longrightarrow> inv s'"
  by (auto simp: resolve_def dest: add_inv split: option.splits)

lemma resolve_find: "inv s \<Longrightarrow> ok_name n \<Longrightarrow> resolve s n = (s', Some i) \<Longrightarrow> find s' n = Some i"
  by (auto simp: resolve_def dest: add_find split: option.splits)

lemma resolve_keep: "inv s \<Longrightarrow> find s m = Some i \<Longrightarrow> resolve s n = (s', r) \<Longrightarrow> find s' m = Some i"
  by (auto simp: resolve_def dest: add_keep split: option.splits)

lemma resolve_again: "find s n = Some i \<Longrightarrow> resolve s n = (s, Some i)"
  by (simp add: resolve_def)

lemma resolve_two:
  assumes "inv s" "ok_name n" "ok_name m" "resolve s n = (s1, Some i)" "resolve s1 m = (s2, Some j)"
  shows "find s2 n = Some i" "find s2 m = Some j" "i = j \<longleftrightarrow> same_name n m"
proof -
  have i1: "inv s1" by (rule resolve_inv [OF assms(1,4)])
  show a: "find s2 n = Some i"
    by (rule resolve_keep [OF i1 resolve_find [OF assms(1,2,4)] assms(5)])
  show b: "find s2 m = Some j" by (rule resolve_find [OF i1 assms(3,5)])
  show "i = j \<longleftrightarrow> same_name n m"
  proof
    assume "i = j"
    then show "same_name n m" using a b find_inj by blast
  next
    assume "same_name n m"
    then have "find s2 n = find s2 m" by (rule find_same)
    then show "i = j" using a b by simp
  qed
qed

end

definition ok_name :: "cstr \<Rightarrow> bool" where
  "ok_name n \<longleftrightarrow> length n \<le> MAXVARLEN \<and> 0 \<notin> set n"

lemma stored_name_ok: "ok_name n \<Longrightarrow> stored_name MAXVARLEN n = n"
  by (auto simp: ok_name_def stored_name_def c_strlen_bytes_def takeWhile_eq_all_conv)

lemma find_name_same:
  assumes "same_name m n"
  shows "find_index (\<lambda>s. same_name (nm s) m) xs = find_index (\<lambda>s. same_name (nm s) n) xs"
proof -
  have "(\<lambda>s. same_name (nm s) m) = (\<lambda>s. same_name (nm s) n)"
    using assms same_name_trans same_name_sym by blast
  then show ?thesis by simp
qed

lemma find_name_inj:
  assumes "find_index (\<lambda>s. same_name (nm s) m) xs = Some i" "find_index (\<lambda>s. same_name (nm s) n) xs = Some i"
  shows "same_name m n"
  using find_index_Some [OF assms(1)] find_index_Some [OF assms(2)] same_name_sym same_name_trans by blast

text \<open>The three tables of names as lookups with an optional index.\<close>

definition slot_find :: "BCCompiler \<Rightarrow> cstr \<Rightarrow> nat option" where
  "slot_find cs n = find_index (\<lambda>s. same_name (slot_name s) n) (slots cs)"

definition slot_add :: "u8 \<Rightarrow> u8 \<Rightarrow> BCCompiler \<Rightarrow> cstr \<Rightarrow> BCCompiler \<times> nat option" where
  "slot_add ty arr cs n =
     (let (cs', w) = bc_add_slot cs n ty arr in (cs', if w = 0xFFFF then None else Some (unat w)))"

definition local_find :: "BCCompiler \<Rightarrow> cstr \<Rightarrow> nat option" where
  "local_find cs n = find_index (\<lambda>l. same_name (loc_name l) n) (cs_locals cs)"

definition local_add :: "u8 \<Rightarrow> u8 \<Rightarrow> BCCompiler \<Rightarrow> cstr \<Rightarrow> BCCompiler \<times> nat option" where
  "local_add ty arr cs n =
     (let (cs', i) = bc_add_local cs n ty arr in (cs', if i < 0 then None else Some (nat i)))"

lemma slot_index_word:
  assumes "length (slots cs) \<le> BC_MAX_SLOTS" "i < length (slots cs)"
  shows "unat (of_nat i :: u16) = i" "(of_nat i :: u16) \<noteq> 0xFFFF"
proof -
  have i: "i < 512" using assms by (simp add: BC_MAX_SLOTS_def)
  then show u: "unat (of_nat i :: u16) = i" by (simp add: unat_of_nat)
  show "(of_nat i :: u16) \<noteq> 0xFFFF"
  proof
    assume "(of_nat i :: u16) = 0xFFFF"
    then have "unat (of_nat i :: u16) = unat (0xFFFF :: u16)" by simp
    then show False using u i by simp
  qed
qed

lemma bc_find_slot_conv:
  assumes "length (slots cs) \<le> BC_MAX_SLOTS"
  shows "bc_find_slot cs n = (case slot_find cs n of Some i \<Rightarrow> of_nat i | None \<Rightarrow> 0xFFFF)"
    "bc_find_slot cs n = 0xFFFF \<longleftrightarrow> slot_find cs n = None"
proof -
  show c: "bc_find_slot cs n = (case slot_find cs n of Some i \<Rightarrow> of_nat i | None \<Rightarrow> 0xFFFF)"
    by (simp add: bc_find_slot_def slot_find_def)
  show "bc_find_slot cs n = 0xFFFF \<longleftrightarrow> slot_find cs n = None"
    using slot_index_word(2) [OF assms] find_index_Some
    by (auto simp: c slot_find_def split: option.splits)
qed

interpretation slot_tab: symbol_table compiler_ok slot_find "slot_add ty arr" ok_name
proof
  show "slot_find s m = slot_find s n" if "same_name m n" for m n s
    unfolding slot_find_def by (rule find_name_same [OF that])
  show "same_name m n" if "slot_find s m = Some i" "slot_find s n = Some i" for s m n i
    using that unfolding slot_find_def by (rule find_name_inj)
  show "compiler_ok s'" if "compiler_ok s" "slot_add ty arr s n = (s', r)" for s n s' r
    using that table_ops_ok(1) [of s n ty arr] by (auto simp: slot_add_def split: prod.splits)
  show "slot_find s' n = Some i"
    if "compiler_ok s" "ok_name n" "slot_find s n = None" "slot_add ty arr s n = (s', Some i)" for s n s' i
    using that slot_index_word(1) [of s']
    by (auto simp: slot_add_def bc_add_slot_def slot_find_def find_index_append stored_name_ok compiler_ok_def
        split: if_splits)
  show "slot_find s' m = Some i"
    if "compiler_ok s" "slot_find s m = Some i" "slot_add ty arr s n = (s', r)" for s m i n s' r
    using that by (auto simp: slot_add_def bc_add_slot_def slot_find_def split: if_splits)
qed

interpretation local_tab: symbol_table compiler_ok local_find "local_add ty arr" ok_name
proof
  show "local_find s m = local_find s n" if "same_name m n" for m n s
    unfolding local_find_def by (rule find_name_same [OF that])
  show "same_name m n" if "local_find s m = Some i" "local_find s n = Some i" for s m n i
    using that unfolding local_find_def by (rule find_name_inj)
  show "compiler_ok s'" if "compiler_ok s" "local_add ty arr s n = (s', r)" for s n s' r
    using that table_ops_ok(2) [of s n ty arr] by (auto simp: local_add_def split: prod.splits)
  show "local_find s' n = Some i"
    if "compiler_ok s" "ok_name n" "local_find s n = None" "local_add ty arr s n = (s', Some i)" for s n s' i
    using that
    by (auto simp: local_add_def bc_add_local_def local_find_def find_index_append stored_name_ok split: if_splits)
  show "local_find s' m = Some i"
    if "compiler_ok s" "local_find s m = Some i" "local_add ty arr s n = (s', r)" for s m i n s' r
    using that by (auto simp: local_add_def bc_add_local_def local_find_def split: if_splits)
qed

text \<open>\<open>source_resolve_global\<close> and \<open>source_resolve_var\<close> of \<open>bc_source.c\<close>; the flag is \<open>is_local\<close>.\<close>

definition source_resolve_global :: "BCCompiler \<Rightarrow> cstr \<Rightarrow> u8 \<Rightarrow> bool \<Rightarrow> BCCompiler \<times> u16" where
  "source_resolve_global cs name ty create =
     (let slot = bc_find_slot cs name in
      if slot \<noteq> 0xFFFF then (cs, slot)
      else if \<not> create then (cs, 0xFFFF)
      else bc_add_slot cs name ty 0)"

definition source_resolve_var :: "BCCompiler \<Rightarrow> cstr \<Rightarrow> u8 \<Rightarrow> bool \<Rightarrow> BCCompiler \<times> u16 \<times> bool" where
  "source_resolve_var cs name ty create =
     (let loc = (if 0 \<le> current_subfun cs then bc_find_local cs name else -1) in
      if 0 \<le> loc then
        (if loc_is_static (cs_locals cs ! nat loc) \<noteq> 0
         then (cs, loc_static_slot (cs_locals cs ! nat loc), False)
         else (cs, word_of_int loc, True))
      else let (cs', slot) = source_resolve_global cs name ty create in (cs', slot, False))"

lemma source_resolve_global_conv:
  assumes "compiler_ok cs" "source_resolve_global cs n ty True = (cs1, w)" "w \<noteq> 0xFFFF"
  shows "slot_tab.resolve ty 0 cs n = (cs1, Some (unat w))"
proof (cases "slot_find cs n")
  case None
  then show ?thesis
    using assms bc_find_slot_conv(2) [of cs n] by (auto simp: source_resolve_global_def slot_tab.resolve_def slot_add_def compiler_ok_def)
next
  case (Some i)
  have l: "length (slots cs) \<le> BC_MAX_SLOTS" using assms(1) by (simp add: compiler_ok_def)
  have "i < length (slots cs)" using find_index_Some [of _ "slots cs" i] Some by (auto simp: slot_find_def)
  then have u: "unat (of_nat i :: u16) = i" by (rule slot_index_word(1) [OF l])
  have "bc_find_slot cs n = of_nat i" using bc_find_slot_conv(1) [OF l, of n] Some by simp
  moreover from this have "bc_find_slot cs n \<noteq> 0xFFFF" using bc_find_slot_conv(2) [OF l, of n] Some by simp
  ultimately have "cs1 = cs" "w = of_nat i" using assms(2) by (simp_all add: source_resolve_global_def)
  then show ?thesis using u Some by (simp add: slot_tab.resolve_def)
qed

text \<open>
  C21: a global name has one slot for good. Resolving two names of at most 32 characters gives the
  same slot exactly when they differ in case only, and a later resolution of the first name, with any
  type and whether or not it may create a slot, finds the slot it got first and changes nothing.
\<close>

theorem resolve_global_stable:
  assumes "compiler_ok cs" "ok_name n" "ok_name m"
    and "source_resolve_global cs n ty True = (cs1, i)" "i \<noteq> 0xFFFF"
    and "source_resolve_global cs1 m ty' True = (cs2, j)" "j \<noteq> 0xFFFF"
  shows "(i = j \<longleftrightarrow> same_name n m) \<and> source_resolve_global cs2 n ty'' create = (cs2, i)"
proof -
  have r1: "slot_tab.resolve ty 0 cs n = (cs1, Some (unat i))"
    by (rule source_resolve_global_conv [OF assms(1,4,5)])
  have ok1: "compiler_ok cs1" by (rule slot_tab.resolve_inv [OF assms(1) r1])
  have r2: "slot_tab.resolve ty' 0 cs1 m = (cs2, Some (unat j))"
    by (rule source_resolve_global_conv [OF ok1 assms(6,7)])
  have ok2: "compiler_ok cs2" by (rule slot_tab.resolve_inv [OF ok1 r2])
  have f: "slot_find cs1 n = Some (unat i)" by (rule slot_tab.resolve_find [OF assms(1,2) r1])
  have f2: "slot_find cs2 n = Some (unat i)" by (rule slot_tab.resolve_keep [OF ok1 f r2])
  have g2: "slot_find cs2 m = Some (unat j)" by (rule slot_tab.resolve_find [OF ok1 assms(3) r2])
  have "i = j \<longleftrightarrow> same_name n m"
    using slot_tab.find_inj [of cs2 n "unat i" m] slot_tab.find_same [of n m cs2] f2 g2
    by (auto simp: word_unat_eq_iff)
  moreover have "bc_find_slot cs2 n = i"
    using bc_find_slot_conv(1) [of cs2 n] ok2 f2 by (simp add: compiler_ok_def)
  ultimately show ?thesis using assms(5) by (simp add: source_resolve_global_def)
qed

text \<open>Resolving \<open>ab%\<close>, then \<open>C%\<close>, then \<open>AB%\<close> again.\<close>

theorem resolve_global_stable_witness:
  "let (cs1, i) = source_resolve_global empty_compiler [97, 98, 37] T_INT True;
       (cs2, j) = source_resolve_global cs1 [67, 37] T_INT True
   in i \<noteq> j \<and> source_resolve_global cs2 [97, 98, 37] T_STR False = (cs2, i)"
proof -
  let ?r1 = "source_resolve_global empty_compiler [97, 98, 37] T_INT True"
  let ?r2 = "source_resolve_global (fst ?r1) [67, 37] T_INT True"
  have r1: "snd ?r1 = 0" "slots (fst ?r1) = slots (fst (bc_add_slot empty_compiler [97, 98, 37] T_INT 0))"
    by (simp_all add: source_resolve_global_def bc_find_slot_def empty_compiler_def bc_compiler_init_def bc_add_slot_def limits)
  have r2: "snd ?r2 = 1"
    by (simp add: source_resolve_global_def bc_find_slot_def empty_compiler_def bc_compiler_init_def bc_add_slot_def
        limits stored_name_def c_strlen_bytes_def same_name_def tolower8_def)
  have "\<not> same_name [97, 98, 37] [67, 37]" by (simp add: same_name_def)
  then show ?thesis
    using resolve_global_stable [of empty_compiler "[97, 98, 37]" "[67, 37]" T_INT "fst ?r1" 0 T_INT "fst ?r2" 1 T_STR False]
      r1 r2 by (cases ?r1; cases ?r2) (simp add: ok_name_def limits)
qed

end
