(* ===== verification/SrcEmit.thy ===== *)
theory SrcEmit
  imports Compiler Bytecode
begin

text \<open>
  Code generation of the source compiler (\<open>runtime/vm/bc_source.c\<close>): editing the code buffer, the
  fused instructions, jumps, and the operator layers of expressions. The input text is the rest of a
  C string, its terminator being the end of the list. \<open>bc_opt_level\<close> is the argument \<open>lvl\<close>.
\<close>

section \<open>Editing the code\<close>

definition source_insert_byte :: "BCCompiler \<Rightarrow> nat \<Rightarrow> u8 \<Rightarrow> BCCompiler" where
  "source_insert_byte cs pos b =
     (if length (code cs) \<ge> BC_MAX_CODE
      then bc_set_error cs (''Bytecode overflow ('' @ dec_nat BC_MAX_CODE @ '' bytes)'')
      else if pos > length (code cs) then bc_set_error cs ''Internal source compiler error''
      else cs\<lparr>code := take pos (code cs) @ b # drop pos (code cs)\<rparr>)"

definition source_delete_bytes :: "BCCompiler \<Rightarrow> nat \<Rightarrow> nat \<Rightarrow> BCCompiler" where
  "source_delete_bytes cs pos count =
     (if count = 0 then cs
      else if pos + count > length (code cs) then bc_set_error cs ''Internal source compiler error''
      else cs\<lparr>code := take pos (code cs) @ drop (pos + count) (code cs)\<rparr>)"

section \<open>Fused instructions\<close>

text \<open>The exponent of a power of two, or \<open>-1\<close>; the loop shifts at most 63 times.\<close>

fun pow2_loop :: "nat \<Rightarrow> nat \<Rightarrow> int \<Rightarrow> int" where
  "pow2_loop 0 v bits = (if v = 1 then bits else -1)"
| "pow2_loop (Suc n) v bits = (if even v then pow2_loop n (v div 2) (bits + 1) else if v = 1 then bits else -1)"

definition source_power_of_two_bits_i64 :: "i64 \<Rightarrow> int" where
  "source_power_of_two_bits_i64 v = (if sint v \<le> 0 then -1 else pow2_loop 63 (unat v) 0)"

definition code_i64 :: "BCCompiler \<Rightarrow> nat \<Rightarrow> i64" where
  "code_i64 cs pos = of_nat (le_dec (take 8 (drop pos (code cs))))"

definition same_load :: "BCCompiler \<Rightarrow> u8 \<Rightarrow> nat \<Rightarrow> nat \<Rightarrow> bool" where
  "same_load cs op a b \<longleftrightarrow> code cs ! a = op \<and> code cs ! b = op \<and> take 2 (drop (a + 1) (code cs)) = take 2 (drop (b + 1) (code cs))"

text \<open>\<open>a * b \ 2^n\<close>: the multiplication is taken out, the divisor becomes the shift count.\<close>

definition source_try_fuse_mulshr :: "int \<Rightarrow> BCCompiler \<Rightarrow> u8 \<Rightarrow> u8 \<Rightarrow> nat \<Rightarrow> nat \<Rightarrow> bool \<times> BCCompiler" where
  "source_try_fuse_mulshr lvl cs left right expr_start right_start =
     (if lvl < 1 \<or> left \<noteq> T_INT \<or> right \<noteq> T_INT \<or> right_start < 1 \<or> right_start + 9 \<noteq> length (code cs) then (False, cs)
      else if code cs ! (right_start - 1) \<noteq> OP_MUL_I \<or> code cs ! right_start \<noteq> OP_PUSH_INT then (False, cs)
      else let bits = source_power_of_two_bits_i64 (code_i64 cs (right_start + 1)) in
        if bits < 0 then (False, cs)
        else let mul_pos = right_start - 1; mul_len = mul_pos - expr_start;
                 cs1 = source_delete_bytes cs mul_pos 1 in
          if has_error cs1 then (False, cs1)
          else let cs2 = cs1\<lparr>code := splice (code cs1) mul_pos (OP_PUSH_INT # le_enc 8 (nat bits))\<rparr> in
            if mul_len = 6 \<and> same_load cs2 OP_LOAD_I expr_start (expr_start + 3) \<or>
               mul_len = 6 \<and> same_load cs2 OP_LOAD_LOCAL_I expr_start (expr_start + 3)
            then let cs3 = source_delete_bytes cs2 (expr_start + 3) 3 in
              if has_error cs3 then (False, cs3) else (True, bc_emit_byte cs3 OP_MATH_SQRDIV)
            else (True, bc_emit_byte cs2 OP_MATH_MULDIV))"

definition source_is_same_simple_int_load :: "BCCompiler \<Rightarrow> nat \<Rightarrow> nat \<Rightarrow> nat \<Rightarrow> nat \<Rightarrow> bool" where
  "source_is_same_simple_int_load cs start_a end_a start_b end_b \<longleftrightarrow>
     end_a - start_a = end_b - start_b \<and> end_a - start_a = 3 \<and>
     (same_load cs OP_LOAD_I start_a start_b \<or> same_load cs OP_LOAD_LOCAL_I start_a start_b)"

definition source_try_fuse_mulshradd :: "int \<Rightarrow> BCCompiler \<Rightarrow> u8 \<Rightarrow> u8 \<Rightarrow> nat \<Rightarrow> char \<Rightarrow> bool \<times> BCCompiler" where
  "source_try_fuse_mulshradd lvl cs left right right_start op =
     (if lvl < 1 \<or> op \<noteq> CHR ''+'' \<or> left \<noteq> T_INT \<or> right \<noteq> T_INT \<or> right_start < 1 \<or>
         get_idx (code cs) (right_start - 1) \<noteq> Some OP_MATH_MULSHR then (False, cs)
      else let cs1 = source_delete_bytes cs (right_start - 1) 1 in
        if has_error cs1 then (False, cs1) else (True, bc_emit_byte cs1 OP_MATH_MULSHRADD))"

text \<open>\<open>y = x\<close>: a load that is the whole expression becomes a move.\<close>

definition mov_kind :: "u8 \<Rightarrow> u8 \<Rightarrow> (u8 \<times> bool) option" where
  "mov_kind vtype op =
     (if vtype = T_INT then
        (if op = OP_LOAD_LOCAL_I then Some (1, True) else if op = OP_LOAD_I then Some (1, False) else None)
      else if vtype = T_NBR then
        (if op = OP_LOAD_LOCAL_F then Some (2, True) else if op = OP_LOAD_F then Some (2, False) else None)
      else if vtype = T_STR then
        (if op = OP_LOAD_LOCAL_S then Some (3, True) else if op = OP_LOAD_S then Some (3, False) else None)
      else None)"

definition source_try_fuse_mov_assignment :: "int \<Rightarrow> BCCompiler \<Rightarrow> nat \<Rightarrow> u16 \<Rightarrow> bool \<Rightarrow> u8 \<Rightarrow> bool \<times> BCCompiler" where
  "source_try_fuse_mov_assignment lvl cs expr_start dst_slot dst_is_local vtype =
     (let dst_raw = (if dst_is_local then dst_slot OR 0x8000 else dst_slot) in
      if lvl < 1 \<or> length (code cs) \<noteq> expr_start + 3 then (False, cs)
      else case mov_kind vtype (code cs ! expr_start) of
        None \<Rightarrow> (False, cs)
      | Some (kind, src_is_local) \<Rightarrow>
          let src_slot = of_nat (le_dec (take 2 (drop (expr_start + 1) (code cs))));
              src_raw = (if src_is_local then src_slot OR 0x8000 else src_slot);
              cs1 = source_delete_bytes cs expr_start 3 in
          if has_error cs1 then (False, cs1)
          else (True, bc_emit_u16 (bc_emit_u16 (bc_emit_byte (bc_emit_byte cs1 OP_MOV_VAR) kind) src_raw) dst_raw))"

section \<open>Jumps\<close>

text \<open>The relation of the fused jump: the comparison itself for \<open>JNZ\<close>, its opposite for \<open>JZ\<close>.\<close>

definition source_jcmp_relation :: "u8 \<Rightarrow> u8 \<Rightarrow> (u8 \<times> u8) option" where
  "source_jcmp_relation compare_op branch_op =
     (let pick = (\<lambda>j t f. Some (j, if branch_op = OP_JNZ then t else f)) in
      if branch_op \<noteq> OP_JZ \<and> branch_op \<noteq> OP_JNZ then None
      else if compare_op = OP_EQ_I then pick OP_JCMP_I 1 2
      else if compare_op = OP_NE_I then pick OP_JCMP_I 2 1
      else if compare_op = OP_LT_I then pick OP_JCMP_I 3 6
      else if compare_op = OP_GT_I then pick OP_JCMP_I 4 5
      else if compare_op = OP_LE_I then pick OP_JCMP_I 5 4
      else if compare_op = OP_GE_I then pick OP_JCMP_I 6 3
      else if compare_op = OP_EQ_F then pick OP_JCMP_F 1 2
      else if compare_op = OP_NE_F then pick OP_JCMP_F 2 1
      else if compare_op = OP_LT_F then pick OP_JCMP_F 3 6
      else if compare_op = OP_GT_F then pick OP_JCMP_F 4 5
      else if compare_op = OP_LE_F then pick OP_JCMP_F 5 4
      else if compare_op = OP_GE_F then pick OP_JCMP_F 6 3
      else None)"

text \<open>The opcode looked at is the last byte of the code, whatever instruction it belongs to.\<close>

definition last_compare :: "int \<Rightarrow> BCCompiler \<Rightarrow> u8 \<Rightarrow> (u8 \<times> u8) option" where
  "last_compare lvl cs branch_op =
     (if lvl \<ge> 1 \<and> code cs \<noteq> [] then source_jcmp_relation (last (code cs)) branch_op else None)"

definition source_emit_jmp_placeholder :: "int \<Rightarrow> BCCompiler \<Rightarrow> u8 \<Rightarrow> BCCompiler \<times> u32" where
  "source_emit_jmp_placeholder lvl cs opcode =
     (case last_compare lvl cs opcode of
        Some (jcmp_op, rel) \<Rightarrow>
          let cs1 = source_delete_bytes cs (length (code cs) - 1) 1 in
          if has_error cs1 then (cs1, 0)
          else let cs2 = bc_emit_byte (bc_emit_byte cs1 jcmp_op) rel in (bc_emit_i16 cs2 0, of_nat (length (code cs2)))
      | None \<Rightarrow> let cs1 = bc_emit_byte cs opcode in (bc_emit_i16 cs1 0, of_nat (length (code cs1))))"

definition source_patch_jmp_here :: "BCCompiler \<Rightarrow> u32 \<Rightarrow> BCCompiler option" where
  "source_patch_jmp_here cs patch_addr =
     bc_patch_i16 cs patch_addr (ucast (of_nat (length (code cs)) - (patch_addr + 2) :: u32))"

definition source_emit_rel_jump :: "int \<Rightarrow> BCCompiler \<Rightarrow> u8 \<Rightarrow> u32 \<Rightarrow> BCCompiler" where
  "source_emit_rel_jump lvl cs opcode target_addr =
     (case last_compare lvl cs opcode of
        Some (jcmp_op, rel) \<Rightarrow>
          let cs1 = source_delete_bytes cs (length (code cs) - 1) 1 in
          if has_error cs1 then cs1
          else let cs2 = bc_emit_byte (bc_emit_byte cs1 jcmp_op) rel in
            bc_emit_i16 cs2 (ucast (target_addr - (of_nat (length (code cs2)) + 2) :: u32))
      | None \<Rightarrow> let cs1 = bc_emit_byte cs opcode in
          bc_emit_i16 cs1 (ucast (target_addr - (of_nat (length (code cs1)) + 2) :: u32)))"

definition source_emit_abs_jump :: "BCCompiler \<Rightarrow> u8 \<Rightarrow> int \<Rightarrow> BCCompiler option" where
  "source_emit_abs_jump cs opcode lineno =
     (let cs1 = bc_emit_byte cs opcode; patch = of_nat (length (code cs1)); cs2 = bc_emit_u32 cs1 0;
          target = bc_linemap_lookup cs2 (word_of_int lineno) in
      if target \<noteq> 0xFFFFFFFF then bc_patch_u32 cs2 patch target
      else Some (bc_add_fixup_line cs2 patch lineno 4 0))"

section \<open>Scanning\<close>

definition source_skip_space :: "cstr \<Rightarrow> cstr" where
  "source_skip_space p = dropWhile (\<lambda>c. c = 0x20 \<or> c = 0x09) p"

definition bytes_of :: "string \<Rightarrow> cstr" where
  "bytes_of s = map (\<lambda>c. of_nat (of_char c)) s"

text \<open>The text behind the keyword, when it stands at \<open>p\<close> and no name goes on behind it.\<close>

definition source_keyword :: "cstr \<Rightarrow> cstr \<Rightarrow> cstr option" where
  "source_keyword p kw =
     (let next = at (drop (length kw) p) in
      if length p < length kw \<or> \<not> same_name (take (length kw) p) kw then None
      else if isnamechar next \<or> is_suffix_char next then None
      else Some (drop (length kw) p))"

definition source_line_empty_or_comment :: "cstr \<Rightarrow> bool" where
  "source_line_empty_or_comment p0 =
     (let p = source_skip_space p0 in
      at p = 0 \<or> at p = 0x27 \<or>
      length p \<ge> 3 \<and> same_name (take 3 p) [0x52, 0x45, 0x4D] \<and> \<not> isnamechar (at (drop 3 p)))"

definition source_statement_end :: "BCCompiler \<Rightarrow> cstr \<Rightarrow> BCCompiler" where
  "source_statement_end cs p0 =
     (let p = source_skip_space p0 in
      if at p \<noteq> 0 \<and> at p \<noteq> 0x27 then bc_set_error cs (''Unsupported source syntax near: '' @ cstr_string (take 24 p)) else cs)"

definition source_parse_line_number :: "cstr \<Rightarrow> (u32 \<times> cstr) option" where
  "source_parse_line_number p0 =
     (let p = source_skip_space p0 in
      if \<not> isdigit8 (at p) then None
      else Some (fold (\<lambda>c n. n * 10 + (ucast c - 0x30)) (takeWhile isdigit8 p) 0, dropWhile isdigit8 p))"

text \<open>The name, its type by suffix (0 if none) and the rest. Names keep at most 32 characters, the suffix included.\<close>

definition source_parse_varname :: "cstr \<Rightarrow> (cstr \<times> u8 \<times> cstr) option" where
  "source_parse_varname p0 =
     (let p = source_skip_space p0 in
      if \<not> isnamestart (at p) then None
      else let len = length (takeWhile isnamechar p); c = at (drop len p);
               name = take MAXVARLEN (take len p @ (if is_suffix_char c then [c] else []))
           in Some (name, if is_suffix_char c then bc_type_from_suffix c else 0,
                    drop (if is_suffix_char c then len + 1 else len) p))"

definition source_name_eq :: "cstr \<Rightarrow> cstr \<Rightarrow> bool" where
  "source_name_eq name want \<longleftrightarrow> length name = length want \<and> same_name name want"

definition source_expect_char :: "BCCompiler \<Rightarrow> cstr \<Rightarrow> u8 \<Rightarrow> string \<Rightarrow> bool \<times> BCCompiler \<times> cstr" where
  "source_expect_char cs p0 ch msg =
     (let p = source_skip_space p0 in
      if at p \<noteq> ch then (False, bc_set_error cs msg, p) else (True, cs, drop 1 p))"

section \<open>Conversions, arrays and stores\<close>

definition source_emit_int_conversion :: "BCCompiler \<Rightarrow> u8 \<Rightarrow> BCCompiler" where
  "source_emit_int_conversion cs ty =
     (if ty = T_NBR then bc_emit_byte cs OP_CVT_F2I
      else if ty \<noteq> T_INT then bc_set_error cs ''Expected numeric expression'' else cs)"

definition source_emit_float_conversion :: "BCCompiler \<Rightarrow> u8 \<Rightarrow> BCCompiler" where
  "source_emit_float_conversion cs ty =
     (if ty = T_INT then bc_emit_byte cs OP_CVT_I2F
      else if ty \<noteq> T_NBR then bc_set_error cs ''Expected numeric expression'' else cs)"

definition source_emit_store_converted :: "BCCompiler \<Rightarrow> u16 \<Rightarrow> u8 \<Rightarrow> u8 \<Rightarrow> bool \<Rightarrow> BCCompiler" where
  "source_emit_store_converted cs slot vtype etype is_local =
     (let cs1 = (if vtype AND T_INT \<noteq> 0 \<and> etype AND T_NBR \<noteq> 0 then bc_emit_byte cs OP_CVT_F2I
                 else if vtype AND T_NBR \<noteq> 0 \<and> etype AND T_INT \<noteq> 0 then bc_emit_byte cs OP_CVT_I2F else cs)
      in bc_emit_store_var cs1 slot vtype is_local)"

definition source_emit_default_store :: "BCCompiler \<Rightarrow> u16 \<Rightarrow> u8 \<Rightarrow> bool \<Rightarrow> BCCompiler" where
  "source_emit_default_store cs slot vtype is_local =
     (if vtype = T_STR then
        let (cs1, idx) = bc_add_constant_string cs [] in
        bc_emit_store_var (bc_emit_u16 (bc_emit_byte cs1 OP_PUSH_STR) idx) slot vtype is_local
      else source_emit_store_converted (bc_emit_byte cs OP_PUSH_ZERO) slot vtype T_INT is_local)"

definition arr_vty :: "u8 \<Rightarrow> vty" where
  "arr_vty ty = (if ty = T_INT then TI else if ty = T_STR then TS else TF)"

definition source_emit_load_array :: "BCCompiler \<Rightarrow> u16 \<Rightarrow> u8 \<Rightarrow> bool \<Rightarrow> nat \<Rightarrow> BCCompiler" where
  "source_emit_load_array cs slot ty is_local ndim =
     bc_emit_byte (bc_emit_u16 (bc_emit_byte cs (code_LOAD_ARR (if is_local then Local else Global) (arr_vty ty))) slot) (of_nat ndim)"

definition source_emit_store_array :: "BCCompiler \<Rightarrow> u16 \<Rightarrow> u8 \<Rightarrow> bool \<Rightarrow> nat \<Rightarrow> BCCompiler" where
  "source_emit_store_array cs slot ty is_local ndim =
     bc_emit_byte (bc_emit_u16 (bc_emit_byte cs (code_STORE_ARR (if is_local then Local else Global) (arr_vty ty))) slot) (of_nat ndim)"

section \<open>Operators\<close>

definition is_str :: "u8 \<Rightarrow> bool" where
  "is_str ty \<longleftrightarrow> ty AND T_STR \<noteq> 0"

text \<open>\<open>if (left == from) source_insert_byte(cs, right_start, cvt); if (right == from) bc_emit_byte(cs, cvt);\<close>\<close>

definition convert_both :: "BCCompiler \<Rightarrow> u8 \<Rightarrow> u8 \<Rightarrow> nat \<Rightarrow> u8 \<Rightarrow> u8 \<Rightarrow> BCCompiler" where
  "convert_both cs left right right_start from_ty cvt =
     (let cs1 = (if left = from_ty then source_insert_byte cs right_start cvt else cs)
      in if right = from_ty then bc_emit_byte cs1 cvt else cs1)"

definition source_emit_numeric_binary :: "BCCompiler \<Rightarrow> u8 \<Rightarrow> u8 \<Rightarrow> nat \<Rightarrow> char \<Rightarrow> u8 \<times> BCCompiler" where
  "source_emit_numeric_binary cs left right right_start op =
     (if is_str left \<or> is_str right then
        (if op = CHR ''+'' \<and> is_str left \<and> is_str right then (T_STR, bc_emit_byte cs OP_ADD_S)
         else (0, bc_set_error cs ''Invalid string operator''))
      else if op = CHR ''/'' then
        (T_NBR, bc_emit_byte (convert_both cs left right right_start T_INT OP_CVT_I2F) OP_DIV_F)
      else if op = CHR 0x5C then
        (T_INT, bc_emit_byte (convert_both cs left right right_start T_NBR OP_CVT_F2I) OP_IDIV_I)
      else if op = CHR ''m'' then
        (T_INT, bc_emit_byte (convert_both cs left right right_start T_NBR OP_CVT_F2I) OP_MOD_I)
      else if left = T_NBR \<or> right = T_NBR then
        (let cs1 = convert_both cs left right right_start T_INT OP_CVT_I2F in
         if op = CHR ''+'' then (T_NBR, bc_emit_byte cs1 OP_ADD_F)
         else if op = CHR ''-'' then (T_NBR, bc_emit_byte cs1 OP_SUB_F)
         else if op = CHR ''*'' then (T_NBR, bc_emit_byte cs1 OP_MUL_F)
         else (0, bc_set_error cs1 ''Unsupported numeric operator''))
      else if op = CHR ''+'' then (T_INT, bc_emit_byte cs OP_ADD_I)
      else if op = CHR ''-'' then (T_INT, bc_emit_byte cs OP_SUB_I)
      else if op = CHR ''*'' then (T_INT, bc_emit_byte cs OP_MUL_I)
      else (0, bc_set_error cs ''Unsupported numeric operator''))"

text \<open>The comparison at \<open>p\<close>; \<open>=<\<close> and \<open>=>\<close> are accepted for \<open><=\<close> and \<open>>=\<close>.\<close>

definition source_match_compare :: "cstr \<Rightarrow> (rel \<times> cstr) option" where
  "source_match_compare p0 =
     (let p = source_skip_space p0; a = at p; b = at (drop 1 p) in
      if a = 0x3C \<and> b = 0x3E then Some (NE, drop 2 p)
      else if a = 0x3C \<and> b = 0x3D then Some (LE, drop 2 p)
      else if a = 0x3E \<and> b = 0x3D then Some (GE, drop 2 p)
      else if a = 0x3D \<and> b = 0x3C then Some (LE, drop 2 p)
      else if a = 0x3D \<and> b = 0x3E then Some (GE, drop 2 p)
      else if a = 0x3D then Some (EQ, drop 1 p)
      else if a = 0x3C then Some (LT, drop 1 p)
      else if a = 0x3E then Some (GT, drop 1 p)
      else None)"

definition source_emit_compare :: "BCCompiler \<Rightarrow> u8 \<Rightarrow> u8 \<Rightarrow> nat \<Rightarrow> rel \<Rightarrow> u8 \<times> BCCompiler" where
  "source_emit_compare cs left right right_start op =
     (if is_str left \<or> is_str right then
        (if \<not> is_str left \<or> \<not> is_str right then (0, bc_set_error cs ''Cannot compare string with numeric expression'')
         else (T_INT, bc_emit_byte cs (code_CMP TS op)))
      else if left = T_NBR \<or> right = T_NBR then
        (T_INT, bc_emit_byte (convert_both cs left right right_start T_INT OP_CVT_I2F) (code_CMP TF op))
      else (T_INT, bc_emit_byte cs (code_CMP TI op)))"

definition source_emit_int_binary :: "BCCompiler \<Rightarrow> u8 \<Rightarrow> u8 \<Rightarrow> nat \<Rightarrow> u8 \<Rightarrow> u8 \<times> BCCompiler" where
  "source_emit_int_binary cs left right right_start op =
     (let cs1 = (if left = T_NBR then source_insert_byte cs right_start OP_CVT_F2I
                 else if left \<noteq> T_INT then bc_set_error cs ''Expected numeric expression'' else cs);
          cs2 = (if right = T_NBR then bc_emit_byte cs1 OP_CVT_F2I
                 else if right \<noteq> T_INT then bc_set_error cs1 ''Expected numeric expression'' else cs1)
      in (T_INT, bc_emit_byte cs2 op))"

end
