(* ===== verification/MStr.thy ===== *)
theory MStr
  imports Prelude "HOL-Library.List_Lexorder"
begin

text \<open>
  MMBasic strings in memory (\<open>core/mmbasic/MMBasic.c\<close>): byte 0 is the length, the bytes follow, no
  terminator. The routines are translated over a byte store given by \<open>rd\<close> and \<open>wr\<close>; \<open>None\<close> stands for
  an access to memory that is not there. The locale \<open>byte_store\<close> holds what a store must satisfy and
  what the routines then do; the VM's memory is an instance of it.
\<close>

section \<open>Bytes in a store\<close>

fun rd_bytes :: "('s \<Rightarrow> nat \<Rightarrow> u8 option) \<Rightarrow> 's \<Rightarrow> nat \<Rightarrow> nat \<Rightarrow> u8 list option" where
  "rd_bytes rd s a 0 = Some []"
| "rd_bytes rd s a (Suc n) =
     (case rd s a of None \<Rightarrow> None | Some b \<Rightarrow> map_option (\<lambda>bs. b # bs) (rd_bytes rd s (a + 1) n))"

fun wr_bytes :: "('s \<Rightarrow> nat \<Rightarrow> u8 \<Rightarrow> 's option) \<Rightarrow> 's \<Rightarrow> nat \<Rightarrow> u8 list \<Rightarrow> 's option" where
  "wr_bytes wr s a [] = Some s"
| "wr_bytes wr s a (b # bs) = (case wr s a b of None \<Rightarrow> None | Some s' \<Rightarrow> wr_bytes wr s' (a + 1) bs)"

text \<open>\<open>while (i--) *dest++ = *src++\<close>.\<close>

fun copy_up :: "('s \<Rightarrow> nat \<Rightarrow> u8 option) \<Rightarrow> ('s \<Rightarrow> nat \<Rightarrow> u8 \<Rightarrow> 's option) \<Rightarrow> 's \<Rightarrow> nat \<Rightarrow> nat \<Rightarrow> nat \<Rightarrow> 's option" where
  "copy_up rd wr s dst src 0 = Some s"
| "copy_up rd wr s dst src (Suc n) =
     (case rd s src of None \<Rightarrow> None
      | Some b \<Rightarrow> (case wr s dst b of None \<Rightarrow> None | Some s' \<Rightarrow> copy_up rd wr s' (dst + 1) (src + 1) n))"

text \<open>\<open>while (i--) *p1-- = *p2--\<close>, with \<open>dst\<close> and \<open>src\<close> one past the byte copied next.\<close>

fun copy_down :: "('s \<Rightarrow> nat \<Rightarrow> u8 option) \<Rightarrow> ('s \<Rightarrow> nat \<Rightarrow> u8 \<Rightarrow> 's option) \<Rightarrow> 's \<Rightarrow> nat \<Rightarrow> nat \<Rightarrow> nat \<Rightarrow> 's option" where
  "copy_down rd wr s dst src 0 = Some s"
| "copy_down rd wr s dst src (Suc n) =
     (case rd s (src - 1) of None \<Rightarrow> None
      | Some b \<Rightarrow> (case wr s (dst - 1) b of None \<Rightarrow> None | Some s' \<Rightarrow> copy_down rd wr s' (dst - 1) (src - 1) n))"

section \<open>The string routines\<close>

definition Mstrcpy :: "('s \<Rightarrow> nat \<Rightarrow> u8 option) \<Rightarrow> ('s \<Rightarrow> nat \<Rightarrow> u8 \<Rightarrow> 's option) \<Rightarrow> 's \<Rightarrow> nat \<Rightarrow> nat \<Rightarrow> 's option" where
  "Mstrcpy rd wr s dst src =
     (case rd s src of None \<Rightarrow> None | Some n \<Rightarrow> copy_up rd wr s dst src (unat n + 1))"

text \<open>
  \<open>*dest += i\<close> is in eight bits, \<open>dest += *dest + 1 - i\<close> in \<open>int\<close>: past 255 bytes the copy starts
  below \<open>dest\<close>.
\<close>

definition Mstrcat :: "('s \<Rightarrow> nat \<Rightarrow> u8 option) \<Rightarrow> ('s \<Rightarrow> nat \<Rightarrow> u8 \<Rightarrow> 's option) \<Rightarrow> 's \<Rightarrow> nat \<Rightarrow> nat \<Rightarrow> 's option" where
  "Mstrcat rd wr s dst src =
     (case (rd s src, rd s dst) of
        (Some i, Some d) \<Rightarrow>
          (case wr s dst (d + i) of None \<Rightarrow> None
           | Some s' \<Rightarrow>
               let at = int dst + int (unat (d + i)) + 1 - int (unat i)
               in if at < 0 then None else copy_up rd wr s' (nat at) (src + 1) (unat i))
      | _ \<Rightarrow> None)"

fun cmp_loop :: "('s \<Rightarrow> nat \<Rightarrow> u8 option) \<Rightarrow> 's \<Rightarrow> nat \<Rightarrow> nat \<Rightarrow> nat \<Rightarrow> int \<Rightarrow> int option" where
  "cmp_loop rd s p1 p2 0 r = Some r"
| "cmp_loop rd s p1 p2 (Suc n) r =
     (case (rd s p1, rd s p2) of
        (Some a, Some b) \<Rightarrow> if b < a then Some 1 else if a < b then Some (- 1) else cmp_loop rd s (p1 + 1) (p2 + 1) n r
      | _ \<Rightarrow> None)"

definition Mstrcmp :: "('s \<Rightarrow> nat \<Rightarrow> u8 option) \<Rightarrow> 's \<Rightarrow> nat \<Rightarrow> nat \<Rightarrow> int option" where
  "Mstrcmp rd s s1 s2 =
     (case (rd s s1, rd s s2) of
        (Some a, Some b) \<Rightarrow>
          cmp_loop rd s (s1 + 1) (s2 + 1) (unat (if a < b then a else b)) (if b < a then 1 else if a < b then - 1 else 0)
      | _ \<Rightarrow> None)"

text \<open>
  The test \<open>if (p1)\<close> of \<open>MtoC\<close> is of the pointer, which is never null, so every byte is copied.
  The terminator goes where \<open>p2\<close> ends up, on the last byte of the old string.
\<close>

definition MtoC :: "('s \<Rightarrow> nat \<Rightarrow> u8 option) \<Rightarrow> ('s \<Rightarrow> nat \<Rightarrow> u8 \<Rightarrow> 's option) \<Rightarrow> 's \<Rightarrow> nat \<Rightarrow> 's option" where
  "MtoC rd wr s p =
     (case rd s p of None \<Rightarrow> None
      | Some n \<Rightarrow> (case copy_up rd wr s p (p + 1) (unat n) of None \<Rightarrow> None | Some s' \<Rightarrow> wr s' (p + unat n) 0))"

partial_function (option) c_strlen :: "('s \<Rightarrow> nat \<Rightarrow> u8 option) \<Rightarrow> 's \<Rightarrow> nat \<Rightarrow> nat \<Rightarrow> nat option" where
  "c_strlen rd s p n =
     (case rd s p of None \<Rightarrow> None | Some b \<Rightarrow> if b = 0 then Some n else c_strlen rd s (p + 1) (n + 1))"

definition CtoM :: "('s \<Rightarrow> nat \<Rightarrow> u8 option) \<Rightarrow> ('s \<Rightarrow> nat \<Rightarrow> u8 \<Rightarrow> 's option) \<Rightarrow> 's \<Rightarrow> nat \<Rightarrow> ('s, 's) outcome" where
  "CtoM rd wr s p =
     (case c_strlen rd s p 0 of None \<Rightarrow> Fault
      | Some len \<Rightarrow>
          if 255 < len then Err ''String too long'' s
          else case copy_down rd wr s (p + len + 1) (p + len) len of None \<Rightarrow> Fault
            | Some s' \<Rightarrow> (case wr s' p (of_nat len) of None \<Rightarrow> Fault | Some s'' \<Rightarrow> Ok s''))"

text \<open>The string at an address.\<close>

definition mstr :: "('s \<Rightarrow> nat \<Rightarrow> u8 option) \<Rightarrow> 's \<Rightarrow> nat \<Rightarrow> u8 list option" where
  "mstr rd s a = (case rd s a of None \<Rightarrow> None | Some n \<Rightarrow> rd_bytes rd s (a + 1) (unat n))"

section \<open>Integers as digits\<close>

definition IntToStrBufSize :: nat where "IntToStrBufSize = 65"

text \<open>The digits in reverse order: \<open>do ... while (sum && i < IntToStrBufSize)\<close>; \<open>room\<close> is what is left of the buffer.\<close>

definition digit_char :: "nat \<Rightarrow> u8" where
  "digit_char d = (if d < 10 then of_nat (48 + d) else of_nat (65 + d - 10))"

fun rev_digits :: "nat \<Rightarrow> nat \<Rightarrow> nat \<Rightarrow> u8 list" where
  "rev_digits 0 base v = []"
| "rev_digits (Suc room) base v =
     digit_char (v mod base) # (if v div base \<noteq> 0 then rev_digits room base (v div base) else [])"

definition IntToStr :: "i64 \<Rightarrow> nat \<Rightarrow> u8 list" where
  "IntToStr nbr base =
     (if sint nbr < 0 \<and> base = 10
      then 0x2D # rev (rev_digits IntToStrBufSize base (nat (- sint nbr)))
      else rev (rev_digits IntToStrBufSize base (unat nbr)))"

section \<open>Stores\<close>

locale byte_store =
  fixes rd :: "'s \<Rightarrow> nat \<Rightarrow> u8 option" and wr :: "'s \<Rightarrow> nat \<Rightarrow> u8 \<Rightarrow> 's option"
  assumes wr_same: "wr s a b = Some s' \<Longrightarrow> rd s' a = Some b"
    and wr_other: "wr s a b = Some s' \<Longrightarrow> c \<noteq> a \<Longrightarrow> rd s' c = rd s c"
    and wr_again: "wr s a b = Some s' \<Longrightarrow> (wr s' c d = None) = (wr s c d = None)"
    and wr_any: "(wr s a b = None) = (wr s a d = None)"
begin

definition writable :: "'s \<Rightarrow> nat \<Rightarrow> nat \<Rightarrow> bool" where
  "writable s a n \<longleftrightarrow> (\<forall>i<n. wr s (a + i) 0 \<noteq> None)"

lemma writable_wr: "wr s c d = Some s' \<Longrightarrow> writable s' a n = writable s a n"
  by (simp add: writable_def wr_again)

lemma writable_Suc: "writable s a (Suc n) \<longleftrightarrow> wr s a b \<noteq> None \<and> writable s (a + 1) n"
  unfolding writable_def using wr_any [of s a 0 b]
  by (cases "wr s a 0"; cases "wr s a b") (simp_all add: All_less_Suc2)

lemma rd_bytes_Some:
  "rd_bytes rd s a n = Some xs \<longleftrightarrow> length xs = n \<and> (\<forall>i<n. rd s (a + i) = Some (xs ! i))"
proof (induction n arbitrary: a xs)
  case 0
  then show ?case by auto
next
  case (Suc n)
  show ?case
  proof (cases xs)
    case Nil
    then show ?thesis by (auto split: option.splits)
  next
    case (Cons x ys)
    then show ?thesis using Suc.IH [of "a + 1" ys]
      by (auto simp: less_Suc_eq_0_disj split: option.splits)
  qed
qed

text \<open>A forward copy of bytes \<open>f\<close>: right when the target does not start inside the source.\<close>

lemma copy_up_spec:
  assumes "dst \<le> src \<or> src + n \<le> dst" "\<forall>i<n. rd s (src + i) = Some (f i)" "writable s dst n"
  shows "\<exists>s'. copy_up rd wr s dst src n = Some s' \<and> (\<forall>i<n. rd s' (dst + i) = Some (f i)) \<and>
    (\<forall>c. \<not> (dst \<le> c \<and> c < dst + n) \<longrightarrow> rd s' c = rd s c) \<and> (\<forall>a m. writable s' a m = writable s a m)"
  using assms
proof (induction n arbitrary: s dst src f)
  case 0
  then show ?case by simp
next
  case (Suc n)
  have r: "rd s src = Some (f 0)" using Suc.prems(2) by (metis add.right_neutral zero_less_Suc)
  obtain s1 where w: "wr s dst (f 0) = Some s1"
    using Suc.prems(3) writable_Suc [of s dst n "f 0"] by blast
  have "\<exists>s'. copy_up rd wr s1 (dst + 1) (src + 1) n = Some s' \<and>
    (\<forall>i<n. rd s' (dst + 1 + i) = Some (f (Suc i))) \<and>
    (\<forall>c. \<not> (dst + 1 \<le> c \<and> c < dst + 1 + n) \<longrightarrow> rd s' c = rd s1 c) \<and> (\<forall>a m. writable s' a m = writable s1 a m)"
  proof (rule Suc.IH)
    show "dst + 1 \<le> src + 1 \<or> src + 1 + n \<le> dst + 1" using Suc.prems(1) by auto
    show "writable s1 (dst + 1) n" using Suc.prems(3) writable_Suc [of s dst n] writable_wr [OF w] by blast
    show "\<forall>i<n. rd s1 (src + 1 + i) = Some (f (Suc i))"
    proof (intro allI impI)
      fix i assume i: "i < n"
      have "rd s1 (src + 1 + i) = rd s (src + Suc i)"
        using Suc.prems(1) i wr_other [OF w, of "src + 1 + i"] by auto
      also have "\<dots> = Some (f (Suc i))" using Suc.prems(2) i by blast
      finally show "rd s1 (src + 1 + i) = Some (f (Suc i))" .
    qed
  qed
  then obtain s' where s': "copy_up rd wr s1 (dst + 1) (src + 1) n = Some s'"
    "\<forall>i<n. rd s' (dst + 1 + i) = Some (f (Suc i))"
    "\<forall>c. \<not> (dst + 1 \<le> c \<and> c < dst + 1 + n) \<longrightarrow> rd s' c = rd s1 c" "\<forall>a m. writable s' a m = writable s1 a m" by blast
  have "rd s' dst = Some (f 0)" using s'(3) wr_same [OF w] by simp
  then have "\<forall>i<Suc n. rd s' (dst + i) = Some (f i)"
    using s'(2) by (auto simp: less_Suc_eq_0_disj)
  moreover have "\<forall>c. \<not> (dst \<le> c \<and> c < dst + Suc n) \<longrightarrow> rd s' c = rd s c"
    using s'(3) wr_other [OF w] by auto
  ultimately show ?case using r w s'(1,4) writable_wr [OF w] by auto
qed

lemma mstr_Some:
  "mstr rd s a = Some xs \<longleftrightarrow> length xs < 256 \<and> rd s a = Some (of_nat (length xs)) \<and> (\<forall>i<length xs. rd s (a + 1 + i) = Some (xs ! i))"
proof
  assume "mstr rd s a = Some xs"
  then obtain n where n: "rd s a = Some n" "rd_bytes rd s (a + 1) (unat n) = Some xs"
    by (auto simp: mstr_def split: option.splits)
  have "unat n < 256" using unsigned_less [of n] by simp
  then show "length xs < 256 \<and> rd s a = Some (of_nat (length xs)) \<and> (\<forall>i<length xs. rd s (a + 1 + i) = Some (xs ! i))"
    using n by (auto simp: rd_bytes_Some)
next
  assume a: "length xs < 256 \<and> rd s a = Some (of_nat (length xs)) \<and> (\<forall>i<length xs. rd s (a + 1 + i) = Some (xs ! i))"
  then have "unat (of_nat (length xs) :: u8) = length xs" by (simp add: unat_of_nat)
  then have "rd_bytes rd s (a + 1) (unat (of_nat (length xs) :: u8)) = Some xs"
    using a by (simp only: rd_bytes_Some) simp
  then show "mstr rd s a = Some xs" using a by (simp add: mstr_def)
qed

lemma mstr_length: "mstr rd s a = Some xs \<Longrightarrow> length xs < 256"
  by (simp add: mstr_Some)

lemma mstr_cong:
  assumes "\<And>i. i \<le> length xs \<Longrightarrow> rd s' (a + i) = rd s (a + i)" "mstr rd s a = Some xs"
  shows "mstr rd s' a = Some xs"
proof -
  have "rd s' a = rd s a" using assms(1) [of 0] by simp
  moreover have "rd s' (a + 1 + i) = rd s (a + 1 + i)" if "i < length xs" for i
    using assms(1) [of "Suc i"] that by simp
  ultimately show ?thesis using assms(2) by (simp add: mstr_Some)
qed

text \<open>\<open>Mstrcpy\<close> makes the target the source's string and touches nothing else.\<close>

lemma Mstrcpy_spec:
  assumes "mstr rd s src = Some xs" "dst \<le> src \<or> src + length xs < dst" "writable s dst (length xs + 1)"
  shows "\<exists>s'. Mstrcpy rd wr s dst src = Some s' \<and> mstr rd s' dst = Some xs \<and>
    (\<forall>c. \<not> (dst \<le> c \<and> c \<le> dst + length xs) \<longrightarrow> rd s' c = rd s c) \<and> (\<forall>a m. writable s' a m = writable s a m)"
proof -
  let ?n = "length xs + 1"
  let ?f = "\<lambda>i. if i = 0 then of_nat (length xs) else xs ! (i - 1)"
  have x: "length xs < 256" "rd s src = Some (of_nat (length xs))" "\<forall>i<length xs. rd s (src + 1 + i) = Some (xs ! i)"
    using assms(1) by (simp_all add: mstr_Some)
  have f: "\<forall>i<?n. rd s (src + i) = Some (?f i)"
  proof (intro allI impI)
    fix i assume "i < ?n"
    then show "rd s (src + i) = Some (?f i)" using x by (cases i) auto
  qed
  have ord: "dst \<le> src \<or> src + ?n \<le> dst" using assms(2) by auto
  from copy_up_spec [of dst src ?n s ?f, OF ord f assms(3)]
  obtain s' where s': "copy_up rd wr s dst src ?n = Some s'" "\<forall>i<?n. rd s' (dst + i) = Some (?f i)"
    "\<forall>c. \<not> (dst \<le> c \<and> c < dst + ?n) \<longrightarrow> rd s' c = rd s c" "\<forall>a m. writable s' a m = writable s a m" by blast
  have "unat (of_nat (length xs) :: u8) = length xs" using x(1) by (simp add: unat_of_nat)
  then have c: "Mstrcpy rd wr s dst src = Some s'" using s'(1) x(2) by (simp add: Mstrcpy_def)
  have "rd s' dst = Some (of_nat (length xs))" using s'(2) [rule_format, of 0] by simp
  moreover have "rd s' (dst + 1 + i) = Some (xs ! i)" if "i < length xs" for i
    using s'(2) [rule_format, of "Suc i"] that by simp
  ultimately have "mstr rd s' dst = Some xs" using x(1) by (simp add: mstr_Some)
  with c s'(3,4) show ?thesis by auto
qed

text \<open>\<open>Mstrcmp\<close> is the lexicographic comparison of the byte strings.\<close>

lemma cmp_loop_lex:
  assumes "\<forall>i<length xs. rd s (p1 + i) = Some (xs ! i)" "\<forall>i<length ys. rd s (p2 + i) = Some (ys ! i)"
  shows "cmp_loop rd s p1 p2 (min (length xs) (length ys))
      (if length ys < length xs then 1 else if length xs < length ys then - 1 else 0) =
    Some (if ys < xs then 1 else if xs < ys then - 1 else 0)"
  using assms
proof (induction xs arbitrary: ys p1 p2)
  case Nil
  then show ?case by (cases ys) simp_all
next
  case (Cons x xs')
  show ?case
  proof (cases ys)
    case Nil
    then show ?thesis by simp
  next
    case (Cons y ys')
    have h: "rd s p1 = Some x" "rd s p2 = Some y" using Cons.prems Cons by auto
    have "rd s (p1 + 1 + i) = Some (xs' ! i)" if "i < length xs'" for i
      using Cons.prems(1) [rule_format, of "Suc i"] that by simp
    moreover have "rd s (p2 + 1 + i) = Some (ys' ! i)" if "i < length ys'" for i
      using Cons.prems(2) [rule_format, of "Suc i"] that Cons by simp
    ultimately have "cmp_loop rd s (p1 + 1) (p2 + 1) (min (length xs') (length ys'))
      (if length ys' < length xs' then 1 else if length xs' < length ys' then - 1 else 0) =
      Some (if ys' < xs' then 1 else if xs' < ys' then - 1 else 0)" by (intro Cons.IH) blast+
    then have ih: "cmp_loop rd s (Suc p1) (Suc p2) (min (length xs') (length ys'))
      (if length ys' < length xs' then 1 else if length xs' < length ys' then - 1 else 0) =
      Some (if ys' < xs' then 1 else if xs' < ys' then - 1 else 0)" by simp
    show ?thesis
    proof (cases x y rule: linorder_cases)
      case less
      then have "\<not> y < x" "x \<noteq> y" by auto
      with less h show ?thesis unfolding Cons by simp
    next
      case greater
      then have "\<not> x < y" "x \<noteq> y" by auto
      with greater h show ?thesis unfolding Cons by simp
    next
      case equal
      have m: "min (length (x # xs')) (length (y # ys')) = Suc (min (length xs') (length ys'))"
        "(length (y # ys') < length (x # xs')) = (length ys' < length xs')"
        "(length (x # xs') < length (y # ys')) = (length xs' < length ys')"
        "(y # ys' < x # xs') = (ys' < xs')" "(x # xs' < y # ys') = (xs' < ys')" using equal by simp_all
      show ?thesis unfolding Cons m by (simp only: cmp_loop.simps h option.case prod.case equal Suc_eq_plus1 [symmetric] ih less_irrefl if_False)
    qed
  qed
qed

lemma Mstrcmp_spec:
  assumes "mstr rd s a = Some xs" "mstr rd s b = Some ys"
  shows "Mstrcmp rd s a b = Some (if ys < xs then 1 else if xs < ys then - 1 else 0)"
proof -
  have l: "length xs < 256" "length ys < 256" and r: "rd s a = Some (of_nat (length xs))" "rd s b = Some (of_nat (length ys))"
    and e: "\<forall>i<length xs. rd s (a + 1 + i) = Some (xs ! i)" "\<forall>i<length ys. rd s (b + 1 + i) = Some (ys ! i)"
    using assms by (simp_all add: mstr_Some)
  have o: "(of_nat (length xs) :: u8) < of_nat (length ys) \<longleftrightarrow> length xs < length ys"
    "(of_nat (length ys) :: u8) < of_nat (length xs) \<longleftrightarrow> length ys < length xs"
    "unat (of_nat (length xs) :: u8) = length xs" "unat (of_nat (length ys) :: u8) = length ys"
    using l by (simp_all add: word_less_nat_alt unat_of_nat)
  have "unat (if (of_nat (length xs) :: u8) < of_nat (length ys) then of_nat (length xs) else of_nat (length ys) :: u8)
      = min (length xs) (length ys)"
    using o by (auto simp: min_def)
  then show ?thesis using cmp_loop_lex [OF e] unfolding Mstrcmp_def r option.case prod.case
    by (simp only: o)
qed

text \<open>\<open>MtoC\<close> shifts the bytes down and terminates them; NUL bytes are copied like any other.\<close>

lemma MtoC_spec:
  assumes "mstr rd s p = Some xs" "writable s p (length xs + 1)"
  shows "\<exists>s'. MtoC rd wr s p = Some s' \<and> rd_bytes rd s' p (length xs + 1) = Some (xs @ [0]) \<and>
    (\<forall>c. \<not> (p \<le> c \<and> c \<le> p + length xs) \<longrightarrow> rd s' c = rd s c) \<and> (\<forall>a m. writable s' a m = writable s a m)"
proof -
  have x: "length xs < 256" "rd s p = Some (of_nat (length xs))" "\<forall>i<length xs. rd s (p + 1 + i) = Some (xs ! i)"
    using assms(1) by (simp_all add: mstr_Some)
  have u: "unat (of_nat (length xs) :: u8) = length xs" using x(1) by (simp add: unat_of_nat)
  have w: "writable s p (length xs)" "wr s (p + length xs) 0 \<noteq> None" using assms(2) by (auto simp: writable_def)
  from copy_up_spec [of p "p + 1" "length xs" s "\<lambda>i. xs ! i"] x(3) w(1)
  obtain s1 where s1: "copy_up rd wr s p (p + 1) (length xs) = Some s1" "\<forall>i<length xs. rd s1 (p + i) = Some (xs ! i)"
    "\<forall>c. \<not> (p \<le> c \<and> c < p + length xs) \<longrightarrow> rd s1 c = rd s c" "\<forall>a m. writable s1 a m = writable s a m" by auto
  have "writable s (p + length xs) 1" using w(2) by (simp add: writable_def)
  then have "writable s1 (p + length xs) 1" using s1(4) by simp
  then obtain s2 where s2: "wr s1 (p + length xs) 0 = Some s2" by (auto simp: writable_def)
  have "rd_bytes rd s2 p (length xs + 1) = Some (xs @ [0])"
    unfolding rd_bytes_Some
  proof (intro conjI allI impI)
    fix i assume "i < length xs + 1"
    then show "rd s2 (p + i) = Some ((xs @ [0]) ! i)"
      using wr_same [OF s2] wr_other [OF s2, of "p + i"] s1(2) by (cases "i = length xs") (auto simp: nth_append)
  qed simp
  moreover have "MtoC rd wr s p = Some s2" using x(2) u s1(1) s2 by (simp add: MtoC_def)
  moreover have "rd s2 c = rd s c" if "\<not> (p \<le> c \<and> c \<le> p + length xs)" for c
    using that wr_other [OF s2, of c] s1(3) by auto
  ultimately show ?thesis using s1(4) writable_wr [OF s2] by auto
qed

end

section \<open>Reading the digits back\<close>

definition digit_val :: "u8 \<Rightarrow> nat" where
  "digit_val c = (if c < 0x41 then unat c - 48 else unat c - 55)"

definition digits_val :: "nat \<Rightarrow> u8 list \<Rightarrow> nat" where
  "digits_val base cs = foldl (\<lambda>v c. v * base + digit_val c) 0 cs"

text \<open>What \<open>strtoll\<close> makes of a decimal numeral with an optional minus sign.\<close>

definition dec_val :: "u8 list \<Rightarrow> int" where
  "dec_val cs = (case cs of c # ds \<Rightarrow> if c = 0x2D then - int (digits_val 10 ds) else int (digits_val 10 cs) | [] \<Rightarrow> 0)"

lemma digit_val_char: "d < 36 \<Longrightarrow> digit_val (digit_char d) = d"
proof -
  assume d: "d < 36"
  have "unat (of_nat (48 + d) :: u8) = 48 + d" if "d < 10" using that by (simp add: unat_of_nat del: of_nat_add)
  moreover have "unat (of_nat (65 + d - 10) :: u8) = 55 + d" if "10 \<le> d"
    using that d by (simp add: unat_of_nat del: of_nat_add of_nat_diff)
  ultimately show ?thesis using d
    by (auto simp: digit_val_def digit_char_def word_less_nat_alt simp del: of_nat_add of_nat_diff)
qed

lemma digits_val_snoc: "digits_val base (cs @ [c]) = digits_val base cs * base + digit_val c"
  by (simp add: digits_val_def)

lemma digits_val_rev_digits:
  assumes "2 \<le> base" "base \<le> 36" "v < base ^ room"
  shows "digits_val base (rev (rev_digits room base v)) = v"
  using assms(3)
proof (induction room arbitrary: v)
  case 0
  then show ?case by (simp add: digits_val_def)
next
  case (Suc room)
  have "v mod base < base" using assms(1) by (intro mod_less_divisor) simp
  then have d: "v mod base < 36" using assms(2) by linarith
  have q: "v div base < base ^ room"
    using Suc.prems assms(1) by (simp add: div_less_iff_less_mult mult.commute)
  show ?case
  proof (cases "v div base = 0")
    case True
    then have "v mod base = v" using div_mult_mod_eq [of v base] by simp
    then show ?thesis using True digit_val_char [OF d] by (simp add: digits_val_def)
  next
    case False
    then show ?thesis using Suc.IH [OF q] digit_val_char [OF d]
      by (simp add: digits_val_snoc div_mult_mod_eq)
  qed
qed

lemma rev_digits_not_minus: "2 \<le> base \<Longrightarrow> base \<le> 36 \<Longrightarrow> c \<in> set (rev_digits room base v) \<Longrightarrow> c \<noteq> 0x2D"
proof (induction room arbitrary: v)
  case 0
  then show ?case by simp
next
  case (Suc room)
  have "v mod base < base" using Suc.prems(1) by (intro mod_less_divisor) simp
  then have d: "v mod base < 36" using Suc.prems(2) by linarith
  have "digit_char (v mod base) \<noteq> 0x2D"
  proof
    assume e: "digit_char (v mod base) = 0x2D"
    have "digit_val (digit_char (v mod base)) = v mod base" by (rule digit_val_char [OF d])
    then have z: "v mod base = 0" unfolding e by (simp add: digit_val_def)
    then have "digit_char (v mod base) = 48" by (simp add: digit_char_def)
    then show False using e by simp
  qed
  then show ?case using Suc by (auto split: if_splits)
qed

lemma rev_digits_nonempty: "0 < room \<Longrightarrow> rev_digits room base v \<noteq> []"
  by (cases room) simp_all

lemma u64_fits_digits:
  fixes base :: nat
  assumes "2 \<le> base" "v < 2 ^ 64"
  shows "v < base ^ IntToStrBufSize"
proof -
  have "(2::nat) ^ 64 \<le> 2 ^ 65" by simp
  also have "\<dots> \<le> base ^ 65" using assms(1) by (intro power_mono) auto
  finally show ?thesis using assms(2) by (simp add: IntToStrBufSize_def)
qed

text \<open>
  C22: the digits are right: in base 10 the text of every 64-bit integer, the most negative one
  included, reads back as that integer, and in every base from 2 to 36 the digits after an optional
  sign read back as the unsigned value; the 65-byte buffer is never exhausted.
\<close>

theorem IntToStr_roundtrip:
  "dec_val (IntToStr n 10) = sint n \<and>
   (\<forall>base. 2 \<le> base \<and> base \<le> 36 \<and> base \<noteq> 10 \<longrightarrow> digits_val base (IntToStr n base) = unat n)"
proof
  have u: "unat n < 2 ^ 64" using unsigned_less [of n] by simp
  show "dec_val (IntToStr n 10) = sint n"
  proof (cases "sint n < 0")
    case True
    have "- sint n \<le> 2 ^ 63" using sint_greater_eq [of n] by simp
    then have "nat (- sint n) \<le> 2 ^ 63" by simp
    then have "nat (- sint n) < 2 ^ 64" by simp
    then have "digits_val 10 (rev (rev_digits IntToStrBufSize 10 (nat (- sint n)))) = nat (- sint n)"
      using u64_fits_digits [of 10 "nat (- sint n)"] by (intro digits_val_rev_digits) simp_all
    then show ?thesis using True by (simp add: IntToStr_def dec_val_def)
  next
    case False
    have v: "digits_val 10 (rev (rev_digits IntToStrBufSize 10 (unat n))) = unat n"
      using u64_fits_digits [of 10] u by (intro digits_val_rev_digits) auto
    have m: "\<forall>c\<in>set (rev (rev_digits IntToStrBufSize 10 (unat n))). c \<noteq> 0x2D"
      using rev_digits_not_minus [of 10] by auto
    have "uint n = sint n" using False sint_less [of n] by (simp add: uint_sint take_bit_int_eq_self)
    then have s: "sint n = int (unat n)" by simp
    obtain c ds where "rev (rev_digits IntToStrBufSize 10 (unat n)) = c # ds"
      using rev_digits_nonempty [of IntToStrBufSize 10 "unat n"]
      by (cases "rev (rev_digits IntToStrBufSize 10 (unat n))") (auto simp: IntToStrBufSize_def)
    then show ?thesis using False v m s by (simp add: IntToStr_def dec_val_def)
  qed
  show "\<forall>base. 2 \<le> base \<and> base \<le> 36 \<and> base \<noteq> 10 \<longrightarrow> digits_val base (IntToStr n base) = unat n"
    using u u64_fits_digits digits_val_rev_digits by (simp add: IntToStr_def)
qed

theorem IntToStr_roundtrip_witness: "digits_val 16 (IntToStr 0xFFFFFFFFFFFFFFFE 16) = 0xFFFFFFFFFFFFFFFE"
proof -
  have "digits_val 16 (IntToStr 0xFFFFFFFFFFFFFFFE 16) = unat (0xFFFFFFFFFFFFFFFE :: i64)"
    using IntToStr_roundtrip [of "0xFFFFFFFFFFFFFFFE"] by simp
  then show ?thesis by simp
qed

end
