(* ===== verification/VmState.thy ===== *)
theory VmState
  imports Compiler VmInt F64 MMHeap MStr
begin

text \<open>
  The state of the virtual machine (\<open>BCVMState\<close> in \<open>runtime/vm/bytecode.h\<close>) and the helpers of
  \<open>runtime/vm/bc_vm.c\<close> every handler uses: the operand stack, the cells of globals, locals and
  by-reference parameters, the ring of string temporaries, arrays, and memory.

  A \<open>BCValue\<close> is a 64-bit union; pointers are those of the 32-bit targets and fill its low half.
  The machine's memory is the byte \<open>vm_empty_string\<close>, the literal \<open>""\<close>, the four string
  temporaries and the page heap; every other address is absent, and touching it is a \<open>Fault\<close>.
  So is popping an empty stack or indexing a table past its end where the code has no check.
\<close>

section \<open>State\<close>

type_synonym BCValue = u64

record BCArray =
  adata :: nat
  dims :: "nat \<Rightarrow> 32 word"
  ndims :: u8
  elem_type :: u8
  data_external :: u8
  total_elements :: u32

record BCCallFrame =
  return_pc :: int
  cf_frame_base :: int
  cf_locals_top :: int
  for_sp :: int
  saved_sp :: int
  cf_nlocals :: u16
  cf_subfun_idx :: u16

record BCForEntry =
  fe_var_slot :: u16
  fe_lim_slot :: u16
  fe_step_slot :: u16
  loop_top :: int
  is_local :: u8
  var_type :: u8

text \<open>
  What a \<open>BCValue *\<close> and a \<open>uint8_t *\<close> type cell of the machine can point at. A parameter bound by
  reference carries one of each; \<open>None\<close> is the null pointer.
\<close>

datatype cell = CGlobal nat | CLocal int | CMem nat
datatype tcell = TGlobal nat | TLocal int

text \<open>
  Arrays of C are functions of the index, with the bounds checked where they are used. \<open>pc\<close> and the
  saved program counters are offsets into the bytecode. \<open>serviced\<close> counts the calls of
  \<open>CheckAbort\<close>/\<open>check_interrupt\<close>; \<open>printed\<close> is what went to the console.
\<close>

record vm =
  pc :: int
  stack :: "int \<Rightarrow> BCValue"
  stack_types :: "int \<Rightarrow> u8"
  sp :: int
  globals :: "nat \<Rightarrow> BCValue"
  global_types :: "nat \<Rightarrow> u8"
  global_valid :: "nat \<Rightarrow> u8"
  arrays :: "nat \<Rightarrow> BCArray"
  call_stack :: "int \<Rightarrow> BCCallFrame"
  csp :: int
  gosub_stack :: "int \<Rightarrow> int"
  gsp :: int
  locals :: "int \<Rightarrow> BCValue"
  local_types :: "int \<Rightarrow> u8"
  frame_base :: int
  locals_top :: int
  local_arrays :: "int \<Rightarrow> BCArray"
  local_array_is_alias :: "int \<Rightarrow> u8"
  local_ref_val :: "int \<Rightarrow> cell option"
  local_ref_typ :: "int \<Rightarrow> tcell option"
  for_stack :: "int \<Rightarrow> BCForEntry"
  fsp :: int
  bytecode :: "u8 list"
  compiler :: BCCompiler
  data_ptr :: u16
  current_line :: u16
  str_temp :: "nat \<Rightarrow> u8"
  str_temp_idx :: nat
  empty_byte :: u8
  heap :: mmheap
  loop_poll_counter :: u32
  serviced :: nat
  printed :: string

type_synonym 'a res = "(vm, 'a) outcome"

definition no_array :: BCArray where
  "no_array = \<lparr>adata = 0, dims = (\<lambda>_. 0), ndims = 0, elem_type = 0, data_external = 0, total_elements = 0\<rparr>"

definition no_frame :: BCCallFrame where
  "no_frame = \<lparr>return_pc = 0, cf_frame_base = 0, cf_locals_top = 0, for_sp = 0, saved_sp = 0, cf_nlocals = 0, cf_subfun_idx = 0\<rparr>"

definition no_for :: BCForEntry where
  "no_for = \<lparr>fe_var_slot = 0, fe_lim_slot = 0, fe_step_slot = 0, loop_top = 0, is_local = 0, var_type = 0\<rparr>"

text \<open>
  \<open>bc_vm_init\<close>: everything but \<open>data_ptr\<close>, the heap and the console is reset; the global types come
  from the compiler's slot table.
\<close>

definition bc_vm_init :: "vm \<Rightarrow> BCCompiler \<Rightarrow> vm" where
  "bc_vm_init s cs =
     s\<lparr>stack := (\<lambda>_. 0), stack_types := (\<lambda>_. 0), call_stack := (\<lambda>_. no_frame), gosub_stack := (\<lambda>_. 0),
       for_stack := (\<lambda>_. no_for), str_temp := (\<lambda>_. 0), local_array_is_alias := (\<lambda>_. 0),
       local_ref_val := (\<lambda>_. None), local_ref_typ := (\<lambda>_. None), arrays := (\<lambda>_. no_array),
       local_arrays := (\<lambda>_. no_array), globals := (\<lambda>_. 0), global_valid := (\<lambda>_. 0),
       locals := (\<lambda>_. 0), local_types := (\<lambda>_. 0), bytecode := code cs, compiler := cs, pc := 0, sp := -1,
       csp := 0, gsp := 0, fsp := 0, frame_base := 0, locals_top := 0, str_temp_idx := 0, current_line := 0,
       global_types := (\<lambda>i. if i < length (slots cs) then slot_type (slots cs ! i) else 0)\<rparr>"

definition bc_vm_error :: "vm \<Rightarrow> string \<Rightarrow> 'a res" where
  "bc_vm_error s msg = Err (''[VM line '' @ dec_nat (unat (current_line s)) @ ''] '' @ msg) s"

lemma bc_vm_error_simps [simp]:
  "bc_vm_error s m \<noteq> Ok x" "bc_vm_error s m \<noteq> Fault" "bindO (bc_vm_error s m) f = bc_vm_error s m"
  by (simp_all add: bc_vm_error_def)

section \<open>Pointers in values\<close>

definition v_s :: "BCValue \<Rightarrow> nat" where
  "v_s v = unat (ucast v :: u32)"

definition set_s :: "BCValue \<Rightarrow> nat \<Rightarrow> BCValue" where
  "set_s v a = push_bit 32 (drop_bit 32 v) OR ucast (of_nat a :: u32)"

lemma v_s_set_s [simp]: "a < 2 ^ 32 \<Longrightarrow> v_s (set_s v a) = a"
proof -
  assume a: "a < 2 ^ 32"
  have "(ucast (set_s v a) :: u32) = of_nat a"
    by (rule bit_word_eqI) (simp add: set_s_def bit_simps)
  then show ?thesis using a by (simp add: v_s_def unat_of_nat)
qed

lemma v_s_bound: "v_s v < 2 ^ 32"
  using unsigned_less [of "ucast v :: u32"] by (simp add: v_s_def)

lemma v_s_0 [simp]: "v_s 0 = 0"
  by (simp add: v_s_def)

section \<open>Memory\<close>

definition EMPTY_ADDR :: nat where "EMPTY_ADDR = 1"
definition LIT_ADDR :: nat where "LIT_ADDR = 2"
definition TEMP_BASE :: nat where "TEMP_BASE = 0x1000"
definition HEAP_BASE :: nat where "HEAP_BASE = 0x10000"

lemmas address_map = EMPTY_ADDR_def LIT_ADDR_def TEMP_BASE_def HEAP_BASE_def

definition in_temp :: "nat \<Rightarrow> bool" where
  "in_temp a \<longleftrightarrow> TEMP_BASE \<le> a \<and> a < TEMP_BASE + 4 * STRINGSIZE"

definition in_heap :: "vm \<Rightarrow> nat \<Rightarrow> bool" where
  "in_heap s a \<longleftrightarrow> HEAP_BASE \<le> a \<and> a < HEAP_BASE + npages (heap s) * PAGESIZE"

definition rd_byte :: "vm \<Rightarrow> nat \<Rightarrow> u8 option" where
  "rd_byte s a =
     (if a = EMPTY_ADDR then Some (empty_byte s)
      else if a = LIT_ADDR then Some 0
      else if in_temp a then Some (str_temp s (a - TEMP_BASE))
      else if in_heap s a then Some (hmem (heap s) (a - HEAP_BASE))
      else None)"

definition wr_byte :: "vm \<Rightarrow> nat \<Rightarrow> u8 \<Rightarrow> vm option" where
  "wr_byte s a b =
     (if a = EMPTY_ADDR then Some (s\<lparr>empty_byte := b\<rparr>)
      else if in_temp a then Some (s\<lparr>str_temp := (str_temp s)(a - TEMP_BASE := b)\<rparr>)
      else if in_heap s a then Some (s\<lparr>heap := (heap s)\<lparr>hmem := (hmem (heap s))(a - HEAP_BASE := b)\<rparr>\<rparr>)
      else None)"

lemma npages_hmem [simp]: "npages (h\<lparr>hmem := m\<rparr>) = npages h"
  by (simp add: npages_def)

lemma in_heap_upd [simp]:
  "in_heap (s\<lparr>empty_byte := b\<rparr>) a = in_heap s a" "in_heap (s\<lparr>str_temp := t\<rparr>) a = in_heap s a"
  "in_heap (s\<lparr>heap := (heap s)\<lparr>hmem := m\<rparr>\<rparr>) a = in_heap s a"
  by (simp_all add: in_heap_def)

lemma temp_offset_inj: "in_temp a \<Longrightarrow> in_temp c \<Longrightarrow> c - TEMP_BASE = a - TEMP_BASE \<longleftrightarrow> c = a"
  by (auto simp: in_temp_def)

lemma heap_offset_inj: "in_heap s a \<Longrightarrow> in_heap s c \<Longrightarrow> c - HEAP_BASE = a - HEAP_BASE \<longleftrightarrow> c = a"
  by (auto simp: in_heap_def)

lemma heap_disjoint: "in_heap s a \<Longrightarrow> \<not> in_temp a \<and> a \<noteq> EMPTY_ADDR \<and> a \<noteq> LIT_ADDR"
  by (auto simp: in_heap_def in_temp_def address_map STRINGSIZE_def)

lemma temp_disjoint: "in_temp a \<Longrightarrow> a \<noteq> EMPTY_ADDR \<and> a \<noteq> LIT_ADDR"
  by (auto simp: in_temp_def address_map)

lemma wr_byte_cases:
  assumes "wr_byte s a b = Some s'"
  obtains "a = EMPTY_ADDR" "s' = s\<lparr>empty_byte := b\<rparr>"
  | "in_temp a" "s' = s\<lparr>str_temp := (str_temp s)(a - TEMP_BASE := b)\<rparr>"
  | "in_heap s a" "s' = s\<lparr>heap := (heap s)\<lparr>hmem := (hmem (heap s))(a - HEAP_BASE := b)\<rparr>\<rparr>"
  using assms unfolding wr_byte_def by (auto split: if_splits)

lemma rd_byte_wr:
  assumes "wr_byte s a b = Some s'"
  shows "rd_byte s' c = (if c = a then Some b else rd_byte s c)"
  using assms
proof (cases rule: wr_byte_cases)
  case 1
  then show ?thesis by (simp add: rd_byte_def)
next
  case 2
  then show ?thesis using temp_disjoint [of a] temp_offset_inj [of a c] by (simp add: rd_byte_def)
next
  case 3
  then show ?thesis using heap_disjoint [of s a] heap_offset_inj [of s a c] by (simp add: rd_byte_def)
qed

lemma wr_byte_None: "wr_byte s a b = None \<longleftrightarrow> a \<noteq> EMPTY_ADDR \<and> \<not> in_temp a \<and> \<not> in_heap s a"
  by (simp add: wr_byte_def)

interpretation vmem: byte_store rd_byte wr_byte
proof
  fix s a b s' c d
  assume w: "wr_byte s a b = Some s'"
  show "rd_byte s' a = Some b" using rd_byte_wr [OF w] by simp
  show "c \<noteq> a \<Longrightarrow> rd_byte s' c = rd_byte s c" using rd_byte_wr [OF w] by simp
  show "(wr_byte s' c d = None) = (wr_byte s c d = None)"
    using w by (cases rule: wr_byte_cases) (simp_all add: wr_byte_None)
next
  fix s a b d
  show "(wr_byte s a b = None) = (wr_byte s a d = None)" by (simp add: wr_byte_None)
qed

text \<open>\<open>BC_ALLOC\<close>: null on failure.\<close>

definition BC_ALLOC :: "vm \<Rightarrow> nat \<Rightarrow> vm \<times> nat" where
  "BC_ALLOC s n =
     (case bc_alloc (heap s) n of
        (h, Some off) \<Rightarrow> (s\<lparr>heap := h\<rparr>, HEAP_BASE + off)
      | (h, None) \<Rightarrow> (s\<lparr>heap := h\<rparr>, 0))"

definition BC_FREE :: "vm \<Rightarrow> nat \<Rightarrow> vm res" where
  "BC_FREE s a =
     (if a = 0 then Ok s
      else if a < HEAP_BASE then Fault
      else case FreeMemory (heap s) (Some (a - HEAP_BASE)) of None \<Rightarrow> Fault | Some h \<Rightarrow> Ok (s\<lparr>heap := h\<rparr>))"

definition of_opt :: "'a option \<Rightarrow> 'a res" where
  "of_opt x = (case x of None \<Rightarrow> Fault | Some y \<Rightarrow> Ok y)"

lemma of_opt_simps [simp]: "of_opt (Some y) = Ok y" "of_opt None = Fault"
  by (simp_all add: of_opt_def)

lemma of_opt_Ok [simp]: "of_opt x = Ok y \<longleftrightarrow> x = Some y"
  by (cases x) simp_all

text \<open>\<open>memcpy\<close>: overlapping regions are outside its contract. \<open>fill\<close> is \<open>memset\<close>.\<close>

definition memcpy :: "vm \<Rightarrow> nat \<Rightarrow> nat \<Rightarrow> nat \<Rightarrow> vm res" where
  "memcpy s dst src n =
     (if dst < src + n \<and> src < dst + n then Fault
      else case rd_bytes rd_byte s src n of None \<Rightarrow> Fault | Some bs \<Rightarrow> of_opt (wr_bytes wr_byte s dst bs))"

definition fill :: "vm \<Rightarrow> nat \<Rightarrow> u8 \<Rightarrow> nat \<Rightarrow> vm res" where
  "fill s dst b n = of_opt (wr_bytes wr_byte s dst (replicate n b))"

definition rd :: "vm \<Rightarrow> nat \<Rightarrow> u8 res" where
  "rd s a = of_opt (rd_byte s a)"

definition wr :: "vm \<Rightarrow> nat \<Rightarrow> u8 \<Rightarrow> vm res" where
  "wr s a b = of_opt (wr_byte s a b)"

definition strcopy :: "vm \<Rightarrow> nat \<Rightarrow> nat \<Rightarrow> vm res" where
  "strcopy s dst src = of_opt (Mstrcpy rd_byte wr_byte s dst src)"

text \<open>A 64-bit value in memory.\<close>

definition rd64 :: "vm \<Rightarrow> nat \<Rightarrow> BCValue option" where
  "rd64 s a = map_option (\<lambda>bs. of_nat (le_dec bs)) (rd_bytes rd_byte s a 8)"

definition wr64 :: "vm \<Rightarrow> nat \<Rightarrow> BCValue \<Rightarrow> vm option" where
  "wr64 s a v = wr_bytes wr_byte s a (le_enc 8 (unat v))"

text \<open>The next of the four string temporaries.\<close>

definition vm_get_str_temp :: "vm \<Rightarrow> vm \<times> nat" where
  "vm_get_str_temp s =
     (let idx = str_temp_idx s mod 4 in (s\<lparr>str_temp_idx := (idx + 1) mod 4\<rparr>, TEMP_BASE + STRINGSIZE * idx))"

section \<open>The operand stack\<close>

definition push :: "u8 \<Rightarrow> BCValue \<Rightarrow> vm \<Rightarrow> vm res" where
  "push t v s =
     (if sp s \<ge> VM_STACK_SIZE - 1 then bc_vm_error s ''Stack overflow''
      else if sp s < -1 then Fault
      else Ok (s\<lparr>sp := sp s + 1, stack := (stack s)(sp s + 1 := v), stack_types := (stack_types s)(sp s + 1 := t)\<rparr>))"

definition PUSH_I :: "i64 \<Rightarrow> vm \<Rightarrow> vm res" where "PUSH_I v s = push T_INT v s"
definition PUSH_F :: "u64 \<Rightarrow> vm \<Rightarrow> vm res" where "PUSH_F v s = push T_NBR v s"
definition PUSH_S :: "nat \<Rightarrow> vm \<Rightarrow> vm res" where "PUSH_S a s = push T_STR (set_s (stack s (sp s + 1)) a) s"

definition POP :: "vm \<Rightarrow> (BCValue \<times> vm) res" where
  "POP s = (if 0 \<le> sp s \<and> sp s < VM_STACK_SIZE then Ok (stack s (sp s), s\<lparr>sp := sp s - 1\<rparr>) else Fault)"

definition POP_S :: "vm \<Rightarrow> (nat \<times> vm) res" where
  "POP_S s = bindO (POP s) (\<lambda>(v, s'). Ok (v_s v, s'))"

definition TOS :: "vm \<Rightarrow> BCValue res" where
  "TOS s = (if 0 \<le> sp s \<and> sp s < VM_STACK_SIZE then Ok (stack s (sp s)) else Fault)"

definition TOS_type :: "vm \<Rightarrow> u8 res" where
  "TOS_type s = (if 0 \<le> sp s \<and> sp s < VM_STACK_SIZE then Ok (stack_types s (sp s)) else Fault)"

definition set_TOS :: "BCValue \<Rightarrow> vm \<Rightarrow> vm res" where
  "set_TOS v s = (if 0 \<le> sp s \<and> sp s < VM_STACK_SIZE then Ok (s\<lparr>stack := (stack s)(sp s := v)\<rparr>) else Fault)"

definition set_TOS_type :: "u8 \<Rightarrow> vm \<Rightarrow> vm res" where
  "set_TOS_type t s = (if 0 \<le> sp s \<and> sp s < VM_STACK_SIZE then Ok (s\<lparr>stack_types := (stack_types s)(sp s := t)\<rparr>) else Fault)"

definition POP_NUMERIC_I :: "vm \<Rightarrow> (i64 \<times> vm) res" where
  "POP_NUMERIC_I s =
     (if sp s < 0 then bc_vm_error s ''Stack underflow''
      else bindO (TOS_type s) (\<lambda>t. bindO (POP s) (\<lambda>(v, s').
        if t = T_NBR then bindO (of_opt (f_round_half_away v)) (\<lambda>i. Ok (i, s')) else Ok (v, s'))))"

definition POP_NUMERIC_F :: "vm \<Rightarrow> (u64 \<times> vm) res" where
  "POP_NUMERIC_F s =
     (if sp s < 0 then bc_vm_error s ''Stack underflow''
      else bindO (TOS_type s) (\<lambda>t. bindO (POP s) (\<lambda>(v, s'). Ok (if t = T_NBR then v else f_of_i64 v, s'))))"

text \<open>\<open>(stack_types[sp] == T_INT) ? (MMFLOAT)POP_I() : POP_F()\<close> and its integer counterpart, which truncates.\<close>

definition POP_as_F :: "vm \<Rightarrow> (u64 \<times> vm) res" where
  "POP_as_F s = bindO (TOS_type s) (\<lambda>t. bindO (POP s) (\<lambda>(v, s'). Ok (if t = T_INT then f_of_i64 v else v, s')))"

definition POP_as_I :: "vm \<Rightarrow> (i64 \<times> vm) res" where
  "POP_as_I s = bindO (TOS_type s) (\<lambda>t. bindO (POP s) (\<lambda>(v, s').
     if t = T_NBR then bindO (of_opt (f_trunc v)) (\<lambda>i. Ok (i, s')) else Ok (v, s')))"

definition bc_push_array_ref :: "u8 \<Rightarrow> BCValue \<Rightarrow> vm \<Rightarrow> vm res" where
  "bc_push_array_ref tag ref s =
     (if sp s + 1 \<ge> VM_STACK_SIZE then bc_vm_error s ''Stack overflow''
      else if sp s < -1 then Fault
      else Ok (s\<lparr>sp := sp s + 1, stack := (stack s)(sp s + 1 := ref), stack_types := (stack_types s)(sp s + 1 := tag)\<rparr>))"

section \<open>Cells\<close>

definition get_cell :: "vm \<Rightarrow> cell \<Rightarrow> BCValue res" where
  "get_cell s c = (case c of
      CGlobal n \<Rightarrow> if n < BC_MAX_SLOTS then Ok (globals s n) else Fault
    | CLocal i \<Rightarrow> if 0 \<le> i \<and> i < int VM_MAX_LOCALS then Ok (locals s i) else Fault
    | CMem a \<Rightarrow> of_opt (rd64 s a))"

definition set_cell :: "vm \<Rightarrow> cell \<Rightarrow> BCValue \<Rightarrow> vm res" where
  "set_cell s c v = (case c of
      CGlobal n \<Rightarrow> if n < BC_MAX_SLOTS then Ok (s\<lparr>globals := (globals s)(n := v)\<rparr>) else Fault
    | CLocal i \<Rightarrow> if 0 \<le> i \<and> i < int VM_MAX_LOCALS then Ok (s\<lparr>locals := (locals s)(i := v)\<rparr>) else Fault
    | CMem a \<Rightarrow> of_opt (wr64 s a v))"

definition set_tcell :: "vm \<Rightarrow> tcell \<Rightarrow> u8 \<Rightarrow> vm res" where
  "set_tcell s c t = (case c of
      TGlobal n \<Rightarrow> if n < BC_MAX_SLOTS then Ok (s\<lparr>global_types := (global_types s)(n := t)\<rparr>) else Fault
    | TLocal i \<Rightarrow> if 0 \<le> i \<and> i < int VM_MAX_LOCALS then Ok (s\<lparr>local_types := (local_types s)(i := t)\<rparr>) else Fault)"

definition set_valid :: "vm \<Rightarrow> nat \<Rightarrow> vm res" where
  "set_valid s n = (if n < BC_MAX_SLOTS then Ok (s\<lparr>global_valid := (global_valid s)(n := 1)\<rparr>) else Fault)"

text \<open>A local slot's storage: the caller's, when the slot is bound by reference.\<close>

definition bc_vm_local_cell :: "vm \<Rightarrow> int \<Rightarrow> (cell \<times> tcell) res" where
  "bc_vm_local_cell s idx =
     (if idx < 0 \<or> idx \<ge> int VM_MAX_LOCALS then bc_vm_error s ''Local index out of range''
      else case (local_ref_val s idx, local_ref_typ s idx) of
        (Some c, Some t) \<Rightarrow> Ok (c, t)
      | (Some c, None) \<Rightarrow> Fault
      | (None, _) \<Rightarrow> Ok (CLocal idx, TLocal idx))"

definition bc_vm_coerce_arg_value :: "BCValue \<Rightarrow> u8 \<Rightarrow> u8 \<Rightarrow> BCValue option" where
  "bc_vm_coerce_arg_value v from_type to_type =
     (if to_type = T_INT then
        (if from_type = T_NBR then f_trunc v else if from_type = T_STR then Some 0 else Some v)
      else if to_type = T_NBR then
        Some (if from_type = T_INT then f_of_i64 v else if from_type = T_STR then 0 else v)
      else Some v)"

text \<open>
  A string variable gets its buffer at the first assignment: \<open>if (!p->s) { p->s = BC_ALLOC(STRINGSIZE);
  if (!p->s) error }\<close>.
\<close>

definition string_buffer :: "vm \<Rightarrow> cell \<Rightarrow> (vm \<times> nat) res" where
  "string_buffer s c =
     bindO (get_cell s c) (\<lambda>v.
       if v_s v \<noteq> 0 then Ok (s, v_s v)
       else let (s1, p) = BC_ALLOC s STRINGSIZE in
         bindO (set_cell s1 c (set_s v p)) (\<lambda>s2.
           if p = 0 then bc_vm_error s2 ''Out of memory for string'' else Ok (s2, p)))"

definition string_assign :: "vm \<Rightarrow> cell \<Rightarrow> nat \<Rightarrow> vm res" where
  "string_assign s c src = bindO (string_buffer s c) (\<lambda>(s1, p). strcopy s1 p src)"

section \<open>Arrays\<close>

text \<open>The strides after the first dimension; every operation is in 32 bits.\<close>

fun offset_loop :: "(nat \<Rightarrow> 32 word) \<Rightarrow> (nat \<Rightarrow> i64) \<Rightarrow> nat \<Rightarrow> nat \<Rightarrow> u32 \<Rightarrow> u32 \<Rightarrow> u32" where
  "offset_loop ds ix 0 d offset stride = offset"
| "offset_loop ds ix (Suc k) d offset stride =
     (let stride' = stride * (ds (d - 1) + 1)
      in offset_loop ds ix k (d + 1) (offset + ucast (ix d) * stride') stride')"

definition index_bad :: "BCArray \<Rightarrow> (nat \<Rightarrow> i64) \<Rightarrow> nat \<Rightarrow> bool" where
  "index_bad arr ix d \<longleftrightarrow> sint (ix d) < 0 \<or> sint (ix d) \<ge> sint (dims arr d + 1)"

definition calc_array_offset :: "vm \<Rightarrow> BCArray \<Rightarrow> (nat \<Rightarrow> i64) \<Rightarrow> nat \<Rightarrow> u32 res" where
  "calc_array_offset s arr ix ndim =
     (if ndim = 0 \<or> ndim > MAXDIM then Fault
      else if \<exists>d\<in>set [0..<ndim]. index_bad arr ix d then bc_vm_error s ''Array index out of bounds''
      else let offset = offset_loop (dims arr) ix (ndim - 1) 1 (ucast (ix 0)) 1 in
        if offset \<ge> total_elements arr then bc_vm_error s ''Array index out of bounds'' else Ok offset)"

text \<open>The indices, last dimension on top of the stack; \<open>indices[MAXDIM]\<close> is on the C stack.\<close>

fun pop_indices :: "nat \<Rightarrow> (nat \<Rightarrow> i64) \<Rightarrow> vm \<Rightarrow> ((nat \<Rightarrow> i64) \<times> vm) res" where
  "pop_indices 0 ix s = Ok (ix, s)"
| "pop_indices (Suc d) ix s =
     (if d \<ge> MAXDIM then Fault
      else bindO (POP_NUMERIC_I s) (\<lambda>(v, s'). pop_indices d (ix(d := v)) s'))"

definition bc_array_release :: "vm \<Rightarrow> BCArray \<Rightarrow> (vm \<times> BCArray) res" where
  "bc_array_release s arr =
     (if adata arr = 0 then Ok (s, arr)
      else if data_external arr \<noteq> 0 then Ok (s, no_array)
      else bindO (BC_FREE s (adata arr)) (\<lambda>s'. Ok (s', no_array)))"

definition bc_stack_type_matches_array_param :: "u8 \<Rightarrow> u8 \<Rightarrow> bool" where
  "bc_stack_type_matches_array_param st pt =
     (if pt = T_INT then st = BC_STK_GARR_I \<or> st = BC_STK_LARR_I
      else if pt = T_NBR then st = BC_STK_GARR_F \<or> st = BC_STK_LARR_F
      else if pt = T_STR then st = BC_STK_GARR_S \<or> st = BC_STK_LARR_S
      else False)"

text \<open>\<open>int idx = (int)value.i\<close> keeps the low 32 bits.\<close>

definition bc_resolve_array_ref :: "vm \<Rightarrow> BCValue \<Rightarrow> u8 \<Rightarrow> BCArray res" where
  "bc_resolve_array_ref s v ty =
     (let idx = sint (ucast v :: u32) in
      if ty = BC_STK_GARR_I \<or> ty = BC_STK_GARR_F \<or> ty = BC_STK_GARR_S then
        (if idx < 0 \<or> idx \<ge> int BC_MAX_SLOTS then bc_vm_error s ''Global array reference out of range''
         else Ok (arrays s (nat idx)))
      else if ty = BC_STK_LARR_I \<or> ty = BC_STK_LARR_F \<or> ty = BC_STK_LARR_S then
        (if idx < 0 \<or> idx \<ge> int VM_MAX_LOCALS then bc_vm_error s ''Local array reference out of range''
         else Ok (local_arrays s idx))
      else bc_vm_error s ''Invalid array reference'')"

text \<open>
  A by-reference argument: the callee's slot is bound to the caller's cell. A reference to a
  parameter that is itself bound goes straight to the ultimate cell. The handle of an array element
  carries the element's address; its type cell is the slot's own.
\<close>

definition ref_target :: "vm \<Rightarrow> BCCallFrame \<Rightarrow> int \<Rightarrow> (cell \<times> tcell) res" where
  "ref_target s cf slot =
     bindO (TOS s) (\<lambda>packed. bindO (TOS_type s) (\<lambda>st.
       if st = BC_STK_SREF_L then
         let caller_abs = cf_frame_base cf + int (unat packed mod 2 ^ 16) in
         if caller_abs < 0 \<or> caller_abs \<ge> int VM_MAX_LOCALS then Fault
         else case (local_ref_val s caller_abs, local_ref_typ s caller_abs) of
           (Some c, Some t) \<Rightarrow> Ok (c, t)
         | (Some c, None) \<Rightarrow> Fault
         | (None, _) \<Rightarrow> Ok (CLocal caller_abs, TLocal caller_abs)
       else if st = BC_STK_SREF_G then
         let g = unat packed mod 2 ^ 16 in
         if g < BC_MAX_SLOTS then Ok (CGlobal g, TGlobal g) else Fault
       else Ok (CMem (v_s packed), TLocal slot)))"

definition bc_vm_bind_scalar_ref :: "vm \<Rightarrow> BCCallFrame \<Rightarrow> int \<Rightarrow> u8 \<Rightarrow> vm res" where
  "bc_vm_bind_scalar_ref s cf slot param_type =
     bindO (ref_target s cf slot) (\<lambda>(c, t).
       Ok (s\<lparr>local_ref_val := (local_ref_val s)(slot := Some c), local_ref_typ := (local_ref_typ s)(slot := Some t),
             local_types := (local_types s)(slot := param_type),
             local_array_is_alias := (local_array_is_alias s)(slot := 0),
             local_arrays := (local_arrays s)(slot := no_array), locals := (locals s)(slot := 0), sp := sp s - 1\<rparr>))"

section \<open>Interrupt polling and output\<close>

definition bc_vm_poll_interrupts :: "vm \<Rightarrow> vm" where
  "bc_vm_poll_interrupts s =
     (let n = loop_poll_counter s + 1; s' = s\<lparr>loop_poll_counter := n\<rparr>
      in if n AND 0x3FF \<noteq> 0 then s' else s'\<lparr>serviced := serviced s' + 1\<rparr>)"

definition vm_output :: "vm \<Rightarrow> string \<Rightarrow> vm" where
  "vm_output s str = s\<lparr>printed := printed s @ str\<rparr>"

text \<open>The copy is terminated and printed as a C string: it stops at the first zero byte.\<close>

definition vm_output_mstr :: "vm \<Rightarrow> nat \<Rightarrow> vm res" where
  "vm_output_mstr s a =
     (if a = 0 then Ok s
      else bindO (rd s a) (\<lambda>len. if len = 0 then Ok s
        else bindO (of_opt (rd_bytes rd_byte s (a + 1) (unat len))) (\<lambda>bs.
          Ok (vm_output s (cstr_string (c_strlen_bytes bs))))))"

end
