(* ===== verification/VmOps.thy ===== *)
theory VmOps
  imports VmState
begin

text \<open>
  The handlers of \<open>bc_vm_execute\<close> for values, arithmetic, comparison, global variables, arrays, jumps,
  \<open>GOSUB\<close> and \<open>FOR\<close> loops, one definition per label (or per group of labels that differ in the type
  only). A handler runs with \<open>pc\<close> past its operands. The functions of \<open>libm\<close> are the record \<open>libm\<close>.
\<close>

record libm =
  m_pow :: "u64 \<Rightarrow> u64 \<Rightarrow> u64"
  m_sqrt :: "u64 \<Rightarrow> u64"
  m_sin :: "u64 \<Rightarrow> u64"
  m_cos :: "u64 \<Rightarrow> u64"
  m_tan :: "u64 \<Rightarrow> u64"
  m_atan :: "u64 \<Rightarrow> u64"
  m_asin :: "u64 \<Rightarrow> u64"
  m_acos :: "u64 \<Rightarrow> u64"
  m_atan2 :: "u64 \<Rightarrow> u64 \<Rightarrow> u64"
  m_log :: "u64 \<Rightarrow> u64"
  m_exp :: "u64 \<Rightarrow> u64"

definition F0 :: u64 where "F0 = 0"

section \<open>Values and globals\<close>

definition op_push_str :: "u16 \<Rightarrow> vm \<Rightarrow> vm res" where
  "op_push_str idx s =
     (if unat idx \<ge> length (constants (compiler s))
      then bc_vm_error s (''Invalid string constant index '' @ dec_nat (unat idx))
      else
        let bs = const_bytes (compiler s) (unat idx); len = const_len (constants (compiler s) ! unat idx);
            (s1, tmp) = vm_get_str_temp s
        in bindO (wr s1 tmp (ucast len)) (\<lambda>s2. bindO (of_opt (wr_bytes wr_byte s2 (tmp + 1) bs)) (PUSH_S tmp)))"

definition op_load :: "vty \<Rightarrow> u16 \<Rightarrow> vm \<Rightarrow> vm res" where
  "op_load t slot s =
     bindO (get_cell s (CGlobal (unat slot))) (\<lambda>v.
       case t of TI \<Rightarrow> PUSH_I v s | TF \<Rightarrow> PUSH_F v s
       | TS \<Rightarrow> PUSH_S (if v_s v \<noteq> 0 then v_s v else EMPTY_ADDR) s)"

definition op_store :: "vty \<Rightarrow> u16 \<Rightarrow> vm \<Rightarrow> vm res" where
  "op_store t slot s =
     (case t of
        TI \<Rightarrow> bindO (POP_as_I s) (\<lambda>(v, s1). bindO (set_cell s1 (CGlobal (unat slot)) v) (\<lambda>s2. set_valid s2 (unat slot)))
      | TF \<Rightarrow> bindO (POP_as_F s) (\<lambda>(v, s1). bindO (set_cell s1 (CGlobal (unat slot)) v) (\<lambda>s2. set_valid s2 (unat slot)))
      | TS \<Rightarrow> bindO (POP_S s) (\<lambda>(a, s1). bindO (string_assign s1 (CGlobal (unat slot)) a) (\<lambda>s2. set_valid s2 (unat slot))))"

definition op_pop :: "vm \<Rightarrow> vm res" where
  "op_pop s = (if sp s < 0 then bc_vm_error s ''Stack underflow'' else Ok (s\<lparr>sp := sp s - 1\<rparr>))"

definition op_dup :: "vm \<Rightarrow> vm res" where
  "op_dup s =
     (if sp s < 0 then bc_vm_error s ''Stack underflow on DUP''
      else if sp s \<ge> VM_STACK_SIZE - 1 then bc_vm_error s ''Stack overflow on DUP''
      else Ok (s\<lparr>stack := (stack s)(sp s + 1 := stack s (sp s)),
                 stack_types := (stack_types s)(sp s + 1 := stack_types s (sp s)), sp := sp s + 1\<rparr>))"

definition op_cvt_i2f :: "vm \<Rightarrow> vm res" where
  "op_cvt_i2f s = bindO (TOS s) (\<lambda>v. bindO (set_TOS (f_of_i64 v) s) (set_TOS_type T_NBR))"

definition op_cvt_f2i :: "vm \<Rightarrow> vm res" where
  "op_cvt_f2i s = bindO (TOS s) (\<lambda>x. bindO (of_opt (f_round_half_away x)) (\<lambda>i. bindO (set_TOS i s) (set_TOS_type T_INT)))"

section \<open>Arithmetic\<close>

text \<open>
  \<open>/\<close> and \<open>%\<close> of the most negative integer by \<open>-1\<close> and shifts by a count outside \<open>0..63\<close> are
  undefined in C.
\<close>

definition int_div_ok :: "i64 \<Rightarrow> i64 \<Rightarrow> bool" where
  "int_div_ok a b \<longleftrightarrow> \<not> (sint a = - (2 ^ 63) \<and> sint b = -1)"

definition shift_ok :: "i64 \<Rightarrow> bool" where
  "shift_ok b \<longleftrightarrow> 0 \<le> sint b \<and> sint b < 64"

definition int_op :: "ibin \<Rightarrow> i64 \<Rightarrow> i64 \<Rightarrow> vm \<Rightarrow> i64 res" where
  "int_op f a b s = (case f of
      ADD \<Rightarrow> Ok (a + b) | SUB \<Rightarrow> Ok (a - b) | MUL \<Rightarrow> Ok (vm_mul_i_wrap a b)
    | IDIV \<Rightarrow> if b = 0 then bc_vm_error s ''Division by zero'' else if int_div_ok a b then Ok (sdiv64 a b) else Fault
    | MOD \<Rightarrow> if b = 0 then bc_vm_error s ''Division by zero'' else if int_div_ok a b then Ok (smod64 a b) else Fault
    | BAND \<Rightarrow> Ok (a AND b) | BOR \<Rightarrow> Ok (a OR b) | BXOR \<Rightarrow> Ok (a XOR b)
    | SHL \<Rightarrow> if shift_ok b then Ok (push_bit (unat b) a) else Fault
    | SHR \<Rightarrow> if shift_ok b then Ok (drop_bit (unat b) a) else Fault)"

text \<open>\<open>int64_t b = POP_I(); stack[sp].i OP= b;\<close>, the type tag left as it is.\<close>

definition op_bin_i :: "ibin \<Rightarrow> vm \<Rightarrow> vm res" where
  "op_bin_i f s = bindO (POP s) (\<lambda>(b, s1). bindO (TOS s1) (\<lambda>a. bindO (int_op f a b s1) (\<lambda>v. set_TOS v s1)))"

definition flt_op :: "libm \<Rightarrow> fbin \<Rightarrow> u64 \<Rightarrow> u64 \<Rightarrow> vm \<Rightarrow> u64 res" where
  "flt_op m f a b s = (case f of
      FADD \<Rightarrow> Ok (f_add a b) | FSUB \<Rightarrow> Ok (f_sub a b) | FMUL \<Rightarrow> Ok (f_mul a b)
    | FDIV \<Rightarrow> if f_eq b F0 then bc_vm_error s ''Division by zero'' else Ok (f_div a b)
    | FPOW \<Rightarrow> Ok (m_pow m a b)
    | FMOD \<Rightarrow> if f_eq b F0 then bc_vm_error s ''Division by zero'' else Ok (f_mod a b))"

definition op_bin_f :: "libm \<Rightarrow> fbin \<Rightarrow> vm \<Rightarrow> vm res" where
  "op_bin_f m f s = bindO (POP s) (\<lambda>(b, s1). bindO (TOS s1) (\<lambda>a. bindO (flt_op m f a b s1) (\<lambda>v. set_TOS v s1)))"

definition op_neg_i :: "vm \<Rightarrow> vm res" where "op_neg_i s = bindO (TOS s) (\<lambda>a. set_TOS (- a) s)"
definition op_neg_f :: "vm \<Rightarrow> vm res" where "op_neg_f s = bindO (TOS s) (\<lambda>a. set_TOS (f_neg a) s)"
definition op_not :: "vm \<Rightarrow> vm res" where "op_not s = bindO (TOS s) (\<lambda>a. set_TOS (if a \<noteq> 0 then 0 else 1) s)"
definition op_inv :: "vm \<Rightarrow> vm res" where "op_inv s = bindO (TOS s) (\<lambda>a. set_TOS (NOT a) s)"

section \<open>Comparison\<close>

definition cmp_i :: "rel \<Rightarrow> i64 \<Rightarrow> i64 \<Rightarrow> bool" where
  "cmp_i r a b = (case r of EQ \<Rightarrow> a = b | NE \<Rightarrow> a \<noteq> b | LT \<Rightarrow> sint a < sint b | GT \<Rightarrow> sint a > sint b
     | LE \<Rightarrow> sint a \<le> sint b | GE \<Rightarrow> sint a \<ge> sint b)"

definition cmp_f :: "rel \<Rightarrow> u64 \<Rightarrow> u64 \<Rightarrow> bool" where
  "cmp_f r a b = (case r of EQ \<Rightarrow> f_eq a b | NE \<Rightarrow> \<not> f_eq a b | LT \<Rightarrow> f_lt a b | GT \<Rightarrow> f_lt b a
     | LE \<Rightarrow> f_le a b | GE \<Rightarrow> f_le b a)"

definition cmp_sign :: "rel \<Rightarrow> int \<Rightarrow> bool" where
  "cmp_sign r c = (case r of EQ \<Rightarrow> c = 0 | NE \<Rightarrow> c \<noteq> 0 | LT \<Rightarrow> c < 0 | GT \<Rightarrow> c > 0 | LE \<Rightarrow> c \<le> 0 | GE \<Rightarrow> c \<ge> 0)"

definition op_cmp_i :: "rel \<Rightarrow> vm \<Rightarrow> vm res" where
  "op_cmp_i r s = bindO (POP s) (\<lambda>(b, s1). bindO (TOS s1) (\<lambda>a. set_TOS (bool_i64 (cmp_i r a b)) s1))"

definition op_cmp_f :: "rel \<Rightarrow> vm \<Rightarrow> vm res" where
  "op_cmp_f r s = bindO (POP s) (\<lambda>(b, s1). bindO (POP s1) (\<lambda>(a, s2). PUSH_I (bool_i64 (cmp_f r a b)) s2))"

definition op_cmp_s :: "rel \<Rightarrow> vm \<Rightarrow> vm res" where
  "op_cmp_s r s =
     bindO (POP_S s) (\<lambda>(b, s1). bindO (POP_S s1) (\<lambda>(a, s2).
       bindO (of_opt (Mstrcmp rd_byte s2 a b)) (\<lambda>c. PUSH_I (bool_i64 (cmp_sign r c)) s2)))"

section \<open>Control flow\<close>

definition rel_jump :: "u16 \<Rightarrow> vm \<Rightarrow> vm" where
  "rel_jump off s =
     (let d = sint off; s1 = (if d < 0 then bc_vm_poll_interrupts s else s) in s1\<lparr>pc := pc s1 + d\<rparr>)"

definition op_jmp :: "u16 \<Rightarrow> vm \<Rightarrow> vm res" where "op_jmp off s = Ok (rel_jump off s)"

definition op_jmp_abs :: "u32 \<Rightarrow> vm \<Rightarrow> vm res" where "op_jmp_abs addr s = Ok (s\<lparr>pc := uint addr\<rparr>)"

definition op_jz :: "u16 \<Rightarrow> vm \<Rightarrow> vm res" where
  "op_jz off s = bindO (POP_NUMERIC_I s) (\<lambda>(v, s1). Ok (if v = 0 then rel_jump off s1 else s1))"

definition op_jnz :: "u16 \<Rightarrow> vm \<Rightarrow> vm res" where
  "op_jnz off s = bindO (POP_NUMERIC_I s) (\<lambda>(v, s1). Ok (if v \<noteq> 0 then rel_jump off s1 else s1))"

definition rel_of :: "u8 \<Rightarrow> rel option" where
  "rel_of r = (if r = 1 then Some EQ else if r = 2 then Some NE else if r = 3 then Some LT
     else if r = 4 then Some GT else if r = 5 then Some LE else if r = 6 then Some GE else None)"

definition op_jcmp_i :: "u8 \<Rightarrow> u16 \<Rightarrow> vm \<Rightarrow> vm res" where
  "op_jcmp_i r off s =
     bindO (POP s) (\<lambda>(b, s1). bindO (POP s1) (\<lambda>(a, s2).
       case rel_of r of None \<Rightarrow> bc_vm_error s2 (''Invalid JCMP_I relation '' @ dec_nat (unat r))
       | Some c \<Rightarrow> Ok (if cmp_i c a b then rel_jump off s2 else s2)))"

definition op_jcmp_f :: "u8 \<Rightarrow> u16 \<Rightarrow> vm \<Rightarrow> vm res" where
  "op_jcmp_f r off s =
     bindO (POP s) (\<lambda>(b, s1). bindO (POP s1) (\<lambda>(a, s2).
       case rel_of r of None \<Rightarrow> bc_vm_error s2 (''Invalid JCMP_F relation '' @ dec_nat (unat r))
       | Some c \<Rightarrow> Ok (if cmp_f c a b then rel_jump off s2 else s2)))"

text \<open>The top bit of a slot operand selects the frame's locals.\<close>

definition raw_local :: "u16 \<Rightarrow> bool" where "raw_local r \<longleftrightarrow> r AND 0x8000 \<noteq> 0"
definition raw_slot :: "u16 \<Rightarrow> nat" where "raw_slot r = unat (r AND 0x7FFF)"

definition mov_cell :: "vm \<Rightarrow> u16 \<Rightarrow> (cell \<times> tcell option) res" where
  "mov_cell s raw =
     (if raw_local raw then bindO (bc_vm_local_cell s (frame_base s + int (raw_slot raw))) (\<lambda>(c, t). Ok (c, Some t))
      else Ok (CGlobal (raw_slot raw), None))"

definition mov_done :: "u16 \<Rightarrow> tcell option \<Rightarrow> u8 \<Rightarrow> vm \<Rightarrow> vm res" where
  "mov_done raw t ty s = (case t of Some tc \<Rightarrow> set_tcell s tc ty | None \<Rightarrow> set_valid s (raw_slot raw))"

definition BC_MOV_INT :: u8 where "BC_MOV_INT = 1"
definition BC_MOV_FLT :: u8 where "BC_MOV_FLT = 2"
definition BC_MOV_STR :: u8 where "BC_MOV_STR = 3"

definition op_mov_var :: "u8 \<Rightarrow> u16 \<Rightarrow> u16 \<Rightarrow> vm \<Rightarrow> vm res" where
  "op_mov_var kind src_raw dst_raw s =
     bindO (mov_cell s src_raw) (\<lambda>(src, _). bindO (mov_cell s dst_raw) (\<lambda>(dst, t).
       if kind = BC_MOV_INT then bindO (get_cell s src) (\<lambda>v. bindO (set_cell s dst v) (mov_done dst_raw t T_INT))
       else if kind = BC_MOV_FLT then bindO (get_cell s src) (\<lambda>v. bindO (set_cell s dst v) (mov_done dst_raw t T_NBR))
       else if kind = BC_MOV_STR then
         bindO (string_buffer s dst) (\<lambda>(s1, p). bindO (get_cell s1 src) (\<lambda>sv.
           bindO (strcopy s1 p (if v_s sv \<noteq> 0 then v_s sv else LIT_ADDR)) (mov_done dst_raw t T_STR)))
       else bc_vm_error s (''Invalid MOV_VAR kind '' @ dec_nat (unat kind))))"

definition op_gosub :: "u32 \<Rightarrow> vm \<Rightarrow> vm res" where
  "op_gosub addr s =
     (if gsp s \<ge> int VM_MAX_GOSUB then bc_vm_error s ''GOSUB stack overflow''
      else if gsp s < 0 then Fault
      else Ok (s\<lparr>gosub_stack := (gosub_stack s)(gsp s := pc s), gsp := gsp s + 1, pc := uint addr\<rparr>))"

definition op_return :: "vm \<Rightarrow> vm res" where
  "op_return s =
     (if gsp s \<le> 0 then bc_vm_error s ''RETURN without GOSUB''
      else if gsp s > int VM_MAX_GOSUB then Fault
      else Ok (s\<lparr>gsp := gsp s - 1, pc := gosub_stack s (gsp s - 1)\<rparr>))"

section \<open>FOR loops\<close>

text \<open>The three slots of a loop are read directly, not through by-reference bindings.\<close>

definition for_cell :: "vm \<Rightarrow> u16 \<Rightarrow> cell" where
  "for_cell s raw = (if raw_local raw then CLocal (frame_base s + int (raw_slot raw)) else CGlobal (raw_slot raw))"

definition for_push :: "u16 \<Rightarrow> u16 \<Rightarrow> u16 \<Rightarrow> u8 \<Rightarrow> vm \<Rightarrow> vm res" where
  "for_push raw_var raw_lim raw_step ty s =
     (if fsp s \<ge> int VM_MAX_FOR then bc_vm_error s ''FOR stack overflow''
      else if fsp s < 0 then Fault
      else Ok (s\<lparr>for_stack := (for_stack s)(fsp s := \<lparr>fe_var_slot = raw_var, fe_lim_slot = raw_lim, fe_step_slot = raw_step,
              loop_top = pc s, is_local = (if raw_local raw_var then 1 else 0), var_type = ty\<rparr>), fsp := fsp s + 1\<rparr>))"

definition op_for_init_i :: "u16 \<Rightarrow> u16 \<Rightarrow> u16 \<Rightarrow> u16 \<Rightarrow> vm \<Rightarrow> vm res" where
  "op_for_init_i raw_var raw_lim raw_step exit_off s =
     bindO (for_push raw_var raw_lim raw_step T_INT s) (\<lambda>s1.
       bindO (get_cell s1 (for_cell s1 raw_var)) (\<lambda>val. bindO (get_cell s1 (for_cell s1 raw_lim)) (\<lambda>lim.
         bindO (get_cell s1 (for_cell s1 raw_step)) (\<lambda>step.
           if sint step > 0 \<and> sint val > sint lim \<or> sint step < 0 \<and> sint val < sint lim
           then Ok (s1\<lparr>fsp := fsp s1 - 1, pc := pc s1 + sint exit_off\<rparr>)
           else if step = 0 then bc_vm_error s1 ''FOR step cannot be zero'' else Ok s1))))"

definition for_valid :: "u16 \<Rightarrow> vm \<Rightarrow> vm res" where
  "for_valid raw s = (if raw_local raw then Ok s else set_valid s (raw_slot raw))"

definition for_close :: "bool \<Rightarrow> u16 \<Rightarrow> vm \<Rightarrow> vm" where
  "for_close past loop_off s =
     (if \<not> past then rel_jump loop_off s else if fsp s > 0 then s\<lparr>fsp := fsp s - 1\<rparr> else s)"

definition op_for_next_i :: "u16 \<Rightarrow> u16 \<Rightarrow> u16 \<Rightarrow> u16 \<Rightarrow> vm \<Rightarrow> vm res" where
  "op_for_next_i raw_var raw_lim raw_step loop_off s =
     bindO (get_cell s (for_cell s raw_step)) (\<lambda>step. bindO (get_cell s (for_cell s raw_var)) (\<lambda>v0.
       bindO (set_cell s (for_cell s raw_var) (v0 + step)) (\<lambda>s1. bindO (for_valid raw_var s1) (\<lambda>s2.
         bindO (get_cell s2 (for_cell s2 raw_var)) (\<lambda>val. bindO (get_cell s2 (for_cell s2 raw_lim)) (\<lambda>lim.
           Ok (for_close (if sint step > 0 then sint val > sint lim else sint val < sint lim) loop_off s2)))))))"

definition op_for_init_f :: "u16 \<Rightarrow> u16 \<Rightarrow> u16 \<Rightarrow> u16 \<Rightarrow> vm \<Rightarrow> vm res" where
  "op_for_init_f raw_var raw_lim raw_step exit_off s =
     bindO (for_push raw_var raw_lim raw_step T_NBR s) (\<lambda>s1.
       bindO (get_cell s1 (for_cell s1 raw_var)) (\<lambda>val. bindO (get_cell s1 (for_cell s1 raw_lim)) (\<lambda>lim.
         bindO (get_cell s1 (for_cell s1 raw_step)) (\<lambda>step.
           if f_lt F0 step \<and> f_lt lim val \<or> f_lt step F0 \<and> f_lt val lim
           then Ok (s1\<lparr>fsp := fsp s1 - 1, pc := pc s1 + sint exit_off\<rparr>)
           else if f_eq step F0 then bc_vm_error s1 ''FOR step cannot be zero'' else Ok s1))))"

definition op_for_next_f :: "u16 \<Rightarrow> u16 \<Rightarrow> u16 \<Rightarrow> u16 \<Rightarrow> vm \<Rightarrow> vm res" where
  "op_for_next_f raw_var raw_lim raw_step loop_off s =
     bindO (get_cell s (for_cell s raw_step)) (\<lambda>step. bindO (get_cell s (for_cell s raw_var)) (\<lambda>v0.
       bindO (set_cell s (for_cell s raw_var) (f_add v0 step)) (\<lambda>s1. bindO (for_valid raw_var s1) (\<lambda>s2.
         bindO (get_cell s2 (for_cell s2 raw_var)) (\<lambda>val. bindO (get_cell s2 (for_cell s2 raw_lim)) (\<lambda>lim.
           Ok (for_close (if f_lt F0 step then f_lt lim val else f_lt val lim) loop_off s2)))))))"

end
