(* ===== verification/VmArr.thy ===== *)
theory VmArr
  imports VmOps
begin

text \<open>
  The array handlers of \<open>bc_vm_execute\<close>: element access, \<open>DIM\<close>, and the fields of structures. Arrays
  are stored column-major; every dimension of size \<open>N\<close> has the elements \<open>0..N\<close>.
\<close>

section \<open>Where an array record is kept\<close>

datatype aref = AGlobal nat | ALocal int

definition get_arr :: "vm \<Rightarrow> aref \<Rightarrow> BCArray" where
  "get_arr s r = (case r of AGlobal n \<Rightarrow> arrays s n | ALocal i \<Rightarrow> local_arrays s i)"

definition set_arr :: "vm \<Rightarrow> aref \<Rightarrow> BCArray \<Rightarrow> vm" where
  "set_arr s r a = (case r of AGlobal n \<Rightarrow> s\<lparr>arrays := (arrays s)(n := a)\<rparr> | ALocal i \<Rightarrow> s\<lparr>local_arrays := (local_arrays s)(i := a)\<rparr>)"

definition garr :: "vm \<Rightarrow> u16 \<Rightarrow> aref res" where
  "garr s slot = (if unat slot < BC_MAX_SLOTS then Ok (AGlobal (unat slot)) else Fault)"

definition larr :: "vm \<Rightarrow> u16 \<Rightarrow> aref res" where
  "larr s offset =
     (let idx = frame_base s + int (unat offset) in
      if idx \<ge> int VM_MAX_LOCALS then bc_vm_error s ''Local array index out of range''
      else if idx < 0 then Fault else Ok (ALocal idx))"

text \<open>\<open>&arr->data[off]\<close> and \<open>(uint8_t *)arr->data + off * STRINGSIZE\<close>, in 32-bit address arithmetic.\<close>

definition elem_addr :: "BCArray \<Rightarrow> u32 \<Rightarrow> vty \<Rightarrow> nat" where
  "elem_addr arr off t = unat (of_nat (adata arr) + off * (if t = TS then 256 else 8) :: u32)"

definition ty_tag :: "vty \<Rightarrow> u8" where
  "ty_tag t = (case t of TI \<Rightarrow> T_INT | TF \<Rightarrow> T_NBR | TS \<Rightarrow> T_STR)"

definition garr_tag :: "vty \<Rightarrow> u8" where
  "garr_tag t = (case t of TI \<Rightarrow> BC_STK_GARR_I | TF \<Rightarrow> BC_STK_GARR_F | TS \<Rightarrow> BC_STK_GARR_S)"

definition larr_tag :: "vty \<Rightarrow> u8" where
  "larr_tag t = (case t of TI \<Rightarrow> BC_STK_LARR_I | TF \<Rightarrow> BC_STK_LARR_F | TS \<Rightarrow> BC_STK_LARR_S)"

section \<open>Elements\<close>

definition load_elem :: "vty \<Rightarrow> aref \<Rightarrow> nat \<Rightarrow> vm \<Rightarrow> vm res" where
  "load_elem t r ndim s =
     bindO (pop_indices ndim (\<lambda>_. 0) s) (\<lambda>(ix, s1).
       bindO (calc_array_offset s1 (get_arr s1 r) ix ndim) (\<lambda>off.
         let a = elem_addr (get_arr s1 r) off t in
         if t = TS then PUSH_S a s1
         else bindO (of_opt (rd64 s1 a)) (\<lambda>v. if t = TI then PUSH_I v s1 else PUSH_F v s1)))"

definition store_elem :: "vty \<Rightarrow> aref \<Rightarrow> nat \<Rightarrow> vm \<Rightarrow> vm res" where
  "store_elem t r ndim s =
     bindO (case t of TI \<Rightarrow> POP_NUMERIC_I s | TF \<Rightarrow> POP_as_F s
            | TS \<Rightarrow> bindO (POP_S s) (\<lambda>(a, s'). Ok (of_nat a, s'))) (\<lambda>(v, s1).
       bindO (pop_indices ndim (\<lambda>_. 0) s1) (\<lambda>(ix, s2).
         bindO (calc_array_offset s2 (get_arr s2 r) ix ndim) (\<lambda>off.
           let a = elem_addr (get_arr s2 r) off t in
           if t = TS then strcopy s2 a (unat v) else of_opt (wr64 s2 a v))))"

definition op_load_arr :: "vty \<Rightarrow> u16 \<Rightarrow> u8 \<Rightarrow> vm \<Rightarrow> vm res" where
  "op_load_arr t slot ndim s =
     bindO (garr s slot) (\<lambda>r.
       if adata (get_arr s r) = 0 then bc_vm_error s ''Array not dimensioned''
       else if ndim = 0 then bc_push_array_ref (garr_tag t) (ucast slot) s
       else load_elem t r (unat ndim) s)"

definition op_store_arr :: "vty \<Rightarrow> u16 \<Rightarrow> u8 \<Rightarrow> vm \<Rightarrow> vm res" where
  "op_store_arr t slot ndim s =
     bindO (garr s slot) (\<lambda>r.
       if adata (get_arr s r) = 0 then bc_vm_error s ''Array not dimensioned'' else store_elem t r (unat ndim) s)"

definition op_load_local_arr :: "vty \<Rightarrow> u16 \<Rightarrow> u8 \<Rightarrow> vm \<Rightarrow> vm res" where
  "op_load_local_arr t offset ndim s =
     bindO (larr s offset) (\<lambda>r.
       if adata (get_arr s r) = 0 then bc_vm_error s ''Local array not dimensioned''
       else if ndim = 0 then bc_push_array_ref (larr_tag t) (word_of_int (frame_base s + int (unat offset))) s
       else load_elem t r (unat ndim) s)"

definition op_store_local_arr :: "vty \<Rightarrow> u16 \<Rightarrow> u8 \<Rightarrow> vm \<Rightarrow> vm res" where
  "op_store_local_arr t offset ndim s =
     bindO (larr s offset) (\<lambda>r.
       if adata (get_arr s r) = 0 then bc_vm_error s ''Local array not dimensioned'' else store_elem t r (unat ndim) s)"

text \<open>The handle of an element steps by \<open>sizeof(BCValue)\<close> whatever the element type.\<close>

definition op_pushref_aelem :: "u16 \<Rightarrow> u8 \<Rightarrow> u8 \<Rightarrow> vm \<Rightarrow> vm res" where
  "op_pushref_aelem slot loc ndim s =
     bindO (if loc \<noteq> 0 then larr s slot
            else if unat slot \<ge> BC_MAX_SLOTS then bc_vm_error s ''Array slot out of range''
            else Ok (AGlobal (unat slot))) (\<lambda>r.
       if adata (get_arr s r) = 0 then bc_vm_error s ''Array not dimensioned''
       else bindO (pop_indices (unat ndim) (\<lambda>_. 0) s) (\<lambda>(ix, s1).
         bindO (calc_array_offset s1 (get_arr s1 r) ix (unat ndim)) (\<lambda>off.
           if sp s1 + 1 \<ge> VM_STACK_SIZE then bc_vm_error s1 ''Stack overflow''
           else push BC_STK_SREF_AELEM (set_s (stack s1 (sp s1 + 1)) (elem_addr (get_arr s1 r) off TI)) s1)))"

section \<open>DIM\<close>

text \<open>The loop over the dimensions: \<open>total\<close> is a \<open>uint32_t\<close>, and the array record is written as it goes.\<close>

fun dim_loop :: "aref \<Rightarrow> (nat \<Rightarrow> i64) \<Rightarrow> nat \<Rightarrow> nat \<Rightarrow> u32 \<Rightarrow> vm \<Rightarrow> (u32 \<times> vm) res" where
  "dim_loop r ds 0 d tot s = Ok (tot, s)"
| "dim_loop r ds (Suc k) d tot s =
     (if sint (ds d) \<le> 0 then bc_vm_error s ''Dimensions''
      else dim_loop r ds k (d + 1) (tot * ucast (ds d + 1))
        (set_arr s r ((get_arr s r)\<lparr>dims := (dims (get_arr s r))(d := ucast (ds d))\<rparr>)))"

text \<open>\<open>BC_ALLOC(total * size)\<close> with a 32-bit \<open>size_t\<close>, then \<open>memset\<close> of as many bytes.\<close>

definition dim_array :: "aref \<Rightarrow> vty \<Rightarrow> u8 \<Rightarrow> vm \<Rightarrow> vm res" where
  "dim_array r t ndim s =
     (if adata (get_arr s r) \<noteq> 0 then bc_vm_error s ''Array already dimensioned''
      else
        let s0 = set_arr s r ((get_arr s r)\<lparr>ndims := ndim, elem_type := ty_tag t\<rparr>) in
        bindO (pop_indices (unat ndim) (\<lambda>_. 0) s0) (\<lambda>(ds, s1).
          bindO (dim_loop r ds (unat ndim) 0 1 s1) (\<lambda>(tot, s2).
            let bytes = unat (tot * (if t = TS then 256 else 8));
                s3 = set_arr s2 r ((get_arr s2 r)\<lparr>total_elements := tot\<rparr>);
                (s4, p) = BC_ALLOC s3 bytes;
                s5 = set_arr s4 r ((get_arr s4 r)\<lparr>adata := p\<rparr>)
            in if p = 0 then bc_vm_error s5 ''Out of memory for array'' else fill s5 p 0 bytes)))"

definition op_dim_arr :: "vty \<Rightarrow> u16 \<Rightarrow> u8 \<Rightarrow> vm \<Rightarrow> vm res" where
  "op_dim_arr t slot ndim s = bindO (garr s slot) (\<lambda>r. dim_array r t ndim s)"

definition op_dim_local_arr :: "vty \<Rightarrow> u16 \<Rightarrow> u8 \<Rightarrow> vm \<Rightarrow> vm res" where
  "op_dim_local_arr t slot ndim s =
     (let idx = frame_base s + int (unat slot) in
      if idx < 0 \<or> idx \<ge> int VM_MAX_LOCALS then bc_vm_error s ''Local array index out of range''
      else bindO (dim_array (ALocal idx) t ndim s) (\<lambda>s1.
        Ok (s1\<lparr>local_array_is_alias := (local_array_is_alias s1)(idx := 0),
               local_types := (local_types s1)(idx := ty_tag t)\<rparr>)))"

section \<open>Structure fields\<close>

definition struct_base :: "vm \<Rightarrow> u16 \<Rightarrow> nat res" where
  "struct_base s slot =
     (if unat slot < BC_MAX_SLOTS then
        (if adata (arrays s (unat slot)) = 0 then bc_vm_error s ''Struct variable not dimensioned''
         else Ok (adata (arrays s (unat slot))))
      else Fault)"

definition op_load_struct_field :: "vty \<Rightarrow> u16 \<Rightarrow> u16 \<Rightarrow> vm \<Rightarrow> vm res" where
  "op_load_struct_field t slot offset s =
     bindO (struct_base s slot) (\<lambda>base.
       if t = TS then PUSH_S (base + unat offset) s
       else bindO (of_opt (rd64 s (base + unat offset))) (\<lambda>v. if t = TI then PUSH_I v s else PUSH_F v s))"

definition op_store_struct_field_n :: "vty \<Rightarrow> u16 \<Rightarrow> u16 \<Rightarrow> vm \<Rightarrow> vm res" where
  "op_store_struct_field_n t slot offset s =
     bindO (struct_base s slot) (\<lambda>base.
       bindO (if t = TI then POP_as_I s else POP_as_F s) (\<lambda>(v, s1). of_opt (wr64 s1 (base + unat offset) v)))"

definition op_store_struct_field_s :: "u16 \<Rightarrow> u16 \<Rightarrow> u16 \<Rightarrow> vm \<Rightarrow> vm res" where
  "op_store_struct_field_s slot offset sz s =
     bindO (struct_base s slot) (\<lambda>base.
       bindO (POP_S s) (\<lambda>(src, s1). bindO (rd s1 src) (\<lambda>len.
         if unat len > unat sz then bc_vm_error s1 ''String too long'' else strcopy s1 (base + unat offset) src)))"

end
