(* ===== verification/VmCall.thy ===== *)
theory VmCall
  imports VmArr
begin

text \<open>
  Calls of SUBs and FUNCTIONs: binding of arguments, frames, local variables and by-reference
  handles. A frame's locals are \<open>frame_base .. locals_top\<close>; a FUNCTION's slot 0 is its result.
\<close>

section \<open>Binding the arguments\<close>

definition entry8 :: "u8 list \<Rightarrow> nat \<Rightarrow> u8" where
  "entry8 xs i = (if i < length xs then xs ! i else 0)"

definition arg_param_type :: "BCSubFun \<Rightarrow> nat \<Rightarrow> u8 \<Rightarrow> u8" where
  "arg_param_type sf i arg_type =
     (let pt = (if i < unat (sf_nparams sf) \<and> i < BC_MAX_PARAMS then entry8 (sf_param_types sf) i else arg_type)
      in if pt = 0 then arg_type else pt)"

definition arg_is_array :: "BCSubFun \<Rightarrow> nat \<Rightarrow> bool" where
  "arg_is_array sf i \<longleftrightarrow> i < unat (sf_nparams sf) \<and> i < BC_MAX_PARAMS \<and> entry8 (sf_param_is_array sf) i \<noteq> 0"

definition bind_array :: "int \<Rightarrow> u8 \<Rightarrow> u8 \<Rightarrow> vm \<Rightarrow> vm res" where
  "bind_array slot arg_type param_type s =
     (if \<not> bc_stack_type_matches_array_param arg_type param_type then bc_vm_error s ''Array parameter type mismatch''
      else bindO (TOS s) (\<lambda>v. bindO (bc_resolve_array_ref s v arg_type) (\<lambda>src.
        Ok (s\<lparr>local_arrays := (local_arrays s)(slot := src), local_array_is_alias := (local_array_is_alias s)(slot := 1),
              local_types := (local_types s)(slot := param_type), locals := (locals s)(slot := 0), sp := sp s - 1\<rparr>))))"

text \<open>By value: numbers are coerced to the parameter's type, strings get a buffer of their own.\<close>

definition bind_value :: "int \<Rightarrow> u8 \<Rightarrow> u8 \<Rightarrow> vm \<Rightarrow> vm res" where
  "bind_value slot arg_type param_type s =
     bindO (TOS s) (\<lambda>v. bindO (of_opt (bc_vm_coerce_arg_value v arg_type param_type)) (\<lambda>w.
       let s1 = s\<lparr>locals := (locals s)(slot := w), local_types := (local_types s)(slot := param_type),
                  local_array_is_alias := (local_array_is_alias s)(slot := 0),
                  local_arrays := (local_arrays s)(slot := no_array)\<rparr>
       in if param_type = T_STR \<and> v_s v \<noteq> 0 then
            let (s2, copy) = BC_ALLOC s1 STRINGSIZE in
            if copy = 0 then bc_vm_error s2 ''Out of memory for string''
            else bindO (strcopy s2 copy (v_s v)) (\<lambda>s3.
              Ok (s3\<lparr>locals := (locals s3)(slot := set_s (locals s3 slot) copy), sp := sp s3 - 1\<rparr>))
          else Ok (s1\<lparr>sp := sp s1 - 1\<rparr>)))"

definition bind_arg :: "BCSubFun \<Rightarrow> BCCallFrame \<Rightarrow> int \<Rightarrow> nat \<Rightarrow> vm \<Rightarrow> vm res" where
  "bind_arg sf cf slot i s =
     (if slot \<ge> int VM_MAX_LOCALS then bc_vm_error s ''Local variable overflow''
      else if slot < 0 then Fault
      else bindO (TOS_type s) (\<lambda>arg_type.
        let pt = arg_param_type sf i arg_type in
        if arg_type = BC_STK_SREF_G \<or> arg_type = BC_STK_SREF_L \<or> arg_type = BC_STK_SREF_AELEM
        then bc_vm_bind_scalar_ref s cf slot pt
        else let s1 = s\<lparr>local_ref_val := (local_ref_val s)(slot := None)\<rparr> in
          if arg_is_array sf i then bind_array slot arg_type pt s1 else bind_value slot arg_type pt s1))"

text \<open>From the last argument, on top of the stack, to the first.\<close>

fun bind_args :: "BCSubFun \<Rightarrow> BCCallFrame \<Rightarrow> int \<Rightarrow> nat \<Rightarrow> vm \<Rightarrow> vm res" where
  "bind_args sf cf base 0 s = Ok s"
| "bind_args sf cf base (Suc i) s = bindO (bind_arg sf cf (base + int i) i s) (bind_args sf cf base i)"

section \<open>Call and return\<close>

definition call_frame :: "vm \<Rightarrow> u16 \<Rightarrow> BCSubFun \<Rightarrow> nat \<Rightarrow> BCCallFrame" where
  "call_frame s idx sf nargs =
     \<lparr>return_pc = pc s, cf_frame_base = frame_base s, cf_locals_top = locals_top s, for_sp = fsp s,
      saved_sp = sp s - int nargs, cf_nlocals = sf_nlocals sf, cf_subfun_idx = idx\<rparr>"

definition push_frame :: "BCCallFrame \<Rightarrow> vm \<Rightarrow> vm" where
  "push_frame cf s =
     s\<lparr>call_stack := (call_stack s)(csp s := cf), csp := csp s + 1, frame_base := locals_top s\<rparr>"

definition op_call_sub :: "u16 \<Rightarrow> u8 \<Rightarrow> vm \<Rightarrow> vm res" where
  "op_call_sub idx nargs s =
     (if unat idx \<ge> length (subfuns (compiler s)) then bc_vm_error s (''Invalid SUB index '' @ dec_nat (unat idx))
      else if csp s \<ge> int VM_MAX_CALL then bc_vm_error s ''Call stack overflow''
      else if csp s < 0 then Fault
      else
        let sf = subfuns (compiler s) ! unat idx; cf = call_frame s idx sf (unat nargs); new_base = locals_top s in
        bindO (bind_args sf cf new_base (unat nargs) (push_frame cf s)) (\<lambda>s1.
          Ok (s1\<lparr>locals_top := new_base + int (unat nargs), pc := uint (sf_entry_addr sf)\<rparr>)))"

definition op_call_fun :: "u16 \<Rightarrow> u8 \<Rightarrow> vm \<Rightarrow> vm res" where
  "op_call_fun idx nargs s =
     (if unat idx \<ge> length (subfuns (compiler s)) then bc_vm_error s (''Invalid FUNCTION index '' @ dec_nat (unat idx))
      else if csp s \<ge> int VM_MAX_CALL then bc_vm_error s ''Call stack overflow''
      else if csp s < 0 then Fault
      else
        let sf = subfuns (compiler s) ! unat idx; cf = call_frame s idx sf (unat nargs); new_base = locals_top s in
        bindO (bind_args sf cf (new_base + 1) (unat nargs) (push_frame cf s)) (\<lambda>s1.
          if new_base < 0 \<or> new_base \<ge> int VM_MAX_LOCALS then Fault
          else Ok (s1\<lparr>local_ref_val := (local_ref_val s1)(new_base := None), locals := (locals s1)(new_base := 0),
                     local_types := (local_types s1)(new_base := sf_return_type sf),
                     local_array_is_alias := (local_array_is_alias s1)(new_base := 0),
                     local_arrays := (local_arrays s1)(new_base := no_array),
                     locals_top := new_base + 1 + int (unat nargs), pc := uint (sf_entry_addr sf)\<rparr>)))"

text \<open>The slots from \<open>locals_top\<close> on are zeroed; those below hold the arguments.\<close>

definition op_enter_frame :: "u16 \<Rightarrow> vm \<Rightarrow> vm res" where
  "op_enter_frame nlocals s =
     (let n = int (unat nlocals); fresh = (\<lambda>i. frame_base s \<le> i \<and> i < frame_base s + n \<and> i \<ge> locals_top s) in
      if locals_top s + n > int VM_MAX_LOCALS then bc_vm_error s ''Local variable overflow in ENTER_FRAME''
      else if frame_base s < 0 \<or> frame_base s + n > int VM_MAX_LOCALS then Fault
      else Ok (s\<lparr>locals := (\<lambda>i. if fresh i then 0 else locals s i),
                local_types := (\<lambda>i. if fresh i then T_INT else local_types s i),
                local_array_is_alias := (\<lambda>i. if fresh i then 0 else local_array_is_alias s i),
                local_ref_val := (\<lambda>i. if fresh i then None else local_ref_val s i),
                local_arrays := (\<lambda>i. if fresh i then no_array else local_arrays s i),
                locals_top := frame_base s + n\<rparr>))"

text \<open>
  \<open>LEAVE_FRAME\<close> frees the frame's strings. A string still on the operand stack (a FUNCTION's
  result) moves to a string temporary first, once, and every stack entry that pointed at the
  local buffer is redirected.
\<close>

fun redirect :: "nat \<Rightarrow> int list \<Rightarrow> nat option \<Rightarrow> vm \<Rightarrow> vm res" where
  "redirect buf [] temp s = Ok s"
| "redirect buf (k # ks) temp s =
     (if stack_types s k = T_STR \<and> v_s (stack s k) = buf then
        (case temp of
           Some t \<Rightarrow> redirect buf ks temp (s\<lparr>stack := (stack s)(k := set_s (stack s k) t)\<rparr>)
         | None \<Rightarrow>
             let (s1, t) = vm_get_str_temp s in
             bindO (strcopy s1 t buf) (\<lambda>s2. redirect buf ks (Some t) (s2\<lparr>stack := (stack s2)(k := set_s (stack s2 k) t)\<rparr>)))
      else redirect buf ks temp s)"

definition leave_slot :: "int \<Rightarrow> vm \<Rightarrow> vm res" where
  "leave_slot i s =
     (if i \<ge> int VM_MAX_LOCALS then Ok s
      else if i < 0 then Fault
      else
        bindO (if adata (local_arrays s i) \<noteq> 0 \<and> local_array_is_alias s i = 0
               then bindO (bc_array_release s (local_arrays s i)) (\<lambda>(s', a). Ok (s'\<lparr>local_arrays := (local_arrays s')(i := a)\<rparr>))
               else Ok s) (\<lambda>s1.
        bindO (if local_types s1 i = T_STR \<and> v_s (locals s1 i) \<noteq> 0 then
                 bindO (if local_array_is_alias s1 i = 0
                        then bindO (redirect (v_s (locals s1 i)) [0..sp s1] None s1) (\<lambda>s'. BC_FREE s' (v_s (locals s1 i)))
                        else Ok s1)
                   (\<lambda>s'. Ok (s'\<lparr>locals := (locals s')(i := set_s (locals s' i) 0)\<rparr>))
               else Ok s1) (\<lambda>s2.
        Ok (s2\<lparr>local_types := (local_types s2)(i := 0), local_arrays := (local_arrays s2)(i := no_array),
               local_array_is_alias := (local_array_is_alias s2)(i := 0)\<rparr>))))"

fun leave_slots :: "int list \<Rightarrow> vm \<Rightarrow> vm res" where
  "leave_slots [] s = Ok s"
| "leave_slots (i # is) s = bindO (leave_slot i s) (leave_slots is)"

definition op_leave_frame :: "vm \<Rightarrow> vm res" where
  "op_leave_frame s =
     (if csp s > 0 then
        (if csp s > int VM_MAX_CALL then Fault
         else leave_slots [frame_base s..frame_base s + int (unat (cf_nlocals (call_stack s (csp s - 1)))) - 1]
                (s\<lparr>locals_top := frame_base s\<rparr>))
      else Ok s)"

definition pop_frame :: "vm \<Rightarrow> vm" where
  "pop_frame s =
     (let cf = call_stack s (csp s - 1) in
      s\<lparr>csp := csp s - 1, frame_base := cf_frame_base cf, locals_top := cf_locals_top cf, fsp := for_sp cf,
        sp := saved_sp cf, pc := return_pc cf\<rparr>)"

definition op_ret_sub :: "vm \<Rightarrow> vm res" where
  "op_ret_sub s =
     (if csp s \<le> 0 then bc_vm_error s ''RETURN SUB without matching CALL''
      else if csp s > int VM_MAX_CALL then Fault else Ok (pop_frame s))"

definition op_ret_fun :: "vm \<Rightarrow> vm res" where
  "op_ret_fun s =
     (if csp s \<le> 0 then bc_vm_error s ''RETURN FUN without matching CALL''
      else if csp s > int VM_MAX_CALL then Fault
      else bindO (TOS s) (\<lambda>ret_val. bindO (TOS_type s) (\<lambda>ret_type.
        let s1 = pop_frame s; k = sp s1 + 1 in
        if k < 0 \<or> k \<ge> VM_STACK_SIZE then Fault
        else Ok (s1\<lparr>sp := k, stack := (stack s1)(k := ret_val), stack_types := (stack_types s1)(k := ret_type)\<rparr>))))"

section \<open>Local variables\<close>

definition op_load_local :: "vty \<Rightarrow> u16 \<Rightarrow> vm \<Rightarrow> vm res" where
  "op_load_local t offset s =
     bindO (bc_vm_local_cell s (frame_base s + int (unat offset))) (\<lambda>(c, lt). bindO (get_cell s c) (\<lambda>v.
       case t of TI \<Rightarrow> PUSH_I v s | TF \<Rightarrow> PUSH_F v s
       | TS \<Rightarrow> PUSH_S (if v_s v \<noteq> 0 then v_s v else EMPTY_ADDR) s))"

definition op_store_local :: "vty \<Rightarrow> u16 \<Rightarrow> vm \<Rightarrow> vm res" where
  "op_store_local t offset s =
     bindO (bc_vm_local_cell s (frame_base s + int (unat offset))) (\<lambda>(c, lt).
       case t of
         TI \<Rightarrow> bindO (POP_as_I s) (\<lambda>(v, s1). bindO (set_cell s1 c v) (\<lambda>s2. set_tcell s2 lt T_INT))
       | TF \<Rightarrow> bindO (POP_as_F s) (\<lambda>(v, s1). bindO (set_cell s1 c v) (\<lambda>s2. set_tcell s2 lt T_NBR))
       | TS \<Rightarrow> bindO (POP_S s) (\<lambda>(a, s1). bindO (string_assign s1 c a) (\<lambda>s2. set_tcell s2 lt T_STR)))"

definition op_pushref :: "scope \<Rightarrow> u16 \<Rightarrow> u8 \<Rightarrow> vm \<Rightarrow> vm res" where
  "op_pushref sc slot ty s =
     bc_push_array_ref (case sc of Global \<Rightarrow> BC_STK_SREF_G | Local \<Rightarrow> BC_STK_SREF_L)
       (push_bit 16 (ucast ty) OR ucast slot) s"

text \<open>\<open>INC\<close> writes the frame's own slot, whatever it is bound to.\<close>

definition inc_cell :: "vm \<Rightarrow> u16 \<Rightarrow> cell res" where
  "inc_cell s raw =
     (if raw_local raw then
        let idx = frame_base s + int (raw_slot raw) in
        if idx \<ge> int VM_MAX_LOCALS then bc_vm_error s ''Local variable overflow'' else Ok (CLocal idx)
      else Ok (CGlobal (raw_slot raw)))"

definition op_inc_i :: "u16 \<Rightarrow> vm \<Rightarrow> vm res" where
  "op_inc_i raw s =
     bindO (POP_NUMERIC_I s) (\<lambda>(delta, s1). bindO (inc_cell s1 raw) (\<lambda>c. bindO (get_cell s1 c) (\<lambda>v.
       bindO (set_cell s1 c (v + delta)) (for_valid raw))))"

definition op_inc_f :: "u16 \<Rightarrow> vm \<Rightarrow> vm res" where
  "op_inc_f raw s =
     bindO (POP_NUMERIC_F s) (\<lambda>(delta, s1). bindO (inc_cell s1 raw) (\<lambda>c. bindO (get_cell s1 c) (\<lambda>v.
       bindO (set_cell s1 c (f_add v delta)) (for_valid raw))))"

end
