(* ===== verification/VmStr.thy ===== *)
theory VmStr
  imports VmOps
begin

text \<open>
  String functions, numeric functions, \<open>PRINT\<close> and \<open>READ\<close>. A string function takes the next of the
  four temporaries for its result; every copy is a \<open>memcpy\<close>, so an operand that lives in the
  temporary about to be overwritten is a \<open>Fault\<close> or is read after the write, as in the code.
\<close>

section \<open>Building a result\<close>

definition str_len :: "vm \<Rightarrow> nat \<Rightarrow> nat res" where
  "str_len s a = (if a = 0 then Ok 0 else bindO (rd s a) (\<lambda>n. Ok (unat n)))"

text \<open>\<open>temp[0] = n; if (n > 0) memcpy(&temp[1], src, n); PUSH_S(temp);\<close>\<close>

definition put_slice :: "nat \<Rightarrow> nat \<Rightarrow> nat \<Rightarrow> vm \<Rightarrow> vm res" where
  "put_slice temp src n s =
     bindO (wr s temp (of_nat n)) (\<lambda>s1.
       bindO (if n > 0 then memcpy s1 (temp + 1) src n else Ok s1) (PUSH_S temp))"

definition put_bytes :: "nat \<Rightarrow> u8 list \<Rightarrow> vm \<Rightarrow> vm res" where
  "put_bytes temp bs s =
     bindO (wr s temp (of_nat (length bs))) (\<lambda>s1. bindO (of_opt (wr_bytes wr_byte s1 (temp + 1) bs)) (PUSH_S temp))"

definition op_add_s :: "vm \<Rightarrow> vm res" where
  "op_add_s s =
     bindO (POP_S s) (\<lambda>(b, s1). bindO (POP_S s1) (\<lambda>(a, s2).
       let (s3, tmp) = vm_get_str_temp s2 in
       bindO (str_len s3 a) (\<lambda>alen. bindO (str_len s3 b) (\<lambda>blen.
         if alen + blen > MAXSTRLEN then bc_vm_error s3 ''String too long''
         else bindO (wr s3 tmp (of_nat (alen + blen))) (\<lambda>s4.
           bindO (if alen > 0 then memcpy s4 (tmp + 1) (a + 1) alen else Ok s4) (\<lambda>s5.
             bindO (if blen > 0 then memcpy s5 (tmp + 1 + alen) (b + 1) blen else Ok s5) (PUSH_S tmp)))))))"

definition op_str_len :: "vm \<Rightarrow> vm res" where
  "op_str_len s = bindO (POP_S s) (\<lambda>(a, s1). bindO (str_len s1 a) (\<lambda>n. PUSH_I (of_nat n) s1))"

definition clamp_len :: "i64 \<Rightarrow> nat \<Rightarrow> nat" where
  "clamp_len n slen = (if sint n < 0 then 0 else if sint n > int slen then slen else nat (sint n))"

definition op_str_left :: "vm \<Rightarrow> vm res" where
  "op_str_left s =
     bindO (POP s) (\<lambda>(n, s1). bindO (POP_S s1) (\<lambda>(a, s2).
       let (s3, temp) = vm_get_str_temp s2 in
       bindO (str_len s3 a) (\<lambda>slen. put_slice temp (a + 1) (clamp_len n slen) s3)))"

definition op_str_right :: "vm \<Rightarrow> vm res" where
  "op_str_right s =
     bindO (POP s) (\<lambda>(n, s1). bindO (POP_S s1) (\<lambda>(a, s2).
       let (s3, temp) = vm_get_str_temp s2 in
       bindO (str_len s3 a) (\<lambda>slen. put_slice temp (a + 1 + slen - clamp_len n slen) (clamp_len n slen) s3)))"

definition op_str_mid2 :: "vm \<Rightarrow> vm res" where
  "op_str_mid2 s =
     bindO (POP s) (\<lambda>(st, s1). bindO (POP_S s1) (\<lambda>(a, s2).
       let (s3, temp) = vm_get_str_temp s2; start = (if sint st < 1 then 1 else sint st) in
       bindO (str_len s3 a) (\<lambda>slen.
         if start > int slen then bindO (wr s3 temp 0) (PUSH_S temp)
         else put_slice temp (a + nat start) (slen - nat start + 1) s3)))"

definition op_str_mid3 :: "vm \<Rightarrow> vm res" where
  "op_str_mid3 s =
     bindO (POP s) (\<lambda>(len, s1). bindO (POP s1) (\<lambda>(st, s2). bindO (POP_S s2) (\<lambda>(a, s3).
       let (s4, temp) = vm_get_str_temp s3; start = (if sint st < 1 then 1 else sint st) in
       bindO (str_len s4 a) (\<lambda>slen.
         if start > int slen \<or> sint len \<le> 0 then bindO (wr s4 temp 0) (PUSH_S temp)
         else let avail = slen - nat start + 1 in
           put_slice temp (a + nat start) (if sint len > int avail then avail else nat (sint len)) s4))))"

text \<open>The loop that converts case, byte by byte, in place when source and temporary coincide.\<close>

fun map_copy :: "(u8 \<Rightarrow> u8) \<Rightarrow> nat \<Rightarrow> nat \<Rightarrow> nat \<Rightarrow> vm \<Rightarrow> vm res" where
  "map_copy f dst src 0 s = Ok s"
| "map_copy f dst src (Suc n) s = bindO (rd s src) (\<lambda>b. bindO (wr s dst (f b)) (map_copy f (dst + 1) (src + 1) n))"

definition op_str_case :: "(u8 \<Rightarrow> u8) \<Rightarrow> vm \<Rightarrow> vm res" where
  "op_str_case f s =
     bindO (POP_S s) (\<lambda>(a, s1).
       let (s2, temp) = vm_get_str_temp s1 in
       bindO (str_len s2 a) (\<lambda>slen. bindO (wr s2 temp (of_nat slen)) (\<lambda>s3.
         bindO (map_copy f (temp + 1) (a + 1) slen s3) (PUSH_S temp))))"

definition op_str_ucase :: "vm \<Rightarrow> vm res" where "op_str_ucase = op_str_case toupper8"
definition op_str_lcase :: "vm \<Rightarrow> vm res" where "op_str_lcase = op_str_case tolower8"

text \<open>The integer branch of \<open>STR$\<close>.\<close>

definition op_str_str :: "vm \<Rightarrow> vm res" where
  "op_str_str s =
     (let (s1, temp) = vm_get_str_temp s in bindO (POP s1) (\<lambda>(v, s2). put_bytes temp (IntToStr v 10) s2))"

definition op_str_chr :: "vm \<Rightarrow> vm res" where
  "op_str_chr s =
     bindO (POP s) (\<lambda>(n, s1). let (s2, temp) = vm_get_str_temp s1 in put_bytes temp [ucast (n AND 0xFF)] s2)"

definition op_str_asc :: "vm \<Rightarrow> vm res" where
  "op_str_asc s =
     bindO (POP_S s) (\<lambda>(a, s1). bindO (str_len s1 a) (\<lambda>n.
       if n = 0 then PUSH_I 0 s1 else bindO (rd s1 (a + 1)) (\<lambda>b. PUSH_I (ucast b) s1)))"

text \<open>\<open>memcmp\<close> at each position from \<open>i\<close>, for \<open>left\<close> more positions.\<close>

fun instr_search :: "vm \<Rightarrow> nat \<Rightarrow> u8 list \<Rightarrow> nat \<Rightarrow> nat \<Rightarrow> nat res" where
  "instr_search s hay nb i 0 = Ok 0"
| "instr_search s hay nb i (Suc left) =
     bindO (of_opt (rd_bytes rd_byte s (hay + 1 + i) (length nb))) (\<lambda>hb.
       if hb = nb then Ok (i + 1) else instr_search s hay nb (i + 1) left)"

text \<open>\<open>start = (s < 1) ? 0 : (int)(s - 1)\<close> keeps the low 32 bits of a large start.\<close>

definition instr_start :: "i64 \<Rightarrow> int" where
  "instr_start n = (if sint n < 1 then 0 else sint (ucast (n - 1) :: u32))"

definition op_str_instr :: "u8 \<Rightarrow> vm \<Rightarrow> vm res" where
  "op_str_instr nargs s =
     bindO (POP_S s) (\<lambda>(needle, s1). bindO (POP_S s1) (\<lambda>(hay, s2).
       bindO (if nargs \<ge> 3 then bindO (POP s2) (\<lambda>(n, s'). Ok (instr_start n, s')) else Ok (0, s2)) (\<lambda>(start, s3).
         bindO (str_len s3 hay) (\<lambda>hlen. bindO (str_len s3 needle) (\<lambda>nlen.
           if hlen = 0 \<or> nlen = 0 then PUSH_I 0 s3
           else bindO (of_opt (rd_bytes rd_byte s3 (needle + 1) nlen)) (\<lambda>nb.
             if start < 0 then Fault
             else bindO (instr_search s3 hay nb (nat start) (nat (int hlen - int nlen - start + 1))) (\<lambda>found.
               PUSH_I (of_nat found) s3)))))))"

text \<open>\<open>snprintf\<close> with \<open>%llX\<close> and \<open>%llo\<close>, and the loop of \<open>BIN$\<close>: digits without leading zeros.\<close>

definition u_digits :: "nat \<Rightarrow> i64 \<Rightarrow> u8 list" where
  "u_digits base n = rev (rev_digits IntToStrBufSize base (unat n))"

definition op_str_radix :: "nat \<Rightarrow> vm \<Rightarrow> vm res" where
  "op_str_radix base s =
     bindO (POP s) (\<lambda>(n, s1). let (s2, temp) = vm_get_str_temp s1 in put_bytes temp (u_digits base n) s2)"

definition op_str_hex :: "vm \<Rightarrow> vm res" where "op_str_hex = op_str_radix 16"
definition op_str_oct :: "vm \<Rightarrow> vm res" where "op_str_oct = op_str_radix 8"
definition op_str_bin :: "vm \<Rightarrow> vm res" where "op_str_bin = op_str_radix 2"

definition op_str_space :: "vm \<Rightarrow> vm res" where
  "op_str_space s =
     bindO (POP s) (\<lambda>(n, s1).
       if sint n < 0 \<or> sint n > int MAXSTRLEN then bc_vm_error s1 ''SPACE$ count out of range''
       else let (s2, buf) = vm_get_str_temp s1 in
         bindO (fill s2 (buf + 1) 0x20 (unat n)) (\<lambda>s3. bindO (wr s3 buf (ucast n)) (PUSH_S buf)))"

definition op_str_string :: "vm \<Rightarrow> vm res" where
  "op_str_string s =
     bindO (POP s) (\<lambda>(ch, s1). bindO (POP s1) (\<lambda>(n, s2).
       if sint n < 0 \<or> sint n > int MAXSTRLEN then bc_vm_error s2 ''STRING$ count out of range''
       else if sint ch < 0 \<or> sint ch > 255 then bc_vm_error s2 ''STRING$ char out of range''
       else let (s3, buf) = vm_get_str_temp s2 in
         bindO (fill s3 (buf + 1) (ucast ch) (unat n)) (\<lambda>s4. bindO (wr s4 buf (ucast n)) (PUSH_S buf))))"

section \<open>FIELD$\<close>

text \<open>
  The scans of \<open>FIELD$\<close> over the bytes of the source, position 1 being \<open>src[1]\<close>. The temporary's
  length byte is cleared first.
\<close>

fun skip_field :: "u8 list \<Rightarrow> u8 list \<Rightarrow> nat \<Rightarrow> u8 list option" where
  "skip_field delims src 0 = Some src"
| "skip_field delims src (Suc k) =
     (case dropWhile (\<lambda>c. c \<notin> set delims) src of [] \<Rightarrow> None | c # rest \<Rightarrow> skip_field delims rest k)"

definition trim_field :: "u8 list \<Rightarrow> u8 list \<Rightarrow> u8 list" where
  "trim_field delims src =
     (let f = takeWhile (\<lambda>c. c \<notin> set delims) (dropWhile (\<lambda>c. c = 0x20) src)
      in rev (dropWhile (\<lambda>c. c = 0x20) (rev f)))"

definition op_str_field3 :: "vm \<Rightarrow> vm res" where
  "op_str_field3 s =
     bindO (POP_S s) (\<lambda>(delims, s1). bindO (POP s1) (\<lambda>(field, s2). bindO (POP_S s2) (\<lambda>(src, s3).
       let (s4, out) = vm_get_str_temp s3 in
       bindO (wr s4 out 0) (\<lambda>s5.
         if src = 0 \<or> delims = 0 \<or> sint field < 1 then PUSH_S out s5
         else bindO (of_opt (mstr rd_byte s5 src)) (\<lambda>sb. bindO (of_opt (mstr rd_byte s5 delims)) (\<lambda>db.
           case skip_field db sb (nat (sint field - 1)) of
             None \<Rightarrow> PUSH_S out s5
           | Some rest \<Rightarrow> put_bytes out (trim_field db rest) s5))))))"

section \<open>Numeric functions\<close>

definition f_pi :: u64 where "f_pi = 0x400921FB54442D18"
definition f_180 :: u64 where "f_180 = 0x4066800000000000"

definition fun1 :: "(u64 \<Rightarrow> u64) \<Rightarrow> vm \<Rightarrow> vm res" where
  "fun1 f s = bindO (POP s) (\<lambda>(v, s1). PUSH_F (f v) s1)"

definition op_math_atan2 :: "libm \<Rightarrow> vm \<Rightarrow> vm res" where
  "op_math_atan2 m s = bindO (POP s) (\<lambda>(x, s1). bindO (POP s1) (\<lambda>(y, s2). PUSH_F (m_atan2 m y x) s2))"

definition op_math_sqr :: "libm \<Rightarrow> vm \<Rightarrow> vm res" where
  "op_math_sqr m s =
     bindO (POP s) (\<lambda>(v, s1). if f_lt v F0 then bc_vm_error s1 ''SQR of negative number'' else PUSH_F (m_sqrt m v) s1)"

definition op_math_log :: "libm \<Rightarrow> vm \<Rightarrow> vm res" where
  "op_math_log m s =
     bindO (POP s) (\<lambda>(v, s1). if f_le v F0 then bc_vm_error s1 ''LOG of non-positive number'' else PUSH_F (m_log m v) s1)"

definition f_abs :: "u64 \<Rightarrow> u64" where "f_abs v = v AND 0x7FFFFFFFFFFFFFFF"

text \<open>\<open>floor\<close>: exact, the sign of a zero kept.\<close>

definition f_floor :: "u64 \<Rightarrow> u64" where
  "f_floor x = (if f_finite x then f_round (f_sign x) (f_int x div 2 ^ 1074 * 2 ^ 1074) 1 else x)"

definition op_math_abs :: "vm \<Rightarrow> vm res" where
  "op_math_abs s =
     bindO (TOS_type s) (\<lambda>t. bindO (TOS s) (\<lambda>v.
       set_TOS (if t = T_INT then (if sint v < 0 then - v else v) else f_abs v) s))"

definition op_math_sgn :: "vm \<Rightarrow> vm res" where
  "op_math_sgn s =
     bindO (TOS_type s) (\<lambda>t. bindO (TOS s) (\<lambda>v.
       if t = T_INT then set_TOS (if sint v > 0 then 1 else if sint v < 0 then - 1 else 0) s
       else bindO (set_TOS (if f_lt F0 v then 1 else if f_lt v F0 then - 1 else 0) s) (set_TOS_type T_INT)))"

definition op_math_fix :: "vm \<Rightarrow> vm res" where
  "op_math_fix s = bindO (POP s) (\<lambda>(v, s1). bindO (of_opt (f_trunc v)) (\<lambda>i. PUSH_I i s1))"

text \<open>\<open>CINT\<close> tests \<open>v >= 0.0\<close> and adds \<open>0.5\<close> or \<open>-0.5\<close>: the inline rounding of \<open>POP_NUMERIC_I\<close>.\<close>

definition op_math_cint :: "vm \<Rightarrow> vm res" where
  "op_math_cint s = bindO (POP s) (\<lambda>(v, s1). bindO (of_opt (f_round_half_away v)) (\<lambda>i. PUSH_I i s1))"

definition op_math_rad :: "vm \<Rightarrow> vm res" where "op_math_rad = fun1 (\<lambda>v. f_div (f_mul v f_pi) f_180)"
definition op_math_deg :: "vm \<Rightarrow> vm res" where "op_math_deg = fun1 (\<lambda>v. f_div (f_mul v f_180) f_pi)"
definition op_math_pi :: "vm \<Rightarrow> vm res" where "op_math_pi = PUSH_F f_pi"

definition op_math_max :: "vm \<Rightarrow> vm res" where
  "op_math_max s = bindO (POP s) (\<lambda>(b, s1). bindO (POP s1) (\<lambda>(a, s2). PUSH_F (if f_lt b a then a else b) s2))"

definition op_math_min :: "vm \<Rightarrow> vm res" where
  "op_math_min s = bindO (POP s) (\<lambda>(b, s1). bindO (POP s1) (\<lambda>(a, s2). PUSH_F (if f_lt a b then a else b) s2))"

text \<open>
  The fused multiplications. \<open>int bits = (int)POP_NUMERIC_I()\<close> keeps the low 32 bits; the helpers
  call \<open>error\<close> directly, without the line prefix.
\<close>

definition pop_bits :: "vm \<Rightarrow> (int \<times> vm) res" where
  "pop_bits s = bindO (POP_NUMERIC_I s) (\<lambda>(v, s1). Ok (sint (ucast v :: u32), s1))"

definition op_math_mulshr :: "vm \<Rightarrow> vm res" where
  "op_math_mulshr s =
     bindO (pop_bits s) (\<lambda>(bits, s1). bindO (POP_NUMERIC_I s1) (\<lambda>(b, s2). bindO (POP_NUMERIC_I s2) (\<lambda>(a, s3).
       bindO (vm_mulshr s3 a b bits) (\<lambda>v. PUSH_I v s3))))"

definition op_math_muldiv :: "vm \<Rightarrow> vm res" where
  "op_math_muldiv s =
     bindO (pop_bits s) (\<lambda>(bits, s1). bindO (POP_NUMERIC_I s1) (\<lambda>(b, s2). bindO (POP_NUMERIC_I s2) (\<lambda>(a, s3).
       bindO (vm_muldiv_pow2 s3 a b bits) (\<lambda>v. PUSH_I v s3))))"

definition op_math_sqrshr :: "vm \<Rightarrow> vm res" where
  "op_math_sqrshr s =
     bindO (pop_bits s) (\<lambda>(bits, s1). bindO (POP_NUMERIC_I s1) (\<lambda>(a, s2).
       bindO (vm_mulshr s2 a a bits) (\<lambda>v. PUSH_I v s2)))"

definition op_math_sqrdiv :: "vm \<Rightarrow> vm res" where
  "op_math_sqrdiv s =
     bindO (pop_bits s) (\<lambda>(bits, s1). bindO (POP_NUMERIC_I s1) (\<lambda>(a, s2).
       bindO (vm_muldiv_pow2 s2 a a bits) (\<lambda>v. PUSH_I v s2)))"

definition op_math_mulshradd :: "vm \<Rightarrow> vm res" where
  "op_math_mulshradd s =
     bindO (POP_NUMERIC_I s) (\<lambda>(c, s0). bindO (pop_bits s0) (\<lambda>(bits, s1). bindO (POP_NUMERIC_I s1) (\<lambda>(b, s2).
       bindO (POP_NUMERIC_I s2) (\<lambda>(a, s3). bindO (vm_mulshr s3 a b bits) (\<lambda>v. PUSH_I (v + c) s3)))))"

section \<open>PRINT, READ and ERROR\<close>

definition op_print_int :: "vm \<Rightarrow> vm res" where
  "op_print_int s =
     bindO (POP_NUMERIC_I s) (\<lambda>(val, s1).
       Ok (vm_output s1 ((if sint val \<ge> 0 then '' '' else []) @ cstr_string (IntToStr val 10))))"

definition op_print_str :: "vm \<Rightarrow> vm res" where
  "op_print_str s = bindO (POP_S s) (\<lambda>(a, s1). vm_output_mstr s1 a)"

definition op_print_newline :: "vm \<Rightarrow> vm res" where
  "op_print_newline s = Ok (vm_output s [CHR 0x0D, CHR 0x0A])"

definition op_print_tab :: "vm \<Rightarrow> vm res" where
  "op_print_tab s = Ok (vm_output s [CHR 0x09])"

definition next_data :: "vm \<Rightarrow> (BCDataItem \<times> vm) res" where
  "next_data s =
     (if unat (data_ptr s) \<ge> length (data_pool (compiler s)) then bc_vm_error s ''No DATA to read''
      else Ok (data_pool (compiler s) ! unat (data_ptr s), s\<lparr>data_ptr := data_ptr s + 1\<rparr>))"

definition op_read_i :: "vm \<Rightarrow> vm res" where
  "op_read_i s =
     bindO (next_data s) (\<lambda>(item, s1).
       if data_type item = T_INT then PUSH_I (data_value item) s1
       else if data_type item = T_NBR then bindO (of_opt (f_trunc (data_value item))) (\<lambda>v. PUSH_I v s1)
       else bc_vm_error s1 ''Type mismatch in READ (expected number, got string)'')"

definition op_read_f :: "vm \<Rightarrow> vm res" where
  "op_read_f s =
     bindO (next_data s) (\<lambda>(item, s1).
       if data_type item = T_NBR then PUSH_F (data_value item) s1
       else if data_type item = T_INT then PUSH_F (f_of_i64 (data_value item)) s1
       else bc_vm_error s1 ''Type mismatch in READ (expected number, got string)'')"

text \<open>A float item is printed with \<open>%g\<close>, which is not modelled: \<open>None\<close>.\<close>

definition op_read_s :: "vm \<Rightarrow> vm res option" where
  "op_read_s s =
     (case next_data s of
        Ok (item, s1) \<Rightarrow>
          (let (s2, buf) = vm_get_str_temp s1 in
           if data_type item = T_STR then
             let c = unat (ucast (data_value item) :: u16) in
             if c < length (constants (compiler s)) then Some (put_bytes buf (const_bytes (compiler s) c) s2) else Some Fault
           else if data_type item = T_INT then Some (put_bytes buf (IntToStr (data_value item) 10) s2)
           else None)
      | Err m s1 \<Rightarrow> Some (Err m s1)
      | Fault \<Rightarrow> Some Fault)"

definition op_restore :: "vm \<Rightarrow> vm res" where "op_restore s = Ok (s\<lparr>data_ptr := 0\<rparr>)"
definition op_restore_data :: "u16 \<Rightarrow> vm \<Rightarrow> vm res" where "op_restore_data idx s = Ok (s\<lparr>data_ptr := idx\<rparr>)"

definition op_error_s :: "vm \<Rightarrow> vm res" where
  "op_error_s s =
     bindO (POP_S s) (\<lambda>(a, s1).
       if a = 0 then Err [] s1
       else bindO (of_opt (mstr rd_byte s1 a)) (\<lambda>bs. Err (cstr_string (c_strlen_bytes bs)) s1))"

definition op_error_empty :: "vm \<Rightarrow> vm res" where "op_error_empty s = Err [] s"

end
