(* ===== verification/Vm.thy ===== *)
theory Vm
  imports VmCall VmStr
begin

text \<open>
  The dispatch loop of \<open>bc_vm_execute\<close>: one step decodes the instruction at \<open>pc\<close>, moves \<open>pc\<close> past
  its operands and runs the handler. The opcodes of the devices, the bridge to the interpreter and
  the register loop are outside this theory; meeting one ends a run with \<open>Outside\<close>.
\<close>

section \<open>One instruction\<close>

definition exec_str :: "sfun \<Rightarrow> vm \<Rightarrow> vm res option" where
  "exec_str f s = (case f of
      LEN \<Rightarrow> Some (op_str_len s) | LEFT \<Rightarrow> Some (op_str_left s) | RIGHT \<Rightarrow> Some (op_str_right s)
    | MID2 \<Rightarrow> Some (op_str_mid2 s) | MID3 \<Rightarrow> Some (op_str_mid3 s)
    | UCASE \<Rightarrow> Some (op_str_ucase s) | LCASE \<Rightarrow> Some (op_str_lcase s)
    | STRD \<Rightarrow> (case TOS_type s of Ok t \<Rightarrow> if t = T_INT then Some (op_str_str s) else None | _ \<Rightarrow> Some Fault)
    | CHRD \<Rightarrow> Some (op_str_chr s) | ASC \<Rightarrow> Some (op_str_asc s)
    | HEX \<Rightarrow> Some (op_str_hex s) | OCT \<Rightarrow> Some (op_str_oct s) | BIN \<Rightarrow> Some (op_str_bin s)
    | SPACE \<Rightarrow> Some (op_str_space s) | STRINGD \<Rightarrow> Some (op_str_string s) | FIELD3 \<Rightarrow> Some (op_str_field3 s))"

definition exec_math :: "libm \<Rightarrow> mfun \<Rightarrow> vm \<Rightarrow> vm res" where
  "exec_math m f s = (case f of
      SIN \<Rightarrow> fun1 (m_sin m) s | COS \<Rightarrow> fun1 (m_cos m) s | TAN \<Rightarrow> fun1 (m_tan m) s | ATN \<Rightarrow> fun1 (m_atan m) s
    | ASIN \<Rightarrow> fun1 (m_asin m) s | ACOS \<Rightarrow> fun1 (m_acos m) s | EXP \<Rightarrow> fun1 (m_exp m) s
    | ATAN2 \<Rightarrow> op_math_atan2 m s | SQR \<Rightarrow> op_math_sqr m s | LOG \<Rightarrow> op_math_log m s
    | ABS \<Rightarrow> op_math_abs s | SGN \<Rightarrow> op_math_sgn s | INTF \<Rightarrow> fun1 f_floor s | FIX \<Rightarrow> op_math_fix s
    | CINT \<Rightarrow> op_math_cint s | RAD \<Rightarrow> op_math_rad s | DEG \<Rightarrow> op_math_deg s | PIC \<Rightarrow> op_math_pi s
    | MAXF \<Rightarrow> op_math_max s | MINF \<Rightarrow> op_math_min s
    | MULSHR \<Rightarrow> op_math_mulshr s | MULDIV \<Rightarrow> op_math_muldiv s | SQRSHR \<Rightarrow> op_math_sqrshr s
    | SQRDIV \<Rightarrow> op_math_sqrdiv s | MULSHRADD \<Rightarrow> op_math_mulshradd s)"

definition op_cmp :: "vty \<Rightarrow> rel \<Rightarrow> vm \<Rightarrow> vm res" where
  "op_cmp t r s = (case t of TI \<Rightarrow> op_cmp_i r s | TF \<Rightarrow> op_cmp_f r s | TS \<Rightarrow> op_cmp_s r s)"

text \<open>\<open>None\<close>: the branch needs a routine that is not modelled (the text of a float).\<close>

definition exec :: "libm \<Rightarrow> instr \<Rightarrow> vm \<Rightarrow> vm res option" where
  "exec m i s = (case i of
      I_NOP \<Rightarrow> Some (Ok s)
    | I_PUSH_INT v \<Rightarrow> Some (PUSH_I v s) | I_PUSH_FLT v \<Rightarrow> Some (PUSH_F v s) | I_PUSH_STR idx \<Rightarrow> Some (op_push_str idx s)
    | I_PUSH_ZERO \<Rightarrow> Some (PUSH_I 0 s) | I_PUSH_ONE \<Rightarrow> Some (PUSH_I 1 s)
    | I_LOAD sc t n \<Rightarrow> Some (case sc of Global \<Rightarrow> op_load t n s | Local \<Rightarrow> op_load_local t n s)
    | I_STORE sc t n \<Rightarrow> Some (case sc of Global \<Rightarrow> op_store t n s | Local \<Rightarrow> op_store_local t n s)
    | I_LOAD_ARR sc t n d \<Rightarrow> Some (case sc of Global \<Rightarrow> op_load_arr t n d s | Local \<Rightarrow> op_load_local_arr t n d s)
    | I_STORE_ARR sc t n d \<Rightarrow> Some (case sc of Global \<Rightarrow> op_store_arr t n d s | Local \<Rightarrow> op_store_local_arr t n d s)
    | I_POP \<Rightarrow> Some (op_pop s) | I_DUP \<Rightarrow> Some (op_dup s) | I_CVT_I2F \<Rightarrow> Some (op_cvt_i2f s) | I_CVT_F2I \<Rightarrow> Some (op_cvt_f2i s)
    | I_PUSHREF sc n t \<Rightarrow> Some (op_pushref sc n t s) | I_PUSHREF_AELEM n l d \<Rightarrow> Some (op_pushref_aelem n l d s)
    | I_BIN_I f \<Rightarrow> Some (op_bin_i f s) | I_BIN_F f \<Rightarrow> Some (op_bin_f m f s) | I_ADD_S \<Rightarrow> Some (op_add_s s)
    | I_NEG_I \<Rightarrow> Some (op_neg_i s) | I_NEG_F \<Rightarrow> Some (op_neg_f s) | I_NOT \<Rightarrow> Some (op_not s) | I_INV \<Rightarrow> Some (op_inv s)
    | I_CMP t r \<Rightarrow> Some (op_cmp t r s)
    | I_JMP off \<Rightarrow> Some (op_jmp off s) | I_JMP_ABS a \<Rightarrow> Some (op_jmp_abs a s)
    | I_JZ off \<Rightarrow> Some (op_jz off s) | I_JNZ off \<Rightarrow> Some (op_jnz off s)
    | I_JCMP_I r off \<Rightarrow> Some (op_jcmp_i r off s) | I_JCMP_F r off \<Rightarrow> Some (op_jcmp_f r off s)
    | I_MOV_VAR k a b \<Rightarrow> Some (op_mov_var k a b s)
    | I_GOSUB a \<Rightarrow> Some (op_gosub a s) | I_RETURN \<Rightarrow> Some (op_return s)
    | I_FOR_INIT t a b c d \<Rightarrow> Some (if t = TI then op_for_init_i a b c d s else op_for_init_f a b c d s)
    | I_FOR_NEXT t a b c d \<Rightarrow> Some (if t = TI then op_for_next_i a b c d s else op_for_next_f a b c d s)
    | I_CALL_SUB n k \<Rightarrow> Some (op_call_sub n k s) | I_CALL_FUN n k \<Rightarrow> Some (op_call_fun n k s)
    | I_RET_SUB \<Rightarrow> Some (op_ret_sub s) | I_RET_FUN \<Rightarrow> Some (op_ret_fun s)
    | I_ENTER_FRAME n \<Rightarrow> Some (op_enter_frame n s) | I_LEAVE_FRAME \<Rightarrow> Some (op_leave_frame s)
    | I_PRINT_INT _ \<Rightarrow> Some (op_print_int s) | I_PRINT_STR _ \<Rightarrow> Some (op_print_str s)
    | I_PRINT_NEWLINE \<Rightarrow> Some (op_print_newline s) | I_PRINT_TAB \<Rightarrow> Some (op_print_tab s)
    | I_DIM_ARR sc t n d \<Rightarrow> Some (case sc of Global \<Rightarrow> op_dim_arr t n d s | Local \<Rightarrow> op_dim_local_arr t n d s)
    | I_LOAD_FIELD t n off \<Rightarrow> Some (op_load_struct_field t n off s)
    | I_STORE_FIELD_I n off \<Rightarrow> Some (op_store_struct_field_n TI n off s)
    | I_STORE_FIELD_F n off \<Rightarrow> Some (op_store_struct_field_n TF n off s)
    | I_STORE_FIELD_S n off k \<Rightarrow> Some (op_store_struct_field_s n off k s)
    | I_STR f \<Rightarrow> exec_str f s | I_STR_INSTR k \<Rightarrow> Some (op_str_instr k s) | I_MATH f \<Rightarrow> Some (exec_math m f s)
    | I_INC_I n \<Rightarrow> Some (op_inc_i n s) | I_INC_F n \<Rightarrow> Some (op_inc_f n s)
    | I_READ t \<Rightarrow> (case t of TI \<Rightarrow> Some (op_read_i s) | TF \<Rightarrow> Some (op_read_f s) | TS \<Rightarrow> op_read_s s)
    | I_RESTORE \<Rightarrow> Some (op_restore s) | I_RESTORE_DATA n \<Rightarrow> Some (op_restore_data n s)
    | I_ERROR_S \<Rightarrow> Some (op_error_s s) | I_ERROR_EMPTY \<Rightarrow> Some (op_error_empty s)
    | I_LINE n \<Rightarrow> Some (Ok (s\<lparr>current_line := n\<rparr>))
    | I_CHECKINT \<Rightarrow> Some (Ok (s\<lparr>serviced := serviced s + 1\<rparr>))
    | I_END \<Rightarrow> Some (Ok s) | I_HALT \<Rightarrow> Some (Ok s))"

section \<open>The loop\<close>

text \<open>The entries of the dispatch table that this theory does not execute.\<close>

definition outside_ops :: "u8 list" where
  "outside_ops =
     [OP_PRINT_FLT, OP_LOAD_STRUCT_ELEM_I, OP_LOAD_STRUCT_ELEM_F, OP_LOAD_STRUCT_ELEM_S,
      OP_STORE_STRUCT_ELEM_I, OP_STORE_STRUCT_ELEM_F, OP_STORE_STRUCT_ELEM_S,
      OP_LOAD_STRUCT_NESTED_I, OP_LOAD_STRUCT_NESTED_F, OP_LOAD_STRUCT_NESTED_S,
      OP_STORE_STRUCT_NESTED_I, OP_STORE_STRUCT_NESTED_F, OP_STORE_STRUCT_NESTED_S, OP_STR_VAL,
      OP_STR_INKEY, OP_RND, OP_TIMER, OP_MM_HRES, OP_MM_VRES, OP_RANDOMIZE, OP_CLEAR,
      OP_FASTGFX_SWAP, OP_FASTGFX_SYNC, OP_RGB, OP_FASTGFX_CREATE, OP_FASTGFX_CLOSE, OP_FASTGFX_FPS,
      OP_COLOUR, OP_PAUSE, OP_STR_DATE, OP_STR_TIME, OP_KEYDOWN, OP_SETPIN, OP_PIN_READ,
      OP_PIN_WRITE, OP_PWM, OP_SERVO, OP_FILE, OP_PIXEL_READ, OP_FONT, OP_SYSCALL, OP_FAST_LOOP,
      OP_BRIDGE_CMD, OP_BRIDGE_FUN_I, OP_BRIDGE_FUN_F, OP_BRIDGE_FUN_S]"

datatype progress = Next vm | Halted vm | Raised string vm | Wild | Outside u8

definition op_invalid :: "u8 \<Rightarrow> vm \<Rightarrow> vm res" where
  "op_invalid b s = bc_vm_error s (''Invalid opcode 0x'' @ hex2 b @ '' at offset '' @ dec_nat (nat (pc s - 1)))"

definition after_op :: "vm res \<Rightarrow> progress" where
  "after_op r = (case r of Ok s \<Rightarrow> Next s | Err e s \<Rightarrow> Raised e s | Fault \<Rightarrow> Wild)"

definition step :: "libm \<Rightarrow> vm \<Rightarrow> progress" where
  "step m s =
     (if pc s < 0 \<or> pc s \<ge> int (length (bytecode s)) then Wild
      else case decode (drop (nat (pc s)) (bytecode s)) of
        Trunc \<Rightarrow> Wild
      | Other b \<Rightarrow> if b \<in> set outside_ops then Outside b else after_op (op_invalid b (s\<lparr>pc := pc s + 1\<rparr>))
      | Instr i rest \<Rightarrow>
          let s1 = s\<lparr>pc := int (length (bytecode s) - length rest)\<rparr> in
          if i = I_END then Halted s1
          else if i = I_HALT then Halted (vm_output s1 (''STOP'' @ [CHR 0x0D, CHR 0x0A]))
          else (case exec m i s1 of None \<Rightarrow> Outside (bytecode s ! nat (pc s)) | Some r \<Rightarrow> after_op r))"

text \<open>
  A run of at most \<open>n\<close> instructions. \<open>skip\<close> is \<open>OptionErrorSkip\<close>: when it is not zero an error comes
  back to the \<open>setjmp\<close> at the head of the loop, which counts it down and goes on at the current \<open>pc\<close>.
\<close>

datatype outcome_of_run = Finished vm | Aborted string vm | Crashed | Left u8 | Running vm

fun run :: "libm \<Rightarrow> nat \<Rightarrow> int \<Rightarrow> vm \<Rightarrow> outcome_of_run" where
  "run m 0 skip s = Running s"
| "run m (Suc n) skip s =
     (case step m s of
        Next s' \<Rightarrow> run m n skip s'
      | Halted s' \<Rightarrow> Finished s'
      | Raised e s' \<Rightarrow> if skip = 0 then Aborted e s' else run m n (if skip > 0 then skip - 1 else skip) s'
      | Wild \<Rightarrow> Crashed
      | Outside b \<Rightarrow> Left b)"

text \<open>The states a program reaches, errors that are skipped aside.\<close>

inductive reachable :: "libm \<Rightarrow> vm \<Rightarrow> vm \<Rightarrow> bool" for m s0 where
  start: "reachable m s0 s0"
| next_step: "reachable m s0 s \<Longrightarrow> step m s = Next s' \<Longrightarrow> reachable m s0 s'"

section \<open>Sequences of steps\<close>

fun steps :: "libm \<Rightarrow> nat \<Rightarrow> vm \<Rightarrow> vm option" where
  "steps m 0 s = Some s"
| "steps m (Suc n) s = (case step m s of Next s' \<Rightarrow> steps m n s' | _ \<Rightarrow> None)"

lemma steps_add: "steps m a s = Some s1 \<Longrightarrow> steps m b s1 = Some s2 \<Longrightarrow> steps m (a + b) s = Some s2"
  by (induction a arbitrary: s) (auto split: progress.splits)

lemma steps_1: "step m s = Next s' \<Longrightarrow> steps m 1 s = Some s'"
  by simp

lemma run_steps: "steps m a s = Some s1 \<Longrightarrow> run m (a + n) skip s = run m n skip s1"
  by (induction a arbitrary: s) (auto split: progress.splits)

lemma reachable_steps: "reachable m s0 s \<Longrightarrow> steps m n s = Some s' \<Longrightarrow> reachable m s0 s'"
  by (induction n arbitrary: s) (auto split: progress.splits intro: next_step)

text \<open>An instruction laid out at \<open>p\<close> is the one executed at \<open>pc = p\<close>.\<close>

definition code_at :: "vm \<Rightarrow> nat \<Rightarrow> instr \<Rightarrow> bool" where
  "code_at s p i \<longleftrightarrow> (\<exists>after. drop p (bytecode s) = encode i @ after)"

lemma step_at:
  assumes "code_at s p i" "pc s = int p" "for_ok i" "i \<noteq> I_END" "i \<noteq> I_HALT"
  shows "step m s = (case exec m i (s\<lparr>pc := int (p + length (encode i))\<rparr>) of
     None \<Rightarrow> Outside (bytecode s ! p) | Some r \<Rightarrow> after_op r)"
proof -
  obtain after where a: "drop p (bytecode s) = encode i @ after" using assms(1) by (auto simp: code_at_def)
  have ne: "encode i \<noteq> []" using decode_encode [OF assms(3), of "[]"] by (auto simp: decode_def)
  have len: "length (bytecode s) - p = length (encode i) + length after"
    using arg_cong [OF a, of length] by simp
  then have l: "p < length (bytecode s)" and r: "length (bytecode s) - length after = p + length (encode i)"
    using ne by (cases "encode i"; simp)+
  have "decode (drop (nat (pc s)) (bytecode s)) = Instr i after"
    using decode_encode [OF assms(3), of after] a assms(2) by simp
  then show ?thesis using assms(4,5) l r unfolding step_def assms(2) nat_int by (simp add: Let_def)
qed

end
