(* ===== verification/RegOps.thy ===== *)
theory RegOps
  imports Bytecode
begin

text \<open>The micro-operations of the register machine, \<open>RegOp\<close> of \<open>runtime/vm/bytecode.h\<close>.\<close>

named_theorems rops

definition ROP_END :: u8 where [rops]: "ROP_END = 0"
definition ROP_EXIT :: u8 where [rops]: "ROP_EXIT = 1"
definition ROP_JMP :: u8 where [rops]: "ROP_JMP = 2"
definition ROP_CHECKINT :: u8 where [rops]: "ROP_CHECKINT = 3"
definition ROP_ADD_I :: u8 where [rops]: "ROP_ADD_I = 10"
definition ROP_SUB_I :: u8 where [rops]: "ROP_SUB_I = 11"
definition ROP_MUL_I :: u8 where [rops]: "ROP_MUL_I = 12"
definition ROP_IDIV_I :: u8 where [rops]: "ROP_IDIV_I = 13"
definition ROP_MOD_I :: u8 where [rops]: "ROP_MOD_I = 14"
definition ROP_ADD_F :: u8 where [rops]: "ROP_ADD_F = 15"
definition ROP_SUB_F :: u8 where [rops]: "ROP_SUB_F = 16"
definition ROP_MUL_F :: u8 where [rops]: "ROP_MUL_F = 17"
definition ROP_DIV_F :: u8 where [rops]: "ROP_DIV_F = 18"
definition ROP_NEG_I :: u8 where [rops]: "ROP_NEG_I = 20"
definition ROP_NEG_F :: u8 where [rops]: "ROP_NEG_F = 21"
definition ROP_NOT :: u8 where [rops]: "ROP_NOT = 22"
definition ROP_INV :: u8 where [rops]: "ROP_INV = 23"
definition ROP_AND :: u8 where [rops]: "ROP_AND = 25"
definition ROP_OR :: u8 where [rops]: "ROP_OR = 26"
definition ROP_XOR :: u8 where [rops]: "ROP_XOR = 27"
definition ROP_SHL :: u8 where [rops]: "ROP_SHL = 28"
definition ROP_SHR :: u8 where [rops]: "ROP_SHR = 29"
definition ROP_MOV :: u8 where [rops]: "ROP_MOV = 30"
definition ROP_CVT_I2F :: u8 where [rops]: "ROP_CVT_I2F = 31"
definition ROP_CVT_F2I :: u8 where [rops]: "ROP_CVT_F2I = 32"
definition ROP_LOAD_IMM_I :: u8 where [rops]: "ROP_LOAD_IMM_I = 35"
definition ROP_LOAD_IMM_F :: u8 where [rops]: "ROP_LOAD_IMM_F = 36"
definition ROP_SQRDIV :: u8 where [rops]: "ROP_SQRDIV = 37"
definition ROP_MULDIV :: u8 where [rops]: "ROP_MULDIV = 38"
definition ROP_SQRSHR :: u8 where [rops]: "ROP_SQRSHR = 40"
definition ROP_MULSHR :: u8 where [rops]: "ROP_MULSHR = 41"
definition ROP_MULSHRADD :: u8 where [rops]: "ROP_MULSHRADD = 42"
definition ROP_EQ_I :: u8 where [rops]: "ROP_EQ_I = 45"
definition ROP_NE_I :: u8 where [rops]: "ROP_NE_I = 46"
definition ROP_LT_I :: u8 where [rops]: "ROP_LT_I = 47"
definition ROP_GT_I :: u8 where [rops]: "ROP_GT_I = 48"
definition ROP_LE_I :: u8 where [rops]: "ROP_LE_I = 49"
definition ROP_GE_I :: u8 where [rops]: "ROP_GE_I = 50"
definition ROP_JCMP_EQ_I :: u8 where [rops]: "ROP_JCMP_EQ_I = 55"
definition ROP_JCMP_NE_I :: u8 where [rops]: "ROP_JCMP_NE_I = 56"
definition ROP_JCMP_LT_I :: u8 where [rops]: "ROP_JCMP_LT_I = 57"
definition ROP_JCMP_GT_I :: u8 where [rops]: "ROP_JCMP_GT_I = 58"
definition ROP_JCMP_LE_I :: u8 where [rops]: "ROP_JCMP_LE_I = 59"
definition ROP_JCMP_GE_I :: u8 where [rops]: "ROP_JCMP_GE_I = 60"
definition ROP_JZ :: u8 where [rops]: "ROP_JZ = 65"
definition ROP_JNZ :: u8 where [rops]: "ROP_JNZ = 66"
definition ROP_LOAD_ARR_I :: u8 where [rops]: "ROP_LOAD_ARR_I = 70"
definition ROP_STORE_ARR_I :: u8 where [rops]: "ROP_STORE_ARR_I = 71"
definition ROP_LOAD_ARR_F :: u8 where [rops]: "ROP_LOAD_ARR_F = 72"
definition ROP_STORE_ARR_F :: u8 where [rops]: "ROP_STORE_ARR_F = 73"

end
