(* ===== verification/VmFast.thy ===== *)
theory VmFast
  imports Vm RegOps
begin

text \<open>
  The register machine behind \<open>OP_FAST_LOOP\<close> (\<open>bytecode.h\<close>, \<open>bc_vm.c\<close>): a block of micro-operations over a
  register file on the C stack. Entering the block copies the frame's locals, the listed globals and the
  constants into registers; leaving it copies locals and globals back. The block runs inside one
  round of the dispatch loop and may run for ever, so its loop takes fuel.
\<close>

section \<open>Micro-operations\<close>

datatype (plugins only: ) unop = UNEG_I | UNEG_F | UNOT | UINV | UMOV | UI2F | UF2I

datatype (plugins only: ) rop =
    R_EXIT | R_JMP u16 | R_CHECKINT
  | R_BIN_I ibin u8 u8 u8 | R_BIN_F fbin u8 u8 u8 | R_UN unop u8 u8 | R_IMM u8 i64
  | R_SQRDIV u8 u8 u8 | R_MULDIV u8 u8 u8 u8 | R_SQRSHR u8 u8 u8 | R_MULSHR u8 u8 u8 u8
  | R_MULSHRADD u8 u8 u8 u8 u8 | R_CMP rel u8 u8 u8 | R_JCMP rel u8 u8 u16 | R_JZ u8 u16 | R_JNZ u8 u16
  | R_LOAD_ARR u8 u8 u8 | R_STORE_ARR u8 u8 u8

definition mret :: "rop \<Rightarrow> u8 list \<Rightarrow> (rop \<times> u8 list) option" where
  "mret r bs = Some (r, bs)"

definition r2 :: "(u8 \<Rightarrow> u8 \<Rightarrow> rop) \<Rightarrow> u8 list \<Rightarrow> (rop \<times> u8 list) option" where
  "r2 f = get8 (\<lambda>d. get8 (\<lambda>a. mret (f d a)))"

definition r3 :: "(u8 \<Rightarrow> u8 \<Rightarrow> u8 \<Rightarrow> rop) \<Rightarrow> u8 list \<Rightarrow> (rop \<times> u8 list) option" where
  "r3 f = get8 (\<lambda>d. get8 (\<lambda>a. get8 (\<lambda>b. mret (f d a b))))"

definition r4 :: "(u8 \<Rightarrow> u8 \<Rightarrow> u8 \<Rightarrow> u8 \<Rightarrow> rop) \<Rightarrow> u8 list \<Rightarrow> (rop \<times> u8 list) option" where
  "r4 f = get8 (\<lambda>d. r3 (f d))"

definition rjmp :: "(u8 \<Rightarrow> u8 \<Rightarrow> u16 \<Rightarrow> rop) \<Rightarrow> u8 list \<Rightarrow> (rop \<times> u8 list) option" where
  "rjmp f = get8 (\<lambda>a. get8 (\<lambda>b. get16 (\<lambda>off. mret (f a b off))))"

definition rop_table :: "(u8 \<times> (u8 list \<Rightarrow> (rop \<times> u8 list) option)) list" where
  "rop_table =
   [(ROP_END, mret R_EXIT), (ROP_EXIT, mret R_EXIT), (ROP_JMP, get16 (\<lambda>off. mret (R_JMP off))), (ROP_CHECKINT, mret R_CHECKINT),
    (ROP_ADD_I, r3 (R_BIN_I ADD)), (ROP_SUB_I, r3 (R_BIN_I SUB)), (ROP_MUL_I, r3 (R_BIN_I MUL)),
    (ROP_IDIV_I, r3 (R_BIN_I IDIV)), (ROP_MOD_I, r3 (R_BIN_I MOD)),
    (ROP_ADD_F, r3 (R_BIN_F FADD)), (ROP_SUB_F, r3 (R_BIN_F FSUB)), (ROP_MUL_F, r3 (R_BIN_F FMUL)), (ROP_DIV_F, r3 (R_BIN_F FDIV)),
    (ROP_NEG_I, r2 (R_UN UNEG_I)), (ROP_NEG_F, r2 (R_UN UNEG_F)), (ROP_NOT, r2 (R_UN UNOT)), (ROP_INV, r2 (R_UN UINV)),
    (ROP_AND, r3 (R_BIN_I BAND)), (ROP_OR, r3 (R_BIN_I BOR)), (ROP_XOR, r3 (R_BIN_I BXOR)),
    (ROP_SHL, r3 (R_BIN_I SHL)), (ROP_SHR, r3 (R_BIN_I SHR)),
    (ROP_MOV, r2 (R_UN UMOV)), (ROP_CVT_I2F, r2 (R_UN UI2F)), (ROP_CVT_F2I, r2 (R_UN UF2I)),
    (ROP_LOAD_IMM_I, get8 (\<lambda>d. get64 (\<lambda>v. mret (R_IMM d v)))), (ROP_LOAD_IMM_F, get8 (\<lambda>d. get64 (\<lambda>v. mret (R_IMM d v)))),
    (ROP_SQRDIV, r3 R_SQRDIV), (ROP_MULDIV, r4 R_MULDIV), (ROP_SQRSHR, r3 R_SQRSHR), (ROP_MULSHR, r4 R_MULSHR),
    (ROP_MULSHRADD, get8 (\<lambda>d. r4 (R_MULSHRADD d))),
    (ROP_EQ_I, r3 (R_CMP EQ)), (ROP_NE_I, r3 (R_CMP NE)), (ROP_LT_I, r3 (R_CMP LT)),
    (ROP_GT_I, r3 (R_CMP GT)), (ROP_LE_I, r3 (R_CMP LE)), (ROP_GE_I, r3 (R_CMP GE)),
    (ROP_JCMP_EQ_I, rjmp (R_JCMP EQ)), (ROP_JCMP_NE_I, rjmp (R_JCMP NE)), (ROP_JCMP_LT_I, rjmp (R_JCMP LT)),
    (ROP_JCMP_GT_I, rjmp (R_JCMP GT)), (ROP_JCMP_LE_I, rjmp (R_JCMP LE)), (ROP_JCMP_GE_I, rjmp (R_JCMP GE)),
    (ROP_JZ, get8 (\<lambda>a. get16 (\<lambda>off. mret (R_JZ a off)))), (ROP_JNZ, get8 (\<lambda>a. get16 (\<lambda>off. mret (R_JNZ a off)))),
    (ROP_LOAD_ARR_I, r3 R_LOAD_ARR), (ROP_STORE_ARR_I, r3 R_STORE_ARR),
    (ROP_LOAD_ARR_F, r3 R_LOAD_ARR), (ROP_STORE_ARR_F, r3 R_STORE_ARR)]"

datatype rdecoded = Rop rop "u8 list" | RTrunc | RBad u8

definition rop_decode :: "u8 list \<Rightarrow> rdecoded" where
  "rop_decode bs = (case bs of [] \<Rightarrow> RTrunc
     | b # r \<Rightarrow> (case find_op b rop_table of None \<Rightarrow> RBad b
         | Some p \<Rightarrow> (case p r of None \<Rightarrow> RTrunc | Some (i, r') \<Rightarrow> Rop i r')))"

section \<open>The register file\<close>

text \<open>
  \<open>regs\<close> is \<open>int64_t regs[MAX_FAST_REGS]\<close>, uninitialised beyond \<open>nregs\<close>: reading such a register, or one past
  the array, is a \<open>Fault\<close>. \<open>arr_ptrs\<close> are the records the block's array numbers stand for.
\<close>

record fast =
  fvm :: vm
  regs :: "nat \<Rightarrow> i64 option"
  rpc :: int
  arr_ptrs :: "aref list"

definition rget :: "fast \<Rightarrow> u8 \<Rightarrow> i64 res" where
  "rget f r = (if unat r < MAX_FAST_REGS then of_opt (regs f (unat r)) else Fault)"

definition rset :: "nat \<Rightarrow> i64 \<Rightarrow> fast \<Rightarrow> fast res" where
  "rset r v f = (if r < MAX_FAST_REGS then Ok (f\<lparr>regs := (regs f)(r := Some v)\<rparr>) else Fault)"

definition ferror :: "fast \<Rightarrow> string \<Rightarrow> 'a res" where
  "ferror f msg = bc_vm_error (fvm f) msg"

text \<open>The result of one micro-operation: the state and whether the block is left.\<close>

definition rdst :: "u8 \<Rightarrow> i64 \<Rightarrow> fast \<Rightarrow> (fast \<times> bool) res" where
  "rdst d v f = bindO (rset (unat d) v f) (\<lambda>f'. Ok (f', False))"

definition rjump :: "bool \<Rightarrow> u16 \<Rightarrow> fast \<Rightarrow> (fast \<times> bool) res" where
  "rjump c off f = Ok (if c then f\<lparr>rpc := rpc f + sint off\<rparr> else f, False)"

text \<open>\<open>>>\<close> on a signed operand shifts the sign in, unlike \<open>OP_SHR\<close>.\<close>

definition rop_int :: "ibin \<Rightarrow> i64 \<Rightarrow> i64 \<Rightarrow> vm \<Rightarrow> i64 res" where
  "rop_int b x y s = (case b of
      SHR \<Rightarrow> if shift_ok y then Ok (signed_drop_bit (unat y) x) else Fault
    | _ \<Rightarrow> int_op b x y s)"

definition rop_un :: "unop \<Rightarrow> i64 \<Rightarrow> i64 res" where
  "rop_un u x = (case u of UNEG_I \<Rightarrow> Ok (- x) | UNEG_F \<Rightarrow> Ok (f_neg x) | UNOT \<Rightarrow> Ok (if x = 0 then 1 else 0)
     | UINV \<Rightarrow> Ok (NOT x) | UMOV \<Rightarrow> Ok x | UI2F \<Rightarrow> Ok (f_of_i64 x) | UF2I \<Rightarrow> of_opt (f_trunc x))"

text \<open>\<open>(int)regs[bits]\<close>\<close>

definition as_c_int :: "i64 \<Rightarrow> int" where
  "as_c_int v = sint (ucast v :: 32 word)"

definition elem_of :: "fast \<Rightarrow> u8 \<Rightarrow> u8 \<Rightarrow> nat res" where
  "elem_of f ai ir =
     (if unat ai < length (arr_ptrs f) then
        bindO (rget f ir) (\<lambda>idx.
          let a = get_arr (fvm f) (arr_ptrs f ! unat ai) in
          if sint idx < 0 \<or> sint idx \<ge> uint (total_elements a)
          then ferror f (''Array index out of bounds ('' @ dec_int (sint idx) @ '')'')
          else Ok (elem_addr a (ucast idx) TI))
      else Fault)"

text \<open>The micro-operations by groups: fused products, comparisons, jumps, array elements.\<close>

definition exec_fused :: "rop \<Rightarrow> fast \<Rightarrow> (fast \<times> bool) res" where
  "exec_fused i f = (case i of
      R_SQRDIV d x n \<Rightarrow> bindO (rget f x) (\<lambda>vx. bindO (rget f n) (\<lambda>vn.
        bindO (vm_muldiv_pow2 (fvm f) vx vx (as_c_int vn)) (\<lambda>v. rdst d v f)))
    | R_MULDIV d x y n \<Rightarrow> bindO (rget f x) (\<lambda>vx. bindO (rget f y) (\<lambda>vy. bindO (rget f n) (\<lambda>vn.
        bindO (vm_muldiv_pow2 (fvm f) vx vy (as_c_int vn)) (\<lambda>v. rdst d v f))))
    | R_SQRSHR d x n \<Rightarrow> bindO (rget f x) (\<lambda>vx. bindO (rget f n) (\<lambda>vn.
        bindO (vm_mulshr (fvm f) vx vx (as_c_int vn)) (\<lambda>v. rdst d v f)))
    | R_MULSHR d x y n \<Rightarrow> bindO (rget f x) (\<lambda>vx. bindO (rget f y) (\<lambda>vy. bindO (rget f n) (\<lambda>vn.
        bindO (vm_mulshr (fvm f) vx vy (as_c_int vn)) (\<lambda>v. rdst d v f))))
    | R_MULSHRADD d x y n c \<Rightarrow> bindO (rget f x) (\<lambda>vx. bindO (rget f y) (\<lambda>vy. bindO (rget f n) (\<lambda>vn.
        bindO (vm_mulshr (fvm f) vx vy (as_c_int vn)) (\<lambda>v. bindO (rget f c) (\<lambda>vc. rdst d (v + vc) f)))))
    | _ \<Rightarrow> Fault)"

definition exec_compare :: "rel \<Rightarrow> u8 \<Rightarrow> u8 \<Rightarrow> u8 \<Rightarrow> fast \<Rightarrow> (fast \<times> bool) res" where
  "exec_compare r d x y f = bindO (rget f x) (\<lambda>vx. bindO (rget f y) (\<lambda>vy. rdst d (bool_i64 (cmp_i r vx vy)) f))"

definition exec_jump :: "rop \<Rightarrow> fast \<Rightarrow> (fast \<times> bool) res" where
  "exec_jump i f = (case i of
      R_JCMP r x y off \<Rightarrow> bindO (rget f x) (\<lambda>vx. bindO (rget f y) (\<lambda>vy. rjump (cmp_i r vx vy) off f))
    | R_JZ x off \<Rightarrow> bindO (rget f x) (\<lambda>vx. rjump (vx = 0) off f)
    | R_JNZ x off \<Rightarrow> bindO (rget f x) (\<lambda>vx. rjump (vx \<noteq> 0) off f)
    | _ \<Rightarrow> Fault)"

definition exec_elem :: "rop \<Rightarrow> fast \<Rightarrow> (fast \<times> bool) res" where
  "exec_elem i f = (case i of
      R_LOAD_ARR d ai ir \<Rightarrow> bindO (elem_of f ai ir) (\<lambda>a. bindO (of_opt (rd64 (fvm f) a)) (\<lambda>v. rdst d v f))
    | R_STORE_ARR x ai ir \<Rightarrow> bindO (elem_of f ai ir) (\<lambda>a. bindO (rget f x) (\<lambda>v.
        bindO (of_opt (wr64 (fvm f) a v)) (\<lambda>s. Ok (f\<lparr>fvm := s\<rparr>, False))))
    | _ \<Rightarrow> Fault)"

definition exec_rop :: "libm \<Rightarrow> rop \<Rightarrow> fast \<Rightarrow> (fast \<times> bool) res" where
  "exec_rop m i f = (case i of
      R_EXIT \<Rightarrow> Ok (f, True)
    | R_JMP off \<Rightarrow> rjump True off f
    | R_CHECKINT \<Rightarrow> Ok (f\<lparr>fvm := (fvm f)\<lparr>serviced := serviced (fvm f) + 1\<rparr>\<rparr>, False)
    | R_BIN_I b d x y \<Rightarrow> bindO (rget f x) (\<lambda>vx. bindO (rget f y) (\<lambda>vy. bindO (rop_int b vx vy (fvm f)) (\<lambda>v. rdst d v f)))
    | R_BIN_F b d x y \<Rightarrow> bindO (rget f x) (\<lambda>vx. bindO (rget f y) (\<lambda>vy. bindO (flt_op m b vx vy (fvm f)) (\<lambda>v. rdst d v f)))
    | R_UN u d x \<Rightarrow> bindO (rget f x) (\<lambda>vx. bindO (rop_un u vx) (\<lambda>v. rdst d v f))
    | R_IMM d v \<Rightarrow> rdst d v f
    | R_CMP r d x y \<Rightarrow> exec_compare r d x y f
    | R_JCMP _ _ _ _ \<Rightarrow> exec_jump i f | R_JZ _ _ \<Rightarrow> exec_jump i f | R_JNZ _ _ \<Rightarrow> exec_jump i f
    | R_LOAD_ARR _ _ _ \<Rightarrow> exec_elem i f | R_STORE_ARR _ _ _ \<Rightarrow> exec_elem i f
    | _ \<Rightarrow> exec_fused i f)"

definition fast_step :: "libm \<Rightarrow> fast \<Rightarrow> (fast \<times> bool) res" where
  "fast_step m f =
     (let code = bytecode (fvm f) in
      if rpc f < 0 \<or> rpc f \<ge> int (length code) then Fault
      else case rop_decode (drop (nat (rpc f)) code) of
        RTrunc \<Rightarrow> Fault
      | RBad b \<Rightarrow> ferror f (''FAST_LOOP: invalid micro-op 0x'' @ hex2 b)
      | Rop i rest \<Rightarrow> exec_rop m i (f\<lparr>rpc := int (length code - length rest)\<rparr>))"

text \<open>\<open>None\<close>: the fuel is used up before the block is left.\<close>

fun fast_run :: "libm \<Rightarrow> nat \<Rightarrow> fast \<Rightarrow> fast res option" where
  "fast_run m 0 f = None"
| "fast_run m (Suc n) f =
     (case fast_step m f of
        Ok (f', False) \<Rightarrow> fast_run m n f' | Ok (f', True) \<Rightarrow> Some (Ok f')
      | Err e s \<Rightarrow> Some (Err e s) | Fault \<Rightarrow> Some Fault)"

section \<open>Entering and leaving a block\<close>

text \<open>The header behind the opcode, then the tables of globals, arrays and constants, as they are read.\<close>

record fast_block =
  blk_len :: u16
  blk_nregs :: u8
  blk_nlocals :: u8
  blk_nglobals :: u8
  blk_nconsts :: u8
  blk_narrays :: u8

definition read_header :: "u8 list \<Rightarrow> (fast_block \<times> u8 list) option" where
  "read_header = get16 (\<lambda>n. get8 (\<lambda>r. get8 (\<lambda>l. get8 (\<lambda>g. get8 (\<lambda>c. get8 (\<lambda>a rest.
     Some (\<lparr>blk_len = n, blk_nregs = r, blk_nlocals = l, blk_nglobals = g, blk_nconsts = c, blk_narrays = a\<rparr>, rest)))))))"

fun read_n :: "nat \<Rightarrow> (u8 list \<Rightarrow> ('a \<times> u8 list) option) \<Rightarrow> u8 list \<Rightarrow> ('a list \<times> u8 list) option" where
  "read_n 0 p bs = Some ([], bs)"
| "read_n (Suc n) p bs =
     (case p bs of None \<Rightarrow> None
      | Some (x, r) \<Rightarrow> (case read_n n p r of None \<Rightarrow> None | Some (xs, r') \<Rightarrow> Some (x # xs, r')))"

definition read_global :: "u8 list \<Rightarrow> (u16 \<times> u8 list) option" where
  "read_global = get16 (\<lambda>slot r. Some (slot, r))"

definition read_array :: "u8 list \<Rightarrow> ((u8 \<times> u16) \<times> u8 list) option" where
  "read_array = get8 (\<lambda>l. get16 (\<lambda>slot r. Some ((l, slot), r)))"

text \<open>Both readings of a constant copy its eight bytes.\<close>

definition read_const :: "u8 list \<Rightarrow> (i64 \<times> u8 list) option" where
  "read_const = get8 (\<lambda>ctype. get64 (\<lambda>v r. Some (v, r)))"

text \<open>The cell of a local: the caller's when the slot is bound by reference.\<close>

definition fast_cell :: "vm \<Rightarrow> nat \<Rightarrow> cell res" where
  "fast_cell s i =
     (let idx = frame_base s + int i in
      if idx < 0 \<or> idx \<ge> int VM_MAX_LOCALS then Fault
      else Ok (case local_ref_val s idx of Some c \<Rightarrow> c | None \<Rightarrow> CLocal idx))"

text \<open>\<open>i < nlocals && i < (int)(locals_top - frame_base)\<close>\<close>

definition live_locals :: "vm \<Rightarrow> u8 \<Rightarrow> nat" where
  "live_locals s n = min (unat n) (nat (locals_top s - frame_base s))"

fun load_locals :: "nat list \<Rightarrow> fast \<Rightarrow> fast res" where
  "load_locals [] f = Ok f"
| "load_locals (i # is) f =
     bindO (fast_cell (fvm f) i) (\<lambda>c. bindO (get_cell (fvm f) c) (\<lambda>v. bindO (rset i v f) (load_locals is)))"

fun load_globals :: "nat \<Rightarrow> u16 list \<Rightarrow> fast \<Rightarrow> fast res" where
  "load_globals r [] f = Ok f"
| "load_globals r (g # gs) f =
     bindO (get_cell (fvm f) (CGlobal (unat g))) (\<lambda>v. bindO (rset r v f) (load_globals (r + 1) gs))"

fun load_consts :: "nat \<Rightarrow> i64 list \<Rightarrow> fast \<Rightarrow> fast res" where
  "load_consts r [] f = Ok f"
| "load_consts r (v # vs) f = bindO (rset r v f) (load_consts (r + 1) vs)"

definition fast_arr :: "vm \<Rightarrow> u8 \<times> u16 \<Rightarrow> aref res" where
  "fast_arr s a =
     (if fst a \<noteq> 0 then
        (let idx = frame_base s + int (unat (snd a)) in if 0 \<le> idx \<and> idx < int VM_MAX_LOCALS then Ok (ALocal idx) else Fault)
      else garr s (snd a))"

fun load_arrays :: "(u8 \<times> u16) list \<Rightarrow> fast \<Rightarrow> fast res" where
  "load_arrays [] f = Ok f"
| "load_arrays (a # as) f = bindO (fast_arr (fvm f) a) (\<lambda>r. load_arrays as (f\<lparr>arr_ptrs := arr_ptrs f @ [r]\<rparr>))"

fun store_locals :: "nat list \<Rightarrow> fast \<Rightarrow> fast res" where
  "store_locals [] f = Ok f"
| "store_locals (i # is) f =
     bindO (fast_cell (fvm f) i) (\<lambda>c. bindO (rget f (of_nat i)) (\<lambda>v. bindO (set_cell (fvm f) c v) (\<lambda>s.
       store_locals is (f\<lparr>fvm := s\<rparr>))))"

fun store_globals :: "nat \<Rightarrow> u16 list \<Rightarrow> fast \<Rightarrow> fast res" where
  "store_globals r [] f = Ok f"
| "store_globals r (g # gs) f =
     bindO (rget f (of_nat r)) (\<lambda>v. bindO (set_cell (fvm f) (CGlobal (unat g)) v) (\<lambda>s. bindO (set_valid s (unat g)) (\<lambda>s'.
       store_globals (r + 1) gs (f\<lparr>fvm := s'\<rparr>))))"

text \<open>Everything up to the first micro-operation; \<open>global_slots\<close> holds 32 entries and \<open>arr_ptrs\<close> 16.\<close>

definition fast_enter :: "vm \<Rightarrow> (fast_block \<times> u16 list \<times> fast) res" where
  "fast_enter s =
     bindO (of_opt (read_header (drop (nat (pc s)) (bytecode s)))) (\<lambda>(b, r0).
       if unat (blk_nregs b) > MAX_FAST_REGS
       then bc_vm_error (s\<lparr>pc := pc s + 7\<rparr>) (''FAST_LOOP: too many registers ('' @ dec_nat (unat (blk_nregs b)) @ '')'')
       else if unat (blk_nglobals b) > 32 \<or> unat (blk_narrays b) > 16 then Fault
       else
         let nl = unat (blk_nlocals b); ng = unat (blk_nglobals b);
             f0 = \<lparr>fvm = s, regs = (\<lambda>i. if i < unat (blk_nregs b) then Some 0 else None), rpc = 0, arr_ptrs = []\<rparr>
         in bindO (load_locals [0..<live_locals s (blk_nlocals b)] f0) (\<lambda>f1.
            bindO (of_opt (read_n ng read_global r0)) (\<lambda>(gs, r1). bindO (load_globals nl gs f1) (\<lambda>f2.
            bindO (of_opt (read_n (unat (blk_narrays b)) read_array r1)) (\<lambda>(as, r2). bindO (load_arrays as f2) (\<lambda>f3.
            bindO (of_opt (read_n (unat (blk_nconsts b)) read_const r2)) (\<lambda>(cs, r3). bindO (load_consts (nl + ng) cs f3) (\<lambda>f4.
              let p = int (length (bytecode s) - length r3) in
              Ok (b, gs, f4\<lparr>rpc := p, fvm := (fvm f4)\<lparr>pc := p\<rparr>\<rparr>)))))))))"

definition fast_leave :: "int \<Rightarrow> fast_block \<Rightarrow> u16 list \<Rightarrow> fast \<Rightarrow> vm res" where
  "fast_leave block_end b gs f =
     bindO (store_locals [0..<live_locals (fvm f) (blk_nlocals b)] f) (\<lambda>f1.
       bindO (store_globals (unat (blk_nlocals b)) gs f1) (\<lambda>f2. Ok ((fvm f2)\<lparr>pc := block_end\<rparr>)))"

text \<open>\<open>op_fast_loop\<close>, with \<open>pc\<close> behind the opcode and at most \<open>n\<close> micro-operations.\<close>

definition op_fast_loop :: "libm \<Rightarrow> nat \<Rightarrow> vm \<Rightarrow> vm res option" where
  "op_fast_loop m n s =
     (case fast_enter s of
        Err e s' \<Rightarrow> Some (Err e s') | Fault \<Rightarrow> Some Fault
      | Ok (b, gs, f) \<Rightarrow>
          (case fast_run m n f of
             None \<Rightarrow> None
           | Some r \<Rightarrow> Some (bindO r (fast_leave (pc s + 2 + int (unat (blk_len b))) b gs))))"

text \<open>The dispatch loop with the register machine: \<open>n\<close> bounds the micro-operations of one block.\<close>

definition step_fast :: "libm \<Rightarrow> nat \<Rightarrow> vm \<Rightarrow> progress option" where
  "step_fast m n s =
     (case step m s of
        Outside b \<Rightarrow> if b = OP_FAST_LOOP then map_option after_op (op_fast_loop m n (s\<lparr>pc := pc s + 1\<rparr>)) else Some (Outside b)
      | p \<Rightarrow> Some p)"

end
