(* ===== verification/VmInv.thy ===== *)
theory VmInv
  imports Vm
begin

text \<open>
  The invariant of the virtual machine: stack pointers inside their tables and legal saved frames, in
  every state a program reaches. The handlers are sorted into those that leave the control state
  alone (\<open>keeps\<close>, collection \<open>quiet\<close>) and those of control flow, treated one by one.
\<close>

section \<open>What a handler leaves alone\<close>

text \<open>
  \<open>keeps\<close>: the call, GOSUB and FOR stacks, the frame and the program are as before, and a legal
  operand stack stays legal. Every handler but those of control flow is of this kind.
\<close>

definition stk_ok :: "vm \<Rightarrow> bool" where
  "stk_ok s \<longleftrightarrow> -1 \<le> sp s \<and> sp s < VM_STACK_SIZE \<and> str_temp_idx s < 4"

definition same_ctl :: "vm \<Rightarrow> vm \<Rightarrow> bool" where
  "same_ctl s s' \<longleftrightarrow> csp s' = csp s \<and> call_stack s' = call_stack s \<and> gsp s' = gsp s \<and> gosub_stack s' = gosub_stack s \<and>
     fsp s' = fsp s \<and> frame_base s' = frame_base s \<and> locals_top s' = locals_top s \<and> bytecode s' = bytecode s \<and>
     compiler s' = compiler s \<and> pc s' = pc s"

definition keeps :: "vm \<Rightarrow> vm \<Rightarrow> bool" where
  "keeps s s' \<longleftrightarrow> same_ctl s s' \<and> (stk_ok s \<longrightarrow> stk_ok s')"

definition kv :: "vm \<Rightarrow> vm res \<Rightarrow> bool" where "kv s r \<longleftrightarrow> (\<forall>s'. r = Ok s' \<longrightarrow> keeps s s')"
definition kp :: "vm \<Rightarrow> ('a \<times> vm) res \<Rightarrow> bool" where "kp s r \<longleftrightarrow> (\<forall>v s'. r = Ok (v, s') \<longrightarrow> keeps s s')"
definition kl :: "vm \<Rightarrow> (vm \<times> 'a) res \<Rightarrow> bool" where "kl s r \<longleftrightarrow> (\<forall>v s'. r = Ok (s', v) \<longrightarrow> keeps s s')"

named_theorems quiet "handlers and helpers that keep the control state"

lemma keeps_refl [simp]: "keeps s s"
  by (simp add: keeps_def same_ctl_def)

lemma keeps_trans: "keeps a b \<Longrightarrow> keeps b c \<Longrightarrow> keeps a c"
  by (simp add: keeps_def same_ctl_def)

lemma keeps_upd [simp]:
  "keeps s (s\<lparr>stack := a\<rparr>)" "keeps s (s\<lparr>stack_types := b\<rparr>)" "keeps s (s\<lparr>globals := c\<rparr>)" "keeps s (s\<lparr>global_types := d\<rparr>)"
  "keeps s (s\<lparr>global_valid := e\<rparr>)" "keeps s (s\<lparr>arrays := f\<rparr>)" "keeps s (s\<lparr>locals := g\<rparr>)" "keeps s (s\<lparr>local_types := h\<rparr>)"
  "keeps s (s\<lparr>local_arrays := i\<rparr>)" "keeps s (s\<lparr>local_array_is_alias := j\<rparr>)" "keeps s (s\<lparr>local_ref_val := k\<rparr>)"
  "keeps s (s\<lparr>local_ref_typ := l\<rparr>)" "keeps s (s\<lparr>data_ptr := m\<rparr>)" "keeps s (s\<lparr>current_line := n\<rparr>)"
  "keeps s (s\<lparr>str_temp := o'\<rparr>)" "keeps s (s\<lparr>empty_byte := p\<rparr>)" "keeps s (s\<lparr>heap := q\<rparr>)" "keeps s (s\<lparr>printed := r\<rparr>)"
  "keeps s (s\<lparr>serviced := t\<rparr>)" "keeps s (s\<lparr>loop_poll_counter := u\<rparr>)" "keeps s (s\<lparr>for_stack := w\<rparr>)"
  by (simp_all add: keeps_def same_ctl_def stk_ok_def)

lemma kv_simps [simp]: "kv s Fault" "kv s (bc_vm_error s' m)" "kv s (Err e s')" "kv s (Ok s') = keeps s s'"
  by (simp_all add: kv_def)

lemma kp_simps [simp]: "kp s Fault" "kp s (bc_vm_error s' m)" "kp s (Err e s')" "kp s (Ok (v, s')) = keeps s s'"
  by (simp_all add: kp_def)

lemma kl_simps [simp]: "kl s Fault" "kl s (bc_vm_error s' m)" "kl s (Err e s')" "kl s (Ok (s', v)) = keeps s s'"
  by (simp_all add: kl_def)

lemma keep_ok: "keeps s s' \<Longrightarrow> kv s (Ok s')"
  by simp

lemma kv_trans: "keeps s s1 \<Longrightarrow> kv s1 r \<Longrightarrow> kv s r"
  by (auto simp: kv_def intro: keeps_trans)

lemma kp_trans: "keeps s s1 \<Longrightarrow> kp s1 r \<Longrightarrow> kp s r"
  by (auto simp: kp_def intro: keeps_trans)

lemma bind_vm: "kv s m \<Longrightarrow> (\<And>s1. kv s1 (f s1)) \<Longrightarrow> kv s (bindO m f)"
  by (cases m) (auto intro: kv_trans)

lemma bind_pair: "kp s m \<Longrightarrow> (\<And>v s1. kv s1 (f v s1)) \<Longrightarrow> kv s (bindO m (\<lambda>(v, s1). f v s1))"
  by (cases m) (auto intro: kv_trans)

lemma bind_left: "kl s m \<Longrightarrow> (\<And>v s1. kv s1 (f s1 v)) \<Longrightarrow> kv s (bindO m (\<lambda>(s1, v). f s1 v))"
  by (cases m) (auto intro: kv_trans)

lemma bind_val: "(\<And>v. kv s (f v)) \<Longrightarrow> kv s (bindO m f)"
  by (cases m) auto

lemma bind_vm_p: "kv s m \<Longrightarrow> (\<And>s1. kp s1 (f s1)) \<Longrightarrow> kp s (bindO m f)"
  by (cases m) (auto intro: kp_trans)

lemma bind_pair_p: "kp s m \<Longrightarrow> (\<And>v s1. kp s1 (f v s1)) \<Longrightarrow> kp s (bindO m (\<lambda>(v, s1). f v s1))"
  by (cases m) (auto intro: kp_trans)

lemma bind_val_p: "(\<And>v. kp s (f v)) \<Longrightarrow> kp s (bindO m f)"
  by (cases m) auto

lemma keep_if: "(c \<Longrightarrow> kv s a) \<Longrightarrow> (\<not> c \<Longrightarrow> kv s b) \<Longrightarrow> kv s (if c then a else b)"
  by simp

lemma keep_if_p: "(c \<Longrightarrow> kp s a) \<Longrightarrow> (\<not> c \<Longrightarrow> kp s b) \<Longrightarrow> kp s (if c then a else b)"
  by simp

lemma keep_temp: "(\<And>s1 t. kv s1 (f s1 t)) \<Longrightarrow> kv s (case vm_get_str_temp s of (s1, t) \<Rightarrow> f s1 t)"
proof -
  assume f: "\<And>s1 t. kv s1 (f s1 t)"
  have "keeps s (fst (vm_get_str_temp s))"
    by (simp add: vm_get_str_temp_def Let_def keeps_def same_ctl_def stk_ok_def)
  then show ?thesis using f by (simp add: case_prod_beta kv_trans)
qed

lemma BC_ALLOC_keeps: "keeps s (fst (BC_ALLOC s n))"
  by (simp add: BC_ALLOC_def split: prod.splits option.splits)

lemma keep_alloc: "(\<And>s1 p. kv s1 (f s1 p)) \<Longrightarrow> kv s (case BC_ALLOC s n of (s1, p) \<Rightarrow> f s1 p)"
  using BC_ALLOC_keeps [of s n] by (simp add: case_prod_beta kv_trans)

lemmas quiet_rules = keep_ok bind_pair bind_left bind_vm bind_pair_p bind_vm_p keep_if keep_if_p keep_temp keep_alloc

section \<open>The helpers\<close>

lemma push_quiet [quiet]: "kv s (push t v s)" "kv s (PUSH_I v s)" "kv s (PUSH_F v s)" "kv s (PUSH_S a s)"
  "kv s (bc_push_array_ref t v s)"
  by (auto simp: push_def PUSH_I_def PUSH_F_def PUSH_S_def bc_push_array_ref_def keeps_def same_ctl_def stk_ok_def)

lemma POP_quiet [quiet]: "kp s (POP s)"
  by (auto simp: POP_def keeps_def same_ctl_def stk_ok_def)

lemma pops_quiet [quiet]: "kp s (POP_S s)" "kp s (POP_NUMERIC_I s)" "kp s (POP_NUMERIC_F s)" "kp s (POP_as_I s)" "kp s (POP_as_F s)"
  unfolding POP_S_def POP_NUMERIC_I_def POP_NUMERIC_F_def POP_as_I_def POP_as_F_def
  by (rule quiet_rules quiet bind_val_p kp_simps | simp)+

lemma set_TOS_quiet [quiet]: "kv s (set_TOS v s)" "kv s (set_TOS_type t s)"
  by (simp_all add: set_TOS_def set_TOS_type_def)

lemma wr_byte_keeps: "wr_byte s a b = Some s' \<Longrightarrow> keeps s s'"
  by (auto simp: wr_byte_def split: if_splits)

lemma wr_bytes_keeps: "wr_bytes wr_byte s a bs = Some s' \<Longrightarrow> keeps s s'"
  by (induction bs arbitrary: s a) (auto split: option.splits intro: keeps_trans wr_byte_keeps)

lemma copy_up_keeps: "copy_up rd_byte wr_byte s d a n = Some s' \<Longrightarrow> keeps s s'"
  by (induction n arbitrary: s d a) (auto split: option.splits intro: keeps_trans wr_byte_keeps)

lemma wr_quiet [quiet]: "kv s (wr s a b)" "kv s (of_opt (wr_bytes wr_byte s a bs))" "kv s (of_opt (wr64 s a v))"
  "kv s (fill s a b n)" "kv s (strcopy s d a)" "kv s (memcpy s d a n)"
  by (auto simp: kv_def wr_def wr64_def fill_def strcopy_def Mstrcpy_def memcpy_def
      simp del: copy_up.simps intro: wr_byte_keeps wr_bytes_keeps copy_up_keeps split: option.splits if_splits)

lemma cell_quiet [quiet]: "kv s (set_cell s c v)" "kv s (set_tcell s t y)" "kv s (set_valid s n)"
  by (auto simp: set_cell_def set_tcell_def set_valid_def quiet split: cell.splits tcell.splits)

lemma BC_FREE_quiet [quiet]: "kv s (BC_FREE s a)"
  by (auto simp: BC_FREE_def split: option.splits)

lemma string_buffer_quiet [quiet]: "kl s (string_buffer s c)"
proof -
  have "kl s (let (s1, p) = BC_ALLOC s n in bindO (set_cell s1 c (set_s v p))
      (\<lambda>s2. if p = 0 then bc_vm_error s2 m else Ok (s2, p)))" for n v m
    using cell_quiet(1) [of "fst (BC_ALLOC s n)" c] BC_ALLOC_keeps [of s n]
    by (fastforce simp: kl_def kv_def case_prod_beta intro: keeps_trans split: if_splits)
  then show ?thesis by (cases "get_cell s c") (auto simp: string_buffer_def)
qed

lemma string_assign_quiet [quiet]: "kv s (string_assign s c a)"
  unfolding string_assign_def by (rule quiet_rules quiet)+

lemma pop_indices_quiet [quiet]: "kp s (pop_indices d ix s)"
proof (induction d arbitrary: ix s)
  case 0
  show ?case by simp
next
  case (Suc d)
  show ?case by (simp add: Suc.IH bind_pair_p pops_quiet)
qed

section \<open>The quiet handlers\<close>

lemma keep_cases:
  "\<lbrakk>\<And>x. c = Some x \<Longrightarrow> kv s (f x); c = None \<Longrightarrow> kv s b\<rbrakk> \<Longrightarrow> kv s (case c of None \<Rightarrow> b | Some x \<Rightarrow> f x)"
  "\<lbrakk>t = TI \<Longrightarrow> kv s u; t = TF \<Longrightarrow> kv s v; t = TS \<Longrightarrow> kv s w\<rbrakk> \<Longrightarrow> kv s (case t of TI \<Rightarrow> u | TF \<Rightarrow> v | TS \<Rightarrow> w)"
  by (cases c; simp) (cases t; simp)

lemma keep_cases_p:
  "\<lbrakk>t = TI \<Longrightarrow> kp s u'; t = TF \<Longrightarrow> kp s v'; t = TS \<Longrightarrow> kp s w'\<rbrakk> \<Longrightarrow> kp s (case t of TI \<Rightarrow> u' | TF \<Rightarrow> v' | TS \<Rightarrow> w')"
  by (cases t; simp)

lemma quiet_value [quiet]:
  "kv s (op_push_str idx s)" "kv s (op_load t n s)" "kv s (op_store t n s)" "kv s (op_cvt_i2f s)" "kv s (op_cvt_f2i s)"
  "kv s (op_bin_i f s)" "kv s (op_bin_f m g s)" "kv s (op_neg_i s)" "kv s (op_neg_f s)" "kv s (op_not s)" "kv s (op_inv s)"
  "kv s (op_cmp_i r s)" "kv s (op_cmp_f r s)" "kv s (op_cmp_s r s)"
  unfolding op_push_str_def op_load_def op_store_def op_cvt_i2f_def op_cvt_f2i_def op_bin_i_def op_bin_f_def op_neg_i_def
    op_neg_f_def op_not_def op_inv_def op_cmp_i_def op_cmp_f_def op_cmp_s_def Let_def
  by (rule quiet_rules keep_cases quiet kv_simps bind_val)+

lemma quiet_pop [quiet]: "kv s (op_pop s)" "kv s (op_dup s)"
  by (auto simp: op_pop_def op_dup_def keeps_def same_ctl_def stk_ok_def)

lemma mov_cell_quiet: "kv s (f c t)" if "\<And>c t. kv s (f c t)"
  using that by simp

lemma mov_done_quiet [quiet]: "kv s (mov_done r t y s)"
  by (simp add: mov_done_def quiet split: option.splits)

lemma bind_pure_pair: "(\<And>a b. kv s (f a b)) \<Longrightarrow> kv s (bindO (m :: (cell \<times> 'b) res) (\<lambda>(a, b). f a b))"
  by (cases m) auto

lemma bind_pure_fst: "(\<And>a b. kp s (f a b)) \<Longrightarrow> kp s (bindO (m :: (cell \<times> 'b) res) (\<lambda>(a, b). f a b))"
  by (cases m) auto

lemma quiet_mov [quiet]: "kv s (op_mov_var k a b s)"
  unfolding op_mov_var_def
  by (rule bind_pure_pair quiet_rules keep_cases quiet kv_simps bind_val)+

lemma quiet_local [quiet]:
  "kv s (op_load_local t n s)" "kv s (op_store_local t n s)" "kv s (op_pushref sc n y s)" "kv s (op_inc_i n s)" "kv s (op_inc_f n s)"
  unfolding op_load_local_def op_store_local_def op_pushref_def op_inc_i_def op_inc_f_def for_valid_def
  by (rule bind_pure_pair quiet_rules keep_cases quiet kv_simps bind_val keeps_refl | simp)+

lemma set_arr_keeps [simp]: "keeps s (set_arr s r a)"
  by (simp add: set_arr_def split: aref.splits)

lemma quiet_elem [quiet]: "kv s (load_elem t r d s)"
  unfolding load_elem_def Let_def
  by (rule quiet_rules keep_cases quiet kv_simps bind_val)+

lemma quiet_store_elem [quiet]: "kv s (store_elem t r d s)"
  unfolding store_elem_def Let_def
  by (rule bind_pair_p quiet_rules keep_cases keep_cases_p quiet kv_simps kp_simps bind_val keeps_refl | simp)+

lemma quiet_arrays [quiet]:
  "kv s (op_load_arr t n d s)" "kv s (op_store_arr t n d s)" "kv s (op_load_local_arr t n d s)" "kv s (op_store_local_arr t n d s)"
  "kv s (op_pushref_aelem n l d s)" "kv s (op_load_struct_field t n k s)" "kv s (op_store_struct_field_n t n k s)"
  "kv s (op_store_struct_field_s n k z s)"
  unfolding op_load_arr_def op_store_arr_def op_load_local_arr_def op_store_local_arr_def op_pushref_aelem_def
    op_load_struct_field_def op_store_struct_field_n_def op_store_struct_field_s_def Let_def
  by (rule quiet_rules keep_cases quiet kv_simps bind_val)+

lemma dim_loop_quiet [quiet]: "kp s (dim_loop r ds k d tot s)"
  by (induction k arbitrary: d tot s) (auto intro: kp_trans [OF set_arr_keeps])

lemma dim_array_quiet [quiet]: "kv s (dim_array r t d s)"
proof -
  have fin: "kv s2 (case BC_ALLOC (set_arr s2 r a) n of (s4, p) \<Rightarrow>
      if p = 0 then bc_vm_error (set_arr s4 r (f s4 p)) e else fill (set_arr s4 r (f s4 p)) p 0 n)" for s2 a n f e
    by (rule kv_trans [OF set_arr_keeps], rule keep_alloc, rule keep_if)
      (auto intro: kv_trans [OF set_arr_keeps] quiet)
  show ?thesis
    unfolding dim_array_def Let_def
    by (rule keep_if, rule kv_simps, rule kv_trans [OF set_arr_keeps], rule bind_pair [OF pop_indices_quiet],
        rule bind_pair [OF dim_loop_quiet], rule fin)
qed

lemma quiet_dim [quiet]: "kv s (op_dim_arr t n d s)" "kv s (op_dim_local_arr t n d s)"
proof -
  show "kv s (op_dim_arr t n d s)" unfolding op_dim_arr_def by (rule bind_val, rule dim_array_quiet)
  have "keeps s1 (s1\<lparr>local_array_is_alias := a, local_types := b\<rparr>)" for s1 a b
    by (simp add: keeps_def same_ctl_def stk_ok_def)
  then show "kv s (op_dim_local_arr t n d s)"
    unfolding op_dim_local_arr_def Let_def
    by (intro keep_if kv_simps bind_vm dim_array_quiet) simp
qed

lemma map_copy_quiet [quiet]: "kv s (map_copy f d a n s)"
proof (induction n arbitrary: s d a)
  case 0
  show ?case by simp
next
  case (Suc n)
  show ?case unfolding map_copy.simps by (rule bind_val bind_vm quiet Suc.IH)+
qed

lemma put_quiet [quiet]: "kv s (put_slice t a n s)" "kv s (put_bytes t bs s)"
  unfolding put_slice_def put_bytes_def by (rule quiet_rules quiet kv_simps keeps_refl | simp)+

lemma quiet_strings [quiet]:
  "kv s (op_add_s s)" "kv s (op_str_len s)" "kv s (op_str_left s)" "kv s (op_str_right s)" "kv s (op_str_mid2 s)"
  "kv s (op_str_mid3 s)" "kv s (op_str_case f s)" "kv s (op_str_str s)" "kv s (op_str_chr s)" "kv s (op_str_asc s)"
  "kv s (op_str_radix b s)" "kv s (op_str_space s)" "kv s (op_str_string s)" "kv s (op_str_field3 s)"
  unfolding op_add_s_def op_str_len_def op_str_left_def op_str_right_def op_str_mid2_def op_str_mid3_def op_str_case_def
    op_str_str_def op_str_chr_def op_str_asc_def op_str_radix_def op_str_space_def op_str_string_def op_str_field3_def Let_def
  by (rule quiet_rules keep_cases quiet kv_simps keeps_refl bind_val)+

lemma instr_args_quiet:
  "kp s (if c then bindO (POP s) (\<lambda>(n, s'). Ok (g n, s')) else Ok (x, s))"
  by (rule keep_if_p bind_pair_p POP_quiet | simp)+

lemma quiet_instr [quiet]: "kv s (op_str_instr k s)"
  unfolding op_str_instr_def
  by (rule instr_args_quiet quiet_rules keep_cases quiet kv_simps keeps_refl bind_val)+

lemma pop_bits_quiet [quiet]: "kp s (pop_bits s)"
  unfolding pop_bits_def by (rule bind_pair_p quiet | simp)+

lemma quiet_math [quiet]:
  "kv s (fun1 g s)" "kv s (op_math_atan2 m s)" "kv s (op_math_sqr m s)" "kv s (op_math_log m s)" "kv s (op_math_abs s)"
  "kv s (op_math_sgn s)" "kv s (op_math_fix s)" "kv s (op_math_cint s)" "kv s (op_math_pi s)" "kv s (op_math_max s)"
  "kv s (op_math_min s)" "kv s (op_math_mulshr s)" "kv s (op_math_muldiv s)" "kv s (op_math_sqrshr s)"
  "kv s (op_math_sqrdiv s)" "kv s (op_math_mulshradd s)"
  unfolding fun1_def op_math_atan2_def op_math_sqr_def op_math_log_def op_math_abs_def op_math_sgn_def op_math_fix_def
    op_math_cint_def op_math_pi_def op_math_max_def op_math_min_def op_math_mulshr_def op_math_muldiv_def
    op_math_sqrshr_def op_math_sqrdiv_def op_math_mulshradd_def
  by (rule quiet_rules keep_cases quiet kv_simps keeps_refl bind_val)+

lemma vm_output_keeps [simp]: "keeps s (vm_output s x)"
  by (simp add: vm_output_def)

lemma next_data_quiet [quiet]: "kp s (next_data s)"
  by (auto simp: next_data_def)

lemma quiet_io [quiet]:
  "kv s (op_print_int s)" "kv s (op_print_str s)" "kv s (op_print_newline s)" "kv s (op_print_tab s)"
  "kv s (op_read_i s)" "kv s (op_read_f s)" "kv s (op_restore s)" "kv s (op_restore_data n s)" "kv s (op_error_s s)"
  "kv s (op_error_empty s)"
  unfolding op_print_int_def op_print_str_def op_print_newline_def op_print_tab_def op_read_i_def op_read_f_def
    op_restore_def op_restore_data_def op_error_s_def op_error_empty_def vm_output_mstr_def
  by (rule quiet_rules keep_cases quiet kv_simps keeps_refl bind_val | simp)+

lemma quiet_read_s: "op_read_s s = Some r \<Longrightarrow> kv s r"
proof (cases "next_data s")
  case (Ok x)
  assume r: "op_read_s s = Some r"
  obtain item s1 where x: "x = (item, s1)" by (cases x)
  have k: "keeps s s1" using next_data_quiet [of s] Ok x by (simp add: kp_def)
  have t: "keeps s1 (fst (vm_get_str_temp s1))"
    by (simp add: vm_get_str_temp_def Let_def keeps_def same_ctl_def stk_ok_def)
  have "kv s (put_bytes b bs (fst (vm_get_str_temp s1)))" for b bs
    by (rule kv_trans [OF keeps_trans [OF k t]], rule put_quiet)
  then show ?thesis using r Ok x by (auto simp: op_read_s_def Let_def case_prod_beta split: if_splits)
qed (auto simp: op_read_s_def)

section \<open>Binding arguments\<close>

text \<open>A successful binding of one argument takes exactly one entry off the stack and needs a slot inside the table.\<close>

definition took1 :: "vm \<Rightarrow> vm \<Rightarrow> bool" where
  "took1 s s' \<longleftrightarrow> same_ctl s s' \<and> 0 \<le> sp s \<and> sp s' = sp s - 1 \<and> str_temp_idx s' = str_temp_idx s"

definition still :: "vm \<Rightarrow> vm \<Rightarrow> bool" where
  "still s s' \<longleftrightarrow> sp s' = sp s \<and> str_temp_idx s' = str_temp_idx s \<and> same_ctl s s'"

lemma still_refl [simp]: "still s s"
  by (simp add: still_def same_ctl_def)

lemma still_trans: "still a b \<Longrightarrow> still b c \<Longrightarrow> still a c"
  by (simp add: still_def same_ctl_def)

lemma wr_byte_still: "wr_byte s a b = Some s' \<Longrightarrow> still s s'"
  by (auto simp: wr_byte_def still_def same_ctl_def split: if_splits)

lemma copy_up_still: "copy_up rd_byte wr_byte s d a n = Some s' \<Longrightarrow> still s s'"
  by (induction n arbitrary: s d a) (auto split: option.splits intro: still_trans wr_byte_still)

lemma strcopy_frame: "strcopy s d a = Ok s' \<Longrightarrow> sp s' = sp s \<and> str_temp_idx s' = str_temp_idx s \<and> same_ctl s s'"
  unfolding still_def [symmetric]
  by (auto simp: strcopy_def Mstrcpy_def simp del: copy_up.simps intro: copy_up_still split: option.splits)

lemma BC_ALLOC_frame:
  "sp (fst (BC_ALLOC s n)) = sp s" "str_temp_idx (fst (BC_ALLOC s n)) = str_temp_idx s" "same_ctl s (fst (BC_ALLOC s n))"
  by (simp_all add: BC_ALLOC_def same_ctl_def split: prod.splits option.splits)

lemma TOS_sp: "TOS s = Ok v \<Longrightarrow> 0 \<le> sp s" "TOS_type s = Ok t \<Longrightarrow> 0 \<le> sp s"
  by (auto simp: TOS_def TOS_type_def split: if_splits)

lemma bind_scalar_took: "bc_vm_bind_scalar_ref s cf slot pt = Ok s' \<Longrightarrow> took1 s s'"
  by (auto simp: bc_vm_bind_scalar_ref_def ref_target_def took1_def same_ctl_def dest: TOS_sp)

lemma bind_array_took: "bind_array slot t pt s = Ok s' \<Longrightarrow> took1 s s'"
  by (auto simp: bind_array_def took1_def same_ctl_def dest: TOS_sp split: if_splits)

lemma bind_value_took:
  assumes "bind_value slot t pt s = Ok s'"
  shows "took1 s s'"
proof -
  obtain v w where v: "TOS s = Ok v" "bc_vm_coerce_arg_value v t pt = Some w" using assms by (auto simp: bind_value_def)
  define s1 where "s1 = s\<lparr>locals := (locals s)(slot := w), local_types := (local_types s)(slot := pt),
      local_array_is_alias := (local_array_is_alias s)(slot := 0), local_arrays := (local_arrays s)(slot := no_array)\<rparr>"
  have s1: "sp s1 = sp s" "str_temp_idx s1 = str_temp_idx s" "same_ctl s s1" by (simp_all add: s1_def same_ctl_def)
  have p: "0 \<le> sp s" by (rule TOS_sp(1) [OF v(1)])
  show ?thesis
  proof (cases "pt = T_STR \<and> v_s v \<noteq> 0")
    case False
    then have "s' = s1\<lparr>sp := sp s1 - 1\<rparr>" using assms v by (auto simp: bind_value_def s1_def Let_def)
    then show ?thesis using s1 p by (simp add: took1_def same_ctl_def)
  next
    case True
    obtain s2 c where a: "BC_ALLOC s1 STRINGSIZE = (s2, c)" by (cases "BC_ALLOC s1 STRINGSIZE")
    obtain s3 where s3: "strcopy s2 c (v_s v) = Ok s3"
      "s' = s3\<lparr>locals := (locals s3)(slot := set_s (locals s3 slot) c), sp := sp s3 - 1\<rparr>"
      using assms v True a unfolding bind_value_def s1_def [symmetric] by (auto simp: Let_def s1_def split: if_splits)
    have "sp s2 = sp s1" "str_temp_idx s2 = str_temp_idx s1" "same_ctl s1 s2"
      using BC_ALLOC_frame [of s1 STRINGSIZE] a by simp_all
    then show ?thesis using strcopy_frame [OF s3(1)] s3(2) s1 p by (simp add: took1_def same_ctl_def)
  qed
qed

lemma bind_arg_took: "bind_arg sf cf slot i s = Ok s' \<Longrightarrow> took1 s s' \<and> 0 \<le> slot \<and> slot < int VM_MAX_LOCALS"
  by (auto simp: bind_arg_def Let_def split: if_splits dest!: bind_scalar_took bind_array_took bind_value_took)
    (simp_all add: took1_def same_ctl_def)

lemma bind_args_took:
  "bind_args sf cf base n s = Ok s' \<Longrightarrow> same_ctl s s' \<and> sp s' = sp s - int n \<and> str_temp_idx s' = str_temp_idx s \<and>
     (0 < n \<longrightarrow> int n \<le> sp s + 1 \<and> base + int n \<le> int VM_MAX_LOCALS)"
proof (induction n arbitrary: s)
  case 0
  then show ?case by (simp add: same_ctl_def)
next
  case (Suc n)
  then obtain s1 where s1: "bind_arg sf cf (base + int n) n s = Ok s1" "bind_args sf cf base n s1 = Ok s'" by auto
  show ?case using bind_arg_took [OF s1(1)] Suc.IH [OF s1(2)] by (auto simp: took1_def same_ctl_def)
qed

section \<open>The invariant\<close>

definition frame_ok :: "BCCallFrame \<Rightarrow> bool" where
  "frame_ok cf \<longleftrightarrow> -1 \<le> saved_sp cf \<and> saved_sp cf < VM_STACK_SIZE \<and> 0 \<le> for_sp cf \<and> for_sp cf \<le> int VM_MAX_FOR \<and>
     0 \<le> cf_frame_base cf \<and> cf_frame_base cf \<le> cf_locals_top cf \<and> cf_locals_top cf \<le> int VM_MAX_LOCALS"

definition vm_ok :: "vm \<Rightarrow> bool" where
  "vm_ok s \<longleftrightarrow> stk_ok s \<and> 0 \<le> csp s \<and> csp s \<le> int VM_MAX_CALL \<and> 0 \<le> gsp s \<and> gsp s \<le> int VM_MAX_GOSUB \<and>
     0 \<le> fsp s \<and> fsp s \<le> int VM_MAX_FOR \<and> 0 \<le> frame_base s \<and> frame_base s \<le> locals_top s \<and>
     locals_top s \<le> int VM_MAX_LOCALS \<and> (\<forall>i. 0 \<le> i \<and> i < csp s \<longrightarrow> frame_ok (call_stack s i))"

lemma keeps_vm_ok: "keeps s s' \<Longrightarrow> vm_ok s \<Longrightarrow> vm_ok s'"
  by (simp add: keeps_def same_ctl_def vm_ok_def)

lemma kv_vm_ok: "kv s r \<Longrightarrow> vm_ok s \<Longrightarrow> r = Ok s' \<Longrightarrow> vm_ok s'"
  by (auto simp: kv_def keeps_vm_ok)

lemma vm_ok_pc [simp]: "vm_ok (s\<lparr>pc := x\<rparr>) = vm_ok s"
  by (simp add: vm_ok_def stk_ok_def)

lemma rel_jump_vm_ok [simp]: "vm_ok (rel_jump off s) = vm_ok s"
  by (simp add: rel_jump_def bc_vm_poll_interrupts_def Let_def vm_ok_def stk_ok_def)

lemma call_vm_ok:
  assumes "vm_ok s" "bind_args sf cf base n (push_frame cf s) = Ok s1" "cf = call_frame s idx sf n"
    "csp s < int VM_MAX_CALL" "base = locals_top s + d" "0 \<le> d" "locals_top s + d \<le> int VM_MAX_LOCALS"
  shows "vm_ok (s1\<lparr>locals_top := locals_top s + d + int n, pc := x\<rparr>)"
proof -
  note b = bind_args_took [OF assms(2)]
  have c: "csp s1 = csp s + 1" "call_stack s1 = (call_stack s)(csp s := cf)" "gsp s1 = gsp s" "fsp s1 = fsp s"
    "frame_base s1 = locals_top s" "sp s1 = sp s - int n" "str_temp_idx s1 = str_temp_idx s"
    using b by (auto simp: same_ctl_def push_frame_def)
  have n: "int n \<le> sp s + 1" using b assms(1) by (cases "n = 0") (auto simp: push_frame_def vm_ok_def stk_ok_def)
  have t: "locals_top s + d + int n \<le> int VM_MAX_LOCALS" using b assms(5,7) by (cases "n = 0") auto
  have "frame_ok cf" using assms(1,3) n by (simp add: frame_ok_def call_frame_def vm_ok_def stk_ok_def)
  then show ?thesis using assms(1,4,6) c n t by (auto simp: vm_ok_def stk_ok_def)
qed

lemma for_push_vm_ok: "for_push a b c t s = Ok s1 \<Longrightarrow> vm_ok s \<Longrightarrow> vm_ok s1 \<and> 0 < fsp s1"
  by (auto simp: for_push_def vm_ok_def stk_ok_def split: if_splits)

lemma for_close_vm_ok [simp]: "vm_ok s \<Longrightarrow> vm_ok (for_close b off s)"
proof -
  have "vm_ok s \<Longrightarrow> 0 < fsp s \<Longrightarrow> vm_ok (s\<lparr>fsp := fsp s - 1\<rparr>)" by (simp add: vm_ok_def stk_ok_def)
  then show "vm_ok s \<Longrightarrow> vm_ok (for_close b off s)" by (simp add: for_close_def)
qed

lemma fsp_dec_vm_ok: "vm_ok s \<Longrightarrow> 0 < fsp s \<Longrightarrow> vm_ok (s\<lparr>fsp := fsp s - 1, pc := x\<rparr>)"
  by (simp add: vm_ok_def stk_ok_def)

lemma set_cell_vm_ok: "set_cell s c v = Ok s1 \<Longrightarrow> vm_ok s \<Longrightarrow> vm_ok s1" "for_valid r s = Ok s1 \<Longrightarrow> vm_ok s \<Longrightarrow> vm_ok s1"
proof -
  show "set_cell s c v = Ok s1 \<Longrightarrow> vm_ok s \<Longrightarrow> vm_ok s1" using kv_vm_ok [OF cell_quiet(1)] by blast
  have "kv s (for_valid r s)" by (simp add: for_valid_def quiet)
  then show "for_valid r s = Ok s1 \<Longrightarrow> vm_ok s \<Longrightarrow> vm_ok s1" using kv_vm_ok by blast
qed

lemma for_vm_ok:
  "vm_ok s \<Longrightarrow> op_for_init_i a b c d s = Ok s' \<Longrightarrow> vm_ok s'"
  "vm_ok s \<Longrightarrow> op_for_init_f a b c d s = Ok s' \<Longrightarrow> vm_ok s'"
  "vm_ok s \<Longrightarrow> op_for_next_i a b c d s = Ok s' \<Longrightarrow> vm_ok s'"
  "vm_ok s \<Longrightarrow> op_for_next_f a b c d s = Ok s' \<Longrightarrow> vm_ok s'"
  by (auto simp: op_for_init_i_def op_for_init_f_def op_for_next_i_def op_for_next_f_def
      dest!: for_push_vm_ok set_cell_vm_ok intro: fsp_dec_vm_ok split: if_splits)

lemma redirect_quiet [quiet]: "kv s (redirect buf ks t s)"
proof (induction ks arbitrary: t s)
  case Nil
  show ?case by simp
next
  case (Cons k ks)
  have u: "kv s1 (redirect buf ks t' (s1\<lparr>stack := x\<rparr>))" for s1 t' x
    by (rule kv_trans [OF _ Cons.IH]) simp
  show ?case
    unfolding redirect.simps Let_def
    by (rule keep_if keep_cases keep_temp bind_vm quiet u Cons.IH)+
qed

lemma leave_slot_quiet [quiet]: "kv s (leave_slot i s)"
proof -
  have fin: "keeps s2 (s2\<lparr>local_types := a, local_arrays := b, local_array_is_alias := c\<rparr>)" for s2 a b c
    by (simp add: keeps_def same_ctl_def stk_ok_def)
  have rel: "kv s1 (if adata a \<noteq> 0 \<and> z then bindO (bc_array_release s1 a) (\<lambda>(s', b). Ok (s'\<lparr>local_arrays := (local_arrays s')(i := b)\<rparr>)) else Ok s1)"
    for s1 a z
    using BC_FREE_quiet [of s1 "adata a"]
    by (auto simp: bc_array_release_def kv_def intro: keeps_trans [OF _ keeps_upd(9)] split: if_splits)
  show ?thesis
    unfolding leave_slot_def
    by (rule rel fin quiet_rules quiet kv_simps keeps_upd keeps_refl | simp)+
qed

lemma leave_slots_quiet [quiet]: "kv s (leave_slots is s)"
  by (induction "is" arbitrary: s) (simp_all add: bind_vm quiet)

lemma frame_vm_ok:
  "vm_ok s \<Longrightarrow> op_enter_frame n s = Ok s' \<Longrightarrow> vm_ok s'"
  "vm_ok s \<Longrightarrow> op_leave_frame s = Ok s' \<Longrightarrow> vm_ok s'"
  "vm_ok s \<Longrightarrow> op_ret_sub s = Ok s' \<Longrightarrow> vm_ok s'"
  "vm_ok s \<Longrightarrow> op_ret_fun s = Ok s' \<Longrightarrow> vm_ok s'"
proof -
  show "vm_ok s \<Longrightarrow> op_enter_frame n s = Ok s' \<Longrightarrow> vm_ok s'"
    by (auto simp: op_enter_frame_def Let_def vm_ok_def stk_ok_def split: if_splits)
  show "vm_ok s \<Longrightarrow> op_leave_frame s = Ok s' \<Longrightarrow> vm_ok s'"
  proof -
    assume s: "vm_ok s" "op_leave_frame s = Ok s'"
    have "vm_ok (s\<lparr>locals_top := frame_base s\<rparr>)" using s(1) by (simp add: vm_ok_def stk_ok_def)
    then show "vm_ok s'" using s kv_vm_ok [OF leave_slots_quiet] by (auto simp: op_leave_frame_def split: if_splits)
  qed
  have p: "vm_ok s \<Longrightarrow> 0 < csp s \<Longrightarrow> vm_ok (pop_frame s)"
    by (auto simp: pop_frame_def Let_def vm_ok_def stk_ok_def frame_ok_def)
  then show "vm_ok s \<Longrightarrow> op_ret_sub s = Ok s' \<Longrightarrow> vm_ok s'" by (auto simp: op_ret_sub_def split: if_splits)
  show "vm_ok s \<Longrightarrow> op_ret_fun s = Ok s' \<Longrightarrow> vm_ok s'"
    using p by (auto simp: op_ret_fun_def Let_def vm_ok_def stk_ok_def split: if_splits)
qed

lemma call_sub_vm_ok: "vm_ok s \<Longrightarrow> op_call_sub idx n s = Ok s' \<Longrightarrow> vm_ok s'"
  using call_vm_ok [where d = 0 and n = "unat n"]
  by (auto simp: op_call_sub_def Let_def vm_ok_def [of s] split: if_splits)

lemma call_fun_vm_ok:
  assumes "vm_ok s" "op_call_fun idx n s = Ok s'"
  shows "vm_ok s'"
proof -
  let ?sf = "subfuns (compiler s) ! unat idx" and ?b = "locals_top s"
  have c: "csp s < int VM_MAX_CALL" "?b < int VM_MAX_LOCALS" using assms by (auto simp: op_call_fun_def Let_def split: if_splits)
  obtain s1 where s1: "bind_args ?sf (call_frame s idx ?sf (unat n)) (?b + 1) (unat n) (push_frame (call_frame s idx ?sf (unat n)) s) = Ok s1"
    "keeps (s1\<lparr>locals_top := ?b + 1 + int (unat n), pc := uint (sf_entry_addr ?sf)\<rparr>) s'"
    using assms(2) by (auto simp: op_call_fun_def Let_def keeps_def same_ctl_def stk_ok_def split: if_splits)
  have "vm_ok (s1\<lparr>locals_top := ?b + 1 + int (unat n), pc := uint (sf_entry_addr ?sf)\<rparr>)"
    by (rule call_vm_ok [OF assms(1) s1(1) refl c(1)]) (use c in auto)
  then show ?thesis using keeps_vm_ok [OF s1(2)] by blast
qed

lemma jump_vm_ok:
  "vm_ok s \<Longrightarrow> op_jz off s = Ok s' \<Longrightarrow> vm_ok s'" "vm_ok s \<Longrightarrow> op_jnz off s = Ok s' \<Longrightarrow> vm_ok s'"
  "vm_ok s \<Longrightarrow> op_jcmp_i r off s = Ok s' \<Longrightarrow> vm_ok s'" "vm_ok s \<Longrightarrow> op_jcmp_f r off s = Ok s' \<Longrightarrow> vm_ok s'"
  "vm_ok s \<Longrightarrow> op_gosub a s = Ok s' \<Longrightarrow> vm_ok s'" "vm_ok s \<Longrightarrow> op_return s = Ok s' \<Longrightarrow> vm_ok s'"
proof -
  have p: "kp s m \<Longrightarrow> vm_ok s \<Longrightarrow> m = Ok (v, s1) \<Longrightarrow> vm_ok s1" for s m and v :: i64 and s1
    by (auto simp: kp_def keeps_vm_ok)
  note pops = p [OF POP_quiet] p [OF pops_quiet(2)]
  show "vm_ok s \<Longrightarrow> op_jz off s = Ok s' \<Longrightarrow> vm_ok s'" "vm_ok s \<Longrightarrow> op_jnz off s = Ok s' \<Longrightarrow> vm_ok s'"
    by (auto simp: op_jz_def op_jnz_def dest: pops split: if_splits)
  show "vm_ok s \<Longrightarrow> op_jcmp_i r off s = Ok s' \<Longrightarrow> vm_ok s'" "vm_ok s \<Longrightarrow> op_jcmp_f r off s = Ok s' \<Longrightarrow> vm_ok s'"
    by (cases "rel_of r"; auto simp: op_jcmp_i_def op_jcmp_f_def dest: pops split: if_splits)+
  show "vm_ok s \<Longrightarrow> op_gosub a s = Ok s' \<Longrightarrow> vm_ok s'" "vm_ok s \<Longrightarrow> op_return s = Ok s' \<Longrightarrow> vm_ok s'"
    by (auto simp: op_gosub_def op_return_def vm_ok_def stk_ok_def split: if_splits)
qed

lemma exec_str_quiet: "exec_str f s = Some r \<Longrightarrow> kv s r"
  by (cases f)
    (auto simp: exec_str_def op_str_ucase_def op_str_lcase_def op_str_hex_def op_str_oct_def op_str_bin_def quiet
      split: outcome.splits if_splits)

lemma exec_math_quiet [quiet]: "kv s (exec_math m f s)"
  by (cases f) (simp_all add: exec_math_def op_math_rad_def op_math_deg_def quiet)

lemma exec_vm_ok:
  assumes "vm_ok s" "exec m i s = Some (Ok s')"
  shows "vm_ok s'"
proof -
  have k: "kv s r \<Longrightarrow> r = Ok s' \<Longrightarrow> vm_ok s'" for r using kv_vm_ok assms(1) by blast
  have f: "keeps s s1 \<Longrightarrow> vm_ok s1" for s1 by (rule keeps_vm_ok [OF _ assms(1)])
  note ctl = jump_vm_ok [OF assms(1)] for_vm_ok [OF assms(1)] frame_vm_ok [OF assms(1)] call_sub_vm_ok [OF assms(1)]
    call_fun_vm_ok [OF assms(1)]
  show ?thesis
  proof (cases i)
    case (I_READ t)
    then show ?thesis using assms(2) by (cases t) (auto simp: exec_def intro: k quiet quiet_read_s)
  next
    case (I_STR g)
    then show ?thesis using assms(2) exec_str_quiet [of g s] by (auto simp: exec_def intro: f)
  next
    case (I_LOAD sc t n)
    then show ?thesis using assms(2) by (cases sc) (auto simp: exec_def intro: k quiet)
  next
    case (I_STORE sc t n)
    then show ?thesis using assms(2) by (cases sc) (auto simp: exec_def intro: k quiet)
  next
    case (I_LOAD_ARR sc t n d)
    then show ?thesis using assms(2) by (cases sc) (auto simp: exec_def intro: k quiet)
  next
    case (I_STORE_ARR sc t n d)
    then show ?thesis using assms(2) by (cases sc) (auto simp: exec_def intro: k quiet)
  next
    case (I_DIM_ARR sc t n d)
    then show ?thesis using assms(2) by (cases sc) (auto simp: exec_def intro: k quiet)
  next
    case (I_CMP t r)
    then show ?thesis using assms(2) by (cases t) (auto simp: exec_def op_cmp_def intro: k quiet)
  qed (use assms in \<open>simp add: exec_def op_jmp_def op_jmp_abs_def; (elim ctl)?; (auto intro: k quiet ctl f split: if_splits)?\<close>)+
qed

lemma step_vm_ok: "vm_ok s \<Longrightarrow> step m s = Next s' \<Longrightarrow> vm_ok s'"
  by (auto simp: step_def after_op_def op_invalid_def bc_vm_error_def Let_def dest!: exec_vm_ok [rotated]
      split: if_splits decoded.splits option.splits outcome.splits)

lemma init_vm_ok: "vm_ok (bc_vm_init s cs)"
  by (auto simp: bc_vm_init_def vm_ok_def stk_ok_def limits)


section \<open>Concrete machines\<close>

text \<open>A machine with an empty heap of sixteen pages, loaded with a program.\<close>

definition blank_vm :: vm where
  "blank_vm = \<lparr>pc = 0, stack = (\<lambda>_. 0), stack_types = (\<lambda>_. 0), sp = -1, globals = (\<lambda>_. 0), global_types = (\<lambda>_. 0),
     global_valid = (\<lambda>_. 0), arrays = (\<lambda>_. no_array), call_stack = (\<lambda>_. no_frame), csp = 0, gosub_stack = (\<lambda>_. 0),
     gsp = 0, locals = (\<lambda>_. 0), local_types = (\<lambda>_. 0), frame_base = 0, locals_top = 0,
     local_arrays = (\<lambda>_. no_array), local_array_is_alias = (\<lambda>_. 0), local_ref_val = (\<lambda>_. None),
     local_ref_typ = (\<lambda>_. None), for_stack = (\<lambda>_. no_for), fsp = 0, bytecode = [], compiler = empty_compiler,
     data_ptr = 0, current_line = 0, str_temp = (\<lambda>_. 0), str_temp_idx = 0, empty_byte = 0,
     heap = heap8, loop_poll_counter = 0, serviced = 0, printed = []\<rparr>"

definition no_libm :: libm where
  "no_libm = \<lparr>m_pow = (\<lambda>a b. a), m_sqrt = (\<lambda>a. a), m_sin = (\<lambda>a. a), m_cos = (\<lambda>a. a), m_tan = (\<lambda>a. a),
     m_atan = (\<lambda>a. a), m_asin = (\<lambda>a. a), m_acos = (\<lambda>a. a), m_atan2 = (\<lambda>a b. a), m_log = (\<lambda>a. a), m_exp = (\<lambda>a. a)\<rparr>"

definition assemble :: "instr list \<Rightarrow> u8 list" where
  "assemble is = concat (map encode is)"

definition boot :: "instr list \<Rightarrow> vm" where
  "boot is = bc_vm_init blank_vm (empty_compiler\<lparr>code := assemble is\<rparr>)"

lemma boot_bytecode [simp]: "bytecode (boot is) = assemble is"
  by (simp add: boot_def bc_vm_init_def)

lemma code_at_assemble:
  assumes "bytecode s = assemble is" "k < length is" "p = length (assemble (take k is))"
  shows "code_at s p (is ! k)"
proof -
  have "assemble is = assemble (take k is) @ encode (is ! k) @ assemble (drop (Suc k) is)"
    using arg_cong [OF id_take_nth_drop [OF assms(2)], of assemble] by (simp add: assemble_def)
  then show ?thesis using assms(1,3) by (simp add: code_at_def)
qed


end
