(* ===== verification/VmLoop.thy ===== *)
theory VmLoop
  imports VmInv
begin

text \<open>
  Integer \<open>FOR\<close> loops, as \<open>FOR_INIT\<close> and \<open>FOR_NEXT\<close> run them: how often the body runs, where the
  loop leaves its variable and the stack, and the limit for which it never ends.
\<close>

section \<open>FOR\<close>

lemma encode_for_length:
  "length (encode (I_FOR_INIT TI a b c d)) = 9" "length (encode (I_FOR_NEXT TI a b c d)) = 9"
  by (simp_all add: code_defs e16_def)

lemma sint_add_exact:
  fixes a b :: i64
  assumes "- (2 ^ 63) \<le> sint a + sint b" "sint a + sint b < 2 ^ 63"
  shows "sint (a + b) = sint a + sint b"
  using assms by (simp add: sint_word_ariths signed_take_bit_int_eq_self)

text \<open>The layout of an integer loop over three global slots: \<open>FOR_INIT\<close> at \<open>p\<close>, \<open>FOR_NEXT\<close> at \<open>q\<close>.\<close>

definition for_loop_at :: "vm \<Rightarrow> nat \<Rightarrow> nat \<Rightarrow> u16 \<Rightarrow> u16 \<Rightarrow> u16 \<Rightarrow> bool" where
  "for_loop_at s p q v l st \<longleftrightarrow> (\<exists>ex bk.
     code_at s p (I_FOR_INIT TI v l st ex) \<and> code_at s q (I_FOR_NEXT TI v l st bk) \<and>
     int p + 9 + sint ex = int q + 9 \<and> int q + 9 + sint bk = int p + 9 \<and>
     \<not> raw_local v \<and> \<not> raw_local l \<and> \<not> raw_local st \<and>
     raw_slot v < BC_MAX_SLOTS \<and> raw_slot l < BC_MAX_SLOTS \<and> raw_slot st < BC_MAX_SLOTS \<and>
     raw_slot v \<noteq> raw_slot l \<and> raw_slot v \<noteq> raw_slot st)"

definition within :: "int \<Rightarrow> int \<Rightarrow> int \<Rightarrow> bool" where
  "within x L S \<longleftrightarrow> (if S > 0 then x \<le> L else x \<ge> L)"

text \<open>How many times the body of \<open>FOR i = a TO L STEP S\<close> runs.\<close>

definition trips :: "int \<Rightarrow> int \<Rightarrow> int \<Rightarrow> int" where
  "trips a L S = (if within a L S then (L - a) div S + 1 else 0)"

definition glob :: "vm \<Rightarrow> u16 \<Rightarrow> int" where
  "glob s raw = sint (globals s (raw_slot raw))"

text \<open>What the loop needs of its body: it gets from the top to \<open>FOR_NEXT\<close> and leaves the loop's slots alone.\<close>

definition body_ok :: "libm \<Rightarrow> vm \<Rightarrow> nat \<Rightarrow> nat \<Rightarrow> u16 \<Rightarrow> u16 \<Rightarrow> u16 \<Rightarrow> bool" where
  "body_ok m s p q v l st \<longleftrightarrow> (\<forall>s'. pc s' = int p + 9 \<and> bytecode s' = bytecode s \<and> fsp s' = fsp s + 1 \<and>
       glob s' l = glob s l \<and> glob s' st = glob s st \<longrightarrow>
     (\<exists>n s''. steps m n s' = Some s'' \<and> pc s'' = int q \<and> bytecode s'' = bytecode s \<and> fsp s'' = fsp s + 1 \<and>
       glob s'' v = glob s' v \<and> glob s'' l = glob s l \<and> glob s'' st = glob s st))"

lemma trips_step:
  assumes "S \<noteq> 0" "within x L S"
  shows "within (x + S) L S \<Longrightarrow> (L - (x + S)) div S = (L - x) div S - 1 \<and> nat ((L - (x + S)) div S) < nat ((L - x) div S)"
    and "\<not> within (x + S) L S \<Longrightarrow> (L - x) div S = 0"
proof -
  have e: "(L - (x + S)) div S = (L - x) div S - 1"
    using div_add_self2 [of S "L - x - S"] assms(1) by (simp add: algebra_simps)
  show "(L - (x + S)) div S = (L - x) div S - 1 \<and> nat ((L - (x + S)) div S) < nat ((L - x) div S)" if w: "within (x + S) L S"
  proof -
    have "0 \<le> (L - (x + S)) div S"
    proof (cases "S > 0")
      case True
      then show ?thesis using w by (simp add: within_def pos_imp_zdiv_nonneg_iff)
    next
      case False
      then show ?thesis using w assms(1) by (simp add: within_def neg_imp_zdiv_nonneg_iff)
    qed
    then show ?thesis using e by linarith
  qed
  show "(L - x) div S = 0" if "\<not> within (x + S) L S"
  proof (cases "S > 0")
    case True
    then show ?thesis using that assms(2) by (simp add: within_def div_pos_pos_trivial)
  next
    case False
    then show ?thesis using that assms by (simp add: within_def div_neg_neg_trivial)
  qed
qed

lemma for_next_exec:
  assumes "for_loop_at s p q v l st" "bytecode s' = bytecode s" "pc s' = int q" "0 < fsp s'" "glob s' st \<noteq> 0"
    "x = sint (globals s' (raw_slot v) + globals s' (raw_slot st))"
  shows "\<exists>s''. step m s' = Next s'' \<and> bytecode s'' = bytecode s \<and>
     glob s'' v = x \<and> glob s'' l = glob s' l \<and> glob s'' st = glob s' st \<and>
     (if within x (glob s' l) (glob s' st) then pc s'' = int p + 9 \<and> fsp s'' = fsp s'
      else pc s'' = int q + 9 \<and> fsp s'' = fsp s' - 1)"
proof -
  obtain ex bk where f: "code_at s q (I_FOR_NEXT TI v l st bk)" "int q + 9 + sint bk = int p + 9"
    "\<not> raw_local v" "\<not> raw_local l" "\<not> raw_local st" "raw_slot v < BC_MAX_SLOTS" "raw_slot l < BC_MAX_SLOTS"
    "raw_slot st < BC_MAX_SLOTS" "raw_slot v \<noteq> raw_slot l" "raw_slot v \<noteq> raw_slot st"
    using assms(1) by (auto simp: for_loop_at_def)
  have c: "code_at s' q (I_FOR_NEXT TI v l st bk)" using f(1) assms(2) by (simp add: code_at_def)
  have e: "step m s' = after_op (op_for_next_i v l st bk (s'\<lparr>pc := int q + 9\<rparr>))"
    using step_at [OF c assms(3), of m] unfolding encode_for_length by (simp add: for_ok_def exec_def)
  let ?s2 = "s'\<lparr>pc := int q + 9, globals := (globals s')(raw_slot v := globals s' (raw_slot v) + globals s' (raw_slot st)),
      global_valid := (global_valid s')(raw_slot v := 1)\<rparr>"
  let ?past = "if glob s' st > 0 then x > glob s' l else x < glob s' l"
  have o: "op_for_next_i v l st bk (s'\<lparr>pc := int q + 9\<rparr>) = Ok (for_close ?past bk ?s2)"
    using f(3-10) assms(6) by (simp add: op_for_next_i_def for_cell_def get_cell_def set_cell_def for_valid_def set_valid_def glob_def)
  have "step m s' = Next (for_close ?past bk ?s2)" using e o by (simp add: after_op_def)
  moreover have "glob (for_close ?past bk ?s2) v = x"
    "glob (for_close ?past bk ?s2) l = glob s' l" "glob (for_close ?past bk ?s2) st = glob s' st"
    "bytecode (for_close ?past bk ?s2) = bytecode s"
    using f(9,10) assms(2,6) by (simp_all add: glob_def for_close_def rel_jump_def bc_vm_poll_interrupts_def Let_def)
  moreover have "if within x (glob s' l) (glob s' st)
      then pc (for_close ?past bk ?s2) = int p + 9 \<and> fsp (for_close ?past bk ?s2) = fsp s'
      else pc (for_close ?past bk ?s2) = int q + 9 \<and> fsp (for_close ?past bk ?s2) = fsp s' - 1"
    using f(2) assms(4) by (simp add: within_def for_close_def rel_jump_def bc_vm_poll_interrupts_def Let_def)
  ultimately show ?thesis by blast
qed

text \<open>From the top of the body with the variable within the limit, the loop runs to its exit.\<close>

lemma for_body_loop:
  assumes L: "for_loop_at s p q v l st" and B: "body_ok m s p q v l st" and f: "0 \<le> fsp s"
    and nz: "glob s st \<noteq> 0" and ov: "- (2 ^ 63) \<le> glob s l + glob s st" "glob s l + glob s st < 2 ^ 63"
  shows "pc s1 = int p + 9 \<Longrightarrow> bytecode s1 = bytecode s \<Longrightarrow> fsp s1 = fsp s + 1 \<Longrightarrow>
    glob s1 l = glob s l \<Longrightarrow> glob s1 st = glob s st \<Longrightarrow> within (glob s1 v) (glob s l) (glob s st) \<Longrightarrow>
    \<exists>n s2. steps m n s1 = Some s2 \<and> pc s2 = int q + 9 \<and> fsp s2 = fsp s \<and>
      glob s2 v = glob s1 v + ((glob s l - glob s1 v) div glob s st + 1) * glob s st"
proof (induction "nat ((glob s l - glob s1 v) div glob s st)" arbitrary: s1 rule: less_induct)
  case less
  let ?S = "glob s st" and ?L = "glob s l" and ?x = "glob s1 v"
  have w: "within ?x ?L ?S" by fact
  obtain n sa where a: "steps m n s1 = Some sa" "pc sa = int q" "bytecode sa = bytecode s" "fsp sa = fsp s + 1"
    "glob sa v = ?x" "glob sa l = ?L" "glob sa st = ?S"
    using B less.prems unfolding body_ok_def by metis
  have bound: "- (2 ^ 63) \<le> ?x" "?x < 2 ^ 63"
    using sint_greater_eq [of "globals s1 (raw_slot v)"] sint_less [of "globals s1 (raw_slot v)"]
    by (simp_all add: glob_def)
  have r: "- (2 ^ 63) \<le> glob sa v + glob sa st" "glob sa v + glob sa st < 2 ^ 63"
    using w bound ov nz unfolding a within_def by (auto split: if_splits)
  have fa: "0 < fsp sa" and nz': "glob sa st \<noteq> 0" using f nz a by simp_all
  have x: "?x + ?S = sint (globals sa (raw_slot v) + globals sa (raw_slot st))"
    using sint_add_exact r a(5,7) by (simp add: glob_def)
  obtain sb where b: "step m sa = Next sb" "bytecode sb = bytecode s" "glob sb v = ?x + ?S" "glob sb l = ?L"
    "glob sb st = ?S"
    "if within (?x + ?S) ?L ?S then pc sb = int p + 9 \<and> fsp sb = fsp s + 1 else pc sb = int q + 9 \<and> fsp sb = fsp s"
    using for_next_exec [OF L a(3) a(2) fa nz' x, of m] unfolding a add_diff_cancel_right' by blast
  have to_b: "steps m (n + 1) s1 = Some sb" by (rule steps_add [OF a(1) steps_1 [OF b(1)]])
  show ?case
  proof (cases "within (?x + ?S) ?L ?S")
    case False
    have "(?L - ?x) div ?S = 0" by (rule trips_step(2) [OF nz w False])
    then show ?thesis using to_b b False by (intro exI [of _ "n + 1"] exI [of _ sb]) simp
  next
    case True
    note t = trips_step(1) [OF nz w True]
    have wb: "within (glob sb v) ?L ?S" using True b(3) by simp
    have "\<exists>n s2. steps m n sb = Some s2 \<and> pc s2 = int q + 9 \<and> fsp s2 = fsp s \<and>
      glob s2 v = glob sb v + ((?L - glob sb v) div ?S + 1) * ?S"
      by (rule less.hyps) (use t b True wb in auto)
    then obtain n' s2 where s2: "steps m n' sb = Some s2" "pc s2 = int q + 9" "fsp s2 = fsp s"
      "glob s2 v = (?x + ?S) + ((?L - (?x + ?S)) div ?S + 1) * ?S" unfolding b(3) by blast
    have "glob s2 v = ?x + ((?L - ?x) div ?S + 1) * ?S"
      using t s2(4) by (simp add: algebra_simps)
    then show ?thesis using steps_add [OF to_b s2(1)] s2(2,3) by blast
  qed
qed

lemma for_init_exec:
  assumes "for_loop_at s p q v l st" "pc s = int p" "0 \<le> fsp s" "fsp s < int VM_MAX_FOR" "glob s st \<noteq> 0"
  shows "\<exists>s'. step m s = Next s' \<and> bytecode s' = bytecode s \<and> glob s' v = glob s v \<and> glob s' l = glob s l \<and>
     glob s' st = glob s st \<and>
     (if within (glob s v) (glob s l) (glob s st) then pc s' = int p + 9 \<and> fsp s' = fsp s + 1
      else pc s' = int q + 9 \<and> fsp s' = fsp s)"
proof -
  obtain ex where f: "code_at s p (I_FOR_INIT TI v l st ex)" "int p + 9 + sint ex = int q + 9"
    "\<not> raw_local v" "\<not> raw_local l" "\<not> raw_local st" "raw_slot v < BC_MAX_SLOTS" "raw_slot l < BC_MAX_SLOTS"
    "raw_slot st < BC_MAX_SLOTS"
    using assms(1) by (auto simp: for_loop_at_def)
  let ?s0 = "s\<lparr>pc := int p + 9\<rparr>"
  have e: "step m s = after_op (op_for_init_i v l st ex ?s0)"
    using step_at [OF f(1) assms(2), of m] unfolding encode_for_length by (simp add: for_ok_def exec_def)
  obtain s1 where s1: "for_push v l st T_INT ?s0 = Ok s1" "fsp s1 = fsp s + 1" "globals s1 = globals s"
    "pc s1 = int p + 9" "bytecode s1 = bytecode s"
    using assms(3,4) by (simp add: for_push_def)
  let ?past = "sint (globals s (raw_slot st)) > 0 \<and> sint (globals s (raw_slot v)) > sint (globals s (raw_slot l)) \<or>
      sint (globals s (raw_slot st)) < 0 \<and> sint (globals s (raw_slot v)) < sint (globals s (raw_slot l))"
  have nz: "globals s (raw_slot st) \<noteq> 0" using assms(5) by (auto simp: glob_def)
  have o: "op_for_init_i v l st ex ?s0 =
      Ok (if ?past then s1\<lparr>fsp := fsp s1 - 1, pc := pc s1 + sint ex\<rparr> else s1)"
    using f(3-8) s1 nz by (simp add: op_for_init_i_def for_cell_def get_cell_def)
  have "?past = (\<not> within (glob s v) (glob s l) (glob s st))"
    using assms(5) by (auto simp: within_def glob_def)
  then show ?thesis using e o s1 f(2) by (auto simp: after_op_def glob_def)
qed


text \<open>
  C25: the excluded case. A loop that counts up to the largest integer has no exit: the variable wraps
  to the smallest integer, which is again within the limit, so the top of the body is reached again
  and again.
\<close>

theorem for_to_max_never_ends:
  assumes L: "for_loop_at s p q v l st" and B: "body_ok m s p q v l st" and pc: "pc s = int p"
    and f: "0 \<le> fsp s" "fsp s < int VM_MAX_FOR" and st: "glob s st > 0" and l: "glob s l = 2 ^ 63 - 1"
  shows "\<exists>n\<ge>N. \<exists>s'. steps m n s = Some s' \<and> pc s' = int p + 9 \<and> fsp s' = fsp s + 1"
proof -
  have wx: "within (sint x) (glob s l) (glob s st)" for x :: i64
    using st l sint_less [of x] by (simp add: within_def)
  have w: "within (glob s' v) (glob s l) (glob s st)" for s' using wx by (simp add: glob_def)
  have nz: "glob s st \<noteq> 0" using st by simp
  have "\<exists>n\<ge>N. \<exists>s'. steps m n s = Some s' \<and> pc s' = int p + 9 \<and> fsp s' = fsp s + 1 \<and> bytecode s' = bytecode s \<and>
      glob s' l = glob s l \<and> glob s' st = glob s st"
  proof (induction N)
    case 0
    obtain s1 where "step m s = Next s1" "bytecode s1 = bytecode s" "glob s1 l = glob s l" "glob s1 st = glob s st"
      "pc s1 = int p + 9" "fsp s1 = fsp s + 1"
      using for_init_exec [OF L pc f nz, of m] w [of s] by auto
    then show ?case using steps_1 by blast
  next
    case (Suc N)
    then obtain n s1 where s1: "n \<ge> N" "steps m n s = Some s1" "pc s1 = int p + 9" "fsp s1 = fsp s + 1"
      "bytecode s1 = bytecode s" "glob s1 l = glob s l" "glob s1 st = glob s st" by blast
    obtain n' sa where a: "steps m n' s1 = Some sa" "pc sa = int q" "bytecode sa = bytecode s" "fsp sa = fsp s + 1"
      "glob sa l = glob s l" "glob sa st = glob s st"
      using B s1 unfolding body_ok_def by metis
    have fa: "0 < fsp sa" and nz': "glob sa st \<noteq> 0" using f nz a by simp_all
    obtain sb where b: "step m sa = Next sb" "bytecode sb = bytecode s" "glob sb l = glob s l" "glob sb st = glob s st"
      "pc sb = int p + 9" "fsp sb = fsp s + 1"
      using for_next_exec [OF L a(3) a(2) fa nz' refl, of m] wx unfolding a by auto
    have "steps m (n + (n' + 1)) s = Some sb"
      by (rule steps_add [OF s1(2) steps_add [OF a(1) steps_1 [OF b(1)]]])
    then show ?case using b s1(1) by (intro exI [of _ "n + (n' + 1)"]) auto
  qed
  then show ?thesis by blast
qed

text \<open>\<open>FOR a = ? TO ? STEP ?: NEXT\<close> over the slots 0, 1 and 2, with an empty body.\<close>

definition count_loop :: "i64 \<Rightarrow> i64 \<Rightarrow> i64 \<Rightarrow> vm" where
  "count_loop a lim inc = (boot [I_FOR_INIT TI 0 1 2 9, I_FOR_NEXT TI 0 1 2 (- 9)])
     \<lparr>globals := (\<lambda>_. 0)(0 := a, 1 := lim, 2 := inc)\<rparr>"

lemma count_loop_fields [simp]:
  "pc (count_loop a lim inc) = 0" "fsp (count_loop a lim inc) = 0" "glob (count_loop a lim inc) 0 = sint a"
  "glob (count_loop a lim inc) 1 = sint lim" "glob (count_loop a lim inc) 2 = sint inc"
  by (simp_all add: count_loop_def boot_def bc_vm_init_def glob_def raw_slot_def)

lemma count_loop_at: "for_loop_at (count_loop a lim inc) 0 9 0 1 2"
proof -
  let ?is = "[I_FOR_INIT TI 0 1 2 9, I_FOR_NEXT TI 0 1 2 (- 9)]"
  have b: "bytecode (count_loop a lim inc) = assemble ?is" by (simp add: count_loop_def)
  have "code_at (count_loop a lim inc) 0 (I_FOR_INIT TI 0 1 2 9)"
    using code_at_assemble [OF b, of 0] by (simp add: assemble_def)
  moreover have "code_at (count_loop a lim inc) 9 (I_FOR_NEXT TI 0 1 2 (- 9))"
    using code_at_assemble [OF b, of 1] by (simp add: assemble_def e16_def)
  ultimately show ?thesis
    unfolding for_loop_at_def by (intro exI [of _ 9] exI [of _ "- 9"]) (simp add: raw_local_def raw_slot_def limits)
qed

lemma count_loop_body: "body_ok m (count_loop a lim inc) 0 9 0 1 2"
  unfolding body_ok_def by (intro allI impI exI [of _ 0]) simp


theorem for_to_max_never_ends_witness:
  "\<exists>n\<ge>1000000. \<exists>s'. steps no_libm n (count_loop 1 0x7FFFFFFFFFFFFFFF 1) = Some s' \<and> pc s' = 9 \<and> fsp s' = 1"
  using for_to_max_never_ends [OF count_loop_at count_loop_body, of 1 "0x7FFFFFFFFFFFFFFF" 1 1000000 no_libm]
  by (simp add: limits)

end
