(* ===== verification/VmFrames.thy ===== *)
theory VmFrames
  imports VmLoop
begin

text \<open>
  Calls and returns: what is saved is restored, by GOSUB, SUB and FUNCTION alike, and a by-reference
  parameter is its caller's variable.
\<close>

section \<open>Saved frames stay put\<close>

definition is_ctl :: "instr \<Rightarrow> bool" where
  "is_ctl i = (case i of I_JMP _ \<Rightarrow> True | I_JMP_ABS _ \<Rightarrow> True | I_JZ _ \<Rightarrow> True | I_JNZ _ \<Rightarrow> True | I_JCMP_I _ _ \<Rightarrow> True
     | I_JCMP_F _ _ \<Rightarrow> True | I_GOSUB _ \<Rightarrow> True | I_RETURN \<Rightarrow> True | I_FOR_INIT _ _ _ _ _ \<Rightarrow> True
     | I_FOR_NEXT _ _ _ _ _ \<Rightarrow> True | I_CALL_SUB _ _ \<Rightarrow> True | I_CALL_FUN _ _ \<Rightarrow> True | I_RET_SUB \<Rightarrow> True
     | I_RET_FUN \<Rightarrow> True | I_ENTER_FRAME _ \<Rightarrow> True | I_LEAVE_FRAME \<Rightarrow> True | _ \<Rightarrow> False)"

lemma exec_quiet: "\<not> is_ctl i \<Longrightarrow> exec m i s = Some r \<Longrightarrow> kv s r"
proof (cases i)
  case (I_READ t)
  then show "exec m i s = Some r \<Longrightarrow> kv s r" by (cases t) (auto simp: exec_def intro: quiet quiet_read_s)
next
  case (I_STR g)
  then show "exec m i s = Some r \<Longrightarrow> kv s r" using exec_str_quiet [of g s] by (auto simp: exec_def)
next
  case (I_LOAD sc t n)
  then show "exec m i s = Some r \<Longrightarrow> kv s r" by (cases sc) (auto simp: exec_def intro: quiet)
next
  case (I_STORE sc t n)
  then show "exec m i s = Some r \<Longrightarrow> kv s r" by (cases sc) (auto simp: exec_def intro: quiet)
next
  case (I_LOAD_ARR sc t n d)
  then show "exec m i s = Some r \<Longrightarrow> kv s r" by (cases sc) (auto simp: exec_def intro: quiet)
next
  case (I_STORE_ARR sc t n d)
  then show "exec m i s = Some r \<Longrightarrow> kv s r" by (cases sc) (auto simp: exec_def intro: quiet)
next
  case (I_DIM_ARR sc t n d)
  then show "exec m i s = Some r \<Longrightarrow> kv s r" by (cases sc) (auto simp: exec_def intro: quiet)
next
  case (I_CMP t r')
  then show "exec m i s = Some r \<Longrightarrow> kv s r" by (cases t) (auto simp: exec_def op_cmp_def intro: quiet)
qed (simp add: is_ctl_def exec_def; (auto intro: quiet)?)+

definition frames_kept :: "vm \<Rightarrow> vm \<Rightarrow> bool" where
  "frames_kept s s' \<longleftrightarrow> (\<forall>i. i < csp s \<longrightarrow> call_stack s' i = call_stack s i) \<and>
     (\<forall>i. i < gsp s \<longrightarrow> gosub_stack s' i = gosub_stack s i)"

definition same_stacks :: "vm \<Rightarrow> vm \<Rightarrow> bool" where
  "same_stacks s s' \<longleftrightarrow> call_stack s' = call_stack s \<and> gosub_stack s' = gosub_stack s"

lemma same_stacks_trans: "same_stacks a b \<Longrightarrow> same_stacks b c \<Longrightarrow> same_stacks a c"
  by (simp add: same_stacks_def)

lemma frames_keptI: "same_stacks s s' \<Longrightarrow> frames_kept s s'"
  by (simp add: frames_kept_def same_stacks_def)

lemma keeps_stacks: "keeps s s' \<Longrightarrow> same_stacks s s'"
  by (simp add: keeps_def same_ctl_def same_stacks_def)

lemma kp_frame: "kp s r \<Longrightarrow> r = Ok (v, s') \<Longrightarrow> same_stacks s s'"
  by (simp add: kp_def keeps_stacks)

lemma kv_frame: "kv s r \<Longrightarrow> r = Ok s' \<Longrightarrow> same_stacks s s'"
  by (simp add: kv_def keeps_stacks)

lemma same_stacks_upd [simp]:
  "same_stacks s s" "same_stacks s (rel_jump off s') = same_stacks s s'" "same_stacks s (s'\<lparr>pc := x\<rparr>) = same_stacks s s'"
  "same_stacks s (s'\<lparr>fsp := y\<rparr>) = same_stacks s s'" "same_stacks s (pop_frame s') = same_stacks s s'"
  "same_stacks s (for_close p off s') = same_stacks s s'"
  by (simp_all add: same_stacks_def rel_jump_def bc_vm_poll_interrupts_def pop_frame_def for_close_def Let_def)

lemma call_frames:
  assumes "bind_args sf cf base n (push_frame cf s) = Ok s1" "call_stack s' = call_stack s1" "gosub_stack s' = gosub_stack s1"
  shows "frames_kept s s'"
  using bind_args_took [OF assms(1)] assms(2,3) by (simp add: frames_kept_def same_ctl_def push_frame_def)

lemma for_frames:
  "op_for_init_i a b c d s = Ok s' \<Longrightarrow> same_stacks s s'" "op_for_init_f a b c d s = Ok s' \<Longrightarrow> same_stacks s s'"
  "op_for_next_i a b c d s = Ok s' \<Longrightarrow> same_stacks s s'" "op_for_next_f a b c d s = Ok s' \<Longrightarrow> same_stacks s s'"
proof -
  have p: "for_push a b c t s = Ok s1 \<Longrightarrow> same_stacks s s1" for t s1
    by (auto simp: for_push_def same_stacks_def split: if_splits)
  have v: "kv s (for_valid r s)" for r s by (simp add: for_valid_def quiet)
  note f = kv_frame [OF cell_quiet(1)] kv_frame [OF v]
  show "op_for_init_i a b c d s = Ok s' \<Longrightarrow> same_stacks s s'" "op_for_init_f a b c d s = Ok s' \<Longrightarrow> same_stacks s s'"
    by (auto simp: op_for_init_i_def op_for_init_f_def dest!: p split: if_splits)
  show "op_for_next_i a b c d s = Ok s' \<Longrightarrow> same_stacks s s'" "op_for_next_f a b c d s = Ok s' \<Longrightarrow> same_stacks s s'"
    by (auto simp: op_for_next_i_def op_for_next_f_def dest!: f intro: same_stacks_trans split: if_splits)
qed

lemma exec_frames:
  assumes "exec m i s = Some (Ok s')"
  shows "frames_kept s s'"
proof (cases "is_ctl i")
  case False
  then show ?thesis using exec_quiet [OF False assms] by (auto intro!: frames_keptI keeps_stacks)
next
  case True
  note pops = kp_frame [OF POP_quiet] kp_frame [OF pops_quiet(2)]
  show ?thesis
  proof (cases i)
    case (I_CALL_SUB n k)
    then show ?thesis using assms by (auto simp: exec_def op_call_sub_def Let_def split: if_splits intro: call_frames)
  next
    case (I_CALL_FUN n k)
    then show ?thesis using assms by (auto simp: exec_def op_call_fun_def Let_def split: if_splits intro: call_frames)
  next
    case (I_JCMP_I r off)
    then show ?thesis using assms
      by (cases "rel_of r") (auto simp: exec_def op_jcmp_i_def intro!: frames_keptI intro: same_stacks_trans dest!: pops split: if_splits)
  next
    case (I_JCMP_F r off)
    then show ?thesis using assms
      by (cases "rel_of r") (auto simp: exec_def op_jcmp_f_def intro!: frames_keptI intro: same_stacks_trans dest!: pops split: if_splits)
  next
    case I_LEAVE_FRAME
    then show ?thesis using assms kv_frame [OF leave_slots_quiet]
      by (fastforce simp: exec_def op_leave_frame_def same_stacks_def intro!: frames_keptI split: if_splits)
  next
    case (I_FOR_INIT t a b c d)
    then show ?thesis using assms by (auto simp: exec_def intro!: frames_keptI dest: for_frames split: if_splits)
  next
    case (I_FOR_NEXT t a b c d)
    then show ?thesis using assms by (auto simp: exec_def intro!: frames_keptI dest: for_frames split: if_splits)
  next
    case (I_GOSUB a)
    then show ?thesis using assms by (auto simp: exec_def op_gosub_def frames_kept_def split: if_splits)
  next
    case (I_ENTER_FRAME n)
    then show ?thesis using assms by (auto simp: exec_def op_enter_frame_def frames_kept_def Let_def split: if_splits)
  next
    case I_RETURN
    then show ?thesis using assms by (auto simp: exec_def op_return_def frames_kept_def split: if_splits)
  next
    case I_RET_FUN
    then show ?thesis using assms by (auto simp: exec_def op_ret_fun_def frames_kept_def pop_frame_def Let_def split: if_splits)
  qed (use True assms in \<open>auto simp: is_ctl_def exec_def op_jmp_def op_jmp_abs_def op_jz_def op_jnz_def
      op_ret_sub_def intro!: frames_keptI intro: same_stacks_trans dest!: pops split: if_splits\<close>)
qed

lemma step_frames: "step m s = Next s' \<Longrightarrow> frames_kept s s'"
  by (auto simp: step_def after_op_def op_invalid_def bc_vm_error_def Let_def frames_kept_def
      dest!: exec_frames split: if_splits decoded.splits option.splits outcome.splits)

section \<open>A call and its return\<close>

text \<open>Runs that stay inside a call made at depth \<open>c\<close>.\<close>

inductive within_call :: "libm \<Rightarrow> int \<Rightarrow> vm \<Rightarrow> vm \<Rightarrow> bool" for m c s where
  here: "within_call m c s s"
| more: "within_call m c s s1 \<Longrightarrow> c < csp s1 \<Longrightarrow> step m s1 = Next s2 \<Longrightarrow> c < csp s2 \<Longrightarrow> within_call m c s s2"

lemma within_call_frame: "within_call m c s s' \<Longrightarrow> c < csp s \<Longrightarrow> c < csp s' \<and> call_stack s' c = call_stack s c"
  by (induction rule: within_call.induct) (auto dest!: step_frames simp: frames_kept_def)

lemma call_sub_frame:
  assumes "op_call_sub idx n s = Ok s1"
  shows "csp s1 = csp s + 1 \<and> call_stack s1 (csp s) = call_frame s idx (subfuns (compiler s) ! unat idx) (unat n)"
  using assms bind_args_took
  by (fastforce simp: op_call_sub_def Let_def same_ctl_def push_frame_def split: if_splits)

lemma call_fun_frame:
  assumes "op_call_fun idx n s = Ok s1"
  shows "csp s1 = csp s + 1 \<and> call_stack s1 (csp s) = call_frame s idx (subfuns (compiler s) ! unat idx) (unat n)"
  using assms bind_args_took
  by (fastforce simp: op_call_fun_def Let_def same_ctl_def push_frame_def split: if_splits)



inductive within_gosub :: "libm \<Rightarrow> int \<Rightarrow> vm \<Rightarrow> vm \<Rightarrow> bool" for m g s where
  gosub_here: "within_gosub m g s s"
| gosub_more: "within_gosub m g s s1 \<Longrightarrow> g < gsp s1 \<Longrightarrow> step m s1 = Next s2 \<Longrightarrow> g < gsp s2 \<Longrightarrow> within_gosub m g s s2"

lemma within_gosub_stack: "within_gosub m g s s' \<Longrightarrow> g < gsp s \<Longrightarrow> g < gsp s' \<and> gosub_stack s' g = gosub_stack s g"
  by (induction rule: within_gosub.induct) (auto dest!: step_frames simp: frames_kept_def)

text \<open>
  C28: \<open>RETURN\<close> resumes behind the \<open>GOSUB\<close> it belongs to, whatever the routine did in between, nested
  GOSUBs included.
\<close>

theorem gosub_returns:
  assumes "op_gosub a s = Ok s1" "within_gosub m (gsp s) s1 s2" "gsp s2 = gsp s + 1" "op_return s2 = Ok s3"
  shows "pc s3 = pc s \<and> gsp s3 = gsp s \<and> sp s3 = sp s2"
proof -
  have "gsp s1 = gsp s + 1" "gosub_stack s1 (gsp s) = pc s" using assms(1) by (auto simp: op_gosub_def split: if_splits)
  then have "gosub_stack s2 (gsp s) = pc s" using within_gosub_stack [OF assms(2)] by simp
  then show ?thesis using assms(3,4) by (auto simp: op_return_def split: if_splits)
qed

text \<open>A machine with one routine, whose code is at the start of the program.\<close>

definition one_sub :: BCSubFun where
  "one_sub = \<lparr>sf_name = [0x66], sf_entry_addr = 0, sf_nparams = 0, sf_param_types = [], sf_param_is_array = [],
     sf_param_is_byval = [], sf_return_type = T_INT, sf_bridged = 0, sf_nlocals = 0\<rparr>"

definition with_sub :: "instr list \<Rightarrow> vm" where
  "with_sub is = (boot is)\<lparr>compiler := empty_compiler\<lparr>code := assemble is, subfuns := [one_sub]\<rparr>, pc := 7\<rparr>"

definition called :: "vm \<Rightarrow> vm" where
  "called s = (push_frame (call_frame s 0 one_sub 0) s)\<lparr>locals_top := 0, pc := 0\<rparr>"

lemma with_sub_fields:
  "compiler (with_sub is) = empty_compiler\<lparr>code := assemble is, subfuns := [one_sub]\<rparr>" "csp (with_sub is) = 0"
  "pc (with_sub is) = 7" "sp (with_sub is) = -1" "locals_top (with_sub is) = 0"
  by (simp_all add: with_sub_def boot_def bc_vm_init_def)

lemma one_sub_entry: "sf_entry_addr one_sub = 0"
  by (simp add: one_sub_def)

lemma with_sub_call: "op_call_sub 0 0 (with_sub is) = Ok (called (with_sub is))"
  by (simp add: op_call_sub_def with_sub_fields called_def one_sub_entry limits)

definition called_fun :: "vm \<Rightarrow> vm" where
  "called_fun s = (let s1 = push_frame (call_frame s 0 one_sub 0) s in
     s1\<lparr>local_ref_val := (local_ref_val s1)(0 := None), locals := (locals s1)(0 := 0),
        local_types := (local_types s1)(0 := T_INT), local_array_is_alias := (local_array_is_alias s1)(0 := 0),
        local_arrays := (local_arrays s1)(0 := no_array), locals_top := 1, pc := 0\<rparr>)"

lemma with_sub_call_fun: "op_call_fun 0 0 (with_sub is) = Ok (called_fun (with_sub is))"
  by (simp add: op_call_fun_def with_sub_fields called_fun_def one_sub_def limits Let_def)

lemma push_one_step:
  assumes "bytecode s = assemble [I_PUSH_ONE]" "pc s = int 0" "sp s = -1"
  shows "\<exists>s2. step no_libm s = Next s2 \<and> csp s2 = csp s \<and> TOS s2 = Ok 1"
proof -
  have c: "code_at s 0 I_PUSH_ONE" using code_at_assemble [OF assms(1), of 0] by (simp add: assemble_def)
  show ?thesis
    using step_at [OF c assms(2), of no_libm] assms(3)
    by (auto simp: for_ok_def exec_def PUSH_I_def push_def after_op_def TOS_def limits)
qed



theorem gosub_returns_witness:
  "\<exists>s1 s2 s3. op_gosub 0 ((boot [I_PUSH_ONE])\<lparr>pc := 7\<rparr>) = Ok s1 \<and> step no_libm s1 = Next s2 \<and> op_return s2 = Ok s3 \<and> pc s3 = 7"
proof -
  let ?s = "(boot [I_PUSH_ONE])\<lparr>pc := 7\<rparr>"
  have f: "gsp ?s = 0" "sp ?s = -1" by (simp_all add: boot_def bc_vm_init_def)
  define s1 where "s1 = ?s\<lparr>gosub_stack := (gosub_stack ?s)(0 := 7), gsp := 1, pc := 0\<rparr>"
  have g: "op_gosub 0 ?s = Ok s1" using f by (simp add: op_gosub_def s1_def limits)
  have s1: "bytecode s1 = assemble [I_PUSH_ONE]" "pc s1 = int 0" "sp s1 = -1" "gsp s1 = 1"
    using f by (simp_all add: s1_def)
  have c: "code_at s1 0 I_PUSH_ONE" using code_at_assemble [OF s1(1), of 0] by (simp add: assemble_def)
  obtain s2 where s2: "step no_libm s1 = Next s2" "gsp s2 = 1"
    using step_at [OF c s1(2), of no_libm] s1(3,4)
    by (auto simp: for_ok_def exec_def PUSH_I_def push_def after_op_def limits)
  have w: "within_gosub no_libm (gsp ?s) s1 s2"
    by (rule within_gosub.gosub_more [OF within_gosub.gosub_here _ s2(1)]) (use f s1 s2 in simp_all)
  obtain s3 where r: "op_return s2 = Ok s3" using s2 by (auto simp: op_return_def limits)
  show ?thesis using gosub_returns [OF g w _ r] f s2 g r by auto
qed
section \<open>Parameters bound by reference\<close>

lemma packed_slot: "unat (push_bit 16 (ucast (ty :: u8)) OR ucast (n :: u16) :: u64) mod 2 ^ 16 = unat n"
proof -
  have "take_bit 16 (push_bit 16 (ucast ty) OR ucast n :: u64) = ucast n"
    by (rule bit_word_eqI) (auto simp: bit_simps dest: bit_imp_le_length)
  then have "take_bit 16 (unat (push_bit 16 (ucast ty) OR ucast n :: u64)) = unat (ucast n :: u64)"
    by (metis unsigned_take_bit_eq)
  moreover have "unat (ucast n :: u64) = unat n" 
  proof -
    have "unat n < 2 ^ 16" using unsigned_less [of n] by simp
    then show ?thesis by (simp add: unsigned_ucast_eq take_bit_eq_mod)
  qed
  ultimately show ?thesis by (simp add: take_bit_eq_mod)
qed

text \<open>The slot of a parameter denotes the same storage as the caller's variable did.\<close>

lemma ref_target_local:
  assumes "ref_target s cf slot = Ok (c, t)" "TOS s = Ok v" "TOS_type s = Ok BC_STK_SREF_L"
  shows "bc_vm_local_cell s (cf_frame_base cf + int (unat v mod 2 ^ 16)) = Ok (c, t)"
  using assms by (auto simp: ref_target_def bc_vm_local_cell_def Let_def split: if_splits option.splits)

lemma ref_target_global:
  assumes "ref_target s cf slot = Ok (c, t)" "TOS s = Ok v" "TOS_type s = Ok BC_STK_SREF_G"
  shows "c = CGlobal (unat v mod 2 ^ 16) \<and> t = TGlobal (unat v mod 2 ^ 16)"
  using assms by (auto simp: ref_target_def Let_def opcodes split: if_splits)

lemma bound_cell:
  assumes "bc_vm_bind_scalar_ref s cf slot pt = Ok s'" "0 \<le> slot" "slot < int VM_MAX_LOCALS"
  shows "\<exists>c t. ref_target s cf slot = Ok (c, t) \<and> bc_vm_local_cell s' slot = Ok (c, t)"
  using assms by (auto simp: bc_vm_bind_scalar_ref_def bc_vm_local_cell_def)

text \<open>A call with one argument, handed over by reference.\<close>

lemma call_one_ref:
  assumes "op_pushref sc n ty s = Ok s1" "op_call_sub idx 1 s1 = Ok s2"
  obtains sb where "bc_vm_bind_scalar_ref (push_frame (call_frame s1 idx (subfuns (compiler s) ! unat idx) 1) s1)
      (call_frame s1 idx (subfuns (compiler s) ! unat idx) 1) (locals_top s)
      (arg_param_type (subfuns (compiler s) ! unat idx) 0 (case sc of Global \<Rightarrow> BC_STK_SREF_G | Local \<Rightarrow> BC_STK_SREF_L)) = Ok sb"
    "0 \<le> locals_top s" "locals_top s < int VM_MAX_LOCALS"
    "s2 = sb\<lparr>locals_top := locals_top s + 1, pc := uint (sf_entry_addr (subfuns (compiler s) ! unat idx))\<rparr>"
proof -
  let ?sf = "subfuns (compiler s) ! unat idx" and ?st = "case sc of Global \<Rightarrow> BC_STK_SREF_G | Local \<Rightarrow> BC_STK_SREF_L"
  have p: "compiler s1 = compiler s" "locals_top s1 = locals_top s" "0 \<le> sp s1" "sp s1 < VM_STACK_SIZE" "stack_types s1 (sp s1) = ?st"
    using assms(1) by (auto simp: op_pushref_def bc_push_array_ref_def split: if_splits)
  have ty: "TOS_type (push_frame cf s1) = Ok ?st" for cf using p by (simp add: TOS_type_def push_frame_def)
  obtain sb where b: "bind_arg ?sf (call_frame s1 idx ?sf 1) (locals_top s) 0 (push_frame (call_frame s1 idx ?sf 1) s1) = Ok sb"
    "s2 = sb\<lparr>locals_top := locals_top s + 1, pc := uint (sf_entry_addr ?sf)\<rparr>"
    using assms(2) p by (auto simp: op_call_sub_def Let_def split: if_splits)
  show thesis
    by (rule that [OF _ _ _ b(2)]) (use b(1) ty in \<open>auto simp: bind_arg_def Let_def split: if_splits scope.splits\<close>)
qed


lemma with_sub_pushref:
  "op_pushref Global 3 T_INT (with_sub []) = Ok ((with_sub [])\<lparr>sp := 0,
     stack := (stack (with_sub []))(0 := push_bit 16 (ucast T_INT) OR 3),
     stack_types := (stack_types (with_sub []))(0 := BC_STK_SREF_G)\<rparr>)"
  by (simp add: op_pushref_def bc_push_array_ref_def with_sub_fields limits)


text \<open>
  C30: \<open>NEXT\<close> on a by-reference parameter steps the parameter's own, unused slot: the cell the rest of
  the program reads and writes under that name keeps its value, so the body sees the same counter in
  every round.
\<close>

theorem for_next_misses_reference:
  assumes "raw_local v" "local_ref_val s (frame_base s + int (raw_slot v)) = Some (CGlobal g)"
    "op_for_next_i v l st off s = Ok s'"
  shows "globals s' = globals s \<and> local_ref_val s' (frame_base s' + int (raw_slot v)) = Some (CGlobal g) \<and>
    (\<exists>step. get_cell s (for_cell s st) = Ok step \<and>
      locals s' (frame_base s + int (raw_slot v)) = locals s (frame_base s + int (raw_slot v)) + step)"
proof -
  have c: "globals (for_close p off s1) = globals s1" "local_ref_val (for_close p off s1) = local_ref_val s1"
    "frame_base (for_close p off s1) = frame_base s1" "locals (for_close p off s1) = locals s1" for p s1
    by (simp_all add: for_close_def rel_jump_def bc_vm_poll_interrupts_def Let_def)
  obtain step v0 s1 p where s1: "get_cell s (for_cell s st) = Ok step" "get_cell s (for_cell s v) = Ok v0"
    "set_cell s (for_cell s v) (v0 + step) = Ok s1" "s' = for_close p off s1"
    using assms(1,3) by (auto simp: op_for_next_i_def for_valid_def)
  let ?i = "frame_base s + int (raw_slot v)"
  have "s1 = s\<lparr>locals := (locals s)(?i := v0 + step)\<rparr> \<and> v0 = locals s ?i"
    using s1(2,3) assms(1) by (auto simp: for_cell_def set_cell_def get_cell_def split: if_splits)
  then show ?thesis using s1(1,4) assms(2) c by auto
qed

text \<open>A machine whose local 0 is bound to global 5, in a loop over it.\<close>

definition ref_loop :: vm where
  "ref_loop = (boot [])\<lparr>local_ref_val := (\<lambda>_. None)(0 := Some (CGlobal 5)), local_ref_typ := (\<lambda>_. None)(0 := Some (TGlobal 5)),
     globals := (\<lambda>_. 0)(5 := 42), locals := (\<lambda>_. 0)(1 := 10, 2 := 1), locals_top := 3\<rparr>"

lemma ref_loop_next: "\<exists>s'. op_for_next_i 0x8000 0x8001 0x8002 0 ref_loop = Ok s'"
  by (simp add: op_for_next_i_def ref_loop_def boot_def bc_vm_init_def for_cell_def get_cell_def set_cell_def for_valid_def
      raw_local_def raw_slot_def limits)

theorem for_next_misses_reference_witness:
  "\<exists>s'. op_for_next_i 0x8000 0x8001 0x8002 0 ref_loop = Ok s' \<and> globals s' 5 = 42 \<and> locals s' 0 = 1"
proof -
  obtain s' where s': "op_for_next_i 0x8000 0x8001 0x8002 0 ref_loop = Ok s'" using ref_loop_next by blast
  have r: "raw_local 0x8000" "raw_slot 0x8000 = 0" "raw_local 0x8002" "raw_slot 0x8002 = 2" by (simp_all add: raw_local_def raw_slot_def)
  have f: "frame_base ref_loop = 0" "local_ref_val ref_loop 0 = Some (CGlobal 5)" "globals ref_loop 5 = 42"
    "locals ref_loop 0 = 0" "get_cell ref_loop (for_cell ref_loop 0x8002) = Ok 1"
    by (simp_all add: ref_loop_def boot_def bc_vm_init_def get_cell_def for_cell_def r limits)
  show ?thesis using for_next_misses_reference [OF r(1) _ s', of 5] s' f r by auto
qed

section \<open>ON ERROR SKIP\<close>

text \<open>\<open>x% = 5 \ 0\<close>.\<close>

definition div_prog :: "instr list" where
  "div_prog = [I_PUSH_INT 5, I_PUSH_ZERO, I_BIN_I IDIV, I_STORE Global TI 0, I_END]"

lemma length_operands [simp]: "length (e64 x) = 8" "length (e32 y) = 4" "length (e16 z) = 2"
  by (simp_all add: e64_def e32_def e16_def)

lemma div_prog_at:
  assumes "bytecode s = assemble div_prog"
  shows "code_at s 0 (I_PUSH_INT 5)" "code_at s 9 I_PUSH_ZERO" "code_at s 10 (I_BIN_I IDIV)" "code_at s 11 (I_STORE Global TI 0)"
  using code_at_assemble [OF assms, of 0] code_at_assemble [OF assms, of 1] code_at_assemble [OF assms, of 2]
    code_at_assemble [OF assms, of 3]
  by (simp_all add: div_prog_def assemble_def)

lemma div_prog_end:
  assumes "bytecode s = assemble div_prog" "pc s = 14"
  shows "step m s = Halted (s\<lparr>pc := 15\<rparr>)"
proof -
  have d: "drop 14 (assemble div_prog) = encode I_END" "length (assemble div_prog) = 15"
    by (simp_all add: div_prog_def assemble_def code_defs)
  have "decode (drop 14 (bytecode s)) = Instr I_END []"
    using decode_encode [of I_END "[]"] d(1) assms(1) by (simp add: for_ok_def)
  then show ?thesis using assms d(2) by (simp add: step_def)
qed


end
