(* ===== verification/VmArrays.thy ===== *)
theory VmArrays
  imports VmFrames
begin

text \<open>
  Arrays: where an element lies, that an access with valid indices stays inside, that a store reaches
  its element only, and what \<open>DIM\<close> sets up. The block lemmas on memory are proved in the interface
  \<open>byte_store\<close> and used through its interpretation on the machine's memory.
\<close>

section \<open>Blocks of bytes\<close>

context byte_store
begin

lemma wr_bytes_spec:
  "wr_bytes wr s a bs = Some s' \<Longrightarrow>
    rd s' c = (if a \<le> c \<and> c < a + length bs then Some (bs ! (c - a)) else rd s c) \<and> writable s' p n = writable s p n"
proof (induction bs arbitrary: s a)
  case Nil
  then show ?case by auto
next
  case (Cons b bs)
  then obtain s1 where w: "wr s a b = Some s1" "wr_bytes wr s1 (a + 1) bs = Some s'" by (auto split: option.splits)
  show ?case
  proof (cases "c = a")
    case True
    then show ?thesis using Cons.IH [OF w(2)] wr_same [OF w(1)] writable_wr [OF w(1)] by simp
  next
    case False
    then have "c - a = Suc (c - (a + 1)) \<or> c < a" by auto
    then show ?thesis using Cons.IH [OF w(2)] wr_other [OF w(1) False] writable_wr [OF w(1)] False by (auto simp: nth_Cons')
  qed
qed

lemma wr_bytes_writable: "writable s a (length bs) \<Longrightarrow> wr_bytes wr s a bs \<noteq> None"
proof (induction bs arbitrary: s a)
  case Nil
  then show ?case by simp
next
  case (Cons b bs)
  then obtain s1 where w: "wr s a b = Some s1" "writable s (a + 1) (length bs)"
    using writable_Suc [of s a "length bs" b] by auto
  then show ?case using Cons.IH [of s1 "a + 1"] writable_wr [OF w(1)] by simp
qed

lemma wr_bytes_only_writable: "wr_bytes wr s a bs = Some s' \<Longrightarrow> writable s a (length bs)"
proof (induction bs arbitrary: s a)
  case Nil
  then show ?case by (simp add: writable_def)
next
  case (Cons b bs)
  then obtain s1 where w: "wr s a b = Some s1" "wr_bytes wr s1 (a + 1) bs = Some s'" by (auto split: option.splits)
  then show ?case using Cons.IH [OF w(2)] writable_wr [OF w(1)] writable_Suc [of s a "length bs" b] by simp
qed

lemma rd_bytes_after_wr:
  assumes "wr_bytes wr s a bs = Some s'"
  shows "rd_bytes rd s' a (length bs) = Some bs"
    and "c + n \<le> a \<or> a + length bs \<le> c \<Longrightarrow> rd_bytes rd s' c n = rd_bytes rd s c n"
proof -
  show "rd_bytes rd s' a (length bs) = Some bs"
    using wr_bytes_spec [OF assms] by (simp add: rd_bytes_Some)
  assume d: "c + n \<le> a \<or> a + length bs \<le> c"
  have "\<forall>i<n. rd s' (c + i) = rd s (c + i)" using wr_bytes_spec [OF assms] d by auto
  then have "rd_bytes rd s' c n = Some xs \<longleftrightarrow> rd_bytes rd s c n = Some xs" for xs by (auto simp: rd_bytes_Some)
  then show "rd_bytes rd s' c n = rd_bytes rd s c n" by (metis option.exhaust)
qed

lemma rd_bytes_cong: "(\<And>c. a \<le> c \<Longrightarrow> c < a + n \<Longrightarrow> rd s' c = rd s c) \<Longrightarrow> rd_bytes rd s' a n = rd_bytes rd s a n"
proof -
  assume c: "\<And>c. a \<le> c \<Longrightarrow> c < a + n \<Longrightarrow> rd s' c = rd s c"
  have "rd_bytes rd s' a n = Some xs \<longleftrightarrow> rd_bytes rd s a n = Some xs" for xs using c by (auto simp: rd_bytes_Some)
  then show ?thesis by (metis option.exhaust)
qed

end

lemma rd64_wr64:
  assumes "wr64 s a v = Some s'"
  shows "rd64 s' a = Some v" "c + 8 \<le> a \<or> a + 8 \<le> c \<Longrightarrow> rd64 s' c = rd64 s c"
  using vmem.rd_bytes_after_wr [OF assms [unfolded wr64_def]] of_nat_le_dec_enc_unat [of 8 v]
  by (simp_all add: rd64_def)
section \<open>Column-major layout\<close>

text \<open>The number of elements of the first \<open>n\<close> dimensions and the position of an element among them.\<close>

fun extent :: "(nat \<Rightarrow> nat) \<Rightarrow> nat \<Rightarrow> nat" where
  "extent ds 0 = 1"
| "extent ds (Suc n) = extent ds n * (ds n + 1)"

fun linear :: "(nat \<Rightarrow> nat) \<Rightarrow> (nat \<Rightarrow> nat) \<Rightarrow> nat \<Rightarrow> nat" where
  "linear ds ix 0 = 0"
| "linear ds ix (Suc n) = linear ds ix n + ix n * extent ds n"

lemma extent_pos [simp]: "0 < extent ds n"
  by (induction n) simp_all

lemma linear_cong: "(\<And>d. d < n \<Longrightarrow> ix d = jx d) \<Longrightarrow> linear ds ix n = linear ds jx n"
  by (induction n) simp_all

lemma linear_bound: "(\<And>d. d < n \<Longrightarrow> ix d \<le> ds d) \<Longrightarrow> linear ds ix n < extent ds n"
proof (induction n)
  case 0
  then show ?case by simp
next
  case (Suc n)
  then have "linear ds ix n < extent ds n" by simp
  moreover have "ix n * extent ds n \<le> ds n * extent ds n" using Suc.prems by (intro mult_right_mono) auto
  ultimately have "linear ds ix n + ix n * extent ds n < extent ds n + ds n * extent ds n" by (rule add_less_le_mono)
  then show ?case by (simp add: algebra_simps)
qed

lemma linear_inj:
  "(\<And>d. d < n \<Longrightarrow> ix d \<le> ds d) \<Longrightarrow> (\<And>d. d < n \<Longrightarrow> jx d \<le> ds d) \<Longrightarrow> linear ds ix n = linear ds jx n \<Longrightarrow>
   d < n \<Longrightarrow> ix d = jx d"
proof (induction n)
  case 0
  then show ?case by simp
next
  case (Suc n)
  have a: "linear ds ix n < extent ds n" "linear ds jx n < extent ds n" using Suc.prems linear_bound by auto
  have div: "(linear ds ix n + ix n * extent ds n) div extent ds n = ix n"
    "(linear ds jx n + jx n * extent ds n) div extent ds n = jx n" using a by simp_all
  have "linear ds ix n + ix n * extent ds n = linear ds jx n + jx n * extent ds n" using Suc.prems(3) by simp
  then have e: "ix n = jx n" using div by metis
  then have "linear ds ix n = linear ds jx n" using Suc.prems(3) by simp
  then show ?case using Suc e by (cases "d = n") auto
qed

definition udims :: "BCArray \<Rightarrow> nat \<Rightarrow> nat" where
  "udims arr d = unat (dims arr d)"

lemma offset_loop_linear:
  "offset_loop ds ix k (Suc d) (of_nat (linear (\<lambda>e. unat (ds e)) (\<lambda>e. unat (ix e)) (Suc d)))
     (of_nat (extent (\<lambda>e. unat (ds e)) d)) = of_nat (linear (\<lambda>e. unat (ds e)) (\<lambda>e. unat (ix e)) (Suc d + k))"
proof (induction k arbitrary: d)
  case 0
  show ?case by simp
next
  case (Suc k)
  have "(of_nat (unat (ds d)) :: u32) = ds d" "(ucast (ix (Suc d)) :: u32) = of_nat (unat (ix (Suc d)))"
    by (simp_all add: unsigned_ucast_eq)
  then show ?case using Suc.IH [of "Suc d"] by (simp add: algebra_simps Let_def)
qed
section \<open>The offset of an element\<close>

definition in_range :: "BCArray \<Rightarrow> nat \<Rightarrow> (nat \<Rightarrow> i64) \<Rightarrow> bool" where
  "in_range arr n ix \<longleftrightarrow> (\<forall>d<n. 0 \<le> sint (ix d) \<and> sint (ix d) \<le> int (udims arr d))"

text \<open>An array whose record is in order: the dimensions fit an \<open>int\<close> and \<open>total_elements\<close> is their product.\<close>

definition arr_wf :: "BCArray \<Rightarrow> nat \<Rightarrow> bool" where
  "arr_wf arr n \<longleftrightarrow> 0 < n \<and> n \<le> MAXDIM \<and> (\<forall>d<n. udims arr d < 2 ^ 31 - 1) \<and> unat (total_elements arr) = extent (udims arr) n"

definition position :: "BCArray \<Rightarrow> nat \<Rightarrow> (nat \<Rightarrow> i64) \<Rightarrow> nat" where
  "position arr n ix = linear (udims arr) (\<lambda>d. unat (ix d)) n"

lemma index_bad_iff:
  assumes "udims arr d < 2 ^ 31 - 1"
  shows "index_bad arr ix d \<longleftrightarrow> \<not> (0 \<le> sint (ix d) \<and> sint (ix d) \<le> int (udims arr d))"
proof -
  have "unat (dims arr d + 1) = udims arr d + 1"
    using assms unat_add_lem [of "dims arr d" 1] by (simp add: udims_def)
  then have "uint (dims arr d + 1) = int (udims arr d) + 1" by (metis of_nat_1 of_nat_add uint_nat)
  moreover have "uint (dims arr d + 1) < 2 ^ 31" using calculation assms by simp
  ultimately have "sint (dims arr d + 1) = int (udims arr d) + 1"
    by (simp add: sint_uint signed_take_bit_int_eq_self)
  then show ?thesis by (auto simp: index_bad_def)
qed

lemma in_range_unat:
  assumes "in_range arr n ix" "d < n"
  shows "unat (ix d) \<le> udims arr d" "int (unat (ix d)) = sint (ix d)"
proof -
  have "0 \<le> sint (ix d)" "sint (ix d) \<le> int (udims arr d)" using assms by (auto simp: in_range_def)
  moreover have "int (unat (ix d)) = sint (ix d)"
    using calculation(1) sint_less [of "ix d"] uint_sint [of "ix d"] by (simp add: take_bit_int_eq_self)
  ultimately have "int (unat (ix d)) \<le> int (udims arr d)" "int (unat (ix d)) = sint (ix d)" by simp_all
  then show "unat (ix d) \<le> udims arr d" "int (unat (ix d)) = sint (ix d)" by (simp_all only: of_nat_le_iff)
qed

lemma position_bound: "in_range arr n ix \<Longrightarrow> position arr n ix < extent (udims arr) n"
  unfolding position_def by (rule linear_bound) (simp add: in_range_unat)

lemma position_inj:
  assumes "in_range arr n ix" "in_range arr n jx" "position arr n ix = position arr n jx" "d < n"
  shows "ix d = jx d"
proof -
  have "unat (ix d) = unat (jx d)"
    by (rule linear_inj [OF _ _ assms(3) [unfolded position_def] assms(4)])
      (use in_range_unat(1) [OF assms(1)] in_range_unat(1) [OF assms(2)] in auto)
  then show ?thesis by (rule unsigned_word_eqI)
qed

lemma offset_loop_position:
  assumes "0 < n"
  shows "offset_loop (dims arr) ix (n - 1) 1 (ucast (ix 0)) 1 = of_nat (position arr n ix)"
proof -
  have "(ucast (ix 0) :: u32) = of_nat (linear (\<lambda>e. unat (dims arr e)) (\<lambda>e. unat (ix e)) (Suc 0))"
    by (simp add: unsigned_ucast_eq)
  then show ?thesis using offset_loop_linear [of "dims arr" ix "n - 1" 0] assms
    by (simp add: position_def udims_def [abs_def])
qed

lemma position_below: "arr_wf arr n \<Longrightarrow> in_range arr n ix \<Longrightarrow> position arr n ix < unat (total_elements arr)"
  using position_bound by (simp add: arr_wf_def)

lemma unat_position: "arr_wf arr n \<Longrightarrow> in_range arr n ix \<Longrightarrow> unat (of_nat (position arr n ix) :: u32) = position arr n ix"
proof -
  assume a: "arr_wf arr n" "in_range arr n ix"
  have "unat (total_elements arr) < 2 ^ 32" using unsigned_less [of "total_elements arr"] by simp
  then show ?thesis using position_below [OF a] by (simp add: unat_of_nat)
qed

lemma calc_array_exact:
  assumes "arr_wf arr n"
  shows "calc_array_offset s arr ix n =
      (if in_range arr n ix then Ok (of_nat (position arr n ix)) else bc_vm_error s ''Array index out of bounds'')"
proof -
  have w: "0 < n" "n \<le> MAXDIM" "\<forall>d<n. udims arr d < 2 ^ 31 - 1" using assms by (auto simp: arr_wf_def)
  have bad: "(\<exists>d\<in>set [0..<n]. index_bad arr ix d) \<longleftrightarrow> \<not> in_range arr n ix"
    using index_bad_iff w(3) by (auto simp: in_range_def)
  have "\<not> total_elements arr \<le> of_nat (position arr n ix)" if "in_range arr n ix"
    using position_below [OF assms that] unat_position [OF assms that] by (simp add: word_le_nat_alt)
  then show ?thesis using w(1,2) bad offset_loop_position [OF w(1)] by (simp add: calc_array_offset_def Let_def)
qed

text \<open>
  C32: an access with valid indices is answered with the element's place in column-major order, which
  is below the number of elements and belongs to no other valid index vector; any index outside
  \<open>0..N\<close> of its dimension is an error of the program.
\<close>

theorem calc_array_offset_exact:
  assumes "arr_wf arr n"
  shows "calc_array_offset s arr ix n =
      (if in_range arr n ix then Ok (of_nat (position arr n ix)) else bc_vm_error s ''Array index out of bounds'') \<and>
    (in_range arr n ix \<longrightarrow> position arr n ix < unat (total_elements arr) \<and>
      (\<forall>jx d. in_range arr n jx \<and> position arr n jx = position arr n ix \<and> d < n \<longrightarrow> jx d = ix d))"
  using calc_array_exact [OF assms] position_below [OF assms] position_inj by blast

definition grid :: BCArray where
  "grid = \<lparr>adata = HEAP_BASE, dims = (\<lambda>_. 0)(0 := 2, 1 := 3), ndims = 2, elem_type = T_INT, data_external = 0, total_elements = 12\<rparr>"

lemma two_dims: "extent ds 2 = (ds 0 + 1) * (ds 1 + 1)" "linear ds ix 2 = ix 0 + ix 1 * (ds 0 + 1)"
  by (simp_all add: numeral_2_eq_2)

lemma grid_wf: "arr_wf grid 2"
proof -
  have "udims grid d < 2 ^ 31 - 1" for d by (simp add: grid_def udims_def)
  then show ?thesis by (simp add: arr_wf_def two_dims MAXDIM_def) (simp add: grid_def udims_def)
qed

lemma grid_range: "in_range grid 2 ((\<lambda>_. 2)(0 := 1))"
  by (simp add: in_range_def grid_def udims_def less_2_cases_iff)

theorem calc_array_offset_exact_witness: "calc_array_offset blank_vm grid ((\<lambda>_. 2)(0 := 1)) 2 = Ok 7"
  using calc_array_offset_exact [OF grid_wf, of blank_vm "(\<lambda>_. 2)(0 := 1)"] grid_range
  by (simp add: position_def two_dims) (simp add: grid_def udims_def)
section \<open>Elements in memory\<close>

definition esize :: "vty \<Rightarrow> nat" where
  "esize t = (if t = TS then 256 else 8)"

text \<open>The elements of an array lie in the heap, and the heap in the 32-bit address space.\<close>

definition arr_mem :: "vm \<Rightarrow> BCArray \<Rightarrow> nat \<Rightarrow> vty \<Rightarrow> bool" where
  "arr_mem s arr n t \<longleftrightarrow> arr_wf arr n \<and> HEAP_BASE \<le> adata arr \<and>
     adata arr + unat (total_elements arr) * esize t \<le> HEAP_BASE + npages (heap s) * PAGESIZE \<and>
     HEAP_BASE + npages (heap s) * PAGESIZE \<le> 2 ^ 32"

definition cell_addr :: "BCArray \<Rightarrow> nat \<Rightarrow> vty \<Rightarrow> (nat \<Rightarrow> i64) \<Rightarrow> nat" where
  "cell_addr arr n t ix = adata arr + position arr n ix * esize t"

lemma cell_addr_bound:
  assumes "arr_mem s arr n t" "in_range arr n ix"
  shows "cell_addr arr n t ix + esize t \<le> HEAP_BASE + npages (heap s) * PAGESIZE" "HEAP_BASE \<le> cell_addr arr n t ix"
proof -
  have "position arr n ix < unat (total_elements arr)" using assms position_below by (auto simp: arr_mem_def)
  then have "(position arr n ix + 1) * esize t \<le> unat (total_elements arr) * esize t" by (intro mult_right_mono) simp_all
  then show "cell_addr arr n t ix + esize t \<le> HEAP_BASE + npages (heap s) * PAGESIZE" "HEAP_BASE \<le> cell_addr arr n t ix"
    using assms(1) by (simp_all add: arr_mem_def cell_addr_def)
qed

lemma elem_addr_exact:
  assumes "arr_mem s arr n t" "in_range arr n ix"
  shows "elem_addr arr (of_nat (position arr n ix)) t = cell_addr arr n t ix"
proof -
  have "(of_nat (adata arr) + of_nat (position arr n ix) * (if t = TS then 256 else 8) :: u32) = of_nat (cell_addr arr n t ix)"
    by (simp add: cell_addr_def esize_def)
  moreover have "cell_addr arr n t ix < 2 ^ 32"
    using cell_addr_bound(1) [OF assms] assms(1) by (simp add: arr_mem_def esize_def split: if_splits)
  ultimately show ?thesis by (simp add: elem_addr_def unat_of_nat)
qed

lemma cells_apart:
  assumes "in_range arr n ix" "in_range arr n jx" "\<not> (\<forall>d<n. jx d = ix d)"
  shows "cell_addr arr n t jx + esize t \<le> cell_addr arr n t ix \<or> cell_addr arr n t ix + esize t \<le> cell_addr arr n t jx"
proof -
  have "position arr n ix \<noteq> position arr n jx" using position_inj [OF assms(1,2)] assms(3) by metis
  then consider "position arr n jx + 1 \<le> position arr n ix" | "position arr n ix + 1 \<le> position arr n jx" by linarith
  then show ?thesis
  proof cases
    case 1
    then have "(position arr n jx + 1) * esize t \<le> position arr n ix * esize t" by (intro mult_right_mono) simp_all
    then show ?thesis by (simp add: cell_addr_def)
  next
    case 2
    then have "(position arr n ix + 1) * esize t \<le> position arr n jx * esize t" by (intro mult_right_mono) simp_all
    then show ?thesis by (simp add: cell_addr_def)
  qed
qed

text \<open>Two states that differ in their operand stacks only.\<close>

definition moved :: "vm \<Rightarrow> vm \<Rightarrow> bool" where
  "moved s s1 \<longleftrightarrow> (\<exists>st ty k. s1 = s\<lparr>stack := st, stack_types := ty, sp := k\<rparr>)"

lemma moved_refl: "moved s s"
  unfolding moved_def by (intro exI [of _ "stack s"] exI [of _ "stack_types s"] exI [of _ "sp s"]) simp

lemma moved_trans: "moved a b \<Longrightarrow> moved b c \<Longrightarrow> moved a c"
  unfolding moved_def by (elim exE) (simp, intro exI, rule refl)

lemma POP_moved: "POP s = Ok (v, s1) \<Longrightarrow> moved s s1"
  unfolding moved_def
  by (intro exI [of _ "stack s"] exI [of _ "stack_types s"] exI [of _ "sp s - 1"]) (auto simp: POP_def split: if_splits)

lemma pops_moved: "POP_NUMERIC_I s = Ok (v, s1) \<Longrightarrow> moved s s1" "POP_as_F s = Ok (v, s1) \<Longrightarrow> moved s s1"
  by (auto simp: POP_NUMERIC_I_def POP_as_F_def dest: POP_moved split: if_splits)

lemma pop_indices_moved: "pop_indices n ix s = Ok (jx, s1) \<Longrightarrow> moved s s1"
proof (induction n arbitrary: ix s)
  case 0
  then show ?case by (simp add: moved_refl)
next
  case (Suc n)
  then show ?case by (auto intro: moved_trans pops_moved split: if_splits)
qed

lemma moved_same:
  assumes "moved s s1"
  shows "get_arr s1 r = get_arr s r" "rd64 s1 a = rd64 s a" "heap s1 = heap s" "arrays s1 = arrays s" "local_arrays s1 = local_arrays s"
proof -
  obtain st ty k where k: "s1 = s\<lparr>stack := st, stack_types := ty, sp := k\<rparr>" using assms by (auto simp: moved_def)
  have "rd_byte s1 c = rd_byte s c" for c by (simp add: k rd_byte_def in_heap_def)
  then show "rd64 s1 a = rd64 s a" unfolding rd64_def using vmem.rd_bytes_cong [of a 8 s1 s] by simp
  show "get_arr s1 r = get_arr s r" "heap s1 = heap s" "arrays s1 = arrays s" "local_arrays s1 = local_arrays s"
    by (simp_all add: k get_arr_def split: aref.splits)
qed

lemma heap_readable:
  assumes "HEAP_BASE \<le> a" "a + n \<le> HEAP_BASE + npages (heap s) * PAGESIZE"
  shows "vmem.writable s a n" "\<exists>bs. rd_bytes rd_byte s a n = Some bs"
proof -
  have h: "in_heap s (a + i)" if "i < n" for i using assms that by (simp add: in_heap_def)
  then show "vmem.writable s a n" by (auto simp: vmem.writable_def wr_byte_None)
  have "rd_byte s (a + i) = Some (hmem (heap s) (a + i - HEAP_BASE))" if "i < n" for i
    using h [OF that] heap_disjoint by (auto simp: rd_byte_def)
  then have "rd_bytes rd_byte s a n = Some (map (\<lambda>i. hmem (heap s) (a + i - HEAP_BASE)) [0..<n])"
    by (simp add: vmem.rd_bytes_Some)
  then show "\<exists>bs. rd_bytes rd_byte s a n = Some bs" by blast
qed

definition pop_value :: "vty \<Rightarrow> vm \<Rightarrow> (u64 \<times> vm) res" where
  "pop_value t s = (if t = TI then POP_NUMERIC_I s else POP_as_F s)"

definition push_value :: "vty \<Rightarrow> u64 \<Rightarrow> vm \<Rightarrow> vm res" where
  "push_value t v s = (if t = TI then PUSH_I v s else PUSH_F v s)"

lemma load_elem_exact:
  assumes "arr_mem s (get_arr s r) n t" "t \<noteq> TS" "pop_indices n (\<lambda>_. 0) s = Ok (ix, s1)" "in_range (get_arr s r) n ix"
  shows "\<exists>w. rd64 s (cell_addr (get_arr s r) n t ix) = Some w \<and> load_elem t r n s = push_value t w s1"
proof -
  note m = moved_same [OF pop_indices_moved [OF assms(3)]]
  let ?a = "cell_addr (get_arr s r) n t ix"
  have "arr_wf (get_arr s r) n" using assms(1) by (simp add: arr_mem_def)
  then have o: "calc_array_offset s1 (get_arr s1 r) ix n = Ok (of_nat (position (get_arr s r) n ix))"
    using calc_array_exact assms(4) m by simp
  have "?a + 8 \<le> HEAP_BASE + npages (heap s) * PAGESIZE" "HEAP_BASE \<le> ?a"
    using cell_addr_bound [OF assms(1,4)] assms(2) by (simp_all add: esize_def)
  then obtain bs where "rd_bytes rd_byte s ?a 8 = Some bs" using heap_readable(2) [of ?a 8 s] by blast
  then obtain w where w: "rd64 s ?a = Some w" by (simp add: rd64_def)
  then show ?thesis
    using assms(2,3) o elem_addr_exact [OF assms(1,4)] m by (simp add: load_elem_def push_value_def)
qed

lemma store_elem_exact:
  assumes "arr_mem s (get_arr s r) n t" "t \<noteq> TS" "pop_value t s = Ok (v, s1)" "pop_indices n (\<lambda>_. 0) s1 = Ok (ix, s2)"
    "in_range (get_arr s r) n ix"
  shows "\<exists>s'. store_elem t r n s = Ok s' \<and> wr64 s2 (cell_addr (get_arr s r) n t ix) v = Some s'"
proof -
  have "moved s s1" using assms(3) by (auto simp: pop_value_def intro: pops_moved split: if_splits)
  then have "moved s s2" by (rule moved_trans [OF _ pop_indices_moved [OF assms(4)]])
  note m = moved_same [OF this]
  let ?a = "cell_addr (get_arr s r) n t ix"
  have "arr_wf (get_arr s r) n" using assms(1) by (simp add: arr_mem_def)
  then have o: "calc_array_offset s2 (get_arr s2 r) ix n = Ok (of_nat (position (get_arr s r) n ix))"
    using calc_array_exact assms(5) m by simp
  have "?a + 8 \<le> HEAP_BASE + npages (heap s2) * PAGESIZE" "HEAP_BASE \<le> ?a"
    using cell_addr_bound [OF assms(1,5)] assms(2) m by (simp_all add: esize_def)
  then obtain s' where w: "wr64 s2 ?a v = Some s'"
    using heap_readable(1) vmem.wr_bytes_writable [of s2 ?a "le_enc 8 (unat v)"] by (auto simp: wr64_def)
  have "store_elem t r n s = Ok s'"
    using assms(2-4) o elem_addr_exact [OF assms(1,5)] m w
    by (cases t) (simp_all add: store_elem_def pop_value_def)
  then show ?thesis using w by blast
qed

text \<open>Writing memory leaves everything else of the machine alone.\<close>

definition mem_only :: "vm \<Rightarrow> vm \<Rightarrow> bool" where
  "mem_only s s1 \<longleftrightarrow> arrays s1 = arrays s \<and> local_arrays s1 = local_arrays s \<and> mmap (heap s1) = mmap (heap s)"

lemma mem_only_npages: "mem_only s s1 \<Longrightarrow> npages (heap s1) = npages (heap s)"
  by (simp add: mem_only_def npages_def)

lemma wr_byte_mem_only: "wr_byte s a b = Some s1 \<Longrightarrow> mem_only s s1"
  by (auto simp: wr_byte_def mem_only_def split: if_splits)

lemma wr_bytes_mem_only: "wr_bytes wr_byte s a bs = Some s1 \<Longrightarrow> mem_only s s1"
proof (induction bs arbitrary: s a)
  case Nil
  then show ?case by (simp add: mem_only_def)
next
  case (Cons b bs)
  then obtain s2 where "wr_byte s a b = Some s2" "mem_only s2 s1" by (auto split: option.splits)
  then show ?case using wr_byte_mem_only by (fastforce simp: mem_only_def)
qed

lemma mem_only_arr: "mem_only s s1 \<Longrightarrow> get_arr s1 r = get_arr s r \<and> arr_mem s1 arr n t = arr_mem s arr n t"
  by (simp add: mem_only_def get_arr_def arr_mem_def npages_def split: aref.splits)

text \<open>
  C33: storing a number in an element of an array changes that element and no other. Whatever the
  operand stack holds later on, loading the element at valid indices \<open>jx\<close> gives the stored value when
  they are the indices of the store, and the value the element had before otherwise.
\<close>

theorem array_store_then_load:
  assumes "arr_mem s (get_arr s r) n t" "t \<noteq> TS" "pop_value t s = Ok (v, s1)" "pop_indices n (\<lambda>_. 0) s1 = Ok (ix, s2)"
    "in_range (get_arr s r) n ix"
  shows "\<exists>s'. store_elem t r n s = Ok s' \<and>
    (\<forall>u jx u1. moved s' u \<and> pop_indices n (\<lambda>_. 0) u = Ok (jx, u1) \<and> in_range (get_arr s r) n jx \<longrightarrow>
      (\<exists>w. load_elem t r n u = push_value t w u1 \<and>
        (if \<forall>d<n. jx d = ix d then w = v else rd64 s (cell_addr (get_arr s r) n t jx) = Some w)))"
proof -
  let ?arr = "get_arr s r"
  obtain s' where s': "store_elem t r n s = Ok s'" "wr64 s2 (cell_addr ?arr n t ix) v = Some s'"
    using store_elem_exact [OF assms] by blast
  have "moved s s1" using assms(3) by (auto simp: pop_value_def intro: pops_moved split: if_splits)
  then have m: "moved s s2" by (rule moved_trans [OF _ pop_indices_moved [OF assms(4)]])
  have mo: "mem_only s2 s'" using s'(2) wr_bytes_mem_only by (simp add: wr64_def)
  have k: "\<exists>w. load_elem t r n u = push_value t w u1 \<and>
        (if \<forall>d<n. jx d = ix d then w = v else rd64 s (cell_addr ?arr n t jx) = Some w)"
    if u: "moved s' u" "pop_indices n (\<lambda>_. 0) u = Ok (jx, u1)" "in_range ?arr n jx" for u jx u1
  proof -
    have g: "get_arr u r = ?arr" using moved_same(1) [OF u(1)] mem_only_arr [OF mo] moved_same(1) [OF m] by simp
    have "npages (heap u) = npages (heap s)"
      using mem_only_npages [OF mo] moved_same(3) [OF u(1)] moved_same(3) [OF m] by simp
    then have "arr_mem u ?arr n t" using assms(1) by (simp add: arr_mem_def)
    then obtain w where w: "rd64 u (cell_addr ?arr n t jx) = Some w" "load_elem t r n u = push_value t w u1"
      using load_elem_exact [of u r n t jx u1] assms(2) u(2,3) g by auto
    have r: "rd64 s' (cell_addr ?arr n t jx) = Some w" using w(1) moved_same(2) [OF u(1)] by simp
    have "if \<forall>d<n. jx d = ix d then w = v else rd64 s (cell_addr ?arr n t jx) = Some w"
    proof (cases "\<forall>d<n. jx d = ix d")
      case True
      then have "position ?arr n jx = position ?arr n ix" unfolding position_def by (intro linear_cong) metis
      then have "cell_addr ?arr n t jx = cell_addr ?arr n t ix" by (simp only: cell_addr_def)
      then have "w = v" using r rd64_wr64(1) [OF s'(2)] by simp
      then show ?thesis using True by metis
    next
      case False
      have "rd64 s2 (cell_addr ?arr n t jx) = Some w"
        using r rd64_wr64(2) [OF s'(2)] cells_apart [OF assms(5) u(3) False, of t] assms(2) by (simp add: esize_def)
      then have "rd64 s (cell_addr ?arr n t jx) = Some w" using moved_same(2) [OF m] by simp
      then show ?thesis using False by metis
    qed
    then show ?thesis using w(2) by blast
  qed
  then show ?thesis using s'(1) by blast
qed

text \<open>Global array 0 is the 3 by 4 grid; the stack holds the indices 1 and 2 and the value 77.\<close>

definition grid_vm :: vm where
  "grid_vm = blank_vm\<lparr>arrays := (\<lambda>_. no_array)(0 := grid), stack := (\<lambda>_. 0)(0 := 1, 1 := 2, 2 := 77), sp := 2\<rparr>"

lemma grid_mem: "arr_mem grid_vm grid 2 TI"
  by (simp add: arr_mem_def grid_wf grid_vm_def blank_vm_def npages_heap8) (simp add: grid_def esize_def address_map PAGESIZE_def)

lemma grid_indices:
  assumes "sp u = 1" "stack u 0 = 1" "stack u 1 = 2" "stack_types u = (\<lambda>_. 0)"
  shows "pop_indices 2 (\<lambda>_. 0) u = Ok ((\<lambda>_. 0)(1 := 2, 0 := 1), u\<lparr>sp := -1\<rparr>)"
  using assms by (simp add: numeral_2_eq_2 POP_NUMERIC_I_def POP_def TOS_type_def limits T_NBR_def)

theorem array_store_then_load_witness:
  "\<exists>s' u1. store_elem TI (AGlobal 0) 2 grid_vm = Ok s' \<and>
     load_elem TI (AGlobal 0) 2 (s'\<lparr>stack := stack grid_vm, stack_types := \<lambda>_. 0, sp := 1\<rparr>) = PUSH_I 77 u1"
proof -
  let ?ix = "(\<lambda>_. 0)(1 := 2, 0 := 1) :: nat \<Rightarrow> i64"
  let ?s1 = "grid_vm\<lparr>sp := 1\<rparr>"
  have g: "get_arr grid_vm (AGlobal 0) = grid" by (simp add: grid_vm_def get_arr_def)
  have t: "stack_types grid_vm = (\<lambda>_. 0)" "stack grid_vm 0 = 1" "stack grid_vm 1 = 2" by (simp_all add: grid_vm_def blank_vm_def)
  have p: "pop_value TI grid_vm = Ok (77, ?s1)"
    by (simp add: pop_value_def POP_NUMERIC_I_def POP_def TOS_type_def t limits T_NBR_def) (simp add: grid_vm_def limits)
  have i: "pop_indices 2 (\<lambda>_. 0) ?s1 = Ok (?ix, ?s1\<lparr>sp := -1\<rparr>)" by (rule grid_indices) (simp_all add: t)
  have r: "in_range (get_arr grid_vm (AGlobal 0)) 2 ?ix"
    unfolding g by (simp add: in_range_def grid_def udims_def less_2_cases_iff)
  have m: "arr_mem grid_vm (get_arr grid_vm (AGlobal 0)) 2 TI" unfolding g by (rule grid_mem)
  obtain s' where s': "store_elem TI (AGlobal 0) 2 grid_vm = Ok s'"
    "\<forall>u jx u1. moved s' u \<and> pop_indices 2 (\<lambda>_. 0) u = Ok (jx, u1) \<and> in_range (get_arr grid_vm (AGlobal 0)) 2 jx \<longrightarrow>
      (\<exists>w. load_elem TI (AGlobal 0) 2 u = push_value TI w u1 \<and> (if \<forall>d<2. jx d = ?ix d then w = 77 else
         rd64 grid_vm (cell_addr (get_arr grid_vm (AGlobal 0)) 2 TI jx) = Some w))"
    using array_store_then_load [OF m _ p i r] by blast
  let ?u = "s'\<lparr>stack := stack grid_vm, stack_types := \<lambda>_. 0, sp := 1\<rparr>"
  have "moved s' ?u" by (auto simp: moved_def)
  moreover have "pop_indices 2 (\<lambda>_. 0) ?u = Ok (?ix, ?u\<lparr>sp := -1\<rparr>)" by (rule grid_indices) (simp_all add: t)
  ultimately have "load_elem TI (AGlobal 0) 2 ?u = push_value TI 77 (?u\<lparr>sp := -1\<rparr>)" using s'(2) r by metis
  then show ?thesis using s'(1) by (auto simp: push_value_def)
qed

lemma ucast_Suc: "ucast (x + 1 :: u64) = (ucast x + 1 :: u32)"
proof transfer
  fix x :: int
  have "take_bit LENGTH(32) (take_bit LENGTH(64) (x + 1)) = take_bit 32 (x + 1)" by simp
  also have "\<dots> = take_bit 32 (take_bit 32 (take_bit 64 x) + take_bit 32 1)" 
    using take_bit_add [of 32 x 1] by simp
  also have "\<dots> = take_bit 32 (take_bit 64 x + 1)" by (rule take_bit_add)
  finally show "take_bit LENGTH(32) (take_bit LENGTH(64) (x + 1)) = take_bit LENGTH(32) (take_bit LENGTH(64) x + 1)"
    by simp
qed

section \<open>DIM\<close>

lemma get_set_arr [simp]: "get_arr (set_arr s r a) r = a" "heap (set_arr s r a) = heap s"
  by (cases r; simp add: get_arr_def set_arr_def)+

lemma extent_cong: "(\<And>d. d < n \<Longrightarrow> ds d = ds' d) \<Longrightarrow> extent ds n = extent ds' n"
  by (induction n) simp_all

text \<open>\<open>total\<close> is the product of the dimensions modulo \<open>2 ^ 32\<close>.\<close>

lemma dim_loop_spec:
  "dim_loop r ds k d tot s = Ok (tot', s') \<Longrightarrow> tot = of_nat (extent (udims (get_arr s r)) d) \<Longrightarrow>
   heap s' = heap s \<and> adata (get_arr s' r) = adata (get_arr s r) \<and> tot' = of_nat (extent (udims (get_arr s' r)) (d + k))"
proof (induction k arbitrary: d tot s)
  case 0
  then show ?case by auto
next
  case (Suc k)
  let ?a = "(get_arr s r)\<lparr>dims := (dims (get_arr s r))(d := ucast (ds d))\<rparr>"
  have e: "extent (udims ?a) d = extent (udims (get_arr s r)) d" by (rule extent_cong) (simp add: udims_def)
  have ud: "udims ?a d = unat (ucast (ds d) :: u32)" by (simp add: udims_def)
  have "tot * ucast (ds d + 1) = of_nat (extent (udims ?a) (Suc d))"
    unfolding extent.simps e ud ucast_Suc Suc.prems(2) by (simp add: distrib_left)
  then show ?case using Suc.IH [of "Suc d" "tot * ucast (ds d + 1)" "set_arr s r ?a"] Suc.prems(1)
    by (simp split: if_splits)
qed

lemma mem_only_heap: "mem_only s s1 \<Longrightarrow> heap_inv (heap s1) = heap_inv (heap s) \<and> heap_live (heap s1) = heap_live (heap s)"
  by (simp add: mem_only_def heap_inv_def heap_live_def pages_def npages_def)

lemma fill_spec:
  assumes "fill s p b n = Ok s'"
  shows "mem_only s s' \<and> (\<forall>c. p \<le> c \<and> c < p + n \<longrightarrow> rd_byte s' c = Some b)"
proof -
  have w: "wr_bytes wr_byte s p (replicate n b) = Some s'" using assms by (simp add: fill_def)
  have "rd_byte s' c = Some b" if "p \<le> c \<and> c < p + n" for c
    using vmem.wr_bytes_spec [OF w, of c] that by (simp add: less_diff_conv2)
  then show ?thesis using wr_bytes_mem_only [OF w] by blast
qed

lemma pop_indices_limit: "pop_indices n ix s = Ok (jx, s1) \<Longrightarrow> n \<le> MAXDIM"
  by (cases n) (auto split: if_splits)

text \<open>
  C34: after a successful \<open>DIM\<close> whose array is smaller than 2 GB the array record is in order -- as many
  elements as its dimensions say --, its elements lie inside one fresh live block of the heap that is
  large enough and overlaps no other, and every byte of them is zero.
\<close>

theorem dim_elements_in_block:
  assumes "heap_inv (heap s)" "dim_array r t ndim s = Ok s'" "0 < unat ndim"
    "\<forall>d<unat ndim. udims (get_arr s' r) d < 2 ^ 31 - 1" "extent (udims (get_arr s' r)) (unat ndim) * esize t < 2 ^ 31"
  shows "arr_wf (get_arr s' r) (unat ndim) \<and> heap_inv (heap s') \<and>
    (\<exists>m. unat (total_elements (get_arr s' r)) * esize t \<le> m \<and> HEAP_BASE \<le> adata (get_arr s' r) \<and>
      (adata (get_arr s' r) - HEAP_BASE, m) \<notin> heap_live (heap s) \<and>
      heap_live (heap s') = insert (adata (get_arr s' r) - HEAP_BASE, m) (heap_live (heap s))) \<and>
    (\<forall>c. adata (get_arr s' r) \<le> c \<and> c < adata (get_arr s' r) + unat (total_elements (get_arr s' r)) * esize t \<longrightarrow>
      rd_byte s' c = Some 0)"
proof -
  let ?n = "unat ndim" and ?a' = "get_arr s' r"
  define s0 where "s0 = set_arr s r ((get_arr s r)\<lparr>ndims := ndim, elem_type := ty_tag t\<rparr>)"
  obtain ds s1 tot s2 where p: "pop_indices ?n (\<lambda>_. 0) s0 = Ok (ds, s1)" "dim_loop r ds ?n 0 1 s1 = Ok (tot, s2)"
    using assms(2) by (auto simp: dim_array_def s0_def Let_def split: if_splits)
  define bytes where "bytes = unat (tot * (if t = TS then 256 else 8))"
  define s3 where "s3 = set_arr s2 r ((get_arr s2 r)\<lparr>total_elements := tot\<rparr>)"
  obtain s4 q where q: "BC_ALLOC s3 bytes = (s4, q)" by fastforce
  define s5 where "s5 = set_arr s4 r ((get_arr s4 r)\<lparr>adata := q\<rparr>)"
  have f: "q \<noteq> 0" "fill s5 q 0 bytes = Ok s'"
    using assms(2) p q unfolding dim_array_def s0_def [symmetric]
    by (auto simp: Let_def bytes_def [symmetric] s3_def [symmetric] s5_def [symmetric] split: if_splits)
  note fs = fill_spec [OF f(2)]
  have h: "heap s3 = heap s" using dim_loop_spec [OF p(2)] moved_same(3) [OF pop_indices_moved [OF p(1)]] by (simp add: s3_def s0_def)
  obtain off h4 where b: "bc_alloc (heap s) bytes = (h4, Some off)" "q = HEAP_BASE + off" "s4 = s3\<lparr>heap := h4\<rparr>"
    using q f(1) h by (auto simp: BC_ALLOC_def split: prod.splits option.splits)
  have "get_arr s4 r = get_arr s3 r" by (cases r) (simp_all add: b(3) get_arr_def)
  then have arr: "?a' = (get_arr s2 r)\<lparr>total_elements := tot, adata := q\<rparr>"
    using mem_only_arr [of s5 s'] fs by (simp add: s5_def s3_def)
  have h5: "heap s5 = h4" by (simp add: s5_def b(3))
  have u: "udims ?a' = udims (get_arr s2 r)" by (simp add: arr udims_def fun_eq_iff)
  have tot: "tot = of_nat (extent (udims ?a') ?n)" using dim_loop_spec [OF p(2)] u by simp
  have lim: "extent (udims ?a') ?n * 8 < 2 ^ 31" using assms(5) by (simp add: esize_def split: if_splits)
  then have ut: "unat tot = extent (udims ?a') ?n" by (simp add: tot unat_of_nat)
  have "tot * (if t = TS then 256 else 8) = of_nat (extent (udims ?a') ?n * esize t)" by (simp add: tot esize_def)
  then have byt: "bytes = extent (udims ?a') ?n * esize t"
    using assms(5) by (simp only: bytes_def unat_of_nat) simp
  have wf: "arr_wf ?a' ?n"
    using assms(3,4) ut pop_indices_limit [OF p(1)] by (simp add: arr_wf_def arr [symmetric]) (simp add: arr)
  have bl: "bytes < 2 ^ 31" using byt assms(5) by simp
  obtain m where m: "heap_inv h4" "bytes \<le> m" "(off, m) \<notin> heap_live (heap s)" "heap_live h4 = insert (off, m) (heap_live (heap s))"
    using mmh.alloc_live [OF assms(1) bl b(1)] by blast
  have hs': "heap_inv (heap s')" "heap_live (heap s') = heap_live h4" using mem_only_heap [of s5 s'] fs m(1) h5 by auto
  have d: "adata ?a' = q" "total_elements ?a' = tot" by (simp_all add: arr)
  show ?thesis unfolding d using wf hs' m fs b(2) byt ut by auto
qed
section \<open>DIM on a concrete machine\<close>

lemma heap8_alloc:
  assumes "0 < n" "n \<le> 4096"
  obtains h' off where "bc_alloc heap8 n = (h', Some off)" "off + n \<le> 4096" "npages h' = 16"
proof -
  have k: "pages_for n \<le> 16" using assms(2) by (simp add: pages_for_def)
  then have f: "free_run (pages heap8) 0 (pages_for n)"
    by (auto simp: free_run_def npages_heap8 pages_heap8)
  have l: "pages_for n < 2 ^ 32" using k by simp
  obtain h' r where r: "TryGetMemory heap8 (int n) = (h', r)" by fastforce
  obtain off where o: "r = Some off"
  proof (cases r)
    case None
    then show ?thesis using TryGetMemory_None(1) [OF assms(1) l, of heap8 h'] r f by auto
  qed
  obtain a where a: "off = a * PAGESIZE" "free_run (pages heap8) a (pages_for n)" "npages h' = npages heap8"
    using TryGetMemory_Some [OF assms(1) l r [unfolded o]] by blast
  have "off + n \<le> 4096" using a(1,2) pages_for_bound [of n] by (simp add: free_run_def npages_heap8 PAGESIZE_def)
  then show ?thesis using that r o assms(1) a(3) by (simp add: bc_alloc_def npages_heap8)
qed

text \<open>A machine with one number on its operand stack.\<close>

definition top_vm :: "i64 \<Rightarrow> vm" where
  "top_vm v = blank_vm\<lparr>stack := (\<lambda>_. 0)(0 := v), sp := 0\<rparr>"

lemma dim_one:
  assumes "0 < sint v" "unat ((1 :: u32) * ucast (v + 1) * 8) = n" "0 < n" "n \<le> 4096"
  shows "\<exists>s' h' off. dim_array (AGlobal 0) TI 1 (top_vm v) = Ok s' \<and> bc_alloc heap8 n = (h', Some off) \<and>
    get_arr s' (AGlobal 0) = no_array\<lparr>dims := (\<lambda>_. 0)(0 := ucast v), ndims := 1, elem_type := T_INT,
      total_elements := ucast (v + 1), adata := HEAP_BASE + off\<rparr>"
proof -
  obtain h' off where h: "bc_alloc heap8 n = (h', Some off)" "off + n \<le> 4096" "npages h' = 16" by (rule heap8_alloc [OF assms(3,4)])
  let ?arr = "no_array\<lparr>dims := (\<lambda>_. 0)(0 := ucast v), ndims := 1, elem_type := T_INT, total_elements := ucast (v + 1), adata := HEAP_BASE + off\<rparr>"
  let ?s5 = "(top_vm v)\<lparr>arrays := (\<lambda>_. no_array)(0 := ?arr), heap := h', sp := -1\<rparr>"
  have w: "vmem.writable ?s5 (HEAP_BASE + off) n"
    by (rule heap_readable) (use h in \<open>simp_all add: PAGESIZE_def\<close>)
  then obtain s' where s': "fill ?s5 (HEAP_BASE + off) 0 n = Ok s'"
    using vmem.wr_bytes_writable [of ?s5 "HEAP_BASE + off" "replicate n 0"] by (auto simp: fill_def)
  have "dim_array (AGlobal 0) TI 1 (top_vm v) = Ok s'"
    using assms(1,2) s' h(1)
    by (simp add: dim_array_def top_vm_def blank_vm_def get_arr_def set_arr_def no_array_def POP_NUMERIC_I_def POP_def
        TOS_type_def limits T_NBR_def BC_ALLOC_def ty_tag_def HEAP_BASE_def)
  moreover have "get_arr s' (AGlobal 0) = ?arr" using fill_spec [OF s'] by (simp add: get_arr_def mem_only_def)
  ultimately show ?thesis using h(1) by auto
qed

theorem dim_elements_in_block_witness:
  "\<exists>s'. dim_array (AGlobal 0) TI 1 (top_vm 5) = Ok s' \<and> unat (total_elements (get_arr s' (AGlobal 0))) = 6 \<and> heap_inv (heap s')"
proof -
  obtain s' off where s': "dim_array (AGlobal 0) TI 1 (top_vm 5) = Ok s'"
    "get_arr s' (AGlobal 0) = no_array\<lparr>dims := (\<lambda>_. 0)(0 := 5), ndims := 1, elem_type := T_INT,
      total_elements := 6, adata := HEAP_BASE + off\<rparr>"
    using dim_one [of 5 48] by auto
  have h: "heap_inv (heap (top_vm 5))" by (simp add: top_vm_def blank_vm_def heap8_inv)
  have u: "udims (get_arr s' (AGlobal 0)) 0 = 5" by (simp add: s'(2) udims_def)
  have "\<forall>d<unat (1 :: u8). udims (get_arr s' (AGlobal 0)) d < 2 ^ 31 - 1"
    "extent (udims (get_arr s' (AGlobal 0))) (unat (1 :: u8)) * esize TI < 2 ^ 31" using u by (simp_all add: esize_def)
  then have "heap_inv (heap s')" using dim_elements_in_block [OF h s'(1)] by simp
  then show ?thesis using s' by simp
qed


end
