(* ===== verification/VmText.thy ===== *)
theory VmText
  imports VmArrays
begin

text \<open>
  String operations: slices, concatenation and search deliver the string they are specified by, in a
  temporary of their own, and change nothing else in memory; how long a string temporary lives.
\<close>

section \<open>Strings on the operand stack\<close>

abbreviation str_at :: "vm \<Rightarrow> nat \<Rightarrow> u8 list \<Rightarrow> bool" where
  "str_at s a xs \<equiv> mstr rd_byte s a = Some xs"

definition next_temp :: "vm \<Rightarrow> nat" where
  "next_temp s = TEMP_BASE + STRINGSIZE * (str_temp_idx s mod 4)"

text \<open>The bytes from \<open>a\<close> to \<open>a + n\<close> are outside the temporary about to be written.\<close>

definition clear_of :: "vm \<Rightarrow> nat \<Rightarrow> nat \<Rightarrow> bool" where
  "clear_of s a n \<longleftrightarrow> a + n < next_temp s \<or> next_temp s + STRINGSIZE \<le> a"

text \<open>\<open>s'\<close> has the string \<open>xs\<close> on top of what \<open>s\<close> had, in the temporary \<open>t\<close>, all other memory unchanged.\<close>

definition pushed_str :: "vm \<Rightarrow> vm \<Rightarrow> nat \<Rightarrow> u8 list \<Rightarrow> bool" where
  "pushed_str s s' t xs \<longleftrightarrow> sp s' = sp s + 1 \<and> v_s (stack s' (sp s')) = t \<and> stack_types s' (sp s') = T_STR \<and>
     str_at s' t xs \<and> (\<forall>c. c < t \<or> t + STRINGSIZE \<le> c \<longrightarrow> rd_byte s' c = rd_byte s c)"

lemma rd_byte_upd [simp]:
  "rd_byte (s\<lparr>sp := k\<rparr>) = rd_byte s" "rd_byte (s\<lparr>str_temp_idx := i\<rparr>) = rd_byte s" "rd_byte (s\<lparr>stack := st\<rparr>) = rd_byte s"
  "rd_byte (s\<lparr>stack_types := ty\<rparr>) = rd_byte s"
  by (simp_all add: fun_eq_iff rd_byte_def in_heap_def)

lemma mstr_same: "rd_byte s' = rd_byte s \<Longrightarrow> str_at s' a xs = str_at s a xs"
  by (simp add: vmem.mstr_Some)

lemma temp_writable: "next_temp s \<le> a \<Longrightarrow> a + n \<le> next_temp s + STRINGSIZE \<Longrightarrow> vmem.writable u a n"
proof -
  assume a: "next_temp s \<le> a" "a + n \<le> next_temp s + STRINGSIZE"
  have "in_temp (a + i)" if "i < n" for i
    using a that mod_less_divisor [of 4 "str_temp_idx s"] by (simp add: in_temp_def next_temp_def STRINGSIZE_def)
  then show ?thesis by (auto simp: vmem.writable_def wr_byte_None)
qed

lemma next_temp_bound: "next_temp s < 2 ^ 32"
  using mod_less_divisor [of 4 "str_temp_idx s"] by (simp add: next_temp_def address_map STRINGSIZE_def)

lemma wr_bytes_still: "wr_bytes wr_byte s a bs = Some s' \<Longrightarrow> still s s'"
  by (induction bs arbitrary: s a) (auto split: option.splits intro: still_trans wr_byte_still)

definition own_block :: "nat \<Rightarrow> bool" where
  "own_block t \<longleftrightarrow> t < 2 ^ 32 \<and> (\<forall>u a n. t \<le> a \<and> a + n \<le> t + STRINGSIZE \<longrightarrow> vmem.writable u a n)"

lemma own_next_temp [simp]: "own_block (next_temp s)"
  using next_temp_bound temp_writable by (auto simp: own_block_def)

lemma mstr_upd [simp]:
  "mstr rd_byte (s\<lparr>sp := k\<rparr>) = mstr rd_byte s" "mstr rd_byte (s\<lparr>str_temp_idx := i\<rparr>) = mstr rd_byte s"
  "mstr rd_byte (s\<lparr>stack := st\<rparr>) = mstr rd_byte s" "mstr rd_byte (s\<lparr>stack_types := ty\<rparr>) = mstr rd_byte s"
proof -
  have c: "mstr rd_byte s' = mstr rd_byte s" if "rd_byte s' = rd_byte s" for s'
  proof
    fix a
    have "str_at s' a xs = str_at s a xs" for xs using mstr_same [OF that] .
    then show "mstr rd_byte s' a = mstr rd_byte s a" by (metis option.exhaust)
  qed
  show "mstr rd_byte (s\<lparr>sp := k\<rparr>) = mstr rd_byte s" "mstr rd_byte (s\<lparr>str_temp_idx := i\<rparr>) = mstr rd_byte s"
    "mstr rd_byte (s\<lparr>stack := st\<rparr>) = mstr rd_byte s" "mstr rd_byte (s\<lparr>stack_types := ty\<rparr>) = mstr rd_byte s"
    by (rule c, simp)+
qed

lemma PUSH_S_pushed:
  assumes "still s u" "str_at u t xs" "\<forall>c. c < t \<or> t + STRINGSIZE \<le> c \<longrightarrow> rd_byte u c = rd_byte s c" "own_block t"
    "-1 \<le> sp s" "sp s < VM_STACK_SIZE - 1"
  shows "\<exists>s'. PUSH_S t u = Ok s' \<and> pushed_str s s' t xs"
proof -
  have sp: "sp u = sp s" "t < 2 ^ 32" using assms(1,4) by (simp_all add: still_def own_block_def)
  let ?u = "u\<lparr>sp := sp s + 1, stack := (stack u)(sp s + 1 := set_s (stack u (sp s + 1)) t),
      stack_types := (stack_types u)(sp s + 1 := T_STR)\<rparr>"
  have "PUSH_S t u = Ok ?u" using sp(1) assms(5,6) by (simp add: PUSH_S_def push_def)
  moreover have "str_at ?u t xs" using assms(2) by simp
  moreover have "\<forall>c. c < t \<or> t + STRINGSIZE \<le> c \<longrightarrow> rd_byte ?u c = rd_byte s c" using assms(3) by simp
  ultimately show ?thesis using sp(2) by (intro exI [of _ ?u]) (simp add: pushed_str_def)
qed

lemma write_str:
  assumes "own_block t" "length xs \<le> 255"
  obtains s1 s2 where "wr_byte s t (of_nat (length xs)) = Some s1" "wr_bytes wr_byte s1 (t + 1) xs = Some s2"
    "still s s2" "str_at s2 t xs" "\<And>c. c < t \<or> t + STRINGSIZE \<le> c \<Longrightarrow> rd_byte s2 c = rd_byte s c"
    "\<And>c. c < t \<or> t + STRINGSIZE \<le> c \<Longrightarrow> rd_byte s1 c = rd_byte s c"
proof -
  have "vmem.writable s t 1" using assms(1) by (simp add: own_block_def STRINGSIZE_def)
  then obtain s1 where s1: "wr_byte s t (of_nat (length xs)) = Some s1"
    using vmem.writable_Suc [of s t 0 "of_nat (length xs)"] by auto
  have "vmem.writable s1 (t + 1) (length xs)" using assms by (simp add: own_block_def STRINGSIZE_def)
  then obtain s2 where s2: "wr_bytes wr_byte s1 (t + 1) xs = Some s2" using vmem.wr_bytes_writable by blast
  have r: "rd_byte s2 c = (if t + 1 \<le> c \<and> c < t + 1 + length xs then Some (xs ! (c - (t + 1)))
      else if c = t then Some (of_nat (length xs)) else rd_byte s c)" for c
    using vmem.wr_bytes_spec [OF s2] rd_byte_wr [OF s1] by simp
  show thesis
    by (rule that [OF s1 s2 still_trans [OF wr_byte_still [OF s1] wr_bytes_still [OF s2]]])
      (use r assms(2) rd_byte_wr [OF s1] in \<open>auto simp: vmem.mstr_Some STRINGSIZE_def\<close>)
qed

lemma put_slice_spec:
  assumes "own_block t" "rd_bytes rd_byte s src n = Some xs" "n \<le> 255" "src + n \<le> t \<or> t + STRINGSIZE \<le> src"
    "-1 \<le> sp s" "sp s < VM_STACK_SIZE - 1"
  shows "\<exists>s'. put_slice t src n s = Ok s' \<and> pushed_str s s' t xs"
proof -
  have n: "length xs = n" using assms(2) by (simp add: vmem.rd_bytes_Some)
  obtain s1 s2 where w: "wr_byte s t (of_nat n) = Some s1" "wr_bytes wr_byte s1 (t + 1) xs = Some s2"
    "still s s2" "str_at s2 t xs" "\<And>c. c < t \<or> t + STRINGSIZE \<le> c \<Longrightarrow> rd_byte s2 c = rd_byte s c"
    "\<And>c. c < t \<or> t + STRINGSIZE \<le> c \<Longrightarrow> rd_byte s1 c = rd_byte s c"
    using write_str [OF assms(1), of xs s] assms(3) n by auto
  have "rd_bytes rd_byte s1 src n = Some xs"
    using assms(2,4) w(6) vmem.rd_bytes_cong [of src n s1 s] by (metis less_le_trans not_le)
  then have "(if n > 0 then memcpy s1 (t + 1) src n else Ok s1) = Ok s2"
    using w(2) assms(3,4) by (auto simp: memcpy_def STRINGSIZE_def)
  then have "put_slice t src n s = PUSH_S t s2" using w(1) by (simp add: put_slice_def wr_def)
  then show ?thesis using PUSH_S_pushed [OF w(3,4) _ assms(1,5,6)] w(5) by simp
qed

lemma put_bytes_spec:
  assumes "own_block t" "length xs \<le> 255" "-1 \<le> sp s" "sp s < VM_STACK_SIZE - 1"
  shows "\<exists>s'. put_bytes t xs s = Ok s' \<and> pushed_str s s' t xs"
proof -
  obtain s1 s2 where w: "wr_byte s t (of_nat (length xs)) = Some s1" "wr_bytes wr_byte s1 (t + 1) xs = Some s2"
    "still s s2" "str_at s2 t xs" "\<And>c. c < t \<or> t + STRINGSIZE \<le> c \<Longrightarrow> rd_byte s2 c = rd_byte s c"
    using write_str [OF assms(1,2), of s] by metis
  have "put_bytes t xs s = PUSH_S t s2" using w(1,2) by (simp add: put_bytes_def wr_def)
  then show ?thesis using PUSH_S_pushed [OF w(3,4) _ assms(1,3,4)] w(5) by simp
qed
section \<open>Slices\<close>

lemma slice_bytes:
  assumes "str_at s a xs" "k + n \<le> length xs"
  shows "rd_bytes rd_byte s (a + 1 + k) n = Some (take n (drop k xs))"
proof -
  have "\<forall>i<length xs. rd_byte s (a + 1 + i) = Some (xs ! i)" using assms(1) by (simp add: vmem.mstr_Some)
  then have "rd_byte s (a + 1 + k + i) = Some (xs ! (k + i))" if "i < n" for i
    using assms(2) that by (metis add.assoc add_less_cancel_left less_le_trans)
  then show ?thesis using assms(2) by (simp add: vmem.rd_bytes_Some)
qed

lemma str_at_pos: "str_at s a xs \<Longrightarrow> a \<noteq> 0"
proof
  assume "str_at s a xs" "a = 0"
  moreover have "rd_byte s 0 = None" by (simp add: rd_byte_def address_map in_temp_def in_heap_def)
  ultimately show False by (simp add: vmem.mstr_Some)
qed

lemma str_len_at: "str_at s a xs \<Longrightarrow> str_len s a = Ok (length xs)"
  using str_at_pos [of s a xs] vmem.mstr_length [of s a xs]
  by (auto simp: str_len_def rd_def vmem.mstr_Some unat_of_nat)

lemma slice_spec:
  assumes "str_at s a xs" "clear_of s a (length xs)" "k + n \<le> length xs" "-1 \<le> sp u" "sp u < VM_STACK_SIZE - 1"
    "rd_byte u = rd_byte s"
  shows "\<exists>s'. put_slice (next_temp s) (a + 1 + k) n u = Ok s' \<and> pushed_str u s' (next_temp s) (take n (drop k xs))"
proof (rule put_slice_spec)
  show "rd_bytes rd_byte u (a + 1 + k) n = Some (take n (drop k xs))"
    using slice_bytes [of u a xs k n] assms(1,3,6) mstr_same [OF assms(6)] by simp
  show "n \<le> 255" using vmem.mstr_length [OF assms(1)] assms(3) by simp
  show "a + 1 + k + n \<le> next_temp s \<or> next_temp s + STRINGSIZE \<le> a + 1 + k"
    using assms(2,3) by (auto simp: clear_of_def)
qed (use assms in simp_all)

definition after_args :: "nat \<Rightarrow> vm \<Rightarrow> vm" where
  "after_args k s = s\<lparr>sp := sp s - int k, str_temp_idx := (str_temp_idx s mod 4 + 1) mod 4\<rparr>"

lemma after_args_simps [simp]:
  "rd_byte (after_args k s) = rd_byte s" "sp (after_args k s) = sp s - int k" "mstr rd_byte (after_args k s) = mstr rd_byte s"
  by (simp_all add: after_args_def)

lemma get_temp_after:
  "vm_get_str_temp (s\<lparr>sp := sp s - int k\<rparr>) = (after_args k s, next_temp s)"
  by (simp add: vm_get_str_temp_def after_args_def next_temp_def Let_def)

lemma left_right_exact:
  assumes "1 \<le> sp s" "sp s < VM_STACK_SIZE" "str_at s (v_s (stack s (sp s - 1))) xs"
    "clear_of s (v_s (stack s (sp s - 1))) (length xs)"
  shows "\<exists>s'. op_str_left s = Ok s' \<and>
      pushed_str (after_args 2 s) s' (next_temp s) (take (nat (sint (stack s (sp s)))) xs)"
    and "\<exists>s'. op_str_right s = Ok s' \<and>
      pushed_str (after_args 2 s) s' (next_temp s) (drop (length xs - nat (sint (stack s (sp s)))) xs)"
proof -
  let ?a = "v_s (stack s (sp s - 1))" and ?n = "stack s (sp s)"
  have t: "vm_get_str_temp (s\<lparr>sp := sp s - 2\<rparr>) = (after_args 2 s, next_temp s)" using get_temp_after [of s 2] by simp
  have l: "str_len (after_args 2 s) ?a = Ok (length xs)" using assms(3) by (simp add: str_len_at)
  have c: "clamp_len ?n (length xs) \<le> length xs" "take (clamp_len ?n (length xs)) xs = take (nat (sint ?n)) xs"
    "length xs - clamp_len ?n (length xs) = length xs - nat (sint ?n)"
    by (auto simp: clamp_len_def)
  have left: "op_str_left s = put_slice (next_temp s) (?a + 1 + 0) (clamp_len ?n (length xs)) (after_args 2 s)"
    using assms(1,2) t l by (simp add: op_str_left_def POP_def POP_S_def)
  show "\<exists>s'. op_str_left s = Ok s' \<and> pushed_str (after_args 2 s) s' (next_temp s) (take (nat (sint ?n)) xs)"
    using slice_spec [OF assms(3,4), of 0 "clamp_len ?n (length xs)" "after_args 2 s"] c assms(1,2) unfolding left by simp
  have right: "op_str_right s = put_slice (next_temp s) (?a + 1 + (length xs - clamp_len ?n (length xs))) (clamp_len ?n (length xs)) (after_args 2 s)"
  proof -
    have "?a + 1 + length xs - clamp_len ?n (length xs) = ?a + 1 + (length xs - clamp_len ?n (length xs))" using c(1) by simp
    then show ?thesis using assms(1,2) t l by (simp add: op_str_right_def POP_def POP_S_def)
  qed
  show "\<exists>s'. op_str_right s = Ok s' \<and> pushed_str (after_args 2 s) s' (next_temp s) (drop (length xs - nat (sint ?n)) xs)"
    using slice_spec [OF assms(3,4), of "length xs - clamp_len ?n (length xs)" "clamp_len ?n (length xs)" "after_args 2 s"] c assms(1,2)
    unfolding right by simp
qed

section \<open>Concatenation\<close>

lemma wr_bytes_append:
  "wr_bytes wr_byte s a (xs @ ys) = (case wr_bytes wr_byte s a xs of None \<Rightarrow> None | Some s1 \<Rightarrow> wr_bytes wr_byte s1 (a + length xs) ys)"
  by (induction xs arbitrary: s a) (auto split: option.splits)

lemma memcpy_slice:
  assumes "rd_bytes rd_byte s src (length xs) = Some xs" "src + length xs \<le> dst \<or> dst + length xs \<le> src"
  shows "(if 0 < length xs then memcpy s dst src (length xs) else Ok s) = of_opt (wr_bytes wr_byte s dst xs)"
  using assms by (auto simp: memcpy_def)

section \<open>INSTR\<close>

definition occurs_at :: "u8 list \<Rightarrow> u8 list \<Rightarrow> nat \<Rightarrow> bool" where
  "occurs_at hs nb k \<longleftrightarrow> take (length nb) (drop k hs) = nb"

text \<open>The position, counted from 1, of the first occurrence at \<open>k\<close> or later; 0 if there is none.\<close>

definition first_at :: "u8 list \<Rightarrow> u8 list \<Rightarrow> nat \<Rightarrow> nat" where
  "first_at hs nb k = (case find (occurs_at hs nb) [k..<length hs] of None \<Rightarrow> 0 | Some p \<Rightarrow> p + 1)"

lemma instr_search_find:
  assumes "str_at s hay hs" "k + left + length nb \<le> length hs + 1"
  shows "instr_search s hay nb k left = Ok (case find (occurs_at hs nb) [k..<k + left] of None \<Rightarrow> 0 | Some p \<Rightarrow> p + 1)"
  using assms(2)
proof (induction left arbitrary: k)
  case 0
  then show ?case by simp
next
  case (Suc left)
  have r: "rd_bytes rd_byte s (hay + 1 + k) (length nb) = Some (take (length nb) (drop k hs))"
    by (rule slice_bytes [OF assms(1)]) (use Suc.prems in simp)
  have "[k..<k + Suc left] = k # [k + 1..<k + 1 + left]" by (simp add: upt_conv_Cons)
  then show ?case using Suc.IH [of "k + 1"] Suc.prems r by (simp add: occurs_at_def del: upt_Suc)
qed

lemma find_none: "(\<And>x. x \<in> set xs \<Longrightarrow> \<not> P x) \<Longrightarrow> find P xs = None"
  by (simp add: find_None_iff)

lemma find_append: "find P (xs @ ys) = (case find P xs of None \<Rightarrow> find P ys | Some x \<Rightarrow> Some x)"
  by (induction xs) auto

lemma first_at_bound:
  assumes "nb \<noteq> []" "left = length hs + 1 - length nb - k"
  shows "find (occurs_at hs nb) [k..<k + left] = find (occurs_at hs nb) [k..<length hs]"
proof (cases "k \<le> length hs")
  case False
  then show ?thesis using assms by simp
next
  case True
  have no: "\<not> occurs_at hs nb p" if "k + left \<le> p" "p < length hs" for p
    using that assms arg_cong [of "take (length nb) (drop p hs)" nb length] by (auto simp: occurs_at_def)
  have "k + left \<le> length hs" using True assms by (cases "length nb") auto
  then have "[k..<length hs] = [k..<k + left] @ [k + left..<length hs]"
    by (metis le_add1 upt_add_eq_append le_add_diff_inverse)
  moreover have "find (occurs_at hs nb) [k + left..<length hs] = None" by (rule find_none) (use no in auto)
  ultimately show ?thesis by (simp add: find_append split: option.splits)
qed

lemma instr_start_exact: "sint n \<le> 2 ^ 31 \<Longrightarrow> instr_start n = int (nat (sint n - 1))"
proof (cases "sint n < 1")
  case True
  then show ?thesis by (simp add: instr_start_def)
next
  case False
  assume n: "sint n \<le> 2 ^ 31"
  have "sint (n - 1) = sint n - 1" using False sint_less [of n] by (simp add: sint_word_ariths signed_take_bit_int_eq_self)
  then have u: "uint (n - 1) = sint n - 1" using False sint_less [of n] by (simp add: uint_sint take_bit_int_eq_self)
  have "sint (ucast (n - 1) :: u32) = signed_take_bit 31 (uint (n - 1))"
    by (simp add: sint_uint unsigned_ucast_eq signed_take_bit_take_bit)
  also have "\<dots> = sint n - 1" unfolding u using False n by (intro signed_take_bit_int_eq_self) simp_all
  finally show ?thesis using False by (simp add: instr_start_def)
qed

text \<open>
  C38: \<open>INSTR(start, hay$, needle$)\<close> is the position of the first occurrence at or after \<open>start\<close>, 0 when
  there is none or an operand is empty, for every start up to \<open>2 ^ 31\<close>.
\<close>

theorem instr_first:
  assumes "2 \<le> sp s" "sp s < VM_STACK_SIZE" "str_at s (v_s (stack s (sp s - 1))) hs" "str_at s (v_s (stack s (sp s))) nb"
    "sint (stack s (sp s - 2)) \<le> 2 ^ 31"
  shows "\<exists>s'. op_str_instr 3 s = Ok s' \<and> sp s' = sp s - 2 \<and> stack_types s' (sp s') = T_INT \<and>
     stack s' (sp s') = of_nat (if nb = [] then 0 else first_at hs nb (nat (sint (stack s (sp s - 2)) - 1)))"
proof -
  let ?u = "s\<lparr>sp := sp s - 3\<rparr>" and ?k = "nat (sint (stack s (sp s - 2)) - 1)"
  let ?hay = "v_s (stack s (sp s - 1))" and ?needle = "v_s (stack s (sp s))"
  let ?f = "if nb = [] then 0 else first_at hs nb ?k"
  have st: "instr_start (stack s (sp s - 2)) = int ?k" by (rule instr_start_exact [OF assms(5)])
  have l: "str_len ?u ?hay = Ok (length hs)" "str_len ?u ?needle = Ok (length nb)" using assms(3,4) by (simp_all add: str_len_at)
  have rn: "rd_bytes rd_byte ?u (?needle + 1) (length nb) = Some nb" using slice_bytes [of ?u ?needle nb 0 "length nb"] assms(4) by simp
  have op: "op_str_instr 3 s = (if length hs = 0 \<or> length nb = 0 then PUSH_I 0 ?u
      else bindO (instr_search ?u ?hay nb ?k (nat (int (length hs) - int (length nb) - int ?k + 1))) (\<lambda>f. PUSH_I (of_nat f) ?u))"
    using assms(1,2) st l rn by (simp add: op_str_instr_def POP_def POP_S_def)
  have "op_str_instr 3 s = PUSH_I (of_nat ?f) ?u"
  proof (cases "length hs = 0 \<or> length nb = 0")
    case True
    then have "?f = 0" by (auto simp: first_at_def)
    then show ?thesis using op True by simp
  next
    case False
    let ?left = "length hs + 1 - length nb - ?k"
    have n: "nat (int (length hs) - int (length nb) - int ?k + 1) = ?left" by linarith
    have "instr_search ?u ?hay nb ?k ?left = Ok (first_at hs nb ?k)"
    proof (cases "?k + ?left + length nb \<le> length hs + 1")
      case True
      have "instr_search ?u ?hay nb ?k ?left = Ok (case find (occurs_at hs nb) [?k..<?k + ?left] of None \<Rightarrow> 0 | Some p \<Rightarrow> p + 1)"
        by (rule instr_search_find [OF _ True]) (use assms(3) in simp)
      also have "find (occurs_at hs nb) [?k..<?k + ?left] = find (occurs_at hs nb) [?k..<length hs]"
        by (rule first_at_bound) (use False in auto)
      finally show ?thesis by (simp only: first_at_def)
    next
      case F: False
      then have "?left = 0" by simp
      moreover have "find (occurs_at hs nb) [?k..<?k + ?left] = find (occurs_at hs nb) [?k..<length hs]"
        by (rule first_at_bound) (use False in auto)
      ultimately show ?thesis by (simp add: first_at_def)
    qed
    then show ?thesis using False unfolding op n by simp
  qed
  then show ?thesis using assms(1,2) by (simp add: PUSH_I_def push_def)
qed

text \<open>
  C39: a larger start is cut to 32 bits. \<open>INSTR(2147483649, a$, b$)\<close> on two non-empty strings starts
  comparing two gigabytes before the string.
\<close>

theorem instr_wild_start:
  assumes "2 \<le> sp s" "sp s < VM_STACK_SIZE" "str_at s (v_s (stack s (sp s - 1))) hs" "str_at s (v_s (stack s (sp s))) nb"
    "stack s (sp s - 2) = 0x80000001" "hs \<noteq> []" "nb \<noteq> []"
  shows "op_str_instr 3 s = Fault"
proof -
  let ?u = "s\<lparr>sp := sp s - 3\<rparr>"
  have st: "instr_start 0x80000001 = - (2 ^ 31)" by code_simp
  have l: "str_len ?u (v_s (stack s (sp s - 1))) = Ok (length hs)" "str_len ?u (v_s (stack s (sp s))) = Ok (length nb)"
    using assms(3,4) by (simp_all add: str_len_at)
  have rn: "rd_bytes rd_byte ?u (v_s (stack s (sp s)) + 1) (length nb) = Some nb"
    using slice_bytes [of ?u "v_s (stack s (sp s))" nb 0 "length nb"] assms(4) by simp
  show ?thesis using assms(1,2,5,6,7) st l rn by (simp add: op_str_instr_def POP_def POP_S_def)
qed
section \<open>A machine with two strings\<close>

text \<open>"hello" in the second string temporary, at \<open>0x1100\<close>, and "lo" in the third, at \<open>0x1200\<close>.\<close>

definition text_vm :: "u64 \<Rightarrow> u64 \<Rightarrow> u64 \<Rightarrow> vm" where
  "text_vm a b c = blank_vm\<lparr>str_temp := (\<lambda>_. 0)(256 := 5, 257 := 0x68, 258 := 0x65, 259 := 0x6C, 260 := 0x6C, 261 := 0x6F,
       512 := 2, 513 := 0x6C, 514 := 0x6F),
     stack := (\<lambda>_. 0)(0 := a, 1 := b, 2 := c), sp := 2\<rparr>"

lemma text_vm_fields [simp]:
  "sp (text_vm a b c) = 2" "stack (text_vm a b c) 0 = a" "stack (text_vm a b c) 1 = b" "stack (text_vm a b c) 2 = c"
  "next_temp (text_vm a b c) = 0x1000"
  by (simp_all add: text_vm_def next_temp_def blank_vm_def TEMP_BASE_def)

lemma text_vm_temp: "0x1000 \<le> i \<Longrightarrow> i < 0x1400 \<Longrightarrow> rd_byte (text_vm a b c) i = Some (str_temp (text_vm a b c) (i - 0x1000))"
  by (simp add: rd_byte_def address_map in_temp_def STRINGSIZE_def)

lemma text_vm_strings:
  "str_at (text_vm a b c) 0x1100 [0x68, 0x65, 0x6C, 0x6C, 0x6F]" "str_at (text_vm a b c) 0x1200 [0x6C, 0x6F]"
proof -
  have "rd_byte (text_vm a b c) (0x1100 + 1 + i) = Some ([0x68, 0x65, 0x6C, 0x6C, 0x6F] ! i)" if "i < 5" for i
  proof -
    have "i \<in> {0, 1, 2, 3, 4}" using that by auto
    then show ?thesis by (auto simp: text_vm_temp) (simp_all add: text_vm_def)
  qed
  then show "str_at (text_vm a b c) 0x1100 [0x68, 0x65, 0x6C, 0x6C, 0x6F]"
    by (simp add: vmem.mstr_Some text_vm_temp) (simp add: text_vm_def)
  have "rd_byte (text_vm a b c) (0x1200 + 1 + i) = Some ([0x6C, 0x6F] ! i)" if "i < 2" for i
  proof -
    have "i \<in> {0, 1}" using that by auto
    then show ?thesis by (auto simp: text_vm_temp) (simp_all add: text_vm_def)
  qed
  then show "str_at (text_vm a b c) 0x1200 [0x6C, 0x6F]"
    by (simp add: vmem.mstr_Some text_vm_temp) (simp add: text_vm_def)
qed

lemma text_ptrs [simp]: "v_s 0x1100 = 0x1100" "v_s 0x1200 = 0x1200"
  by (simp_all add: v_s_def)



theorem instr_first_witness:
  "\<exists>s'. op_str_instr 3 (text_vm 2 0x1100 0x1200) = Ok s' \<and> stack s' 0 = 4"
  using instr_first [of "text_vm 2 0x1100 0x1200" "[0x68, 0x65, 0x6C, 0x6C, 0x6F]" "[0x6C, 0x6F]"] text_vm_strings
  by (auto simp: limits first_at_def occurs_at_def upt_rec)

theorem instr_wild_start_witness: "op_str_instr 3 (text_vm 0x80000001 0x1100 0x1200) = Fault"
  by (rule instr_wild_start [where hs = "[0x68, 0x65, 0x6C, 0x6C, 0x6F]" and nb = "[0x6C, 0x6F]"])
    (use text_vm_strings in \<open>simp_all add: limits\<close>)

section \<open>The ring of temporaries\<close>

lemma push_str_spec:
  assumes "op_push_str k s = Ok s'" "compiler_ok (compiler s)"
  shows "str_at s' (next_temp s) (const_bytes (compiler s) (unat k)) \<and>
    (\<forall>c. c < next_temp s \<or> next_temp s + STRINGSIZE \<le> c \<longrightarrow> rd_byte s' c = rd_byte s c) \<and>
    str_temp_idx s' = (str_temp_idx s mod 4 + 1) mod 4 \<and> compiler s' = compiler s \<and>
    v_s (stack s' (sp s')) = next_temp s"
proof -
  let ?bs = "const_bytes (compiler s) (unat k)" and ?u = "after_args 0 s"
  have k: "unat k < length (constants (compiler s))" using assms(1) by (auto simp: op_push_str_def split: if_splits)
  then have "const_ok (const_pool (compiler s)) (constants (compiler s) ! unat k)" using assms(2) by (simp add: compiler_ok_def)
  then have l: "length ?bs = unat (const_len (constants (compiler s) ! unat k))" "length ?bs \<le> 255"
    by (auto simp: const_ok_def const_bytes_def limits)
  have t: "vm_get_str_temp s = (?u, next_temp s)" using get_temp_after [of s 0] by simp
  have n: "ucast (const_len (constants (compiler s) ! unat k)) = (of_nat (length ?bs) :: u8)"
    by (simp add: l(1) unsigned_ucast_eq)
  have e: "op_push_str k s = bindO (wr ?u (next_temp s) (of_nat (length ?bs))) (\<lambda>s2.
      bindO (of_opt (wr_bytes wr_byte s2 (next_temp s + 1) ?bs)) (PUSH_S (next_temp s)))"
    using k by (simp add: op_push_str_def t n Let_def)
  obtain s1 s2 where w: "wr_byte ?u (next_temp s) (of_nat (length ?bs)) = Some s1" "wr_bytes wr_byte s1 (next_temp s + 1) ?bs = Some s2"
    "still ?u s2" "str_at s2 (next_temp s) ?bs" "\<And>c. c < next_temp s \<or> next_temp s + STRINGSIZE \<le> c \<Longrightarrow> rd_byte s2 c = rd_byte ?u c"
    using write_str [OF own_next_temp l(2), of ?u s] by metis
  have p: "PUSH_S (next_temp s) s2 = Ok s'" using assms(1) e w(1,2) by (simp add: wr_def)
  then have sp: "-1 \<le> sp ?u" "sp ?u < VM_STACK_SIZE - 1" using w(3) by (auto simp: PUSH_S_def push_def still_def split: if_splits)
  have "pushed_str ?u s' (next_temp s) ?bs"
    using PUSH_S_pushed [OF w(3,4) _ own_next_temp sp] w(5) p by auto
  moreover have "compiler s' = compiler s2 \<and> str_temp_idx s' = str_temp_idx s2" using p by (auto simp: PUSH_S_def push_def split: if_splits)
  moreover have "compiler s2 = compiler ?u" "str_temp_idx s2 = str_temp_idx ?u" using w(3) by (simp_all add: still_def same_ctl_def)
  ultimately show ?thesis unfolding pushed_str_def by (auto simp: after_args_def)
qed

text \<open>
  C40: a string literal stays intact while three more are pushed after it, and the fourth overwrites
  it: the temporaries are a ring of four, without a check that an operand still lives in the next one.
\<close>

theorem literal_lifetime:
  assumes "compiler_ok (compiler s0)" "op_push_str k0 s0 = Ok s1" "op_push_str k1 s1 = Ok s2" "op_push_str k2 s2 = Ok s3"
    "op_push_str k3 s3 = Ok s4" "op_push_str k4 s4 = Ok s5"
  shows "str_at s4 (v_s (stack s1 (sp s1))) (const_bytes (compiler s0) (unat k0)) \<and>
    str_at s5 (v_s (stack s1 (sp s1))) (const_bytes (compiler s0) (unat k4))"
proof -
  note p0 = push_str_spec [OF assms(2,1)]
  note p1 = push_str_spec [OF assms(3)] note p2 = push_str_spec [OF assms(4)]
  note p3 = push_str_spec [OF assms(5)] note p4 = push_str_spec [OF assms(6)]
  define i where "i = str_temp_idx s0 mod 4"
  have i: "i < 4" by (simp add: i_def)
  have c: "compiler s1 = compiler s0" "compiler s2 = compiler s0" "compiler s3 = compiler s0" "compiler s4 = compiler s0"
    using p0 p1 p2 p3 assms(1) by simp_all
  note q1 = p1 [unfolded c, OF assms(1)] and q2 = p2 [unfolded c, OF assms(1)]
    and q3 = p3 [unfolded c, OF assms(1)] and q4 = p4 [unfolded c, OF assms(1)]
  have idx: "str_temp_idx s1 = (i + 1) mod 4" "str_temp_idx s2 = (i + 2) mod 4" "str_temp_idx s3 = (i + 3) mod 4" "str_temp_idx s4 = i"
    using p0 q1 q2 q3 i by (simp_all add: i_def mod_simps add.commute)
  have t: "next_temp s0 = TEMP_BASE + 256 * i" "next_temp s1 = TEMP_BASE + 256 * ((i + 1) mod 4)"
    "next_temp s2 = TEMP_BASE + 256 * ((i + 2) mod 4)" "next_temp s3 = TEMP_BASE + 256 * ((i + 3) mod 4)" "next_temp s4 = TEMP_BASE + 256 * i"
  proof -
    show "next_temp s0 = TEMP_BASE + 256 * i" by (simp add: next_temp_def STRINGSIZE_def i_def)
    show "next_temp s1 = TEMP_BASE + 256 * ((i + 1) mod 4)" "next_temp s2 = TEMP_BASE + 256 * ((i + 2) mod 4)"
      "next_temp s3 = TEMP_BASE + 256 * ((i + 3) mod 4)" "next_temp s4 = TEMP_BASE + 256 * i"
      unfolding next_temp_def idx STRINGSIZE_def using i by simp_all
  qed
  let ?a = "next_temp s0" and ?xs = "const_bytes (compiler s0) (unat k0)"
  have apart: "?a + 255 < next_temp s1 \<or> next_temp s1 + 256 \<le> ?a" "?a + 255 < next_temp s2 \<or> next_temp s2 + 256 \<le> ?a"
    "?a + 255 < next_temp s3 \<or> next_temp s3 + 256 \<le> ?a"
  proof -
    consider "i = 0" | "i = 1" | "i = 2" | "i = 3" using i by linarith
    then show "?a + 255 < next_temp s1 \<or> next_temp s1 + 256 \<le> ?a" "?a + 255 < next_temp s2 \<or> next_temp s2 + 256 \<le> ?a"
      "?a + 255 < next_temp s3 \<or> next_temp s3 + 256 \<le> ?a"
      unfolding t by (cases; simp)+
  qed
  have a: "str_at s1 ?a ?xs" using p0 by simp
  have len: "length ?xs \<le> 255" using vmem.mstr_length [OF a] by simp
  have keep: "str_at u' ?a ?xs" if "str_at u ?a ?xs" "?a + 255 < n \<or> n + 256 \<le> ?a"
    "\<forall>c. c < n \<or> n + STRINGSIZE \<le> c \<longrightarrow> rd_byte u' c = rd_byte u c" for u u' n
    by (rule vmem.mstr_cong [OF _ that(1)]) (use that(2,3) len in \<open>auto simp: STRINGSIZE_def\<close>)
  have "str_at s2 ?a ?xs" using keep [OF a apart(1)] q1 by blast
  then have "str_at s3 ?a ?xs" using keep [OF _ apart(2)] q2 by blast
  then have "str_at s4 ?a ?xs" using keep [OF _ apart(3)] q3 by blast
  moreover have "str_at s5 ?a (const_bytes (compiler s0) (unat k4))" using q4 t by simp
  ultimately show ?thesis using p0 by simp
qed
definition two_consts :: BCCompiler where
  "two_consts = empty_compiler\<lparr>constants := [\<lparr>const_off = 0, const_len = 2\<rparr>, \<lparr>const_off = 3, const_len = 2\<rparr>],
     const_pool := [104, 105, 0, 104, 111, 0]\<rparr>"

lemma two_consts_ok: "compiler_ok two_consts"
  using empty_compiler_ok by (simp add: two_consts_def compiler_ok_def const_ok_def limits)

lemma push_str_ok:
  assumes "compiler s = two_consts" "k = 0 \<or> k = 1" "-1 \<le> sp s" "sp s < 10"
  shows "\<exists>s'. op_push_str k s = Ok s' \<and> compiler s' = two_consts \<and> sp s' = sp s + 1"
proof -
  have b: "const_bytes (compiler s) (unat k) = (if k = 0 then [104, 105] else [104, 111])"
    "unat k < length (constants (compiler s))" "const_len (constants (compiler s) ! unat k) = 2"
    using assms(1,2) by (auto simp: two_consts_def const_bytes_def)
  have t: "vm_get_str_temp s = (after_args 0 s, next_temp s)" using get_temp_after [of s 0] by simp
  obtain s1 s2 where w: "wr_byte (after_args 0 s) (next_temp s) 2 = Some s1"
    "wr_bytes wr_byte s1 (next_temp s + 1) (const_bytes (compiler s) (unat k)) = Some s2" "still (after_args 0 s) s2"
  proof -
    have "length (const_bytes (compiler s) (unat k)) = 2" using b(1) by simp
    then have l: "length (const_bytes (compiler s) (unat k)) \<le> 255"
      "of_nat (length (const_bytes (compiler s) (unat k))) = (2 :: u8)" by simp_all
    show thesis by (rule write_str [OF own_next_temp l(1), of "after_args 0 s" s]) (rule that, simp_all only: l(2))
  qed
  have f: "sp s2 = sp s" "compiler s2 = compiler s" using w(3) by (simp_all add: still_def same_ctl_def after_args_def)
  have "op_push_str k s = PUSH_S (next_temp s) s2"
    using w(1,2) b(2,3) t by (simp add: op_push_str_def wr_def Let_def)
  then show ?thesis using f assms(1,3,4) by (simp add: PUSH_S_def push_def limits)
qed

theorem literal_lifetime_witness:
  "\<exists>s1 s2 s3 s4 s5. op_push_str 0 (blank_vm\<lparr>compiler := two_consts\<rparr>) = Ok s1 \<and> op_push_str 1 s1 = Ok s2 \<and> op_push_str 1 s2 = Ok s3 \<and>
     op_push_str 1 s3 = Ok s4 \<and> op_push_str 1 s4 = Ok s5 \<and> str_at s4 (v_s (stack s1 (sp s1))) [104, 105] \<and>
     str_at s5 (v_s (stack s1 (sp s1))) [104, 111]"
proof -
  let ?s = "blank_vm\<lparr>compiler := two_consts\<rparr>"
  obtain s1 where s1: "op_push_str 0 ?s = Ok s1" "compiler s1 = two_consts" "sp s1 = 0"
    using push_str_ok [of ?s 0] by (auto simp: blank_vm_def)
  obtain s2 where s2: "op_push_str 1 s1 = Ok s2" "compiler s2 = two_consts" "sp s2 = 1" using push_str_ok [of s1 1] s1 by auto
  obtain s3 where s3: "op_push_str 1 s2 = Ok s3" "compiler s3 = two_consts" "sp s3 = 2" using push_str_ok [of s2 1] s2 by auto
  obtain s4 where s4: "op_push_str 1 s3 = Ok s4" "compiler s4 = two_consts" "sp s4 = 3" using push_str_ok [of s3 1] s3 by auto
  obtain s5 where s5: "op_push_str 1 s4 = Ok s5" using push_str_ok [of s4 1] s4 by auto
  have c: "compiler_ok (compiler ?s)" "const_bytes (compiler ?s) (unat (0 :: u16)) = [104, 105]"
    "const_bytes (compiler ?s) (unat (1 :: u16)) = [104, 111]"
    using two_consts_ok by (simp_all add: const_bytes_def) (simp_all add: two_consts_def)
  show ?thesis using literal_lifetime [OF c(1) s1(1) s2(1) s3(1) s4(1) s5] c(2,3) s1(1) s2(1) s3(1) s4(1) s5 by metis
qed

end
