(* ===== verification/SrcExpr.thy ===== *)
theory SrcExpr
  imports SrcEmit F64
begin

text \<open>
  The expression compiler of \<open>runtime/vm/bc_source.c\<close>: literals, names, builtin functions, struct
  fields, calls of user functions, and the precedence layers. A parser takes the compiler and the
  rest of the text and gives the type of what it compiled (0 after an error), the compiler and the
  rest. The mutual recursion through \<open>source_parse_expression\<close> is the argument \<open>E\<close>; it is closed by
  \<open>expression_at\<close>, which counts the nesting.
\<close>

type_synonym parsed = "u8 \<times> BCCompiler \<times> cstr"
type_synonym parser = "BCCompiler \<Rightarrow> cstr \<Rightarrow> parsed"

section \<open>What the front end reads besides the text\<close>

text \<open>
  \<open>BCSourceFrontend\<close> with the globals beside it: \<open>g_structtbl\<close> with its length \<open>g_structcnt\<close>; the tokens
  \<open>tokentbl\<close>, \<open>commandtbl\<close> and \<open>tokenAS\<close> of the port; \<open>tokenise(1)\<close> of the interpreter, from the text in \<open>inpbuf\<close>
  to the tokens in \<open>tknbuf\<close>. A name that fills its field of \<open>MAXVARLEN\<close> bytes has no terminator and is not found.
\<close>

record structmember =
  sm_name :: cstr
  sm_type :: u8
  sm_size :: u8
  sm_offset :: int
  sm_dims :: "int list"

record structdef =
  sd_name :: cstr
  sd_members :: "structmember list"
  sd_total_size :: int

record frontend =
  opt_level :: int
  escape_active :: bool
  ctrlval_numeric_hint :: bool
  structtbl :: "structdef option list"
  tokentbl :: "(cstr \<times> u8) list"
  commandtbl :: "cstr list"
  tokenise :: "cstr \<Rightarrow> u8 list"
  tokenAS :: u8
  option_base :: int
  line_no :: int
  fast_next_loop :: bool
  asm_active :: bool
  asm_lines :: "(cstr \<times> int) list"
  asm_start_line :: int
  in_type_block :: bool
  struct_def_inprogress :: "structdef option"
  in_struct_fn :: bool
  uses_struct_file_io :: bool
  uses_struct_extract_insert :: bool

definition T_STRUCT :: u8 where "T_STRUCT = 0x80"
definition T_FUN :: u8 where "T_FUN = 0x40"
definition T_FNA :: u8 where "T_FNA = 0x80"
definition T_LINENBR :: u8 where "T_LINENBR = 2"
definition MAX_STRUCT_NEST_DEPTH :: nat where "MAX_STRUCT_NEST_DEPTH = 8"
definition CHAIN_MAX_NESTED :: nat where "CHAIN_MAX_NESTED = 8"

definition struct_at :: "frontend \<Rightarrow> int \<Rightarrow> structdef option" where
  "struct_at fe i = (if i < 0 \<or> i \<ge> int (length (structtbl fe)) then None else structtbl fe ! nat i)"

definition FindStructMember :: "frontend \<Rightarrow> int \<Rightarrow> cstr \<Rightarrow> structmember option" where
  "FindStructMember fe i name =
     (case struct_at fe i of
        None \<Rightarrow> None
      | Some sd \<Rightarrow>
          let uname = map toupper8 (take MAXVARLEN (takeWhile (\<lambda>c. isnamechar c \<and> c \<noteq> 0x2E \<and> c \<noteq> 0x28) name))
          in find (\<lambda>m. sm_name m = uname \<and> length uname < MAXVARLEN) (sd_members sd))"

section \<open>Small parts\<close>

definition source_get_or_create_subfun :: "BCCompiler \<Rightarrow> cstr \<Rightarrow> u8 \<Rightarrow> BCCompiler \<times> int" where
  "source_get_or_create_subfun cs name return_type =
     (let i = bc_find_subfun cs name in
      if i \<ge> 0 then (cs\<lparr>subfuns := (subfuns cs)[nat i := (subfuns cs ! nat i)\<lparr>sf_return_type := return_type\<rparr>]\<rparr>, i)
      else if length (subfuns cs) \<ge> BC_MAX_SUBFUNS then (bc_set_error cs ''Too many SUB/FUNCTION definitions'', -1)
      else (cs\<lparr>subfuns := subfuns cs @ [\<lparr>sf_name = stored_name MAXVARLEN name, sf_entry_addr = 0, sf_nparams = 0,
                sf_param_types = replicate BC_MAX_PARAMS 0, sf_param_is_array = replicate BC_MAX_PARAMS 0,
                sf_param_is_byval = replicate BC_MAX_PARAMS 0, sf_return_type = return_type, sf_bridged = 0, sf_nlocals = 0\<rparr>]\<rparr>,
            int (length (subfuns cs))))"

definition source_default_var_type :: "BCCompiler \<Rightarrow> cstr \<Rightarrow> u8" where
  "source_default_var_type cs name =
     (let loc = (if current_subfun cs \<ge> 0 then bc_find_local cs name else -1); slot = bc_find_slot cs name in
      if loc \<ge> 0 then loc_type (cs_locals cs ! nat loc)
      else if slot = 0xFFFF then T_NBR else slot_type (slots cs ! unat slot))"

definition hidden_name :: "BCCompiler \<Rightarrow> cstr" where
  "hidden_name cs = bytes_of (''#SRC_'' @ dec_nat (unat (next_hidden_slot cs)))"

definition source_alloc_hidden_slot :: "BCCompiler \<Rightarrow> u8 \<Rightarrow> BCCompiler \<times> u16" where
  "source_alloc_hidden_slot cs ty = bc_add_slot (cs\<lparr>next_hidden_slot := next_hidden_slot cs + 1\<rparr>) (hidden_name cs) ty 0"

definition source_alloc_hidden_local :: "BCCompiler \<Rightarrow> u8 \<Rightarrow> BCCompiler \<times> u16" where
  "source_alloc_hidden_local cs ty =
     (let (cs1, i) = bc_add_local (cs\<lparr>next_hidden_slot := next_hidden_slot cs + 1\<rparr>) (hidden_name cs) ty 0
      in (cs1, if i < 0 then 0 else word_of_int i))"

definition source_emit_syscall_noaux :: "BCCompiler \<Rightarrow> u16 \<Rightarrow> u8 \<Rightarrow> BCCompiler" where
  "source_emit_syscall_noaux cs sysid argc = bc_emit_byte (bc_emit_byte (bc_emit_u16 (bc_emit_byte cs OP_SYSCALL) sysid) argc) 0"

text \<open>The numbers of the system calls that expressions use, counted from 1 in \<open>BCSyscallId\<close>.\<close>

definition BC_SYS_GFX_RGB :: u16 where "BC_SYS_GFX_RGB = 7"
definition BC_SYS_GFX_PIXEL_READ :: u16 where "BC_SYS_GFX_PIXEL_READ = 13"
definition BC_SYS_MM_HRES :: u16 where "BC_SYS_MM_HRES = 21"
definition BC_SYS_MM_VRES :: u16 where "BC_SYS_MM_VRES = 22"
definition BC_SYS_MM_FONTWIDTH :: u16 where "BC_SYS_MM_FONTWIDTH = 23"
definition BC_SYS_MM_FONTHEIGHT :: u16 where "BC_SYS_MM_FONTHEIGHT = 24"
definition BC_SYS_DATE_STR :: u16 where "BC_SYS_DATE_STR = 27"
definition BC_SYS_TIME_STR :: u16 where "BC_SYS_TIME_STR = 28"
definition BC_SYS_KEYDOWN :: u16 where "BC_SYS_KEYDOWN = 29"
definition BC_SYS_PIN_READ :: u16 where "BC_SYS_PIN_READ = 31"

text \<open>The text between matching parentheses: what stands behind the one that closes \<open>depth\<close>, if any does.\<close>

fun close_paren :: "nat \<Rightarrow> cstr \<Rightarrow> cstr option" where
  "close_paren depth [] = None"
| "close_paren depth (c # p) =
     (let d = (if c = 0x28 then depth + 1 else if c = 0x29 then depth - 1 else depth)
      in if d = 0 then Some p else close_paren d p)"

section \<open>Literals\<close>

definition isxdigit8 :: "u8 \<Rightarrow> bool" where
  "isxdigit8 c \<longleftrightarrow> isdigit8 c \<or> 0x41 \<le> toupper8 c \<and> toupper8 c \<le> 0x46"

definition digit_of :: "u8 \<Rightarrow> nat" where
  "digit_of c = (if toupper8 c \<ge> 0x41 then unat (toupper8 c) - 55 else unat c - 48)"

definition num_of :: "nat \<Rightarrow> cstr \<Rightarrow> nat" where
  "num_of base ds = fold (\<lambda>c n. n * base + digit_of c) ds 0"

text \<open>The exponent behind a mantissa: its length and value, 0 and 0 when there is none.\<close>

definition exponent_at :: "u8 \<Rightarrow> cstr \<Rightarrow> nat \<times> int" where
  "exponent_at e p =
     (let q = drop 1 p; sgn = (at q = 0x2B \<or> at q = 0x2D); ds = takeWhile isdigit8 (if sgn then drop 1 q else q) in
      if toupper8 (at p) \<noteq> e \<or> ds = [] then (0, 0)
      else (1 + (if sgn then 1 else 0) + length ds, (if at q = 0x2D then - 1 else 1) * int (num_of 10 ds)))"

text \<open>The mantissa: length (0 if it has no digit), digits as a number, digits behind the point.\<close>

definition mantissa_at :: "nat \<Rightarrow> (u8 \<Rightarrow> bool) \<Rightarrow> cstr \<Rightarrow> nat \<times> nat \<times> nat" where
  "mantissa_at base dig p =
     (let a = takeWhile dig p; r = dropWhile dig p; b = (if at r = 0x2E then takeWhile dig (drop 1 r) else []) in
      if a = [] \<and> b = [] then (0, 0, 0)
      else (length a + (if at r = 0x2E then 1 + length b else 0), num_of base (a @ b), length b))"

definition scaled :: "nat \<Rightarrow> nat \<Rightarrow> int \<Rightarrow> f64" where
  "scaled m base e = (if e \<ge> 0 then f_round False (int m * int base ^ nat e * 2 ^ 1074) 1 else f_round False (int m * 2 ^ 1074) (base ^ nat (- e)))"

text \<open>\<open>strtod\<close> on a text that starts with a digit or a point: the value and how much was read.\<close>

definition strtod_at :: "cstr \<Rightarrow> f64 \<times> nat" where
  "strtod_at p =
     (let (hn, hm, hf) = mantissa_at 16 isxdigit8 (drop 2 p) in
      if at p = 0x30 \<and> toupper8 (at (drop 1 p)) = 0x58 \<and> hn > 0 then
        (let (xn, x) = exponent_at 0x50 (drop (2 + hn) p) in (scaled hm 2 (x - 4 * int hf), 2 + hn + xn))
      else let (n, m, f) = mantissa_at 10 isdigit8 p; (xn, x) = exponent_at 0x45 (drop n p) in
        if n = 0 then (f_zero False, 0) else (scaled m 10 (x - int f), n + xn))"

definition strtoll_at :: "cstr \<Rightarrow> i64" where
  "strtoll_at p = word_of_int (min (2 ^ 63 - 1) (int (num_of 10 (takeWhile isdigit8 p))))"

definition source_parse_number :: parser where
  "source_parse_number cs p =
     (let (v, n) = strtod_at p; t = take n p in
      if n = 0 then (0, bc_set_error cs ''Invalid number'', p)
      else if list_ex (\<lambda>c. c = 0x2E \<or> c = 0x65 \<or> c = 0x45) t then (T_NBR, bc_emit_f64 (bc_emit_byte cs OP_PUSH_FLT) v, drop n p)
      else (T_INT, bc_emit_i64 (bc_emit_byte cs OP_PUSH_INT) (strtoll_at p), drop n p))"

text \<open>\<open>&H\<close>, \<open>&O\<close> and \<open>&B\<close>; \<open>p\<close> is behind the ampersand. Digits beyond 64 bits are shifted out.\<close>

definition radix_digits :: "(u8 \<Rightarrow> bool) \<Rightarrow> nat \<Rightarrow> string \<Rightarrow> parser" where
  "radix_digits dig base msg cs p =
     (let cs1 = (if \<not> dig (at p) then bc_set_error cs msg else cs) in
      (T_INT, bc_emit_i64 (bc_emit_byte cs1 OP_PUSH_INT) (of_nat (num_of base (takeWhile dig p))), dropWhile dig p))"

definition source_parse_radix :: parser where
  "source_parse_radix cs p =
     (let base = toupper8 (at p); q = drop 1 p in
      if base = 0x48 then radix_digits isxdigit8 16 ''Invalid hexadecimal literal'' cs q
      else if base = 0x4F then radix_digits (\<lambda>c. 0x30 \<le> c \<and> c \<le> 0x37) 8 ''Invalid octal literal'' cs q
      else if base = 0x42 then radix_digits (\<lambda>c. c = 0x30 \<or> c = 0x31) 2 ''Invalid binary literal'' cs q
      else (T_INT, bc_emit_i64 (bc_emit_byte (bc_set_error cs ''Invalid number base prefix'') OP_PUSH_INT) 0, q))"

definition escape_char :: "u8 \<Rightarrow> u8" where
  "escape_char c =
     (if c = 0x61 then 7 else if c = 0x62 then 8 else if c = 0x65 then 0x1B else if c = 0x66 then 12
      else if c = 0x6E then 10 else if c = 0x71 then 0x22 else if c = 0x72 then 13 else if c = 0x74 then 9
      else if c = 0x76 then 11 else c)"

fun source_decode_escapes :: "BCCompiler \<Rightarrow> cstr \<Rightarrow> cstr \<Rightarrow> BCCompiler \<times> cstr" where
  "source_decode_escapes cs [] out = (cs, out)"
| "source_decode_escapes cs (c # s) out =
     (if length out \<ge> STRINGSIZE then (cs, out)
      else if c = 0x5C \<and> s \<noteq> [] then
        (if length s \<ge> 3 \<and> isdigit8 (s ! 0) \<and> isdigit8 (s ! 1) \<and> isdigit8 (s ! 2) then
           (if num_of 10 (take 3 s) = 0 then (bc_set_error cs ''Null character in escape sequence - use CHR$(0)'', out)
            else source_decode_escapes cs (drop 3 s) (out @ [of_nat (num_of 10 (take 3 s))]))
         else if hd s = 0x26 then
           (if length s \<ge> 3 \<and> isxdigit8 (s ! 1) \<and> isxdigit8 (s ! 2) then
              (if num_of 16 (take 2 (tl s)) = 0 then (bc_set_error cs ''Null character in escape sequence - use CHR$(0)'', out)
               else source_decode_escapes cs (drop 3 s) (out @ [of_nat (num_of 16 (take 2 (tl s)))]))
            else source_decode_escapes cs (tl s) (out @ [0x78]))
         else source_decode_escapes cs (tl s) (out @ [escape_char (hd s)]))
      else source_decode_escapes cs s (out @ [c]))"

text \<open>A string literal; \<open>p\<close> is behind the opening quote.\<close>

definition source_parse_string :: "frontend \<Rightarrow> parser" where
  "source_parse_string fe cs p =
     (let s = takeWhile (\<lambda>c. c \<noteq> 0x22) p; r = dropWhile (\<lambda>c. c \<noteq> 0x22) p in
      if r = [] then (0, bc_set_error cs ''Unterminated string literal'', r)
      else let (cs1, bytes) = (if escape_active fe then source_decode_escapes cs s [] else (cs, s)) in
        if escape_active fe \<and> has_error cs1 then (0, cs1, r)
        else let (cs2, idx) = bc_add_constant_string cs1 bytes in
          (T_STR, bc_emit_u16 (bc_emit_byte cs2 OP_PUSH_STR) idx, drop 1 r))"

section \<open>Struct members\<close>

text \<open>What \<open>source_walk_struct_tail\<close> finds: the leaf, the indexed segments as (offset, stride), the two offsets.\<close>

record chain =
  leaf_type :: u8
  leaf_size :: u8
  nested :: "(int \<times> int) list"
  scalar_off :: int
  final_off :: int

text \<open>The next member name: from the dotted name while it lasts, then from the text.\<close>

definition next_member :: "cstr \<Rightarrow> cstr \<Rightarrow> cstr \<times> cstr \<times> cstr" where
  "next_member tail p =
     (if tail \<noteq> [] then
        (let t = (if hd tail = 0x2E then tl tail else tail);
             raw = take MAXVARLEN (takeWhile (\<lambda>c. c \<noteq> 0x2E \<and> c \<noteq> 0x28) t);
             name = (if raw \<noteq> [] \<and> is_suffix_char (last raw) then butlast raw else raw)
         in (map toupper8 name, drop (length raw) t, p))
      else
        (let q = source_skip_space p; q1 = source_skip_space (if at q = 0x2E then drop 1 q else q);
             raw = take MAXVARLEN (takeWhile (\<lambda>c. isnamechar c \<and> c \<noteq> 0x2E) q1); q2 = drop (length raw) q1
         in (map toupper8 raw, [], if is_suffix_char (at q2) then drop 1 q2 else q2)))"

definition element_size :: "frontend \<Rightarrow> structmember \<Rightarrow> int option" where
  "element_size fe m =
     (if sm_type m = T_STRUCT then map_option sd_total_size (struct_at fe (uint (sm_size m)))
      else Some (uint (sm_size m) + (if sm_type m = T_STR then 1 else 0)))"

text \<open>The index of a member, \<open>p\<close> at its parenthesis; \<open>None\<close> after an error.\<close>

definition member_index :: "parser \<Rightarrow> BCCompiler \<Rightarrow> cstr \<Rightarrow> BCCompiler \<times> cstr option" where
  "member_index E cs p =
     (let (ty, cs1, p1) = E cs (drop 1 p) in
      if has_error cs1 then (cs1, None)
      else let cs2 = source_emit_int_conversion cs1 ty; p2 = source_skip_space p1 in
        if at p2 \<noteq> 0x29 then (bc_set_error cs2 ''Expected ')' for struct member array index'', None)
        else (cs2, Some (drop 1 p2)))"

fun source_walk_struct_tail ::
    "nat \<Rightarrow> frontend \<Rightarrow> parser \<Rightarrow> int \<Rightarrow> int \<Rightarrow> (int \<times> int) list \<Rightarrow> cstr \<Rightarrow> BCCompiler \<Rightarrow> cstr
       \<Rightarrow> BCCompiler \<times> (chain \<times> cstr) option" where
  "source_walk_struct_tail 0 fe E idx acc segs tail cs p = (bc_set_error cs ''Structure nesting too deep'', None)"
| "source_walk_struct_tail (Suc depth) fe E idx acc segs tail cs p =
     (let (name, tail1, p1) = next_member tail p in
      if name = [] then (bc_set_error cs ''Empty struct member name'', None)
      else case FindStructMember fe idx name of
        None \<Rightarrow> (bc_set_error cs (''Unknown struct member: '' @ cstr_string name), None)
      | Some m \<Rightarrow>
          if at tail1 = 0x28 then (bc_set_error cs ''Index in struct path prefix not supported'', None)
          else
            let indexed = (at (source_skip_space p1) = 0x28 \<and> sm_dims m ! 0 \<noteq> 0);
                go = (\<lambda>acc' segs' cs' p'.
                  let q = source_skip_space p'; dot = (at tail1 \<noteq> 0x2E \<and> at q = 0x2E) in
                  if at tail1 = 0x2E \<or> dot then
                    (if sm_type m \<noteq> T_STRUCT then (bc_set_error cs' ''Not a nested structure'', None)
                     else source_walk_struct_tail depth fe E (uint (sm_size m)) acc' segs' tail1 cs' (if dot then q else p'))
                  else if sm_type m = T_STRUCT then (bc_set_error cs' ''Whole-struct read/write not yet supported'', None)
                  else (cs', Some (\<lparr>leaf_type = sm_type m, leaf_size = sm_size m, nested = segs',
                                    scalar_off = (if segs' = [] then acc' else 0),
                                    final_off = (if segs' = [] then 0 else acc')\<rparr>, p')))
            in if indexed then
                 (if length segs \<ge> CHAIN_MAX_NESTED
                  then (bc_set_error cs (''Too many nested struct indices (max '' @ dec_nat CHAIN_MAX_NESTED @ '')''), None)
                  else if length (takeWhile (\<lambda>d. d \<noteq> 0) (take MAXDIM (sm_dims m))) \<noteq> 1
                  then (bc_set_error cs ''Multi-dim nested struct member array not yet supported'', None)
                  else case member_index E cs (source_skip_space p1) of
                      (cs1, None) \<Rightarrow> (cs1, None)
                    | (cs1, Some p2) \<Rightarrow>
                        (case element_size fe m of
                           None \<Rightarrow> (bc_set_error cs1 ''Invalid nested struct type'', None)
                         | Some sz \<Rightarrow> go 0 (segs @ [(acc + sm_offset m, sz)]) cs1 p2))
               else if sm_dims m ! 0 \<noteq> 0 \<and> sm_type m \<noteq> T_STRUCT
               then (bc_set_error cs ''Array member requires index'', None)
               else go (acc + sm_offset m) segs cs p1)"

definition by_leaf :: "u8 \<Rightarrow> u8 \<Rightarrow> u8 \<Rightarrow> u8 \<Rightarrow> u8" where
  "by_leaf ty i f s = (if ty = T_INT then i else if ty = T_NBR then f else s)"

definition emit_u16s :: "BCCompiler \<Rightarrow> int list \<Rightarrow> BCCompiler" where
  "emit_u16s cs vs = fold (\<lambda>v c. bc_emit_u16 c (word_of_int v)) vs cs"

definition emit_nested :: "BCCompiler \<Rightarrow> u8 \<Rightarrow> u16 \<Rightarrow> nat \<Rightarrow> chain \<Rightarrow> int \<Rightarrow> BCCompiler" where
  "emit_nested cs op slot outer_ndim ch stride =
     (let cs1 = bc_emit_byte (bc_emit_byte (bc_emit_u16 (bc_emit_byte cs op) slot) (of_nat outer_ndim)) (of_nat (length (nested ch)))
      in emit_u16s cs1 (stride # concat (map (\<lambda>(off, st). [off, st]) (nested ch)) @ [final_off ch]))"

definition source_emit_struct_chain_load :: "frontend \<Rightarrow> parser \<Rightarrow> u16 \<Rightarrow> nat \<Rightarrow> cstr \<Rightarrow> parser" where
  "source_emit_struct_chain_load fe E slot outer_ndim tail cs p =
     (case struct_at fe (slot_struct_idx (slots cs ! unat slot)) of
        None \<Rightarrow> (0, bc_set_error cs ''Invalid struct type on slot'', p)
      | Some sd \<Rightarrow>
          (case source_walk_struct_tail MAX_STRUCT_NEST_DEPTH fe E (slot_struct_idx (slots cs ! unat slot)) 0 [] tail cs p of
             (cs1, None) \<Rightarrow> (0, cs1, p)
           | (cs1, Some (ch, p1)) \<Rightarrow>
               let ty = leaf_type ch in
               (ty,
                if nested ch = [] \<and> outer_ndim = 0 then
                  emit_u16s (bc_emit_u16 (bc_emit_byte cs1
                    (by_leaf ty OP_LOAD_STRUCT_FIELD_I OP_LOAD_STRUCT_FIELD_F OP_LOAD_STRUCT_FIELD_S)) slot) [scalar_off ch]
                else if nested ch = [] then
                  bc_emit_byte (emit_u16s (bc_emit_u16 (bc_emit_byte cs1
                    (by_leaf ty OP_LOAD_STRUCT_ELEM_I OP_LOAD_STRUCT_ELEM_F OP_LOAD_STRUCT_ELEM_S)) slot)
                      [scalar_off ch, sd_total_size sd]) (of_nat outer_ndim)
                else emit_nested cs1 (by_leaf ty OP_LOAD_STRUCT_NESTED_I OP_LOAD_STRUCT_NESTED_F OP_LOAD_STRUCT_NESTED_S)
                       slot outer_ndim ch (sd_total_size sd),
                p1)))"

definition source_emit_struct_chain_store_finish :: "frontend \<Rightarrow> BCCompiler \<Rightarrow> u16 \<Rightarrow> nat \<Rightarrow> chain \<Rightarrow> BCCompiler option" where
  "source_emit_struct_chain_store_finish fe cs slot outer_ndim ch =
     (let ty = leaf_type ch;
          sized = (\<lambda>c. if by_leaf ty 0 0 1 = 1 then bc_emit_u16 c (ucast (leaf_size ch)) else c)
      in if nested ch = [] \<and> outer_ndim = 0 then
           Some (sized (emit_u16s (bc_emit_u16 (bc_emit_byte cs
             (by_leaf ty OP_STORE_STRUCT_FIELD_I OP_STORE_STRUCT_FIELD_F OP_STORE_STRUCT_FIELD_S)) slot) [scalar_off ch]))
         else case struct_at fe (slot_struct_idx (slots cs ! unat slot)) of
           None \<Rightarrow> None
         | Some sd \<Rightarrow>
             Some (sized (if nested ch = [] then
               bc_emit_byte (emit_u16s (bc_emit_u16 (bc_emit_byte cs
                 (by_leaf ty OP_STORE_STRUCT_ELEM_I OP_STORE_STRUCT_ELEM_F OP_STORE_STRUCT_ELEM_S)) slot)
                   [scalar_off ch, sd_total_size sd]) (of_nat outer_ndim)
               else emit_nested cs (by_leaf ty OP_STORE_STRUCT_NESTED_I OP_STORE_STRUCT_NESTED_F OP_STORE_STRUCT_NESTED_S)
                      slot outer_ndim ch (sd_total_size sd))))"

text \<open>The struct a dotted name starts with: its slot and the rest of the name.\<close>

definition struct_base_of :: "BCCompiler \<Rightarrow> cstr \<Rightarrow> (u16 \<times> cstr) option" where
  "struct_base_of cs name =
     (let base = takeWhile (\<lambda>c. c \<noteq> 0x2E) name; slot = bc_find_slot cs base in
      if 0x2E \<notin> set name \<or> base = [] \<or> slot = 0xFFFF \<or> slot_type (slots cs ! unat slot) \<noteq> T_STRUCT then None
      else Some (slot, drop (length base + 1) name))"

definition source_try_emit_struct_field_load :: "frontend \<Rightarrow> parser \<Rightarrow> BCCompiler \<Rightarrow> cstr \<Rightarrow> cstr \<Rightarrow> parsed option" where
  "source_try_emit_struct_field_load fe E cs name p =
     (case struct_base_of cs name of
        None \<Rightarrow> None
      | Some (slot, tail) \<Rightarrow>
          let (ty, cs1, p1) = source_emit_struct_chain_load fe E slot 0 tail cs p
          in Some (if has_error cs1 then 0 else ty, cs1, p1))"

section \<open>Colours, pins, indices, arguments\<close>

definition rgb :: "int \<Rightarrow> int \<Rightarrow> int \<Rightarrow> int" where
  "rgb r g b = r * 65536 + g * 256 + b"

definition colour_names :: "(string \<times> int) list" where
  "colour_names =
     [(''WHITE'', rgb 255 255 255), (''YELLOW'', rgb 255 255 0), (''LILAC'', rgb 255 128 255), (''BROWN'', rgb 255 128 0),
      (''FUCHSIA'', rgb 255 64 255), (''RUST'', rgb 255 64 0), (''MAGENTA'', rgb 255 0 255), (''RED'', rgb 255 0 0),
      (''CYAN'', rgb 0 255 255), (''GREEN'', rgb 0 255 0), (''CERULEAN'', rgb 0 128 255), (''MIDGREEN'', rgb 0 128 0),
      (''COBALT'', rgb 0 64 255), (''MYRTLE'', rgb 0 64 0), (''BLUE'', rgb 0 0 255), (''BLACK'', rgb 0 0 0),
      (''GRAY'', rgb 128 128 128), (''GREY'', rgb 128 128 128), (''LIGHTGRAY'', rgb 210 210 210),
      (''LIGHTGREY'', rgb 210 210 210), (''ORANGE'', rgb 255 165 0), (''PINK'', rgb 255 160 171),
      (''GOLD'', rgb 255 215 0), (''SALMON'', rgb 250 128 114), (''BEIGE'', rgb 245 245 220)]"

definition is_blank :: "u8 \<Rightarrow> bool" where
  "is_blank c \<longleftrightarrow> c = 0x20 \<or> c = 0x09"

definition source_color_name :: "cstr \<Rightarrow> int option" where
  "source_color_name s =
     (let t = rev (dropWhile is_blank (rev (dropWhile is_blank s)))
      in map_option snd (find (\<lambda>(n, v). source_name_eq t (bytes_of n)) colour_names))"

text \<open>The arguments of \<open>RGB\<close>: how many characters to the closing parenthesis, and how many commas at the outer level.\<close>

fun rgb_scan :: "nat \<Rightarrow> bool \<Rightarrow> nat \<Rightarrow> nat \<Rightarrow> cstr \<Rightarrow> (nat \<times> nat) option" where
  "rgb_scan depth inq k commas [] = None"
| "rgb_scan depth inq k commas (c # p) =
     (if inq then rgb_scan depth (c \<noteq> 0x22) (k + 1) commas p
      else if c = 0x22 then rgb_scan depth True (k + 1) commas p
      else if c = 0x28 then rgb_scan (depth + 1) False (k + 1) commas p
      else if c = 0x29 then (if depth = 1 then Some (k, commas) else rgb_scan (depth - 1) False (k + 1) commas p)
      else rgb_scan depth False (k + 1) (if c = 0x2C \<and> depth = 1 then commas + 1 else commas) p)"

text \<open>An expression converted to an integer, and the character that must follow; the error leaves the text there.\<close>

definition int_then :: "parser \<Rightarrow> u8 \<Rightarrow> string \<Rightarrow> BCCompiler \<Rightarrow> cstr \<Rightarrow> (BCCompiler \<Rightarrow> cstr \<Rightarrow> parsed) \<Rightarrow> parsed" where
  "int_then E ch msg cs p k =
     (let (ty, cs1, p1) = E cs p; cs2 = source_emit_int_conversion cs1 ty; p2 = source_skip_space p1 in
      if at p2 \<noteq> ch then (0, bc_set_error cs2 msg, p2) else k cs2 (drop 1 p2))"

definition source_compile_rgb_call :: "parser \<Rightarrow> parser" where
  "source_compile_rgb_call E cs p0 =
     (let p = source_skip_space p0; q = drop 1 p in
      if at p \<noteq> 0x28 then (0, bc_set_error cs ''Expected '(' after RGB'', p)
      else case rgb_scan 1 False 0 0 q of
        None \<Rightarrow> (0, bc_set_error cs ''Expected ')' after RGB'', q)
      | Some (n, commas) \<Rightarrow>
          if commas = 0 then
            (case source_color_name (take n q) of
               None \<Rightarrow> (0, bc_set_error cs ''Unknown RGB colour name'', q)
             | Some v \<Rightarrow> (T_INT, bc_emit_i64 (bc_emit_byte cs OP_PUSH_INT) (word_of_int v), drop (n + 1) q))
          else if commas \<noteq> 2 then (0, bc_set_error cs ''RGB requires one colour name or three components'', q)
          else int_then E 0x2C ''Expected ',' in RGB'' cs q (\<lambda>cs p. int_then E 0x2C ''Expected ',' in RGB'' cs p (\<lambda>cs p.
                 int_then E 0x29 ''Expected ')' after RGB'' cs p (\<lambda>cs p. (T_INT, source_emit_syscall_noaux cs BC_SYS_GFX_RGB 3, p)))))"

text \<open>\<open>GP\<close> and a number, as the operand of \<open>PIN\<close>; \<open>strtol\<close> saturates at the 32 bits of \<open>long\<close>.\<close>

definition source_try_emit_gp_pin :: "BCCompiler \<Rightarrow> cstr \<Rightarrow> (BCCompiler \<times> cstr) option" where
  "source_try_emit_gp_pin cs p0 =
     (let p = source_skip_space p0; ds = takeWhile isdigit8 (drop 2 p); e = drop (2 + length ds) p in
      if length p < 2 \<or> \<not> same_name (take 2 p) (bytes_of ''GP'') \<or> ds = [] \<or> isnamechar (at e) then None
      else Some (bc_emit_i64 (bc_emit_byte cs OP_PUSH_INT) (word_of_int (- min (2 ^ 31 - 1) (int (num_of 10 ds)) - 1)), e))"

definition source_compile_pin_operand :: "parser \<Rightarrow> BCCompiler \<Rightarrow> cstr \<Rightarrow> BCCompiler \<times> cstr" where
  "source_compile_pin_operand E cs p =
     (case source_try_emit_gp_pin cs p of
        Some r \<Rightarrow> r
      | None \<Rightarrow> let (ty, cs1, p1) = E cs p in (source_emit_int_conversion cs1 ty, p1))"

text \<open>The indices behind the opening parenthesis: their number is what is counted in \<open>n\<close>.\<close>

fun indices_loop :: "nat \<Rightarrow> parser \<Rightarrow> nat \<Rightarrow> BCCompiler \<Rightarrow> cstr \<Rightarrow> nat \<times> BCCompiler \<times> cstr" where
  "indices_loop 0 E n cs p = (n, bc_set_error cs ''Expression too long'', p)"
| "indices_loop (Suc fuel) E n cs p =
     (if has_error cs then (n, cs, p)
      else let (ty, cs1, p1) = E cs p; cs2 = source_emit_int_conversion cs1 ty; p2 = source_skip_space p1 in
        if at p2 = 0x2C then indices_loop fuel E (n + 1) cs2 (drop 1 p2)
        else if at p2 = 0x29 then (n + 1, cs2, drop 1 p2)
        else (n + 1, bc_set_error cs2 ''Expected ',' or ')' in array access'', p2))"

definition source_parse_array_indices :: "parser \<Rightarrow> BCCompiler \<Rightarrow> cstr \<Rightarrow> nat \<times> BCCompiler \<times> cstr" where
  "source_parse_array_indices E cs p0 =
     (let p = source_skip_space p0; q = source_skip_space (drop 1 p) in
      if at p \<noteq> 0x28 then (0, bc_set_error cs ''Expected '(' for array access'', p)
      else if at q = 0x29 then (0, cs, drop 1 q)
      else indices_loop (Suc (length q)) E 0 cs q)"

text \<open>A known variable: its slot, whether it is local, its type and whether it is an array.\<close>

definition source_lookup_known_var :: "BCCompiler \<Rightarrow> cstr \<Rightarrow> (u16 \<times> bool \<times> u8 \<times> bool) option" where
  "source_lookup_known_var cs name =
     (let loc = (if current_subfun cs \<ge> 0 then bc_find_local cs name else -1); slot = bc_find_slot cs name;
          global = (\<lambda>i. (i, False, slot_type (slots cs ! unat i), slot_is_array (slots cs ! unat i) \<noteq> 0)) in
      if loc \<ge> 0 then
        (let l = cs_locals cs ! nat loc in
         Some (if loc_is_static l \<noteq> 0 then global (loc_static_slot l)
               else (word_of_int loc, True, loc_type l, loc_is_array l \<noteq> 0)))
      else if slot = 0xFFFF \<or> slot_is_const (slots cs ! unat slot) \<noteq> 0 then None
      else Some (global slot))"

definition ends_argument :: "cstr \<Rightarrow> bool" where
  "ends_argument q \<longleftrightarrow> at q = 0x2C \<or> at q = 0x29 \<or> at q = 0 \<or> at q = 0x27"

text \<open>A reference for parameter \<open>argi\<close>; \<open>None\<close> in the second part: nothing taken, compile it by value.\<close>

definition ref_param_type :: "BCCompiler \<Rightarrow> int \<Rightarrow> nat \<Rightarrow> u8 option" where
  "ref_param_type cs sf_idx argi =
     (if sf_idx < 0 then None
      else let sf = subfuns cs ! nat sf_idx in
        if argi \<ge> unat (sf_nparams sf) \<or> argi \<ge> BC_MAX_PARAMS \<or> sf_param_is_byval sf ! argi \<noteq> 0 \<or>
           sf_param_is_array sf ! argi \<noteq> 0 then None
        else let ty = sf_param_types sf ! argi in if ty = 0 \<or> ty = T_STRUCT then None else Some ty)"

definition source_try_emit_ref_arg :: "parser \<Rightarrow> int \<Rightarrow> nat \<Rightarrow> BCCompiler \<Rightarrow> cstr \<Rightarrow> BCCompiler \<times> cstr option" where
  "source_try_emit_ref_arg E sf_idx argi cs p =
     (case (ref_param_type cs sf_idx argi, source_parse_varname p) of
        (Some ty, Some (name, suffix, q0)) \<Rightarrow>
          let q = source_skip_space q0 in
          if suffix \<noteq> 0 \<and> suffix \<noteq> ty then (cs, None)
          else if at q = 0x28 then
            (case (source_lookup_known_var cs name, close_paren 0 q) of
               (Some (slot, is_local, aty, is_arr), Some behind) \<Rightarrow>
                 if \<not> is_arr \<or> aty \<noteq> ty \<or> \<not> ends_argument (source_skip_space behind) then (cs, None)
                 else let (ndim, cs1, ip) = source_parse_array_indices E cs q in
                   if has_error cs1 \<or> ndim = 0 then (cs1, None)
                   else (bc_emit_byte (bc_emit_byte (bc_emit_u16 (bc_emit_byte cs1 OP_PUSHREF_AELEM) slot)
                           (if is_local then 1 else 0)) (of_nat ndim), Some ip)
             | _ \<Rightarrow> (cs, None))
          else if \<not> ends_argument q then (cs, None)
          else (case source_lookup_known_var cs name of
                  Some (slot, is_local, vty, is_arr) \<Rightarrow>
                    if is_arr \<or> vty \<noteq> ty then (cs, None)
                    else (bc_emit_byte (bc_emit_u16 (bc_emit_byte cs (code_PUSHREF (if is_local then Local else Global))) slot) ty, Some q)
                | None \<Rightarrow> (cs, None))
      | _ \<Rightarrow> (cs, None))"

definition source_arg_is_struct_member :: "BCCompiler \<Rightarrow> cstr \<Rightarrow> bool" where
  "source_arg_is_struct_member cs p =
     (case source_parse_varname p of
        None \<Rightarrow> False
      | Some (name, suf, q0) \<Rightarrow>
          let dot = (0x2E \<in> set name);
              base = (if dot then takeWhile (\<lambda>c. c \<noteq> 0x2E) name else if suf \<noteq> 0 then butlast name else name);
              slot = bc_find_slot cs base; loc = bc_find_local cs base;
              is_struct = (slot \<noteq> 0xFFFF \<and> slot_type (slots cs ! unat slot) = T_STRUCT \<or>
                current_subfun cs \<ge> 0 \<and> loc \<ge> 0 \<and> loc_type (cs_locals cs ! nat loc) = T_STRUCT);
              q = source_skip_space q0
          in base \<noteq> [] \<and> is_struct \<and>
             (dot \<or> (if at q = 0x28
                     then (case close_paren 0 q of None \<Rightarrow> False | Some r \<Rightarrow> at (source_skip_space r) = 0x2E)
                     else at q = 0x2E)))"

fun args_loop :: "nat \<Rightarrow> parser \<Rightarrow> bool \<Rightarrow> int \<Rightarrow> nat \<Rightarrow> BCCompiler \<Rightarrow> cstr \<Rightarrow> nat \<times> BCCompiler \<times> cstr" where
  "args_loop 0 E parens sf_idx n cs p = (n, bc_set_error cs ''Expression too long'', p)"
| "args_loop (Suc fuel) E parens sf_idx n cs p0 =
     (if has_error cs then (n, cs, p0)
      else let p = source_skip_space p0 in
        if parens \<and> at p = 0x29 then (n, cs, drop 1 p)
        else if \<not> parens \<and> (at p = 0 \<or> at p = 0x27) then (n, cs, p)
        else if source_arg_is_struct_member cs p then (n, bc_set_error cs ''Cannot pass a structure member as an argument'', p)
        else
          let (cs1, r) = source_try_emit_ref_arg E sf_idx n cs p;
              (failed, cs2, p1) = (case r of
                 Some q \<Rightarrow> (False, cs1, q)
               | None \<Rightarrow> (let (ty, cs2, q) = E cs1 p in (has_error cs2, cs2, q)));
              p2 = source_skip_space p1
          in if failed then (n, cs2, p1)
             else if at p2 = 0x2C then args_loop fuel E parens sf_idx (n + 1) cs2 (drop 1 p2)
             else if parens then
               (if at p2 = 0x29 then (n + 1, cs2, drop 1 p2)
                else (n + 1, bc_set_error cs2 ''Expected ',' or ')' in argument list'', p2))
             else (n + 1, cs2, p2))"

definition source_compile_call_args :: "parser \<Rightarrow> bool \<Rightarrow> int \<Rightarrow> BCCompiler \<Rightarrow> cstr \<Rightarrow> nat \<times> BCCompiler \<times> cstr" where
  "source_compile_call_args E require_parens sf_idx cs p0 =
     (let p = source_skip_space p0 in
      if at p = 0x28 then args_loop (Suc (length p)) E True sf_idx 0 cs (drop 1 p)
      else if require_parens then (0, bc_set_error cs ''Expected '(' in function call'', p)
      else if at p = 0 \<or> at p = 0x27 then (0, cs, p)
      else args_loop (Suc (length p)) E False sf_idx 0 cs p)"

section \<open>Builtin functions\<close>

text \<open>A missing character is an error that leaves the text where the expression began (\<open>pp\<close>).\<close>

definition expect_or :: "cstr \<Rightarrow> u8 \<Rightarrow> string \<Rightarrow> BCCompiler \<times> cstr \<Rightarrow> (BCCompiler \<Rightarrow> cstr \<Rightarrow> parsed) \<Rightarrow> parsed" where
  "expect_or pp ch msg st k =
     (let (ok, cs1, p1) = source_expect_char (fst st) (snd st) ch msg in if ok then k cs1 p1 else (0, cs1, pp))"

text \<open>Here the error is recorded and the text goes on.\<close>

definition soft_close :: "string \<Rightarrow> BCCompiler \<times> cstr \<Rightarrow> BCCompiler \<times> cstr" where
  "soft_close msg st =
     (let p = source_skip_space (snd st) in
      if at p \<noteq> 0x29 then (bc_set_error (fst st) msg, p) else (fst st, drop 1 p))"

definition as_int :: "parser \<Rightarrow> BCCompiler \<Rightarrow> cstr \<Rightarrow> BCCompiler \<times> cstr" where
  "as_int E cs p = (let (ty, cs1, p1) = E cs p in (source_emit_int_conversion cs1 ty, p1))"

definition as_flt :: "parser \<Rightarrow> BCCompiler \<Rightarrow> cstr \<Rightarrow> BCCompiler \<times> cstr" where
  "as_flt E cs p = (let (ty, cs1, p1) = E cs p in (source_emit_float_conversion cs1 ty, p1))"

definition as_str :: "parser \<Rightarrow> string \<Rightarrow> BCCompiler \<Rightarrow> cstr \<Rightarrow> BCCompiler \<times> cstr" where
  "as_str E msg cs p = (let (ty, cs1, p1) = E cs p in (if ty \<noteq> T_STR then bc_set_error cs1 msg else cs1, p1))"

definition as_num :: "parser \<Rightarrow> string \<Rightarrow> BCCompiler \<Rightarrow> cstr \<Rightarrow> u8 \<times> BCCompiler \<times> cstr" where
  "as_num E msg cs p = (let (ty, cs1, p1) = E cs p in (ty, if ty = T_STR then bc_set_error cs1 msg else cs1, p1))"

definition named :: "cstr \<Rightarrow> string \<Rightarrow> bool" where
  "named name n = source_name_eq name (bytes_of n)"

text \<open>\<open>p\<close> is behind the opening parenthesis; \<open>None\<close>: the name is none of these.\<close>

definition parse_mid :: "parser \<Rightarrow> cstr \<Rightarrow> parser" where
  "parse_mid E pp cs p =
     expect_or pp 0x2C ''Expected ',' in MID$'' (as_str E ''MID$ requires a string argument'' cs p) (\<lambda>cs p.
       let (cs1, p1) = as_int E cs p; p2 = source_skip_space p1 in
       if at p2 = 0x2C then
         expect_or pp 0x29 ''Expected ')' after MID$'' (as_int E cs1 (drop 1 p2)) (\<lambda>cs p. (T_STR, bc_emit_byte cs OP_STR_MID3, p))
       else expect_or pp 0x29 ''Expected ')' after MID$'' (cs1, p2) (\<lambda>cs p. (T_STR, bc_emit_byte cs OP_STR_MID2, p)))"

definition parse_instr :: "parser \<Rightarrow> cstr \<Rightarrow> parser" where
  "parse_instr E pp cs p =
     (let (first_ty, cs0, p0) = E cs p; msg = ''INSTR requires string arguments'' in
      expect_or pp 0x2C ''Expected ',' in INSTR'' (cs0, p0) (\<lambda>cs p.
        if first_ty = T_STR then
          expect_or pp 0x29 ''Expected ')' after INSTR'' (as_str E msg cs p) (\<lambda>cs p.
            (T_INT, bc_emit_byte (bc_emit_byte cs OP_STR_INSTR) 2, p))
        else
          expect_or pp 0x2C ''Expected ',' in INSTR'' (as_str E msg (source_emit_int_conversion cs first_ty) p) (\<lambda>cs p.
            expect_or pp 0x29 ''Expected ')' after INSTR'' (as_str E msg cs p) (\<lambda>cs p.
              (T_INT, bc_emit_byte (bc_emit_byte cs OP_STR_INSTR) 3, p)))))"

definition parse_string_fun :: "parser \<Rightarrow> cstr \<Rightarrow> parser" where
  "parse_string_fun E pp cs p =
     expect_or pp 0x2C ''Expected ',' in STRING$'' (as_int E cs p) (\<lambda>cs p.
       let (ty, cs1, p1) = E cs p in
       expect_or pp 0x29 ''Expected ')' after STRING$''
         (if ty = T_STR then bc_emit_byte cs1 OP_STR_ASC else source_emit_int_conversion cs1 ty, p1)
         (\<lambda>cs p. (T_STR, bc_emit_byte cs OP_STR_STRING, p)))"

definition parse_field :: "parser \<Rightarrow> cstr \<Rightarrow> parser" where
  "parse_field E pp cs p =
     expect_or pp 0x2C ''Expected ',' in FIELD$'' (as_str E ''FIELD$ requires a string source'' cs p) (\<lambda>cs p.
       expect_or pp 0x2C ''Expected ',' in FIELD$'' (as_int E cs p) (\<lambda>cs p.
         expect_or pp 0x29 ''Expected ')' after FIELD$'' (as_str E ''FIELD$ requires string delimiters'' cs p) (\<lambda>cs p.
           (T_STR, bc_emit_byte cs OP_STR_FIELD3, p))))"

definition parse_string_builtin :: "parser \<Rightarrow> cstr \<Rightarrow> cstr \<Rightarrow> BCCompiler \<Rightarrow> cstr \<Rightarrow> parsed option" where
  "parse_string_builtin E pp name cs p =
     (if named name ''LEN'' then Some (expect_or pp 0x29 ''Expected ')' after LEN''
        (as_str E ''LEN requires a string argument'' cs p) (\<lambda>cs p. (T_INT, bc_emit_byte cs OP_STR_LEN, p)))
      else if named name ''LEFT$'' \<or> named name ''RIGHT$'' then
        Some (expect_or pp 0x2C ''Expected ',' in string function'' (as_str E ''String function requires a string argument'' cs p) (\<lambda>cs p.
          expect_or pp 0x29 ''Expected ')' after string function'' (as_int E cs p) (\<lambda>cs p.
            (T_STR, bc_emit_byte cs (if named name ''LEFT$'' then OP_STR_LEFT else OP_STR_RIGHT), p))))
      else if named name ''MID$'' then Some (parse_mid E pp cs p)
      else if named name ''VAL'' then Some (expect_or pp 0x29 ''Expected ')' after VAL''
        (as_str E ''VAL requires a string argument'' cs p) (\<lambda>cs p. (T_NBR, bc_emit_byte cs OP_STR_VAL, p)))
      else if named name ''STR$'' then
        (let (ty, cs1, p1) = as_num E ''STR$ requires a numeric argument'' cs p in
         Some (expect_or pp 0x29 ''Expected ')' after STR$'' (cs1, p1) (\<lambda>cs p. (T_STR, bc_emit_byte cs OP_STR_STR, p))))
      else if named name ''INSTR'' then Some (parse_instr E pp cs p)
      else if named name ''HEX$'' \<or> named name ''OCT$'' \<or> named name ''BIN$'' then
        Some (expect_or pp 0x29 ''Expected ')' after numeric string function'' (as_int E cs p) (\<lambda>cs p.
          (T_STR, bc_emit_byte cs (if named name ''HEX$'' then OP_STR_HEX else if named name ''OCT$'' then OP_STR_OCT else OP_STR_BIN), p)))
      else if named name ''SPACE$'' then Some (expect_or pp 0x29 ''Expected ')' after SPACE$'' (as_int E cs p)
        (\<lambda>cs p. (T_STR, bc_emit_byte cs OP_STR_SPACE, p)))
      else if named name ''STRING$'' then Some (parse_string_fun E pp cs p)
      else if named name ''FIELD$'' then Some (parse_field E pp cs p)
      else if named name ''ASC'' then
        (let (cs1, p1) = soft_close ''Expected ')' after ASC'' (as_str E ''ASC requires a string argument'' cs p)
         in Some (T_INT, bc_emit_byte cs1 OP_STR_ASC, p1))
      else if named name ''CHR$'' then
        (let (cs1, p1) = soft_close ''Expected ')' after CHR$'' (as_int E cs p) in Some (T_STR, bc_emit_byte cs1 OP_STR_CHR, p1))
      else if named name ''LCASE$'' \<or> named name ''UCASE$'' then
        (let (cs1, p1) = soft_close ''Expected ')' after string function'' (as_str E ''Case conversion requires a string argument'' cs p)
         in Some (T_STR, bc_emit_byte cs1 (if named name ''LCASE$'' then OP_STR_LCASE else OP_STR_UCASE), p1))
      else None)"

definition math_names :: "(string \<times> u8) list" where
  "math_names = [(''SIN'', OP_MATH_SIN), (''COS'', OP_MATH_COS), (''TAN'', OP_MATH_TAN), (''ATN'', OP_MATH_ATN),
     (''ASIN'', OP_MATH_ASIN), (''ACOS'', OP_MATH_ACOS), (''SQR'', OP_MATH_SQR), (''LOG'', OP_MATH_LOG),
     (''EXP'', OP_MATH_EXP), (''RAD'', OP_MATH_RAD), (''DEG'', OP_MATH_DEG)]"

definition math_close :: "cstr \<Rightarrow> BCCompiler \<times> cstr \<Rightarrow> u8 \<Rightarrow> u8 \<Rightarrow> parsed" where
  "math_close pp st ty op = expect_or pp 0x29 ''Expected ')' after math function'' st (\<lambda>cs p. (ty, bc_emit_byte cs op, p))"

definition parse_int_abs :: "parser \<Rightarrow> bool \<Rightarrow> parser" where
  "parse_int_abs E is_int cs p =
     (let (ty, cs1, p1) = as_num E ''Math function requires a numeric argument'' cs p;
          cs2 = (if is_int \<and> ty = T_INT then bc_emit_byte cs1 OP_CVT_I2F else cs1);
          (cs3, p3) = soft_close ''Expected ')' after math function'' (cs2, p1)
      in (if is_int then T_NBR else ty, bc_emit_byte cs3 (if is_int then OP_MATH_INT else OP_MATH_ABS), p3))"

text \<open>\<open>MULSHR\<close> of one variable with itself is compiled with one load.\<close>

definition parse_mulshr :: "frontend \<Rightarrow> parser \<Rightarrow> cstr \<Rightarrow> parser" where
  "parse_mulshr fe E pp cs p =
     (let a_start = length (code cs); (cs1, p1) = as_int E cs p; a_end = length (code cs1) in
      expect_or pp 0x2C ''Expected ',' after MULSHR a'' (cs1, p1) (\<lambda>cs p.
        let b_start = length (code cs); (cs2, p2) = as_int E cs p; b_end = length (code cs2) in
        expect_or pp 0x2C ''Expected ',' after MULSHR b'' (cs2, p2) (\<lambda>cs p.
          expect_or pp 0x29 ''Expected ')' after MULSHR'' (as_int E cs p) (\<lambda>cs p.
            if opt_level fe \<ge> 1 \<and> source_is_same_simple_int_load cs a_start a_end b_start b_end then
              (let cs3 = source_delete_bytes cs b_start (b_end - b_start) in
               if has_error cs3 then (0, cs3, pp) else (T_INT, bc_emit_byte cs3 OP_MATH_SQRSHR, p))
            else (T_INT, bc_emit_byte cs OP_MATH_MULSHR, p)))))"

definition parse_math_builtin :: "frontend \<Rightarrow> parser \<Rightarrow> cstr \<Rightarrow> cstr \<Rightarrow> BCCompiler \<Rightarrow> cstr \<Rightarrow> parsed option" where
  "parse_math_builtin fe E pp name cs p =
     (case find (\<lambda>(n, op). named name n) math_names of
        Some (n, op) \<Rightarrow> Some (math_close pp (as_flt E cs p) T_NBR op)
      | None \<Rightarrow>
          if named name ''MULSHR'' then Some (parse_mulshr fe E pp cs p)
          else if named name ''ATAN2'' then
            Some (expect_or pp 0x2C ''Expected ',' in ATAN2'' (as_flt E cs p) (\<lambda>cs p.
              expect_or pp 0x29 ''Expected ')' after ATAN2'' (as_flt E cs p) (\<lambda>cs p. (T_NBR, bc_emit_byte cs OP_MATH_ATAN2, p))))
          else if named name ''INT'' \<or> named name ''ABS'' then Some (parse_int_abs E (named name ''INT'') cs p)
          else if named name ''FIX'' \<or> named name ''CINT'' then
            Some (math_close pp (as_flt E cs p) T_INT (if named name ''FIX'' then OP_MATH_FIX else OP_MATH_CINT))
          else if named name ''SGN'' then
            (let (ty, cs1, p1) = as_num E ''SGN requires a numeric argument'' cs p in
             Some (expect_or pp 0x29 ''Expected ')' after SGN'' (cs1, p1) (\<lambda>cs p. (T_INT, bc_emit_byte cs OP_MATH_SGN, p))))
          else if named name ''MIN'' \<or> named name ''MAX'' then
            Some (expect_or pp 0x2C ''Expected ',' in MIN/MAX'' (as_flt E cs p) (\<lambda>cs p.
              expect_or pp 0x29 ''Expected ')' after MIN/MAX'' (as_flt E cs p) (\<lambda>cs p.
                (T_NBR, bc_emit_byte cs (if named name ''MIN'' then OP_MATH_MIN else OP_MATH_MAX), p))))
          else None)"

definition parse_device_builtin :: "parser \<Rightarrow> cstr \<Rightarrow> cstr \<Rightarrow> BCCompiler \<Rightarrow> cstr \<Rightarrow> parsed option" where
  "parse_device_builtin E pp name cs p =
     (if named name ''KEYDOWN'' then
        (let (cs1, p1) = soft_close ''Expected ')' after KEYDOWN'' (as_int E cs p)
         in Some (T_INT, source_emit_syscall_noaux cs1 BC_SYS_KEYDOWN 1, p1))
      else if named name ''PIN'' then
        Some (expect_or pp 0x29 ''Expected ')' after PIN'' (source_compile_pin_operand E cs p) (\<lambda>cs p.
          (T_INT, source_emit_syscall_noaux cs BC_SYS_PIN_READ 1, p)))
      else if named name ''PIXEL'' then
        Some (expect_or pp 0x2C ''Expected ',' after PIXEL x'' (as_int E cs p) (\<lambda>cs p.
          expect_or pp 0x29 ''Expected ')' after PIXEL'' (as_int E cs p) (\<lambda>cs p.
            (T_INT, source_emit_syscall_noaux cs BC_SYS_GFX_PIXEL_READ 2, p))))
      else None)"

text \<open>The names that stand without arguments; \<open>p\<close> is behind the name, \<open>after\<close> behind the spaces that follow.\<close>

definition parse_plain_name :: "parser \<Rightarrow> cstr \<Rightarrow> cstr \<Rightarrow> BCCompiler \<Rightarrow> cstr \<Rightarrow> cstr \<Rightarrow> parsed option" where
  "parse_plain_name E pp name cs p after =
     (if named name ''INKEY$'' then Some (T_STR, bc_emit_byte cs OP_STR_INKEY, p)
      else if named name ''DATE$'' then Some (T_STR, source_emit_syscall_noaux cs BC_SYS_DATE_STR 0, p)
      else if named name ''TIME$'' then Some (T_STR, source_emit_syscall_noaux cs BC_SYS_TIME_STR 0, p)
      else if named name ''TIMER'' then Some (T_NBR, bc_emit_byte cs OP_TIMER, p)
      else if named name ''PI'' then Some (T_NBR, bc_emit_byte cs OP_MATH_PI, p)
      else if named name ''RND'' then
        (let q = source_skip_space (drop 1 after); fin = (\<lambda>cs p. (T_NBR, bc_emit_byte cs OP_RND, p)) in
         Some (if at after \<noteq> 0x28 then fin cs p
               else if at q = 0x29 then fin cs (drop 1 q)
               else let (cs1, p1) = as_flt E cs q in
                 expect_or pp 0x29 ''Expected ')' after RND argument'' (bc_emit_byte cs1 OP_POP, p1) fin))
      else None)"

definition parse_builtin_call :: "frontend \<Rightarrow> parser \<Rightarrow> cstr \<Rightarrow> cstr \<Rightarrow> BCCompiler \<Rightarrow> cstr \<Rightarrow> parsed option" where
  "parse_builtin_call fe E pp name cs after =
     (if at after \<noteq> 0x28 then None
      else if named name ''RGB'' then Some (source_compile_rgb_call E cs after)
      else case parse_string_builtin E pp name cs (drop 1 after) of
          Some r \<Rightarrow> Some r
        | None \<Rightarrow> (case parse_math_builtin fe E pp name cs (drop 1 after) of
            Some r \<Rightarrow> Some r
          | None \<Rightarrow> parse_device_builtin E pp name cs (drop 1 after)))"

section \<open>Names\<close>

text \<open>A call of a user function.\<close>

definition parse_user_call :: "parser \<Rightarrow> cstr \<Rightarrow> u8 \<Rightarrow> BCCompiler \<Rightarrow> cstr \<Rightarrow> parsed option" where
  "parse_user_call E name suffix cs after =
     (let sf_idx = bc_find_subfun cs (if suffix \<noteq> 0 then butlast name else name) in
      if sf_idx < 0 \<or> sf_return_type (subfuns cs ! nat sf_idx) = 0 \<or> sf_bridged (subfuns cs ! nat sf_idx) \<noteq> 0 \<or>
         at after \<noteq> 0x28 then None
      else let (nargs, cs1, p1) = source_compile_call_args E True sf_idx cs after in
        if has_error cs1 then Some (0, cs1, p1)
        else Some (sf_return_type (subfuns cs1 ! nat sf_idx),
                   bc_emit_byte (bc_emit_u16 (bc_emit_byte cs1 OP_CALL_FUN) (word_of_int sf_idx)) (of_nat nargs), p1))"

text \<open>A function of the interpreter: its index in the token table and its flags.\<close>

definition find_token :: "frontend \<Rightarrow> cstr \<Rightarrow> cstr \<Rightarrow> (nat \<times> u8) option" where
  "find_token fe name after =
     (let with_paren = (if at after = 0x28 then find_index (\<lambda>(n, f). same_name n (name @ [0x28])) (tokentbl fe) else None);
          i = (case with_paren of Some i \<Rightarrow> Some i
               | None \<Rightarrow> find_index (\<lambda>(n, f). f AND T_FNA \<noteq> 0 \<and> same_name n name) (tokentbl fe))
      in map_option (\<lambda>i. (i, snd (tokentbl fe ! i))) i)"

fun tokens_end :: "u8 list \<Rightarrow> nat" where
  "tokens_end [] = 0"
| "tokens_end (c # t) = (if c = 0 then 0 else if c = T_LINENBR then 3 + tokens_end (drop 2 t) else 1 + tokens_end t)"

definition emit_bridge_fun :: "BCCompiler \<Rightarrow> u8 \<Rightarrow> nat \<Rightarrow> u8 list \<Rightarrow> BCCompiler" where
  "emit_bridge_fun cs op i toks =
     fold (\<lambda>b c. bc_emit_byte c b) (take (unat (of_nat (length toks) :: u16)) toks)
       (bc_emit_u16 (bc_emit_u16 (bc_emit_byte cs op) (of_nat i)) (of_nat (length toks)))"

definition parse_bridged_call :: "frontend \<Rightarrow> cstr \<Rightarrow> BCCompiler \<Rightarrow> cstr \<Rightarrow> cstr \<Rightarrow> parsed option" where
  "parse_bridged_call fe name cs p after =
     (case find_token fe name after of
        None \<Rightarrow> None
      | Some (i, flags) \<Rightarrow>
          let (ty, op) =
                (if ctrlval_numeric_hint fe \<and> named name ''CTRLVAL'' then (T_NBR, OP_BRIDGE_FUN_F)
                 else if flags AND T_STR \<noteq> 0 then (T_STR, OP_BRIDGE_FUN_S)
                 else if flags AND T_INT \<noteq> 0 then (T_INT, OP_BRIDGE_FUN_I) else (T_NBR, OP_BRIDGE_FUN_F))
          in if flags AND T_FUN = 0 then Some (ty, emit_bridge_fun cs op i [], p)
             else let rest = drop 1 after in
               (case close_paren 1 rest of
                  None \<Rightarrow> Some (0, bc_set_error cs ''Unmatched parenthesis in bridged function'', p)
                | Some behind \<Rightarrow>
                    let args = take (STRINGSIZE - 2) (take (length rest - length behind - 1) rest);
                        toks = drop 2 (tokenise fe (0x3F # args))
                    in Some (ty, emit_bridge_fun cs op i (take (tokens_end toks) toks), behind)))"

definition mark_array :: "BCCompiler \<Rightarrow> u16 \<Rightarrow> bool \<Rightarrow> BCCompiler" where
  "mark_array cs slot is_local =
     (if \<not> is_local \<and> slot \<noteq> 0xFFFF
      then cs\<lparr>slots := (slots cs)[unat slot := (slots cs ! unat slot)\<lparr>slot_is_array := 1\<rparr>]\<rparr> else cs)"

definition parse_array_access :: "frontend \<Rightarrow> parser \<Rightarrow> cstr \<Rightarrow> u8 \<Rightarrow> parser" where
  "parse_array_access fe E name ty cs after =
     (let (ndim, cs1, p1) = source_parse_array_indices E cs after in
      if has_error cs1 then (0, cs1, p1)
      else let (cs2, slot, is_local) = source_resolve_var cs1 name ty True; cs3 = mark_array cs2 slot is_local in
        if \<not> is_local \<and> slot \<noteq> 0xFFFF \<and> slot_type (slots cs3 ! unat slot) = T_STRUCT then
          (let q = source_skip_space p1 in
           if at q = 0x2E then
             (let (ty1, cs4, p4) = source_emit_struct_chain_load fe E slot ndim [] cs3 q in (if has_error cs4 then 0 else ty1, cs4, p4))
           else (0, bc_set_error cs3 ''Whole-struct element read not yet supported'', p1))
        else (ty, source_emit_load_array cs3 slot ty is_local ndim, p1))"

text \<open>A scalar variable; a constant is put into the code.\<close>

definition parse_scalar :: "cstr \<Rightarrow> u8 \<Rightarrow> parser" where
  "parse_scalar name ty cs p =
     (let (cs1, slot, is_local) = source_resolve_var cs name ty True;
          const = (\<lambda>t. \<not> is_local \<and> unat slot < length (slots cs1) \<and> slot_is_const (slots cs1 ! unat slot) \<noteq> 0 \<and>
                       slot_type (slots cs1 ! unat slot) AND t \<noteq> 0) in
      if slot = 0xFFFF then (0, cs1, p)
      else if const T_INT then (T_INT, bc_emit_i64 (bc_emit_byte cs1 OP_PUSH_INT) (slot_const_ival (slots cs1 ! unat slot)), p)
      else if const T_NBR then (T_NBR, bc_emit_f64 (bc_emit_byte cs1 OP_PUSH_FLT) (slot_const_fval (slots cs1 ! unat slot)), p)
      else (ty, bc_emit_load_var cs1 slot ty is_local, p))"

definition source_parse_name :: "frontend \<Rightarrow> parser \<Rightarrow> cstr \<Rightarrow> parser" where
  "source_parse_name fe E pp cs p0 =
     (case source_parse_varname p0 of
        None \<Rightarrow> (0, bc_set_error cs ''Expected variable'', p0)
      | Some (name, suffix, p) \<Rightarrow>
          let ty = (if suffix = 0 then source_default_var_type cs name else suffix); after = source_skip_space p in
          case source_try_emit_struct_field_load fe E cs name p of Some r \<Rightarrow> r
          | None \<Rightarrow> (case parse_plain_name E pp name cs p after of Some r \<Rightarrow> r
          | None \<Rightarrow> (case parse_builtin_call fe E pp name cs after of Some r \<Rightarrow> r
          | None \<Rightarrow> (case parse_user_call E name suffix cs after of Some r \<Rightarrow> r
          | None \<Rightarrow> (case parse_bridged_call fe name cs p after of Some r \<Rightarrow> r
          | None \<Rightarrow> if at after = 0x28 then parse_array_access fe E name ty cs after else parse_scalar name ty cs p)))))"

section \<open>Primaries\<close>

definition parse_mm_info :: parser where
  "parse_mm_info cs p0 =
     (let p = source_skip_space (drop 7 p0); q = source_skip_space (drop 1 p);
          close = (\<lambda>sysid r. let cs1 = source_emit_syscall_noaux cs sysid 0; r1 = source_skip_space r in
                     if at r1 \<noteq> 0x29 then (0, bc_set_error cs1 ''Expected ')' after MM.INFO'', r1) else (T_INT, cs1, drop 1 r1))
      in if at p \<noteq> 0x28 then (0, bc_set_error cs ''Expected '(' after MM.INFO'', p)
         else case source_keyword q (bytes_of ''HRES'') of Some r \<Rightarrow> close BC_SYS_MM_HRES r
         | None \<Rightarrow> (case source_keyword q (bytes_of ''VRES'') of Some r \<Rightarrow> close BC_SYS_MM_VRES r
         | None \<Rightarrow> (case source_keyword q (bytes_of ''FONTWIDTH'') of Some r \<Rightarrow> close BC_SYS_MM_FONTWIDTH r
         | None \<Rightarrow> (case source_keyword q (bytes_of ''FONTHEIGHT'') of Some r \<Rightarrow> close BC_SYS_MM_FONTHEIGHT r
         | None \<Rightarrow> (0, bc_set_error cs ''Unsupported VM function: MM.INFO'', q)))))"

definition parse_paren :: "parser \<Rightarrow> parser" where
  "parse_paren E cs p =
     (let (ty, cs1, p1) = E cs p; p2 = source_skip_space p1 in
      if at p2 \<noteq> 0x29 then (0, bc_set_error cs1 (''Expected '' @ [CHR 0x27, CHR '')'', CHR 0x27]), p2) else (ty, cs1, drop 1 p2))"

definition source_parse_primary :: "frontend \<Rightarrow> parser \<Rightarrow> parser" where
  "source_parse_primary fe E cs pp =
     (let p = source_skip_space pp; c = at p in
      if c = 0x22 then source_parse_string fe cs (drop 1 p)
      else if c = 0x28 then parse_paren E cs (drop 1 p)
      else case source_keyword p (bytes_of ''MM.HRES'') of Some q \<Rightarrow> (T_INT, source_emit_syscall_noaux cs BC_SYS_MM_HRES 0, q)
      | None \<Rightarrow> (case source_keyword p (bytes_of ''MM.VRES'') of Some q \<Rightarrow> (T_INT, source_emit_syscall_noaux cs BC_SYS_MM_VRES 0, q)
      | None \<Rightarrow>
          if same_name (take 7 p) (bytes_of ''MM.INFO'') then parse_mm_info cs p
          else if c = 0x26 then source_parse_radix cs (drop 1 p)
          else if isdigit8 c \<or> c = 0x2E then source_parse_number cs p
          else if isnamestart c then source_parse_name fe E pp cs p
          else (0, bc_set_error cs (''Unsupported expression near: '' @ cstr_string (take 24 p)), p)))"

section \<open>The layers of operators\<close>

text \<open>The loops count their rounds; each takes at least one character, so the length of the text is enough.\<close>

fun source_parse_unary :: "nat \<Rightarrow> parser \<Rightarrow> parser" where
  "source_parse_unary 0 P cs pp = P cs pp"
| "source_parse_unary (Suc n) P cs pp =
     (let p = source_skip_space pp;
          int_unary = (\<lambda>op q. let (ty, cs1, p1) = source_parse_unary n P cs q
                         in (T_INT, bc_emit_byte (source_emit_int_conversion cs1 ty) op, p1))
      in case source_keyword p (bytes_of ''NOT'') of Some q \<Rightarrow> int_unary OP_NOT q
      | None \<Rightarrow> (case source_keyword p (bytes_of ''INV'') of Some q \<Rightarrow> int_unary OP_INV q
      | None \<Rightarrow>
          if at p = 0x2B then source_parse_unary n P cs (drop 1 p)
          else if at p = 0x2D then
            (let (ty, cs1, p1) = source_parse_unary n P cs (drop 1 p) in
             if has_error cs1 then (0, cs1, p1)
             else (ty, if ty = T_INT then bc_emit_byte cs1 OP_NEG_I else if ty = T_NBR then bc_emit_byte cs1 OP_NEG_F
                       else bc_set_error cs1 ''Unary '-' requires a numeric expression'', p1))
          else P cs pp))"

definition unary_at :: "parser \<Rightarrow> parser" where
  "unary_at P cs pp = source_parse_unary (Suc (length pp)) P cs pp"

definition emit_power :: "BCCompiler \<Rightarrow> u8 \<Rightarrow> u8 \<Rightarrow> nat \<Rightarrow> BCCompiler" where
  "emit_power cs left right right_start =
     (let cs1 = (if left = T_INT then source_insert_byte cs right_start OP_CVT_I2F
                 else if left \<noteq> T_NBR then bc_set_error cs ''Power requires numeric expressions'' else cs);
          cs2 = (if right = T_INT then bc_emit_byte cs1 OP_CVT_I2F
                 else if right \<noteq> T_NBR then bc_set_error cs1 ''Power requires numeric expressions'' else cs1)
      in bc_emit_byte cs2 OP_POW_F)"

fun power_loop :: "nat \<Rightarrow> parser \<Rightarrow> u8 \<Rightarrow> parser" where
  "power_loop 0 U left cs pp = (left, cs, pp)"
| "power_loop (Suc n) U left cs pp =
     (let p = source_skip_space pp in
      if at p \<noteq> 0x5E then (left, cs, pp)
      else let (right, cs1, p1) = U cs (drop 1 p) in
        if has_error cs1 then (0, cs1, pp)
        else power_loop n U T_NBR (emit_power cs1 left right (length (code cs))) p1)"

definition source_parse_power_expr :: "parser \<Rightarrow> parser" where
  "source_parse_power_expr U cs pp =
     (let (left, cs1, p1) = U cs pp in if has_error cs1 then (0, cs1, p1) else power_loop (Suc (length p1)) U left cs1 p1)"

text \<open>The operators of a layer: the operator and the text behind it.\<close>

definition mul_op :: "cstr \<Rightarrow> (char \<times> cstr) option" where
  "mul_op p =
     (if at p = 0x2A then Some (CHR ''*'', drop 1 p) else if at p = 0x2F then Some (CHR ''/'', drop 1 p)
      else if at p = 0x5C then Some (CHR 0x5C, drop 1 p)
      else map_option (\<lambda>q. (CHR ''m'', q)) (source_keyword p (bytes_of ''MOD'')))"

fun mul_loop :: "nat \<Rightarrow> int \<Rightarrow> parser \<Rightarrow> nat \<Rightarrow> u8 \<Rightarrow> parser" where
  "mul_loop 0 lvl U expr_start left cs pp = (left, cs, pp)"
| "mul_loop (Suc n) lvl U expr_start left cs pp =
     (case mul_op (source_skip_space pp) of
        None \<Rightarrow> (left, cs, pp)
      | Some (op, q) \<Rightarrow>
          let right_start = length (code cs); (right, cs1, p1) = U cs q in
          if has_error cs1 then (0, cs1, pp)
          else let (fused, cs2) = (if op = CHR 0x5C then source_try_fuse_mulshr lvl cs1 left right expr_start right_start else (False, cs1)) in
            if fused then mul_loop n lvl U expr_start T_INT cs2 p1
            else let (ty, cs3) = source_emit_numeric_binary cs2 left right right_start op in mul_loop n lvl U expr_start ty cs3 p1)"

definition source_parse_mul_expr :: "int \<Rightarrow> parser \<Rightarrow> parser" where
  "source_parse_mul_expr lvl U cs pp =
     (let (left, cs1, p1) = U cs pp in
      if has_error cs1 then (0, cs1, p1) else mul_loop (Suc (length p1)) lvl U (length (code cs)) left cs1 p1)"

fun add_loop :: "nat \<Rightarrow> int \<Rightarrow> parser \<Rightarrow> u8 \<Rightarrow> parser" where
  "add_loop 0 lvl U left cs pp = (left, cs, pp)"
| "add_loop (Suc n) lvl U left cs pp =
     (let p = source_skip_space pp; op = (if at p = 0x2B then CHR ''+'' else CHR ''-'') in
      if at p \<noteq> 0x2B \<and> at p \<noteq> 0x2D then (left, cs, pp)
      else let right_start = length (code cs); (right, cs1, p1) = U cs (drop 1 p) in
        if has_error cs1 then (0, cs1, pp)
        else let (fused, cs2) = source_try_fuse_mulshradd lvl cs1 left right right_start op in
          if fused then add_loop n lvl U T_INT cs2 p1
          else let (ty, cs3) = source_emit_numeric_binary cs2 left right right_start op in add_loop n lvl U ty cs3 p1)"

definition source_parse_add_expr :: "int \<Rightarrow> parser \<Rightarrow> parser" where
  "source_parse_add_expr lvl U cs pp =
     (let (left, cs1, p1) = U cs pp in if has_error cs1 then (0, cs1, p1) else add_loop (Suc (length p1)) lvl U left cs1 p1)"

definition shift_op_at :: "cstr \<Rightarrow> u8 option" where
  "shift_op_at p =
     (if at p = 0x3C \<and> at (drop 1 p) = 0x3C then Some OP_SHL
      else if at p = 0x3E \<and> at (drop 1 p) = 0x3E then Some OP_SHR else None)"

fun shift_loop :: "nat \<Rightarrow> parser \<Rightarrow> u8 \<Rightarrow> parser" where
  "shift_loop 0 U left cs pp = (left, cs, pp)"
| "shift_loop (Suc n) U left cs pp =
     (let p = source_skip_space pp in
      case shift_op_at p of
        None \<Rightarrow> (left, cs, pp)
      | Some op \<Rightarrow>
          let right_start = length (code cs); (right, cs1, p1) = U cs (drop 2 p) in
          if has_error cs1 then (0, cs1, pp)
          else let (ty, cs2) = source_emit_int_binary cs1 left right right_start op in shift_loop n U ty cs2 p1)"

definition source_parse_shift_expr :: "parser \<Rightarrow> parser" where
  "source_parse_shift_expr U cs pp =
     (let (left, cs1, p1) = U cs pp in if has_error cs1 then (0, cs1, p1) else shift_loop (Suc (length p1)) U left cs1 p1)"

text \<open>A comparison behind a shift expression, if there is one; \<open>None\<close>: its right side has an error.\<close>

definition compare_tail :: "parser \<Rightarrow> u8 \<Rightarrow> BCCompiler \<Rightarrow> cstr \<Rightarrow> BCCompiler \<times> (u8 \<times> cstr) option" where
  "compare_tail S left cs p =
     (case source_match_compare p of
        None \<Rightarrow> (cs, Some (left, p))
      | Some (op, q) \<Rightarrow>
          let (right, cs1, p1) = S cs q in
          if has_error cs1 then (cs1, None)
          else let (ty, cs2) = source_emit_compare cs1 left right (length (code cs)) op in (cs2, Some (ty, p1)))"

definition bool_op_at :: "cstr \<Rightarrow> (u8 \<times> cstr) option" where
  "bool_op_at p =
     (case source_keyword p (bytes_of ''AND'') of Some q \<Rightarrow> Some (OP_AND, q)
      | None \<Rightarrow> (case source_keyword p (bytes_of ''OR'') of Some q \<Rightarrow> Some (OP_OR, q)
      | None \<Rightarrow> map_option (\<lambda>q. (OP_XOR, q)) (source_keyword p (bytes_of ''XOR''))))"

fun bool_loop :: "nat \<Rightarrow> parser \<Rightarrow> u8 \<Rightarrow> parser" where
  "bool_loop 0 S left cs pp = (left, cs, pp)"
| "bool_loop (Suc n) S left cs pp =
     (case bool_op_at (source_skip_space pp) of
        None \<Rightarrow> (left, cs, pp)
      | Some (op, q) \<Rightarrow>
          let right_start = length (code cs); (right, cs1, p1) = S cs q in
          if has_error cs1 then (0, cs1, pp)
          else case compare_tail S right cs1 p1 of
              (cs2, None) \<Rightarrow> (0, cs2, pp)
            | (cs2, Some (right', p2)) \<Rightarrow>
                let (ty, cs3) = source_emit_int_binary cs2 left right' right_start op in bool_loop n S ty cs3 p2)"

definition expression_over :: "parser \<Rightarrow> parser" where
  "expression_over S cs pp =
     (let (left, cs1, p1) = S cs pp in
      if has_error cs1 then (0, cs1, p1)
      else case compare_tail S left cs1 p1 of
          (cs2, None) \<Rightarrow> (0, cs2, p1)
        | (cs2, Some (ty, p2)) \<Rightarrow> bool_loop (Suc (length p2)) S ty cs2 p2)"

definition shift_over :: "frontend \<Rightarrow> parser \<Rightarrow> parser" where
  "shift_over fe P =
     source_parse_shift_expr (source_parse_add_expr (opt_level fe) (source_parse_mul_expr (opt_level fe)
       (source_parse_power_expr (unary_at P))))"

text \<open>Nesting to depth \<open>n\<close>; each level takes at least one character.\<close>

fun expression_at :: "nat \<Rightarrow> frontend \<Rightarrow> parser" where
  "expression_at 0 fe cs p = (0, bc_set_error cs ''Expression too deep'', p)"
| "expression_at (Suc n) fe cs p = expression_over (shift_over fe (source_parse_primary fe (expression_at n fe))) cs p"

definition source_parse_expression :: "frontend \<Rightarrow> parser" where
  "source_parse_expression fe cs p = expression_at (Suc (length p)) fe cs p"

end
