(* ===== verification/SrcFast.thy ===== *)
theory SrcFast
  imports SrcEmit F64 RegOps
begin

text \<open>
  The converter of \<open>bc_source.c\<close> from a loop's stack code to the micro-operations of the register machine.
  It runs the stack symbolically: an entry of \<open>sim\<close> is the number of the register holding the value. The
  frame's locals are the registers from 0, then come globals, constants and temporaries.
\<close>

section \<open>State\<close>

definition BC_FAST_MAX_ROP_BYTES :: nat where "BC_FAST_MAX_ROP_BYTES = 4096"
definition BC_FAST_MAX_BC_BYTES :: nat where "BC_FAST_MAX_BC_BYTES = 4096"

text \<open>
  An array with its count is a list; \<open>sim\<close> has its top first. \<open>bc_to_rop\<close> is \<open>0xFFFF\<close> where no instruction
  starts. A constant is its type and its 64 bits.
\<close>

record FastConv =
  rop_code :: "u8 list"
  rop_overflow :: bool
  sim :: "u8 list"
  nlocals :: nat
  fc_globals :: "u16 list"
  fc_consts :: "(u8 \<times> u64) list"
  fc_arrays :: "(u8 \<times> u16) list"
  temp_base :: nat
  temp_next :: nat
  max_regs :: nat
  bc_to_rop :: "nat \<Rightarrow> u16"
  bc_len :: nat
  fc_fixups :: "(nat \<times> u32) list"
  last_line :: u16

definition fc_emit :: "u8 \<Rightarrow> FastConv \<Rightarrow> FastConv" where
  "fc_emit b fc = (if length (rop_code fc) < BC_FAST_MAX_ROP_BYTES then fc\<lparr>rop_code := rop_code fc @ [b]\<rparr> else fc\<lparr>rop_overflow := True\<rparr>)"

definition fc_emits :: "u8 list \<Rightarrow> FastConv \<Rightarrow> FastConv" where
  "fc_emits bs fc = fold fc_emit bs fc"

definition fc_emit_i16 :: "u16 \<Rightarrow> FastConv \<Rightarrow> FastConv" where
  "fc_emit_i16 v fc = fc_emits (le_enc 2 (unat v)) fc"

definition fc_sim_push :: "u8 \<Rightarrow> FastConv \<Rightarrow> FastConv" where
  "fc_sim_push r fc = (if length (sim fc) < 64 then fc\<lparr>sim := r # sim fc\<rparr> else fc)"

definition fc_sim_pop :: "FastConv \<Rightarrow> u8 \<times> FastConv" where
  "fc_sim_pop fc = (case sim fc of [] \<Rightarrow> (0, fc) | r # rs \<Rightarrow> (r, fc\<lparr>sim := rs\<rparr>))"

definition fc_alloc_temp :: "FastConv \<Rightarrow> u8 \<times> FastConv" where
  "fc_alloc_temp fc =
     (of_nat (temp_next fc), fc\<lparr>temp_next := temp_next fc + 1, max_regs := max (max_regs fc) (temp_next fc + 1)\<rparr>)"

definition fc_reset_temps :: "FastConv \<Rightarrow> FastConv" where
  "fc_reset_temps fc = fc\<lparr>temp_next := temp_base fc\<rparr>"

text \<open>A new global or constant moves the temporaries up and starts them afresh.\<close>

definition rebase :: "FastConv \<Rightarrow> FastConv" where
  "rebase fc = (let b = nlocals fc + length (fc_globals fc) + length (fc_consts fc) in fc\<lparr>temp_base := b, temp_next := b\<rparr>)"

definition fc_global_reg :: "u16 \<Rightarrow> FastConv \<Rightarrow> u8 \<times> FastConv" where
  "fc_global_reg slot fc =
     (case find_index (\<lambda>g. g = slot) (fc_globals fc) of
        Some i \<Rightarrow> (of_nat (nlocals fc + i), fc)
      | None \<Rightarrow>
          if length (fc_globals fc) \<ge> 32 then (0, fc)
          else (of_nat (nlocals fc + length (fc_globals fc)), rebase (fc\<lparr>fc_globals := fc_globals fc @ [slot]\<rparr>)))"

definition const_reg :: "(u8 \<times> u64 \<Rightarrow> bool) \<Rightarrow> u8 \<times> u64 \<Rightarrow> FastConv \<Rightarrow> u8 \<times> FastConv" where
  "const_reg same c fc =
     (let base = nlocals fc + length (fc_globals fc) in
      case find_index same (fc_consts fc) of
        Some i \<Rightarrow> (of_nat (base + i), fc)
      | None \<Rightarrow>
          if length (fc_consts fc) \<ge> 32 then (0, fc)
          else (of_nat (base + length (fc_consts fc)), rebase (fc\<lparr>fc_consts := fc_consts fc @ [c]\<rparr>)))"

definition fc_const_reg_i :: "i64 \<Rightarrow> FastConv \<Rightarrow> u8 \<times> FastConv" where
  "fc_const_reg_i v fc = const_reg (\<lambda>(t, w). t = T_INT \<and> w = v) (T_INT, v) fc"

text \<open>Floating constants are looked up with the comparison of doubles.\<close>

definition fc_const_reg_f :: "u64 \<Rightarrow> FastConv \<Rightarrow> u8 \<times> FastConv" where
  "fc_const_reg_f v fc = const_reg (\<lambda>(t, w). t = T_NBR \<and> f_eq w v) (T_NBR, v) fc"

definition fc_array_ref :: "u8 \<Rightarrow> u16 \<Rightarrow> FastConv \<Rightarrow> u8 \<times> FastConv" where
  "fc_array_ref l slot fc =
     (case find_index (\<lambda>a. a = (l, slot)) (fc_arrays fc) of
        Some i \<Rightarrow> (of_nat i, fc)
      | None \<Rightarrow> if length (fc_arrays fc) \<ge> 16 then (0, fc)
                else (of_nat (length (fc_arrays fc)), fc\<lparr>fc_arrays := fc_arrays fc @ [(l, slot)]\<rparr>))"

definition fc_emit_3reg :: "u8 \<Rightarrow> u8 \<Rightarrow> u8 \<Rightarrow> u8 \<Rightarrow> FastConv \<Rightarrow> FastConv" where
  "fc_emit_3reg op d a b fc = fc_emits [op, d, a, b] fc"

definition fc_emit_2reg :: "u8 \<Rightarrow> u8 \<Rightarrow> u8 \<Rightarrow> FastConv \<Rightarrow> FastConv" where
  "fc_emit_2reg op d a fc = fc_emits [op, d, a] fc"

section \<open>Retargeting the last micro-operation\<close>

text \<open>
  The code looks \<open>n\<close> bytes back for an opcode of that length whose destination is \<open>old\<close>; what it finds
  there may be an operand of another micro-operation.
\<close>

definition op4_dst :: "u8 \<Rightarrow> bool" where
  "op4_dst op \<longleftrightarrow> ROP_ADD_I \<le> op \<and> op \<le> ROP_DIV_F \<or> ROP_AND \<le> op \<and> op \<le> ROP_SHR \<or> ROP_EQ_I \<le> op \<and> op \<le> ROP_GE_I
     \<or> op = ROP_SQRDIV \<or> op = ROP_SQRSHR"

definition op5_dst :: "u8 \<Rightarrow> bool" where "op5_dst op \<longleftrightarrow> op = ROP_MULDIV \<or> op = ROP_MULSHR"
definition op6_dst :: "u8 \<Rightarrow> bool" where "op6_dst op \<longleftrightarrow> op = ROP_MULSHRADD"
definition op3_dst :: "u8 \<Rightarrow> bool" where
  "op3_dst op \<longleftrightarrow> ROP_NEG_I \<le> op \<and> op \<le> ROP_INV \<or> op = ROP_MOV \<or> op = ROP_CVT_I2F \<or> op = ROP_CVT_F2I"

definition dst_back :: "nat \<Rightarrow> (u8 \<Rightarrow> bool) \<Rightarrow> u8 \<Rightarrow> u8 list \<Rightarrow> bool" where
  "dst_back n P old bs \<longleftrightarrow> length bs \<ge> n \<and> P (bs ! (length bs - n)) \<and> bs ! (length bs - (n - 1)) = old"

definition fc_patch_prev_dst :: "u8 \<Rightarrow> u8 \<Rightarrow> FastConv \<Rightarrow> FastConv option" where
  "fc_patch_prev_dst old new fc =
     (let bs = rop_code fc; put = (\<lambda>n. Some (fc\<lparr>rop_code := bs[length bs - (n - 1) := new]\<rparr>)) in
      if dst_back 4 op4_dst old bs then put 4
      else if dst_back 5 op5_dst old bs then put 5
      else if dst_back 6 op6_dst old bs then put 6
      else if dst_back 3 op3_dst old bs then put 3
      else None)"

definition fc_add_fixup :: "nat \<Rightarrow> u32 \<Rightarrow> FastConv \<Rightarrow> FastConv" where
  "fc_add_fixup addr target fc = (if length (fc_fixups fc) < 64 then fc\<lparr>fc_fixups := fc_fixups fc @ [(addr, target)]\<rparr> else fc)"

section \<open>Constants first\<close>

text \<open>
  The scan for constants. It skips the operands of the opcodes it knows and takes every other opcode
  for one without operands. \<open>None\<close>: a constant is read past the end of the code.
\<close>

definition prescan_skip :: "u8 \<Rightarrow> nat" where
  "prescan_skip op =
     (if op \<in> {OP_LOAD_LOCAL_I, OP_LOAD_LOCAL_F, OP_LOAD_LOCAL_S, OP_STORE_LOCAL_I, OP_STORE_LOCAL_F, OP_STORE_LOCAL_S,
               OP_LOAD_I, OP_LOAD_F, OP_LOAD_S, OP_STORE_I, OP_STORE_F, OP_STORE_S, OP_INC_I, OP_LINE, OP_JMP, OP_JZ, OP_JNZ} then 2
      else if op \<in> {OP_LOAD_ARR_I, OP_LOAD_ARR_F, OP_LOAD_ARR_S, OP_STORE_ARR_I, OP_STORE_ARR_F, OP_STORE_ARR_S, OP_JCMP_I, OP_JCMP_F} then 3
      else if op = OP_MOV_VAR then 5 else 0)"

fun fc_prescan :: "nat \<Rightarrow> u8 list \<Rightarrow> FastConv \<Rightarrow> FastConv option" where
  "fc_prescan 0 bs fc = Some fc"
| "fc_prescan (Suc n) bs fc =
     (case bs of [] \<Rightarrow> Some fc
      | op # r \<Rightarrow>
          if op = OP_PUSH_INT \<or> op = OP_PUSH_FLT then
            (if length r < 8 then None
             else let v = of_nat (le_dec (take 8 r)) in
               fc_prescan n (drop 8 r) (snd (if op = OP_PUSH_INT then fc_const_reg_i v fc else fc_const_reg_f v fc)))
          else if op = OP_PUSH_ZERO then fc_prescan n r (snd (fc_const_reg_i 0 fc))
          else if op = OP_PUSH_ONE then fc_prescan n r (snd (fc_const_reg_i 1 fc))
          else fc_prescan n (drop (prescan_skip op) r) fc)"

section \<open>One instruction\<close>

definition settle :: "FastConv \<Rightarrow> FastConv" where
  "settle fc = (if sim fc = [] then fc_reset_temps fc else fc)"

definition rop_of_ibin :: "ibin \<Rightarrow> u8" where
  "rop_of_ibin b = (case b of ADD \<Rightarrow> ROP_ADD_I | SUB \<Rightarrow> ROP_SUB_I | MUL \<Rightarrow> ROP_MUL_I | IDIV \<Rightarrow> ROP_IDIV_I | MOD \<Rightarrow> ROP_MOD_I
     | BAND \<Rightarrow> ROP_AND | BOR \<Rightarrow> ROP_OR | BXOR \<Rightarrow> ROP_XOR | SHL \<Rightarrow> ROP_SHL | SHR \<Rightarrow> ROP_SHR)"

definition rop_of_fbin :: "fbin \<Rightarrow> u8 option" where
  "rop_of_fbin b = (case b of FADD \<Rightarrow> Some ROP_ADD_F | FSUB \<Rightarrow> Some ROP_SUB_F | FMUL \<Rightarrow> Some ROP_MUL_F | FDIV \<Rightarrow> Some ROP_DIV_F | _ \<Rightarrow> None)"

definition rop_of_cmp :: "rel \<Rightarrow> u8" where
  "rop_of_cmp r = (case r of EQ \<Rightarrow> ROP_EQ_I | NE \<Rightarrow> ROP_NE_I | LT \<Rightarrow> ROP_LT_I | GT \<Rightarrow> ROP_GT_I | LE \<Rightarrow> ROP_LE_I | GE \<Rightarrow> ROP_GE_I)"

definition jcmp_relation :: "u8 \<Rightarrow> rel option" where
  "jcmp_relation r = (if r = 1 then Some EQ else if r = 2 then Some NE else if r = 3 then Some LT
     else if r = 4 then Some GT else if r = 5 then Some LE else if r = 6 then Some GE else None)"

definition rop_of_jcmp :: "rel \<Rightarrow> u8" where
  "rop_of_jcmp r = (case r of EQ \<Rightarrow> ROP_JCMP_EQ_I | NE \<Rightarrow> ROP_JCMP_NE_I | LT \<Rightarrow> ROP_JCMP_LT_I | GT \<Rightarrow> ROP_JCMP_GT_I
     | LE \<Rightarrow> ROP_JCMP_LE_I | GE \<Rightarrow> ROP_JCMP_GE_I)"

text \<open>Operands are popped last first; the result goes to a new temporary.\<close>

fun fc_pops :: "nat \<Rightarrow> u8 list \<Rightarrow> FastConv \<Rightarrow> u8 list \<times> FastConv" where
  "fc_pops 0 rs fc = (rs, fc)"
| "fc_pops (Suc n) rs fc = (let (r, fc') = fc_sim_pop fc in fc_pops n (r # rs) fc')"

definition conv_op :: "nat \<Rightarrow> u8 \<Rightarrow> FastConv \<Rightarrow> FastConv" where
  "conv_op n op fc =
     (let (rs, fc1) = fc_pops n [] fc; (d, fc2) = fc_alloc_temp fc1 in fc_sim_push d (fc_emits (op # d # rs) fc2))"

definition conv_store :: "u8 \<Rightarrow> FastConv \<Rightarrow> FastConv" where
  "conv_store dst fc =
     (let (src, fc1) = fc_sim_pop fc in
      settle (if src = dst then fc1
              else case fc_patch_prev_dst src dst fc1 of Some fc2 \<Rightarrow> fc2 | None \<Rightarrow> fc_emit_2reg ROP_MOV dst src fc1))"

text \<open>
  Where a jump leads: \<open>bc_here + off\<close> in 32 bits, so that a target before the loop is a large number and
  counts as one past its end. A backward target must be mapped already, for a forward one a fixup is kept.
\<close>

definition jump_target :: "nat \<Rightarrow> u16 \<Rightarrow> u32" where
  "jump_target here off = word_of_int (int here + sint off)"

definition emit_target :: "nat \<Rightarrow> u32 \<Rightarrow> FastConv \<Rightarrow> FastConv" where
  "emit_target bc_off target fc =
     (if unat target \<le> bc_off
      then fc_emit_i16 (word_of_int (uint (bc_to_rop fc (unat target)) - (int (length (rop_code fc)) + 2))) fc
      else fc_add_fixup (length (rop_code fc)) target (fc_emit_i16 0 fc))"

definition conv_jump :: "nat \<Rightarrow> u8 \<Rightarrow> nat \<Rightarrow> nat \<Rightarrow> u16 \<Rightarrow> FastConv \<Rightarrow> FastConv" where
  "conv_jump n op bc_off here off fc =
     (let (rs, fc1) = fc_pops n [] fc in settle (emit_target bc_off (jump_target here off) (fc_emits (op # rs) fc1)))"

definition conv_jmp :: "nat \<Rightarrow> nat \<Rightarrow> u16 \<Rightarrow> FastConv \<Rightarrow> FastConv" where
  "conv_jmp bc_off here off fc =
     (let t = jump_target here off in
      if unat t \<ge> bc_len fc then fc_emit ROP_EXIT fc else emit_target bc_off t (fc_emit ROP_JMP fc))"

definition raw_reg :: "u16 \<Rightarrow> FastConv \<Rightarrow> u8 \<times> FastConv" where
  "raw_reg raw fc = (if raw AND 0x8000 \<noteq> 0 then (ucast (raw AND 0x7FFF), fc) else fc_global_reg (raw AND 0x7FFF) fc)"

definition conv_inc :: "u16 \<Rightarrow> FastConv \<Rightarrow> FastConv" where
  "conv_inc raw fc =
     (let (delta, fc1) = fc_sim_pop fc; (dst, fc2) = raw_reg raw fc1 in settle (fc_emit_3reg ROP_ADD_I dst dst delta fc2))"

definition conv_mov :: "u16 \<Rightarrow> u16 \<Rightarrow> FastConv \<Rightarrow> FastConv" where
  "conv_mov src_raw dst_raw fc =
     (let (s, fc1) = raw_reg src_raw fc; (d, fc2) = raw_reg dst_raw fc1 in if s \<noteq> d then fc_emit_2reg ROP_MOV d s fc2 else fc2)"

definition loc_flag :: "scope \<Rightarrow> u8" where
  "loc_flag sc = (case sc of Local \<Rightarrow> 1 | Global \<Rightarrow> 0)"

definition conv_load_arr :: "scope \<Rightarrow> vty \<Rightarrow> u16 \<Rightarrow> FastConv \<Rightarrow> FastConv" where
  "conv_load_arr sc t slot fc =
     (let (ai, fc1) = fc_array_ref (loc_flag sc) slot fc; (ix, fc2) = fc_sim_pop fc1; (d, fc3) = fc_alloc_temp fc2 in
      fc_sim_push d (fc_emits [if t = TF then ROP_LOAD_ARR_F else ROP_LOAD_ARR_I, d, ai, ix] fc3))"

definition conv_store_arr :: "scope \<Rightarrow> vty \<Rightarrow> u16 \<Rightarrow> FastConv \<Rightarrow> FastConv" where
  "conv_store_arr sc t slot fc =
     (let (v, fc1) = fc_sim_pop fc; (ix, fc2) = fc_sim_pop fc1; (ai, fc3) = fc_array_ref (loc_flag sc) slot fc2 in
      settle (fc_emits [if t = TF then ROP_STORE_ARR_F else ROP_STORE_ARR_I, v, ai, ix] fc3))"

definition only_1d :: "u8 \<Rightarrow> string" where
  "only_1d ndim = CHR 0x27 # ''!FAST: only 1D arrays supported (got '' @ dec_nat (unat ndim) @ ''D)''"

text \<open>\<open>Inr\<close> the new state, \<open>Inl\<close> the error. \<open>off\<close> and \<open>here\<close> are the offsets of the instruction and of the next one.\<close>

definition conv_instr :: "u8 \<Rightarrow> nat \<Rightarrow> nat \<Rightarrow> instr \<Rightarrow> FastConv \<Rightarrow> string + FastConv" where
  "conv_instr op off here i fc =
     (let unsupported = Inl (CHR 0x27 # ''!FAST: unsupported opcode 0x'' @ hex2 op @ '' at line '' @ dec_nat (unat (last_line fc))) in
      case i of
        I_LOAD sc t n \<Rightarrow>
          if t = TS then unsupported
          else (case sc of Local \<Rightarrow> Inr (fc_sim_push (ucast n) fc)
                | Global \<Rightarrow> let (r, fc1) = fc_global_reg n fc in Inr (fc_sim_push r fc1))
      | I_STORE sc t n \<Rightarrow>
          if t = TS then unsupported
          else (case sc of Local \<Rightarrow> Inr (conv_store (ucast n) fc)
                | Global \<Rightarrow> let (r, fc1) = fc_global_reg n fc in Inr (conv_store r fc1))
      | I_PUSH_INT v \<Rightarrow> (let (r, fc1) = fc_const_reg_i v fc in Inr (fc_sim_push r fc1))
      | I_PUSH_FLT v \<Rightarrow> (let (r, fc1) = fc_const_reg_f v fc in Inr (fc_sim_push r fc1))
      | I_PUSH_ZERO \<Rightarrow> (let (r, fc1) = fc_const_reg_i 0 fc in Inr (fc_sim_push r fc1))
      | I_PUSH_ONE \<Rightarrow> (let (r, fc1) = fc_const_reg_i 1 fc in Inr (fc_sim_push r fc1))
      | I_BIN_I b \<Rightarrow> Inr (conv_op 2 (rop_of_ibin b) fc)
      | I_BIN_F b \<Rightarrow> (case rop_of_fbin b of Some r \<Rightarrow> Inr (conv_op 2 r fc) | None \<Rightarrow> unsupported)
      | I_NEG_I \<Rightarrow> Inr (conv_op 1 ROP_NEG_I fc)
      | I_NEG_F \<Rightarrow> Inr (conv_op 1 ROP_NEG_F fc)
      | I_NOT \<Rightarrow> Inr (conv_op 1 ROP_NOT fc)
      | I_INV \<Rightarrow> Inr (conv_op 1 ROP_INV fc)
      | I_CMP t r \<Rightarrow> if t = TI then Inr (conv_op 2 (rop_of_cmp r) fc) else unsupported
      | I_CVT_I2F \<Rightarrow> Inr (conv_op 1 ROP_CVT_I2F fc)
      | I_CVT_F2I \<Rightarrow> Inr (conv_op 1 ROP_CVT_F2I fc)
      | I_MATH f \<Rightarrow>
          (case f of SQRDIV \<Rightarrow> Inr (conv_op 2 ROP_SQRDIV fc) | SQRSHR \<Rightarrow> Inr (conv_op 2 ROP_SQRSHR fc)
           | MULDIV \<Rightarrow> Inr (conv_op 3 ROP_MULDIV fc) | MULSHR \<Rightarrow> Inr (conv_op 3 ROP_MULSHR fc)
           | MULSHRADD \<Rightarrow> Inr (conv_op 4 ROP_MULSHRADD fc) | _ \<Rightarrow> unsupported)
      | I_JCMP_I r d \<Rightarrow>
          (case jcmp_relation r of Some c \<Rightarrow> Inr (conv_jump 2 (rop_of_jcmp c) off here d fc)
           | None \<Rightarrow> Inl (CHR 0x27 # ''!FAST: unknown JCMP relation '' @ dec_nat (unat r)))
      | I_JZ d \<Rightarrow> Inr (conv_jump 1 ROP_JZ off here d fc)
      | I_JNZ d \<Rightarrow> Inr (conv_jump 1 ROP_JNZ off here d fc)
      | I_JMP d \<Rightarrow> Inr (conv_jmp off here d fc)
      | I_INC_I raw \<Rightarrow> Inr (conv_inc raw fc)
      | I_MOV_VAR kind a b \<Rightarrow> Inr (conv_mov a b fc)
      | I_LOAD_ARR sc t n d \<Rightarrow> if t = TS then unsupported else if d \<noteq> 1 then Inl (only_1d d) else Inr (conv_load_arr sc t n fc)
      | I_STORE_ARR sc t n d \<Rightarrow> if t = TS then unsupported else if d \<noteq> 1 then Inl (only_1d d) else Inr (conv_store_arr sc t n fc)
      | I_LINE n \<Rightarrow> Inr (fc\<lparr>last_line := n\<rparr>)
      | I_CHECKINT \<Rightarrow> Inr (fc_emit ROP_CHECKINT fc)
      | _ \<Rightarrow> unsupported)"

section \<open>The loop\<close>

text \<open>Every round takes at least the opcode, so the number of bytes is enough fuel.\<close>

fun conv_loop :: "nat \<Rightarrow> u8 list \<Rightarrow> nat \<Rightarrow> FastConv \<Rightarrow> (string + FastConv) option" where
  "conv_loop 0 L off fc = Some (Inr fc)"
| "conv_loop (Suc n) L off fc =
     (if off \<ge> length L then Some (Inr fc)
      else
        let fc1 = fc\<lparr>bc_to_rop := (bc_to_rop fc)(off := of_nat (length (rop_code fc)))\<rparr>; op = L ! off in
        case decode (drop off L) of
          Trunc \<Rightarrow> None
        | Other b \<Rightarrow> Some (Inl (CHR 0x27 # ''!FAST: unsupported opcode 0x'' @ hex2 op @ '' at line '' @ dec_nat (unat (last_line fc))))
        | Instr i rest \<Rightarrow>
            let here = length L - length rest in
            (case conv_instr op off here i fc1 of Inl e \<Rightarrow> Some (Inl e) | Inr fc2 \<Rightarrow> conv_loop n L here fc2))"

definition fixup_rop :: "FastConv \<Rightarrow> u32 \<Rightarrow> u16" where
  "fixup_rop fc t = (if unat t \<ge> bc_len fc then of_nat (length (rop_code fc)) else bc_to_rop fc (unat t))"

fun fc_resolve :: "(nat \<times> u32) list \<Rightarrow> FastConv \<Rightarrow> string + FastConv" where
  "fc_resolve [] fc = Inr fc"
| "fc_resolve ((addr, t) # fs) fc =
     (if unat t < bc_len fc \<and> bc_to_rop fc (unat t) = 0xFFFF
      then Inl (CHR 0x27 # ''!FAST: jump target offset '' @ dec_nat (unat t) @ '' not mapped'')
      else fc_resolve fs (fc\<lparr>rop_code := splice (rop_code fc) addr
             (le_enc 2 (unat (word_of_int (uint (fixup_rop fc t) - (int addr + 2)) :: u16)))\<rparr>))"

definition fc_init :: "BCCompiler \<Rightarrow> nat \<Rightarrow> FastConv" where
  "fc_init cs len =
     (let n = (if current_subfun cs \<ge> 0 then length (cs_locals cs) else 0) in
      \<lparr>rop_code = [], rop_overflow = False, sim = [], nlocals = n, fc_globals = [], fc_consts = [], fc_arrays = [],
       temp_base = n, temp_next = n, max_regs = n, bc_to_rop = (\<lambda>_. 0xFFFF), bc_len = len, fc_fixups = [], last_line = 0\<rparr>)"

text \<open>The code of the block, from the finished converter.\<close>

definition emit_block :: "FastConv \<Rightarrow> BCCompiler \<Rightarrow> BCCompiler" where
  "emit_block fc cs =
     (let total_payload = 5 + 2 * length (fc_globals fc) + 3 * length (fc_arrays fc) + 9 * length (fc_consts fc) + length (rop_code fc);
          cs1 = bc_emit_u16 (bc_emit_byte cs OP_FAST_LOOP) (of_nat total_payload);
          cs2 = fold (\<lambda>n c. bc_emit_byte c (of_nat n))
                  [max_regs fc, nlocals fc, length (fc_globals fc), length (fc_consts fc), length (fc_arrays fc)] cs1;
          cs3 = fold (\<lambda>g c. bc_emit_u16 c g) (fc_globals fc) cs2;
          cs4 = fold (\<lambda>(l, slot) c. bc_emit_u16 (bc_emit_byte c l) slot) (fc_arrays fc) cs3;
          cs5 = fold (\<lambda>(t, v) c. if t = T_INT then bc_emit_i64 (bc_emit_byte c t) v else bc_emit_f64 (bc_emit_byte c t) v) (fc_consts fc) cs4
      in fold (\<lambda>b c. bc_emit_byte c b) (rop_code fc) cs5)"

text \<open>
  The code from \<open>loop_start\<close> to its end, converted; \<open>True\<close> on success. The working memory is assumed
  to be available. \<open>None\<close>: bytes behind the end of the code are read.
\<close>

definition source_convert_fast_loop :: "BCCompiler \<Rightarrow> nat \<Rightarrow> (BCCompiler \<times> bool) option" where
  "source_convert_fast_loop cs loop_start =
     (let L = drop loop_start (code cs); fc0 = fc_init cs (length L); failed = (\<lambda>msg. Some (bc_set_error cs msg, False)) in
      if length L > BC_FAST_MAX_BC_BYTES then failed (CHR 0x27 # ''!FAST loop too large'')
      else if nlocals fc0 = 0 then failed (CHR 0x27 # ''!FAST requires loop to be inside a SUB or FUNCTION'')
      else case fc_prescan (length L) L fc0 of
        None \<Rightarrow> None
      | Some fc1 \<Rightarrow>
          (case conv_loop (length L) L 0 fc1 of
             None \<Rightarrow> None
           | Some (Inl e) \<Rightarrow> failed e
           | Some (Inr fc2) \<Rightarrow>
               let fc3 = fc2\<lparr>bc_to_rop := (bc_to_rop fc2)(length L := of_nat (length (rop_code fc2)))\<rparr> in
               if rop_overflow fc3 then failed (CHR 0x27 # ''!FAST loop output too large'')
               else case fc_resolve (fc_fixups fc3) fc3 of
                 Inl e \<Rightarrow> failed e
               | Inr fc4 \<Rightarrow>
                   let fc5 = fc_emit ROP_EXIT fc4 in
                   if max_regs fc5 > MAX_FAST_REGS
                   then failed (CHR 0x27 # ''!FAST: too many registers needed ('' @ dec_nat (max_regs fc5) @ '' > '' @ dec_nat MAX_FAST_REGS @ '')'')
                   else Some (emit_block fc5 (cs\<lparr>code := take loop_start (code cs)\<rparr>), True)))"

end
