(* ===== verification/SrcStmt.thy ===== *)
theory SrcStmt
  imports SrcExpr SrcFast
begin

text \<open>
  Statements of \<open>runtime/vm/bc_source.c\<close>, first part: assignment, \<open>FOR\<close> and \<open>NEXT\<close>, jumps, \<open>CONST\<close>, \<open>DATA\<close>,
  \<open>READ\<close>, \<open>INC\<close>. A statement compiler takes the compiler and the text behind the keyword and gives the
  compiler and the rest of the text; errors are recorded in the compiler. \<open>None\<close>: an access outside
  an array of the C code. \<open>E\<close> is \<open>source_parse_expression\<close>.
\<close>

type_synonym stmt = "BCCompiler \<Rightarrow> cstr \<Rightarrow> (BCCompiler \<times> cstr) option"

section \<open>Small parts\<close>

definition fail :: "string \<Rightarrow> stmt" where
  "fail msg cs p = Some (bc_set_error cs msg, p)"

definition sq :: "char \<Rightarrow> string" where
  "sq c = [CHR 0x27, c, CHR 0x27]"

text \<open>The expression at the text; an error ends the statement there.\<close>

definition expr_or :: "parser \<Rightarrow> BCCompiler \<Rightarrow> cstr \<Rightarrow> (u8 \<Rightarrow> stmt) \<Rightarrow> (BCCompiler \<times> cstr) option" where
  "expr_or E cs p k = (let (ty, cs1, p1) = E cs p in if has_error cs1 then Some (cs1, p1) else k ty cs1 p1)"

definition kw :: "cstr \<Rightarrow> string \<Rightarrow> cstr option" where
  "kw p s = source_keyword p (bytes_of s)"

text \<open>\<open>strncasecmp(p, s, n) == 0 && !isnamechar(p[n])\<close>\<close>

definition word_at :: "cstr \<Rightarrow> string \<Rightarrow> bool" where
  "word_at p s \<longleftrightarrow> same_name (take (length s) p) (bytes_of s) \<and> \<not> isnamechar (at (drop (length s) p))"

text \<open>End of the statement: end of text, comment or colon.\<close>

definition at_end :: "cstr \<Rightarrow> bool" where
  "at_end p \<longleftrightarrow> at p = 0 \<or> at p = 0x27 \<or> at p = 0x3A"

fun patch_all :: "u32 list \<Rightarrow> BCCompiler \<Rightarrow> BCCompiler option" where
  "patch_all [] cs = Some cs"
| "patch_all (a # as) cs = Option.bind (source_patch_jmp_here cs a) (patch_all as)"

definition set_entry :: "nat \<Rightarrow> (BCNestEntry \<Rightarrow> BCNestEntry) \<Rightarrow> BCCompiler \<Rightarrow> BCCompiler" where
  "set_entry i f cs = cs\<lparr>nest_stack := (nest_stack cs)[i := f (nest_stack cs ! i)]\<rparr>"

text \<open>\<open>bc_nest_push(cs, ty); ne = bc_nest_top(cs); if (ne) ...\<close>: when the push failed, \<open>ne\<close> is the entry below.\<close>

definition nest_open :: "BCNestType \<Rightarrow> (BCNestEntry \<Rightarrow> BCNestEntry) \<Rightarrow> BCCompiler \<Rightarrow> BCCompiler" where
  "nest_open ty f cs =
     (let cs1 = bc_nest_push cs ty in case bc_nest_top cs1 of None \<Rightarrow> cs1 | Some i \<Rightarrow> set_entry i f cs1)"

definition here :: "BCCompiler \<Rightarrow> u32" where
  "here cs = of_nat (length (code cs))"

definition jmp_back :: "BCCompiler \<Rightarrow> u32 \<Rightarrow> BCCompiler" where
  "jmp_back cs target = (let cs1 = bc_emit_byte cs OP_JMP in bc_emit_i16 cs1 (ucast (target - (here cs1 + 2))))"

definition push_int :: "BCCompiler \<Rightarrow> int \<Rightarrow> BCCompiler" where
  "push_int cs v = bc_emit_i64 (bc_emit_byte cs OP_PUSH_INT) (word_of_int v)"

section \<open>Statements handed to the interpreter\<close>

text \<open>The tokens of the statement behind \<open>OP_BRIDGE_CMD\<close>.\<close>

definition emit_bridge_cmd :: "frontend \<Rightarrow> string \<Rightarrow> BCCompiler \<Rightarrow> cstr \<Rightarrow> BCCompiler" where
  "emit_bridge_cmd fe msg cs stmt =
     (let toks = tokenise fe (take (STRINGSIZE - 1) stmt); n = unat (of_nat (tokens_end toks) :: u16) in
      if n < 2 then bc_set_error cs msg
      else fold (\<lambda>b c. bc_emit_byte c b) (take n toks) (bc_emit_u16 (bc_emit_byte cs OP_BRIDGE_CMD) (of_nat n)))"

definition source_emit_bridge_for_stmt :: "frontend \<Rightarrow> BCCompiler \<Rightarrow> cstr \<Rightarrow> BCCompiler" where
  "source_emit_bridge_for_stmt fe cs stmt = emit_bridge_cmd fe ''Unable to tokenise DIM statement'' cs stmt"

section \<open>Assignment\<close>

text \<open>
  Whether the left side is a whole structure: a struct variable, an element of an array of them, or a
  path that ends in a struct member. Every member is looked up in the struct the variable has.
\<close>

fun whole_struct_walk :: "nat \<Rightarrow> frontend \<Rightarrow> int \<Rightarrow> u8 \<Rightarrow> cstr \<Rightarrow> cstr \<Rightarrow> (u8 \<times> cstr) option" where
  "whole_struct_walk 0 fe idx ty tail q = None"
| "whole_struct_walk (Suc n) fe idx ty tail q =
     (if tail = [] \<and> at (source_skip_space q) \<noteq> 0x2E then Some (ty, q)
      else let (name, tail1, q1) = next_member tail q in
        if name = [] then Some (ty, q1)
        else case FindStructMember fe idx name of
          None \<Rightarrow> None
        | Some m \<Rightarrow>
            let q2 = source_skip_space q1 in
            (case (if at q2 = 0x28 \<and> sm_dims m ! 0 \<noteq> 0 then close_paren 0 q2 else Some q2) of
               None \<Rightarrow> None
             | Some q3 \<Rightarrow>
                 if at tail1 = 0x2E \<or> at (source_skip_space q3) = 0x2E then whole_struct_walk n fe idx (sm_type m) tail1 q3
                 else Some (sm_type m, q3)))"

definition source_lhs_is_whole_struct :: "frontend \<Rightarrow> BCCompiler \<Rightarrow> cstr \<Rightarrow> bool" where
  "source_lhs_is_whole_struct fe cs p =
     (case source_parse_varname p of
        None \<Rightarrow> False
      | Some (name, _, probe) \<Rightarrow>
          let dot = 0x2E \<in> set name;
              base = (if dot then takeWhile (\<lambda>c. c \<noteq> 0x2E) name else name); slot = bc_find_slot cs base;
              tail = (if dot then drop (length base + 1) name else []); q = source_skip_space probe in
          if base = [] \<or> slot = 0xFFFF \<or> slot_type (slots cs ! unat slot) \<noteq> T_STRUCT \<or>
             struct_at fe (slot_struct_idx (slots cs ! unat slot)) = None then False
          else case (if at q = 0x28 \<and> tail = [] then close_paren 0 q else Some q) of
            None \<Rightarrow> False
          | Some q1 \<Rightarrow>
              (case whole_struct_walk MAX_STRUCT_NEST_DEPTH fe (slot_struct_idx (slots cs ! unat slot)) T_STRUCT tail q1 of
                 None \<Rightarrow> False
               | Some (ty, q2) \<Rightarrow> at (source_skip_space q2) = 0x3D \<and> ty = T_STRUCT))"

definition source_emit_struct_chain_store ::
    "frontend \<Rightarrow> parser \<Rightarrow> u16 \<Rightarrow> cstr \<Rightarrow> BCCompiler \<Rightarrow> cstr \<Rightarrow> BCCompiler \<times> (chain \<times> cstr) option" where
  "source_emit_struct_chain_store fe E slot tail cs p =
     (case struct_at fe (slot_struct_idx (slots cs ! unat slot)) of
        None \<Rightarrow> (bc_set_error cs ''Invalid struct type on slot'', None)
      | Some _ \<Rightarrow> source_walk_struct_tail MAX_STRUCT_NEST_DEPTH fe E (slot_struct_idx (slots cs ! unat slot)) 0 [] tail cs p)"

text \<open>\<open>None\<close>: the name is no struct path; otherwise its slot and what the walk gave.\<close>

definition source_try_begin_struct_field_store ::
    "frontend \<Rightarrow> parser \<Rightarrow> cstr \<Rightarrow> BCCompiler \<Rightarrow> cstr \<Rightarrow> (u16 \<times> BCCompiler \<times> (chain \<times> cstr) option) option" where
  "source_try_begin_struct_field_store fe E name cs p =
     map_option (\<lambda>(slot, tail). (slot, source_emit_struct_chain_store fe E slot tail cs p)) (struct_base_of cs name)"

definition type_clash :: "string \<Rightarrow> bool \<Rightarrow> u8 \<Rightarrow> string option" where
  "type_clash what target_str etype =
     (if target_str \<and> \<not> is_str etype then Some (''Cannot assign numeric expression to string '' @ what)
      else if \<not> target_str \<and> is_str etype then Some (''Cannot assign string expression to numeric '' @ what)
      else None)"

definition cvt_to :: "u8 \<Rightarrow> u8 \<Rightarrow> BCCompiler \<Rightarrow> BCCompiler" where
  "cvt_to vtype etype cs =
     (if vtype AND T_INT \<noteq> 0 \<and> etype AND T_NBR \<noteq> 0 then bc_emit_byte cs OP_CVT_F2I
      else if vtype AND T_NBR \<noteq> 0 \<and> etype AND T_INT \<noteq> 0 then bc_emit_byte cs OP_CVT_I2F else cs)"

text \<open>\<open>=\<close> and the value, stored by \<open>k\<close> when its type fits.\<close>

definition assign_value :: "parser \<Rightarrow> string \<Rightarrow> bool \<Rightarrow> BCCompiler \<Rightarrow> cstr \<Rightarrow> (u8 \<Rightarrow> nat \<Rightarrow> BCCompiler \<Rightarrow> BCCompiler option)
    \<Rightarrow> (BCCompiler \<times> cstr) option" where
  "assign_value E what target_str cs p0 k =
     (let p = source_skip_space p0; expr_start = length (code cs) in
      if at p \<noteq> 0x3D then fail (''Expected '' @ sq (CHR ''='')) cs p
      else expr_or E cs (drop 1 p) (\<lambda>ety cs1 p1.
        case type_clash what target_str ety of
          Some msg \<Rightarrow> fail msg cs1 p1
        | None \<Rightarrow> map_option (\<lambda>c. (c, p1)) (k ety expr_start cs1)))"

definition assign_member :: "frontend \<Rightarrow> parser \<Rightarrow> u16 \<Rightarrow> nat \<Rightarrow> chain \<Rightarrow> stmt" where
  "assign_member fe E slot ndim ch cs p =
     assign_value E ''member'' (leaf_type ch = T_STR) cs p (\<lambda>ety _ cs1.
       source_emit_struct_chain_store_finish fe (cvt_to (leaf_type ch) ety cs1) slot ndim ch)"

definition assign_pin :: "parser \<Rightarrow> stmt" where
  "assign_pin E cs p0 =
     (let p = source_skip_space p0 in
      if at p \<noteq> 0x28 then fail (''Expected '' @ sq (CHR ''('') @ '' after PIN'') cs p
      else let (cs1, p1) = source_compile_pin_operand E cs (drop 1 p) in
        if has_error cs1 then Some (cs1, p1)
        else let (ok, cs2, p2) = source_expect_char cs1 p1 0x29 (''Expected '' @ sq (CHR '')'') @ '' after PIN''); p3 = source_skip_space p2 in
          if \<not> ok then Some (cs2, p2)
          else if at p3 \<noteq> 0x3D then fail (''Expected '' @ sq (CHR ''='')) cs2 p3
          else let (ty, cs3, p4) = E cs2 (drop 1 p3) in
            Some (bc_emit_byte (source_emit_int_conversion cs3 ty) OP_PIN_WRITE, p4))"

definition is_struct_slot :: "BCCompiler \<Rightarrow> u16 \<Rightarrow> bool \<Rightarrow> bool" where
  "is_struct_slot cs slot loc \<longleftrightarrow> \<not> loc \<and> slot \<noteq> 0xFFFF \<and> slot_type (slots cs ! unat slot) = T_STRUCT"

definition assign_element :: "frontend \<Rightarrow> parser \<Rightarrow> u16 \<Rightarrow> bool \<Rightarrow> u8 \<Rightarrow> stmt" where
  "assign_element fe E slot loc vtype cs p =
     (let (ndim, cs1, p1) = source_parse_array_indices E cs p in
      if has_error cs1 then Some (cs1, p1)
      else let cs2 = mark_array cs1 slot loc; p2 = source_skip_space p1 in
        if is_struct_slot cs2 slot loc \<and> at p2 = 0x2E then
          (case source_emit_struct_chain_store fe E slot [] cs2 p2 of
             (cs3, None) \<Rightarrow> Some (cs3, p2)
           | (cs3, Some (ch, p3)) \<Rightarrow> assign_member fe E slot ndim ch cs3 p3)
        else assign_value E ''array'' (is_str vtype) cs2 p2 (\<lambda>ety _ cs3.
          Some (source_emit_store_array (cvt_to vtype ety cs3) slot vtype loc ndim)))"

definition assign_scalar :: "frontend \<Rightarrow> parser \<Rightarrow> u16 \<Rightarrow> bool \<Rightarrow> u8 \<Rightarrow> stmt" where
  "assign_scalar fe E slot loc vtype cs p =
     assign_value E ''variable'' (is_str vtype) cs p (\<lambda>ety expr_start cs1.
       let (fused, cs2) = source_try_fuse_mov_assignment (opt_level fe) cs1 expr_start slot loc vtype in
       Some (if fused then cs2 else source_emit_store_converted cs2 slot vtype ety loc))"

definition source_compile_assignment :: "frontend \<Rightarrow> parser \<Rightarrow> stmt" where
  "source_compile_assignment fe E cs p =
     (if source_lhs_is_whole_struct fe cs p then
        (let s = takeWhile (\<lambda>c. c \<noteq> 0x3A \<and> c \<noteq> 0x27) p in
         Some (source_emit_bridge_for_stmt fe cs (take (STRINGSIZE - 1) s), drop (length s) p))
      else case source_parse_varname p of
        None \<Rightarrow> fail ''Expected variable'' cs p
      | Some (name, suffix, p1) \<Rightarrow>
          if source_name_eq name (bytes_of ''PIN'') then assign_pin E cs p1
          else let vtype = (if suffix = 0 then source_default_var_type cs name else suffix); p2 = source_skip_space p1 in
            case source_try_begin_struct_field_store fe E name cs p2 of
              Some (slot, cs1, None) \<Rightarrow> Some (cs1, p2)
            | Some (slot, cs1, Some (ch, p3)) \<Rightarrow> assign_member fe E slot 0 ch cs1 p3
            | None \<Rightarrow>
                let (cs1, slot, loc) = source_resolve_var cs name vtype True in
                if at p2 = 0x28 then assign_element fe E slot loc vtype cs1 p2
                else assign_scalar fe E slot loc vtype cs1 p2)"

section \<open>FOR and NEXT\<close>

definition raw_of :: "u16 \<Rightarrow> bool \<Rightarrow> u16" where
  "raw_of slot loc = (if loc then slot OR 0x8000 else slot)"

definition alloc_hidden :: "BCCompiler \<Rightarrow> u8 \<Rightarrow> BCCompiler \<times> u16" where
  "alloc_hidden cs ty = (if current_subfun cs \<ge> 0 then source_alloc_hidden_local cs ty else source_alloc_hidden_slot cs ty)"

definition for_open :: "u8 \<Rightarrow> u16 \<Rightarrow> u16 \<Rightarrow> u16 \<Rightarrow> BCCompiler \<Rightarrow> BCCompiler" where
  "for_open vtype var lim step cs =
     (let cs1 = bc_emit_byte cs (if vtype = T_INT then OP_FOR_INIT_I else OP_FOR_INIT_F);
          cs2 = bc_emit_u16 (bc_emit_u16 (bc_emit_u16 cs1 var) lim) step; exit_patch = here cs2; cs3 = bc_emit_i16 cs2 0 in
      nest_open NEST_FOR (\<lambda>e. e\<lparr>ne_addr1 := here cs3, ne_addr2 := exit_patch, ne_var_slot := var, ne_lim_slot := lim,
         ne_step_slot := step, ne_var_type := vtype\<rparr>) cs3)"

text \<open>The step, 1 when none is given.\<close>

definition for_step :: "parser \<Rightarrow> u16 \<Rightarrow> u8 \<Rightarrow> bool \<Rightarrow> BCCompiler \<Rightarrow> cstr \<Rightarrow> (BCCompiler \<Rightarrow> BCCompiler) \<Rightarrow> (BCCompiler \<times> cstr) option" where
  "for_step E slot vtype loc cs p0 k =
     (let p = source_skip_space p0 in
      case kw p ''STEP'' of
        Some p1 \<Rightarrow> expr_or E cs p1 (\<lambda>ty cs1 p2. Some (k (source_emit_store_converted cs1 slot vtype ty loc), p2))
      | None \<Rightarrow>
          let cs1 = (if vtype = T_INT then bc_emit_byte cs OP_PUSH_ONE
                     else bc_emit_f64 (bc_emit_byte cs OP_PUSH_FLT) 0x3FF0000000000000)
          in Some (k (bc_emit_store_var cs1 slot vtype loc), p))"

definition source_compile_for :: "parser \<Rightarrow> stmt" where
  "source_compile_for E cs p0 =
     (case source_parse_varname p0 of
        None \<Rightarrow> fail ''Expected variable after FOR'' cs p0
      | Some (name, suffix, p1) \<Rightarrow>
          let vtype = (if suffix = 0 then source_default_var_type cs name else suffix); p2 = source_skip_space p1 in
          if at p2 \<noteq> 0x3D then fail (''Expected '' @ sq (CHR ''='') @ '' in FOR'') cs p2
          else let (cs1, var, loc) = source_resolve_var cs name vtype True in
            expr_or E cs1 (drop 1 p2) (\<lambda>start_type cs2 p3.
              let cs3 = source_emit_store_converted cs2 var vtype start_type loc; p4 = source_skip_space p3 in
              case kw p4 ''TO'' of
                None \<Rightarrow> fail ''Expected TO in FOR'' cs3 p4
              | Some p5 \<Rightarrow>
                  let loc = (current_subfun cs3 \<ge> 0); (cs4, lim) = alloc_hidden cs3 vtype; (cs5, step) = alloc_hidden cs4 vtype in
                  expr_or E cs5 p5 (\<lambda>limit_type cs6 p6.
                    for_step E step vtype loc (source_emit_store_converted cs6 lim vtype limit_type loc) p6
                      (for_open vtype (raw_of var loc) (raw_of lim loc) (raw_of step loc)))))"

text \<open>What closes a loop is compiled from the entry found; the entry popped is the top one.\<close>

definition source_emit_for_next_close :: "BCCompiler \<Rightarrow> nat \<Rightarrow> BCCompiler option" where
  "source_emit_for_next_close cs i =
     (let e = nest_stack cs ! i in
      Option.bind (patch_all (ne_continue_fixups e) cs) (\<lambda>cs1.
        let cs2 = bc_emit_byte cs1 (if ne_var_type e = T_INT then OP_FOR_NEXT_I else OP_FOR_NEXT_F);
            cs3 = bc_emit_u16 (bc_emit_u16 (bc_emit_u16 cs2 (ne_var_slot e)) (ne_lim_slot e)) (ne_step_slot e);
            cs4 = bc_emit_i16 cs3 (ucast (ne_addr1 e - (here cs3 + 2)))
        in Option.bind (bc_patch_i16 cs4 (ne_addr2 e) (ucast (here cs4 - (ne_addr2 e + 2)))) (\<lambda>cs5.
             map_option bc_nest_pop (patch_all (ne_exit_fixups e) cs5))))"

definition skip_name :: "cstr \<Rightarrow> cstr" where
  "skip_name p = (if isnamestart (at p) then (case source_parse_varname p of None \<Rightarrow> p | Some (_, _, q) \<Rightarrow> source_skip_space q) else p)"

fun next_more :: "nat \<Rightarrow> stmt" where
  "next_more 0 cs p = Some (cs, p)"
| "next_more (Suc n) cs p =
     (if at p \<noteq> 0x2C then Some (cs, p)
      else case bc_nest_find cs NEST_FOR of
        None \<Rightarrow> fail ''NEXT without matching FOR'' cs (drop 1 p)
      | Some i \<Rightarrow> Option.bind (source_emit_for_next_close cs i) (\<lambda>cs1. next_more n cs1 (skip_name (source_skip_space (drop 1 p)))))"

definition source_compile_next :: "frontend \<Rightarrow> BCCompiler \<Rightarrow> cstr \<Rightarrow> (frontend \<times> BCCompiler \<times> cstr) option" where
  "source_compile_next fe cs p0 =
     (if fast_next_loop fe
      then Some (fe\<lparr>fast_next_loop := False\<rparr>,
        bc_set_error cs (CHR 0x27 # ''!FAST not yet supported for FOR loops (use DO WHILE instead)''), p0)
      else case bc_nest_find cs NEST_FOR of
        None \<Rightarrow> Some (fe, bc_set_error cs ''NEXT without matching FOR'', p0)
      | Some i \<Rightarrow>
          Option.bind (source_emit_for_next_close cs i) (\<lambda>cs1.
            let p = source_skip_space p0 in
            map_option (\<lambda>(c, q). (fe, c, q)) (if isnamestart (at p) then next_more (length p) cs1 (skip_name p) else Some (cs1, p))))"

section \<open>Jumps\<close>

definition is_label_char :: "u8 \<Rightarrow> bool" where
  "is_label_char c \<longleftrightarrow> isalnum8 c \<or> c = 0x5F \<or> c = 0x2E"

definition emit_label_ref :: "BCCompiler \<Rightarrow> u8 \<Rightarrow> cstr \<Rightarrow> BCCompiler option" where
  "emit_label_ref cs opcode name =
     (let cs1 = bc_emit_byte cs opcode; patch = here cs1; cs2 = bc_emit_u32 cs1 0; target = bc_labelmap_lookup cs2 name in
      if target \<noteq> 0xFFFFFFFF then bc_patch_u32 cs2 patch target else Some (bc_add_fixup_label cs2 patch name 4 0))"

definition source_emit_jump_to_target :: "u8 \<Rightarrow> string \<Rightarrow> stmt" where
  "source_emit_jump_to_target opcode what cs p0 =
     (let p = source_skip_space p0 in
      if isdigit8 (at p) then
        (case source_parse_line_number p of
           None \<Rightarrow> fail (''Expected line number after '' @ what) cs p
         | Some (n, q) \<Rightarrow>
             if sint n < 0 then fail (''Expected line number after '' @ what) cs q
             else map_option (\<lambda>c. (c, q)) (source_emit_abs_jump cs opcode (sint n)))
      else if isalpha8 (at p) \<or> at p = 0x5F then
        (let name = take BC_MAX_LABEL_NAME (takeWhile is_label_char p) in
         map_option (\<lambda>c. (c, drop (length name) p)) (emit_label_ref cs opcode name))
      else fail (''Expected line number or label after '' @ what) cs p)"

definition source_compile_goto :: stmt where
  "source_compile_goto cs p = source_emit_jump_to_target OP_JMP_ABS ''GOTO'' cs p"

definition source_compile_gosub :: stmt where
  "source_compile_gosub cs p = source_emit_jump_to_target OP_GOSUB ''GOSUB'' cs p"

text \<open>The first place of a keyword outside strings that is not part of a longer name.\<close>

fun find_kw :: "cstr \<Rightarrow> bool \<Rightarrow> bool \<Rightarrow> cstr \<Rightarrow> cstr option" where
  "find_kw k inq prev [] = None"
| "find_kw k inq prev (c # p) =
     (if c = 0x22 then find_kw k (\<not> inq) (isnamechar c) p
      else if \<not> inq \<and> same_name (take (length k) (c # p)) k \<and> \<not> prev \<and> \<not> isnamechar (at (drop (length k) (c # p))) then Some (c # p)
      else find_kw k inq (isnamechar c) p)"

definition source_find_keyword_outside_string :: "cstr \<Rightarrow> string \<Rightarrow> cstr option" where
  "source_find_keyword_outside_string p k = find_kw (bytes_of k) False False p"

text \<open>The check that the index of \<open>ON\<close> lies between 0 and 255.\<close>

definition on_range_check :: "int \<Rightarrow> u16 \<Rightarrow> bool \<Rightarrow> BCCompiler \<Rightarrow> BCCompiler option" where
  "on_range_check lvl slot loc cs =
     (let ld = (\<lambda>c. bc_emit_load_var c slot T_INT loc);
          cs1 = bc_emit_byte (bc_emit_byte (ld cs) OP_PUSH_ZERO) OP_LT_I;
          cs2 = bc_emit_byte (bc_emit_byte (push_int (ld cs1) 255) OP_GT_I) OP_OR;
          (cs3, in_range) = source_emit_jmp_placeholder lvl cs2 OP_JZ;
          (cs4, midx) = bc_add_constant_string cs3 (bytes_of ''ON value invalid (valid is 0 to 255)'')
      in source_patch_jmp_here (bc_emit_byte (bc_emit_u16 (bc_emit_byte cs4 OP_PUSH_STR) midx) OP_ERROR_S) in_range)"

text \<open>The targets; \<open>ends\<close> are the jumps behind the calls, of which 64 are kept.\<close>

fun on_targets :: "nat \<Rightarrow> int \<Rightarrow> bool \<Rightarrow> u16 \<Rightarrow> bool \<Rightarrow> int \<Rightarrow> u32 list \<Rightarrow> BCCompiler \<Rightarrow> cstr \<Rightarrow> (u32 list \<times> BCCompiler \<times> cstr) option" where
  "on_targets 0 lvl gosub slot loc idx ends cs p = Some (ends, cs, p)"
| "on_targets (Suc n) lvl gosub slot loc idx ends cs p0 =
     (let p = source_skip_space p0 in
      if has_error cs then Some (ends, cs, p0)
      else if at_end p then Some (ends, cs, p)
      else let cs1 = bc_emit_byte (push_int (bc_emit_load_var cs slot T_INT loc) idx) OP_EQ_I;
               (cs2, skip) = source_emit_jmp_placeholder lvl cs1 OP_JZ in
        Option.bind (source_emit_jump_to_target (if gosub then OP_GOSUB else OP_JMP_ABS) ''ON'' cs2 p) (\<lambda>(cs3, p1).
          let (cs4, ends1) = (if gosub \<and> length ends < 64
                              then (let (c, e) = source_emit_jmp_placeholder lvl cs3 OP_JMP in (c, ends @ [e])) else (cs3, ends)) in
          Option.bind (source_patch_jmp_here cs4 skip) (\<lambda>cs5.
            let p2 = source_skip_space p1 in
            if at p2 \<noteq> 0x2C then Some (ends1, cs5, p2)
            else on_targets n lvl gosub slot loc (idx + 1) ends1 cs5 (drop 1 p2))))"

text \<open>What stands behind the index expression, up to the keyword, is not looked at.\<close>

definition source_compile_on :: "frontend \<Rightarrow> parser \<Rightarrow> stmt" where
  "source_compile_on fe E cs p0 =
     (let p = source_skip_space p0;
          g = source_find_keyword_outside_string p ''GOTO''; s = source_find_keyword_outside_string p ''GOSUB'';
          gosub = (case (s, g) of (None, _) \<Rightarrow> False | (Some a, None) \<Rightarrow> True | (Some a, Some b) \<Rightarrow> length a > length b) in
      case (if gosub then s else g) of
        None \<Rightarrow> fail ''Expected GOTO or GOSUB after ON'' cs p
      | Some at_kw \<Rightarrow>
          let idx_expr = take STRINGSIZE (take (length p - length at_kw) p); loc = (current_subfun cs \<ge> 0);
              (cs1, slot) = alloc_hidden cs T_INT; (ety, cs2, _) = E cs1 idx_expr in
          if has_error cs2 then Some (cs2, p)
          else if ety = T_STR then fail ''ON requires a numeric index'' cs2 p
          else Option.bind (on_range_check (opt_level fe) slot loc (source_emit_store_converted cs2 slot T_INT ety loc)) (\<lambda>cs3.
            Option.bind (on_targets (Suc (length at_kw)) (opt_level fe) gosub slot loc 1 [] cs3 (drop (if gosub then 5 else 4) at_kw)) (\<lambda>(ends, cs4, p1).
              map_option (\<lambda>c. (c, p1)) (patch_all ends cs4))))"

section \<open>CONST\<close>

text \<open>A constant whose expression is one literal of its type leaves no code.\<close>

definition const_slot :: "(BCSlot \<Rightarrow> BCSlot) \<Rightarrow> u16 \<Rightarrow> nat \<Rightarrow> BCCompiler \<Rightarrow> BCCompiler option" where
  "const_slot f slot expr_start cs =
     (if unat slot < length (slots cs)
      then Some (cs\<lparr>slots := (slots cs)[unat slot := f ((slots cs ! unat slot)\<lparr>slot_is_const := 1\<rparr>)], code := take expr_start (code cs)\<rparr>)
      else None)"

definition const_value :: "u16 \<Rightarrow> u8 \<Rightarrow> u8 \<Rightarrow> nat \<Rightarrow> BCCompiler \<Rightarrow> BCCompiler option" where
  "const_value slot vtype etype expr_start cs =
     (let lit = (length (code cs) = expr_start + 9); v = code_i64 cs (expr_start + 1) in
      if lit \<and> code cs ! expr_start = OP_PUSH_INT \<and> vtype AND T_INT \<noteq> 0 then const_slot (\<lambda>s. s\<lparr>slot_const_ival := v\<rparr>) slot expr_start cs
      else if lit \<and> code cs ! expr_start = OP_PUSH_FLT \<and> vtype AND T_NBR \<noteq> 0 then const_slot (\<lambda>s. s\<lparr>slot_const_fval := v\<rparr>) slot expr_start cs
      else Some (source_emit_store_converted cs slot vtype etype False))"

fun const_loop :: "nat \<Rightarrow> parser \<Rightarrow> stmt" where
  "const_loop 0 E cs p = Some (cs, p)"
| "const_loop (Suc n) E cs p0 =
     (if has_error cs then Some (cs, p0)
      else case source_parse_varname p0 of
        None \<Rightarrow> fail ''Expected name in CONST'' cs p0
      | Some (name, suffix, p1) \<Rightarrow>
          let p2 = source_skip_space p1; expr_start = length (code cs) in
          if at p2 \<noteq> 0x3D then fail ''Expected = in CONST'' cs p2
          else expr_or E cs (drop 1 p2) (\<lambda>etype cs1 p3.
            let vtype = (if suffix = 0 then etype else suffix) in
            case type_clash ''constant'' (is_str vtype) etype of
              Some msg \<Rightarrow> fail msg cs1 p3
            | None \<Rightarrow>
                let (cs2, slot) = source_resolve_global cs1 name vtype True in
                Option.bind (const_value slot vtype etype expr_start cs2) (\<lambda>cs3.
                  let p4 = source_skip_space p3 in
                  if at p4 \<noteq> 0x2C then Some (cs3, p4) else const_loop n E cs3 (drop 1 p4))))"

definition source_compile_const :: "parser \<Rightarrow> stmt" where
  "source_compile_const E cs p = const_loop (Suc (length p)) E cs p"

section \<open>DATA and READ\<close>

definition is_sign :: "u8 \<Rightarrow> bool" where
  "is_sign c \<longleftrightarrow> c = 0x2B \<or> c = 0x2D"

text \<open>\<open>strtod\<close> with an optional sign; infinities and not-a-number by name.\<close>

definition strtod_signed :: "cstr \<Rightarrow> f64 \<times> nat" where
  "strtod_signed p =
     (let k = (if is_sign (at p) then 1 else 0); q = drop k p; neg = (at p = 0x2D); sg = (\<lambda>v. if neg then f_neg v else v);
          starts = (\<lambda>s. same_name (take (length s) q) (bytes_of s)) in
      if starts ''INFINITY'' then (sg (f_inf False), k + 8)
      else if starts ''INF'' then (sg (f_inf False), k + 3)
      else if starts ''NAN'' then (f_nan, k + 3)
      else let (v, n) = strtod_at q in if n = 0 then (f_zero False, 0) else (sg v, k + n))"

definition strtoll_signed :: "cstr \<Rightarrow> i64" where
  "strtoll_signed p =
     (let k = (if is_sign (at p) then 1 else 0); m = int (num_of 10 (takeWhile isdigit8 (drop k p))) in
      word_of_int (max (- (2 ^ 63)) (min (2 ^ 63 - 1) (if at p = 0x2D then - m else m))))"

definition add_item :: "u64 \<Rightarrow> u8 \<Rightarrow> BCCompiler \<Rightarrow> BCCompiler" where
  "add_item v ty cs = cs\<lparr>data_pool := data_pool cs @ [\<lparr>data_value = v, data_type = ty\<rparr>]\<rparr>"

definition add_text_item :: "cstr \<Rightarrow> BCCompiler \<Rightarrow> BCCompiler" where
  "add_text_item s cs = (let (cs1, idx) = bc_add_constant_string cs s in add_item (ucast idx) T_STR cs1)"

text \<open>One item; \<open>False\<close>: the loop stops with an error.\<close>

definition data_item :: "BCCompiler \<Rightarrow> cstr \<Rightarrow> bool \<times> BCCompiler \<times> cstr" where
  "data_item cs p =
     (if at p = 0x22 then
        (let s = takeWhile (\<lambda>c. c \<noteq> 0x22) (drop 1 p); r = drop (length s + 1) p in (True, add_text_item s cs, drop 1 r))
      else if is_sign (at p) \<or> at p = 0x2E \<or> isdigit8 (at p) then
        (let (v, n) = strtod_signed p in
         if n = 0 then (False, bc_set_error cs ''Invalid DATA value'', p)
         else (True, if list_ex (\<lambda>c. c = 0x2E \<or> c = 0x65 \<or> c = 0x45) (take n p) then add_item v T_NBR cs
                     else add_item (strtoll_signed p) T_INT cs, drop n p))
      else
        (let s = takeWhile (\<lambda>c. c \<noteq> 0x2C \<and> c \<noteq> 0x27) p in
         (True, add_text_item (rev (dropWhile is_blank (rev s))) cs, drop (length s) p)))"

fun data_loop :: "nat \<Rightarrow> BCCompiler \<Rightarrow> cstr \<Rightarrow> BCCompiler \<times> cstr" where
  "data_loop 0 cs p = (cs, p)"
| "data_loop (Suc n) cs p0 =
     (let p = source_skip_space p0 in
      if has_error cs then (cs, p0)
      else if at p = 0 \<or> at p = 0x27 then (cs, p)
      else if length (data_pool cs) \<ge> BC_MAX_DATA_ITEMS then (bc_set_error cs ''Too many DATA items'', p)
      else let (ok, cs1, p1) = data_item cs p; p2 = source_skip_space p1 in
        if \<not> ok then (cs1, p1) else if at p2 \<noteq> 0x2C then (cs1, p2) else data_loop n cs1 (drop 1 p2))"

definition source_compile_data :: stmt where
  "source_compile_data cs p = (let (cs1, p1) = data_loop (Suc (length p)) cs p in Some (cs1, dropWhile (\<lambda>c. c \<noteq> 0x27) p1))"

definition code_READ_of :: "u8 \<Rightarrow> u8" where
  "code_READ_of vtype = (if vtype = T_INT then OP_READ_I else if vtype = T_STR then OP_READ_S else OP_READ_F)"

fun read_loop :: "nat \<Rightarrow> parser \<Rightarrow> stmt" where
  "read_loop 0 E cs p = Some (cs, p)"
| "read_loop (Suc n) E cs p0 =
     (if has_error cs then Some (cs, p0)
      else case source_parse_varname (source_skip_space p0) of
        None \<Rightarrow> fail ''Expected variable in READ'' cs (source_skip_space p0)
      | Some (name, suffix, p1) \<Rightarrow>
          let vtype = (if suffix = 0 then source_default_var_type cs name else suffix); p2 = source_skip_space p1;
              (cs3, p3) = (if at p2 = 0x28 then
                 (let (ndim, cs1, q) = source_parse_array_indices E cs p2; (cs2, slot, loc) = source_resolve_var cs1 name vtype True in
                  (source_emit_store_array (bc_emit_byte (mark_array cs2 slot loc) (code_READ_of vtype)) slot vtype loc ndim, q))
               else
                 (let (cs2, slot, loc) = source_resolve_var cs name vtype True in
                  (bc_emit_store_var (bc_emit_byte cs2 (code_READ_of vtype)) slot vtype loc, p2)));
              p4 = source_skip_space p3
          in if at p4 \<noteq> 0x2C then Some (cs3, p4) else read_loop n E cs3 (drop 1 p4))"

definition source_compile_read :: "parser \<Rightarrow> stmt" where
  "source_compile_read E cs p = read_loop (Suc (length p)) E cs p"

section \<open>INC\<close>

text \<open>The amount, 1 when none is given.\<close>

definition inc_amount :: "parser \<Rightarrow> BCCompiler \<Rightarrow> cstr \<Rightarrow> parsed" where
  "inc_amount E cs p = (if at p = 0x2C then E cs (drop 1 p) else (T_INT, bc_emit_byte cs OP_PUSH_ONE, p))"

definition inc_element :: "parser \<Rightarrow> u16 \<Rightarrow> bool \<Rightarrow> u8 \<Rightarrow> stmt" where
  "inc_element E slot loc vtype cs p =
     (let (n_store, cs1, q) = source_parse_array_indices E cs p in
      if has_error cs1 then Some (cs1, q)
      else let (n_load, cs2, p1) = source_parse_array_indices E cs1 p in
        if has_error cs2 then Some (cs2, p1)
        else if n_store \<noteq> n_load then fail ''Internal: INC array index mismatch'' cs2 p1
        else let cs3 = source_emit_load_array cs2 slot vtype loc n_load;
                 (amount_type, cs4, p2) = inc_amount E cs3 (source_skip_space p1);
                 (result_type, cs5) = source_emit_numeric_binary cs4 vtype amount_type (length (code cs3)) (CHR ''+'');
                 cs6 = (if vtype = T_INT then source_emit_int_conversion cs5 result_type
                        else if vtype = T_NBR then source_emit_float_conversion cs5 result_type else cs5)
          in Some (source_emit_store_array cs6 slot vtype loc n_store, p2))"

definition source_compile_inc :: "parser \<Rightarrow> stmt" where
  "source_compile_inc E cs p0 =
     (case source_parse_varname p0 of
        None \<Rightarrow> fail ''Expected variable in INC'' cs p0
      | Some (name, suffix, p1) \<Rightarrow>
          let vtype = (if suffix = 0 then source_default_var_type cs name else suffix) in
          if vtype = T_STR then fail ''Unsupported source command: INC string'' cs p1
          else let (cs1, slot, loc) = source_resolve_var cs name vtype True; p2 = source_skip_space p1 in
            if at p2 = 0x28 then inc_element E slot loc vtype cs1 p2
            else let cs2 = bc_emit_load_var cs1 slot vtype loc; (amount_type, cs3, p3) = inc_amount E cs2 p2;
                     (result_type, cs4) = source_emit_numeric_binary cs3 vtype amount_type (length (code cs2)) (CHR ''+'')
              in Some (source_emit_store_converted cs4 slot vtype result_type loc, p3))"

end
