(* ===== verification/SrcSub.thy ===== *)
theory SrcSub
  imports SrcStmt
begin

text \<open>
  Statements of \<open>runtime/vm/bc_source.c\<close>, second part: structure types (with \<open>ParseStructMember\<close> and
  \<open>FindStructType\<close> of \<open>core/mmbasic/Commands.c\<close>), \<open>DIM\<close>, \<open>LOCAL\<close>, \<open>STATIC\<close>, parameters, \<open>SUB\<close> and \<open>FUNCTION\<close>.
  A \<open>fstmt\<close> may change the front end as well.
\<close>

type_synonym fstmt = "frontend \<Rightarrow> BCCompiler \<Rightarrow> cstr \<Rightarrow> (frontend \<times> BCCompiler \<times> cstr) option"

section \<open>Structure types\<close>

definition MAX_STRUCT_TYPES :: nat where "MAX_STRUCT_TYPES = 32"
definition MAX_STRUCT_MEMBERS :: nat where "MAX_STRUCT_MEMBERS = 16"

definition type_name_at :: "cstr \<Rightarrow> cstr" where
  "type_name_at p = map toupper8 (take MAXVARLEN (takeWhile isnamechar p))"

definition find_type :: "frontend \<Rightarrow> cstr \<Rightarrow> int" where
  "find_type fe uname =
     (case find_index (\<lambda>d. case d of None \<Rightarrow> False | Some sd \<Rightarrow> sd_name sd = uname \<and> length uname < MAXVARLEN) (structtbl fe) of
        Some i \<Rightarrow> int i | None \<Rightarrow> -1)"

definition FindStructType :: "frontend \<Rightarrow> cstr \<Rightarrow> int" where
  "FindStructType fe name = find_type fe (map toupper8 (take MAXVARLEN (takeWhile (\<lambda>c. isnamechar c \<and> c \<noteq> 0x2E) name)))"

text \<open>8 when a member is a number or holds one; the nesting of types is bounded by their number.\<close>

fun align_at :: "nat \<Rightarrow> frontend \<Rightarrow> structdef \<Rightarrow> int" where
  "align_at 0 fe sd = 8"
| "align_at (Suc n) fe sd =
     fold (\<lambda>m a. max a (if sm_type m = T_INT \<or> sm_type m = T_NBR then 8
                        else if sm_type m = T_STRUCT then
                          (case struct_at fe (uint (sm_size m)) of None \<Rightarrow> 8 | Some d \<Rightarrow> align_at n fe d)
                        else 1)) (sd_members sd) 1"

definition GetStructAlignment :: "frontend \<Rightarrow> structdef \<Rightarrow> int" where
  "GetStructAlignment fe sd = align_at (Suc (length (structtbl fe))) fe sd"

definition skip_blanks :: "cstr \<Rightarrow> cstr" where
  "skip_blanks p = dropWhile (\<lambda>c. c = 0x20) p"

definition checkstring :: "cstr \<Rightarrow> string \<Rightarrow> cstr option" where
  "checkstring p0 tkn = (let p = skip_blanks p0 in if word_at p tkn then Some (skip_blanks (drop (length tkn) p)) else None)"

text \<open>The dimensions of a member behind \<open>(\<close>, as C \<open>int\<close>s: the sizes and the rest; \<open>None\<close> for a bad one.\<close>

fun member_dims :: "nat \<Rightarrow> int \<Rightarrow> int list \<Rightarrow> cstr \<Rightarrow> (int list \<times> cstr) option" where
  "member_dims 0 base ds p = Some (ds, p)"
| "member_dims (Suc n) base ds p =
     (if at p = 0 \<or> at p = 0x29 then Some (ds, p)
      else let digits = takeWhile isdigit8 p; d = sint (of_nat (num_of 10 digits) :: 32 word); q = skip_blanks (drop (length digits) p) in
        if digits = [] \<or> d \<le> base then None
        else member_dims n base (ds @ [d]) (if at q = 0x2C then skip_blanks (drop 1 q) else q))"

definition c_short :: "int \<Rightarrow> int" where
  "c_short d = sint (word_of_int d :: 16 word)"

text \<open>The type of a member: type, size, rest.\<close>

definition member_type :: "frontend \<Rightarrow> cstr \<Rightarrow> (u8 \<times> int \<times> cstr) option" where
  "member_type fe p =
     (case (case checkstring p ''INTEGER'' of Some q \<Rightarrow> Some q | None \<Rightarrow> checkstring p ''INT'') of
        Some q \<Rightarrow> Some (T_INT, 8, q)
      | None \<Rightarrow> (case checkstring p ''FLOAT'' of
          Some q \<Rightarrow> Some (T_NBR, 8, q)
        | None \<Rightarrow> (case checkstring p ''STRING'' of
            Some q \<Rightarrow>
              (case checkstring (skip_blanks q) ''LENGTH'' of
                 Some r \<Rightarrow> let digits = takeWhile isdigit8 (skip_blanks r); n = sint (of_nat (num_of 10 digits) :: 32 word) in
                   Some (T_STR, if n < 1 then 1 else if n > int MAXSTRLEN then int MAXSTRLEN else n, drop (length digits) (skip_blanks r))
               | None \<Rightarrow> Some (T_STR, int MAXSTRLEN, q))
          | None \<Rightarrow>
              let name = type_name_at p; i = find_type fe name in
              if name = [] \<or> i < 0 then None else Some (T_STRUCT, i, drop (length name) p))))"

definition aligned :: "u8 \<Rightarrow> int \<Rightarrow> int" where
  "aligned ty off = (if ty \<noteq> T_STR \<and> off mod 8 \<noteq> 0 then (off div 8 + 1) * 8 else off)"

definition add_member :: "frontend \<Rightarrow> cstr \<Rightarrow> int list \<Rightarrow> u8 \<Rightarrow> int \<Rightarrow> structdef \<Rightarrow> structdef" where
  "add_member fe name ds ty sz sd =
     (let off = aligned ty (sd_total_size sd); elems = fold (\<lambda>d n. n * (d + 1 - option_base fe)) ds 1;
          one = (if ty = T_STR then sz + 1
                 else if ty = T_STRUCT then (case struct_at fe sz of None \<Rightarrow> 0 | Some d \<Rightarrow> sd_total_size d) else sz) in
      sd\<lparr>sd_members := sd_members sd @ [\<lparr>sm_name = name, sm_type = ty, sm_size = word_of_int sz, sm_offset = off,
           sm_dims = take MAXDIM (map c_short ds @ replicate MAXDIM 0)\<rparr>],
         sd_total_size := off + one * elems\<rparr>)"

text \<open>A line \<open>name [(dims)] AS type\<close>; \<open>Inl\<close> the error.\<close>

definition ParseStructMember :: "frontend \<Rightarrow> cstr \<Rightarrow> structdef \<Rightarrow> string + structdef" where
  "ParseStructMember fe p0 sd =
     (let p = skip_blanks p0; raw = take MAXVARLEN (takeWhile isnamechar p); p1 = skip_blanks (drop (length raw) p) in
      if length (sd_members sd) \<ge> MAX_STRUCT_MEMBERS then Inl ''Too many members in TYPE''
      else if \<not> isnamestart (at p) then Inl ''Invalid member definition in TYPE''
      else case (if at p1 = 0x28 then member_dims MAXDIM (option_base fe) [] (skip_blanks (drop 1 p1)) else Some ([], p1)) of
        None \<Rightarrow> Inl ''Dimensions''
      | Some (ds, q0) \<Rightarrow>
          let q = (if at p1 = 0x28 then skip_blanks (if at q0 = 0x29 then drop 1 q0 else q0) else q0);
              behind_as = (if q \<noteq> [] \<and> hd q = tokenAS fe then Some (drop 1 q)
                           else if word_at q ''AS'' then Some (drop 2 q) else None) in
          (case behind_as of
             None \<Rightarrow> Inl ''Invalid member definition in TYPE''
           | Some r \<Rightarrow>
               (case member_type fe (skip_blanks r) of
                  None \<Rightarrow> Inl ''Unknown type in TYPE definition''
                | Some (ty, sz, _) \<Rightarrow> Inr (add_member fe (map toupper8 raw) ds ty sz sd))))"

text \<open>Type names behind \<open>AS\<close>: the type (0: none), the struct's number (-1: no struct) and the rest.\<close>

definition scalar_type_at :: "cstr \<Rightarrow> (u8 \<times> cstr) option" where
  "scalar_type_at p =
     (if word_at p ''INTEGER'' then Some (T_INT, drop 7 p) else if word_at p ''FLOAT'' then Some (T_NBR, drop 5 p)
      else if word_at p ''STRING'' then Some (T_STR, drop 6 p) else None)"

definition source_parse_as_type_clause_ex :: "frontend \<Rightarrow> cstr \<Rightarrow> u8 \<times> int \<times> cstr" where
  "source_parse_as_type_clause_ex fe p0 =
     (case kw (source_skip_space p0) ''AS'' of
        None \<Rightarrow> (0, -1, p0)
      | Some q \<Rightarrow>
          let p = source_skip_space q in
          (case scalar_type_at p of
             Some (ty, r) \<Rightarrow> (ty, -1, r)
           | None \<Rightarrow>
               let i = FindStructType fe p in
               if isnamestart (at p) \<and> i \<ge> 0 then (T_STRUCT, i, dropWhile isnamechar p) else (0, -1, p0)))"

definition source_parse_as_type_clause :: "frontend \<Rightarrow> cstr \<Rightarrow> u8 \<times> cstr" where
  "source_parse_as_type_clause fe p = (let (ty, _, q) = source_parse_as_type_clause_ex fe p in (ty, q))"

section \<open>Looking ahead in DIM\<close>

text \<open>An \<open>AS\<close> in this argument, wherever it stands: the struct type it names, or -1.\<close>

fun source_peek_dim_struct_type :: "frontend \<Rightarrow> cstr \<Rightarrow> int" where
  "source_peek_dim_struct_type fe [] = -1"
| "source_peek_dim_struct_type fe (c # p) =
     (if c = 0x2C \<or> c = 0x27 \<or> c = 0x0A then -1
      else if word_at (c # p) ''AS'' then
        (let q = source_skip_space (drop 1 p) in
         if scalar_type_at q \<noteq> None then -1 else if isnamestart (at q) then FindStructType fe q else -1)
      else source_peek_dim_struct_type fe p)"

text \<open>The places behind the commas, wherever these stand.\<close>

fun dim_args :: "nat \<Rightarrow> cstr \<Rightarrow> cstr list" where
  "dim_args 0 p = []"
| "dim_args (Suc n) p =
     (if at p = 0 \<or> at p = 0x0A then [] else p # dim_args n (drop 1 (dropWhile (\<lambda>c. c \<noteq> 0x2C) p)))"

fun has_length_clause :: "bool \<Rightarrow> bool \<Rightarrow> cstr \<Rightarrow> bool" where
  "has_length_clause inq prev [] = False"
| "has_length_clause inq prev (c # p) =
     (if c = 0x0A \<or> c = 0x27 then False
      else if c = 0x22 then has_length_clause (\<not> inq) (isnamechar c) p
      else if \<not> inq \<and> word_at (c # p) ''LENGTH'' \<and> \<not> prev then True
      else has_length_clause inq (isnamechar c) p)"

definition source_peek_dim_has_sized_array :: "cstr \<Rightarrow> bool" where
  "source_peek_dim_has_sized_array p0 =
     (let p1 = dropWhile isnamechar (source_skip_space p0); p = source_skip_space (if is_suffix_char (at p1) then drop 1 p1 else p1) in
      at p = 0x28 \<and> at (source_skip_space (drop 1 p)) \<noteq> 0x29)"

definition dim_needs_bridge :: "frontend \<Rightarrow> cstr \<Rightarrow> bool" where
  "dim_needs_bridge fe p \<longleftrightarrow>
     list_ex (\<lambda>a. source_peek_dim_struct_type fe a \<ge> 0) (dim_args (Suc (length p)) p) \<or> has_length_clause False False p \<or>
     list_ex source_peek_dim_has_sized_array (dim_args (Suc (length p)) p)"

section \<open>DIM\<close>

definition type_prefix :: "cstr \<Rightarrow> u8 \<times> cstr" where
  "type_prefix p0 = (let p = source_skip_space p0 in case scalar_type_at p of Some r \<Rightarrow> r | None \<Rightarrow> (0, p))"

text \<open>The subscript behind \<open>(\<close>: the number of dimensions by its outer commas, and the rest.\<close>

fun count_dims :: "nat \<Rightarrow> nat \<Rightarrow> cstr \<Rightarrow> nat \<times> cstr" where
  "count_dims depth n [] = (n, [])"
| "count_dims depth n (c # p) =
     (if c = 0x28 then count_dims (depth + 1) n p
      else if c = 0x29 then (if depth = 1 then (n, p) else count_dims (depth - 1) n p)
      else count_dims depth (if c = 0x2C \<and> depth = 1 then n + 1 else n) p)"

definition claim_slot :: "(BCSlot \<Rightarrow> BCSlot) \<Rightarrow> cstr \<Rightarrow> u8 \<Rightarrow> BCCompiler \<Rightarrow> BCCompiler" where
  "claim_slot f name vtype cs =
     (let (cs1, slot) = source_resolve_global cs name vtype True in
      if slot = 0xFFFF then cs1 else cs1\<lparr>slots := (slots cs1)[unat slot := f (slots cs1 ! unat slot)]\<rparr>)"

fun dim_register :: "nat \<Rightarrow> frontend \<Rightarrow> u8 \<Rightarrow> BCCompiler \<Rightarrow> cstr \<Rightarrow> BCCompiler" where
  "dim_register 0 fe forced cs p = cs"
| "dim_register (Suc n) fe forced cs p0 =
     (if at p0 = 0 \<or> at p0 = 0x0A then cs
      else case source_parse_varname p0 of
        None \<Rightarrow> cs
      | Some (name, suffix, p1) \<Rightarrow>
          let p2 = source_skip_space p1; arr = (at p2 = 0x28);
              (ndim, p3) = (if arr then (let (k, q) = count_dims 1 1 (drop 1 p2) in (k, source_skip_space q)) else (0, p2));
              (as_ty, sidx, p4) = source_parse_as_type_clause_ex fe p3;
              vtype = (if suffix \<noteq> 0 then suffix else if as_ty \<noteq> 0 then as_ty else if forced \<noteq> 0 then forced else T_NBR);
              cs1 = (if vtype = T_STRUCT then
                       claim_slot (\<lambda>s. s\<lparr>slot_type := T_STRUCT, slot_struct_idx := c_short sidx,
                         slot_is_array := (if arr then 1 else 0), slot_ndims := of_nat ndim\<rparr>) name vtype cs
                     else if arr then claim_slot (\<lambda>s. s\<lparr>slot_type := vtype, slot_is_array := 1, slot_ndims := of_nat ndim\<rparr>) name vtype cs
                     else cs);
              r = dropWhile (\<lambda>c. c \<noteq> 0x2C \<and> c \<noteq> 0x0A) p4
          in dim_register n fe forced cs1 (if at r = 0x2C then drop 1 r else r))"

text \<open>A statement of \<open>STRINGSIZE\<close> characters or more is dropped.\<close>

definition dim_bridged :: "frontend \<Rightarrow> u8 \<Rightarrow> BCCompiler \<Rightarrow> cstr \<Rightarrow> cstr \<Rightarrow> BCCompiler \<times> cstr" where
  "dim_bridged fe forced cs pp p =
     (let cs1 = dim_register (Suc (length p)) fe forced cs p; buf = bytes_of ''DIM '' @ pp;
          cs2 = (if length buf < STRINGSIZE then source_emit_bridge_for_stmt fe cs1 (takeWhile (\<lambda>c. c \<noteq> 0x0A \<and> c \<noteq> 0x27) buf) else cs1)
      in (cs2, dropWhile (\<lambda>c. c \<noteq> 0x0A \<and> c \<noteq> 0x27) p))"

text \<open>The dimensions behind \<open>(\<close>, in \<open>DIM\<close> and \<open>LOCAL\<close>.\<close>

fun dim_exprs :: "nat \<Rightarrow> parser \<Rightarrow> nat \<Rightarrow> BCCompiler \<Rightarrow> cstr \<Rightarrow> nat \<times> BCCompiler \<times> cstr" where
  "dim_exprs 0 E n cs p = (n, cs, p)"
| "dim_exprs (Suc k) E n cs p =
     (if has_error cs then (n, cs, p)
      else let (ty, cs1, p1) = E cs p; cs2 = source_emit_int_conversion cs1 ty; p2 = source_skip_space p1 in
        if at p2 = 0x2C then dim_exprs k E (n + 1) cs2 (drop 1 p2) else (n + 1, cs2, p2))"

definition dim_op :: "scope \<Rightarrow> u8 \<Rightarrow> u8" where
  "dim_op sc vtype = code_DIM_ARR sc (arr_vty vtype)"

text \<open>The list of values of an array; \<open>False\<close>: the statement ends with an error.\<close>

fun dim_values :: "nat \<Rightarrow> parser \<Rightarrow> u16 \<Rightarrow> u8 \<Rightarrow> nat \<Rightarrow> BCCompiler \<Rightarrow> cstr \<Rightarrow> bool \<times> BCCompiler \<times> cstr" where
  "dim_values 0 E slot vtype idx cs p = (True, cs, p)"
| "dim_values (Suc k) E slot vtype idx cs p0 =
     (let p = source_skip_space p0 in
      if has_error cs then (True, cs, p0)
      else if at p = 0x29 then (True, cs, drop 1 p)
      else if idx > 0 \<and> at p \<noteq> 0x2C then (False, bc_set_error cs (''Expected '' @ sq (CHR '','') @ '' or '' @ sq (CHR '')'') @ '' in DIM initializer''), p)
      else let (etype, cs2, p2) = E (push_int cs (int idx)) (if idx > 0 then drop 1 p else p) in
        if is_str vtype \<and> \<not> is_str etype then (False, bc_set_error cs2 ''Type mismatch in DIM initializer (expected string)'', p2)
        else if \<not> is_str vtype \<and> is_str etype then (False, bc_set_error cs2 ''Type mismatch in DIM initializer (expected numeric)'', p2)
        else let cs3 = (if vtype = T_INT then source_emit_int_conversion cs2 etype
                        else if vtype = T_NBR then source_emit_float_conversion cs2 etype else cs2)
          in dim_values k E slot vtype (idx + 1) (source_emit_store_array cs3 slot vtype False 1) p2)"

definition dim_one_array :: "frontend \<Rightarrow> parser \<Rightarrow> cstr \<Rightarrow> u8 \<Rightarrow> u8 \<Rightarrow> BCCompiler \<Rightarrow> cstr \<Rightarrow> bool \<times> BCCompiler \<times> cstr" where
  "dim_one_array fe E name suffix vtype0 cs p =
     (let (ndim, cs1, p1) = dim_exprs (Suc (length p)) E 0 cs p in
      if at p1 \<noteq> 0x29 then (False, bc_set_error cs1 (''Expected '' @ sq (CHR '')'') @ '' in DIM''), p1)
      else let (as_ty, p2) = source_parse_as_type_clause fe (drop 1 p1);
               vtype = (if as_ty \<noteq> 0 \<and> suffix = 0 then as_ty else vtype0);
               (cs2, slot) = source_resolve_global cs1 name vtype True; cs3 = mark_array cs2 slot False;
               cs4 = bc_emit_byte (bc_emit_u16 (bc_emit_byte cs3 (dim_op Global vtype)) slot) (of_nat ndim);
               p3 = source_skip_space p2; p4 = source_skip_space (drop 1 p3) in
        if at p3 \<noteq> 0x3D then (True, cs4, p3)
        else if at p4 \<noteq> 0x28 then (False, bc_set_error cs4 (''Expected '' @ sq (CHR ''('') @ '' after '' @ sq (CHR ''='') @ '' in DIM initializer''), p4)
        else if ndim \<noteq> 1 then (False, bc_set_error cs4 ''Array literal initializer requires 1D array'', p4)
        else dim_values (Suc (length p4)) E slot vtype 0 cs4 (drop 1 p4))"

definition dim_one_scalar :: "frontend \<Rightarrow> parser \<Rightarrow> cstr \<Rightarrow> u8 \<Rightarrow> u8 \<Rightarrow> BCCompiler \<Rightarrow> cstr \<Rightarrow> bool \<times> BCCompiler \<times> cstr" where
  "dim_one_scalar fe E name suffix vtype0 cs p =
     (let (as_ty, p1) = source_parse_as_type_clause fe p; vtype = (if as_ty \<noteq> 0 \<and> suffix = 0 then as_ty else vtype0);
          (cs1, slot) = source_resolve_global cs name vtype True; p2 = source_skip_space p1 in
      if at p2 \<noteq> 0x3D then (True, source_emit_default_store cs1 slot vtype False, p2)
      else let (etype, cs2, p3) = E cs1 (drop 1 p2) in
        case type_clash ''variable'' (is_str vtype) etype of
          Some msg \<Rightarrow> (False, bc_set_error cs2 msg, p3)
        | None \<Rightarrow> (True, source_emit_store_converted cs2 slot vtype etype False, p3))"

fun dim_list :: "nat \<Rightarrow> frontend \<Rightarrow> parser \<Rightarrow> u8 \<Rightarrow> BCCompiler \<Rightarrow> cstr \<Rightarrow> BCCompiler \<times> cstr" where
  "dim_list 0 fe E forced cs p = (cs, p)"
| "dim_list (Suc n) fe E forced cs p0 =
     (if has_error cs then (cs, p0)
      else case source_parse_varname p0 of
        None \<Rightarrow> (bc_set_error cs ''Expected name in DIM'', p0)
      | Some (name, suffix, p1) \<Rightarrow>
          let vtype = (if suffix \<noteq> 0 then suffix else if forced \<noteq> 0 then forced else T_NBR); p2 = source_skip_space p1;
              (ok, cs1, p3) = (if at p2 = 0x28 then dim_one_array fe E name suffix vtype cs (drop 1 p2)
                               else dim_one_scalar fe E name suffix vtype cs p2);
              p4 = source_skip_space p3
          in if \<not> ok then (cs1, p3) else if at p4 \<noteq> 0x2C then (cs1, p4) else dim_list n fe E forced cs1 (drop 1 p4))"

definition source_compile_dim :: "frontend \<Rightarrow> parser \<Rightarrow> stmt" where
  "source_compile_dim fe E cs pp =
     (let (forced, p) = type_prefix pp in
      Some (if dim_needs_bridge fe p then dim_bridged fe forced cs pp p else dim_list (Suc (length p)) fe E forced cs p))"

section \<open>LOCAL and STATIC\<close>

text \<open>The subscript of a local: whether it is an array, and its dimensions; \<open>None\<close> after an error.\<close>

definition local_dims :: "parser \<Rightarrow> BCCompiler \<Rightarrow> cstr \<Rightarrow> BCCompiler \<times> (bool \<times> nat \<times> cstr, cstr) sum" where
  "local_dims E cs p0 =
     (let p = source_skip_space p0; q = source_skip_space (drop 1 p) in
      if at p \<noteq> 0x28 then (cs, Inl (False, 0, p))
      else if at q = 0x29 then (cs, Inl (True, 0, drop 1 q))
      else let (ndim, cs1, q1) = dim_exprs (Suc (length q)) E 0 cs q in
        if at q1 \<noteq> 0x29 then (bc_set_error cs1 (''Expected '' @ sq (CHR '')'') @ '' in LOCAL''), Inr q1) else (cs1, Inl (True, ndim, drop 1 q1)))"

text \<open>\<open>= expression\<close> behind a scalar; \<open>False\<close>: the statement ends with an error.\<close>

definition local_init :: "parser \<Rightarrow> u8 \<Rightarrow> u16 \<Rightarrow> bool \<Rightarrow> BCCompiler \<Rightarrow> cstr \<Rightarrow> bool \<times> BCCompiler \<times> cstr" where
  "local_init E vtype slot loc cs p =
     (let (etype, cs1, p1) = E cs p in
      case type_clash ''variable'' (is_str vtype) etype of
        Some msg \<Rightarrow> (False, bc_set_error cs1 msg, p1)
      | None \<Rightarrow> (True, source_emit_store_converted cs1 slot vtype etype loc, p1))"

definition declared_type :: "u8 \<Rightarrow> u8 \<Rightarrow> u8 \<Rightarrow> u8" where
  "declared_type suffix as_ty forced =
     (let v = (if as_ty \<noteq> 0 then as_ty else suffix) in if v \<noteq> 0 then v else if forced \<noteq> 0 then forced else T_NBR)"

fun local_loop :: "nat \<Rightarrow> frontend \<Rightarrow> parser \<Rightarrow> u8 \<Rightarrow> BCCompiler \<Rightarrow> cstr \<Rightarrow> BCCompiler \<times> cstr" where
  "local_loop 0 fe E forced cs p = (cs, p)"
| "local_loop (Suc n) fe E forced cs p0 =
     (if has_error cs then (cs, p0)
      else case source_parse_varname p0 of
        None \<Rightarrow> (bc_set_error cs ''Expected name in LOCAL'', p0)
      | Some (name, suffix, p1) \<Rightarrow>
          (case local_dims E cs p1 of
             (cs1, Inr q) \<Rightarrow> (cs1, q)
           | (cs1, Inl (arr, ndim, p2)) \<Rightarrow>
               let (as_ty, p3) = source_parse_as_type_clause fe p2; vtype = declared_type suffix as_ty forced;
                   (cs2, loc) = bc_add_local cs1 name vtype (if arr then 1 else 0);
                   cs3 = (if arr \<and> ndim > 0 \<and> loc \<ge> 0
                          then bc_emit_byte (bc_emit_u16 (bc_emit_byte cs2 (dim_op Local vtype)) (word_of_int loc)) (of_nat ndim) else cs2);
                   p4 = source_skip_space p3;
                   (ok, cs4, p5) = (if \<not> arr \<and> loc \<ge> 0 \<and> at p4 = 0x3D then local_init E vtype (word_of_int loc) True cs3 (drop 1 p4) else (True, cs3, p4));
                   p6 = source_skip_space p5
               in if \<not> ok then (cs4, p5) else if at p6 \<noteq> 0x2C then (cs4, p6) else local_loop n fe E forced cs4 (drop 1 p6)))"

definition source_compile_local :: "frontend \<Rightarrow> parser \<Rightarrow> stmt" where
  "source_compile_local fe E cs p =
     (if current_subfun cs < 0 then fail ''LOCAL outside SUB/FUNCTION'' cs p
      else let (forced, p1) = type_prefix p in Some (local_loop (Suc (length p1)) fe E forced cs p1))"

text \<open>A static variable is a hidden global under a local name; its initialiser is guarded by another one.\<close>

definition static_init :: "int \<Rightarrow> parser \<Rightarrow> u8 \<Rightarrow> u16 \<Rightarrow> BCCompiler \<Rightarrow> cstr \<Rightarrow> (bool \<times> BCCompiler \<times> cstr) option" where
  "static_init lvl E vtype gslot cs p =
     (let (cs1, guard) = source_alloc_hidden_slot cs T_INT;
          (cs2, skip) = source_emit_jmp_placeholder lvl (bc_emit_load_var cs1 guard T_INT False) OP_JNZ;
          (ok, cs3, p1) = local_init E vtype gslot False cs2 p in
      if \<not> ok then Some (False, cs3, p1)
      else map_option (\<lambda>c. (True, c, p1)) (source_patch_jmp_here (bc_emit_store_var (bc_emit_byte cs3 OP_PUSH_ONE) guard T_INT False) skip))"

definition make_static :: "int \<Rightarrow> u16 \<Rightarrow> BCCompiler \<Rightarrow> BCCompiler" where
  "make_static loc gslot cs =
     (if loc < 0 then cs
      else cs\<lparr>cs_locals := (cs_locals cs)[nat loc := (cs_locals cs ! nat loc)\<lparr>loc_is_static := 1, loc_static_slot := gslot\<rparr>]\<rparr>)"

fun static_loop :: "nat \<Rightarrow> frontend \<Rightarrow> parser \<Rightarrow> u8 \<Rightarrow> stmt" where
  "static_loop 0 fe E forced cs p = Some (cs, p)"
| "static_loop (Suc n) fe E forced cs p0 =
     (if has_error cs then Some (cs, p0)
      else case source_parse_varname p0 of
        None \<Rightarrow> fail ''Expected name in STATIC'' cs p0
      | Some (name, suffix, p1) \<Rightarrow>
          let p2 = source_skip_space p1; (as_ty, p3) = source_parse_as_type_clause fe p2; vtype = declared_type suffix as_ty forced in
          if at p2 = 0x28 then fail ''STATIC arrays not supported in FRUN'' cs p3
          else let (cs1, gslot) = source_alloc_hidden_slot cs vtype; (cs2, loc) = bc_add_local cs1 name vtype 0;
                   cs3 = make_static loc gslot cs2; p4 = source_skip_space p3 in
            Option.bind (if at p4 = 0x3D then static_init (opt_level fe) E vtype gslot cs3 (drop 1 p4) else Some (True, cs3, p4)) (\<lambda>(ok, cs4, p5).
              let p6 = source_skip_space p5 in
              if \<not> ok then Some (cs4, p5) else if at p6 \<noteq> 0x2C then Some (cs4, p6) else static_loop n fe E forced cs4 (drop 1 p6)))"

definition source_compile_static :: "frontend \<Rightarrow> parser \<Rightarrow> stmt" where
  "source_compile_static fe E cs p =
     (if current_subfun cs < 0 then fail ''STATIC outside SUB/FUNCTION'' cs p
      else let (forced, p1) = type_prefix p in static_loop (Suc (length p1)) fe E forced cs p1)"

section \<open>Parameters\<close>

text \<open>The parenthesised text at \<open>p\<close>, as the C loops skip it: to the matching bracket or the end.\<close>

fun skip_group :: "nat \<Rightarrow> cstr \<Rightarrow> cstr" where
  "skip_group depth [] = []"
| "skip_group depth (c # p) =
     (let d = (if c = 0x28 then depth + 1 else if c = 0x29 then depth - 1 else depth) in if d = 0 then p else skip_group d p)"

fun params_struct_loop :: "nat \<Rightarrow> frontend \<Rightarrow> cstr \<Rightarrow> bool" where
  "params_struct_loop 0 fe p = False"
| "params_struct_loop (Suc n) fe p0 =
     (if at p0 = 0 \<or> at p0 = 0x29 then False
      else let p1 = dropWhile isnamechar (source_skip_space p0); p2 = source_skip_space (if is_suffix_char (at p1) then drop 1 p1 else p1) in
        case (if at p2 = 0x28 then map_option source_skip_space (close_paren 0 p2) else Some p2) of
          None \<Rightarrow> False
        | Some p3 \<Rightarrow>
            let p4 = source_skip_space (drop 2 p3); starts = (\<lambda>s. same_name (take (length s) p4) (bytes_of s)) in
            if word_at p3 ''AS'' \<and> \<not> starts ''INTEGER'' \<and> \<not> starts ''FLOAT'' \<and> \<not> starts ''STRING'' \<and> isnamestart (at p4) \<and>
               FindStructType fe p4 \<ge> 0 then True
            else let p5 = (if word_at p3 ''AS'' then source_skip_space (dropWhile isnamechar p4) else p3) in
              at p5 = 0x2C \<and> params_struct_loop n fe (drop 1 p5))"

definition source_params_contain_struct :: "frontend \<Rightarrow> cstr \<Rightarrow> bool" where
  "source_params_contain_struct fe p0 = (let p = source_skip_space p0 in at p = 0x28 \<and> params_struct_loop (length p) fe (drop 1 p))"

text \<open>One parameter without its comma: its name, type, whether it is an array and by value.\<close>

definition param_at :: "frontend \<Rightarrow> cstr \<Rightarrow> (cstr \<times> u8 \<times> bool \<times> bool) option \<times> cstr" where
  "param_at fe p =
     (let (byval, p1) = (case kw p ''BYVAL'' of Some q \<Rightarrow> (True, source_skip_space q)
                         | None \<Rightarrow> (case kw p ''BYREF'' of Some q \<Rightarrow> (False, source_skip_space q) | None \<Rightarrow> (False, p))) in
      case source_parse_varname p1 of
        None \<Rightarrow> (None, p1)
      | Some (name, suffix, p2) \<Rightarrow>
          let p3 = source_skip_space p2; q = source_skip_space (drop 1 p3); arr = (at p3 = 0x28 \<and> at q = 0x29);
              (as_ty, p4) = source_parse_as_type_clause fe (if arr then drop 1 q else p3);
              ty = (if as_ty \<noteq> 0 then as_ty else suffix)
          in (Some (name, if ty = 0 then T_NBR else ty, arr, byval), p4))"

text \<open>What is known of parameter \<open>n\<close>; those beyond \<open>BC_MAX_PARAMS\<close> are not noted.\<close>

definition note_param :: "nat \<Rightarrow> nat \<Rightarrow> u8 \<Rightarrow> bool \<Rightarrow> bool \<Rightarrow> BCCompiler \<Rightarrow> BCCompiler" where
  "note_param sf n ty arr byval cs =
     (if n < BC_MAX_PARAMS
      then cs\<lparr>subfuns := (subfuns cs)[sf := (subfuns cs ! sf)\<lparr>sf_param_types := (sf_param_types (subfuns cs ! sf))[n := ty],
             sf_param_is_array := (sf_param_is_array (subfuns cs ! sf))[n := if arr then 1 else 0],
             sf_param_is_byval := (sf_param_is_byval (subfuns cs ! sf))[n := if byval then 1 else 0]\<rparr>]\<rparr>
      else cs)"

fun params_loop :: "nat \<Rightarrow> frontend \<Rightarrow> bool \<Rightarrow> nat \<Rightarrow> nat \<Rightarrow> BCCompiler \<Rightarrow> cstr \<Rightarrow> nat \<times> BCCompiler \<times> cstr" where
  "params_loop 0 fe parens sf n cs p = (n, cs, p)"
| "params_loop (Suc k) fe parens sf n cs p0 =
     (let p = source_skip_space p0 in
      if has_error cs then (n, cs, p0)
      else if parens \<and> at p = 0x29 then (n, cs, drop 1 p)
      else if \<not> parens \<and> at_end p then (n, cs, p)
      else case param_at fe p of
        (None, q) \<Rightarrow> (n, bc_set_error cs ''Expected parameter name'', q)
      | (Some (name, ty, arr, byval), q) \<Rightarrow>
          let cs1 = note_param sf n ty arr byval (fst (bc_add_local cs name ty (if arr then 1 else 0))); q1 = source_skip_space q in
          if at q1 = 0x2C then params_loop k fe parens sf (n + 1) cs1 (drop 1 q1)
          else if parens then
            (if at q1 = 0x29 then (n + 1, cs1, drop 1 q1)
             else (n + 1, bc_set_error cs1 (''Expected '' @ sq (CHR '','') @ '' or '' @ sq (CHR '')'') @ '' in parameter list''), q1))
          else if at_end q1 then (n + 1, cs1, q1)
          else (n + 1, bc_set_error cs1 (''Expected '' @ sq (CHR '','') @ '' in parameter list''), q1))"

definition source_parse_params :: "frontend \<Rightarrow> nat \<Rightarrow> BCCompiler \<Rightarrow> cstr \<Rightarrow> nat \<times> BCCompiler \<times> cstr" where
  "source_parse_params fe sf cs p0 =
     (let p = source_skip_space p0 in
      if at p = 0x28 then params_loop (length p) fe True sf 0 cs (drop 1 p)
      else if at_end p then (0, cs, p)
      else params_loop (Suc (length p)) fe False sf 0 cs p)"

section \<open>SUB and FUNCTION\<close>

definition upd_subfun :: "nat \<Rightarrow> (BCSubFun \<Rightarrow> BCSubFun) \<Rightarrow> BCCompiler \<Rightarrow> BCCompiler" where
  "upd_subfun i f cs = cs\<lparr>subfuns := (subfuns cs)[i := f (subfuns cs ! i)]\<rparr>"

definition is_bridged :: "BCCompiler \<Rightarrow> int \<Rightarrow> bool" where
  "is_bridged cs i \<longleftrightarrow> i \<ge> 0 \<and> sf_bridged (subfuns cs ! nat i) \<noteq> 0"

text \<open>The interpreter owns the routine: its body is skipped up to its end.\<close>

definition skip_body :: "int \<Rightarrow> cstr \<Rightarrow> frontend \<Rightarrow> BCCompiler \<Rightarrow> (frontend \<times> BCCompiler \<times> cstr) option" where
  "skip_body i p fe cs =
     Some (fe\<lparr>in_struct_fn := True\<rparr>, if i \<ge> 0 then upd_subfun (nat i) (\<lambda>f. f\<lparr>sf_bridged := 1\<rparr>) cs else cs, p)"

text \<open>The jump over the body and the state at its start.\<close>

definition open_body :: "int \<Rightarrow> nat \<Rightarrow> BCCompiler \<Rightarrow> BCCompiler \<times> u32" where
  "open_body lvl i cs =
     (let (cs1, skip) = source_emit_jmp_placeholder lvl cs OP_JMP in
      ((upd_subfun i (\<lambda>f. f\<lparr>sf_entry_addr := here cs1\<rparr>) cs1)\<lparr>current_subfun := int i, cs_locals := []\<rparr>, skip))"

text \<open>\<open>ENTER_FRAME\<close>, whose operand is patched at the end of the body.\<close>

definition enter_body :: "BCNestType \<Rightarrow> u8 \<Rightarrow> u32 \<Rightarrow> BCCompiler \<Rightarrow> BCCompiler" where
  "enter_body ty rty skip cs =
     (let cs1 = bc_emit_byte cs OP_ENTER_FRAME; patch = here cs1 in
      nest_open ty (\<lambda>e. if ty = NEST_FUNCTION then e\<lparr>ne_addr1 := skip, ne_addr2 := patch, ne_var_slot := 0, ne_var_type := rty\<rparr>
                        else e\<lparr>ne_addr1 := skip, ne_addr2 := patch\<rparr>) (bc_emit_u16 cs1 0))"

definition source_compile_sub :: fstmt where
  "source_compile_sub fe cs p0 =
     (let ok = (\<lambda>(c, q). Some (fe, c, q)) in
      case source_parse_varname p0 of
        None \<Rightarrow> ok (bc_set_error cs ''Expected SUB name'', source_skip_space p0)
      | Some (name, suffix, p1) \<Rightarrow>
          if suffix \<noteq> 0 then ok (bc_set_error cs ''SUB name cannot have a type suffix'', p1)
          else let pre = bc_find_subfun cs name; p2 = source_skip_space p1 in
            if is_bridged cs pre \<or> source_params_contain_struct fe p1
            then skip_body pre (if at p2 = 0x28 then skip_group 0 p2 else p2) fe cs
            else let (cs1, i) = source_get_or_create_subfun cs name 0 in
              if i < 0 then ok (cs1, p1)
              else let (cs2, skip) = open_body (opt_level fe) (nat i) cs1; (n, cs3, p3) = source_parse_params fe (nat i) cs2 p1;
                       cs4 = upd_subfun (nat i) (\<lambda>f. f\<lparr>sf_nparams := of_nat n\<rparr>) cs3
                in ok (enter_body NEST_SUB 0 skip cs4, p3))"

text \<open>The end of a body: the frame size, the epilogue \<open>ep\<close>, the jump over the body, the state of the module.\<close>

definition close_body :: "nat \<Rightarrow> (BCCompiler \<Rightarrow> BCCompiler) \<Rightarrow> BCCompiler \<Rightarrow> BCCompiler option" where
  "close_body i ep cs =
     (let e = nest_stack cs ! i in
      Option.bind (bc_patch_u16 cs (ne_addr2 e) (of_nat (length (cs_locals cs)))) (\<lambda>cs1.
        let cs2 = (if current_subfun cs1 \<ge> 0
                   then fst (bc_commit_locals (upd_subfun (nat (current_subfun cs1)) (\<lambda>f. f\<lparr>sf_nlocals := of_nat (length (cs_locals cs1))\<rparr>) cs1) (current_subfun cs1))
                   else cs1)
        in map_option (\<lambda>c. bc_nest_pop (c\<lparr>current_subfun := -1, cs_locals := []\<rparr>)) (source_patch_jmp_here (ep cs2) (ne_addr1 e))))"

definition top_is :: "BCCompiler \<Rightarrow> BCNestType \<Rightarrow> nat option" where
  "top_is cs ty = (case bc_nest_top cs of Some i \<Rightarrow> if ne_type (nest_stack cs ! i) = ty then Some i else None | None \<Rightarrow> None)"

definition source_compile_end_sub :: "BCCompiler \<Rightarrow> BCCompiler option" where
  "source_compile_end_sub cs =
     (case top_is cs NEST_SUB of
        None \<Rightarrow> Some (bc_set_error cs ''END SUB without matching SUB'')
      | Some i \<Rightarrow> close_body i (\<lambda>c. bc_emit_byte (bc_emit_byte c OP_LEAVE_FRAME) OP_RET_SUB) cs)"

definition emit_result :: "BCNestEntry \<Rightarrow> BCCompiler \<Rightarrow> BCCompiler" where
  "emit_result e c = bc_emit_byte (bc_emit_byte (bc_emit_load_var c (ne_var_slot e) (ne_var_type e) True) OP_LEAVE_FRAME) OP_RET_FUN"

definition source_compile_end_function :: "BCCompiler \<Rightarrow> BCCompiler option" where
  "source_compile_end_function cs =
     (case top_is cs NEST_FUNCTION of
        None \<Rightarrow> Some (bc_set_error cs ''END FUNCTION without matching FUNCTION'')
      | Some i \<Rightarrow> close_body i (emit_result (nest_stack cs ! i)) cs)"

text \<open>Local 0 of a function is its result, under the name with its suffix.\<close>

definition source_compile_function :: fstmt where
  "source_compile_function fe cs p0 =
     (let ok = (\<lambda>(c, q). Some (fe, c, q)) in
      case source_parse_varname p0 of
        None \<Rightarrow> ok (bc_set_error cs ''Expected FUNCTION name'', source_skip_space p0)
      | Some (name, suffix, p1) \<Rightarrow>
          let sf_name = (if suffix \<noteq> 0 then butlast name else name); ret0 = (if suffix = 0 then T_NBR else suffix);
              p2 = source_skip_space p1; (peek_ty, _, p3) = source_parse_as_type_clause_ex fe (if at p2 = 0x28 then skip_group 0 p2 else p2);
              pre = bc_find_subfun cs sf_name in
          if is_bridged cs pre \<or> source_params_contain_struct fe p1 \<or> peek_ty = T_STRUCT then skip_body pre p3 fe cs
          else let (cs1, i) = source_get_or_create_subfun cs sf_name ret0 in
            if i < 0 then ok (cs1, p1)
            else let (cs2, skip) = open_body (opt_level fe) (nat i) cs1; cs3 = fst (bc_add_local cs2 name ret0 0);
                     (n, cs4, p4) = source_parse_params fe (nat i) cs3 p1;
                     cs5 = upd_subfun (nat i) (\<lambda>f. f\<lparr>sf_nparams := of_nat n\<rparr>) cs4;
                     (as_ty, p5) = source_parse_as_type_clause fe p4; given = (as_ty \<noteq> 0 \<and> suffix = 0);
                     cs6 = (if given then (upd_subfun (nat i) (\<lambda>f. f\<lparr>sf_return_type := as_ty\<rparr>) cs5)
                                            \<lparr>cs_locals := (cs_locals cs5)[0 := (cs_locals cs5 ! 0)\<lparr>loc_type := as_ty\<rparr>]\<rparr> else cs5)
              in ok (enter_body NEST_FUNCTION (if given then as_ty else ret0) skip cs6, p5))"

end
