(* ===== verification/SrcLoop.thy ===== *)
theory SrcLoop
  imports SrcSub
begin

text \<open>
  Statements of \<open>runtime/vm/bc_source.c\<close>, third part: \<open>DO\<close> and \<open>LOOP\<close>, \<open>EXIT\<close> and \<open>CONTINUE\<close>, \<open>SELECT CASE\<close>, \<open>IF\<close>, and
  labels. \<open>S\<close> stands for \<open>source_compile_statement\<close>, which compiles a statement given as a text of its own.
\<close>

type_synonym stmt_compiler = "frontend \<Rightarrow> BCCompiler \<Rightarrow> cstr \<Rightarrow> (frontend \<times> BCCompiler) option"

definition no_addr :: u32 where "no_addr = 0xFFFFFFFF"

text \<open>\<open>if (addr != 0xFFFFFFFF) source_patch_jmp_here(cs, addr)\<close>\<close>

definition patch_if :: "u32 \<Rightarrow> BCCompiler \<Rightarrow> BCCompiler option" where
  "patch_if a cs = (if a \<noteq> no_addr then source_patch_jmp_here cs a else Some cs)"

text \<open>The lists of jumps in an entry hold 64, 32 and 32 places; further ones are not kept.\<close>

definition add_exit :: "nat \<Rightarrow> u32 \<Rightarrow> BCCompiler \<Rightarrow> BCCompiler" where
  "add_exit i a cs = set_entry i (\<lambda>e. if length (ne_exit_fixups e) < 64 then e\<lparr>ne_exit_fixups := ne_exit_fixups e @ [a]\<rparr> else e) cs"

definition add_continue :: "nat \<Rightarrow> u32 \<Rightarrow> BCCompiler \<Rightarrow> BCCompiler" where
  "add_continue i a cs =
     set_entry i (\<lambda>e. if length (ne_continue_fixups e) < 32 then e\<lparr>ne_continue_fixups := ne_continue_fixups e @ [a]\<rparr> else e) cs"

definition add_case_end :: "nat \<Rightarrow> u32 \<Rightarrow> BCCompiler \<Rightarrow> BCCompiler" where
  "add_case_end i a cs =
     set_entry i (\<lambda>e. if length (ne_case_end_fixups e) < 32 then e\<lparr>ne_case_end_fixups := ne_case_end_fixups e @ [a]\<rparr> else e) cs"

section \<open>DO and LOOP\<close>

definition no_string :: "string \<Rightarrow> u8 \<Rightarrow> BCCompiler \<Rightarrow> BCCompiler" where
  "no_string what ty cs = (if ty = T_STR then bc_set_error cs (what @ '' requires a numeric condition'') else cs)"

text \<open>The condition of \<open>DO\<close>: where it fails the jump at \<open>addr2\<close> leaves the loop.\<close>

definition do_cond :: "frontend \<Rightarrow> parser \<Rightarrow> string \<Rightarrow> u8 \<Rightarrow> nat option \<Rightarrow> BCCompiler \<Rightarrow> cstr \<Rightarrow> BCCompiler \<times> cstr" where
  "do_cond fe E what jop ent cs p =
     (let (ty, cs1, p1) = E cs p; cs2 = no_string what ty cs1 in
      case ent of
        None \<Rightarrow> (cs2, p1)
      | Some i \<Rightarrow> let (cs3, a) = source_emit_jmp_placeholder (opt_level fe) cs2 jop in (set_entry i (\<lambda>e. e\<lparr>ne_addr2 := a\<rparr>) cs3, p1))"

definition source_compile_do :: "frontend \<Rightarrow> parser \<Rightarrow> stmt" where
  "source_compile_do fe E cs p0 =
     (let p = source_skip_space p0; loop_top = here cs;
          cs1 = nest_open NEST_DO (\<lambda>e. e\<lparr>ne_addr1 := loop_top, ne_addr2 := no_addr\<rparr>) cs; ent = bc_nest_top cs1 in
      Some (case kw p ''WHILE'' of
        Some q \<Rightarrow> do_cond fe E ''DO WHILE'' OP_JZ ent cs1 q
      | None \<Rightarrow> (case kw p ''UNTIL'' of Some q \<Rightarrow> do_cond fe E ''DO UNTIL'' OP_JNZ ent cs1 q | None \<Rightarrow> (cs1, p))))"

text \<open>
  A finished loop is converted for the register machine. When that fails and the loop was not marked
  with \<open>'!FAST\<close>, the error is taken back, except for its line.
\<close>

definition try_fast :: "bool \<Rightarrow> u32 \<Rightarrow> BCCompiler \<Rightarrow> BCCompiler option" where
  "try_fast do_fast loop_start cs =
     (if has_error cs then Some cs
      else map_option (\<lambda>(cs1, ok). if \<not> ok \<and> \<not> do_fast then cs1\<lparr>has_error := False, error_msg := []\<rparr> else cs1)
             (source_convert_fast_loop cs (unat loop_start)))"

definition loop_cond :: "frontend \<Rightarrow> parser \<Rightarrow> string \<Rightarrow> u8 \<Rightarrow> u32 \<Rightarrow> BCCompiler \<Rightarrow> cstr \<Rightarrow> BCCompiler \<times> cstr" where
  "loop_cond fe E what jop ent cs p =
     (let (ty, cs1, p1) = E cs p in (source_emit_rel_jump (opt_level fe) (no_string what ty cs1) jop ent, p1))"

definition loop_jump :: "frontend \<Rightarrow> parser \<Rightarrow> BCNestEntry \<Rightarrow> BCCompiler \<Rightarrow> cstr \<Rightarrow> BCCompiler \<times> cstr" where
  "loop_jump fe E e cs p =
     (if ne_type e = NEST_WHILE then (jmp_back cs (ne_addr1 e), p)
      else case kw p ''WHILE'' of
        Some q \<Rightarrow> loop_cond fe E ''LOOP WHILE'' OP_JNZ (ne_addr1 e) cs q
      | None \<Rightarrow> (case kw p ''UNTIL'' of
          Some q \<Rightarrow> loop_cond fe E ''LOOP UNTIL'' OP_JZ (ne_addr1 e) cs q
        | None \<Rightarrow> (jmp_back cs (ne_addr1 e), p)))"

text \<open>A \<open>WHILE\<close> entry has a condition always, a \<open>DO\<close> entry may have none.\<close>

definition source_compile_loop :: fstmt where
  "source_compile_loop fe cs p0 =
     (case (case bc_nest_find cs NEST_DO of Some i \<Rightarrow> Some i | None \<Rightarrow> bc_nest_find cs NEST_WHILE) of
        None \<Rightarrow> Some (fe, bc_set_error cs ''LOOP without matching DO or WHILE'', p0)
      | Some i \<Rightarrow>
          let e = nest_stack cs ! i; fe1 = fe\<lparr>fast_next_loop := False\<rparr>; p = source_skip_space p0 in
          Option.bind (patch_all (ne_continue_fixups e) cs) (\<lambda>cs1.
            let (cs2, p1) = loop_jump fe (source_parse_expression fe1) e cs1 p in
            Option.bind (if ne_type e = NEST_WHILE then source_patch_jmp_here cs2 (ne_addr2 e) else patch_if (ne_addr2 e) cs2) (\<lambda>cs3.
            Option.bind (patch_all (ne_exit_fixups e) cs3) (\<lambda>cs4.
              map_option (\<lambda>c. (fe1, c, p1)) (try_fast (fast_next_loop fe) (ne_addr1 e) (bc_nest_pop cs4))))))"

section \<open>EXIT and CONTINUE\<close>

definition exit_jump :: "int \<Rightarrow> BCNestType \<Rightarrow> string \<Rightarrow> stmt" where
  "exit_jump lvl ty msg cs p =
     (case bc_nest_find cs ty of
        None \<Rightarrow> fail msg cs p
      | Some i \<Rightarrow> let (cs1, a) = source_emit_jmp_placeholder lvl cs OP_JMP in Some (add_exit i a cs1, p))"

definition exit_function :: stmt where
  "exit_function cs p =
     (case bc_nest_find cs NEST_FUNCTION of
        None \<Rightarrow> fail ''EXIT FUNCTION without matching FUNCTION'' cs p
      | Some i \<Rightarrow> Some (emit_result (nest_stack cs ! i) cs, p))"

definition exit_sub :: stmt where
  "exit_sub cs p =
     (case bc_nest_find cs NEST_SUB of
        None \<Rightarrow> fail ''EXIT SUB without matching SUB'' cs p
      | Some _ \<Rightarrow> Some (bc_emit_byte (bc_emit_byte cs OP_LEAVE_FRAME) OP_RET_SUB, p))"

definition source_compile_exit :: "frontend \<Rightarrow> stmt" where
  "source_compile_exit fe cs p0 =
     (let p = source_skip_space p0 in
      case kw p ''DO'' of Some q \<Rightarrow> exit_jump (opt_level fe) NEST_DO ''EXIT DO without matching DO'' cs q
      | None \<Rightarrow>
     (case kw p ''FOR'' of Some q \<Rightarrow> exit_jump (opt_level fe) NEST_FOR ''EXIT FOR without matching FOR'' cs q
      | None \<Rightarrow>
     (case kw p ''FUNCTION'' of Some q \<Rightarrow> exit_function cs q
      | None \<Rightarrow>
     (case kw p ''SUB'' of Some q \<Rightarrow> exit_sub cs q
      | None \<Rightarrow>
          if at_end p then exit_jump (opt_level fe) NEST_DO ''No DO loop is in effect'' cs p
          else fail ''Expected DO, FOR, FUNCTION or SUB after EXIT'' cs p))))"

definition source_compile_continue :: "frontend \<Rightarrow> stmt" where
  "source_compile_continue fe cs p0 =
     (let p = source_skip_space p0;
          go = (\<lambda>found msg q. case found of
                  None \<Rightarrow> fail msg cs q
                | Some i \<Rightarrow> let (cs1, a) = source_emit_jmp_placeholder (opt_level fe) cs OP_JMP in Some (add_continue i a cs1, q)) in
      case kw p ''FOR'' of Some q \<Rightarrow> go (bc_nest_find cs NEST_FOR) ''No FOR loop is in effect'' q
      | None \<Rightarrow>
     (case kw p ''DO'' of
        Some q \<Rightarrow> go (case bc_nest_find cs NEST_DO of Some i \<Rightarrow> Some i | None \<Rightarrow> bc_nest_find cs NEST_WHILE) ''No DO loop is in effect'' q
      | None \<Rightarrow> fail ''Expected FOR or DO after CONTINUE'' cs p))"

section \<open>SELECT CASE\<close>

definition source_compile_select_case :: "parser \<Rightarrow> stmt" where
  "source_compile_select_case E cs p0 =
     (let p = source_skip_space p0 in
      case kw p ''CASE'' of
        None \<Rightarrow> fail ''Expected CASE after SELECT'' cs p
      | Some q \<Rightarrow>
          let (ty, cs1, p1) = E cs q; (cs2, slot) = source_alloc_hidden_slot cs1 ty; cs3 = source_emit_store_converted cs2 slot ty ty False in
          Some (nest_open NEST_SELECT (\<lambda>e. e\<lparr>ne_select_slot := slot, ne_select_type := ty, ne_addr1 := no_addr\<rparr>) cs3, p1))"

text \<open>The end of the branch before this \<open>CASE\<close>, when there is one.\<close>

definition close_case :: "int \<Rightarrow> nat \<Rightarrow> BCCompiler \<Rightarrow> BCCompiler option" where
  "close_case lvl i cs =
     (let a = ne_addr1 (nest_stack cs ! i) in
      if a = no_addr then Some cs
      else let (cs1, end_jmp) = source_emit_jmp_placeholder lvl cs OP_JMP in
        map_option (set_entry i (\<lambda>e. e\<lparr>ne_addr1 := no_addr\<rparr>)) (source_patch_jmp_here (add_case_end i end_jmp cs1) a))"

text \<open>The jump into the branch; after 32 values none is emitted.\<close>

definition into_body :: "int \<Rightarrow> u32 list \<Rightarrow> BCCompiler \<Rightarrow> u32 list \<times> BCCompiler" where
  "into_body lvl bodies cs =
     (if length bodies < 32 then (let (cs1, a) = source_emit_jmp_placeholder lvl cs OP_JNZ in (bodies @ [a], cs1)) else (bodies, cs))"

text \<open>The selected value compared with the expression at the text.\<close>

definition load_selected :: "BCNestEntry \<Rightarrow> BCCompiler \<Rightarrow> BCCompiler" where
  "load_selected e cs = bc_emit_load_var cs (ne_select_slot e) (ne_select_type e) False"

definition case_is :: "int \<Rightarrow> parser \<Rightarrow> BCNestEntry \<Rightarrow> rel \<Rightarrow> u32 list \<Rightarrow> BCCompiler \<Rightarrow> cstr \<Rightarrow> u32 list \<times> BCCompiler \<times> cstr" where
  "case_is lvl E e r bodies cs p =
     (let cs1 = load_selected e cs; (rhs, cs2, p1) = E cs1 p;
          (bodies1, cs3) = into_body lvl bodies (snd (source_emit_compare cs2 (ne_select_type e) rhs (length (code cs1)) r)) in
      (bodies1, cs3, p1))"

definition case_value :: "int \<Rightarrow> parser \<Rightarrow> BCNestEntry \<Rightarrow> u32 list \<Rightarrow> BCCompiler \<Rightarrow> cstr \<Rightarrow> (u32 list \<times> BCCompiler \<times> cstr) option" where
  "case_value lvl E e bodies cs p =
     (let ty = ne_select_type e; cs1 = load_selected e cs; (rhs, cs2, p1) = E cs1 p; p2 = source_skip_space p1 in
      case kw p2 ''TO'' of
        None \<Rightarrow> let (bodies1, cs3) = into_body lvl bodies (snd (source_emit_compare cs2 ty rhs (length (code cs1)) EQ)) in Some (bodies1, cs3, p2)
      | Some q \<Rightarrow>
          let (cs3, low_fail) = source_emit_jmp_placeholder lvl (snd (source_emit_compare cs2 ty rhs (length (code cs1)) GE)) OP_JZ;
              cs4 = load_selected e cs3; (high, cs5, p3) = E cs4 q;
              (bodies1, cs6) = into_body lvl bodies (snd (source_emit_compare cs5 ty high (length (code cs4)) LE))
          in map_option (\<lambda>c. (bodies1, c, p3)) (source_patch_jmp_here cs6 low_fail))"

fun case_loop :: "nat \<Rightarrow> int \<Rightarrow> parser \<Rightarrow> BCNestEntry \<Rightarrow> u32 list \<Rightarrow> BCCompiler \<Rightarrow> cstr \<Rightarrow> (u32 list \<times> BCCompiler \<times> cstr) option" where
  "case_loop 0 lvl E e bodies cs p = Some (bodies, cs, p)"
| "case_loop (Suc n) lvl E e bodies cs p0 =
     (let p = source_skip_space p0;
          more = (\<lambda>(bs, c, q). let q1 = source_skip_space q in if at q1 \<noteq> 0x2C then Some (bs, c, q1) else case_loop n lvl E e bs c (drop 1 q1)) in
      if has_error cs then Some (bodies, cs, p0)
      else case kw p ''IS'' of
        Some q \<Rightarrow>
          (case source_match_compare q of
             None \<Rightarrow> Some (bodies, bc_set_error cs ''Expected comparison operator after IS'', source_skip_space q)
           | Some (r, q1) \<Rightarrow> more (case_is lvl E e r bodies cs q1))
      | None \<Rightarrow> Option.bind (case_value lvl E e bodies cs p) more)"

definition source_compile_case :: "frontend \<Rightarrow> parser \<Rightarrow> stmt" where
  "source_compile_case fe E cs p0 =
     (case bc_nest_find cs NEST_SELECT of
        None \<Rightarrow> fail ''CASE without matching SELECT CASE'' cs p0
      | Some i \<Rightarrow>
          Option.bind (close_case (opt_level fe) i cs) (\<lambda>cs1.
            let p = source_skip_space p0 in
            case kw p ''ELSE'' of
              Some q \<Rightarrow> Some (set_entry i (\<lambda>e. e\<lparr>ne_has_else := 1\<rparr>) cs1, q)
            | None \<Rightarrow>
                Option.bind (case_loop (Suc (length p)) (opt_level fe) E (nest_stack cs1 ! i) [] cs1 p) (\<lambda>(bodies, cs2, p1).
                  let (cs3, a) = source_emit_jmp_placeholder (opt_level fe) cs2 OP_JMP in
                  map_option (\<lambda>c. (c, p1)) (patch_all bodies (set_entry i (\<lambda>e. e\<lparr>ne_addr1 := a\<rparr>) cs3)))))"

definition source_compile_end_select :: "BCCompiler \<Rightarrow> BCCompiler option" where
  "source_compile_end_select cs =
     (case bc_nest_find cs NEST_SELECT of
        None \<Rightarrow> Some (bc_set_error cs ''END SELECT without matching SELECT CASE'')
      | Some i \<Rightarrow>
          let e = nest_stack cs ! i in
          Option.bind (patch_if (ne_addr1 e) cs) (\<lambda>cs1. map_option bc_nest_pop (patch_all (ne_case_end_fixups e) cs1)))"

section \<open>IF\<close>

text \<open>The first statement of a list and what follows it; an \<open>IF\<close> takes the rest of the line.\<close>

fun split_statement :: "bool \<Rightarrow> bool \<Rightarrow> cstr \<Rightarrow> cstr \<times> cstr" where
  "split_statement whole inq [] = ([], [])"
| "split_statement whole inq (c # p) =
     (let inq1 = (if c = 0x22 then \<not> inq else inq) in
      if \<not> inq1 \<and> (\<not> whole \<and> c = 0x3A \<or> c = 0x27) then ([], c # p)
      else let (a, b) = split_statement whole inq1 p in (c # a, b))"

fun statement_list :: "nat \<Rightarrow> stmt_compiler \<Rightarrow> stmt_compiler" where
  "statement_list 0 S fe cs p = Some (fe, cs)"
| "statement_list (Suc n) S fe cs p0 =
     (let p = source_skip_space p0 in
      if has_error cs \<or> at p = 0 \<or> at p = 0x27 then Some (fe, cs)
      else let (s, r) = split_statement (kw p ''IF'' \<noteq> None) False p in
        Option.bind (S fe cs (take STRINGSIZE s)) (\<lambda>(fe1, cs1).
          if at r = 0x3A then statement_list n S fe1 cs1 (drop 1 r) else Some (fe1, cs1)))"

definition source_compile_statement_list :: "stmt_compiler \<Rightarrow> stmt_compiler" where
  "source_compile_statement_list S fe cs p = statement_list (Suc (length p)) S fe cs p"

text \<open>A line number alone is a jump.\<close>

definition source_compile_if_clause :: "stmt_compiler \<Rightarrow> stmt_compiler" where
  "source_compile_if_clause S fe cs clause =
     (let c = source_skip_space clause in
      if isdigit8 (at c) then source_compile_statement_list S fe cs (take STRINGSIZE (bytes_of ''GOTO '' @ c))
      else source_compile_statement_list S fe cs clause)"

fun ctrlval_scan :: "bool \<Rightarrow> bool \<Rightarrow> cstr \<Rightarrow> bool" where
  "ctrlval_scan inq prev [] = False"
| "ctrlval_scan inq prev (c # p) =
     (if c = 0x0A then False
      else if c = 0x22 then ctrlval_scan (\<not> inq) (isnamechar c) p
      else if \<not> inq \<and> c = 0x27 then False
      else if \<not> inq \<and> \<not> prev \<and> same_name (take 7 (c # p)) (bytes_of ''CTRLVAL'') \<and> at (source_skip_space (drop 7 (c # p))) = 0x28 then True
      else ctrlval_scan inq (isnamechar c) p)"

definition source_stmt_contains_ctrlval_call :: "cstr \<Rightarrow> bool" where
  "source_stmt_contains_ctrlval_call s =
     (let p = source_skip_space s in
      \<not> word_at p ''REM'' \<and> ctrlval_scan False False p)"

definition source_text_has_string_signal :: "cstr \<Rightarrow> bool" where
  "source_text_has_string_signal s \<longleftrightarrow>
     list_ex (\<lambda>c. c = 0x22 \<or> c = 0x24) (takeWhile (\<lambda>c. c \<noteq> 0x0A \<and> c \<noteq> 0x27) s)"

text \<open>The condition, a text of its own; a call of \<open>CTRLVAL\<close> in it is taken for a number.\<close>

definition condition :: "frontend \<Rightarrow> BCCompiler \<Rightarrow> cstr \<Rightarrow> parsed" where
  "condition fe cs cond =
     source_parse_expression
       (fe\<lparr>ctrlval_numeric_hint := source_stmt_contains_ctrlval_call cond \<and> \<not> source_text_has_string_signal cond\<rparr>) cs cond"

text \<open>The text of the condition and what follows \<open>THEN\<close>, or begins with \<open>GOTO\<close>.\<close>

definition split_if :: "cstr \<Rightarrow> (cstr \<times> cstr) option" where
  "split_if p =
     (let before = (\<lambda>q. take STRINGSIZE (take (length p - length q) p)) in
      case source_find_keyword_outside_string p ''THEN'' of
        Some q \<Rightarrow> Some (before q, drop 4 q)
      | None \<Rightarrow> map_option (\<lambda>q. (before q, q)) (source_find_keyword_outside_string p ''GOTO''))"

text \<open>The clauses of an \<open>IF\<close> on one line, behind its jump \<open>false_patch\<close>.\<close>

definition if_one_line :: "stmt_compiler \<Rightarrow> u32 \<Rightarrow> fstmt" where
  "if_one_line S false_patch fe cs then_start =
     (let els = source_find_keyword_outside_string then_start ''ELSE'';
          then_text = (case els of None \<Rightarrow> then_start | Some q \<Rightarrow> take (length then_start - length q) then_start) in
      Option.bind (source_compile_if_clause S fe cs (take STRINGSIZE then_text)) (\<lambda>(fe1, cs1).
        if has_error cs1 then Some (fe1, cs1, then_start)
        else case els of
          None \<Rightarrow> map_option (\<lambda>c. (fe1, c, [])) (source_patch_jmp_here cs1 false_patch)
        | Some q \<Rightarrow>
            let (cs2, end_patch) = source_emit_jmp_placeholder (opt_level fe1) cs1 OP_JMP in
            Option.bind (source_patch_jmp_here cs2 false_patch) (\<lambda>cs3.
            Option.bind (source_compile_if_clause S fe1 cs3 (drop 4 q)) (\<lambda>(fe2, cs4).
              map_option (\<lambda>c. (fe2, c, [])) (source_patch_jmp_here cs4 end_patch)))))"

definition source_compile_if :: "stmt_compiler \<Rightarrow> fstmt" where
  "source_compile_if S fe cs p =
     (case split_if p of
        None \<Rightarrow> Some (fe, bc_set_error cs ''IF without THEN'', p)
      | Some (cond, then_start) \<Rightarrow>
          let (ty, cs1, rest) = condition fe cs cond;
              cs2 = (if has_error cs1 then cs1 else if ty = T_STR then bc_set_error cs1 ''IF requires a numeric condition'' else source_statement_end cs1 rest) in
          if has_error cs2 then Some (fe, cs2, p)
          else let (cs3, false_patch) = source_emit_jmp_placeholder (opt_level fe) cs2 OP_JZ in
            if source_line_empty_or_comment then_start
            then Some (fe, nest_open NEST_IF (\<lambda>e. e\<lparr>ne_addr1 := false_patch, ne_addr2 := no_addr\<rparr>) cs3, [])
            else if_one_line S false_patch fe cs3 then_start)"

text \<open>The jump behind the branch that ends here, and the place its condition leads to.\<close>

definition end_branch :: "int \<Rightarrow> nat \<Rightarrow> BCCompiler \<Rightarrow> BCCompiler option" where
  "end_branch lvl i cs =
     (let (cs1, a) = source_emit_jmp_placeholder lvl cs OP_JMP in patch_if (ne_addr1 (nest_stack cs ! i)) (add_exit i a cs1))"

text \<open>What stands behind \<open>THEN\<close> on the line of an \<open>ELSEIF\<close> is compiled as one statement.\<close>

definition source_compile_elseif :: "stmt_compiler \<Rightarrow> fstmt" where
  "source_compile_elseif S fe cs p =
     (case top_is cs NEST_IF of
        None \<Rightarrow> Some (fe, bc_set_error cs ''ELSEIF without matching IF'', p)
      | Some i \<Rightarrow>
          Option.bind (end_branch (opt_level fe) i cs) (\<lambda>cs1.
            case source_find_keyword_outside_string p ''THEN'' of
              None \<Rightarrow> Some (fe, bc_set_error cs1 ''ELSEIF without THEN'', p)
            | Some q \<Rightarrow>
                let (ty, cs2, rest) = condition fe cs1 (take STRINGSIZE (take (length p - length q) p));
                    cs3 = source_statement_end (if ty = T_STR then bc_set_error cs2 ''ELSEIF requires a numeric condition'' else cs2) rest in
                if has_error cs3 then Some (fe, cs3, p)
                else let (cs4, a) = source_emit_jmp_placeholder (opt_level fe) cs3 OP_JZ; cs5 = set_entry i (\<lambda>e. e\<lparr>ne_addr1 := a\<rparr>) cs4 in
                  if source_line_empty_or_comment (drop 4 q) then Some (fe, cs5, [])
                  else map_option (\<lambda>(fe1, c). (fe1, c, [])) (S fe cs5 (drop 4 q))))"

definition source_compile_else :: "frontend \<Rightarrow> stmt" where
  "source_compile_else fe cs p =
     (case top_is cs NEST_IF of
        None \<Rightarrow> fail ''ELSE without matching IF'' cs p
      | Some i \<Rightarrow>
          map_option (\<lambda>c. (set_entry i (\<lambda>e. e\<lparr>ne_addr1 := no_addr, ne_has_else := 1\<rparr>) c, source_skip_space p)) (end_branch (opt_level fe) i cs))"

text \<open>An \<open>ENDIF\<close> without \<open>IF\<close> is ignored.\<close>

definition source_compile_endif :: "BCCompiler \<Rightarrow> BCCompiler option" where
  "source_compile_endif cs =
     (case top_is cs NEST_IF of
        None \<Rightarrow> Some cs
      | Some i \<Rightarrow>
          let e = nest_stack cs ! i in
          Option.bind (patch_if (ne_addr1 e) cs) (\<lambda>cs1. map_option bc_nest_pop (patch_all (ne_exit_fixups e) cs1)))"

section \<open>Bridged routines and labels\<close>

text \<open>Whether a name outside strings is that of a routine the interpreter runs.\<close>

fun references_bridged :: "nat \<Rightarrow> BCCompiler \<Rightarrow> bool \<Rightarrow> cstr \<Rightarrow> bool" where
  "references_bridged 0 cs inq p = False"
| "references_bridged (Suc n) cs inq p =
     (case p of [] \<Rightarrow> False
      | c # r \<Rightarrow>
          if c = 0x22 then references_bridged n cs (\<not> inq) r
          else if inq \<or> \<not> isnamestart c then references_bridged n cs inq r
          else let name = takeWhile (\<lambda>d. isnamechar d \<and> d \<noteq> 0x2E) p; q = drop (length name) p;
                   q1 = (if is_suffix_char (at q) then drop 1 q else q)
            in is_bridged cs (bc_find_subfun cs name) \<or> references_bridged n cs inq q1)"

definition source_stmt_references_bridged_subfun :: "BCCompiler \<Rightarrow> cstr \<Rightarrow> bool" where
  "source_stmt_references_bridged_subfun cs p = references_bridged (length p) cs False p"

definition reserved_labels :: "cstr list" where
  "reserved_labels = map bytes_of
     [''IF'', ''FOR'', ''DO'', ''WHILE'', ''SUB'', ''FUNCTION'', ''SELECT'', ''END'', ''EXIT'', ''NEXT'', ''LOOP'', ''RETURN'',
      ''GOTO'', ''GOSUB'', ''DIM'', ''LOCAL'', ''STATIC'', ''CONST'', ''PRINT'', ''INPUT'', ''OPEN'', ''CLOSE'', ''DATA'', ''READ'',
      ''RESTORE'', ''REM'', ''OPTION'', ''ON'', ''ELSE'', ''ELSEIF'', ''THEN'', ''TO'', ''STEP'', ''AS'', ''CASE'', ''DEFAULT'']"

text \<open>A label at the text, when there is one: its name and what follows the colon.\<close>

definition label_at :: "cstr \<Rightarrow> (cstr \<times> cstr) option" where
  "label_at p0 =
     (let p = source_skip_space p0; name = takeWhile is_label_char p; q = source_skip_space (drop (length name) p) in
      if \<not> (isalpha8 (at p) \<or> at p = 0x5F) \<or> at q \<noteq> 0x3A \<or> at (drop 1 q) = 0x3D \<or> name = [] \<or> length name > BC_MAX_LABEL_NAME \<or>
         list_ex (\<lambda>r. same_name name r) reserved_labels
      then None else Some (name, drop 1 q))"

text \<open>A place kept for a forward jump is filled in. \<open>None\<close> for the text: there was no label, or a second one.\<close>

definition source_try_register_label :: "BCCompiler \<Rightarrow> cstr \<Rightarrow> BCCompiler \<times> cstr option" where
  "source_try_register_label cs p =
     (case label_at p of
        None \<Rightarrow> (cs, None)
      | Some (name, q) \<Rightarrow>
          (case bc_labelmap_index cs name of
             Some i \<Rightarrow>
               if lab_offset (labelmap cs ! i) \<noteq> no_addr then (bc_set_error cs (''Duplicate label '' @ quoted name), None)
               else (cs\<lparr>labelmap := (labelmap cs)[i := (labelmap cs ! i)\<lparr>lab_offset := here cs, lab_data_index := of_nat (length (data_pool cs))\<rparr>]\<rparr>, Some q)
           | None \<Rightarrow> (fst (bc_add_labelmap_entry cs name (here cs)), Some q)))"

end
