(* ===== verification/SrcAsm.thy ===== *)
theory SrcAsm
  imports SrcLoop
begin

text \<open>
  The inline assembler of \<open>runtime/vm/bc_source.c\<close>: the lines between \<open>'!ASM\<close> and \<open>'!ENDASM\<close>, kept in the front
  end, become one \<open>FAST_LOOP\<close> block. Locals of the routine are the registers from 0, constants follow.
  Two passes: the first reads \<open>.const\<close> and \<open>.array\<close>, the second labels and instructions.
\<close>

section \<open>State\<close>

definition ASM_MAX_LINES :: nat where "ASM_MAX_LINES = 128"
definition ASM_MAX_LINE_LEN :: nat where "ASM_MAX_LINE_LEN = 128"
definition ASM_MAX_OPERANDS :: nat where "ASM_MAX_OPERANDS = 6"
definition ASM_ROP_BYTES :: nat where "ASM_ROP_BYTES = 4096"

text \<open>A label with its address, when it is defined. \<open>asm_names\<close>: a register's name and whether it holds a constant.\<close>

record AsmCtx =
  asm_rop :: "u8 list"
  asm_nlocals :: nat
  asm_consts :: "(u8 \<times> u64) list"
  asm_arrays :: "(u8 \<times> u16) list"
  asm_max_regs :: nat
  asm_labels :: "(cstr \<times> nat option) list"
  asm_fixups :: "(nat \<times> nat) list"
  asm_names :: "(cstr \<times> u8 \<times> bool) list"

definition asm_emit :: "u8 \<Rightarrow> AsmCtx \<Rightarrow> AsmCtx" where
  "asm_emit b ctx = (if length (asm_rop ctx) < ASM_ROP_BYTES then ctx\<lparr>asm_rop := asm_rop ctx @ [b]\<rparr> else ctx)"

definition asm_emits :: "u8 list \<Rightarrow> AsmCtx \<Rightarrow> AsmCtx" where
  "asm_emits bs ctx = fold asm_emit bs ctx"

definition asm_emit_i16 :: "u16 \<Rightarrow> AsmCtx \<Rightarrow> AsmCtx" where
  "asm_emit_i16 v ctx = asm_emits (le_enc 2 (unat v)) ctx"

text \<open>\<open>strncasecmp(a, b, 31) == 0\<close>\<close>

definition same31 :: "cstr \<Rightarrow> cstr \<Rightarrow> bool" where
  "same31 a b = same_name (take 31 a) (take 31 b)"

text \<open>The label's number, entered undefined when it is new; \<open>None\<close>: the table is full.\<close>

definition asm_find_label :: "cstr \<Rightarrow> AsmCtx \<Rightarrow> nat option \<times> AsmCtx" where
  "asm_find_label name ctx =
     (case find_index (\<lambda>l. same31 (fst l) name) (asm_labels ctx) of
        Some i \<Rightarrow> (Some i, ctx)
      | None \<Rightarrow>
          if length (asm_labels ctx) \<ge> 64 then (None, ctx)
          else (Some (length (asm_labels ctx)), ctx\<lparr>asm_labels := asm_labels ctx @ [(map tolower8 (take 31 name), None)]\<rparr>))"

text \<open>Constants are told apart by type and bits; the 33rd is register 0.\<close>

definition asm_const_reg :: "u8 \<times> u64 \<Rightarrow> AsmCtx \<Rightarrow> u8 \<times> AsmCtx" where
  "asm_const_reg c ctx =
     (case find_index (\<lambda>d. d = c) (asm_consts ctx) of
        Some i \<Rightarrow> (of_nat (asm_nlocals ctx + i), ctx)
      | None \<Rightarrow>
          if length (asm_consts ctx) \<ge> 32 then (0, ctx)
          else (of_nat (asm_nlocals ctx + length (asm_consts ctx)),
                ctx\<lparr>asm_consts := asm_consts ctx @ [c],
                    asm_max_regs := max (asm_max_regs ctx) (asm_nlocals ctx + length (asm_consts ctx) + 1)\<rparr>))"

definition asm_const_reg_i :: "i64 \<Rightarrow> AsmCtx \<Rightarrow> u8 \<times> AsmCtx" where
  "asm_const_reg_i v ctx = asm_const_reg (T_INT, v) ctx"

definition asm_const_reg_f :: "f64 \<Rightarrow> AsmCtx \<Rightarrow> u8 \<times> AsmCtx" where
  "asm_const_reg_f v ctx = asm_const_reg (T_NBR, v) ctx"

definition asm_emit_jump_to_label :: "nat \<Rightarrow> AsmCtx \<Rightarrow> AsmCtx" where
  "asm_emit_jump_to_label i ctx =
     (case snd (asm_labels ctx ! i) of
        Some a \<Rightarrow> asm_emit_i16 (word_of_int (int a - (int (length (asm_rop ctx)) + 2))) ctx
      | None \<Rightarrow>
          asm_emit_i16 0 (if length (asm_fixups ctx) < 128 then ctx\<lparr>asm_fixups := asm_fixups ctx @ [(length (asm_rop ctx), i)]\<rparr> else ctx))"

section \<open>Text\<close>

definition ident_char :: "u8 \<Rightarrow> bool" where
  "ident_char c \<longleftrightarrow> isalnum8 c \<or> c = 0x5F \<or> c = 0x2E"

text \<open>An identifier of at most \<open>n\<close> characters, and the rest.\<close>

definition asm_parse_ident :: "nat \<Rightarrow> cstr \<Rightarrow> cstr \<times> cstr" where
  "asm_parse_ident n p = (let s = take n (takeWhile ident_char p) in (map tolower8 s, drop (length s) p))"

definition directive_at :: "string \<Rightarrow> cstr \<Rightarrow> bool" where
  "directive_at d p \<longleftrightarrow> at p = 0x2E \<and> same_name (take 5 (drop 1 p)) (bytes_of d) \<and> \<not> isalnum8 (at (drop 6 p))"

text \<open>\<open>.name:\<close>\<close>

definition label_line :: "cstr \<Rightarrow> cstr option" where
  "label_line p =
     (let s = takeWhile (\<lambda>c. isalnum8 c \<or> c = 0x5F) (drop 1 p) in
      if at p = 0x2E \<and> at (drop (length s + 1) p) = 0x3A then Some (map tolower8 (take 31 s)) else None)"

definition asm_blank :: "cstr \<Rightarrow> bool" where
  "asm_blank p \<longleftrightarrow> at p = 0 \<or> at p = 0x3B"

section \<open>First pass\<close>

text \<open>The names of the locals: without type suffix or brackets, at most 31 characters.\<close>

definition local_name :: "cstr \<Rightarrow> cstr" where
  "local_name s =
     (let s1 = (if s \<noteq> [] \<and> is_suffix_char (last s) then butlast s else s);
          s2 = (if length s1 \<ge> 2 \<and> drop (length s1 - 2) s1 = [0x28, 0x29] then take (length s1 - 2) s1 else s1) in take 31 s2)"

definition local_names :: "BCCompiler \<Rightarrow> (cstr \<times> u8 \<times> bool) list" where
  "local_names cs = take MAX_FAST_REGS (map (\<lambda>(i, l). (local_name (loc_name l), of_nat i, False)) (enumerate 0 (cs_locals cs)))"

text \<open>The literal of \<open>.const\<close>, behind its sign: with a point a double, otherwise decimal digits.\<close>

definition const_operand :: "bool \<Rightarrow> cstr \<Rightarrow> AsmCtx \<Rightarrow> u8 \<times> AsmCtx" where
  "const_operand neg p ctx =
     (let s = takeWhile (\<lambda>c. c \<noteq> 0x3B \<and> c \<noteq> 0x2C \<and> c \<noteq> 0x20 \<and> c \<noteq> 0x09) p; v = take 63 s in
      if 0x2E \<in> set s then (let f = fst (strtod_signed v) in asm_const_reg_f (if neg then f_neg f else f) ctx)
      else (let i = strtoll_signed v in asm_const_reg_i (if neg then - i else i) ctx))"

definition asm_const_line :: "cstr \<Rightarrow> AsmCtx \<Rightarrow> string + AsmCtx" where
  "asm_const_line p ctx =
     (let (name, p1) = asm_parse_ident 31 (source_skip_space p); p2 = source_skip_space p1;
          p3 = source_skip_space (if at p2 = 0x2C then drop 1 p2 else p2) in
      if name = [] then Inl (CHR 0x27 # ''!ASM: expected constant name after .const'')
      else let neg = (at p3 = 0x2D); (reg, ctx1) = const_operand neg (if neg then drop 1 p3 else p3) ctx in
        Inr (if length (asm_names ctx1) < MAX_FAST_REGS then ctx1\<lparr>asm_names := asm_names ctx1 @ [(name, reg, True)]\<rparr> else ctx1))"

text \<open>The local array of a name given with or without its brackets.\<close>

definition local_array :: "cstr \<Rightarrow> cstr \<Rightarrow> BCCompiler \<Rightarrow> nat option" where
  "local_array full bare cs =
     find_index (\<lambda>l. same_name (loc_name l) full \<or>
        same_name (take (length bare) (loc_name l)) bare \<and>
        (length (loc_name l) = length bare \<or> take 2 (drop (length bare) (loc_name l)) = [0x28, 0x29]) \<and> loc_is_array l \<noteq> 0) (cs_locals cs)"

definition asm_array_line :: "BCCompiler \<Rightarrow> cstr \<Rightarrow> AsmCtx \<Rightarrow> string + AsmCtx" where
  "asm_array_line cs p ctx =
     (let full = take MAXVARLEN (takeWhile (\<lambda>c. c \<noteq> 0x3B \<and> c \<noteq> 0x20 \<and> c \<noteq> 0x09) (source_skip_space p));
          bare = take (length full - 2) full in
      if length full < 3 \<or> drop (length full - 2) full \<noteq> [0x28, 0x29]
      then Inl (CHR 0x27 # ''!ASM: .array name must include type suffix and (), e.g. buf%()'')
      else let found = (case local_array full bare cs of
                Some i \<Rightarrow> Some (1, of_nat i)
              | None \<Rightarrow>
                  let slot = (if bc_find_slot cs full \<noteq> 0xFFFF then bc_find_slot cs full else bc_find_slot cs bare) in
                  if slot = 0xFFFF then None else Some (0, slot)) in
        case found of
          None \<Rightarrow> Inl (CHR 0x27 # ''!ASM: array '' @ quoted full @ '' not found'')
        | Some a \<Rightarrow> if length (asm_arrays ctx) \<ge> 16 then Inl (CHR 0x27 # ''!ASM: too many arrays (max 16)'')
                    else Inr (ctx\<lparr>asm_arrays := asm_arrays ctx @ [a]\<rparr>))"

definition asm_first :: "BCCompiler \<Rightarrow> cstr \<Rightarrow> AsmCtx \<Rightarrow> string + AsmCtx" where
  "asm_first cs p0 ctx =
     (let p = source_skip_space p0 in
      if asm_blank p then Inr ctx
      else if directive_at ''const'' p then asm_const_line (drop 6 p) ctx
      else if directive_at ''array'' p then asm_array_line cs (drop 6 p) ctx
      else Inr ctx)"

section \<open>Operands\<close>

text \<open>A label, a literal's register, or a name; for messages every operand keeps its text.\<close>

datatype operand = OLabel cstr | OReg u8 | OName cstr

definition operand_text :: "operand \<Rightarrow> string" where
  "operand_text a = (case a of OLabel s \<Rightarrow> quoted s | OName s \<Rightarrow> quoted s | OReg r \<Rightarrow> CHR 0x27 # dec_nat (unat r) @ [CHR 0x27])"

definition operand_at :: "cstr \<Rightarrow> AsmCtx \<Rightarrow> string + (operand \<times> AsmCtx \<times> cstr)" where
  "operand_at p ctx =
     (if at p = 0x2E then
        (let s = take 31 (takeWhile (\<lambda>c. isalnum8 c \<or> c = 0x5F) (drop 1 p)) in Inr (OLabel (map tolower8 s), ctx, drop (length s + 1) p))
      else if at p = 0x2D \<or> isdigit8 (at p) then
        (let k = (if at p = 0x2D then 1 else 0); s = take (63 - k) (takeWhile (\<lambda>c. isdigit8 c \<or> c = 0x2E) (drop k p)); lit = take k p @ s;
             (reg, ctx1) = (if 0x2E \<in> set s then asm_const_reg_f (fst (strtod_signed lit)) ctx else asm_const_reg_i (strtoll_signed lit) ctx)
         in Inr (OReg reg, ctx1, drop (length lit) p))
      else if isalpha8 (at p) \<or> at p = 0x5F then (let (s, q) = asm_parse_ident 31 p in Inr (OName s, ctx, q))
      else Inl (CHR 0x27 # ''!ASM: unexpected character '' @ quoted (take 1 p)))"

fun asm_operands :: "nat \<Rightarrow> cstr \<Rightarrow> AsmCtx \<Rightarrow> string + (operand list \<times> AsmCtx)" where
  "asm_operands 0 p ctx = Inr ([], ctx)"
| "asm_operands (Suc n) p0 ctx =
     (let p = source_skip_space p0 in
      if asm_blank p then Inr ([], ctx)
      else case operand_at p ctx of
        Inl e \<Rightarrow> Inl e
      | Inr (a, ctx1, q) \<Rightarrow>
          let q1 = source_skip_space q in
          (case asm_operands n (if at q1 = 0x2C then drop 1 q1 else q1) ctx1 of
             Inl e \<Rightarrow> Inl e | Inr (as, ctx2) \<Rightarrow> Inr (a # as, ctx2)))"

text \<open>Constants are looked for before locals.\<close>

definition asm_resolve_operand :: "(cstr \<times> u8 \<times> bool) list \<Rightarrow> cstr \<Rightarrow> (u8 \<times> bool) option" where
  "asm_resolve_operand names ident =
     (case find (\<lambda>(s, r, c). c \<and> same31 s ident) names of
        Some (s, r, c) \<Rightarrow> Some (r, True)
      | None \<Rightarrow> (case find (\<lambda>(s, r, c). \<not> c \<and> same31 s ident) names of
          Some (s, r, c) \<Rightarrow> Some (r, False) | None \<Rightarrow> None))"

text \<open>An operand resolved: its register (0 for a label), whether it is a constant, its label.\<close>

record resolved =
  op_reg :: u8
  op_const :: bool
  op_label :: "nat option"

definition resolve_operand :: "operand \<Rightarrow> AsmCtx \<Rightarrow> string + (resolved \<times> AsmCtx)" where
  "resolve_operand a ctx =
     (case a of
        OLabel s \<Rightarrow>
          (case asm_find_label s ctx of
             (None, _) \<Rightarrow> Inl (CHR 0x27 # ''!ASM: too many labels'')
           | (Some i, ctx1) \<Rightarrow> Inr (\<lparr>op_reg = 0, op_const = False, op_label = Some i\<rparr>, ctx1))
      | OReg r \<Rightarrow> Inr (\<lparr>op_reg = r, op_const = True, op_label = None\<rparr>, ctx)
      | OName s \<Rightarrow>
          (case asm_resolve_operand (asm_names ctx) s of
             None \<Rightarrow> Inl (CHR 0x27 # ''!ASM: unknown name '' @ quoted s)
           | Some (r, c) \<Rightarrow> Inr (\<lparr>op_reg = r, op_const = c, op_label = None\<rparr>, ctx)))"

fun resolve_operands :: "operand list \<Rightarrow> AsmCtx \<Rightarrow> string + (resolved list \<times> AsmCtx)" where
  "resolve_operands [] ctx = Inr ([], ctx)"
| "resolve_operands (a # as) ctx =
     (case resolve_operand a ctx of
        Inl e \<Rightarrow> Inl e
      | Inr (r, ctx1) \<Rightarrow> (case resolve_operands as ctx1 of Inl e \<Rightarrow> Inl e | Inr (rs, ctx2) \<Rightarrow> Inr (r # rs, ctx2)))"

text \<open>The number of a declared array, by the letters and digits its name starts with.\<close>

definition array_text :: "BCCompiler \<Rightarrow> u8 \<times> u16 \<Rightarrow> cstr" where
  "array_text cs a = (if fst a \<noteq> 0 then loc_name (cs_locals cs ! unat (snd a)) else slot_name (slots cs ! unat (snd a)))"

definition asm_resolve_array :: "BCCompiler \<Rightarrow> operand \<Rightarrow> AsmCtx \<Rightarrow> nat option" where
  "asm_resolve_array cs a ctx =
     (let want = (case a of OLabel s \<Rightarrow> s | OName s \<Rightarrow> s | OReg r \<Rightarrow> bytes_of (dec_nat (unat r))) in
      find_index (\<lambda>d. same31 (take 31 (takeWhile isalnum8 (array_text cs d))) want) (asm_arrays ctx))"

section \<open>Instructions\<close>

text \<open>The shape of an instruction: a destination and sources, jumps, array accesses, no operands.\<close>

datatype shape = Dst nat string | JumpCmp | JumpZero | LoadArr | StoreArr | Jump | Plain

definition needs :: "nat \<Rightarrow> string" where
  "needs n = '' requires '' @ dec_nat n @ '' operands''"

definition asm_table :: "(string \<times> shape \<times> u8) list" where
  "asm_table =
   [(''addi'', Dst 3 (needs 3), ROP_ADD_I), (''subi'', Dst 3 (needs 3), ROP_SUB_I), (''muli'', Dst 3 (needs 3), ROP_MUL_I),
    (''divi'', Dst 3 (needs 3), ROP_IDIV_I), (''modi'', Dst 3 (needs 3), ROP_MOD_I),
    (''addf'', Dst 3 (needs 3), ROP_ADD_F), (''subf'', Dst 3 (needs 3), ROP_SUB_F), (''mulf'', Dst 3 (needs 3), ROP_MUL_F),
    (''divf'', Dst 3 (needs 3), ROP_DIV_F),
    (''negi'', Dst 2 (needs 2), ROP_NEG_I), (''negf'', Dst 2 (needs 2), ROP_NEG_F), (''not'', Dst 2 (needs 2), ROP_NOT),
    (''inv'', Dst 2 (needs 2), ROP_INV),
    (''and'', Dst 3 (needs 3), ROP_AND), (''or'', Dst 3 (needs 3), ROP_OR), (''xor'', Dst 3 (needs 3), ROP_XOR),
    (''shl'', Dst 3 (needs 3), ROP_SHL), (''shr'', Dst 3 (needs 3), ROP_SHR),
    (''mov'', Dst 2 (needs 2), ROP_MOV), (''cvtif'', Dst 2 (needs 2), ROP_CVT_I2F), (''cvtfi'', Dst 2 (needs 2), ROP_CVT_F2I),
    (''sqrshr'', Dst 3 '' requires 3 operands (dst, a, bits)'', ROP_SQRSHR),
    (''mulshr'', Dst 4 '' requires 4 operands (dst, a, b, bits)'', ROP_MULSHR),
    (''mulshradd'', Dst 5 '' requires 5 operands (dst, a, b, bits, c)'', ROP_MULSHRADD),
    (''eqi'', Dst 3 (needs 3), ROP_EQ_I), (''nei'', Dst 3 (needs 3), ROP_NE_I), (''lti'', Dst 3 (needs 3), ROP_LT_I),
    (''gti'', Dst 3 (needs 3), ROP_GT_I), (''lei'', Dst 3 (needs 3), ROP_LE_I), (''gei'', Dst 3 (needs 3), ROP_GE_I),
    (''jeq'', JumpCmp, ROP_JCMP_EQ_I), (''jne'', JumpCmp, ROP_JCMP_NE_I), (''jlt'', JumpCmp, ROP_JCMP_LT_I),
    (''jgt'', JumpCmp, ROP_JCMP_GT_I), (''jle'', JumpCmp, ROP_JCMP_LE_I), (''jge'', JumpCmp, ROP_JCMP_GE_I),
    (''jz'', JumpZero, ROP_JZ), (''jnz'', JumpZero, ROP_JNZ),
    (''loadi.a'', LoadArr, ROP_LOAD_ARR_I), (''loadf.a'', LoadArr, ROP_LOAD_ARR_F),
    (''storei.a'', StoreArr, ROP_STORE_ARR_I), (''storef.a'', StoreArr, ROP_STORE_ARR_F),
    (''jmp'', Jump, ROP_JMP), (''exit'', Plain, ROP_EXIT), (''checkint'', Plain, ROP_CHECKINT)]"

definition asm_msg :: "string \<Rightarrow> string \<Rightarrow> string" where
  "asm_msg m e = CHR 0x27 # ''!ASM: '' @ m @ e"

definition asm_dst :: "nat \<Rightarrow> string \<Rightarrow> string \<Rightarrow> u8 \<Rightarrow> operand list \<Rightarrow> resolved list \<Rightarrow> AsmCtx \<Rightarrow> string + AsmCtx" where
  "asm_dst n err m rop as rs ctx =
     (if length rs \<noteq> n then Inl (asm_msg m err)
      else if op_const (rs ! 0) then Inl (CHR 0x27 # ''!ASM: cannot write to constant '' @ operand_text (as ! 0))
      else Inr (asm_emits (rop # map op_reg rs) ctx))"

text \<open>\<open>k\<close> registers, then the label.\<close>

definition asm_jump :: "nat \<Rightarrow> string \<Rightarrow> string \<Rightarrow> u8 \<Rightarrow> resolved list \<Rightarrow> AsmCtx \<Rightarrow> string + AsmCtx" where
  "asm_jump k err m rop rs ctx =
     (if length rs \<noteq> k + 1 then Inl (asm_msg m err)
      else case op_label (rs ! k) of
        None \<Rightarrow> Inl (asm_msg m err)
      | Some i \<Rightarrow> Inr (asm_emit_jump_to_label i (asm_emits (rop # map op_reg (take k rs)) ctx)))"

definition asm_elem :: "bool \<Rightarrow> BCCompiler \<Rightarrow> string \<Rightarrow> u8 \<Rightarrow> operand list \<Rightarrow> resolved list \<Rightarrow> AsmCtx \<Rightarrow> string + AsmCtx" where
  "asm_elem load cs m rop as rs ctx =
     (if length rs \<noteq> 3 then Inl (asm_msg m '' requires reg, array, idx'')
      else if load \<and> op_const (rs ! 0) then Inl (CHR 0x27 # ''!ASM: cannot write to constant '' @ operand_text (as ! 0))
      else case asm_resolve_array cs (as ! 1) ctx of
        None \<Rightarrow> Inl (CHR 0x27 # ''!ASM: array '' @ operand_text (as ! 1) @ '' not declared with .array'')
      | Some i \<Rightarrow> Inr (asm_emits [rop, op_reg (rs ! 0), of_nat i, op_reg (rs ! 2)] ctx))"

definition asm_instruction :: "BCCompiler \<Rightarrow> string \<Rightarrow> operand list \<Rightarrow> resolved list \<Rightarrow> AsmCtx \<Rightarrow> string + AsmCtx" where
  "asm_instruction cs m as rs ctx =
     (case map_of asm_table m of
        None \<Rightarrow> Inl (CHR 0x27 # ''!ASM: unknown instruction '' @ CHR 0x27 # m @ [CHR 0x27])
      | Some (sh, rop) \<Rightarrow>
          (case sh of
             Dst n err \<Rightarrow> asm_dst n err m rop as rs ctx
           | JumpCmp \<Rightarrow> asm_jump 2 '' requires src1, src2, .label'' m rop rs ctx
           | JumpZero \<Rightarrow> asm_jump 1 '' requires src, .label'' m rop rs ctx
           | LoadArr \<Rightarrow> asm_elem True cs m rop as rs ctx
           | StoreArr \<Rightarrow> asm_elem False cs m rop as rs ctx
           | Jump \<Rightarrow> asm_jump 0 '' requires .label'' m rop rs ctx
           | Plain \<Rightarrow> Inr (asm_emit rop ctx)))"

definition define_label :: "cstr \<Rightarrow> AsmCtx \<Rightarrow> string + AsmCtx" where
  "define_label name ctx =
     (case asm_find_label name ctx of
        (None, _) \<Rightarrow> Inl (CHR 0x27 # ''!ASM: too many labels'')
      | (Some i, ctx1) \<Rightarrow>
          if snd (asm_labels ctx1 ! i) \<noteq> None then Inl (CHR 0x27 # ''!ASM: duplicate label '' @ quoted (0x2E # name))
          else Inr (ctx1\<lparr>asm_labels := (asm_labels ctx1)[i := (fst (asm_labels ctx1 ! i), Some (length (asm_rop ctx1)))]\<rparr>))"

definition asm_second :: "BCCompiler \<Rightarrow> cstr \<Rightarrow> AsmCtx \<Rightarrow> string + AsmCtx" where
  "asm_second cs p0 ctx =
     (let p = source_skip_space p0 in
      if asm_blank p \<or> directive_at ''const'' p \<or> directive_at ''array'' p then Inr ctx
      else case label_line p of
        Some name \<Rightarrow> define_label name ctx
      | None \<Rightarrow>
          let (m, q) = asm_parse_ident 15 p in
          if m = [] then Inl (CHR 0x27 # ''!ASM: expected instruction mnemonic'')
          else case asm_operands ASM_MAX_OPERANDS q ctx of
            Inl e \<Rightarrow> Inl e
          | Inr (as, ctx1) \<Rightarrow>
              (case resolve_operands as ctx1 of
                 Inl e \<Rightarrow> Inl e
               | Inr (rs, ctx2) \<Rightarrow> asm_instruction cs (cstr_string m) as rs ctx2))"

section \<open>The block\<close>

text \<open>A pass over the lines; an error carries the number of its line.\<close>

fun asm_pass :: "(cstr \<Rightarrow> AsmCtx \<Rightarrow> string + AsmCtx) \<Rightarrow> (cstr \<times> int) list \<Rightarrow> AsmCtx \<Rightarrow> (string \<times> int) + AsmCtx" where
  "asm_pass f [] ctx = Inr ctx"
| "asm_pass f ((l, n) # ls) ctx = (case f l ctx of Inl e \<Rightarrow> Inl (e, n) | Inr ctx1 \<Rightarrow> asm_pass f ls ctx1)"

text \<open>\<open>None\<close>: a byte behind the buffer is written.\<close>

fun asm_resolve :: "(nat \<times> nat) list \<Rightarrow> AsmCtx \<Rightarrow> (string + AsmCtx) option" where
  "asm_resolve [] ctx = Some (Inr ctx)"
| "asm_resolve ((addr, i) # fs) ctx =
     (case asm_labels ctx ! i of
        (name, None) \<Rightarrow> Some (Inl (CHR 0x27 # ''!ASM: undefined label '' @ quoted (0x2E # name)))
      | (name, Some a) \<Rightarrow>
          if addr + 2 > ASM_ROP_BYTES then None
          else asm_resolve fs (ctx\<lparr>asm_rop := splice (asm_rop ctx) addr (le_enc 2 (unat (word_of_int (int a - (int addr + 2)) :: u16)))\<rparr>))"

definition asm_init :: "BCCompiler \<Rightarrow> AsmCtx" where
  "asm_init cs =
     \<lparr>asm_rop = [], asm_nlocals = length (cs_locals cs), asm_consts = [], asm_arrays = [], asm_max_regs = length (cs_locals cs),
      asm_labels = [], asm_fixups = [], asm_names = local_names cs\<rparr>"

definition emit_asm_block :: "int \<Rightarrow> AsmCtx \<Rightarrow> BCCompiler \<Rightarrow> BCCompiler" where
  "emit_asm_block line ctx cs0 =
     (let cs = fst (bc_add_linemap_entry (cs0\<lparr>cs_line := word_of_int line\<rparr>) (word_of_int line) (here cs0));
          cs1 = bc_emit_u16 (bc_emit_byte cs OP_LINE) (word_of_int line);
          payload = 5 + 3 * length (asm_arrays ctx) + 9 * length (asm_consts ctx) + length (asm_rop ctx);
          cs2 = bc_emit_u16 (bc_emit_byte cs1 OP_FAST_LOOP) (of_nat payload);
          cs3 = fold (\<lambda>n c. bc_emit_byte c (of_nat n))
                  [asm_max_regs ctx, asm_nlocals ctx, 0, length (asm_consts ctx), length (asm_arrays ctx)] cs2;
          cs4 = fold (\<lambda>(l, slot) c. bc_emit_u16 (bc_emit_byte c l) slot) (asm_arrays ctx) cs3;
          cs5 = fold (\<lambda>(t, v) c. if t = T_INT then bc_emit_i64 (bc_emit_byte c t) v else bc_emit_f64 (bc_emit_byte c t) v) (asm_consts ctx) cs4
      in fold (\<lambda>b c. bc_emit_byte c b) (asm_rop ctx) cs5)"

definition source_assemble_block :: "frontend \<Rightarrow> BCCompiler \<Rightarrow> BCCompiler option" where
  "source_assemble_block fe cs =
     (let failed = (\<lambda>(e, n). Some (bc_set_error (cs\<lparr>cs_line := word_of_int n\<rparr>) e)) in
      if current_subfun cs < 0 then Some (bc_set_error cs (CHR 0x27 # ''!ASM must be inside a SUB or FUNCTION''))
      else case asm_pass (asm_first cs) (asm_lines fe) (asm_init cs) of
        Inl e \<Rightarrow> failed e
      | Inr ctx1 \<Rightarrow>
          (case asm_pass (asm_second cs) (asm_lines fe) ctx1 of
             Inl e \<Rightarrow> failed e
           | Inr ctx2 \<Rightarrow>
               (case asm_resolve (asm_fixups ctx2) (asm_emit ROP_EXIT ctx2) of
                  None \<Rightarrow> None
                | Some (Inl e) \<Rightarrow> Some (bc_set_error cs e)
                | Some (Inr ctx3) \<Rightarrow>
                    if asm_max_regs ctx3 > MAX_FAST_REGS
                    then Some (bc_set_error cs (CHR 0x27 # ''!ASM: too many registers ('' @ dec_nat (asm_max_regs ctx3) @ '' > '' @ dec_nat MAX_FAST_REGS @ '')''))
                    else Some (emit_asm_block (asm_start_line fe) ctx3 cs))))"

end
