(* ===== verification/SrcDev.thy ===== *)
theory SrcDev
  imports SrcLoop
begin

text \<open>
  Statements of \<open>runtime/vm/bc_source.c\<close>, fourth part: those that print or drive a device. They end in a
  system call, \<open>OP_SYSCALL\<close> with a number, a count of stack arguments and constant bytes.
\<close>

section \<open>System calls\<close>

definition source_emit_syscall :: "BCCompiler \<Rightarrow> u16 \<Rightarrow> u8 \<Rightarrow> u8 list \<Rightarrow> BCCompiler" where
  "source_emit_syscall cs sysid argc aux =
     fold (\<lambda>b c. bc_emit_byte c b) aux
       (bc_emit_byte (bc_emit_byte (bc_emit_u16 (bc_emit_byte cs OP_SYSCALL) sysid) argc) (of_nat (length aux)))"

text \<open>The numbers, counted from 1 in \<open>BCSyscallId\<close>.\<close>

definition BC_SYS_FASTGFX_CREATE :: u16 where "BC_SYS_FASTGFX_CREATE = 1"
definition BC_SYS_FASTGFX_CLOSE :: u16 where "BC_SYS_FASTGFX_CLOSE = 2"
definition BC_SYS_FASTGFX_SWAP :: u16 where "BC_SYS_FASTGFX_SWAP = 3"
definition BC_SYS_FASTGFX_SYNC :: u16 where "BC_SYS_FASTGFX_SYNC = 4"
definition BC_SYS_FASTGFX_FPS :: u16 where "BC_SYS_FASTGFX_FPS = 5"
definition BC_SYS_GFX_BOX :: u16 where "BC_SYS_GFX_BOX = 6"
definition BC_SYS_GFX_CIRCLE :: u16 where "BC_SYS_GFX_CIRCLE = 8"
definition BC_SYS_GFX_LINE :: u16 where "BC_SYS_GFX_LINE = 9"
definition BC_SYS_GFX_TEXT :: u16 where "BC_SYS_GFX_TEXT = 10"
definition BC_SYS_GFX_CLS :: u16 where "BC_SYS_GFX_CLS = 11"
definition BC_SYS_GFX_PIXEL :: u16 where "BC_SYS_GFX_PIXEL = 12"
definition BC_SYS_GFX_COLOUR :: u16 where "BC_SYS_GFX_COLOUR = 14"
definition BC_SYS_GFX_FONT :: u16 where "BC_SYS_GFX_FONT = 15"
definition BC_SYS_GFX_RBOX :: u16 where "BC_SYS_GFX_RBOX = 16"
definition BC_SYS_GFX_ARC :: u16 where "BC_SYS_GFX_ARC = 17"
definition BC_SYS_GFX_TRIANGLE :: u16 where "BC_SYS_GFX_TRIANGLE = 18"
definition BC_SYS_GFX_POLYGON :: u16 where "BC_SYS_GFX_POLYGON = 19"
definition BC_SYS_GFX_FRAMEBUFFER :: u16 where "BC_SYS_GFX_FRAMEBUFFER = 20"
definition BC_SYS_PRINT_AT :: u16 where "BC_SYS_PRINT_AT = 25"
definition BC_SYS_SETPIN :: u16 where "BC_SYS_SETPIN = 30"
definition BC_SYS_PWM_CONFIG :: u16 where "BC_SYS_PWM_CONFIG = 33"
definition BC_SYS_PWM_SYNC :: u16 where "BC_SYS_PWM_SYNC = 34"
definition BC_SYS_PWM_OFF :: u16 where "BC_SYS_PWM_OFF = 35"
definition BC_SYS_SERVO :: u16 where "BC_SYS_SERVO = 36"
definition BC_SYS_FILE_OPEN :: u16 where "BC_SYS_FILE_OPEN = 37"
definition BC_SYS_FILE_CLOSE :: u16 where "BC_SYS_FILE_CLOSE = 38"
definition BC_SYS_FILE_PRINT_INT :: u16 where "BC_SYS_FILE_PRINT_INT = 39"
definition BC_SYS_FILE_PRINT_FLT :: u16 where "BC_SYS_FILE_PRINT_FLT = 40"
definition BC_SYS_FILE_PRINT_STR :: u16 where "BC_SYS_FILE_PRINT_STR = 41"
definition BC_SYS_FILE_PRINT_NEWLINE :: u16 where "BC_SYS_FILE_PRINT_NEWLINE = 42"
definition BC_SYS_FILE_LINE_INPUT :: u16 where "BC_SYS_FILE_LINE_INPUT = 43"
definition BC_SYS_FILE_DRIVE :: u16 where "BC_SYS_FILE_DRIVE = 44"
definition BC_SYS_FILE_SEEK :: u16 where "BC_SYS_FILE_SEEK = 45"
definition BC_SYS_FILE_MKDIR :: u16 where "BC_SYS_FILE_MKDIR = 46"
definition BC_SYS_FILE_CHDIR :: u16 where "BC_SYS_FILE_CHDIR = 47"
definition BC_SYS_FILE_RMDIR :: u16 where "BC_SYS_FILE_RMDIR = 48"
definition BC_SYS_FILE_KILL :: u16 where "BC_SYS_FILE_KILL = 49"
definition BC_SYS_FILE_RENAME :: u16 where "BC_SYS_FILE_RENAME = 50"
definition BC_SYS_FILE_COPY :: u16 where "BC_SYS_FILE_COPY = 51"
definition BC_SYS_RUN :: u16 where "BC_SYS_RUN = 52"

definition u16_bytes :: "u16 \<Rightarrow> u8 list" where
  "u16_bytes v = [ucast v, ucast (drop_bit 8 v)]"

text \<open>An integer argument, a double argument, a string argument; the statement stops at an error.\<close>

definition int_arg :: "parser \<Rightarrow> BCCompiler \<Rightarrow> cstr \<Rightarrow> BCCompiler \<times> cstr" where
  "int_arg E cs p = (let (ty, cs1, p1) = E cs p in (source_emit_int_conversion cs1 ty, p1))"

definition flt_arg :: "parser \<Rightarrow> BCCompiler \<Rightarrow> cstr \<Rightarrow> BCCompiler \<times> cstr" where
  "flt_arg E cs p = (let (ty, cs1, p1) = E cs p in (source_emit_float_conversion cs1 ty, p1))"

definition source_parse_string_expression :: "parser \<Rightarrow> string \<Rightarrow> BCCompiler \<Rightarrow> cstr \<Rightarrow> bool \<times> BCCompiler \<times> cstr" where
  "source_parse_string_expression E msg cs p =
     (let (ty, cs1, p1) = E cs p in
      if has_error cs1 then (False, cs1, p1)
      else if ty \<noteq> T_STR then (False, bc_set_error cs1 msg, p1) else (True, cs1, p1))"

definition expect :: "u8 \<Rightarrow> string \<Rightarrow> BCCompiler \<Rightarrow> cstr \<Rightarrow> stmt \<Rightarrow> (BCCompiler \<times> cstr) option" where
  "expect ch msg cs p k = (let (ok, cs1, p1) = source_expect_char cs p ch msg in if ok then k cs1 p1 else Some (cs1, p1))"

section \<open>Files\<close>

definition MAXOPENFILES :: int where "MAXOPENFILES = 10"

definition source_parse_file_number :: "BCCompiler \<Rightarrow> cstr \<Rightarrow> u16 option \<times> BCCompiler \<times> cstr" where
  "source_parse_file_number cs p0 =
     (let p = source_skip_space p0; q = source_skip_space (drop 1 p); digits = takeWhile isdigit8 q; n = int (num_of 10 digits) in
      if at p \<noteq> 0x23 then (None, bc_set_error cs ''Expected file number'', p)
      else if \<not> isdigit8 (at q) then (None, bc_set_error cs ''Expected file number'', q)
      else if n < 1 \<or> n > MAXOPENFILES then (None, bc_set_error cs ''File number'', q)
      else (Some (word_of_int n), cs, drop (length digits) q))"

definition with_file :: "BCCompiler \<Rightarrow> cstr \<Rightarrow> (u16 \<Rightarrow> stmt) \<Rightarrow> (BCCompiler \<times> cstr) option" where
  "with_file cs p k = (case source_parse_file_number cs p of (None, cs1, p1) \<Rightarrow> Some (cs1, p1) | (Some n, cs1, p1) \<Rightarrow> k n cs1 p1)"

definition source_compile_open :: "parser \<Rightarrow> stmt" where
  "source_compile_open E cs p =
     (let (ok, cs1, p1) = source_parse_string_expression E ''OPEN requires string filename'' cs p; p2 = source_skip_space p1 in
      if \<not> ok then Some (cs1, p1)
      else case kw p2 ''FOR'' of
        None \<Rightarrow> fail ''Expected FOR in OPEN'' cs1 p2
      | Some q \<Rightarrow>
          let p3 = source_skip_space q in
          (case find (\<lambda>(w, m). kw p3 w \<noteq> None) [(''INPUT'', 1 :: u8), (''OUTPUT'', 2), (''APPEND'', 3), (''RANDOM'', 4)] of
             None \<Rightarrow> fail ''Unsupported OPEN mode'' cs1 p3
           | Some (w, m) \<Rightarrow>
               let p4 = source_skip_space (the (kw p3 w)) in
               (case kw p4 ''AS'' of
                  None \<Rightarrow> fail ''Expected AS in OPEN'' cs1 p4
                | Some p5 \<Rightarrow> with_file cs1 p5 (\<lambda>n cs2 p6. Some (source_emit_syscall cs2 BC_SYS_FILE_OPEN 1 (m # u16_bytes n), p6)))))"

fun close_loop :: "nat \<Rightarrow> stmt" where
  "close_loop 0 cs p = Some (cs, p)"
| "close_loop (Suc k) cs p =
     (if has_error cs then Some (cs, p)
      else with_file cs p (\<lambda>n cs1 p1.
        let cs2 = source_emit_syscall cs1 BC_SYS_FILE_CLOSE 0 (u16_bytes n); p2 = source_skip_space p1 in
        if at p2 \<noteq> 0x2C then Some (cs2, p2) else close_loop k cs2 (drop 1 p2)))"

definition source_compile_close :: stmt where
  "source_compile_close cs p = close_loop (Suc (length p)) cs p"

definition source_compile_file_path_command :: "parser \<Rightarrow> u16 \<Rightarrow> string \<Rightarrow> stmt" where
  "source_compile_file_path_command E sysid msg cs p =
     (let (ok, cs1, p1) = source_parse_string_expression E msg cs p in
      Some (if ok then source_emit_syscall_noaux cs1 sysid 1 else cs1, p1))"

definition source_compile_drive :: "parser \<Rightarrow> stmt" where
  "source_compile_drive E cs p = source_compile_file_path_command E BC_SYS_FILE_DRIVE ''DRIVE requires string argument'' cs p"

definition source_compile_seek :: "parser \<Rightarrow> stmt" where
  "source_compile_seek E cs p =
     with_file cs p (\<lambda>n cs1 p1. expect 0x2C (''Expected '' @ sq (CHR '','') @ '' in SEEK'') cs1 p1 (\<lambda>cs2 p2.
       let (cs3, p3) = int_arg E cs2 p2 in Some (source_emit_syscall cs3 BC_SYS_FILE_SEEK 1 (u16_bytes n), p3)))"

text \<open>Two names with a word between them.\<close>

definition two_names :: "parser \<Rightarrow> string \<Rightarrow> string \<Rightarrow> (BCCompiler \<Rightarrow> BCCompiler) \<Rightarrow> stmt" where
  "two_names E cmd word k cs p =
     (let (ok, cs1, p1) = source_parse_string_expression E (cmd @ '' requires string source'') cs p; p2 = source_skip_space p1 in
      if \<not> ok then Some (cs1, p1)
      else case kw p2 word of
        None \<Rightarrow> fail (''Expected '' @ word @ '' in '' @ cmd) cs1 p2
      | Some q \<Rightarrow>
          let (ok2, cs2, p3) = source_parse_string_expression E (cmd @ '' requires string destination'') cs1 q in
          Some (if ok2 then k cs2 else cs2, p3))"

definition source_compile_rename :: "parser \<Rightarrow> stmt" where
  "source_compile_rename E cs p = two_names E ''RENAME'' ''AS'' (\<lambda>c. source_emit_syscall_noaux c BC_SYS_FILE_RENAME 2) cs p"

definition source_compile_copy :: "parser \<Rightarrow> stmt" where
  "source_compile_copy E cs p0 =
     (let p = source_skip_space p0;
          (mode, q) = (case find (\<lambda>(w, m). kw p w \<noteq> None) [(''A2A'', 1 :: u8), (''A2B'', 2), (''B2A'', 3), (''B2B'', 4)] of
                         None \<Rightarrow> (0, p) | Some (w, m) \<Rightarrow> (m, the (kw p w))) in
      two_names E ''COPY'' ''TO'' (\<lambda>c. source_emit_syscall c BC_SYS_FILE_COPY 2 [mode]) cs q)"

definition source_compile_line_input :: stmt where
  "source_compile_line_input cs p =
     with_file cs p (\<lambda>n cs1 p1. expect 0x2C ''Expected comma in LINE INPUT'' cs1 p1 (\<lambda>cs2 p2.
       case source_parse_varname p2 of
         None \<Rightarrow> fail ''Expected string variable in LINE INPUT'' cs2 p2
       | Some (name, suffix, p3) \<Rightarrow>
           let vtype = (if suffix = 0 then source_default_var_type cs2 name else suffix); p4 = source_skip_space p3 in
           if vtype \<noteq> T_STR then fail ''LINE INPUT requires string variable'' cs2 p3
           else if at p4 = 0x28 then fail ''Unsupported LINE INPUT array target'' cs2 p4
           else let (cs3, slot, loc) = source_resolve_var cs2 name vtype True in
             Some (source_emit_syscall cs3 BC_SYS_FILE_LINE_INPUT 0 ((if loc then 1 else 0) # u16_bytes slot @ u16_bytes n), p4)))"

section \<open>PRINT\<close>

definition file_print_op :: "u8 \<Rightarrow> u16 option" where
  "file_print_op ty =
     (let t = ty AND (T_INT OR T_NBR OR T_STR) in
      if t = T_INT then Some BC_SYS_FILE_PRINT_INT else if t = T_NBR then Some BC_SYS_FILE_PRINT_FLT
      else if t = T_STR then Some BC_SYS_FILE_PRINT_STR else None)"

definition source_emit_file_print_expr :: "parser \<Rightarrow> u16 \<Rightarrow> BCCompiler \<Rightarrow> cstr \<Rightarrow> BCCompiler \<times> cstr" where
  "source_emit_file_print_expr E n cs p =
     (let (ty, cs1, p1) = E cs p in
      if has_error cs1 then (cs1, p1)
      else case file_print_op ty of
        None \<Rightarrow> (bc_set_error cs1 ''Invalid PRINT # expression'', p1)
      | Some sysid \<Rightarrow> (source_emit_syscall cs1 sysid 1 (u16_bytes n), p1))"

definition print_tab :: "u16 \<Rightarrow> BCCompiler \<Rightarrow> BCCompiler" where
  "print_tab n cs =
     (let (cs1, tab) = bc_add_constant_string cs [9] in
      source_emit_syscall (bc_emit_u16 (bc_emit_byte cs1 OP_PUSH_STR) tab) BC_SYS_FILE_PRINT_STR 1 (u16_bytes n))"

text \<open>Whether the newline is left out, the state and the rest; \<open>False\<close> first: the statement ends with an error.\<close>

fun file_print_loop :: "nat \<Rightarrow> parser \<Rightarrow> u16 \<Rightarrow> bool \<Rightarrow> BCCompiler \<Rightarrow> cstr \<Rightarrow> bool \<times> bool \<times> BCCompiler \<times> cstr" where
  "file_print_loop 0 E n quiet cs p = (True, quiet, cs, p)"
| "file_print_loop (Suc k) E n quiet cs p0 =
     (let p = source_skip_space p0 in
      if at p = 0 \<or> at p = 0x27 then (True, quiet, cs, p)
      else if at p = 0x3B then file_print_loop k E n True cs (drop 1 p)
      else if at p = 0x2C then file_print_loop k E n True (print_tab n cs) (drop 1 p)
      else let (cs1, p1) = source_emit_file_print_expr E n cs p; p2 = source_skip_space p1 in
        if has_error cs1 then (False, False, cs1, p1)
        else if at p2 = 0x2C \<or> at p2 = 0x3B then file_print_loop k E n False cs1 p2
        else (True, False, cs1, p2))"

definition source_compile_file_print :: "parser \<Rightarrow> stmt" where
  "source_compile_file_print E cs p =
     with_file cs p (\<lambda>n cs1 p1.
       let p2 = source_skip_space p1; p3 = (if at p2 = 0x2C \<or> at p2 = 0x3B then drop 1 p2 else p2);
           (ok, quiet, cs2, p4) = file_print_loop (Suc (length p3)) E n False cs1 p3 in
       Some (if ok \<and> \<not> quiet then source_emit_syscall cs2 BC_SYS_FILE_PRINT_NEWLINE 0 (u16_bytes n) else cs2, p4))"

definition print_op :: "u8 \<Rightarrow> u8" where
  "print_op ty =
     (let t = ty AND (T_INT OR T_NBR OR T_STR) in if t = T_NBR then OP_PRINT_FLT else if t = T_STR then OP_PRINT_STR else OP_PRINT_INT)"

definition PRINT_NO_NEWLINE :: u8 where "PRINT_NO_NEWLINE = 1"

text \<open>\<open>@(x, y [, mode])\<close>, behind the \<open>@\<close>; the mode is dropped. \<open>False\<close>: the statement ends with an error.\<close>

definition print_at_mode :: "parser \<Rightarrow> BCCompiler \<Rightarrow> cstr \<Rightarrow> bool \<times> BCCompiler \<times> cstr" where
  "print_at_mode E cs p =
     (if at p \<noteq> 0x2C then (True, cs, p)
      else let (ty, cs1, p1) = E cs (drop 1 p) in
        if has_error cs1 then (False, cs1, p1)
        else (True, bc_emit_byte (source_emit_int_conversion cs1 ty) OP_POP, source_skip_space p1))"

definition print_at :: "parser \<Rightarrow> BCCompiler \<Rightarrow> cstr \<Rightarrow> bool \<times> BCCompiler \<times> cstr" where
  "print_at E cs p0 =
     (let p = source_skip_space p0 in
      if at p \<noteq> 0x28 then (False, bc_set_error cs (''Expected '' @ sq (CHR ''('') @ '' after @''), p)
      else let (xt, cs1, p1) = E cs (drop 1 p); cs2 = source_emit_int_conversion cs1 xt; p2 = source_skip_space p1 in
        if has_error cs1 then (False, cs1, p1)
        else if at p2 \<noteq> 0x2C then (False, bc_set_error cs2 (''Expected '' @ sq (CHR '','') @ '' after x in @(x,y)''), p2)
        else let (yt, cs3, p3) = E cs2 (drop 1 p2);
                 (ok, cs4, p4) = print_at_mode E (source_emit_int_conversion cs3 yt) (source_skip_space p3) in
          if has_error cs3 then (False, cs3, p3)
          else if \<not> ok then (False, cs4, p4)
          else if at p4 \<noteq> 0x29 then (False, bc_set_error cs4 (''Expected '' @ sq (CHR '')'') @ '' in @(x,y)''), p4)
          else (True, source_emit_syscall_noaux cs4 BC_SYS_PRINT_AT 0, drop 1 p4))"

fun print_loop :: "nat \<Rightarrow> parser \<Rightarrow> bool \<Rightarrow> BCCompiler \<Rightarrow> cstr \<Rightarrow> bool \<times> bool \<times> BCCompiler \<times> cstr" where
  "print_loop 0 E quiet cs p = (True, quiet, cs, p)"
| "print_loop (Suc k) E quiet cs p0 =
     (let p = source_skip_space p0 in
      if at p = 0 \<or> at p = 0x27 then (True, quiet, cs, p)
      else if at p = 0x3B then print_loop k E True cs (drop 1 p)
      else if at p = 0x2C then print_loop k E True (bc_emit_byte cs OP_PRINT_TAB) (drop 1 p)
      else if at p = 0x40 then
        (let (ok, cs1, p1) = print_at E cs (drop 1 p) in if ok then print_loop k E True cs1 (source_skip_space p1) else (False, True, cs1, p1))
      else let (ty, cs1, p1) = E cs p; cs2 = bc_emit_byte (bc_emit_byte cs1 (print_op ty)) PRINT_NO_NEWLINE; p2 = source_skip_space p1 in
        if has_error cs1 then (False, False, cs1, p1)
        else if at_end p2 then (True, False, cs2, p2)
        else print_loop k E False cs2 p2)"

definition source_compile_print :: "parser \<Rightarrow> stmt" where
  "source_compile_print E cs p0 =
     (let p = source_skip_space p0 in
      if at p = 0x23 then source_compile_file_print E cs p
      else let (ok, quiet, cs1, p1) = print_loop (Suc (length p)) E False cs p in
        Some (if ok \<and> \<not> quiet then bc_emit_byte cs1 OP_PRINT_NEWLINE else cs1, p1))"

section \<open>Pins and pulses\<close>

definition pin_modes :: "(string \<times> u16) list" where
  "pin_modes =
   [(''OFF'', 0), (''DIN'', 2), (''DOUT'', 8), (''ARAW'', 46), (''PWM0A'', 30), (''PWM0B'', 31), (''PWM1A'', 32), (''PWM1B'', 33),
    (''PWM2A'', 34), (''PWM2B'', 35), (''PWM3A'', 36), (''PWM3B'', 37), (''PWM4A'', 38), (''PWM4B'', 39), (''PWM5A'', 40), (''PWM5B'', 41),
    (''PWM6A'', 42), (''PWM6B'', 43), (''PWM7A'', 44), (''PWM7B'', 45), (''PWM8A'', 47), (''PWM8B'', 48), (''PWM9A'', 49), (''PWM9B'', 50),
    (''PWM10A'', 51), (''PWM10B'', 52), (''PWM11A'', 53), (''PWM11B'', 54), (''PWM'', -1)]"

text \<open>A mode is a keyword or the digit 0.\<close>

definition source_parse_setpin_mode :: "cstr \<Rightarrow> (u16 \<times> cstr) option" where
  "source_parse_setpin_mode p0 =
     (let p = source_skip_space p0 in
      case find (\<lambda>(w, m). kw p w \<noteq> None) pin_modes of
        Some (w, m) \<Rightarrow> Some (m, the (kw p w))
      | None \<Rightarrow> if at p = 0x30 \<and> \<not> isnamechar (at (drop 1 p)) then Some (0, drop 1 p) else None)"

definition source_compile_setpin :: "parser \<Rightarrow> stmt" where
  "source_compile_setpin E cs p0 =
     (let (cs1, p1) = source_compile_pin_operand E cs p0 in
      if has_error cs1 then Some (cs1, p1)
      else expect 0x2C ''Expected comma in SETPIN'' cs1 p1 (\<lambda>cs2 p2.
        case source_parse_setpin_mode p2 of
          None \<Rightarrow> fail ''Unsupported SETPIN mode'' cs2 p2
        | Some (mode, p3) \<Rightarrow>
            let p4 = source_skip_space p3; p5 = source_skip_space (drop 1 p4);
                call = (\<lambda>opt q. Some (source_emit_syscall cs2 BC_SYS_SETPIN 1 (u16_bytes mode @ u16_bytes opt), q)) in
            if at p4 \<noteq> 0x2C then call 0 p4
            else case kw p5 ''PULLUP'' of Some q \<Rightarrow> call (-1) q
            | None \<Rightarrow> (case kw p5 ''PULLDOWN'' of Some q \<Rightarrow> call (-2) q | None \<Rightarrow> fail ''Unsupported SETPIN option'' cs2 p5)))"

text \<open>Up to \<open>n\<close> arguments separated by commas, any of them empty: the numbers of those present.\<close>

fun sparse_args :: "nat \<Rightarrow> nat \<Rightarrow> (nat \<Rightarrow> BCCompiler \<Rightarrow> cstr \<Rightarrow> BCCompiler \<times> cstr) \<Rightarrow> BCCompiler \<Rightarrow> cstr \<Rightarrow> nat list \<times> BCCompiler \<times> cstr" where
  "sparse_args 0 i f cs p = ([], cs, p)"
| "sparse_args (Suc n) i f cs p0 =
     (let p = source_skip_space p0; given = (at p \<noteq> 0x2C \<and> at p \<noteq> 0 \<and> at p \<noteq> 0x27);
          (cs1, p1) = (if given then f i cs p else (cs, p)); p2 = source_skip_space p1;
          (ix, cs2, p3) = (if at p2 = 0x2C \<and> n > 0 then sparse_args n (i + 1) f cs1 (drop 1 p2) else ([], cs1, p2))
      in (if given then i # ix else ix, cs2, p3))"

definition mask_of :: "nat list \<Rightarrow> 'a::len word" where
  "mask_of ix = fold (\<lambda>i m. m OR push_bit i 1) ix 0"

text \<open>The twelfth comma of \<open>PWM SYNC\<close> is passed over.\<close>

definition pwm_sync :: "parser \<Rightarrow> BCCompiler \<Rightarrow> cstr \<Rightarrow> BCCompiler \<times> cstr" where
  "pwm_sync E cs p =
     (let (ix, cs1, p1) = sparse_args 12 0 (\<lambda>_. flt_arg E) cs p;
          p2 = (if at p1 = 0x2C then drop 1 p1 else p1) in
      (source_emit_syscall cs1 BC_SYS_PWM_SYNC (of_nat (length ix)) (u16_bytes (mask_of ix)), p2))"

definition pwm_config :: "parser \<Rightarrow> stmt" where
  "pwm_config E cs p =
     (let (cs1, p1) = flt_arg E cs p in
      expect 0x2C ''Expected duty cycle after PWM frequency'' cs1 p1 (\<lambda>cs2 p2.
        let (ix, cs3, p3) = sparse_args 4 0 (\<lambda>i. if i < 2 then flt_arg E else int_arg E) cs2 p2 in
        Some (source_emit_syscall cs3 BC_SYS_PWM_CONFIG (of_nat (2 + length ix)) [mask_of ix], p3)))"

definition source_compile_pwm :: "parser \<Rightarrow> stmt" where
  "source_compile_pwm E cs p0 =
     (let p = source_skip_space p0 in
      case kw p ''SYNC'' of
        Some q \<Rightarrow> Some (pwm_sync E cs q)
      | None \<Rightarrow>
          let (cs1, p1) = int_arg E cs p in
          expect 0x2C ''Expected comma in PWM'' cs1 p1 (\<lambda>cs2 p2.
            case kw (source_skip_space p2) ''OFF'' of
              Some q \<Rightarrow> Some (source_emit_syscall_noaux cs2 BC_SYS_PWM_OFF 1, q)
            | None \<Rightarrow> pwm_config E cs2 (source_skip_space p2)))"

definition source_compile_servo :: "parser \<Rightarrow> stmt" where
  "source_compile_servo E cs p =
     (let (cs1, p1) = int_arg E cs p in
      expect 0x2C ''Expected comma in SERVO'' cs1 p1 (\<lambda>cs2 p2.
        case kw (source_skip_space p2) ''OFF'' of
          Some q \<Rightarrow> Some (source_emit_syscall_noaux cs2 BC_SYS_PWM_OFF 1, q)
        | None \<Rightarrow>
            let (ix, cs3, p3) = sparse_args 2 0 (\<lambda>_. flt_arg E) cs2 p2 in
            Some (source_emit_syscall cs3 BC_SYS_SERVO (of_nat (1 + length ix)) [mask_of ix], p3)))"

section \<open>Frame buffers\<close>

definition source_compile_fastgfx :: "parser \<Rightarrow> stmt" where
  "source_compile_fastgfx E cs p0 =
     (let p = source_skip_space p0 in
      case find (\<lambda>(w, n). kw p w \<noteq> None)
             [(''CREATE'', BC_SYS_FASTGFX_CREATE), (''CLOSE'', BC_SYS_FASTGFX_CLOSE), (''SWAP'', BC_SYS_FASTGFX_SWAP), (''SYNC'', BC_SYS_FASTGFX_SYNC)] of
        Some (w, n) \<Rightarrow> Some (source_emit_syscall_noaux cs n 0, the (kw p w))
      | None \<Rightarrow> (case kw p ''FPS'' of
          None \<Rightarrow> fail ''Unsupported FASTGFX command'' cs p
        | Some q \<Rightarrow> let (cs1, p1) = int_arg E cs q in Some (source_emit_syscall_noaux cs1 BC_SYS_FASTGFX_FPS 1, p1)))"

text \<open>One of the given letters, alone or in quotes, as a capital.\<close>

definition letter_at :: "u8 list \<Rightarrow> cstr \<Rightarrow> (u8 \<times> cstr) option" where
  "letter_at cs p0 =
     (let p = source_skip_space p0; q = drop 1 p in
      if at p = 0x22 then (if toupper8 (at q) \<in> set cs \<and> at (drop 1 q) = 0x22 then Some (toupper8 (at q), drop 2 q) else None)
      else if toupper8 (at p) \<in> set cs then Some (toupper8 (at p), q) else None)"

definition source_parse_framebuffer_target :: "cstr \<Rightarrow> (u8 \<times> cstr) option" where
  "source_parse_framebuffer_target p = letter_at (bytes_of ''NFL'') p"

definition source_parse_framebuffer_merge_mode :: "cstr \<Rightarrow> (u8 \<times> cstr) option" where
  "source_parse_framebuffer_merge_mode p =
     map_option (\<lambda>(c, q). (if c = 0x41 then 3 else if c = 0x42 then 1 else 2, q)) (letter_at (bytes_of ''ABR'') p)"

definition fb_call :: "BCCompiler \<Rightarrow> u8 \<Rightarrow> u8 list \<Rightarrow> BCCompiler" where
  "fb_call cs argc aux = source_emit_syscall cs BC_SYS_GFX_FRAMEBUFFER argc aux"

definition fb_layer :: "parser \<Rightarrow> stmt" where
  "fb_layer E cs p0 =
     (let p = source_skip_space p0 in
      if kw p ''TOP'' \<noteq> None then fail ''Unsupported FRAMEBUFFER LAYER TOP'' cs (the (kw p ''TOP''))
      else if at p \<noteq> 0 \<and> at p \<noteq> 0x27 then (let (cs1, p1) = int_arg E cs p in Some (fb_call cs1 1 [2, 1], p1))
      else Some (fb_call cs 0 [2, 0], p))"

text \<open>\<open>MERGE [colour [, mode [, rate]]]\<close>\<close>

definition fb_merge :: "parser \<Rightarrow> stmt" where
  "fb_merge E cs p0 =
     (let p = source_skip_space p0 in
      if at p = 0 \<or> at p = 0x27 then Some (fb_call cs 0 [5, 0, 0, 0], p)
      else let (cs1, p1) = int_arg E cs p; p2 = source_skip_space p1 in
        if at p2 \<noteq> 0x2C then Some (fb_call cs1 1 [5, 0, 1, 0], p2)
        else case source_parse_framebuffer_merge_mode (drop 1 p2) of
          None \<Rightarrow> fail ''Unsupported FRAMEBUFFER MERGE mode'' cs1 (drop 1 p2)
        | Some (mode, p3) \<Rightarrow>
            let p4 = source_skip_space p3 in
            if at p4 \<noteq> 0x2C then Some (fb_call cs1 1 [5, mode, 1, 0], p4)
            else let (cs2, p5) = int_arg E cs1 (drop 1 p4) in Some (fb_call cs2 2 [5, mode, 1, 1], p5))"

definition fb_copy :: stmt where
  "fb_copy cs p =
     (case source_parse_framebuffer_target p of
        None \<Rightarrow> fail ''Unsupported FRAMEBUFFER COPY source'' cs p
      | Some (a, p1) \<Rightarrow>
          let p2 = source_skip_space p1 in
          if at p2 \<noteq> 0x2C then fail (''Expected '' @ sq (CHR '','')) cs p2
          else case source_parse_framebuffer_target (drop 1 p2) of
            None \<Rightarrow> fail ''Unsupported FRAMEBUFFER COPY destination'' cs (drop 1 p2)
          | Some (b, p3) \<Rightarrow>
              let p4 = source_skip_space p3 in
              if at p4 \<noteq> 0x2C then Some (fb_call cs 0 [8, a, b, 0], p4)
              else case letter_at (bytes_of ''B'') (drop 1 p4) of
                None \<Rightarrow> fail ''Unsupported FRAMEBUFFER COPY mode'' cs (drop 1 p4)
              | Some (_, p5) \<Rightarrow> Some (fb_call cs 0 [8, a, b, 1], p5))"

definition source_compile_framebuffer :: "parser \<Rightarrow> stmt" where
  "source_compile_framebuffer E cs p0 =
     (let p = source_skip_space p0; cmd = (\<lambda>w. kw p w \<noteq> None); q = (\<lambda>w. the (kw p w)) in
      if cmd ''CREATE'' then
        (let r = source_skip_space (q ''CREATE'') in
         case kw r ''FAST'' of Some r1 \<Rightarrow> Some (fb_call cs 0 [1, 1], r1) | None \<Rightarrow> Some (fb_call cs 0 [1, 0], r))
      else if cmd ''LAYER'' then fb_layer E cs (q ''LAYER'')
      else if cmd ''WRITE'' then
        (case source_parse_framebuffer_target (q ''WRITE'') of
           None \<Rightarrow> fail ''Unsupported FRAMEBUFFER WRITE target'' cs (q ''WRITE'')
         | Some (c, r) \<Rightarrow> Some (fb_call cs 0 [3, c], r))
      else if cmd ''CLOSE'' then
        (case source_parse_framebuffer_target (q ''CLOSE'') of
           None \<Rightarrow> Some (fb_call cs 0 [4, 0], q ''CLOSE'') | Some (c, r) \<Rightarrow> Some (fb_call cs 0 [4, c], r))
      else if cmd ''MERGE'' then fb_merge E cs (q ''MERGE'')
      else if cmd ''SYNC'' then Some (fb_call cs 0 [6], q ''SYNC'')
      else if cmd ''WAIT'' then Some (fb_call cs 0 [7], q ''WAIT'')
      else if cmd ''COPY'' then fb_copy cs (q ''COPY'')
      else fail ''Unsupported FRAMEBUFFER command'' cs p)"

section \<open>Drawing\<close>

text \<open>An argument: how it is passed, its type, and for an array its slot.\<close>

record SourceGfxArg =
  ga_kind :: u8
  ga_type :: u8
  ga_slot :: u16

definition no_arg :: SourceGfxArg where
  "no_arg = \<lparr>ga_kind = 0, ga_type = 0, ga_slot = 0\<rparr>"

definition trim :: "cstr \<Rightarrow> cstr" where
  "trim s = rev (source_skip_space (rev (source_skip_space s)))"

definition numeric :: "u8 \<Rightarrow> bool" where
  "numeric ty \<longleftrightarrow> ty AND (T_INT OR T_NBR) \<noteq> 0 \<and> \<not> is_str ty"

text \<open>The text of one argument: up to a comma outside brackets and strings, or a comment.\<close>

fun split_arg :: "bool \<Rightarrow> int \<Rightarrow> cstr \<Rightarrow> cstr \<times> cstr" where
  "split_arg inq depth [] = ([], [])"
| "split_arg inq depth (c # p) =
     (if c \<noteq> 0x22 \<and> \<not> inq \<and> depth = 0 \<and> (c = 0x2C \<or> c = 0x27) then ([], c # p)
      else let inq1 = (if c = 0x22 then \<not> inq else inq);
               d = (if inq then depth else if c = 0x28 then depth + 1 else if c = 0x29 then depth - 1 else depth);
               (a, b) = split_arg inq1 d p
        in (c # a, b))"

text \<open>The expression of an argument of its own: its type, if there is any text; \<open>Inl\<close>: an error.\<close>

definition source_compile_expr_slice :: "parser \<Rightarrow> BCCompiler \<Rightarrow> cstr \<Rightarrow> BCCompiler \<times> (unit + u8 option)" where
  "source_compile_expr_slice E cs s0 =
     (let s = trim s0 in
      if s = [] then (cs, Inr None)
      else if length s > STRINGSIZE then (bc_set_error cs ''Expression too long'', Inl ())
      else let (ty, cs1, p) = E cs s; cs2 = source_statement_end cs1 p in (cs2, if has_error cs2 then Inl () else Inr (Some ty)))"

definition source_compile_text_just_literal :: "BCCompiler \<Rightarrow> cstr \<Rightarrow> BCCompiler option" where
  "source_compile_text_just_literal cs s0 =
     (let s = trim s0 in
      if s = [] \<or> length s \<ge> STRINGSIZE \<or> \<not> list_all (\<lambda>c. isalpha8 c \<or> c = 0x20) s then None
      else let (cs1, idx) = bc_add_constant_string cs s in Some (bc_emit_u16 (bc_emit_byte cs1 OP_PUSH_STR) idx))"

text \<open>A name, alone or with empty brackets; behind these no blank may follow.\<close>

definition array_name_at :: "cstr \<Rightarrow> (cstr \<times> u8) option" where
  "array_name_at s0 =
     (let s = trim s0 in
      if \<not> isnamestart (at s) then None
      else case source_parse_varname s of
        None \<Rightarrow> None
      | Some (name, hint, q) \<Rightarrow>
          let q1 = source_skip_space q; q2 = source_skip_space (drop 1 q1) in
          if q1 = [] \<or> at q1 = 0x28 \<and> at q2 = 0x29 \<and> drop 1 q2 = [] \<and> source_skip_space (rev s0) = rev s0 then Some (name, hint) else None)"

text \<open>The array a name stands for; an unknown name with a type suffix is made one. \<open>Inl\<close>: an error.\<close>

definition gfx_symbol :: "BCCompiler \<Rightarrow> cstr \<Rightarrow> u8 \<Rightarrow> BCCompiler \<times> (unit + (u16 \<times> bool \<times> u8 \<times> bool) option)" where
  "gfx_symbol cs name hint =
     (let loc = (if current_subfun cs \<ge> 0 then bc_find_local cs name else -1) in
      if loc \<ge> 0 then
        (cs, Inr (Some (word_of_int loc, True, loc_type (cs_locals cs ! nat loc), loc_is_array (cs_locals cs ! nat loc) \<noteq> 0)))
      else let slot = bc_find_slot cs name;
               known = (\<lambda>c s. Inr (Some (s, False, slot_type (slots c ! unat s), slot_is_array (slots c ! unat s) \<noteq> 0))) in
        if slot \<noteq> 0xFFFF then (cs, known cs slot)
        else if hint = 0 then (cs, Inr None)
        else let (cs1, slot1) = bc_add_slot cs name hint 1 in if slot1 = 0xFFFF then (cs1, Inl ()) else (cs1, known cs1 slot1))"

definition array_kind :: "bool \<Rightarrow> u8 \<Rightarrow> u8" where
  "array_kind loc ty = (if loc then (if ty = T_INT then 4 else 5) else (if ty = T_INT then 2 else 3))"

definition source_try_parse_gfx_array_ref :: "string \<Rightarrow> BCCompiler \<Rightarrow> cstr \<Rightarrow> BCCompiler \<times> (unit + SourceGfxArg option)" where
  "source_try_parse_gfx_array_ref cmd cs s =
     (case array_name_at s of
        None \<Rightarrow> (cs, Inr None)
      | Some (name, hint) \<Rightarrow>
          (case gfx_symbol cs name hint of
             (cs1, Inl _) \<Rightarrow> (cs1, Inl ())
           | (cs1, Inr None) \<Rightarrow> (cs1, Inr None)
           | (cs1, Inr (Some (slot, loc, ty, arr))) \<Rightarrow>
               if \<not> arr then (cs1, Inr None)
               else if \<not> numeric ty then (bc_set_error cs1 (cmd @ '' requires numeric array arguments''), Inl ())
               else (cs1, Inr (Some \<lparr>ga_kind = array_kind loc ty, ga_type = ty, ga_slot = slot\<rparr>))))"

definition source_gfx_stack_argc :: "SourceGfxArg list \<Rightarrow> u8" where
  "source_gfx_stack_argc args = of_nat (length (filter (\<lambda>a. ga_kind a = 1) args))"

text \<open>The count of fields, then every argument's kind, with the slot of an array.\<close>

definition source_emit_gfx_native :: "u16 \<Rightarrow> nat \<Rightarrow> SourceGfxArg list \<Rightarrow> BCCompiler \<Rightarrow> BCCompiler" where
  "source_emit_gfx_native sysid max_args args cs =
     (let padded = take max_args (args @ replicate max_args no_arg);
          aux = of_nat (length args) # concat (map (\<lambda>a. ga_kind a # (if ga_kind a \<ge> 2 then u16_bytes (ga_slot a) else [])) padded) in
      source_emit_syscall cs sysid (source_gfx_stack_argc padded) aux)"

text \<open>
  One argument: an array, in \<open>TEXT\<close> a bare word for the justification, or an expression. The third and
  fourth argument of \<open>TEXT\<close> are strings. \<open>Inl\<close>: an error.
\<close>

definition gfx_value :: "parser \<Rightarrow> bool \<Rightarrow> nat \<Rightarrow> BCCompiler \<Rightarrow> cstr \<Rightarrow> SourceGfxArg option \<Rightarrow> BCCompiler \<times> (unit + u8 option)" where
  "gfx_value E text_mode i cs s arr =
     (let lit = (if text_mode \<and> i = 3 then source_compile_text_just_literal cs s else None) in
      case lit of
        Some cs1 \<Rightarrow> (cs1, Inr (Some T_STR))
      | None \<Rightarrow> (case arr of Some a \<Rightarrow> (cs, Inr (Some (ga_type a))) | None \<Rightarrow> source_compile_expr_slice E cs s))"

definition gfx_arg :: "parser \<Rightarrow> string \<Rightarrow> bool \<Rightarrow> nat \<Rightarrow> BCCompiler \<Rightarrow> cstr \<Rightarrow> BCCompiler \<times> (unit + SourceGfxArg)" where
  "gfx_arg E cmd text_mode i cs s =
     (case source_try_parse_gfx_array_ref cmd cs s of
        (cs1, Inl _) \<Rightarrow> (cs1, Inl ())
      | (cs1, Inr arr) \<Rightarrow>
          let (cs2, ty) = gfx_value E text_mode i cs1 s arr; wants_string = (text_mode \<and> (i = 2 \<or> i = 3));
              base = (case arr of None \<Rightarrow> no_arg | Some a \<Rightarrow> a) in
          case ty of
            Inl _ \<Rightarrow> (cs2, Inl ())
          | Inr None \<Rightarrow> (cs2, Inr base)
          | Inr (Some t) \<Rightarrow>
              if wants_string \<and> t \<noteq> T_STR then (bc_set_error cs2 (cmd @ '' requires string arguments''), Inl ())
              else if \<not> wants_string \<and> \<not> numeric t then (bc_set_error cs2 (cmd @ '' requires numeric arguments''), Inl ())
              else (cs2, Inr (base\<lparr>ga_kind := (if ga_kind base = 0 then 1 else ga_kind base), ga_type := t\<rparr>)))"

fun gfx_args_loop :: "nat \<Rightarrow> parser \<Rightarrow> string \<Rightarrow> bool \<Rightarrow> SourceGfxArg list \<Rightarrow> BCCompiler \<Rightarrow> cstr \<Rightarrow> SourceGfxArg list option \<times> BCCompiler \<times> cstr" where
  "gfx_args_loop 0 E cmd tm args cs p = (Some args, cs, p)"
| "gfx_args_loop (Suc n) E cmd tm args cs p0 =
     (let (s, r) = split_arg False 0 (source_skip_space p0) in
      case gfx_arg E cmd tm (length args) cs s of
        (cs1, Inl _) \<Rightarrow> (None, cs1, p0)
      | (cs1, Inr a) \<Rightarrow> if at r = 0x2C then gfx_args_loop n E cmd tm (args @ [a]) cs1 (drop 1 r) else (Some (args @ [a]), cs1, r))"

definition source_compile_gfx_args :: "string \<Rightarrow> u16 \<Rightarrow> nat \<Rightarrow> nat \<Rightarrow> bool \<Rightarrow> parser \<Rightarrow> stmt" where
  "source_compile_gfx_args cmd sysid min_args max_args tm E cs p =
     (case gfx_args_loop max_args E cmd tm [] cs p of
        (None, cs1, p1) \<Rightarrow> Some (cs1, p1)
      | (Some args, cs1, p1) \<Rightarrow>
          if length args < min_args \<or> length args > max_args then fail (''Invalid '' @ cmd @ '' argument count'') cs1 p1
          else Some (source_emit_gfx_native sysid max_args args cs1, p1))"

text \<open>The second and third argument of \<open>POLYGON\<close> are arrays.\<close>

definition polygon_arg :: "parser \<Rightarrow> nat \<Rightarrow> BCCompiler \<Rightarrow> cstr \<Rightarrow> BCCompiler \<times> (unit + SourceGfxArg option)" where
  "polygon_arg E i cs s =
     (case source_try_parse_gfx_array_ref ''POLYGON'' cs s of
        (cs1, Inl _) \<Rightarrow> (cs1, Inl ())
      | (cs1, Inr (Some a)) \<Rightarrow> (cs1, Inr (Some a))
      | (cs1, Inr None) \<Rightarrow>
          if i = 1 \<or> i = 2 then (bc_set_error cs1 ''POLYGON requires numeric array arguments'', Inl ())
          else let (cs2, ty) = source_compile_expr_slice E cs1 s in
            case ty of
              Inl _ \<Rightarrow> (cs2, Inl ())
            | Inr None \<Rightarrow> (cs2, Inr None)
            | Inr (Some t) \<Rightarrow> if \<not> numeric t then (bc_set_error cs2 ''POLYGON requires numeric arguments'', Inl ())
                        else (cs2, Inr (Some \<lparr>ga_kind = 1, ga_type = t, ga_slot = 0\<rparr>)))"

fun polygon_loop :: "nat \<Rightarrow> parser \<Rightarrow> SourceGfxArg list \<Rightarrow> BCCompiler \<Rightarrow> cstr \<Rightarrow> SourceGfxArg list option \<times> BCCompiler \<times> cstr" where
  "polygon_loop 0 E args cs p = (Some args, cs, p)"
| "polygon_loop (Suc n) E args cs p0 =
     (let (s, r) = split_arg False 0 (source_skip_space p0) in
      case polygon_arg E (length args) cs s of
        (cs1, Inl _) \<Rightarrow> (None, cs1, p0)
      | (cs1, Inr None) \<Rightarrow> if length args < 3 then (None, bc_set_error cs1 ''Argument count'', p0) else (Some args, cs1, r)
      | (cs1, Inr (Some a)) \<Rightarrow> if at r = 0x2C then polygon_loop n E (args @ [a]) cs1 (drop 1 r) else (Some (args @ [a]), cs1, r))"

definition source_compile_polygon :: "parser \<Rightarrow> stmt" where
  "source_compile_polygon E cs p =
     (case polygon_loop 5 E [] cs p of
        (None, cs1, p1) \<Rightarrow> Some (cs1, p1)
      | (Some args, cs1, p1) \<Rightarrow>
          if length args < 3 then fail ''Argument count'' cs1 p1
          else Some (source_emit_gfx_native BC_SYS_GFX_POLYGON 5 args cs1, p1))"

definition source_compile_cls :: "parser \<Rightarrow> stmt" where
  "source_compile_cls E cs p0 =
     (let p = source_skip_space p0 in
      if at p = 0 \<or> at p = 0x27 then Some (source_emit_syscall cs BC_SYS_GFX_CLS 0 [0], p)
      else let (ty, cs1, p1) = E cs p in
        Some (source_emit_syscall (if numeric ty then cs1 else bc_set_error cs1 ''CLS requires numeric arguments'') BC_SYS_GFX_CLS 1 [1], p1))"

end
