(* ===== verification/SrcLine.thy ===== *)
theory SrcLine
  imports SrcDev SrcAsm
begin

text \<open>
  The top of \<open>runtime/vm/bc_source.c\<close>: the dispatcher of statements, the compiler of a line, the passes
  that look ahead for types and routines, and \<open>bc_compile_source\<close>.
\<close>

section \<open>Statements with their own rules\<close>

definition plain :: "(frontend \<Rightarrow> parser \<Rightarrow> stmt) \<Rightarrow> fstmt" where
  "plain f fe cs p = map_option (\<lambda>(c, q). (fe, c, q)) (f fe (source_parse_expression fe) cs p)"

definition closing :: "(BCCompiler \<Rightarrow> BCCompiler option) \<Rightarrow> fstmt" where
  "closing f fe cs p = map_option (\<lambda>c. (fe, c, p)) (f cs)"

text \<open>\<open>OPTION\<close> and \<open>TYPE\<close> do not look at the rest of the statement.\<close>

definition option_stmt :: fstmt where
  "option_stmt fe cs p = Some (if kw (source_skip_space p) ''ESCAPE'' \<noteq> None then fe\<lparr>escape_active := True\<rparr> else fe, cs, [])"

definition type_stmt :: fstmt where
  "type_stmt fe cs p =
     (let name = type_name_at (source_skip_space p) in
      if name = [] then Some (fe, bc_set_error cs ''Invalid TYPE name'', p)
      else if FindStructType fe name \<ge> 0 then Some (fe\<lparr>in_type_block := True, struct_def_inprogress := None\<rparr>, cs, [])
      else if length (structtbl fe) \<ge> MAX_STRUCT_TYPES then Some (fe, bc_set_error cs ''Too many structure types'', p)
      else Some (fe\<lparr>in_type_block := True, struct_def_inprogress := Some \<lparr>sd_name = name, sd_members = [], sd_total_size = 0\<rparr>\<rparr>, cs, []))"

definition restore_stmt :: stmt where
  "restore_stmt cs p0 =
     (let p = source_skip_space p0; name = take BC_MAX_LABEL_NAME (takeWhile is_label_char p) in
      if at_end p then Some (bc_emit_byte cs OP_RESTORE, p)
      else if \<not> (isalpha8 (at p) \<or> at p = 0x5F) then fail ''Expected label name after RESTORE'' cs p
      else let cs1 = bc_emit_byte cs OP_RESTORE_DATA; patch = here cs1; cs2 = bc_emit_u16 cs1 0; q = drop (length name) p;
               later = Some (bc_add_fixup_label_data_index cs2 patch name, q) in
        case bc_labelmap_index cs2 name of
          None \<Rightarrow> later
        | Some i \<Rightarrow> if lab_data_index (labelmap cs2 ! i) = 0xFFFF then later
                    else map_option (\<lambda>c. (c, q)) (bc_patch_u16 cs2 patch (lab_data_index (labelmap cs2 ! i))))"

definition int_arg_op :: "u8 \<Rightarrow> parser \<Rightarrow> stmt" where
  "int_arg_op opc E cs p = (let (cs1, p1) = int_arg E cs p in Some (bc_emit_byte cs1 opc, p1))"

definition error_stmt :: "parser \<Rightarrow> stmt" where
  "error_stmt E cs p0 =
     (let p = source_skip_space p0 in
      if at p = 0 \<or> at p = 0x27 then Some (bc_emit_byte cs OP_ERROR_EMPTY, p)
      else let (ty, cs1, p1) = E cs p in
        Some (bc_emit_byte (if ty \<noteq> T_STR then bc_set_error cs1 ''ERROR requires a string argument'' else cs1) OP_ERROR_S, p1))"

definition run_stmt :: "parser \<Rightarrow> stmt" where
  "run_stmt E cs p0 =
     (let p = source_skip_space p0 in
      if at p = 0 \<or> at p = 0x27 then fail ''RUN requires a filename'' cs p
      else let (ok, cs1, p1) = source_parse_string_expression E ''RUN requires string filename'' cs p in
        Some (if ok then source_emit_syscall cs1 BC_SYS_RUN 1 [] else cs1, p1))"

text \<open>One or two numbers, for \<open>COLOUR\<close> and \<open>FONT\<close>.\<close>

definition one_or_two :: "string \<Rightarrow> u16 \<Rightarrow> parser \<Rightarrow> stmt" where
  "one_or_two cmd sysid E cs p =
     (let (ty, cs1, p1) = E cs p; p2 = source_skip_space p1; bad = cmd @ '' requires numeric arguments'' in
      if at p = 0 \<or> at p = 0x27 then fail ''Argument count'' cs p
      else if \<not> numeric ty then fail bad cs1 p1
      else if at p2 \<noteq> 0x2C then Some (source_emit_syscall_noaux cs1 sysid 1, p2)
      else let (ty2, cs2, p3) = E cs1 (drop 1 p2) in
        if \<not> numeric ty2 then fail bad cs2 p3 else Some (source_emit_syscall_noaux cs2 sysid 2, p3))"

definition colour_stmt :: "parser \<Rightarrow> stmt" where
  "colour_stmt E cs p = one_or_two ''COLOUR'' BC_SYS_GFX_COLOUR E cs (source_skip_space p)"

definition font_stmt :: "parser \<Rightarrow> stmt" where
  "font_stmt E cs p0 =
     (let p = source_skip_space p0 in one_or_two ''FONT'' BC_SYS_GFX_FONT E cs (if at p = 0x23 then drop 1 p else p))"

definition line_stmt :: "parser \<Rightarrow> stmt" where
  "line_stmt E cs p =
     (case kw (source_skip_space p) ''INPUT'' of
        Some q \<Rightarrow> source_compile_line_input cs q
      | None \<Rightarrow> source_compile_gfx_args ''LINE'' BC_SYS_GFX_LINE 2 6 False E cs p)"

definition else_stmt :: "stmt_compiler \<Rightarrow> fstmt" where
  "else_stmt S fe cs p =
     (case kw (source_skip_space p) ''IF'' of
        Some q \<Rightarrow> source_compile_elseif S fe cs q
      | None \<Rightarrow> plain (\<lambda>fe E. source_compile_else fe) fe cs p)"

definition end_stmt :: fstmt where
  "end_stmt fe cs p0 =
     (let p = source_skip_space p0 in
      case kw p ''SUB'' of Some q \<Rightarrow> closing source_compile_end_sub fe cs q
      | None \<Rightarrow>
     (case kw p ''FUNCTION'' of Some q \<Rightarrow> closing source_compile_end_function fe cs q
      | None \<Rightarrow>
     (case kw p ''SELECT'' of Some q \<Rightarrow> closing source_compile_end_select fe cs q
      | None \<Rightarrow> Some (fe, bc_emit_byte cs OP_END, p))))"

definition return_stmt :: stmt where
  "return_stmt cs p = Some (bc_emit_byte cs OP_RETURN, p)"

section \<open>The dispatcher\<close>

text \<open>The keywords in the order they are tried.\<close>

definition device_table :: "(string \<times> fstmt) list" where
  "device_table =
   [(''INC'', plain (\<lambda>fe. source_compile_inc)), (''FASTGFX'', plain (\<lambda>fe. source_compile_fastgfx)),
    (''FRAMEBUFFER'', plain (\<lambda>fe. source_compile_framebuffer)), (''RANDOMIZE'', plain (\<lambda>fe. int_arg_op OP_RANDOMIZE)),
    (''PAUSE'', plain (\<lambda>fe. int_arg_op OP_PAUSE)), (''SETPIN'', plain (\<lambda>fe. source_compile_setpin)),
    (''PWM'', plain (\<lambda>fe. source_compile_pwm)), (''SERVO'', plain (\<lambda>fe. source_compile_servo)),
    (''ERROR'', plain (\<lambda>fe. error_stmt)), (''OPEN'', plain (\<lambda>fe. source_compile_open)), (''DRIVE'', plain (\<lambda>fe. source_compile_drive)),
    (''CLOSE'', plain (\<lambda>fe E. source_compile_close)), (''SEEK'', plain (\<lambda>fe. source_compile_seek)),
    (''MKDIR'', plain (\<lambda>fe E. source_compile_file_path_command E BC_SYS_FILE_MKDIR ''MKDIR requires string path'')),
    (''CHDIR'', plain (\<lambda>fe E. source_compile_file_path_command E BC_SYS_FILE_CHDIR ''CHDIR requires string path'')),
    (''RMDIR'', plain (\<lambda>fe E. source_compile_file_path_command E BC_SYS_FILE_RMDIR ''RMDIR requires string path'')),
    (''KILL'', plain (\<lambda>fe E. source_compile_file_path_command E BC_SYS_FILE_KILL ''KILL requires string path'')),
    (''RENAME'', plain (\<lambda>fe. source_compile_rename)), (''COPY'', plain (\<lambda>fe. source_compile_copy)), (''RUN'', plain (\<lambda>fe. run_stmt)),
    (''CLS'', plain (\<lambda>fe. source_compile_cls)),
    (''COLOUR'', plain (\<lambda>fe. colour_stmt)), (''COLOR'', plain (\<lambda>fe. colour_stmt)),
    (''FONT'', plain (\<lambda>fe. font_stmt)),
    (''BOX'', plain (\<lambda>fe. source_compile_gfx_args ''BOX'' BC_SYS_GFX_BOX 4 7 False)),
    (''RBOX'', plain (\<lambda>fe. source_compile_gfx_args ''RBOX'' BC_SYS_GFX_RBOX 4 7 False)),
    (''ARC'', plain (\<lambda>fe. source_compile_gfx_args ''ARC'' BC_SYS_GFX_ARC 6 7 False)),
    (''TRIANGLE'', plain (\<lambda>fe. source_compile_gfx_args ''TRIANGLE'' BC_SYS_GFX_TRIANGLE 6 8 False)),
    (''POLYGON'', plain (\<lambda>fe. source_compile_polygon)),
    (''CIRCLE'', plain (\<lambda>fe. source_compile_gfx_args ''CIRCLE'' BC_SYS_GFX_CIRCLE 3 7 False)),
    (''LINE'', plain (\<lambda>fe. line_stmt)),
    (''PIXEL'', plain (\<lambda>fe. source_compile_gfx_args ''PIXEL'' BC_SYS_GFX_PIXEL 2 3 False)),
    (''TEXT'', plain (\<lambda>fe. source_compile_gfx_args ''TEXT'' BC_SYS_GFX_TEXT 3 8 True))]"

definition control_table :: "stmt_compiler \<Rightarrow> (string \<times> fstmt) list" where
  "control_table S =
   [(''SELECT'', plain (\<lambda>fe. source_compile_select_case)), (''CASE'', plain source_compile_case),
    (''LOCAL'', plain source_compile_local), (''STATIC'', plain source_compile_static),
    (''SUB'', source_compile_sub), (''FUNCTION'', source_compile_function),
    (''ELSEIF'', source_compile_elseif S), (''ELSE'', else_stmt S),
    (''ENDIF'', closing source_compile_endif), (''END IF'', closing source_compile_endif), (''END'', end_stmt),
    (''DO'', plain source_compile_do), (''LOOP'', source_compile_loop),
    (''EXIT'', plain (\<lambda>fe E. source_compile_exit fe)), (''CONTINUE'', plain (\<lambda>fe E. source_compile_continue fe)),
    (''IF'', source_compile_if S), (''FOR'', plain (\<lambda>fe. source_compile_for)), (''NEXT'', source_compile_next),
    (''GOTO'', plain (\<lambda>fe E. source_compile_goto)), (''GOSUB'', plain (\<lambda>fe E. source_compile_gosub)),
    (''ON'', plain source_compile_on), (''RETURN'', plain (\<lambda>fe E. return_stmt)), (''LET'', plain source_compile_assignment)]"

definition statement_table :: "stmt_compiler \<Rightarrow> (string \<times> fstmt) list" where
  "statement_table S =
   [(''PRINT'', plain (\<lambda>fe. source_compile_print)), (''OPTION'', option_stmt), (''TYPE'', type_stmt),
    (''CONST'', plain (\<lambda>fe. source_compile_const)), (''DIM'', plain source_compile_dim), (''DATA'', plain (\<lambda>fe E. source_compile_data)),
    (''READ'', plain (\<lambda>fe. source_compile_read)), (''RESTORE'', plain (\<lambda>fe E. restore_stmt))] @ device_table @ control_table S"

text \<open>\<open>ON\<close> without \<open>GOTO\<close> or \<open>GOSUB\<close> is left to the interpreter.\<close>

definition takes :: "cstr \<Rightarrow> string \<Rightarrow> bool" where
  "takes p w =
     (case kw p w of None \<Rightarrow> False
      | Some q \<Rightarrow> w = ''ON'' \<longrightarrow> source_find_keyword_outside_string q ''GOTO'' \<noteq> None \<or> source_find_keyword_outside_string q ''GOSUB'' \<noteq> None)"

definition find_statement :: "stmt_compiler \<Rightarrow> cstr \<Rightarrow> (fstmt \<times> cstr) option" where
  "find_statement S p =
     (if at p = 0x3F then Some (plain (\<lambda>fe. source_compile_print), drop 1 p)
      else map_option (\<lambda>(w, f). (f, the (kw p w))) (find (\<lambda>(w, f). takes p w) (statement_table S)))"

text \<open>A statement is compiled and must end there.\<close>

definition run_statement :: "fstmt \<Rightarrow> stmt_compiler" where
  "run_statement f fe cs p = map_option (\<lambda>(fe1, c, q). (fe1, source_statement_end c q)) (f fe cs p)"

text \<open>The entries of the port's command table, without its last.\<close>

definition source_name_is_command :: "frontend \<Rightarrow> cstr \<Rightarrow> bool" where
  "source_name_is_command fe name \<longleftrightarrow> name \<noteq> [] \<and> list_ex (\<lambda>n. same_name n name) (commandtbl fe)"

text \<open>A statement that begins with a name: an assignment, a call, or one for the interpreter (\<open>None\<close>).\<close>

definition name_statement :: "frontend \<Rightarrow> BCCompiler \<Rightarrow> cstr \<Rightarrow> (frontend \<times> BCCompiler) option option" where
  "name_statement fe cs p =
     (case source_parse_varname p of
        None \<Rightarrow> None
      | Some (name, suffix, q0) \<Rightarrow>
          let q = source_skip_space q0; behind = (if at q = 0x28 then source_skip_space (skip_group 0 q) else q); i = bc_find_subfun cs name in
          if \<not> isnamestart (at p) \<or> source_name_is_command fe (if suffix \<noteq> 0 then butlast name else name) then None
          else if at behind = 0x3D then Some (run_statement (plain source_compile_assignment) fe cs p)
          else if i \<ge> 0 \<and> sf_return_type (subfuns cs ! nat i) = 0 \<and> sf_bridged (subfuns cs ! nat i) = 0 then
            (let (nargs, cs1, p1) = source_compile_call_args (source_parse_expression fe) False i cs q;
                 cs2 = (if has_error cs1 then cs1
                        else bc_emit_byte (bc_emit_u16 (bc_emit_byte cs1 OP_CALL_SUB) (word_of_int i)) (of_nat nargs))
             in Some (Some (fe, source_statement_end cs2 p1)))
          else None)"

section \<open>Statements left to the interpreter\<close>

definition to_colon :: "cstr \<Rightarrow> cstr" where
  "to_colon s = takeWhile (\<lambda>c. c \<noteq> 0x3A \<and> c \<noteq> 0x27) s"

fun before_comment :: "bool \<Rightarrow> bool \<Rightarrow> cstr \<Rightarrow> cstr" where
  "before_comment colon inq [] = []"
| "before_comment colon inq (c # p) =
     (let inq1 = (if c = 0x22 then \<not> inq else inq) in
      if c = 0x0A \<or> \<not> inq1 \<and> c \<noteq> 0x22 \<and> (c = 0x27 \<or> colon \<and> c = 0x3A) then [] else c # before_comment colon inq1 p)"

definition source_stmt_len_before_comment :: "cstr \<Rightarrow> nat" where
  "source_stmt_len_before_comment s = length (before_comment False False s)"

text \<open>A \<open>#\<close> outside strings with something other than a digit behind it; \<open>quotes\<close>: a \<open>'\<close> in a string is passed over.\<close>

fun variable_file_number :: "bool \<Rightarrow> bool \<Rightarrow> cstr \<Rightarrow> bool" where
  "variable_file_number quotes inq [] = False"
| "variable_file_number quotes inq (c # p) =
     (let inq1 = (if c = 0x22 then \<not> inq else inq); q = source_skip_space p in
      if c = 0x0A \<or> c = 0x27 \<and> \<not> (quotes \<and> inq1) then False
      else if \<not> inq1 \<and> c = 0x23 \<and> at q \<noteq> 0 \<and> \<not> isdigit8 (at q) then True
      else variable_file_number quotes inq1 p)"

definition is_definition :: "cstr \<Rightarrow> bool" where
  "is_definition p \<longleftrightarrow> list_ex (word_at p) [''SUB'', ''FUNCTION'', ''END'', ''EXIT'', ''LOCAL'', ''STATIC'']"

text \<open>The part of the statement handed over at once, if any.\<close>

definition early_bridge :: "frontend \<Rightarrow> BCCompiler \<Rightarrow> cstr \<Rightarrow> cstr option" where
  "early_bridge fe cs s =
     (let p = source_skip_space s in
      if \<not> is_definition p \<and> source_stmt_references_bridged_subfun cs s then Some (to_colon s)
      else if \<not> is_definition p \<and> \<not> list_ex (word_at p) [''IF'', ''ELSEIF''] \<and> source_stmt_contains_ctrlval_call s
      then Some (take (source_stmt_len_before_comment s) s)
      else if uses_struct_file_io fe \<and> list_ex (word_at p) [''OPEN'', ''CLOSE'', ''SEEK''] then Some (to_colon s)
      else if variable_file_number False False s then Some (before_comment True False s)
      else None)"

text \<open>A statement, with a label before it.\<close>

definition statement_over :: "stmt_compiler \<Rightarrow> stmt_compiler" where
  "statement_over S fe cs s0 =
     (let (cs1, lab) = source_try_register_label cs (source_skip_space s0);
          s = (case lab of None \<Rightarrow> s0 | Some q \<Rightarrow> source_skip_space q); p = source_skip_space s in
      if lab \<noteq> None \<and> (at (the lab) = 0 \<or> at (the lab) = 0x27) then Some (fe, cs1)
      else case early_bridge fe cs1 s of
        Some t \<Rightarrow> Some (fe, source_emit_bridge_for_stmt fe cs1 (take (STRINGSIZE - 1) t))
      | None \<Rightarrow>
          (case find_statement S p of
             Some (f, q) \<Rightarrow> run_statement f fe cs1 q
           | None \<Rightarrow>
               (case name_statement fe cs1 p of
                  Some r \<Rightarrow> r
                | None \<Rightarrow> Some (fe, emit_bridge_cmd fe (''Unsupported source command near: '' @ cstr_string (take 24 p)) cs1 s))))"

text \<open>Statements nest in one-line \<open>IF\<close>s; each level is a shorter text.\<close>

fun statement_at :: "nat \<Rightarrow> stmt_compiler" where
  "statement_at 0 fe cs s = Some (fe, bc_set_error cs ''Statement too deep'')"
| "statement_at (Suc n) fe cs s = statement_over (statement_at n) fe cs s"

definition source_compile_statement :: stmt_compiler where
  "source_compile_statement fe cs s = statement_at (Suc (length s)) fe cs s"

section \<open>Lines\<close>

text \<open>The text behind a line number, with the number; \<open>long\<close> has 64 bits, \<open>int\<close> 32.\<close>

definition split_number :: "cstr \<Rightarrow> int \<times> cstr" where
  "split_number p0 =
     (let p = source_skip_space p0; digits = takeWhile isdigit8 p in
      if digits = [] then (0, p)
      else (sint (word_of_int (min (2 ^ 63 - 1) (int (num_of 10 digits))) :: 32 word), source_skip_space (drop (length digits) p)))"

definition body_of :: "cstr \<Rightarrow> cstr" where
  "body_of line = snd (split_number line)"

text \<open>Inside a routine the interpreter runs only its end is looked for.\<close>

definition bridged_line :: "frontend \<Rightarrow> cstr \<Rightarrow> frontend" where
  "bridged_line fe p = (if word_at p ''END FUNCTION'' \<or> word_at p ''END SUB'' then fe\<lparr>in_struct_fn := False\<rparr> else fe)"

definition pad_struct :: "frontend \<Rightarrow> structdef \<Rightarrow> structdef" where
  "pad_struct fe sd =
     (let al = GetStructAlignment fe sd in
      if al > 1 \<and> sd_total_size sd mod al \<noteq> 0 then sd\<lparr>sd_total_size := (sd_total_size sd + al - 1) div al * al\<rparr> else sd)"

text \<open>The table takes a finished type, or drops it; \<open>None\<close>: it was dropped.\<close>

definition finish_type :: "frontend \<Rightarrow> structdef \<Rightarrow> frontend option" where
  "finish_type fe sd =
     (if sd_members sd \<noteq> [] \<and> length (structtbl fe) < MAX_STRUCT_TYPES
      then Some (fe\<lparr>structtbl := structtbl fe @ [Some (pad_struct fe sd)]\<rparr>) else None)"

definition end_type :: "frontend \<Rightarrow> BCCompiler \<Rightarrow> frontend \<times> BCCompiler" where
  "end_type fe cs =
     (let fe1 = fe\<lparr>struct_def_inprogress := None, in_type_block := False\<rparr> in
      case struct_def_inprogress fe of
        None \<Rightarrow> (fe1, cs)
      | Some sd \<Rightarrow>
          (case finish_type fe1 sd of
             Some fe2 \<Rightarrow> (fe2, cs)
           | None \<Rightarrow> (fe1, if sd_members sd = [] then bc_set_error cs ''TYPE has no members'' else cs)))"

definition type_line :: "frontend \<Rightarrow> BCCompiler \<Rightarrow> cstr \<Rightarrow> frontend \<times> BCCompiler" where
  "type_line fe cs p =
     (if word_at p ''END TYPE'' then end_type fe cs
      else if at p = 0 \<or> at p = 0x27 then (fe, cs)
      else case struct_def_inprogress fe of
        None \<Rightarrow> (fe, cs)
      | Some sd \<Rightarrow>
          (case ParseStructMember fe p sd of
             Inl e \<Rightarrow> (fe, bc_set_error cs e) | Inr sd1 \<Rightarrow> (fe\<lparr>struct_def_inprogress := Some sd1\<rparr>, cs)))"

definition starts_with :: "cstr \<Rightarrow> string \<Rightarrow> bool" where
  "starts_with p s \<longleftrightarrow> same_name (take (length s) p) (bytes_of s)"

definition opens_asm :: "cstr \<Rightarrow> bool" where
  "opens_asm p \<longleftrightarrow> starts_with p (CHR 0x27 # ''!ASM'') \<and> at (drop 5 p) \<in> {0, 0x20, 0x09, 0x0D, 0x0A}"

definition closes_asm :: "cstr \<Rightarrow> bool" where
  "closes_asm p \<longleftrightarrow> starts_with p (CHR 0x27 # ''!ENDASM'')"

definition asm_line :: "frontend \<Rightarrow> BCCompiler \<Rightarrow> cstr \<Rightarrow> (frontend \<times> BCCompiler) option" where
  "asm_line fe cs p =
     (if closes_asm p then map_option (\<lambda>c. (fe\<lparr>asm_active := False, asm_lines := []\<rparr>, c)) (source_assemble_block fe cs)
      else if length (asm_lines fe) < ASM_MAX_LINES
      then Some (fe\<lparr>asm_lines := asm_lines fe @ [(take (ASM_MAX_LINE_LEN - 1) (if at p = 0x27 then drop 1 p else p), line_no fe)]\<rparr>, cs)
      else Some (fe, bc_set_error cs (CHR 0x27 # ''!ASM block too large (max '' @ dec_nat ASM_MAX_LINES @ '' lines)'')))"

text \<open>A line without statements may hold a directive. Memory for the assembler's lines is assumed to be available.\<close>

definition comment_line :: "frontend \<Rightarrow> cstr \<Rightarrow> frontend" where
  "comment_line fe p =
     (let fe1 = (if starts_with p (CHR 0x27 # ''!FAST'') then fe\<lparr>fast_next_loop := True\<rparr> else fe) in
      if opens_asm p then fe1\<lparr>asm_active := True, asm_lines := [], asm_start_line := line_no fe\<rparr> else fe1)"

fun line_statements :: "nat \<Rightarrow> stmt_compiler" where
  "line_statements 0 fe cs p = Some (fe, cs)"
| "line_statements (Suc n) fe cs p0 =
     (let p = source_skip_space p0 in
      if has_error cs \<or> at p = 0 \<or> at p = 0x27 then Some (fe, cs)
      else case source_try_register_label cs p of
        (cs1, Some q) \<Rightarrow> line_statements n fe cs1 q
      | (cs1, None) \<Rightarrow>
          let (s, r) = split_statement (kw p ''IF'' \<noteq> None) False p in
          Option.bind (source_compile_statement fe cs1 (take STRINGSIZE s)) (\<lambda>(fe1, cs2).
            if at r = 0x3A then line_statements n fe1 cs2 (drop 1 r) else Some (fe1, cs2)))"

definition source_compile_line :: stmt_compiler where
  "source_compile_line fe cs line =
     (let (n, p) = split_number line; ln = (if n > 0 then n else line_no fe) in
      if in_struct_fn fe then Some (bridged_line fe p, cs)
      else if in_type_block fe then Some (type_line fe cs p)
      else if asm_active fe then asm_line fe cs p
      else if source_line_empty_or_comment p then Some (comment_line fe p, cs)
      else let cs1 = cs\<lparr>cs_line := word_of_int ln\<rparr>; cs2 = fst (bc_add_linemap_entry cs1 (word_of_int ln) (here cs1));
               cs3 = bc_emit_u16 (bc_emit_byte cs2 OP_LINE) (word_of_int ln) in
        line_statements (Suc (length p)) fe cs3 p)"

section \<open>Logical lines\<close>

definition source_update_continuation_setting :: "cstr \<Rightarrow> u8 \<Rightarrow> u8" where
  "source_update_continuation_setting line c =
     (case kw (body_of line) ''OPTION'' of None \<Rightarrow> c
      | Some p1 \<Rightarrow>
     (case kw (source_skip_space p1) ''CONTINUATION'' of None \<Rightarrow> c
      | Some p2 \<Rightarrow>
     (case kw (source_skip_space p2) ''LINES'' of None \<Rightarrow> c
      | Some p3 \<Rightarrow>
          let p = source_skip_space p3 in
          if kw p ''ON'' \<noteq> None \<or> kw p ''ENABLE'' \<noteq> None then 0x5F
          else if kw p ''OFF'' \<noteq> None \<or> kw p ''DISABLE'' \<noteq> None then 0 else c)))"

definition is_newline :: "u8 \<Rightarrow> bool" where
  "is_newline c \<longleftrightarrow> c = 0x0A \<or> c = 0x0D"

definition skip_newline :: "cstr \<Rightarrow> cstr" where
  "skip_newline p = (if at p = 0x0D \<and> at (drop 1 p) = 0x0A then drop 2 p else if is_newline (at p) then drop 1 p else p)"

text \<open>Physical lines joined while they end in a blank and the continuation character; a line keeps \<open>STRINGSIZE\<close> characters.\<close>

fun join_lines :: "nat \<Rightarrow> u8 \<Rightarrow> cstr \<Rightarrow> int \<Rightarrow> cstr \<Rightarrow> cstr \<times> int \<times> cstr" where
  "join_lines 0 c acc phys p = (acc, phys, p)"
| "join_lines (Suc n) c acc phys p =
     (if p = [] then (acc, phys, p)
      else let s = takeWhile (\<lambda>b. \<not> is_newline b) p; acc1 = acc @ take (STRINGSIZE - length acc) s; r = skip_newline (drop (length s) p);
               k = length acc1 in
        if c \<noteq> 0 \<and> k \<ge> 2 \<and> acc1 ! (k - 2) = 0x20 \<and> acc1 ! (k - 1) = c then join_lines n c (take (k - 2) acc1) (phys + 1) r
        else (acc1, phys + 1, r))"

text \<open>The position in the source: the rest, the number of the next physical line, the continuation character.\<close>

type_synonym reader = "cstr \<times> int \<times> u8"

definition source_read_logical_line :: "reader \<Rightarrow> (cstr \<times> int \<times> reader) option" where
  "source_read_logical_line rd =
     (let (p, phys, c) = rd in
      if p = [] then None
      else let (line, phys1, r) = join_lines (Suc (length p)) c [] phys p in
        Some (line, phys, (r, phys1, source_update_continuation_setting line c)))"

definition start_of :: "cstr \<Rightarrow> reader" where
  "start_of source = (source, 1, 0)"

text \<open>All lines with their numbers; each takes at least one character of the source.\<close>

fun logical_lines :: "nat \<Rightarrow> reader \<Rightarrow> (cstr \<times> int) list" where
  "logical_lines 0 rd = []"
| "logical_lines (Suc n) rd =
     (case source_read_logical_line rd of None \<Rightarrow> [] | Some (line, k, rd1) \<Rightarrow> (line, k) # logical_lines n rd1)"

definition lines_of :: "cstr \<Rightarrow> (cstr \<times> int) list" where
  "lines_of source = logical_lines (length source) (start_of source)"

text \<open>The lines outside assembler blocks.\<close>

fun skip_asm :: "bool \<Rightarrow> (cstr \<times> int) list \<Rightarrow> (cstr \<times> int) list" where
  "skip_asm inside [] = []"
| "skip_asm inside ((l, n) # ls) =
     (let p = body_of l in
      if inside then skip_asm (\<not> closes_asm p) ls
      else if opens_asm p then skip_asm True ls
      else (l, n) # skip_asm False ls)"

section \<open>Looking ahead for types\<close>

definition prescan_line :: "cstr \<Rightarrow> frontend \<times> structdef option \<Rightarrow> frontend \<times> structdef option" where
  "prescan_line line st =
     (let (fe, sd) = st; p = body_of line in
      case sd of
        Some d \<Rightarrow>
          if word_at p ''END TYPE'' then (case finish_type fe d of Some fe1 \<Rightarrow> (fe1, None) | None \<Rightarrow> (fe, None))
          else if at p = 0 \<or> at p = 0x27 then st
          else (fe, Some (case ParseStructMember fe p d of Inl _ \<Rightarrow> d | Inr d1 \<Rightarrow> d1))
      | None \<Rightarrow>
          let name = type_name_at (source_skip_space (drop 4 p)) in
          if \<not> word_at p ''TYPE'' \<or> name = [] \<or> FindStructType fe name \<ge> 0 \<or> length (structtbl fe) \<ge> MAX_STRUCT_TYPES then st
          else (fe, Some \<lparr>sd_name = name, sd_members = [], sd_total_size = 0\<rparr>))"

definition source_prescan_types :: "frontend \<Rightarrow> cstr \<Rightarrow> frontend" where
  "source_prescan_types fe source = fst (fold (\<lambda>(l, n). prescan_line l) (skip_asm False (lines_of source)) (fe, None))"

section \<open>Looking ahead for routines\<close>

text \<open>Behind the matching bracket; brackets in strings do not count.\<close>

fun skip_par :: "nat \<Rightarrow> bool \<Rightarrow> cstr \<Rightarrow> cstr" where
  "skip_par depth inq [] = []"
| "skip_par depth inq (c # p) =
     (if c = 0x22 then skip_par depth (\<not> inq) p
      else if inq then skip_par depth inq p
      else if c = 0x28 then skip_par (depth + 1) inq p
      else if c = 0x29 then (if depth = 1 then p else skip_par (depth - 1) inq p)
      else skip_par depth inq p)"

definition source_skip_parenthesized :: "cstr \<Rightarrow> cstr" where
  "source_skip_parenthesized p = (if at p \<noteq> 0x28 then p else skip_par 0 False p)"

fun predeclare_loop :: "nat \<Rightarrow> frontend \<Rightarrow> bool \<Rightarrow> nat \<Rightarrow> nat \<Rightarrow> BCCompiler \<Rightarrow> cstr \<Rightarrow> nat \<times> BCCompiler" where
  "predeclare_loop 0 fe parens sf n cs p = (n, cs)"
| "predeclare_loop (Suc k) fe parens sf n cs p0 =
     (let p = source_skip_space p0 in
      if parens \<and> at p = 0x29 \<or> \<not> parens \<and> at_end p then (n, cs)
      else case param_at fe p of
        (None, _) \<Rightarrow> (n, cs)
      | (Some (name, ty, arr, byval), q) \<Rightarrow>
          let cs1 = note_param sf n ty arr byval cs; q1 = source_skip_space q in
          if at q1 = 0x2C then predeclare_loop k fe parens sf (n + 1) cs1 (drop 1 q1) else (n + 1, cs1))"

definition source_predeclare_params :: "frontend \<Rightarrow> nat \<Rightarrow> BCCompiler \<Rightarrow> cstr \<Rightarrow> nat \<times> BCCompiler" where
  "source_predeclare_params fe sf cs p0 =
     (let p = source_skip_space p0 in
      if at p = 0x28 then predeclare_loop (length p) fe True sf 0 cs (drop 1 p)
      else if at_end p then (0, cs)
      else predeclare_loop (Suc (length p)) fe False sf 0 cs p)"

text \<open>A routine with structures in its head is left to the interpreter, another one has its parameters noted.\<close>

definition predeclare_head :: "frontend \<Rightarrow> bool \<Rightarrow> cstr \<Rightarrow> BCCompiler \<times> int \<Rightarrow> BCCompiler" where
  "predeclare_head fe bridged p ci =
     (let (cs, i) = ci in
      if i < 0 then cs
      else if bridged then upd_subfun (nat i) (\<lambda>f. f\<lparr>sf_bridged := 1\<rparr>) cs
      else let (n, cs1) = source_predeclare_params fe (nat i) cs p in upd_subfun (nat i) (\<lambda>f. f\<lparr>sf_nparams := of_nat n\<rparr>) cs1)"

definition predeclare_function :: "frontend \<Rightarrow> BCCompiler \<Rightarrow> cstr \<Rightarrow> BCCompiler" where
  "predeclare_function fe cs p0 =
     (case source_parse_varname p0 of
        None \<Rightarrow> cs
      | Some (name, suffix, p) \<Rightarrow>
          let q = source_skip_space p; as_ty = fst (source_parse_as_type_clause fe (source_skip_parenthesized q));
              ret0 = (if suffix = 0 then T_NBR else suffix); rty = (if as_ty \<noteq> 0 \<and> suffix = 0 then as_ty else ret0) in
          predeclare_head fe (source_params_contain_struct fe p \<or> rty = T_STRUCT) p
            (source_get_or_create_subfun cs (if suffix \<noteq> 0 then butlast name else name) rty))"

definition source_predeclare_line :: "frontend \<Rightarrow> BCCompiler \<Rightarrow> cstr \<Rightarrow> int \<Rightarrow> BCCompiler" where
  "source_predeclare_line fe cs0 line n =
     (let p = body_of line; cs = cs0\<lparr>cs_line := word_of_int n\<rparr> in
      if source_line_empty_or_comment p then cs0
      else case kw p ''SUB'' of
        Some q \<Rightarrow>
          (case source_parse_varname q of
             Some (name, suffix, r) \<Rightarrow>
               if suffix \<noteq> 0 then cs
               else predeclare_head fe (source_params_contain_struct fe r) r (source_get_or_create_subfun cs name 0)
           | None \<Rightarrow> cs)
      | None \<Rightarrow> (case kw p ''FUNCTION'' of Some q \<Rightarrow> predeclare_function fe cs q | None \<Rightarrow> cs))"

text \<open>A declaration with a structure's name behind \<open>AS\<close>.\<close>

fun struct_as :: "nat \<Rightarrow> frontend \<Rightarrow> bool \<Rightarrow> cstr \<Rightarrow> bool" where
  "struct_as 0 fe inq p = False"
| "struct_as (Suc n) fe inq p =
     (if at p = 0 \<or> at p = 0x27 then False
      else if at p = 0x22 then struct_as n fe (\<not> inq) (drop 1 p)
      else if inq \<or> \<not> isnamestart (at p) then struct_as n fe inq (drop 1 p)
      else let w = takeWhile isnamechar p; q = drop (length w) p; q1 = source_skip_space q; name = type_name_at q1 in
        if length w = 2 \<and> same_name w (bytes_of ''AS'') then
          (if isnamestart (at q1) then FindStructType fe name \<ge> 0 \<or> struct_as n fe inq (drop (length name) q1) else struct_as n fe inq q1)
        else struct_as n fe inq q)"

definition source_local_line_has_struct_as :: "frontend \<Rightarrow> cstr \<Rightarrow> bool" where
  "source_local_line_has_struct_as fe line = struct_as (length line) fe False line"

text \<open>The routine a line opens, if it opens one.\<close>

definition opened_routine :: "BCCompiler \<Rightarrow> cstr \<Rightarrow> int option" where
  "opened_routine cs p =
     (if word_at p ''SUB'' then
        Some (case source_parse_varname (drop 3 p) of Some (name, suffix, _) \<Rightarrow> if suffix = 0 then bc_find_subfun cs name else -1 | None \<Rightarrow> -1)
      else if word_at p ''FUNCTION'' then
        Some (case source_parse_varname (drop 8 p) of
                Some (name, suffix, _) \<Rightarrow> bc_find_subfun cs (if suffix \<noteq> 0 then butlast name else name) | None \<Rightarrow> -1)
      else if word_at p ''END SUB'' \<or> word_at p ''END FUNCTION'' then Some (-1)
      else None)"

text \<open>Whether a line of a routine's body makes the routine one for the interpreter.\<close>

definition body_needs_bridge :: "frontend \<Rightarrow> cstr \<Rightarrow> bool" where
  "body_needs_bridge fe p \<longleftrightarrow>
     word_at p ''LOCAL'' \<and> source_local_line_has_struct_as fe (drop 5 p) \<or>
     word_at p ''STATIC'' \<and> source_local_line_has_struct_as fe (drop 6 p) \<or> variable_file_number True False p"

definition predeclare_step :: "frontend \<Rightarrow> cstr \<Rightarrow> int \<Rightarrow> BCCompiler \<times> int \<Rightarrow> BCCompiler \<times> int" where
  "predeclare_step fe line n st =
     (let (cs0, cur) = st; cs = source_predeclare_line fe cs0 line n; p = body_of line in
      if has_error cs0 then st
      else case opened_routine cs p of
        Some i \<Rightarrow> (cs, i)
      | None \<Rightarrow>
          if cur < 0 \<or> is_bridged cs cur then (cs, cur)
          else if body_needs_bridge fe p then (upd_subfun (nat cur) (\<lambda>f. f\<lparr>sf_bridged := 1\<rparr>) cs, cur)
          else (cs, cur))"

definition source_predeclare_subfuns :: "frontend \<Rightarrow> BCCompiler \<Rightarrow> cstr \<Rightarrow> BCCompiler" where
  "source_predeclare_subfuns fe cs source =
     fst (fold (\<lambda>(l, n). predeclare_step fe l n) (skip_asm False (lines_of source)) (cs, -1))"

text \<open>A \<open>STRUCT\<close> command with one of the given words, anywhere in the source.\<close>

fun struct_subcmd :: "string list \<Rightarrow> bool \<Rightarrow> cstr \<Rightarrow> bool" where
  "struct_subcmd wanted prev [] = False"
| "struct_subcmd wanted prev (c # p) =
     (\<not> prev \<and> word_at (c # p) ''STRUCT'' \<and> list_ex (word_at (source_skip_space (drop 6 (c # p)))) wanted
      \<or> struct_subcmd wanted (isnamechar c) p)"

definition source_program_uses_struct_subcmd :: "cstr \<Rightarrow> string list \<Rightarrow> bool" where
  "source_program_uses_struct_subcmd source wanted = struct_subcmd wanted False source"

definition source_program_uses_struct_file_io :: "cstr \<Rightarrow> bool" where
  "source_program_uses_struct_file_io source = source_program_uses_struct_subcmd source [''SAVE'', ''LOAD'']"

definition source_program_uses_struct_extract_insert :: "cstr \<Rightarrow> bool" where
  "source_program_uses_struct_extract_insert source = source_program_uses_struct_subcmd source [''EXTRACT'', ''INSERT'']"

section \<open>Programs\<close>

text \<open>The lines until an error; the number of the last line read stays in the front end.\<close>

fun compile_lines :: "(cstr \<times> int) list \<Rightarrow> frontend \<Rightarrow> BCCompiler \<Rightarrow> (frontend \<times> BCCompiler) option" where
  "compile_lines [] fe cs = Some (fe, cs)"
| "compile_lines ((l, n) # ls) fe cs =
     (if has_error cs then Some (fe, cs)
      else Option.bind (source_compile_line (fe\<lparr>line_no := n\<rparr>) cs l) (\<lambda>(fe1, cs1). compile_lines ls fe1 cs1))"

text \<open>The front end at the start: what the port provides (\<open>host\<close>), everything else zero.\<close>

definition fresh_frontend :: "frontend \<Rightarrow> frontend" where
  "fresh_frontend host =
     host\<lparr>escape_active := False, line_no := 1, fast_next_loop := False, asm_active := False, asm_lines := [], asm_start_line := 0,
       in_type_block := False, struct_def_inprogress := None, in_struct_fn := False, uses_struct_file_io := False, uses_struct_extract_insert := False\<rparr>"

definition bc_compile_source :: "frontend \<Rightarrow> BCCompiler \<Rightarrow> cstr \<Rightarrow> BCCompiler option" where
  "bc_compile_source host cs0 source =
     (let fe1 = source_prescan_types (fresh_frontend host) source; cs = source_predeclare_subfuns fe1 cs0 source;
          fe = fe1\<lparr>uses_struct_file_io := source_program_uses_struct_file_io source,
                   uses_struct_extract_insert := source_program_uses_struct_extract_insert source\<rparr> in
      if has_error cs then Some cs
      else Option.bind (compile_lines (lines_of source) fe cs) (\<lambda>(fe2, cs1).
        if has_error cs1 then Some (if error_line cs1 = 0 then cs1\<lparr>error_line := word_of_int (line_no fe2)\<rparr> else cs1)
        else bc_resolve_fixups (bc_emit_byte cs1 OP_END)))"

end
