(* ===== verification/ExprSpec.thy ===== *)
theory ExprSpec
  imports SrcExpr Vm
begin

text \<open>
  Arithmetic expressions as trees: their text, the code a compiler should make of them, and their
  value. The text has the precedence and associativity of the language: \<open>fits n e\<close> holds when \<open>e\<close>
  needs no further parentheses as an operand of layer \<open>n\<close>; parentheses are nodes of the tree.
\<close>

section \<open>Trees\<close>

datatype unop = U_NEG | U_PLUS | U_NOT | U_INV

datatype binop = O_POW | O_MUL | O_DIV | O_IDIV | O_MOD | O_ADD | O_SUB | O_SHL | O_SHR | O_CMP rel | O_AND | O_OR | O_XOR

text \<open>Leaves: digits, digits with a decimal point between them, and a variable's name with its suffix.\<close>

datatype exp = E_DEC cstr | E_FIX cstr cstr | E_VAR cstr | E_PAREN exp | E_UN unop exp | E_BIN binop exp exp

fun op_level :: "binop \<Rightarrow> nat" where
  "op_level O_POW = 2"
| "op_level O_MUL = 3" | "op_level O_DIV = 3" | "op_level O_IDIV = 3" | "op_level O_MOD = 3"
| "op_level O_ADD = 4" | "op_level O_SUB = 4"
| "op_level O_SHL = 5" | "op_level O_SHR = 5"
| "op_level (O_CMP r) = 6"
| "op_level O_AND = 7" | "op_level O_OR = 7" | "op_level O_XOR = 7"

text \<open>All binary operators associate to the left, except that comparisons do not associate.\<close>

fun fits :: "nat \<Rightarrow> exp \<Rightarrow> bool" where
  "fits n (E_DEC ds) = True"
| "fits n (E_FIX a b) = True"
| "fits n (E_VAR x) = True"
| "fits n (E_PAREN e) = fits 7 e"
| "fits n (E_UN u e) = (1 \<le> n \<and> fits 1 e)"
| "fits n (E_BIN op a b) =
     (op_level op \<le> n \<and> fits (if op_level op = 6 then 5 else op_level op) a \<and> fits (op_level op - 1) b)"

section \<open>Text\<close>

fun rel_text :: "rel \<Rightarrow> cstr" where
  "rel_text EQ = [0x3D]" | "rel_text NE = [0x3C, 0x3E]" | "rel_text LT = [0x3C]" | "rel_text GT = [0x3E]"
| "rel_text LE = [0x3C, 0x3D]" | "rel_text GE = [0x3E, 0x3D]"

fun op_text :: "binop \<Rightarrow> cstr" where
  "op_text O_POW = [0x5E]"
| "op_text O_MUL = [0x2A]" | "op_text O_DIV = [0x2F]" | "op_text O_IDIV = [0x5C]" | "op_text O_MOD = [0x4D, 0x4F, 0x44]"
| "op_text O_ADD = [0x2B]" | "op_text O_SUB = [0x2D]"
| "op_text O_SHL = [0x3C, 0x3C]" | "op_text O_SHR = [0x3E, 0x3E]"
| "op_text (O_CMP r) = rel_text r"
| "op_text O_AND = [0x41, 0x4E, 0x44]" | "op_text O_OR = [0x4F, 0x52]" | "op_text O_XOR = [0x58, 0x4F, 0x52]"

fun unop_text :: "unop \<Rightarrow> cstr" where
  "unop_text U_NEG = [0x2D]" | "unop_text U_PLUS = [0x2B]"
| "unop_text U_NOT = [0x4E, 0x4F, 0x54, 0x20]" | "unop_text U_INV = [0x49, 0x4E, 0x56, 0x20]"

fun print_exp :: "exp \<Rightarrow> cstr" where
  "print_exp (E_DEC ds) = ds"
| "print_exp (E_FIX a b) = a @ 0x2E # b"
| "print_exp (E_VAR x) = x"
| "print_exp (E_PAREN e) = 0x28 # print_exp e @ [0x29]"
| "print_exp (E_UN u e) = unop_text u @ print_exp e"
| "print_exp (E_BIN op a b) = print_exp a @ 0x20 # op_text op @ 0x20 # print_exp b"

fun depth :: "exp \<Rightarrow> nat" where
  "depth (E_PAREN e) = Suc (depth e)"
| "depth (E_UN u e) = depth e"
| "depth (E_BIN op a b) = max (depth a) (depth b)"
| "depth _ = 0"

fun vars :: "exp \<Rightarrow> cstr set" where
  "vars (E_VAR x) = {x}"
| "vars (E_PAREN e) = vars e"
| "vars (E_UN u e) = vars e"
| "vars (E_BIN op a b) = vars a \<union> vars b"
| "vars _ = {}"

section \<open>Types and code\<close>

text \<open>Where a variable is and which type it has.\<close>

type_synonym scope_env = "cstr \<Rightarrow> scope \<times> u16 \<times> vty"

definition join :: "vty \<Rightarrow> vty \<Rightarrow> vty" where
  "join a b = (if a = TI \<and> b = TI then TI else TF)"

text \<open>The type in which an operator works, and the type of its result.\<close>

fun work_type :: "binop \<Rightarrow> vty \<Rightarrow> vty \<Rightarrow> vty" where
  "work_type O_POW a b = TF" | "work_type O_DIV a b = TF"
| "work_type O_MUL a b = join a b" | "work_type O_ADD a b = join a b" | "work_type O_SUB a b = join a b"
| "work_type (O_CMP r) a b = join a b"
| "work_type _ a b = TI"

definition result_type :: "binop \<Rightarrow> vty \<Rightarrow> vty \<Rightarrow> vty" where
  "result_type op a b = (case op of O_CMP r \<Rightarrow> TI | _ \<Rightarrow> work_type op a b)"

fun etype :: "scope_env \<Rightarrow> exp \<Rightarrow> vty" where
  "etype \<Gamma> (E_DEC ds) = TI"
| "etype \<Gamma> (E_FIX a b) = TF"
| "etype \<Gamma> (E_VAR x) = snd (snd (\<Gamma> x))"
| "etype \<Gamma> (E_PAREN e) = etype \<Gamma> e"
| "etype \<Gamma> (E_UN u e) = (if u = U_NOT \<or> u = U_INV then TI else etype \<Gamma> e)"
| "etype \<Gamma> (E_BIN op a b) = result_type op (etype \<Gamma> a) (etype \<Gamma> b)"

definition type_code :: "vty \<Rightarrow> u8" where
  "type_code t = (case t of TI \<Rightarrow> T_INT | TF \<Rightarrow> T_NBR | TS \<Rightarrow> T_STR)"

definition dec_value :: "cstr \<Rightarrow> i64" where
  "dec_value ds = word_of_int (min (2 ^ 63 - 1) (int (num_of 10 ds)))"

definition fix_value :: "cstr \<Rightarrow> cstr \<Rightarrow> f64" where
  "fix_value a b = f_round False (int (num_of 10 (a @ b)) * 2 ^ 1074) (10 ^ length b)"

definition cvt :: "vty \<Rightarrow> vty \<Rightarrow> instr list" where
  "cvt from to = (if from = to then [] else if to = TF then [I_CVT_I2F] else [I_CVT_F2I])"

fun op_instr :: "binop \<Rightarrow> vty \<Rightarrow> instr" where
  "op_instr O_POW t = I_BIN_F FPOW"
| "op_instr O_DIV t = I_BIN_F FDIV"
| "op_instr O_MUL t = (if t = TI then I_BIN_I MUL else I_BIN_F FMUL)"
| "op_instr O_ADD t = (if t = TI then I_BIN_I ADD else I_BIN_F FADD)"
| "op_instr O_SUB t = (if t = TI then I_BIN_I SUB else I_BIN_F FSUB)"
| "op_instr O_IDIV t = I_BIN_I IDIV" | "op_instr O_MOD t = I_BIN_I MOD"
| "op_instr O_SHL t = I_BIN_I SHL" | "op_instr O_SHR t = I_BIN_I SHR"
| "op_instr (O_CMP r) t = I_CMP t r"
| "op_instr O_AND t = I_BIN_I BAND" | "op_instr O_OR t = I_BIN_I BOR" | "op_instr O_XOR t = I_BIN_I BXOR"

text \<open>What the fusion of a product divided by a power of two sees through: parentheses and unary plus leave no code.\<close>

fun as_product :: "scope_env \<Rightarrow> exp \<Rightarrow> (exp \<times> exp) option" where
  "as_product \<Gamma> (E_PAREN e) = as_product \<Gamma> e"
| "as_product \<Gamma> (E_UN u e) = (if u = U_PLUS then as_product \<Gamma> e else None)"
| "as_product \<Gamma> (E_BIN op a b) = (if op = O_MUL \<and> join (etype \<Gamma> a) (etype \<Gamma> b) = TI then Some (a, b) else None)"
| "as_product \<Gamma> _ = None"

fun as_literal :: "exp \<Rightarrow> i64 option" where
  "as_literal (E_DEC ds) = Some (dec_value ds)"
| "as_literal (E_PAREN e) = as_literal e"
| "as_literal (E_UN u e) = (if u = U_PLUS then as_literal e else None)"
| "as_literal _ = None"

definition fuse_bits :: "int \<Rightarrow> scope_env \<Rightarrow> binop \<Rightarrow> exp \<Rightarrow> exp \<Rightarrow> nat option" where
  "fuse_bits lvl \<Gamma> op a b =
     (case as_literal b of
        Some v \<Rightarrow> if lvl \<ge> 1 \<and> op = O_IDIV \<and> as_product \<Gamma> a \<noteq> None \<and> source_power_of_two_bits_i64 v \<ge> 0
                  then Some (nat (source_power_of_two_bits_i64 v)) else None
      | None \<Rightarrow> None)"

definition is_load_i :: "instr \<Rightarrow> bool" where
  "is_load_i i = (case i of I_LOAD sc t n \<Rightarrow> t = TI | _ \<Rightarrow> False)"

text \<open>The fused code, from the code of the product: a square needs one load only.\<close>

definition fused :: "instr list \<Rightarrow> nat \<Rightarrow> instr list" where
  "fused ab bits =
     (if length ab = 2 \<and> ab ! 0 = ab ! 1 \<and> is_load_i (ab ! 0)
      then [ab ! 0, I_PUSH_INT (of_nat bits), I_MATH SQRDIV]
      else ab @ [I_PUSH_INT (of_nat bits), I_MATH MULDIV])"

fun comp :: "int \<Rightarrow> scope_env \<Rightarrow> exp \<Rightarrow> instr list" where
  "comp lvl \<Gamma> (E_DEC ds) = [I_PUSH_INT (dec_value ds)]"
| "comp lvl \<Gamma> (E_FIX a b) = [I_PUSH_FLT (fix_value a b)]"
| "comp lvl \<Gamma> (E_VAR x) = (case \<Gamma> x of (sc, slot, t) \<Rightarrow> [I_LOAD sc t slot])"
| "comp lvl \<Gamma> (E_PAREN e) = comp lvl \<Gamma> e"
| "comp lvl \<Gamma> (E_UN u e) = comp lvl \<Gamma> e @ (case u of
       U_PLUS \<Rightarrow> [] | U_NEG \<Rightarrow> [if etype \<Gamma> e = TI then I_NEG_I else I_NEG_F]
     | U_NOT \<Rightarrow> cvt (etype \<Gamma> e) TI @ [I_NOT] | U_INV \<Rightarrow> cvt (etype \<Gamma> e) TI @ [I_INV])"
| "comp lvl \<Gamma> (E_BIN op a b) =
     (case fuse_bits lvl \<Gamma> op a b of
        Some bits \<Rightarrow> fused (butlast (comp lvl \<Gamma> a)) bits
      | None \<Rightarrow>
          let t = work_type op (etype \<Gamma> a) (etype \<Gamma> b) in
          comp lvl \<Gamma> a @ cvt (etype \<Gamma> a) t @ comp lvl \<Gamma> b @ cvt (etype \<Gamma> b) t @ [op_instr op t])"

section \<open>Values\<close>

text \<open>\<open>Err\<close>: a BASIC error; \<open>Fault\<close>: a conversion, shift or division the C code leaves undefined.\<close>

type_synonym 'a valued = "(unit, 'a) outcome"

definition convert :: "vty \<Rightarrow> vty \<Rightarrow> u64 \<Rightarrow> u64 valued" where
  "convert from to v =
     (if from = to then Ok v else if to = TF then Ok (f_of_i64 v)
      else case f_round_half_away v of Some i \<Rightarrow> Ok i | None \<Rightarrow> Fault)"

definition divided :: "(u64 \<Rightarrow> u64 \<Rightarrow> u64) \<Rightarrow> u64 \<Rightarrow> u64 \<Rightarrow> u64 valued" where
  "divided f a b =
     (if b = 0 then Err ''Division by zero'' () else if sint a = - (2 ^ 63) \<and> sint b = -1 then Fault else Ok (f a b))"

definition shifted :: "(nat \<Rightarrow> u64 \<Rightarrow> u64) \<Rightarrow> u64 \<Rightarrow> u64 \<Rightarrow> u64 valued" where
  "shifted f a b = (if 0 \<le> sint b \<and> sint b < 64 then Ok (f (unat b) a) else Fault)"

fun binop_value :: "libm \<Rightarrow> binop \<Rightarrow> vty \<Rightarrow> u64 \<Rightarrow> u64 \<Rightarrow> u64 valued" where
  "binop_value m O_POW t a b = Ok (m_pow m a b)"
| "binop_value m O_DIV t a b = (if f_eq b (f_zero False) then Err ''Division by zero'' () else Ok (f_div a b))"
| "binop_value m O_MUL t a b = Ok (if t = TI then a * b else f_mul a b)"
| "binop_value m O_ADD t a b = Ok (if t = TI then a + b else f_add a b)"
| "binop_value m O_SUB t a b = Ok (if t = TI then a - b else f_sub a b)"
| "binop_value m O_IDIV t a b = divided sdiv64 a b"
| "binop_value m O_MOD t a b = divided smod64 a b"
| "binop_value m O_SHL t a b = shifted push_bit a b"
| "binop_value m O_SHR t a b = shifted drop_bit a b"
| "binop_value m (O_CMP r) t a b = Ok (bool_i64 (if t = TI then cmp_i r a b else cmp_f r a b))"
| "binop_value m O_AND t a b = Ok (a AND b)"
| "binop_value m O_OR t a b = Ok (a OR b)"
| "binop_value m O_XOR t a b = Ok (a XOR b)"

fun eval :: "libm \<Rightarrow> scope_env \<Rightarrow> (cstr \<Rightarrow> u64) \<Rightarrow> exp \<Rightarrow> u64 valued" where
  "eval m \<Gamma> \<rho> (E_DEC ds) = Ok (dec_value ds)"
| "eval m \<Gamma> \<rho> (E_FIX a b) = Ok (fix_value a b)"
| "eval m \<Gamma> \<rho> (E_VAR x) = Ok (\<rho> x)"
| "eval m \<Gamma> \<rho> (E_PAREN e) = eval m \<Gamma> \<rho> e"
| "eval m \<Gamma> \<rho> (E_UN u e) =
     bindO (eval m \<Gamma> \<rho> e) (\<lambda>v. case u of
         U_PLUS \<Rightarrow> Ok v | U_NEG \<Rightarrow> Ok (if etype \<Gamma> e = TI then - v else f_neg v)
       | U_NOT \<Rightarrow> bindO (convert (etype \<Gamma> e) TI v) (\<lambda>i. Ok (if i \<noteq> 0 then 0 else 1))
       | U_INV \<Rightarrow> bindO (convert (etype \<Gamma> e) TI v) (\<lambda>i. Ok (NOT i)))"
| "eval m \<Gamma> \<rho> (E_BIN op a b) =
     (let t = work_type op (etype \<Gamma> a) (etype \<Gamma> b) in
      bindO (eval m \<Gamma> \<rho> a) (\<lambda>x. bindO (convert (etype \<Gamma> a) t x) (\<lambda>x'.
        bindO (eval m \<Gamma> \<rho> b) (\<lambda>y. bindO (convert (etype \<Gamma> b) t y) (\<lambda>y'. binop_value m op t x' y')))))"

end
