(* ===== verification/ExprExec.thy ===== *)
theory ExprExec
  imports ExprSpec VmFrames
begin

text \<open>
  The machine executes the code of an expression to its value: by induction on the tree, the code of
  \<open>e\<close> either pushes \<open>eval e\<close> with its type and touches nothing else, or ends in the same BASIC error,
  or in the same undefined operation of the C code. First for instructions run one after the other
  (\<open>straight\<close>), then for the dispatch loop on code laid out in memory.
\<close>

section \<open>One value on the stack\<close>

definition agrees :: "vm \<Rightarrow> vm \<Rightarrow> bool" where
  "agrees s s' \<longleftrightarrow> (\<forall>k \<le> sp s. stack s' k = stack s k \<and> stack_types s' k = stack_types s k)"

definition off_stack :: "vm \<Rightarrow> vm" where
  "off_stack s = s\<lparr>sp := 0, stack := (\<lambda>_. 0), stack_types := (\<lambda>_. 0)\<rparr>"

definition pushes :: "vm \<Rightarrow> vm \<Rightarrow> u8 \<Rightarrow> u64 \<Rightarrow> bool" where
  "pushes s s' t v \<longleftrightarrow> agrees s s' \<and> sp s' = sp s + 1 \<and> stack s' (sp s + 1) = v \<and> stack_types s' (sp s + 1) = t \<and>
     off_stack s' = off_stack s"

fun straight :: "libm \<Rightarrow> instr list \<Rightarrow> vm \<Rightarrow> vm res" where
  "straight m [] s = Ok s"
| "straight m (i # is) s = (case exec m i s of None \<Rightarrow> Fault | Some r \<Rightarrow> bindO r (straight m is))"

lemma straight_append: "straight m (a @ b) s = bindO (straight m a s) (straight m b)"
  by (induction a arbitrary: s) (auto simp: bindO_assoc fun_eq_iff intro!: arg_cong [of _ _ "bindO _"] split: option.splits)

definition reads :: "vm \<Rightarrow> scope \<Rightarrow> u16 \<Rightarrow> u64 \<Rightarrow> bool" where
  "reads s sc slot v =
     (case sc of
        Global \<Rightarrow> get_cell s (CGlobal (unat slot)) = Ok v
      | Local \<Rightarrow> bindO (bc_vm_local_cell s (frame_base s + int (unat slot))) (\<lambda>(c, lt). get_cell s c) = Ok v)"

lemma pushes_sp: "pushes s s' t v \<Longrightarrow> sp s' = sp s + 1"
  by (auto simp: pushes_def)

lemma push_pushes:
  assumes "-1 \<le> sp s" "sp s + 1 < VM_STACK_SIZE"
  shows "\<exists>s'. push t v s = Ok s' \<and> pushes s s' t v"
  using assms by (auto simp: push_def pushes_def agrees_def off_stack_def)

lemma top_of:
  assumes "pushes s s' t v" "-1 \<le> sp s" "sp s + 1 < VM_STACK_SIZE"
  shows "TOS s' = Ok v" "TOS_type s' = Ok t" "\<exists>s''. set_TOS w s' = Ok s'' \<and> pushes s s'' t w"
    "\<exists>s''. set_TOS_type u s' = Ok s'' \<and> pushes s s'' u v"
  using assms by (auto simp: TOS_def TOS_type_def set_TOS_def set_TOS_type_def pushes_def agrees_def off_stack_def)

lemma pop_of:
  assumes "pushes s s' t v" "-1 \<le> sp s" "sp s + 1 < VM_STACK_SIZE"
  shows "POP s' = Ok (v, s'\<lparr>sp := sp s\<rparr>)"
  using assms by (auto simp: POP_def pushes_def)

text \<open>Two operands on the stack: after the upper one is popped the lower one is on top again.\<close>

lemma under_top:
  assumes "pushes s s1 ta x" "pushes s1 s2 tb y"
  shows "pushes s (s2\<lparr>sp := sp s1\<rparr>) ta x"
  using assms by (auto simp: pushes_def agrees_def off_stack_def)
lemma off_stack_fields:
  assumes "off_stack s' = off_stack s"
  shows "globals s' = globals s" "locals s' = locals s" "local_ref_val s' = local_ref_val s" "local_ref_typ s' = local_ref_typ s"
    "frame_base s' = frame_base s" "bytecode s' = bytecode s" "current_line s' = current_line s" "rd_byte s' a = rd_byte s a"
proof -
  have "\<And>f. f (off_stack s') = f (off_stack s)" using assms by simp
  note f = this
  show "globals s' = globals s" using f [of globals] by (simp add: off_stack_def)
  show "locals s' = locals s" using f [of locals] by (simp add: off_stack_def)
  show "local_ref_val s' = local_ref_val s" using f [of local_ref_val] by (simp add: off_stack_def)
  show "local_ref_typ s' = local_ref_typ s" using f [of local_ref_typ] by (simp add: off_stack_def)
  show "frame_base s' = frame_base s" using f [of frame_base] by (simp add: off_stack_def)
  show "bytecode s' = bytecode s" using f [of bytecode] by (simp add: off_stack_def)
  show "current_line s' = current_line s" using f [of current_line] by (simp add: off_stack_def)
  have "heap s' = heap s" using f [of heap] by (simp add: off_stack_def)
  moreover have "empty_byte s' = empty_byte s" using f [of empty_byte] by (simp add: off_stack_def)
  moreover have "str_temp s' = str_temp s" using f [of str_temp] by (simp add: off_stack_def)
  ultimately show "rd_byte s' a = rd_byte s a" by (simp add: rd_byte_def in_heap_def)
qed

lemma reads_cong:
  assumes "off_stack s' = off_stack s"
  shows "reads s' sc slot v = reads s sc slot v"
proof -
  note f = off_stack_fields [OF assms]
  have h: "rd_bytes rd_byte s' a n = rd_bytes rd_byte s a n" for a n 
    by (induction n arbitrary: a) (auto simp: f split: option.split)
  have g: "get_cell s' c = get_cell s c" for c by (auto simp: get_cell_def rd64_def f h split: cell.splits)
  show ?thesis by (cases sc) (auto simp: reads_def g f bc_vm_local_cell_def split: if_splits option.splits)
qed

definition valued_as :: "vm res \<Rightarrow> vm \<Rightarrow> u8 \<Rightarrow> u64 valued \<Rightarrow> bool" where
  "valued_as r s t w =
     (case w of
        Ok v \<Rightarrow> \<exists>s'. r = Ok s' \<and> pushes s s' t v
      | Err e u \<Rightarrow> \<exists>s1. r = bc_vm_error s1 e \<and> off_stack s1 = off_stack s
      | Fault \<Rightarrow> r = Fault)"

lemma valued_bind:
  assumes "valued_as r b t w" "off_stack b = off_stack s"
    and "\<And>v s'. w = Ok v \<Longrightarrow> pushes b s' t v \<Longrightarrow> valued_as (f s') s t2 (g v)"
  shows "valued_as (bindO r f) s t2 (bindO w g)"
proof (cases w)
  case (Ok v)
  then obtain s' where "r = Ok s'" "pushes b s' t v" using assms(1) by (auto simp: valued_as_def)
  then show ?thesis using assms(3) [OF Ok] Ok by simp
qed (use assms(1,2) in \<open>auto simp: valued_as_def\<close>)

lemma pushes_off: "pushes s s' t v \<Longrightarrow> off_stack s' = off_stack s"
  by (simp add: pushes_def)

lemma pushes_trans_off: "pushes s s' t v \<Longrightarrow> off_stack s = off_stack b \<Longrightarrow> off_stack s' = off_stack b"
  by (simp add: pushes_def)

lemma valued_OkI: "r = Ok s' \<Longrightarrow> pushes s s' t v \<Longrightarrow> valued_as r s t (Ok v)"
  by (simp add: valued_as_def)

abbreviation room :: "vm \<Rightarrow> int \<Rightarrow> bool" where
  "room s n \<equiv> -1 \<le> sp s \<and> sp s + n < VM_STACK_SIZE"

lemma valued_push: "room s 1 \<Longrightarrow> valued_as (push t v s) s t (Ok v)"
  using push_pushes [of s t v] by (auto simp: valued_as_def)

lemma bindO_right [simp]: "bindO r Ok = r"
  by (cases r) auto

lemma straight_nil [simp]: "straight m [] = Ok"
  by (rule ext) simp

section \<open>Conversions and operators\<close>

lemma cvt_exec:
  assumes "pushes s s1 (type_code from) x" "room s 1" "from \<in> {TI, TF}" "to \<in> {TI, TF}"
  shows "valued_as (straight m (cvt from to) s1) s (type_code to) (convert from to x)"
proof -
  note r = assms(2) [THEN conjunct1] assms(2) [THEN conjunct2]
  note top = top_of [OF assms(1) r]
  obtain s2 where s2: "set_TOS (f_of_i64 x) s1 = Ok s2" "pushes s s2 (type_code from) (f_of_i64 x)" using top(3) by blast
  obtain s3 where s3: "set_TOS_type T_NBR s2 = Ok s3" "pushes s s3 T_NBR (f_of_i64 x)" using top_of(4) [OF s2(2) r] by blast
  show ?thesis
  proof (cases "from = to")
    case True
    then show ?thesis using assms(1) by (simp add: cvt_def convert_def valued_as_def)
  next
    case False
    show ?thesis
    proof (cases "to = TF")
      case True
      then show ?thesis using False s2(1) s3 top(1)
        by (simp add: cvt_def convert_def valued_as_def exec_def op_cvt_i2f_def type_code_def)
    next
      case F: False
      then have ft: "from = TF" "to = TI" using False assms(3,4) by auto
      show ?thesis
      proof (cases "f_round_half_away x")
        case None
        then show ?thesis using ft top(1) by (simp add: cvt_def convert_def valued_as_def exec_def op_cvt_f2i_def of_opt_def)
      next
        case (Some i)
        obtain s4 where s4: "set_TOS i s1 = Ok s4" "pushes s s4 (type_code from) i" using top(3) by blast
        obtain s5 where s5: "set_TOS_type T_INT s4 = Ok s5" "pushes s s5 T_INT i" using top_of(4) [OF s4(2) r] by blast
        show ?thesis using ft top(1) Some s4(1) s5
          by (simp add: cvt_def convert_def valued_as_def exec_def op_cvt_f2i_def of_opt_def type_code_def)
      qed
    qed
  qed
qed
lemma repush:
  assumes "pushes s s1 ta x" "room s 1"
  shows "\<exists>s2. push t v (s1\<lparr>sp := sp s\<rparr>) = Ok s2 \<and> pushes s s2 t v"
  using assms by (auto simp: push_def pushes_def agrees_def off_stack_def)

lemma set_top:
  assumes "pushes s s1 t x" "room s 1"
  shows "valued_as (set_TOS v s1) s t (Ok v)"
  using top_of(3) [OF assms(1)] assms(2) by (auto simp: valued_as_def)

lemma op_exec:
  assumes p1: "pushes s s1 (type_code t) x" and p2: "pushes s1 s2 (type_code t) y" and r: "room s 2"
    and t: "t \<in> {TI, TF}" "work_type op ta tb = t"
  shows "valued_as (straight m [op_instr op t] s2) s (type_code (result_type op ta tb)) (binop_value m op t x y)"
proof -
  have r1: "-1 \<le> sp s" "sp s + 1 < VM_STACK_SIZE" "-1 \<le> sp s1" "sp s1 + 1 < VM_STACK_SIZE"
    using r pushes_sp [OF p1] by simp_all
  let ?s3 = "s2\<lparr>sp := sp s1\<rparr>"
  have p3: "pushes s ?s3 (type_code t) x" by (rule under_top [OF p1 p2])
  note pop = pop_of [OF p2 r1(3,4)] and top = top_of(1) [OF p3 r1(1,2)]
  have o3: "off_stack ?s3 = off_stack s" by (rule pushes_off [OF p3])
  have ty: "type_code (result_type op ta tb) = (case op of O_CMP r \<Rightarrow> T_INT | _ \<Rightarrow> type_code t)"
    using t(2) by (cases op) (simp_all add: result_type_def type_code_def)
  have st: "valued_as (set_TOS v ?s3) s (type_code t) (Ok v)" for v
    using set_top [OF p3, of v] r1 by simp
  have int: "valued_as (op_bin_i f s2) s (type_code t) w" if "int_op f x y ?s3 = (case w of Ok v \<Rightarrow> Ok v | Err e u \<Rightarrow> bc_vm_error ?s3 e | Fault \<Rightarrow> Fault)" for f w
    using that st o3 by (cases w) (auto simp: op_bin_i_def pop top valued_as_def)
  have flt: "valued_as (op_bin_f m f s2) s (type_code t) w" if "flt_op m f x y ?s3 = (case w of Ok v \<Rightarrow> Ok v | Err e u \<Rightarrow> bc_vm_error ?s3 e | Fault \<Rightarrow> Fault)" for f w
    using that st o3 by (cases w) (auto simp: op_bin_f_def pop top valued_as_def)
  have cmp: "valued_as (op_cmp t r s2) s T_INT (Ok (bool_i64 (if t = TI then cmp_i r x y else cmp_f r x y)))" for r
  proof (cases "t = TI")
    case True
    then show ?thesis using st by (simp add: op_cmp_def op_cmp_i_def pop top type_code_def)
  next
    case False
    then have "t = TF" using t by simp
    moreover have "POP ?s3 = Ok (x, ?s3\<lparr>sp := sp s\<rparr>)" by (rule pop_of [OF p3 r1(1,2)])
    ultimately show ?thesis using repush [OF p3, of T_INT "bool_i64 (cmp_f r x y)"] r1
      by (auto simp: op_cmp_def op_cmp_f_def pop PUSH_I_def valued_as_def)
  qed
  have intI: "t = TI \<Longrightarrow> int_op f x y ?s3 = (case w of Ok v \<Rightarrow> Ok v | Err e u \<Rightarrow> bc_vm_error ?s3 e | Fault \<Rightarrow> Fault) \<Longrightarrow>
      valued_as (op_bin_i f s2) s T_INT w" for f w using int [of f w] by (simp add: type_code_def)
  have fltI: "t = TF \<Longrightarrow> flt_op m f x y ?s3 = (case w of Ok v \<Rightarrow> Ok v | Err e u \<Rightarrow> bc_vm_error ?s3 e | Fault \<Rightarrow> Fault) \<Longrightarrow>
      valued_as (op_bin_f m f s2) s T_NBR w" for f w using flt [of f w] by (simp add: type_code_def)
  have cmpI: "t = TI \<Longrightarrow> valued_as (op_cmp TI r s2) s T_INT (Ok (bool_i64 (cmp_i r x y)))"
    "t = TF \<Longrightarrow> valued_as (op_cmp TF r s2) s T_INT (Ok (bool_i64 (cmp_f r x y)))" for r using cmp [of r] by auto
  show ?thesis
    unfolding ty using t
    by (cases op)
     (auto simp: exec_def int_op_def flt_op_def divided_def shifted_def int_div_ok_def shift_ok_def vm_mul_i_wrap_def F0_def f_zero_def f_pack_def
        join_def type_code_def intro!: intI fltI cmpI split: if_splits)
qed
section \<open>The code computes the value\<close>

fun stack_need :: "exp \<Rightarrow> int" where
  "stack_need (E_PAREN e) = stack_need e"
| "stack_need (E_UN u e) = stack_need e"
| "stack_need (E_BIN op a b) = max (stack_need a) ((if op = O_IDIV then 2 else 1) + stack_need b)"
| "stack_need _ = 1"

lemma stack_need_pos: "1 \<le> stack_need e"
  by (induction e) auto

lemma comp_nonempty [simp]: "comp lvl \<Gamma> e \<noteq> []"
  by (induction e) (auto simp: fused_def Let_def split: prod.split option.split)

lemma fuse_bits_Some:
  assumes "fuse_bits lvl \<Gamma> op a b = Some n"
  shows "op = O_IDIV" "\<exists>x y. as_product \<Gamma> a = Some (x, y)" "\<exists>w. as_literal b = Some w \<and> source_power_of_two_bits_i64 w = int n"
  using assms by (auto simp: fuse_bits_def split: option.splits if_splits)

lemma as_product_spec:
  assumes "as_product \<Gamma> a = Some (x, y)"
  shows "comp lvl \<Gamma> a = comp lvl \<Gamma> x @ comp lvl \<Gamma> y @ [I_BIN_I MUL]" "etype \<Gamma> x = TI" "etype \<Gamma> y = TI" "etype \<Gamma> a = TI"
    "eval m \<Gamma> \<rho> a = bindO (eval m \<Gamma> \<rho> x) (\<lambda>u. bindO (eval m \<Gamma> \<rho> y) (\<lambda>v. Ok (u * v)))"
    "vars a = vars x \<union> vars y" "stack_need a = max (stack_need x) (1 + stack_need y)"
proof -
  have "comp lvl \<Gamma> a = comp lvl \<Gamma> x @ comp lvl \<Gamma> y @ [I_BIN_I MUL] \<and> etype \<Gamma> x = TI \<and> etype \<Gamma> y = TI \<and> etype \<Gamma> a = TI \<and>
    eval m \<Gamma> \<rho> a = bindO (eval m \<Gamma> \<rho> x) (\<lambda>u. bindO (eval m \<Gamma> \<rho> y) (\<lambda>v. Ok (u * v))) \<and>
    vars a = vars x \<union> vars y \<and> stack_need a = max (stack_need x) (1 + stack_need y)"
    using assms
  proof (induction a)
    case (E_UN u e)
    then show ?case by (cases "eval m \<Gamma> \<rho> e") (auto split: if_splits)
  next
    case (E_BIN op a b)
    then have o: "op = O_MUL" "x = a" "y = b" "etype \<Gamma> a = TI" "etype \<Gamma> b = TI" by (auto simp: join_def split: if_splits)
    have f: "fuse_bits lvl \<Gamma> O_MUL a b = None" by (auto simp: fuse_bits_def split: option.split)
    show ?case using o f by (simp add: join_def cvt_def convert_def result_type_def)
  qed auto
  then show "comp lvl \<Gamma> a = comp lvl \<Gamma> x @ comp lvl \<Gamma> y @ [I_BIN_I MUL]" "etype \<Gamma> x = TI" "etype \<Gamma> y = TI" "etype \<Gamma> a = TI"
    "eval m \<Gamma> \<rho> a = bindO (eval m \<Gamma> \<rho> x) (\<lambda>u. bindO (eval m \<Gamma> \<rho> y) (\<lambda>v. Ok (u * v)))"
    "vars a = vars x \<union> vars y" "stack_need a = max (stack_need x) (1 + stack_need y)" by simp_all
qed

lemma as_literal_spec:
  assumes "as_literal b = Some w"
  shows "eval m \<Gamma> \<rho> b = Ok w \<and> etype \<Gamma> b = TI \<and> comp lvl \<Gamma> b = [I_PUSH_INT w] \<and> stack_need b = 1"
  using assms by (induction b) (auto split: if_splits)

lemma load_only:
  assumes "comp lvl \<Gamma> e = [I_LOAD sc TI n]"
  shows "\<exists>x \<in> vars e. \<Gamma> x = (sc, n, TI) \<and> eval m \<Gamma> \<rho> e = Ok (\<rho> x)"
  using assms
proof (induction e)
  case (E_UN u e)
  then show ?case by (cases u) (auto simp: append_eq_Cons_conv cvt_def split: if_splits)
next
  case (E_BIN op a b)
  have "op_instr op t \<noteq> I_LOAD sc TI n" for t by (cases op) auto
  then show ?case using E_BIN.prems by (auto simp: fused_def Let_def append_eq_Cons_conv is_load_i_def split: option.splits if_splits)
qed (auto split: prod.splits)

lemma pow2_loop_power:
  assumes "pow2_loop k v b \<noteq> -1" "0 \<le> b" "0 < v"
  shows "\<exists>j \<le> k. v = 2 ^ j \<and> pow2_loop k v b = b + int j"
  using assms
proof (induction k v b rule: pow2_loop.induct)
  case (2 k v b)
  show ?case
  proof (cases "even v")
    case True
    then obtain j where j: "j \<le> k" "v div 2 = 2 ^ j" "pow2_loop k (v div 2) (b + 1) = b + 1 + int j"
      using 2 by fastforce
    then have "v = 2 ^ Suc j" using True by auto
    then show ?thesis using True j by (intro exI [of _ "Suc j"]) simp
  qed (use 2 in \<open>auto split: if_splits intro: exI [of _ 0]\<close>)
qed (auto split: if_splits)

lemma sint_eq_unat:
  fixes w :: i64
  assumes "0 \<le> sint w"
  shows "sint w = int (unat w)"
proof -
  have "sint w < 2 ^ 63" using sint_lt [of w] by simp
  then show ?thesis using assms uint_sint [of w] by (simp add: take_bit_int_eq_self)
qed

lemma power_bits:
  assumes "source_power_of_two_bits_i64 w = int n"
  shows "n \<le> 62" "w = push_bit n 1" "0 < sint w" "sint w = 2 ^ n"
proof -
  have p: "0 < sint w" and l: "pow2_loop 63 (unat w) 0 = int n"
    using assms by (auto simp: source_power_of_two_bits_i64_def split: if_splits)
  have s: "sint w = int (unat w)" by (rule sint_eq_unat) (use p in simp)
  obtain j where j: "unat w = 2 ^ j" "int n = int j"
    using pow2_loop_power [of 63 "unat w" 0] l s p by auto
  have "sint w < 2 ^ 63" using sint_lt [of w] by simp
  then have "(2 :: int) ^ n < 2 ^ 63" using s j by simp
  then have "n < 63" by (rule power_less_imp_less_exp [rotated]) simp
  then show "n \<le> 62" by simp
  show "w = push_bit n 1" proof -
    have "w = of_nat (unat w)" by simp
    then show ?thesis using j by (simp add: push_bit_eq_mult)
  qed
  show "0 < sint w" by (rule p)
  show "sint w = 2 ^ n" using s j by simp
qed
definition well_typed :: "scope_env \<Rightarrow> exp \<Rightarrow> bool" where
  "well_typed \<Gamma> e \<longleftrightarrow> (\<forall>x \<in> vars e. snd (snd (\<Gamma> x)) \<in> {TI, TF})"

definition bound :: "scope_env \<Rightarrow> (cstr \<Rightarrow> u64) \<Rightarrow> vm \<Rightarrow> exp \<Rightarrow> bool" where
  "bound \<Gamma> \<rho> s e \<longleftrightarrow> (\<forall>x \<in> vars e. reads s (fst (\<Gamma> x)) (fst (snd (\<Gamma> x))) (\<rho> x))"

lemma work_numeric: "work_type op a b \<in> {TI, TF}"
  by (cases op) (auto simp: join_def)

lemma etype_numeric: "well_typed \<Gamma> e \<Longrightarrow> etype \<Gamma> e \<in> {TI, TF}"
proof (induction e)
  case (E_BIN op a b)
  then show ?case using work_numeric [of op "etype \<Gamma> a" "etype \<Gamma> b"] by (auto simp: result_type_def split: binop.split)
qed (auto simp: well_typed_def)

lemma bound_cong:
  assumes "off_stack s' = off_stack s"
  shows "bound \<Gamma> \<rho> s' e = bound \<Gamma> \<rho> s e"
  by (simp add: bound_def reads_cong [OF assms])

lemma load_exec:
  assumes "reads s sc slot v" "t \<in> {TI, TF}" "room s 1"
  shows "valued_as (straight m [I_LOAD sc t slot] s) s (type_code t) (Ok v)"
proof -
  have "exec m (I_LOAD sc t slot) s = Some (push (type_code t) v s)"
    using assms(1,2) by (cases sc; auto simp: exec_def op_load_def op_load_local_def reads_def type_code_def PUSH_I_def PUSH_F_def)
  then show ?thesis using valued_push [OF assms(3)] by simp
qed

text \<open>A fused product: the two factors are on the stack, or one that is to be squared.\<close>

lemma muldiv_value:
  assumes "source_power_of_two_bits_i64 w = int n"
  shows "vm_muldiv_pow2 s a b (int n) = Ok (sdiv64 (a * b) w)" "divided sdiv64 (a * b) w = Ok (sdiv64 (a * b) w)"
    "sint (ucast (of_nat n :: i64) :: u32) = int n"
proof -
  note p = power_bits [OF assms]
  show "vm_muldiv_pow2 s a b (int n) = Ok (sdiv64 (a * b) w)" using p(1,2) by (simp add: vm_muldiv_pow2_def vm_mul_i_wrap_def)
  have "w \<noteq> 0" "sint w \<noteq> -1" using p(3) by auto
  then show "divided sdiv64 (a * b) w = Ok (sdiv64 (a * b) w)" by (simp add: divided_def)
  have "take_bit 64 n = n" using p(1) by (intro take_bit_nat_eq_self) (rule less_le_trans [of _ "2 ^ 6"], simp_all)
  then have "(ucast (of_nat n :: i64) :: u32) = of_nat n" by (simp add: unsigned_of_nat)
  moreover have "sint (of_nat n :: u32) = int n" using p(1) by (simp add: signed_of_nat signed_take_bit_int_eq_self)
  ultimately show "sint (ucast (of_nat n :: i64) :: u32) = int n" by simp
qed

lemma pop_int:
  assumes "pushes s s' T_INT v" "room s 1"
  shows "POP_NUMERIC_I s' = Ok (v, s'\<lparr>sp := sp s\<rparr>)"
  using top_of(2) [OF assms(1)] pop_of [OF assms(1)] pushes_sp [OF assms(1)] assms(2)
  by (auto simp: POP_NUMERIC_I_def T_INT_def T_NBR_def)

lemma muldiv_exec:
  assumes "pushes s s1 T_INT x" "pushes s1 s2 T_INT y" "room s 3" "source_power_of_two_bits_i64 w = int n"
  shows "valued_as (straight m [I_PUSH_INT (of_nat n), I_MATH MULDIV] s2) s T_INT (Ok (sdiv64 (x * y) w))"
proof -
  have r: "room s 1" "room s1 1" "room s2 1" using assms(3) pushes_sp [OF assms(1)] pushes_sp [OF assms(2)] by simp_all
  obtain s3 where s3: "push T_INT (of_nat n) s2 = Ok s3" "pushes s2 s3 T_INT (of_nat n)" using push_pushes r(3) by blast
  have p2: "pushes s1 (s3\<lparr>sp := sp s2\<rparr>) T_INT y" by (rule under_top [OF assms(2) s3(2)])
  have p1: "pushes s (s3\<lparr>sp := sp s1\<rparr>) T_INT x" using under_top [OF assms(1) p2] by simp
  note b = pop_int [OF s3(2) r(3)] pop_int [OF p2 r(2)] pop_int [OF p1 r(1)]
  obtain s4 where "push T_INT (sdiv64 (x * y) w) (s3\<lparr>sp := sp s\<rparr>) = Ok s4" "pushes s s4 T_INT (sdiv64 (x * y) w)"
    using repush [OF p1 r(1)] by auto
  then show ?thesis
    using s3(1) b
    by (simp add: muldiv_value [OF assms(4)] exec_def exec_math_def op_math_muldiv_def pop_bits_def PUSH_I_def valued_as_def)
qed

lemma sqrdiv_exec:
  assumes "pushes s s1 T_INT x" "room s 2" "source_power_of_two_bits_i64 w = int n"
  shows "valued_as (straight m [I_PUSH_INT (of_nat n), I_MATH SQRDIV] s1) s T_INT (Ok (sdiv64 (x * x) w))"
proof -
  have r: "room s 1" "room s1 1" using assms(2) pushes_sp [OF assms(1)] by simp_all
  obtain s3 where s3: "push T_INT (of_nat n) s1 = Ok s3" "pushes s1 s3 T_INT (of_nat n)" using push_pushes r(2) by blast
  have p1: "pushes s (s3\<lparr>sp := sp s1\<rparr>) T_INT x" by (rule under_top [OF assms(1) s3(2)])
  note b = pop_int [OF s3(2) r(2)] pop_int [OF p1 r(1)]
  obtain s4 where "push T_INT (sdiv64 (x * x) w) (s3\<lparr>sp := sp s\<rparr>) = Ok s4" "pushes s s4 T_INT (sdiv64 (x * x) w)"
    using repush [OF p1 r(1)] by auto
  then show ?thesis
    using s3(1) b
    by (simp add: muldiv_value [OF assms(3)] exec_def exec_math_def op_math_sqrdiv_def pop_bits_def PUSH_I_def valued_as_def)
qed
lemma straight_append_fun: "straight m (a @ b) = (\<lambda>s. bindO (straight m a s) (straight m b))"
  by (rule ext) (rule straight_append)

definition computes :: "libm \<Rightarrow> int \<Rightarrow> scope_env \<Rightarrow> (cstr \<Rightarrow> u64) \<Rightarrow> exp \<Rightarrow> bool" where
  "computes m lvl \<Gamma> \<rho> e \<longleftrightarrow>
     (\<forall>s. bound \<Gamma> \<rho> s e \<longrightarrow> room s (stack_need e) \<longrightarrow>
        valued_as (straight m (comp lvl \<Gamma> e) s) s (type_code (etype \<Gamma> e)) (eval m \<Gamma> \<rho> e))"

lemma computesD:
  assumes "computes m lvl \<Gamma> \<rho> e" "bound \<Gamma> \<rho> s0 e" "off_stack s = off_stack s0" "room s (stack_need e)"
  shows "valued_as (straight m (comp lvl \<Gamma> e) s) s (type_code (etype \<Gamma> e)) (eval m \<Gamma> \<rho> e)"
  using assms bound_cong [OF assms(3)] by (simp add: computes_def)

lemma computes_plain:
  assumes "computes m lvl \<Gamma> \<rho> a" "computes m lvl \<Gamma> \<rho> b" "well_typed \<Gamma> a" "well_typed \<Gamma> b"
    and "fuse_bits lvl \<Gamma> op a b = None"
  shows "computes m lvl \<Gamma> \<rho> (E_BIN op a b)"
  unfolding computes_def
proof (intro allI impI)
  fix s assume bd: "bound \<Gamma> \<rho> s (E_BIN op a b)" and rm: "room s (stack_need (E_BIN op a b))"
  let ?t = "work_type op (etype \<Gamma> a) (etype \<Gamma> b)"
  have bd': "bound \<Gamma> \<rho> s a" "bound \<Gamma> \<rho> s b" using bd by (auto simp: bound_def)
  have rm': "room s (stack_need a)" "room s 1" "room s 2" "sp s + 1 + stack_need b < VM_STACK_SIZE"
    using rm stack_need_pos [of a] stack_need_pos [of b] by (auto split: if_splits)
  note ty = etype_numeric [OF assms(3)] etype_numeric [OF assms(4)] work_numeric [of op "etype \<Gamma> a" "etype \<Gamma> b"]
  have eq: "straight m (comp lvl \<Gamma> (E_BIN op a b)) s =
      bindO (straight m (comp lvl \<Gamma> a) s) (\<lambda>s1. bindO (straight m (cvt (etype \<Gamma> a) ?t) s1) (\<lambda>s2.
        bindO (straight m (comp lvl \<Gamma> b) s2) (\<lambda>s3. bindO (straight m (cvt (etype \<Gamma> b) ?t) s3) (straight m [op_instr op ?t]))))"
    using assms(5) by (simp add: Let_def straight_append_fun bindO_assoc del: straight.simps)
  show "valued_as (straight m (comp lvl \<Gamma> (E_BIN op a b)) s) s (type_code (etype \<Gamma> (E_BIN op a b))) (eval m \<Gamma> \<rho> (E_BIN op a b))"
    unfolding eq eval.simps Let_def
  proof (rule valued_bind [OF computesD [OF assms(1) bd'(1) refl rm'(1)] refl])
    fix x s1 assume s1: "pushes s s1 (type_code (etype \<Gamma> a)) x"
    show "valued_as (bindO (straight m (cvt (etype \<Gamma> a) ?t) s1) (\<lambda>s2. bindO (straight m (comp lvl \<Gamma> b) s2) (\<lambda>s3.
            bindO (straight m (cvt (etype \<Gamma> b) ?t) s3) (straight m [op_instr op ?t])))) s (type_code (etype \<Gamma> (E_BIN op a b)))
          (bindO (convert (etype \<Gamma> a) ?t x) (\<lambda>x'. bindO (eval m \<Gamma> \<rho> b) (\<lambda>y. bindO (convert (etype \<Gamma> b) ?t y) (binop_value m op ?t x'))))"
    proof (rule valued_bind [OF cvt_exec [OF s1 rm'(2) ty(1,3)] refl])
      fix x' s2 assume s2: "pushes s s2 (type_code ?t) x'"
      have o2: "off_stack s2 = off_stack s" and p2: "sp s2 = sp s + 1" using pushes_off [OF s2] pushes_sp [OF s2] by simp_all
      have rm2: "room s2 (stack_need b)" "room s2 1" using rm'(3,4) p2 stack_need_pos [of b] by simp_all
      show "valued_as (bindO (straight m (comp lvl \<Gamma> b) s2) (\<lambda>s3. bindO (straight m (cvt (etype \<Gamma> b) ?t) s3) (straight m [op_instr op ?t])))
          s (type_code (etype \<Gamma> (E_BIN op a b))) (bindO (eval m \<Gamma> \<rho> b) (\<lambda>y. bindO (convert (etype \<Gamma> b) ?t y) (binop_value m op ?t x')))"
      proof (rule valued_bind [OF computesD [OF assms(2) bd'(2) o2 rm2(1)] o2])
        fix y s3 assume s3: "pushes s2 s3 (type_code (etype \<Gamma> b)) y"
        show "valued_as (bindO (straight m (cvt (etype \<Gamma> b) ?t) s3) (straight m [op_instr op ?t])) s
            (type_code (etype \<Gamma> (E_BIN op a b))) (bindO (convert (etype \<Gamma> b) ?t y) (binop_value m op ?t x'))"
        proof (rule valued_bind [OF cvt_exec [OF s3 rm2(2) ty(2,3)] o2])
          fix y' s4 assume s4: "pushes s2 s4 (type_code ?t) y'"
          show "valued_as (straight m [op_instr op ?t] s4) s (type_code (etype \<Gamma> (E_BIN op a b))) (binop_value m op ?t x' y')"
            using op_exec [OF s2 s4 rm'(3) ty(3) refl] by simp
        qed
      qed
    qed
  qed
qed

lemma computes_fused:
  assumes ia: "\<And>x y. as_product \<Gamma> a = Some (x, y) \<Longrightarrow> computes m lvl \<Gamma> \<rho> x \<and> computes m lvl \<Gamma> \<rho> y"
    and f: "fuse_bits lvl \<Gamma> op a b = Some n"
  shows "computes m lvl \<Gamma> \<rho> (E_BIN op a b)"
proof -
  obtain x y w where op: "op = O_IDIV" and xy: "as_product \<Gamma> a = Some (x, y)" and w: "as_literal b = Some w"
    and n: "source_power_of_two_bits_i64 w = int n" using fuse_bits_Some [OF f] by blast
  note p = as_product_spec [OF xy] and l = as_literal_spec [OF w] and c = ia [OF xy, THEN conjunct1] ia [OF xy, THEN conjunct2]
  have code: "comp lvl \<Gamma> (E_BIN op a b) = fused (comp lvl \<Gamma> x @ comp lvl \<Gamma> y) n"
    using f p(1) [of lvl] by (simp add: butlast_append)
  have val: "eval m \<Gamma> \<rho> (E_BIN op a b) = bindO (eval m \<Gamma> \<rho> x) (\<lambda>u. bindO (eval m \<Gamma> \<rho> y) (\<lambda>v. Ok (sdiv64 (u * v) w)))"
    unfolding eval.simps op p(5) using l p(4) muldiv_value(2) [OF n]
    by (simp add: convert_def bindO_assoc)
  have ty: "etype \<Gamma> (E_BIN op a b) = TI" by (simp add: op result_type_def)
  show ?thesis
    unfolding computes_def code val ty
  proof (intro allI impI)
    fix s assume bd: "bound \<Gamma> \<rho> s (E_BIN op a b)" and rm: "room s (stack_need (E_BIN op a b))"
    have bd': "bound \<Gamma> \<rho> s x" "bound \<Gamma> \<rho> s y" using bd p(6) by (auto simp: bound_def)
    have rm': "room s (stack_need x)" "sp s + 1 + stack_need y < VM_STACK_SIZE" "room s 3" "room s 2" "room s 1"
      using rm op l p(7) stack_need_pos [of x] stack_need_pos [of y] by auto
    note cx = computesD [OF c(1) bd'(1) refl rm'(1), unfolded p(2)]
    show "valued_as (straight m (fused (comp lvl \<Gamma> x @ comp lvl \<Gamma> y) n) s) s (type_code TI)
        (bindO (eval m \<Gamma> \<rho> x) (\<lambda>u. bindO (eval m \<Gamma> \<rho> y) (\<lambda>v. Ok (sdiv64 (u * v) w))))"
    proof (cases "length (comp lvl \<Gamma> x @ comp lvl \<Gamma> y) = 2 \<and> (comp lvl \<Gamma> x @ comp lvl \<Gamma> y) ! 0 = (comp lvl \<Gamma> x @ comp lvl \<Gamma> y) ! 1 \<and>
        is_load_i ((comp lvl \<Gamma> x @ comp lvl \<Gamma> y) ! 0)")
      case sq: True
      have "length (comp lvl \<Gamma> x) = 1" "length (comp lvl \<Gamma> y) = 1"
        using sq comp_nonempty [of lvl \<Gamma> x] comp_nonempty [of lvl \<Gamma> y] by (cases "comp lvl \<Gamma> x"; cases "comp lvl \<Gamma> y"; simp)+
      then obtain i j where ij: "comp lvl \<Gamma> x = [i]" "comp lvl \<Gamma> y = [j]" by (auto simp: length_Suc_conv)
      then obtain sc k where i: "i = I_LOAD sc TI k" and j: "j = i" using sq by (auto simp: is_load_i_def split: instr.splits)
      obtain u v where u: "u \<in> vars x" "\<Gamma> u = (sc, k, TI)" "eval m \<Gamma> \<rho> x = Ok (\<rho> u)"
        and v: "v \<in> vars y" "\<Gamma> v = (sc, k, TI)" "eval m \<Gamma> \<rho> y = Ok (\<rho> v)"
        using load_only [of lvl \<Gamma> x sc k m \<rho>] load_only [of lvl \<Gamma> y sc k m \<rho>] ij i j by blast
      have "reads s sc k (\<rho> u)" "reads s sc k (\<rho> v)" using bd' u v by (auto simp: bound_def)
      then have uv: "\<rho> u = \<rho> v" by (auto simp: reads_def split: scope.splits)
      obtain s1 where s1: "straight m [i] s = Ok s1" "pushes s s1 T_INT (\<rho> u)"
        using cx u ij by (auto simp: valued_as_def type_code_def)
      have "straight m (fused (comp lvl \<Gamma> x @ comp lvl \<Gamma> y) n) s = bindO (straight m [i] s) (straight m [I_PUSH_INT (of_nat n), I_MATH SQRDIV])"
        using ij i j by (simp add: fused_def is_load_i_def del: straight.simps flip: straight_append)
      then show ?thesis using s1 u v uv sqrdiv_exec [OF s1(2) rm'(4) n] by (simp add: type_code_def del: straight.simps)
    next
      case False
      then have fu: "fused (comp lvl \<Gamma> x @ comp lvl \<Gamma> y) n = (comp lvl \<Gamma> x @ comp lvl \<Gamma> y) @ [I_PUSH_INT (of_nat n), I_MATH MULDIV]"
        unfolding fused_def by (rule if_not_P)
      have eq: "straight m (fused (comp lvl \<Gamma> x @ comp lvl \<Gamma> y) n) s =
          bindO (straight m (comp lvl \<Gamma> x) s) (\<lambda>s1. bindO (straight m (comp lvl \<Gamma> y) s1) (straight m [I_PUSH_INT (of_nat n), I_MATH MULDIV]))"
        unfolding fu by (simp add: straight_append_fun bindO_assoc del: straight.simps)
      show ?thesis
        unfolding eq
      proof (rule valued_bind [OF cx refl])
        fix u s1 assume s1: "pushes s s1 (type_code TI) u"
        have rm2: "room s1 (stack_need y)" using rm'(1,2,5) pushes_sp [OF s1] by simp
        show "valued_as (bindO (straight m (comp lvl \<Gamma> y) s1) (straight m [I_PUSH_INT (of_nat n), I_MATH MULDIV])) s (type_code TI)
            (bindO (eval m \<Gamma> \<rho> y) (\<lambda>v. Ok (sdiv64 (u * v) w)))"
        proof (rule valued_bind [OF computesD [OF c(2) bd'(2) pushes_off [OF s1] rm2, unfolded p(3)] pushes_off [OF s1]])
          fix v s2 assume s2: "pushes s1 s2 (type_code TI) v"
          show "valued_as (straight m [I_PUSH_INT (of_nat n), I_MATH MULDIV] s2) s (type_code TI) (Ok (sdiv64 (u * v) w))"
            using muldiv_exec [OF s1 [unfolded type_code_def, simplified] s2 [unfolded type_code_def, simplified] rm'(3) n] by (simp add: type_code_def)
        qed
      qed
    qed
  qed
qed
lemma computes_un:
  assumes "computes m lvl \<Gamma> \<rho> e" "well_typed \<Gamma> e"
  shows "computes m lvl \<Gamma> \<rho> (E_UN u e)"
  unfolding computes_def
proof (intro allI impI)
  fix s assume bd: "bound \<Gamma> \<rho> s (E_UN u e)" and rm: "room s (stack_need (E_UN u e))"
  have bd': "bound \<Gamma> \<rho> s e" and rm': "room s (stack_need e)" "room s 1" using bd rm stack_need_pos [of e] by (auto simp: bound_def)
  note ty = etype_numeric [OF assms(2)]
  note ce = computesD [OF assms(1) bd' refl rm'(1)]
  define rest where "rest = (case u of U_PLUS \<Rightarrow> [] | U_NEG \<Rightarrow> [if etype \<Gamma> e = TI then I_NEG_I else I_NEG_F]
     | U_NOT \<Rightarrow> cvt (etype \<Gamma> e) TI @ [I_NOT] | U_INV \<Rightarrow> cvt (etype \<Gamma> e) TI @ [I_INV])"
  have eq: "straight m (comp lvl \<Gamma> (E_UN u e)) s = bindO (straight m (comp lvl \<Gamma> e) s) (straight m rest)"
    by (simp add: rest_def straight_append)
  show "valued_as (straight m (comp lvl \<Gamma> (E_UN u e)) s) s (type_code (etype \<Gamma> (E_UN u e))) (eval m \<Gamma> \<rho> (E_UN u e))"
    unfolding eq eval.simps
  proof (rule valued_bind [OF ce refl])
    fix v s1 assume s1: "pushes s s1 (type_code (etype \<Gamma> e)) v"
    note set = set_top [OF s1 rm'(2)] top_of(1) [OF s1 rm'(2) [THEN conjunct1] rm'(2) [THEN conjunct2]]
    have int: "valued_as (straight m (cvt (etype \<Gamma> e) TI @ [i]) s1) s T_INT (bindO (convert (etype \<Gamma> e) TI v) (\<lambda>k. Ok (f k)))"
      if "\<And>s. exec m i s = Some (bindO (TOS s) (\<lambda>a. set_TOS (f a) s))" for i f
      unfolding straight_append
    proof (rule valued_bind [OF cvt_exec [OF s1 rm'(2) ty] refl])
      fix k s2 assume s2: "pushes s s2 (type_code TI) k"
      show "valued_as (straight m [i] s2) s T_INT (Ok (f k))"
        using that set_top [OF s2 rm'(2), of "f k"] top_of(1) [OF s2 rm'(2) [THEN conjunct1] rm'(2) [THEN conjunct2]] by (simp add: type_code_def)
    qed simp
    show "valued_as (straight m rest s1) s (type_code (etype \<Gamma> (E_UN u e)))
        (case u of U_NEG \<Rightarrow> Ok (if etype \<Gamma> e = TI then - v else f_neg v) | U_PLUS \<Rightarrow> Ok v
         | U_NOT \<Rightarrow> bindO (convert (etype \<Gamma> e) TI v) (\<lambda>i. Ok (if i \<noteq> 0 then 0 else 1))
         | U_INV \<Rightarrow> bindO (convert (etype \<Gamma> e) TI v) (\<lambda>i. Ok (NOT i)))"
    proof (cases u)
      case U_NEG
      then show ?thesis using set ty by (cases "etype \<Gamma> e") (auto simp: rest_def exec_def op_neg_i_def op_neg_f_def)
    next
      case U_PLUS
      then show ?thesis using s1 by (simp add: rest_def valued_as_def)
    next
      case U_NOT
      then show ?thesis using int [of I_NOT "\<lambda>a. if a \<noteq> 0 then 0 else 1"] by (simp add: rest_def exec_def op_not_def type_code_def)
    next
      case U_INV
      then show ?thesis using int [of I_INV "\<lambda>a. NOT a"] by (simp add: rest_def exec_def op_inv_def type_code_def)
    qed
  qed
qed

lemma computes_parts:
  assumes "computes m lvl \<Gamma> \<rho> a" "as_product \<Gamma> a = Some (x, y)"
    and "\<And>e. size e < size a \<Longrightarrow> well_typed \<Gamma> e \<Longrightarrow> computes m lvl \<Gamma> \<rho> e" "well_typed \<Gamma> a"
  shows "computes m lvl \<Gamma> \<rho> x \<and> computes m lvl \<Gamma> \<rho> y"
proof -
  have "size x < size a \<and> size y < size a \<and> vars a = vars x \<union> vars y"
    using assms(2) by (induction a) (auto split: if_splits)
  then show ?thesis using assms(3,4) by (auto simp: well_typed_def)
qed

lemma comp_computes: "well_typed \<Gamma> e \<Longrightarrow> computes m lvl \<Gamma> \<rho> e"
proof (induction e rule: measure_induct_rule [where f = size])
  case (less e)
  show ?case
  proof (cases e)
    case (E_DEC ds)
    then show ?thesis using valued_push by (auto simp: computes_def exec_def PUSH_I_def type_code_def)
  next
    case (E_FIX a b)
    then show ?thesis using valued_push by (auto simp: computes_def exec_def PUSH_F_def type_code_def)
  next
    case (E_VAR x)
    obtain sc slot t where g: "\<Gamma> x = (sc, slot, t)" by (cases "\<Gamma> x")
    then have "t \<in> {TI, TF}" using less.prems E_VAR by (simp add: well_typed_def)
    then show ?thesis using E_VAR g load_exec by (simp add: computes_def bound_def del: straight.simps)
  next
    case (E_PAREN a)
    then have "computes m lvl \<Gamma> \<rho> a" using less by (simp add: well_typed_def)
    then show ?thesis using E_PAREN by (simp add: computes_def bound_def)
  next
    case (E_UN u a)
    then show ?thesis using less computes_un [of m lvl \<Gamma> \<rho> a u] by (simp add: well_typed_def)
  next
    case (E_BIN op a b)
    have w: "well_typed \<Gamma> a" "well_typed \<Gamma> b" using less.prems E_BIN by (auto simp: well_typed_def)
    have i: "computes m lvl \<Gamma> \<rho> a" "computes m lvl \<Gamma> \<rho> b" using less.IH E_BIN w by auto
    show ?thesis
    proof (cases "fuse_bits lvl \<Gamma> op a b")
      case None
      then show ?thesis using computes_plain [OF i w] E_BIN by simp
    next
      case (Some n)
      have "computes m lvl \<Gamma> \<rho> (E_BIN op a b)"
        by (rule computes_fused [OF _ Some]) (rule computes_parts [OF i(1)], use less.IH E_BIN w in auto)
      then show ?thesis using E_BIN by simp
    qed
  qed
qed
section \<open>Through the dispatch loop\<close>

fun arith :: "instr \<Rightarrow> bool" where
  "arith (I_PUSH_INT v) = True" | "arith (I_PUSH_FLT v) = True"
| "arith (I_LOAD sc t n) = (t \<noteq> TS)"
| "arith I_CVT_I2F = True" | "arith I_CVT_F2I = True"
| "arith (I_BIN_I f) = True" | "arith (I_BIN_F f) = True"
| "arith I_NEG_I = True" | "arith I_NEG_F = True" | "arith I_NOT = True" | "arith I_INV = True"
| "arith (I_CMP t r) = (t \<noteq> TS)"
| "arith (I_MATH f) = (f = MULDIV \<or> f = SQRDIV)"
| "arith _ = False"

definition at_pc :: "int \<Rightarrow> vm res \<Rightarrow> vm res" where
  "at_pc q r = (case r of Ok s \<Rightarrow> Ok (s\<lparr>pc := q\<rparr>) | Err e s \<Rightarrow> Err e (s\<lparr>pc := q\<rparr>) | Fault \<Rightarrow> Fault)"

lemma get_cell_pc: "get_cell (s\<lparr>pc := q\<rparr>) c = get_cell s c"
proof -
  have h: "rd_bytes rd_byte (s\<lparr>pc := q\<rparr>) a n = rd_bytes rd_byte s a n" for a n
    by (induction n arbitrary: a) (auto simp: rd_byte_def in_heap_def split: option.split)
  show ?thesis by (auto simp: get_cell_def rd64_def h split: cell.splits)
qed

lemmas prim_defs = push_def PUSH_I_def PUSH_F_def TOS_def set_TOS_def set_TOS_type_def POP_def bc_vm_error_def at_pc_def of_opt_def
  TOS_type_def POP_NUMERIC_I_def

lemma at_pc_get_cell: "at_pc q (bindO (get_cell s c) f) = bindO (get_cell s c) (\<lambda>v. at_pc q (f v))"
  by (cases c; cases "rd64 s (case c of CMem a \<Rightarrow> a | _ \<Rightarrow> 0)"; simp add: get_cell_def at_pc_def of_opt_def)

lemma at_pc_push: "at_pc q (push t v s) = push t v (s\<lparr>pc := q\<rparr>)"
  by (simp add: push_def at_pc_def bc_vm_error_def)

lemma load_pc:
  assumes "t \<noteq> TS"
  shows "op_load t n (s\<lparr>pc := q\<rparr>) = at_pc q (op_load t n s)" "op_load_local t n (s\<lparr>pc := q\<rparr>) = at_pc q (op_load_local t n s)"
proof -
  show "op_load t n (s\<lparr>pc := q\<rparr>) = at_pc q (op_load t n s)"
    using assms by (cases t) (simp_all add: op_load_def get_cell_pc at_pc_get_cell PUSH_I_def PUSH_F_def at_pc_push)
  show "op_load_local t n (s\<lparr>pc := q\<rparr>) = at_pc q (op_load_local t n s)"
  proof (cases "bc_vm_local_cell s (frame_base s + int (unat n))")
    case (Ok x)
    then have "bc_vm_local_cell (s\<lparr>pc := q\<rparr>) (frame_base s + int (unat n)) = Ok x"
      by (auto simp: bc_vm_local_cell_def split: if_splits option.splits)
    then show ?thesis using assms Ok
      by (cases t; cases x) (simp_all add: op_load_local_def get_cell_pc at_pc_get_cell PUSH_I_def PUSH_F_def at_pc_push)
  qed (auto simp: op_load_local_def bc_vm_local_cell_def at_pc_def bc_vm_error_def split: if_splits option.splits)
qed

lemma exec_pc:
  assumes "arith i"
  shows "exec m i (s\<lparr>pc := q\<rparr>) = map_option (at_pc q) (exec m i s)"
  using assms
  apply (cases i)
  apply (simp_all add: exec_def)
  subgoal by (simp add: prim_defs)
  subgoal by (simp add: prim_defs)
  subgoal for sc t n by (cases sc) (simp_all add: load_pc)
  subgoal by (simp add: op_cvt_i2f_def prim_defs)
  subgoal by (auto simp add: op_cvt_f2i_def prim_defs split: option.split)
  subgoal for f by (cases f; simp add: op_bin_i_def int_op_def prim_defs)
  subgoal for f by (cases f; simp add: op_bin_f_def flt_op_def prim_defs)
  subgoal by (simp add: op_neg_i_def prim_defs)
  subgoal by (simp add: op_neg_f_def prim_defs)
  subgoal by (simp add: op_not_def prim_defs)
  subgoal by (simp add: op_inv_def prim_defs)
  subgoal for t r by (cases t; simp add: op_cmp_def op_cmp_i_def op_cmp_f_def prim_defs)
  subgoal for f by (auto simp add: exec_math_def op_math_muldiv_def op_math_sqrdiv_def pop_bits_def vm_muldiv_pow2_def prim_defs split: option.split)
  done
definition block :: "vm \<Rightarrow> nat \<Rightarrow> instr list \<Rightarrow> bool" where
  "block s p is \<longleftrightarrow> (\<exists>after. drop p (bytecode s) = assemble is @ after)"

lemma block_Cons:
  assumes "block s p (i # is)"
  shows "code_at s p i" "block s (p + length (encode i)) is"
proof -
  obtain after where a: "drop p (bytecode s) = encode i @ assemble is @ after" using assms by (auto simp: block_def assemble_def)
  then show "code_at s p i" by (auto simp: code_at_def)
  have "drop (p + length (encode i)) (bytecode s) = assemble is @ after"
    using arg_cong [OF a, of "drop (length (encode i))"] by (simp add: add.commute)
  then show "block s (p + length (encode i)) is" by (auto simp: block_def)
qed

lemma arith_exec: "arith i \<Longrightarrow> exec m i s \<noteq> None" "arith i \<Longrightarrow> for_ok i \<and> i \<noteq> I_END \<and> i \<noteq> I_HALT \<and> \<not> is_ctl i"
  by (cases i; simp add: exec_def is_ctl_def for_ok_def)+

lemma straight_pc:
  assumes "list_all arith is"
  shows "straight m is (s\<lparr>pc := q\<rparr>) = at_pc q (straight m is s)"
  using assms
proof (induction "is" arbitrary: s)
  case Nil
  then show ?case by (simp add: at_pc_def)
next
  case (Cons i "is")
  then have i: "arith i" by simp
  obtain r where r: "exec m i s = Some r" using arith_exec(1) [OF i] by blast
  have "exec m i (s\<lparr>pc := q\<rparr>) = Some (at_pc q r)" using exec_pc [OF i] r by simp
  then show ?case using r Cons by (cases r) (simp_all add: at_pc_def)
qed

text \<open>How a run of the machine ends that executes a block: behind it, with a BASIC error, or in undefined behaviour.\<close>

definition runs_to :: "libm \<Rightarrow> nat \<Rightarrow> vm \<Rightarrow> int \<Rightarrow> vm res \<Rightarrow> bool" where
  "runs_to m n s q r =
     (case r of
        Ok s' \<Rightarrow> steps m n s = Some (s'\<lparr>pc := q\<rparr>)
      | Err e s' \<Rightarrow> \<exists>k s1 s2. k < n \<and> steps m k s = Some s1 \<and> step m s1 = Raised e s2
      | Fault \<Rightarrow> \<exists>k s1. k < n \<and> steps m k s = Some s1 \<and> step m s1 = Wild)"

lemma runs_to_next:
  assumes "step m s = Next s1" "runs_to m n s1 q r"
  shows "runs_to m (Suc n) s q r"
proof (cases r)
  case (Err e s')
  then obtain k s2 s3 where "k < n" "steps m k s1 = Some s2" "step m s2 = Raised e s3" using assms(2) by (auto simp: runs_to_def)
  then have "Suc k < Suc n \<and> steps m (Suc k) s = Some s2 \<and> step m s2 = Raised e s3" using assms(1) by simp
  then show ?thesis using Err unfolding runs_to_def by (simp only: outcome.case) blast
next
  case Fault
  then obtain k s2 where "k < n" "steps m k s1 = Some s2" "step m s2 = Wild" using assms(2) by (auto simp: runs_to_def)
  then have "Suc k < Suc n \<and> steps m (Suc k) s = Some s2 \<and> step m s2 = Wild" using assms(1) by simp
  then show ?thesis using Fault unfolding runs_to_def by (simp only: outcome.case) blast
qed (use assms in \<open>simp add: runs_to_def\<close>)

lemma runs_to_at_pc: "runs_to m n s q (at_pc q' r) = runs_to m n s q r"
  by (cases r) (simp_all add: runs_to_def at_pc_def)

lemma straight_runs:
  assumes "list_all arith is" "block s p is" "pc s = int p"
  shows "runs_to m (length is) s (int (p + length (assemble is))) (straight m is s)"
  using assms
proof (induction "is" arbitrary: s p)
  case Nil
  then show ?case by (simp add: runs_to_def assemble_def)
next
  case (Cons i "is")
  let ?q = "p + length (encode i)"
  have i: "arith i" and ari: "list_all arith is" using Cons.prems by simp_all
  note b = block_Cons [OF Cons.prems(2)] and a = arith_exec(2) [OF i]
  obtain r where r: "exec m i s = Some r" using arith_exec(1) [OF i] by blast
  have st: "step m s = after_op (at_pc (int ?q) r)"
    using step_at [OF b(1) Cons.prems(3), of m] a exec_pc [OF i] r by simp
  show ?case
  proof (cases r)
    case (Ok s1)
    let ?s1 = "s1\<lparr>pc := int ?q\<rparr>"
    have "kv s r" by (rule exec_quiet [OF _ r]) (use a in simp)
    then have "bytecode ?s1 = bytecode s" using Ok by (simp add: kv_def keeps_def same_ctl_def)
    then have b1: "block ?s1 ?q is" using b(2) by (simp add: block_def)
    have n1: "step m s = Next ?s1" using st Ok by (simp add: at_pc_def after_op_def)
    have "runs_to m (length is) ?s1 (int (?q + length (assemble is))) (straight m is ?s1)"
      by (rule Cons.IH [OF ari b1]) simp
    then have ih: "runs_to m (length is) ?s1 (int (?q + length (assemble is))) (at_pc (int ?q) (straight m is s1))"
      by (simp only: straight_pc [OF ari])
    have l: "?q + length (assemble is) = p + length (assemble (i # is))" by (simp add: assemble_def)
    have "straight m (i # is) s = straight m is s1" using r Ok by simp
    then show ?thesis using runs_to_next [OF n1 ih] by (simp only: runs_to_at_pc l list.size(4) add_0_right add_Suc_right)
  next
    case (Err e s1)
    then show ?thesis using st r by (auto simp: runs_to_def at_pc_def after_op_def intro!: exI [of _ 0])
  next
    case Fault
    then show ?thesis using st r by (auto simp: runs_to_def at_pc_def after_op_def intro!: exI [of _ 0])
  qed
qed

lemma comp_arith:
  assumes "well_typed \<Gamma> e"
  shows "list_all arith (comp lvl \<Gamma> e)"
  using assms
proof (induction e)
  case (E_UN u e)
  then show ?case by (cases u) (auto simp: well_typed_def cvt_def)
next
  case (E_BIN op a b)
  then have w: "well_typed \<Gamma> a" "well_typed \<Gamma> b" by (auto simp: well_typed_def)
  have c: "list_all arith (cvt x y)" for x y by (simp add: cvt_def)
  have o: "arith (op_instr op t)" if "t \<in> {TI, TF}" for t using that by (cases op) auto
  have f: "list_all arith (fused is n)" if "list_all arith is" for "is" n 
  proof (cases "length is = 2")
    case True
    then have "is ! 0 \<in> set is" by simp
    then show ?thesis using that by (simp add: fused_def list_all_iff)
  qed (use that in \<open>simp add: fused_def\<close>)
  have bl: "list_all arith (butlast xs)" if "list_all arith xs" for xs using that by (auto simp: list_all_iff dest: in_set_butlastD)
  show ?case using E_BIN.IH w c o [OF work_numeric] f bl by (auto simp: Let_def split: option.split)
qed (auto simp: well_typed_def split: prod.split)

definition says :: "vm \<Rightarrow> string \<Rightarrow> string" where
  "says s msg = ''[VM line '' @ dec_nat (unat (current_line s)) @ ''] '' @ msg"

lemma comp_steps:
  assumes w: "well_typed \<Gamma> e" and b: "bound \<Gamma> \<rho> s e" and r: "room s (stack_need e)"
    and blk: "block s p (comp lvl \<Gamma> e)" and pc: "pc s = int p"
  shows "case eval m \<Gamma> \<rho> e of
      Ok v \<Rightarrow> \<exists>s'. steps m (length (comp lvl \<Gamma> e)) s = Some (s'\<lparr>pc := int (p + length (assemble (comp lvl \<Gamma> e)))\<rparr>) \<and>
               pushes s s' (type_code (etype \<Gamma> e)) v
    | Err msg u \<Rightarrow> \<exists>k s1 s2. k < length (comp lvl \<Gamma> e) \<and> steps m k s = Some s1 \<and> step m s1 = Raised (says s msg) s2
    | Fault \<Rightarrow> \<exists>k s1. k < length (comp lvl \<Gamma> e) \<and> steps m k s = Some s1 \<and> step m s1 = Wild"
proof -
  have v: "valued_as (straight m (comp lvl \<Gamma> e) s) s (type_code (etype \<Gamma> e)) (eval m \<Gamma> \<rho> e)"
    using comp_computes [OF w, of m lvl \<rho>] b r by (simp add: computes_def)
  have st: "runs_to m (length (comp lvl \<Gamma> e)) s (int (p + length (assemble (comp lvl \<Gamma> e)))) (straight m (comp lvl \<Gamma> e) s)"
    by (rule straight_runs [OF comp_arith [OF w] blk pc])
  show ?thesis
  proof (cases "eval m \<Gamma> \<rho> e")
    case (Ok x)
    then show ?thesis using v st by (auto simp: valued_as_def runs_to_def)
  next
    case (Err msg u)
    then obtain s1 where "straight m (comp lvl \<Gamma> e) s = bc_vm_error s1 msg" "off_stack s1 = off_stack s"
      using v by (auto simp: valued_as_def)
    then have "straight m (comp lvl \<Gamma> e) s = Err (says s msg) s1"
      using off_stack_fields(7) [of s1 s] by (simp add: bc_vm_error_def says_def)
    then show ?thesis using Err st by (simp add: runs_to_def)
  next
    case Fault
    then show ?thesis using v st by (simp add: valued_as_def runs_to_def)
  qed
qed

end
