(* ===== verification/ExprLex.thy ===== *)
theory ExprLex
  imports ExprExec
begin

text \<open>
  The lower half of the expression compiler against the trees of \<open>ExprSpec\<close>: when a text is the text
  of a tree (\<open>stops\<close>, \<open>quiet\<close>) and the tables know its names (\<open>ready\<close>), keywords that are not there
  are not found, numbers and names are read to their end, and primaries and unary operators emit the
  code of the tree. \<open>layer fe \<Gamma> d P n\<close>: the parser \<open>P\<close> does so for all trees of layer \<open>n\<close>.
\<close>

section \<open>What the text and the tables must satisfy\<close>

definition stops :: "cstr \<Rightarrow> bool" where
  "stops rest \<longleftrightarrow> at rest \<in> {0, 0x20, 0x29, 0x2C} \<and> at (source_skip_space rest) \<noteq> 0x28"

text \<open>No operator up to layer \<open>n\<close> goes on at \<open>rest\<close>.\<close>

definition quiet :: "nat \<Rightarrow> cstr \<Rightarrow> bool" where
  "quiet n rest \<longleftrightarrow>
     (let p = source_skip_space rest in
      (2 \<le> n \<longrightarrow> at p \<noteq> 0x5E) \<and> (3 \<le> n \<longrightarrow> mul_op p = None) \<and> (4 \<le> n \<longrightarrow> at p \<noteq> 0x2B \<and> at p \<noteq> 0x2D) \<and>
      (5 \<le> n \<longrightarrow> shift_op_at p = None) \<and> (6 \<le> n \<longrightarrow> source_match_compare rest = None) \<and> (7 \<le> n \<longrightarrow> bool_op_at p = None))"

text \<open>
  Number literals: digits only, and the last byte of the pushed constant must not look like the
  opcode of a multiplication, which the code generator would take out of it.
\<close>

fun literals_ok :: "exp \<Rightarrow> bool" where
  "literals_ok (E_DEC ds) \<longleftrightarrow> ds \<noteq> [] \<and> list_all isdigit8 ds \<and> last (e64 (dec_value ds)) \<notin> {OP_MUL_I, OP_MATH_MULSHR}"
| "literals_ok (E_FIX a b) \<longleftrightarrow> a \<noteq> [] \<and> list_all isdigit8 a \<and> b \<noteq> [] \<and> list_all isdigit8 b"
| "literals_ok (E_VAR x) \<longleftrightarrow> True"
| "literals_ok (E_PAREN e) \<longleftrightarrow> literals_ok e"
| "literals_ok (E_UN u e) \<longleftrightarrow> literals_ok e"
| "literals_ok (E_BIN op a b) \<longleftrightarrow> literals_ok a \<and> literals_ok b"

text \<open>A name that is a variable in every context: no keyword, no builtin, no function of the interpreter.\<close>

definition name_body :: "cstr \<Rightarrow> cstr" where
  "name_body x = (if is_suffix_char (last x) then butlast x else x)"

definition plain_name :: "frontend \<Rightarrow> cstr \<Rightarrow> bool" where
  "plain_name fe x \<longleftrightarrow>
     x \<noteq> [] \<and> isnamestart (hd x) \<and> length x \<le> MAXVARLEN \<and> list_all isnamechar (name_body x) \<and> 0x2E \<notin> set x \<and>
     \<not> list_ex (named x) [''NOT'', ''INV'', ''INKEY$'', ''DATE$'', ''TIME$'', ''TIMER'', ''PI'', ''RND''] \<and>
     find_index (\<lambda>(n, f). f AND T_FNA \<noteq> 0 \<and> same_name n x) (tokentbl fe) = None"

definition place :: "BCCompiler \<Rightarrow> cstr \<Rightarrow> (scope \<times> u16) option" where
  "place cs x =
     (let loc = (if 0 \<le> current_subfun cs then bc_find_local cs x else -1) in
      if 0 \<le> loc then Some (if loc_is_static (cs_locals cs ! nat loc) \<noteq> 0 then (Global, loc_static_slot (cs_locals cs ! nat loc))
                            else (Local, word_of_int loc))
      else if bc_find_slot cs x = 0xFFFF then None else Some (Global, bc_find_slot cs x))"

definition name_type :: "BCCompiler \<Rightarrow> cstr \<Rightarrow> u8" where
  "name_type cs x = (if is_suffix_char (last x) then bc_type_from_suffix (last x) else source_default_var_type cs x)"

definition var_ok :: "frontend \<Rightarrow> BCCompiler \<Rightarrow> cstr \<Rightarrow> scope \<times> u16 \<times> vty \<Rightarrow> bool" where
  "var_ok fe cs x v =
     (case v of (sc, slot, t) \<Rightarrow>
        plain_name fe x \<and> t \<in> {TI, TF} \<and> name_type cs x = type_code t \<and> place cs x = Some (sc, slot) \<and>
        unat slot < BC_MAX_SLOTS \<and> (sc = Global \<longrightarrow> unat slot < length (slots cs) \<longrightarrow> slot_is_const (slots cs ! unat slot) = 0))"

fun code_need :: "exp \<Rightarrow> nat" where
  "code_need (E_VAR x) = 3"
| "code_need (E_PAREN e) = code_need e"
| "code_need (E_UN u e) = code_need e + 2"
| "code_need (E_BIN op a b) = code_need a + code_need b + 3"
| "code_need _ = 9"

definition ready :: "frontend \<Rightarrow> scope_env \<Rightarrow> BCCompiler \<Rightarrow> exp \<Rightarrow> bool" where
  "ready fe \<Gamma> cs e \<longleftrightarrow> \<not> has_error cs \<and> length (code cs) + code_need e \<le> BC_MAX_CODE \<and>
     (\<forall>x \<in> vars e. var_ok fe cs x (\<Gamma> x)) \<and> literals_ok e"

definition put :: "BCCompiler \<Rightarrow> instr list \<Rightarrow> BCCompiler" where
  "put cs is = cs\<lparr>code := code cs @ assemble is\<rparr>"

definition parses :: "frontend \<Rightarrow> scope_env \<Rightarrow> parser \<Rightarrow> exp \<Rightarrow> (cstr \<Rightarrow> bool) \<Rightarrow> bool" where
  "parses fe \<Gamma> P e Q \<longleftrightarrow>
     (\<forall>cs bl rest. ready fe \<Gamma> cs e \<longrightarrow> list_all is_blank bl \<longrightarrow> stops rest \<longrightarrow> Q rest \<longrightarrow>
        P cs (bl @ print_exp e @ rest) = (type_code (etype \<Gamma> e), put cs (comp (opt_level fe) \<Gamma> e), rest))"

section \<open>Emission\<close>

lemma assemble_append [simp]: "assemble (a @ b) = assemble a @ assemble b"
  by (simp add: assemble_def)

lemma assemble_Nil [simp]: "assemble [] = []"
  by (simp add: assemble_def)

lemma assemble_Cons [simp]: "assemble (i # is) = encode i @ assemble is"
  by (simp add: assemble_def)

lemma put_put [simp]: "put (put cs a) b = put cs (a @ b)"
  by (simp add: put_def)

lemma put_Nil [simp]: "put cs [] = cs"
  by (simp add: put_def)

lemma code_put [simp]: "code (put cs a) = code cs @ assemble a"
  by (simp add: put_def)

lemma has_error_put [simp]: "has_error (put cs a) = has_error cs"
  by (simp add: put_def)

lemma emit_ok: "length (code cs) + length bs \<le> BC_MAX_CODE \<Longrightarrow> emit_bytes cs bs = cs\<lparr>code := code cs @ bs\<rparr>"
  by (simp add: emit_bytes_def)

lemma emit_byte_put: "encode i = [b] \<Longrightarrow> length (code cs) < BC_MAX_CODE \<Longrightarrow> bc_emit_byte cs b = put cs [i]"
  by (simp add: bc_emit_byte_def emit_ok put_def)

lemma find_cong [simp]:
  "bc_find_slot (cs\<lparr>code := c\<rparr>) x = bc_find_slot cs x" "bc_find_local (cs\<lparr>code := c\<rparr>) x = bc_find_local cs x"
  "place (cs\<lparr>code := c\<rparr>) x = place cs x" "source_default_var_type (cs\<lparr>code := c\<rparr>) x = source_default_var_type cs x"
  "name_type (cs\<lparr>code := c\<rparr>) x = name_type cs x" "var_ok fe (cs\<lparr>code := c\<rparr>) x v = var_ok fe cs x v"
  by (simp_all add: bc_find_slot_def bc_find_local_def place_def source_default_var_type_def name_type_def var_ok_def cong: if_cong)

lemma var_ok_put [simp]: "var_ok fe (put cs is) x v = var_ok fe cs x v"
  by (simp add: put_def)

lemma e_lengths [simp]: "length (e16 w) = 2" "length (e64 v) = 8"
  by (simp_all add: e16_def e64_def)

lemma resolve_place: "place cs x = Some (sc, slot) \<Longrightarrow> source_resolve_var cs x ty True = (cs, slot, sc = Local)"
  by (auto simp: place_def source_resolve_var_def source_resolve_global_def Let_def split: if_splits)

section \<open>Scanning\<close>

lemma skip_blank: "list_all is_blank bl \<Longrightarrow> source_skip_space (bl @ t) = source_skip_space t"
  by (induction bl) (auto simp: source_skip_space_def is_blank_def)

lemma skip_none: "\<not> is_blank (at t) \<Longrightarrow> source_skip_space t = t"
  by (cases t) (auto simp: source_skip_space_def is_blank_def at_def)

lemma at_Cons [simp]: "at (c # t) = c"
  by (simp add: at_def)

lemma at_append: "s \<noteq> [] \<Longrightarrow> at (s @ t) = hd s"
  by (cases s) simp_all

lemma takeWhile_stop: "list_all P s \<Longrightarrow> \<not> P (at t) \<Longrightarrow> takeWhile P (s @ t) = s \<and> dropWhile P (s @ t) = t"
  by (induction s) (cases t; simp add: at_def)+

lemma stop_chars:
  assumes "at rest \<in> {0, 0x20, 0x29, 0x2C :: u8}"
  shows "\<not> isdigit8 (at rest)" "\<not> isxdigit8 (at rest)" "\<not> isnamechar (at rest)" "\<not> is_suffix_char (at rest)"
    "at rest \<noteq> 0x2E" "toupper8 (at rest) = at rest" "tolower8 (at rest) = at rest"
  using assms by (auto simp: isdigit8_def isxdigit8_def isnamechar_def isalnum8_def isalpha8_def is_suffix_char_def toupper8_def tolower8_def)

lemma stopsD: "stops rest \<Longrightarrow> at rest \<in> {0, 0x20, 0x29, 0x2C}"
  by (simp add: stops_def)
section \<open>Names and keywords\<close>

lemma all_u8: "list_all (\<lambda>n. P (of_nat n :: u8)) [0..<256] \<Longrightarrow> P c"
proof -
  assume "list_all (\<lambda>n. P (of_nat n :: u8)) [0..<256]"
  moreover have "unat c < 256" using unsigned_less [of c] by simp
  ultimately have "P (of_nat (unat c))" unfolding list_all_iff by (metis atLeastLessThan_iff set_upt zero_le)
  then show ?thesis by simp
qed

lemma isnamechar_tolower [simp]: "isnamechar (tolower8 c) = isnamechar c"
proof -
  have "list_all (\<lambda>n. isnamechar (tolower8 (of_nat n)) = isnamechar (of_nat n)) [0..<256]" by code_simp
  then show ?thesis by (rule all_u8)
qed

lemma tolower_dot [simp]: "tolower8 c = 0x2E \<longleftrightarrow> c = 0x2E"
proof -
  have "list_all (\<lambda>n. (tolower8 (of_nat n) = 0x2E) = (of_nat n = (0x2E :: u8))) [0..<256]" by code_simp
  then show ?thesis by (rule all_u8)
qed

lemma same_name_nth: "same_name a b \<Longrightarrow> i < length b \<Longrightarrow> tolower8 (a ! i) = tolower8 (b ! i)"
  unfolding same_name_def by (metis length_map nth_map)

lemma same_name_length: "same_name a b \<Longrightarrow> length a = length b"
  unfolding same_name_def by (metis length_map)

lemma at_nth: "i < length s \<Longrightarrow> at (drop i s) = s ! i"
  by (simp add: at_def Cons_nth_drop_Suc [symmetric])

lemma same_name_isnamechar:
  "same_name (take (length kw) p) kw \<Longrightarrow> length kw \<le> length p \<Longrightarrow> list_all isnamechar kw \<Longrightarrow> i < length kw \<Longrightarrow> isnamechar (p ! i)"
  by (metis isnamechar_tolower list_all_length nth_take same_name_nth)

lemma stop_not_namechar: "stops rest \<Longrightarrow> rest \<noteq> [] \<Longrightarrow> \<not> isnamechar (rest ! 0)"
  by (metis at_nth drop0 length_greater_0_conv stop_chars(3) stopsD)

text \<open>A keyword in front of a name that is not it: no match, for the name goes on or stops too early.\<close>

lemma longer_keyword:
  assumes "stops rest" "list_all isnamechar kw" "length x < length kw"
  shows "\<not> (length kw \<le> length (x @ rest) \<and> same_name (take (length kw) (x @ rest)) kw)"
proof
  assume a: "length kw \<le> length (x @ rest) \<and> same_name (take (length kw) (x @ rest)) kw"
  then have "isnamechar ((x @ rest) ! length x)" using assms same_name_isnamechar by blast
  moreover have "rest \<noteq> []" using a assms by auto
  ultimately show False using stop_not_namechar [OF assms(1)] by (simp add: nth_append)
qed

lemma shorter_keyword:
  assumes "length kw < length x" "list_all isnamechar (name_body x)"
  shows "isnamechar (at (drop (length kw) (x @ rest))) \<or> is_suffix_char (at (drop (length kw) (x @ rest)))"
proof -
  have e: "at (drop (length kw) (x @ rest)) = x ! length kw"
    using assms at_nth [of "length kw" "x @ rest"] by (simp add: nth_append del: drop_append)
  show ?thesis
  proof (cases "is_suffix_char (last x)")
    case True
    show ?thesis
    proof (cases "Suc (length kw) = length x")
      case last: True
      have "last x = x ! length kw" using last by (metis diff_Suc_1 last_conv_nth length_0_conv nat.distinct(1))
      then show ?thesis using True e by simp
    next
      case False
      then have "length kw < length (name_body x)" "name_body x ! length kw = x ! length kw"
        using True assms(1) by (auto simp: name_body_def nth_butlast)
      then show ?thesis using assms(2) e by (metis list_all_length)
    qed
  next
    case False
    then show ?thesis using assms e by (simp add: name_body_def list_all_length)
  qed
qed

lemma not_keyword:
  assumes "stops rest" "list_all isnamechar (name_body x)" "list_all isnamechar kw" "\<not> same_name x kw"
  shows "source_keyword (x @ rest) kw = None"
proof (cases "length x" "length kw" rule: linorder_cases)
  case less
  then show ?thesis using longer_keyword [OF assms(1,3) less] by (auto simp: source_keyword_def Let_def simp del: take_append length_append)
next
  case equal
  then show ?thesis using assms by (simp add: source_keyword_def Let_def)
next
  case greater
  then show ?thesis using shorter_keyword [OF greater assms(2), of rest] by (auto simp: source_keyword_def Let_def simp del: drop_append)
qed

text \<open>The names with a point.\<close>

lemma not_dotted:
  assumes "stops rest" "0x2E \<notin> set x" "list_all isnamechar kw" "kw ! i = 0x2E" "i < length kw"
  shows "\<not> same_name (take (length kw) (x @ rest)) kw"
proof
  assume a: "same_name (take (length kw) (x @ rest)) kw"
  then have l: "length kw \<le> length (x @ rest)" using same_name_length by fastforce
  have "length kw \<le> length x" using longer_keyword [OF assms(1,3)] a l by (meson not_le_imp_less)
  moreover have "(x @ rest) ! i = 0x2E"
    using same_name_nth [OF a assms(5)] assms(4,5) by (simp del: take_append add: tolower8_def split: if_splits)
  ultimately show False using assms(2,5) by (metis nth_append nth_mem order_less_le_trans)
qed
section \<open>Variables\<close>

lemma suffix_not_namechar: "is_suffix_char c \<Longrightarrow> \<not> isnamechar c"
  by (auto simp: is_suffix_char_def isnamechar_def isalnum8_def isalpha8_def isdigit8_def)

lemma suffix_type: "is_suffix_char c \<Longrightarrow> bc_type_from_suffix c \<noteq> 0"
  by (auto simp: is_suffix_char_def bc_type_from_suffix_def T_INT_def T_NBR_def T_STR_def)

lemma start_not_blank: "isnamestart c \<Longrightarrow> \<not> is_blank c"
  by (auto simp: is_blank_def isnamestart_def isalpha8_def)

lemma plain_nameD:
  assumes "plain_name fe x"
  shows "x \<noteq> []" "isnamestart (hd x)" "length x \<le> MAXVARLEN" "list_all isnamechar (name_body x)" "0x2E \<notin> set x"
  using assms by (simp_all add: plain_name_def)

lemma parse_plain_varname:
  assumes "plain_name fe x" "stops rest"
  shows "source_parse_varname (x @ rest) = Some (x, if is_suffix_char (last x) then bc_type_from_suffix (last x) else 0, rest)"
proof -
  note p = plain_nameD [OF assms(1)]
  have s: "source_skip_space (x @ rest) = x @ rest"
    using p start_not_blank by (intro skip_none) (simp add: at_append)
  have n: "\<not> isnamechar (at rest)" "\<not> is_suffix_char (at rest)" using stop_chars stopsD [OF assms(2)] by auto
  show ?thesis
  proof (cases "is_suffix_char (last x)")
    case True
    then obtain b c where x: "x = b @ [c]" "is_suffix_char c" "list_all isnamechar b"
      using p by (cases x rule: rev_cases) (auto simp: name_body_def)
    have tw: "takeWhile isnamechar (x @ rest) = b"
      using takeWhile_stop [OF x(3), of "c # rest"] suffix_not_namechar x by simp
    have d: "drop (length b) (x @ rest) = c # rest" "take (length b) (x @ rest) = b" "drop (length b + 1) (x @ rest) = rest" using x by simp_all
    have i: "isnamestart (at (x @ rest))" using p by (simp add: at_append)
    show ?thesis unfolding source_parse_varname_def s Let_def tw d using p(3) x i by simp
  next
    case False
    then have tw: "takeWhile isnamechar (x @ rest) = x" using takeWhile_stop n p by (simp add: name_body_def)
    have i: "isnamestart (at (x @ rest))" using p by (simp add: at_append)
    show ?thesis unfolding source_parse_varname_def s Let_def tw using p(3) n False i by simp
  qed
qed

lemma emit_load:
  assumes "length (code cs) + 3 \<le> BC_MAX_CODE" "t \<in> {TI, TF}"
  shows "bc_emit_load_var cs slot (type_code t) lc = put cs [I_LOAD (if lc then Local else Global) t slot]"
  using assms by (auto simp: bc_emit_load_var_def vty_of_def type_code_def bc_emit_u16_def bc_emit_byte_def emit_ok put_def
      scope_of_def e16_def T_INT_def T_NBR_def T_STR_def)

lemma parse_var:
  assumes ok: "var_ok fe cs x (sc, slot, t)" and r: "length (code cs) + 3 \<le> BC_MAX_CODE" and st: "stops rest"
  shows "source_parse_name fe E pp cs (x @ rest) = (type_code t, put cs [I_LOAD sc t slot], rest)"
proof -
  from ok have pn: "plain_name fe x" and t: "t \<in> {TI, TF}" "name_type cs x = type_code t" and pl: "place cs x = Some (sc, slot)"
    and sl: "unat slot < BC_MAX_SLOTS" "sc = Global \<longrightarrow> unat slot < length (slots cs) \<longrightarrow> slot_is_const (slots cs ! unat slot) = 0"
    by (auto simp: var_ok_def)
  note p = plain_nameD [OF pn]
  have a: "at (source_skip_space rest) \<noteq> 0x28" using st by (simp add: stops_def)
  have n: "\<not> list_ex (named x) [''NOT'', ''INV'', ''INKEY$'', ''DATE$'', ''TIME$'', ''TIMER'', ''PI'', ''RND'']"
    "find_index (\<lambda>(n, f). f AND T_FNA \<noteq> 0 \<and> same_name n x) (tokentbl fe) = None"
    using pn by (simp_all add: plain_name_def)
  have ty: "(if (if is_suffix_char (last x) then bc_type_from_suffix (last x) else 0) = 0 then source_default_var_type cs x
             else (if is_suffix_char (last x) then bc_type_from_suffix (last x) else 0)) = type_code t"
    using t suffix_type by (auto simp: name_type_def split: if_splits)
  have s: "source_try_emit_struct_field_load fe E cs x rest = None"
    using p by (simp add: source_try_emit_struct_field_load_def struct_base_of_def Let_def)
  have pr: "parse_plain_name E pp x cs rest (source_skip_space rest) = None" using n by (simp add: parse_plain_name_def)
  have b: "parse_builtin_call fe E pp x cs (source_skip_space rest) = None" using a by (simp add: parse_builtin_call_def)
  have u: "parse_user_call E x suf cs (source_skip_space rest) = None" for suf using a by (simp add: parse_user_call_def Let_def)
  have f: "parse_bridged_call fe x cs rest (source_skip_space rest) = None"
    using a n by (simp add: parse_bridged_call_def find_token_def)
  have "slot \<noteq> 0xFFFF" using sl(1) by (auto simp: BC_MAX_SLOTS_def)
  then have sc: "parse_scalar x (type_code t) cs rest = (type_code t, put cs [I_LOAD sc t slot], rest)"
    using r t sl(2) by (cases sc) (auto simp: parse_scalar_def resolve_place [OF pl] Let_def emit_load)
  show ?thesis
    unfolding source_parse_name_def parse_plain_varname [OF pn st] option.case prod.case Let_def
    by (simp only: s pr b u f option.case ty a if_False sc)
qed
section \<open>Numbers\<close>

lemma digit_chars:
  assumes "isdigit8 c"
  shows "\<not> is_blank c" "c \<noteq> 0x22" "c \<noteq> 0x28" "c \<noteq> 0x26" "c \<noteq> 0x2B" "c \<noteq> 0x2D" "c \<noteq> 0x2E" "c \<noteq> 0x65" "c \<noteq> 0x45"
    "toupper8 c \<noteq> 0x58" "tolower8 c = c" "\<not> isnamestart c" "c \<noteq> 0x6D" "c \<noteq> 0x6E" "c \<noteq> 0x69"
proof -
  let ?P = "\<lambda>c. isdigit8 c \<longrightarrow> \<not> is_blank c \<and> c \<noteq> 0x22 \<and> c \<noteq> 0x28 \<and> c \<noteq> 0x26 \<and> c \<noteq> 0x2B \<and> c \<noteq> 0x2D \<and> c \<noteq> 0x2E \<and> c \<noteq> 0x65 \<and> c \<noteq> 0x45 \<and>
    toupper8 c \<noteq> 0x58 \<and> tolower8 c = c \<and> \<not> isnamestart c \<and> c \<noteq> 0x6D \<and> c \<noteq> 0x6E \<and> c \<noteq> 0x69"
  have "list_all (\<lambda>n. ?P (of_nat n)) [0..<256]" by code_simp
  then have "?P c" by (rule all_u8)
  then show "\<not> is_blank c" "c \<noteq> 0x22" "c \<noteq> 0x28" "c \<noteq> 0x26" "c \<noteq> 0x2B" "c \<noteq> 0x2D" "c \<noteq> 0x2E" "c \<noteq> 0x65" "c \<noteq> 0x45"
    "toupper8 c \<noteq> 0x58" "tolower8 c = c" "\<not> isnamestart c" "c \<noteq> 0x6D" "c \<noteq> 0x6E" "c \<noteq> 0x69" using assms by auto
qed

lemma digits_scan:
  assumes "list_all isdigit8 ds" "\<not> isdigit8 (at t)"
  shows "takeWhile isdigit8 (ds @ t) = ds" "dropWhile isdigit8 (ds @ t) = t"
  using takeWhile_stop [OF assms] by auto

lemma digits_hd: "ds \<noteq> [] \<Longrightarrow> list_all isdigit8 ds \<Longrightarrow> isdigit8 (hd ds) \<and> at (ds @ t) = hd ds"
  by (cases ds) auto

lemma digits_no_prefix:
  assumes "ds \<noteq> []" "list_all isdigit8 ds" "toupper8 (at t) \<noteq> 0x58"
  shows "toupper8 (at (drop 1 (ds @ t))) \<noteq> 0x58"
  using assms digit_chars(10) by (cases ds; cases "tl ds") auto

lemma digits_no_mark: "list_all isdigit8 ds \<Longrightarrow> \<not> list_ex (\<lambda>c. c = 0x2E \<or> c = 0x65 \<or> c = 0x45) ds"
  by (induction ds) (auto dest: digit_chars)

lemma no_exponent: "toupper8 (at t) \<noteq> e \<Longrightarrow> exponent_at e t = (0, 0)"
  by (simp add: exponent_at_def Let_def)

lemma stop_upper:
  assumes "stops rest"
  shows "toupper8 (at rest) \<noteq> 0x45" "toupper8 (at rest) \<noteq> 0x58"
  using stopsD [OF assms] stop_chars(6) [OF stopsD [OF assms]] by auto

lemma emit_int: "length (code cs) + 9 \<le> BC_MAX_CODE \<Longrightarrow> bc_emit_i64 (bc_emit_byte cs OP_PUSH_INT) v = put cs [I_PUSH_INT v]"
  by (simp add: bc_emit_i64_def bc_emit_byte_def emit_ok put_def e64_def)

lemma emit_flt: "length (code cs) + 9 \<le> BC_MAX_CODE \<Longrightarrow> bc_emit_f64 (bc_emit_byte cs OP_PUSH_FLT) v = put cs [I_PUSH_FLT v]"
  by (simp add: bc_emit_f64_def bc_emit_byte_def emit_ok put_def e64_def)

lemma parse_dec:
  assumes "ds \<noteq> []" "list_all isdigit8 ds" "stops rest" "length (code cs) + 9 \<le> BC_MAX_CODE"
  shows "source_parse_number cs (ds @ rest) = (T_INT, put cs [I_PUSH_INT (dec_value ds)], rest)"
proof -
  note st = stop_chars [OF stopsD [OF assms(3)]]
  have x: "toupper8 (at (drop 1 (ds @ rest))) \<noteq> 0x58" using assms digits_no_prefix stop_upper by blast
  have m: "mantissa_at 10 isdigit8 (ds @ rest) = (length ds, num_of 10 ds, 0)"
    using digits_scan [OF assms(2) st(1)] st(5) assms(1) by (simp add: mantissa_at_def Let_def)
  have d: "drop (length ds) (ds @ rest) = rest" by simp
  have "strtod_at (ds @ rest) = (scaled (num_of 10 ds) 10 0, length ds)"
    using x d assms(1) stop_upper [OF assms(3)] by (simp add: strtod_at_def m no_exponent split: prod.split del: drop_append)
  then show ?thesis
    using assms digits_no_mark digits_scan [OF assms(2) st(1)]
    by (simp add: source_parse_number_def emit_int strtoll_at_def dec_value_def)
qed

lemma parse_fix:
  assumes "a \<noteq> []" "list_all isdigit8 a" "b \<noteq> []" "list_all isdigit8 b" "stops rest" "length (code cs) + 9 \<le> BC_MAX_CODE"
  shows "source_parse_number cs (a @ 0x2E # b @ rest) = (T_NBR, put cs [I_PUSH_FLT (fix_value a b)], rest)"
proof -
  note st = stop_chars [OF stopsD [OF assms(5)]]
  let ?p = "a @ 0x2E # b @ rest"
  have nd: "\<not> isdigit8 (at (0x2E # b @ rest))" by (simp add: isdigit8_def)
  have x: "toupper8 (at (drop 1 ?p)) \<noteq> 0x58" using assms digits_no_prefix by (simp add: toupper8_def)
  have m: "mantissa_at 10 isdigit8 ?p = (length a + (1 + length b), num_of 10 (a @ b), length b)"
    using digits_scan [OF assms(2) nd] digits_scan [OF assms(4) st(1)] assms(1) by (simp add: mantissa_at_def Let_def)
  have d: "drop (Suc (length a + length b)) ?p = rest" by simp
  have "strtod_at ?p = (scaled (num_of 10 (a @ b)) 10 (- int (length b)), length a + (1 + length b))"
    using x d stop_upper [OF assms(5)] by (simp add: strtod_at_def m no_exponent split: prod.split del: drop_append)
  then show ?thesis
    using assms by (simp add: source_parse_number_def emit_flt fix_value_def scaled_def)
qed

section \<open>Primaries\<close>

lemma keyword_start: "tolower8 (at p) \<noteq> tolower8 (hd kw) \<Longrightarrow> kw \<noteq> [] \<Longrightarrow> source_keyword p kw = None"
  by (cases p; cases kw) (auto simp: source_keyword_def same_name_def)

lemma prefix_start: "tolower8 (at p) \<noteq> tolower8 (hd kw) \<Longrightarrow> kw \<noteq> [] \<Longrightarrow> \<not> same_name (take (length kw) p) kw"
  by (cases p; cases kw) (auto simp: same_name_def)

lemma mm_names:
  "list_all isnamechar (bytes_of ''MM.HRES'')" "bytes_of ''MM.HRES'' ! 2 = 0x2E" "length (bytes_of ''MM.HRES'') = 7" "tolower8 (hd (bytes_of ''MM.HRES'')) = 0x6D" "bytes_of ''MM.HRES'' \<noteq> []"
  "list_all isnamechar (bytes_of ''MM.VRES'')" "bytes_of ''MM.VRES'' ! 2 = 0x2E" "length (bytes_of ''MM.VRES'') = 7" "tolower8 (hd (bytes_of ''MM.VRES'')) = 0x6D" "bytes_of ''MM.VRES'' \<noteq> []"
  "list_all isnamechar (bytes_of ''MM.INFO'')" "bytes_of ''MM.INFO'' ! 2 = 0x2E" "length (bytes_of ''MM.INFO'') = 7" "tolower8 (hd (bytes_of ''MM.INFO'')) = 0x6D" "bytes_of ''MM.INFO'' \<noteq> []"
  by code_simp+

definition no_mm :: "cstr \<Rightarrow> bool" where
  "no_mm p \<longleftrightarrow> source_keyword p (bytes_of ''MM.HRES'') = None \<and> source_keyword p (bytes_of ''MM.VRES'') = None \<and>
     \<not> same_name (take 7 p) (bytes_of ''MM.INFO'')"

lemma no_mm_start: "tolower8 (at p) \<noteq> 0x6D \<Longrightarrow> no_mm p"
  using keyword_start [of p] prefix_start [of p "bytes_of ''MM.INFO''"] by (simp add: no_mm_def mm_names)

lemma no_mm_name:
  assumes "plain_name fe x" "stops rest"
  shows "no_mm (x @ rest)"
proof -
  note p = plain_nameD(5) [OF assms(1)]
  have k: "source_keyword (x @ rest) kw = None" if "list_all isnamechar kw" "kw ! 2 = 0x2E" "length kw = 7" for kw
    using not_dotted [OF assms(2) p that(1,2)] that(3) by (auto simp: source_keyword_def simp del: take_append)
  show ?thesis
    using k not_dotted [OF assms(2) p, of "bytes_of ''MM.INFO''" 2] by (simp add: no_mm_def mm_names del: take_append)
qed
section \<open>Readiness\<close>

lemma etype_num: "(\<And>x. x \<in> vars e \<Longrightarrow> var_ok fe cs x (\<Gamma> x)) \<Longrightarrow> etype \<Gamma> e \<in> {TI, TF}"
proof (induction e)
  case (E_VAR x)
  then have "var_ok fe cs x (\<Gamma> x)" by simp
  then show ?case by (cases "\<Gamma> x") (simp add: var_ok_def)
next
  case (E_BIN op a b)
  then show ?case by (cases op) (auto simp: result_type_def join_def)
qed auto

lemma ready_type: "ready fe \<Gamma> cs e \<Longrightarrow> etype \<Gamma> e = TI \<or> etype \<Gamma> e = TF"
  using etype_num unfolding ready_def by blast

lemma cvt_len: "length (assemble (cvt from to)) \<le> 1"
  by (simp add: cvt_def)

lemma op_len: "length (encode (op_instr op t)) = 1"
  by (cases op) auto

lemma butlast_len: "length (assemble (butlast is)) \<le> length (assemble is)"
  by (cases "is" rule: rev_cases) auto

lemma assemble_fused: "length (assemble (fused ab n)) \<le> length (assemble ab) + 10"
  by (cases ab) (auto simp: fused_def)

lemma fuse_bitsD:
  assumes "fuse_bits lvl \<Gamma> op a b = Some n"
  shows "\<exists>v. as_literal b = Some v \<and> op = O_IDIV \<and> as_product \<Gamma> a \<noteq> None \<and> lvl \<ge> 1 \<and> source_power_of_two_bits_i64 v = int n"
  using assms by (auto simp: fuse_bits_def split: option.splits if_splits)

lemma literal_need: "as_literal b = Some v \<Longrightarrow> code_need b \<ge> 9"
  by (induction b) (auto split: if_splits)

lemma code_len: "length (assemble (comp lvl \<Gamma> e)) \<le> code_need e"
proof (induction e)
  case (E_VAR x)
  then show ?case by (cases "\<Gamma> x") simp
next
  case (E_UN u e)
  then show ?case using cvt_len [of "etype \<Gamma> e" TI] by (cases u) (auto simp del: One_nat_def)
next
  case (E_BIN op a b)
  show ?case
  proof (cases "fuse_bits lvl \<Gamma> op a b")
    case None
    let ?t = "work_type op (etype \<Gamma> a) (etype \<Gamma> b)"
    show ?thesis using E_BIN None cvt_len [of "etype \<Gamma> a" ?t] cvt_len [of "etype \<Gamma> b" ?t] op_len [of op ?t]
      by (simp add: Let_def)
  next
    case (Some n)
    then have "code_need b \<ge> 9" using fuse_bitsD literal_need by blast
    then show ?thesis
      using E_BIN(1) Some assemble_fused [of "butlast (comp lvl \<Gamma> a)" n] butlast_len [of "comp lvl \<Gamma> a"] by simp
  qed
qed auto

lemma ready_left: "ready fe \<Gamma> cs (E_BIN op a b) \<Longrightarrow> ready fe \<Gamma> cs a"
  by (auto simp: ready_def)

lemma ready_right: "ready fe \<Gamma> cs (E_BIN op a b) \<Longrightarrow> ready fe \<Gamma> (put cs (comp lvl \<Gamma> a)) b"
  using code_len [of lvl \<Gamma> a] by (auto simp: ready_def)

lemma ready_room: "ready fe \<Gamma> cs e \<Longrightarrow> \<not> has_error cs \<and> length (code cs) + code_need e \<le> BC_MAX_CODE"
  by (simp add: ready_def)

section \<open>The layers below the binary operators\<close>

text \<open>A parser is right up to layer \<open>n\<close> on trees of less than \<open>d\<close> nested parentheses.\<close>

definition layer :: "frontend \<Rightarrow> scope_env \<Rightarrow> nat \<Rightarrow> parser \<Rightarrow> nat \<Rightarrow> bool" where
  "layer fe \<Gamma> d P n \<longleftrightarrow> (\<forall>e. fits n e \<longrightarrow> depth e < d \<longrightarrow> parses fe \<Gamma> P e (quiet n))"

lemma layerD:
  assumes "layer fe \<Gamma> d P n" "fits n e" "depth e < d" "ready fe \<Gamma> cs e" "list_all is_blank bl" "stops rest" "quiet n rest"
  shows "P cs (bl @ print_exp e @ rest) = (type_code (etype \<Gamma> e), put cs (comp (opt_level fe) \<Gamma> e), rest)"
  using assms unfolding layer_def parses_def by blast

lemma quiet_close [simp]: "stops (0x29 # rest)" "quiet n (0x29 # rest)"
  by (simp_all add: stops_def quiet_def source_skip_space_def mul_op_def shift_op_at_def bool_op_at_def keyword_start bytes_of_def
      tolower8_def source_match_compare_def)

lemma primary_start:
  assumes "\<not> is_blank (at p)" "list_all is_blank bl" "no_mm p" "at p \<noteq> 0x22" "at p \<noteq> 0x28" "at p \<noteq> 0x26"
  shows "source_parse_primary fe E cs (bl @ p) =
     (if isdigit8 (at p) \<or> at p = 0x2E then source_parse_number cs p
      else if isnamestart (at p) then source_parse_name fe E (bl @ p) cs p
      else (0, bc_set_error cs (''Unsupported expression near: '' @ cstr_string (take 24 p)), p))"
  using assms by (simp add: source_parse_primary_def skip_blank skip_none no_mm_def Let_def)

lemma name_chars:
  assumes "isnamestart c"
  shows "c \<noteq> 0x22" "c \<noteq> 0x28" "c \<noteq> 0x26" "c \<noteq> 0x2E" "\<not> isdigit8 c" "c \<noteq> 0x2B" "c \<noteq> 0x2D"
  using assms digit_chars(12) by (auto simp: isnamestart_def isalpha8_def)

lemma op_level_pos: "op_level op \<noteq> 0"
  by (cases op) auto

lemma primary_layer:
  assumes E: "layer fe \<Gamma> d E 7"
  shows "layer fe \<Gamma> (Suc d) (source_parse_primary fe E) 0"
  unfolding layer_def parses_def
proof (intro allI impI)
  fix e cs bl rest
  assume f: "fits 0 e" and d: "depth e < Suc d" and r: "ready fe \<Gamma> cs e" and b: "list_all is_blank bl" and s: "stops rest"
  note room = ready_room [OF r]
  show "source_parse_primary fe E cs (bl @ print_exp e @ rest) = (type_code (etype \<Gamma> e), put cs (comp (opt_level fe) \<Gamma> e), rest)"
  proof (cases e)
    case (E_DEC ds)
    then have ds: "ds \<noteq> []" "list_all isdigit8 ds" using r by (auto simp: ready_def)
    note h = digits_hd [OF ds, of rest]
    note c = digit_chars [OF conjunct1 [OF h]]
    have "no_mm (ds @ rest)" using h c by (intro no_mm_start) simp
    then show ?thesis
      using primary_start [of "ds @ rest" bl fe E cs] b h c parse_dec [OF ds s] room E_DEC by (simp add: type_code_def)
  next
    case (E_FIX x y)
    then have ds: "x \<noteq> []" "list_all isdigit8 x" "y \<noteq> []" "list_all isdigit8 y" using r by (auto simp: ready_def)
    note h = digits_hd [OF ds(1,2), of "0x2E # y @ rest"]
    note c = digit_chars [OF conjunct1 [OF h]]
    have "no_mm (x @ 0x2E # y @ rest)" using h c by (intro no_mm_start) simp
    then show ?thesis
      using primary_start [of "x @ 0x2E # y @ rest" bl fe E cs] b h c parse_fix [OF ds s] room E_FIX by (simp add: type_code_def)
  next
    case (E_VAR x)
    obtain sc slot t where g: "\<Gamma> x = (sc, slot, t)" by (cases "\<Gamma> x")
    then have v: "var_ok fe cs x (sc, slot, t)" using r E_VAR by (auto simp: ready_def)
    then have p: "plain_name fe x" by (simp add: var_ok_def)
    have a: "at (x @ rest) = hd x" using plain_nameD [OF p] by (simp add: at_append)
    note n = plain_nameD(2) [OF p] name_chars [OF plain_nameD(2) [OF p]] start_not_blank [OF plain_nameD(2) [OF p]]
    show ?thesis
      using primary_start [of "x @ rest" bl fe E cs] no_mm_name [OF p s] b a n parse_var [OF v _ s] room E_VAR g
      by simp
  next
    case (E_PAREN e')
    have i: "E cs (print_exp e' @ 0x29 # rest) = (type_code (etype \<Gamma> e'), put cs (comp (opt_level fe) \<Gamma> e'), 0x29 # rest)"
      using layerD [OF E, of e' cs "[]" "0x29 # rest"] f d r E_PAREN by (simp add: ready_def)
    show ?thesis
      using i b E_PAREN by (simp add: source_parse_primary_def skip_blank skip_none is_blank_def parse_paren_def Let_def)
  qed (use f op_level_pos in auto)
qed
section \<open>Unary operators\<close>

lemma kw_word [simp]:
  "bytes_of ''NOT'' = [0x4E, 0x4F, 0x54]" "bytes_of ''INV'' = [0x49, 0x4E, 0x56]" "bytes_of ''MOD'' = [0x4D, 0x4F, 0x44]"
  "bytes_of ''AND'' = [0x41, 0x4E, 0x44]" "bytes_of ''OR'' = [0x4F, 0x52]" "bytes_of ''XOR'' = [0x58, 0x4F, 0x52]"
  by (simp_all add: bytes_of_def)

lemma emit1: "encode i = [b] \<Longrightarrow> length (code cs) + length (assemble c) < BC_MAX_CODE \<Longrightarrow> bc_emit_byte (put cs c) b = put cs (c @ [i])"
  using emit_byte_put [of i b "put cs c"] by simp

lemma emit_to_int:
  assumes "t = TI \<or> t = TF" "length (code cs) + length (assemble c) < BC_MAX_CODE"
  shows "source_emit_int_conversion (put cs c) (type_code t) = put cs (c @ cvt t TI)"
  using assms emit1 [of I_CVT_F2I OP_CVT_F2I cs c] by (auto simp: source_emit_int_conversion_def type_code_def cvt_def T_INT_def T_NBR_def)

text \<open>A tree of layer 0 starts with neither a sign nor a keyword.\<close>

definition operand_start :: "cstr \<Rightarrow> bool" where
  "operand_start p \<longleftrightarrow> \<not> is_blank (at p) \<and> at p \<noteq> 0x2B \<and> at p \<noteq> 0x2D \<and> source_keyword p (bytes_of ''NOT'') = None \<and> source_keyword p (bytes_of ''INV'') = None"

lemma operand_start_char:
  "\<not> is_blank (at p) \<Longrightarrow> at p \<noteq> 0x2B \<Longrightarrow> at p \<noteq> 0x2D \<Longrightarrow> tolower8 (at p) \<noteq> 0x6E \<Longrightarrow> tolower8 (at p) \<noteq> 0x69 \<Longrightarrow> operand_start p"
  by (simp add: operand_start_def keyword_start tolower8_def)

lemma operand_start:
  assumes "fits 0 e" "ready fe \<Gamma> cs e" "stops rest"
  shows "operand_start (print_exp e @ rest)"
proof (cases e)
  case (E_DEC ds)
  then have ds: "ds \<noteq> []" "list_all isdigit8 ds" using assms by (auto simp: ready_def)
  note h = digits_hd [OF ds, of rest]
  show ?thesis using E_DEC h digit_chars [OF conjunct1 [OF h]] by (simp add: operand_start_char)
next
  case (E_FIX x y)
  then have ds: "x \<noteq> []" "list_all isdigit8 x" using assms by (auto simp: ready_def)
  note h = digits_hd [OF ds, of "0x2E # y @ rest"]
  show ?thesis using E_FIX h digit_chars [OF conjunct1 [OF h]] by (simp add: operand_start_char)
next
  case (E_VAR x)
  then have p: "plain_name fe x" using assms by (cases "\<Gamma> x") (auto simp: ready_def var_ok_def)
  note n = plain_nameD [OF p]
  have "\<not> same_name x (bytes_of ''NOT'')" "\<not> same_name x (bytes_of ''INV'')"
    using p same_name_length by (auto simp: plain_name_def named_def source_name_eq_def)
  then have "source_keyword (x @ rest) (bytes_of ''NOT'') = None" "source_keyword (x @ rest) (bytes_of ''INV'') = None"
    using not_keyword [OF assms(3) n(4)] by (simp_all add: isnamechar_def isalnum8_def isalpha8_def)
  then show ?thesis
    using E_VAR n(1,2) name_chars [OF n(2)] start_not_blank [OF n(2)] by (simp add: operand_start_def at_append)
next
  case (E_PAREN e')
  then show ?thesis by (simp add: operand_start_char is_blank_def tolower8_def)
qed (use assms op_level_pos in auto)

lemma unary_pass: "operand_start p \<Longrightarrow> list_all is_blank bl \<Longrightarrow> source_parse_unary n P cs (bl @ p) = P cs (bl @ p)"
  by (cases n) (simp_all add: operand_start_def skip_blank skip_none)

lemma not_here:
  "source_keyword (0x4E # 0x4F # 0x54 # 0x20 # t) [0x4E, 0x4F, 0x54] = Some (0x20 # t)"
  "source_keyword (0x49 # 0x4E # 0x56 # 0x20 # t) [0x49, 0x4E, 0x56] = Some (0x20 # t)"
  "source_keyword (0x49 # 0x4E # 0x56 # 0x20 # t) [0x4E, 0x4F, 0x54] = None"
  by (simp_all add: source_keyword_def same_name_def tolower8_def isnamechar_def isalnum8_def isalpha8_def isdigit8_def is_suffix_char_def)

lemma fits_down: "fits m e \<Longrightarrow> m \<le> n \<Longrightarrow> fits n e"
  by (cases e) auto

lemma fits_1: "fits 1 e \<Longrightarrow> (\<exists>u e'. e = E_UN u e') \<or> fits 0 e"
  by (cases e; cases "case e of E_BIN op a b \<Rightarrow> op | _ \<Rightarrow> O_ADD") auto

lemma unary_leaf:
  assumes "layer fe \<Gamma> d P 0" "fits 0 e" "depth e < d" "ready fe \<Gamma> cs e" "list_all is_blank bl" "stops rest"
  shows "source_parse_unary k P cs (bl @ print_exp e @ rest) = (type_code (etype \<Gamma> e), put cs (comp (opt_level fe) \<Gamma> e), rest)"
  using unary_pass [OF operand_start [OF assms(2,4,6)] assms(5)] layerD [OF assms] by (simp add: quiet_def)

lemma unary_parses:
  assumes P: "layer fe \<Gamma> d P 0"
  shows "fits 1 e \<Longrightarrow> depth e < d \<Longrightarrow> ready fe \<Gamma> cs e \<Longrightarrow> list_all is_blank bl \<Longrightarrow> stops rest \<Longrightarrow> length (print_exp e) \<le> k \<Longrightarrow>
    source_parse_unary k P cs (bl @ print_exp e @ rest) = (type_code (etype \<Gamma> e), put cs (comp (opt_level fe) \<Gamma> e), rest)"
proof (induction e arbitrary: k bl)
  case (E_UN u e)
  have r: "ready fe \<Gamma> cs e" using E_UN(4) by (simp add: ready_def)
  have f: "fits 1 e" "depth e < d" using E_UN(2,3) by auto
  obtain j where k: "k = Suc j" "length (print_exp e) \<le> j" using E_UN(7) by (cases k; cases u) auto
  have rec: "source_parse_unary j P cs (b @ print_exp e @ rest) = (type_code (etype \<Gamma> e), put cs (comp (opt_level fe) \<Gamma> e), rest)"
    if "list_all is_blank b" for b using E_UN(1) [OF f r that E_UN(6) k(2)] .
  note rec0 = rec [of "[]"] and rec1 = rec [of "[0x20]"]
  let ?c = "comp (opt_level fe) \<Gamma> e"
  have room: "length (code cs) + length (assemble ?c) + 2 \<le> BC_MAX_CODE" "\<not> has_error cs"
    using ready_room [OF E_UN(4)] code_len [of "opt_level fe" \<Gamma> e] by simp_all
  have t: "etype \<Gamma> e = TI \<or> etype \<Gamma> e = TF" using ready_type [OF r] .
  have conv: "source_emit_int_conversion (put cs ?c) (type_code (etype \<Gamma> e)) = put cs (?c @ cvt (etype \<Gamma> e) TI)"
    using emit_to_int [OF t, of cs ?c] room by simp
  have more: "encode i = [b] \<Longrightarrow> bc_emit_byte (put cs (?c @ cvt (etype \<Gamma> e) TI)) b = put cs (?c @ cvt (etype \<Gamma> e) TI @ [i])" for i b
    using emit1 [of i b cs "?c @ cvt (etype \<Gamma> e) TI"] room cvt_len [of "etype \<Gamma> e" TI] by simp
  have neg: "encode i = [b] \<Longrightarrow> bc_emit_byte (put cs ?c) b = put cs (?c @ [i])" for i b
    using emit1 [of i b cs ?c] room by simp
  have ti: "(type_code (etype \<Gamma> e) = T_INT) = (etype \<Gamma> e = TI)" "etype \<Gamma> e \<noteq> TI \<Longrightarrow> type_code (etype \<Gamma> e) = T_NBR" "T_INT = type_code TI"
    using t by (auto simp: type_code_def T_INT_def T_NBR_def)
  have sk: "source_skip_space (bl @ c # q) = c # q" if "c \<in> {0x2D, 0x2B, 0x4E, 0x49}" for c q
    using that skip_blank [OF E_UN(5), of "c # q"] skip_none [of "c # q"] by (auto simp: is_blank_def)
  have kw: "source_keyword (c # q) [0x4E, 0x4F, 0x54] = None" "source_keyword (c # q) [0x49, 0x4E, 0x56] = None"
    if "c \<in> {0x2D, 0x2B}" for c q
    using that by (auto simp: keyword_start tolower8_def)
  have blank: "list_all is_blank [0x20]" by (simp add: is_blank_def)
  show ?case
  proof (cases u)
    case U_NEG
    then show ?thesis
      using k rec0 room neg [of I_NEG_I OP_NEG_I] neg [of I_NEG_F OP_NEG_F] ti
      by (simp add: sk kw Let_def)
  next
    case U_PLUS
    then show ?thesis
      using k rec0 by (simp add: sk kw Let_def)
  next
    case U_NOT
    then show ?thesis
      using k rec1 blank conv more [of I_NOT OP_NOT] ti(3)
      by (simp add: sk not_here Let_def)
  next
    case U_INV
    then show ?thesis
      using k rec1 blank conv more [of I_INV OP_INV] ti(3)
      by (simp add: sk not_here Let_def)
  qed
next
  case (E_BIN op a b)
  then show ?case by (cases op) auto
next
  case (E_DEC ds)
  show ?case by (rule unary_leaf [OF P _ E_DEC(2-5)]) simp
next
  case (E_FIX x y)
  show ?case by (rule unary_leaf [OF P _ E_FIX(2-5)]) simp
next
  case (E_VAR x)
  show ?case by (rule unary_leaf [OF P _ E_VAR(2-5)]) simp
next
  case (E_PAREN e)
  show ?case by (rule unary_leaf [OF P _ E_PAREN(3-6)]) (use E_PAREN(2) in simp)
qed

lemma unary_layer:
  assumes "layer fe \<Gamma> d P 0"
  shows "layer fe \<Gamma> d (unary_at P) 1"
  using unary_parses [OF assms] by (auto simp: layer_def parses_def unary_at_def simp del: source_parse_unary.simps)

end
