(* ===== verification/ExprParse.thy ===== *)
theory ExprParse
  imports ExprLex
begin

text \<open>
  The layers of binary operators, from the lowest up: each loop extends the code of its left operand
  by the code of the right one, with conversions and fusions where the trees have them
  (\<open>chain\<close>), so \<open>source_parse_expression\<close> compiles the text of a tree to the code of the tree. With
  the execution of that code (\<open>ExprExec\<close>): compiled text computes the value of its tree.
\<close>

section \<open>Emission of the binary operators\<close>

lemma tc [simp]:
  "(type_code t = T_INT) = (t = TI)" "(type_code t = T_NBR) = (t = TF)" "is_str (type_code t) = (t = TS)"
  by (cases t; simp add: type_code_def T_INT_def T_NBR_def T_STR_def is_str_def)+

lemma type_code_inj [simp]: "type_code a = type_code b \<longleftrightarrow> a = b"
  by (cases a; cases b) (simp_all add: type_code_def T_INT_def T_NBR_def T_STR_def)

lemma type_codes: "T_INT = type_code TI" "T_NBR = type_code TF"
  by (simp_all add: type_code_def)

lemma insert_put:
  "encode i = [b] \<Longrightarrow> length (code cs) + length (assemble (ca @ cb)) < BC_MAX_CODE \<Longrightarrow>
   source_insert_byte (put cs (ca @ cb)) (length (code (put cs ca))) b = put cs (ca @ i # cb)"
  by (simp add: source_insert_byte_def put_def)

text \<open>The two operands with the conversions to the type of the operator.\<close>

definition operands :: "instr list \<Rightarrow> instr list \<Rightarrow> vty \<Rightarrow> vty \<Rightarrow> vty \<Rightarrow> instr list" where
  "operands ca cb ta tb t = ca @ cvt ta t @ cb @ cvt tb t"

lemma operands_len: "length (assemble (operands ca cb ta tb t)) \<le> length (assemble ca) + length (assemble cb) + 2"
  using cvt_len [of ta t] cvt_len [of tb t] by (simp add: operands_def)

lemma operands_same [simp]: "operands ca cb t t t = ca @ cb"
  by (simp add: operands_def cvt_def)

lemma convert_put:
  assumes "length (code cs) + length (assemble ca) + length (assemble cb) + 2 \<le> BC_MAX_CODE" "{ta, tb} \<subseteq> {TI, TF}"
  shows "convert_both (put cs (ca @ cb)) (type_code ta) (type_code tb) (length (code (put cs ca))) T_INT OP_CVT_I2F = put cs (operands ca cb ta tb TF)"
    and "convert_both (put cs (ca @ cb)) (type_code ta) (type_code tb) (length (code (put cs ca))) T_NBR OP_CVT_F2I = put cs (operands ca cb ta tb TI)"
  using assms insert_put [of I_CVT_I2F OP_CVT_I2F cs ca cb] insert_put [of I_CVT_F2I OP_CVT_F2I cs ca cb]
    emit1 [of I_CVT_I2F OP_CVT_I2F cs "ca @ I_CVT_I2F # cb"] emit1 [of I_CVT_I2F OP_CVT_I2F cs "ca @ cb"]
    emit1 [of I_CVT_F2I OP_CVT_F2I cs "ca @ I_CVT_F2I # cb"] emit1 [of I_CVT_F2I OP_CVT_F2I cs "ca @ cb"]
  by (auto simp: convert_both_def operands_def cvt_def)

lemma emit_ops:
  assumes "length (code cs) + length (assemble c) < BC_MAX_CODE"
  shows "bc_emit_byte (put cs c) OP_MUL_I = put cs (c @ [I_BIN_I MUL])" "bc_emit_byte (put cs c) OP_ADD_I = put cs (c @ [I_BIN_I ADD])"
    "bc_emit_byte (put cs c) OP_SUB_I = put cs (c @ [I_BIN_I SUB])" "bc_emit_byte (put cs c) OP_IDIV_I = put cs (c @ [I_BIN_I IDIV])"
    "bc_emit_byte (put cs c) OP_MOD_I = put cs (c @ [I_BIN_I MOD])" "bc_emit_byte (put cs c) OP_SHL = put cs (c @ [I_BIN_I SHL])"
    "bc_emit_byte (put cs c) OP_SHR = put cs (c @ [I_BIN_I SHR])" "bc_emit_byte (put cs c) OP_AND = put cs (c @ [I_BIN_I BAND])"
    "bc_emit_byte (put cs c) OP_OR = put cs (c @ [I_BIN_I BOR])" "bc_emit_byte (put cs c) OP_XOR = put cs (c @ [I_BIN_I BXOR])"
    "bc_emit_byte (put cs c) OP_MUL_F = put cs (c @ [I_BIN_F FMUL])" "bc_emit_byte (put cs c) OP_ADD_F = put cs (c @ [I_BIN_F FADD])"
    "bc_emit_byte (put cs c) OP_SUB_F = put cs (c @ [I_BIN_F FSUB])" "bc_emit_byte (put cs c) OP_DIV_F = put cs (c @ [I_BIN_F FDIV])"
    "bc_emit_byte (put cs c) OP_POW_F = put cs (c @ [I_BIN_F FPOW])" "bc_emit_byte (put cs c) (code_CMP t r) = put cs (c @ [I_CMP t r])"
  by (rule emit1 [OF _ assms]; simp add: code_BIN_I_def code_BIN_F_def)+

fun op_char :: "binop \<Rightarrow> char" where
  "op_char O_MUL = CHR ''*''" | "op_char O_DIV = CHR ''/''" | "op_char O_IDIV = CHR 0x5C" | "op_char O_MOD = CHR ''m''"
| "op_char O_ADD = CHR ''+''" | "op_char O_SUB = CHR ''-''" | "op_char _ = CHR ''?''"

definition binary_code :: "binop \<Rightarrow> instr list \<Rightarrow> instr list \<Rightarrow> vty \<Rightarrow> vty \<Rightarrow> instr list" where
  "binary_code op ca cb ta tb = operands ca cb ta tb (work_type op ta tb) @ [op_instr op (work_type op ta tb)]"

text \<open>What each emission routine makes of two operands.\<close>

definition emits :: "binop \<Rightarrow> (BCCompiler \<Rightarrow> u8 \<Rightarrow> u8 \<Rightarrow> nat \<Rightarrow> u8 \<times> BCCompiler) \<Rightarrow> bool" where
  "emits op f \<longleftrightarrow> (\<forall>cs ca cb ta tb. length (code cs) + length (assemble ca) + length (assemble cb) + 3 \<le> BC_MAX_CODE \<longrightarrow> {ta, tb} \<subseteq> {TI, TF} \<longrightarrow>
     f (put cs (ca @ cb)) (type_code ta) (type_code tb) (length (code (put cs ca))) =
       (type_code (result_type op ta tb), put cs (binary_code op ca cb ta tb)))"

lemma emits_numeric:
  assumes "op \<in> {O_MUL, O_DIV, O_IDIV, O_MOD, O_ADD, O_SUB}"
  shows "emits op (\<lambda>cs l r n. source_emit_numeric_binary cs l r n (op_char op))"
  unfolding emits_def
proof (intro allI impI)
  fix cs :: BCCompiler and ca cb ta tb
  assume r: "length (code cs) + length (assemble ca) + length (assemble cb) + 3 \<le> BC_MAX_CODE" and t: "{ta, tb} \<subseteq> {TI, TF}"
  show "source_emit_numeric_binary (put cs (ca @ cb)) (type_code ta) (type_code tb) (length (code (put cs ca))) (op_char op) =
       (type_code (result_type op ta tb), put cs (binary_code op ca cb ta tb))"
    using t r assms operands_len [of ca cb ta tb TI] operands_len [of ca cb ta tb TF]
    by (cases op; cases ta; cases tb; simp add: source_emit_numeric_binary_def result_type_def binary_code_def join_def
        convert_put [unfolded type_codes] emit_ops type_codes del: code_put)
qed

lemma emits_power: "emits O_POW (\<lambda>cs l r n. (T_NBR, emit_power cs l r n))"
  unfolding emits_def
proof (intro allI impI)
  fix cs :: BCCompiler and ca cb ta tb
  assume r: "length (code cs) + length (assemble ca) + length (assemble cb) + 3 \<le> BC_MAX_CODE" and t: "{ta, tb} \<subseteq> {TI, TF}"
  have "emit_power (put cs (ca @ cb)) (type_code ta) (type_code tb) (length (code (put cs ca))) =
      bc_emit_byte (convert_both (put cs (ca @ cb)) (type_code ta) (type_code tb) (length (code (put cs ca))) T_INT OP_CVT_I2F) OP_POW_F"
    using t by (auto simp: emit_power_def convert_both_def)
  then show "(T_NBR, emit_power (put cs (ca @ cb)) (type_code ta) (type_code tb) (length (code (put cs ca)))) =
       (type_code (result_type O_POW ta tb), put cs (binary_code O_POW ca cb ta tb))"
    using convert_put(1) [OF _ t, of cs ca cb] r operands_len [of ca cb ta tb TF]
    by (simp add: emit_ops result_type_def binary_code_def type_codes del: code_put)
qed

lemma emits_compare: "emits (O_CMP r) (\<lambda>cs l t n. source_emit_compare cs l t n r)"
  unfolding emits_def
proof (intro allI impI)
  fix cs :: BCCompiler and ca cb ta tb
  assume b: "length (code cs) + length (assemble ca) + length (assemble cb) + 3 \<le> BC_MAX_CODE" and t: "{ta, tb} \<subseteq> {TI, TF}"
  show "source_emit_compare (put cs (ca @ cb)) (type_code ta) (type_code tb) (length (code (put cs ca))) r =
       (type_code (result_type (O_CMP r) ta tb), put cs (binary_code (O_CMP r) ca cb ta tb))"
    using t b operands_len [of ca cb ta tb TI] operands_len [of ca cb ta tb TF]
    by (cases ta; cases tb; simp add: source_emit_compare_def result_type_def binary_code_def join_def
        convert_put [unfolded type_codes] emit_ops type_codes del: code_put)
qed

lemma emits_int:
  assumes "(op, b) \<in> {(O_SHL, OP_SHL), (O_SHR, OP_SHR), (O_AND, OP_AND), (O_OR, OP_OR), (O_XOR, OP_XOR)}"
  shows "emits op (\<lambda>cs l r n. source_emit_int_binary cs l r n b)"
  unfolding emits_def
proof (intro allI impI)
  fix cs :: BCCompiler and ca cb ta tb
  assume r: "length (code cs) + length (assemble ca) + length (assemble cb) + 3 \<le> BC_MAX_CODE" and t: "{ta, tb} \<subseteq> {TI, TF}"
  have "source_emit_int_binary (put cs (ca @ cb)) (type_code ta) (type_code tb) (length (code (put cs ca))) b =
      (T_INT, bc_emit_byte (convert_both (put cs (ca @ cb)) (type_code ta) (type_code tb) (length (code (put cs ca))) T_NBR OP_CVT_F2I) b)"
    using t by (auto simp: source_emit_int_binary_def convert_both_def)
  then show "source_emit_int_binary (put cs (ca @ cb)) (type_code ta) (type_code tb) (length (code (put cs ca))) b =
       (type_code (result_type op ta tb), put cs (binary_code op ca cb ta tb))"
    using assms convert_put(2) [OF _ t, of cs ca cb] r operands_len [of ca cb ta tb TI]
    by (auto simp: emit_ops result_type_def binary_code_def type_codes simp del: code_put)
qed
section \<open>A layer of left-associative operators\<close>

lemma after_op: "n < op_level op \<Longrightarrow> quiet n (0x20 # op_text op @ 0x20 # t)"
  by (cases op; (cases "case op of O_CMP r \<Rightarrow> r | _ \<Rightarrow> EQ")?)
    (auto simp: quiet_def source_skip_space_def mul_op_def shift_op_at_def source_match_compare_def bool_op_at_def keyword_start tolower8_def)

lemma after_op_stops: "stops (0x20 # op_text op @ 0x20 # t)"
  by (cases op; (cases "case op of O_CMP r \<Rightarrow> r | _ \<Rightarrow> EQ")?) (auto simp: stops_def source_skip_space_def)

lemma op_text_pos: "op_text op \<noteq> []"
  by (cases op; (cases "case op of O_CMP r \<Rightarrow> r | _ \<Rightarrow> EQ")?) auto

lemma quiet_down: "quiet n rest \<Longrightarrow> m \<le> n \<Longrightarrow> quiet m rest"
  by (auto simp: quiet_def Let_def)

text \<open>The left operand of a chain is a chain itself; the loop goes on where that chain has stopped.\<close>

lemma chain:
  fixes loop :: "nat \<Rightarrow> nat \<Rightarrow> u8 \<Rightarrow> parser"
  assumes U: "layer fe \<Gamma> d U m" and m: "m \<noteq> 5" "1 \<le> m"
    and start: "\<And>cs p t cs1 p1. U cs p = (t, cs1, p1) \<Longrightarrow> \<not> has_error cs1 \<Longrightarrow> S cs p = loop (Suc (length p1)) (length (code cs)) t cs1 p1"
    and step: "\<And>op a b cs rest k. op_level op = Suc m \<Longrightarrow> fits m b \<Longrightarrow> depth b < d \<Longrightarrow> ready fe \<Gamma> cs (E_BIN op a b) \<Longrightarrow>
      stops rest \<Longrightarrow> quiet m rest \<Longrightarrow>
      loop (Suc k) (length (code cs)) (type_code (etype \<Gamma> a)) (put cs (comp (opt_level fe) \<Gamma> a)) (0x20 # op_text op @ 0x20 # print_exp b @ rest) =
      loop k (length (code cs)) (type_code (etype \<Gamma> (E_BIN op a b))) (put cs (comp (opt_level fe) \<Gamma> (E_BIN op a b))) rest"
    and exit: "\<And>k es t cs rest. quiet (Suc m) rest \<Longrightarrow> loop (Suc k) es t cs rest = (t, cs, rest)"
  shows "layer fe \<Gamma> d S (Suc m)"
proof -
  have base: "\<exists>k \<ge> Suc (length rest). S cs (bl @ print_exp e @ rest) =
      loop k (length (code cs)) (type_code (etype \<Gamma> e)) (put cs (comp (opt_level fe) \<Gamma> e)) rest"
    if "fits m e" "depth e < d" "ready fe \<Gamma> cs e" "list_all is_blank bl" "stops rest" "quiet m rest" for e cs bl rest
    using start [OF layerD [OF U that]] ready_room [OF that(3)] by auto
  have spine: "\<exists>k \<ge> Suc (length rest). S cs (bl @ print_exp e @ rest) =
      loop k (length (code cs)) (type_code (etype \<Gamma> e)) (put cs (comp (opt_level fe) \<Gamma> e)) rest"
    if "fits (Suc m) e" "depth e < d" "ready fe \<Gamma> cs e" "list_all is_blank bl" "stops rest" "quiet m rest" for e cs bl rest
    using that
  proof (induction e arbitrary: rest)
    case (E_BIN op a b)
    show ?case
    proof (cases "op_level op = Suc m")
      case True
      let ?r = "0x20 # op_text op @ 0x20 # print_exp b @ rest"
      have f: "fits (Suc m) a" "fits m b" "depth a < d" "depth b < d" using E_BIN(3,4) True m by auto
      have q: "quiet m ?r" using True by (intro after_op) simp
      obtain k where k: "k \<ge> Suc (length ?r)"
        "S cs (bl @ print_exp a @ ?r) = loop k (length (code cs)) (type_code (etype \<Gamma> a)) (put cs (comp (opt_level fe) \<Gamma> a)) ?r"
        using E_BIN(1) [OF f(1,3) ready_left [OF E_BIN(5)] E_BIN(6) after_op_stops q] by blast
      obtain j where j: "k = Suc j" "j \<ge> Suc (length rest)" using k(1) by (cases k) auto
      have "S cs (bl @ print_exp (E_BIN op a b) @ rest) =
          loop j (length (code cs)) (type_code (etype \<Gamma> (E_BIN op a b))) (put cs (comp (opt_level fe) \<Gamma> (E_BIN op a b))) rest"
        using k(2) step [OF True f(2,4) E_BIN(5,7,8)] j(1) by (simp only: print_exp.simps append_assoc append_Cons)
      then show ?thesis using j(2) by blast
    next
      case False
      then have "fits m (E_BIN op a b)" using E_BIN(3) by auto
      then show ?thesis using base E_BIN(4-8) by blast
    qed
  next
    case (E_PAREN e)
    show ?case by (rule base [OF _ E_PAREN(3-7)]) (use E_PAREN(2) in simp)
  next
    case (E_UN u e)
    show ?case by (rule base [OF _ E_UN(3-7)]) (use E_UN(2) m(2) in simp)
  qed (rule base; simp)+
  show ?thesis
    unfolding layer_def parses_def
  proof (intro allI impI)
    fix e cs bl rest
    assume "fits (Suc m) e" "depth e < d" "ready fe \<Gamma> cs e" "list_all is_blank bl" "stops rest" and q: "quiet (Suc m) rest"
    then obtain k where "k \<ge> Suc (length rest)" "S cs (bl @ print_exp e @ rest) =
        loop k (length (code cs)) (type_code (etype \<Gamma> e)) (put cs (comp (opt_level fe) \<Gamma> e)) rest"
      using spine quiet_down [OF q, of m] by fastforce
    then show "S cs (bl @ print_exp e @ rest) = (type_code (etype \<Gamma> e), put cs (comp (opt_level fe) \<Gamma> e), rest)"
      using exit [OF q] by (cases k) auto
  qed
qed
section \<open>Powers, shifts, comparisons, logic\<close>

lemma right_operand:
  assumes "layer fe \<Gamma> d U m" "fits m b" "depth b < d" "ready fe \<Gamma> cs (E_BIN op a b)" "stops rest" "quiet m rest"
  shows "U (put cs (comp (opt_level fe) \<Gamma> a)) (0x20 # print_exp b @ rest) =
     (type_code (etype \<Gamma> b), put cs (comp (opt_level fe) \<Gamma> a @ comp (opt_level fe) \<Gamma> b), rest)"
  using layerD [OF assms(1-3) ready_right [OF assms(4)] _ assms(5,6), of "[0x20]"] by (simp add: is_blank_def)

lemma emitsD:
  assumes "emits op f" "ready fe \<Gamma> cs (E_BIN op a b)"
  shows "f (put cs (comp (opt_level fe) \<Gamma> a @ comp (opt_level fe) \<Gamma> b)) (type_code (etype \<Gamma> a)) (type_code (etype \<Gamma> b))
      (length (code (put cs (comp (opt_level fe) \<Gamma> a)))) =
     (type_code (etype \<Gamma> (E_BIN op a b)), put cs (binary_code op (comp (opt_level fe) \<Gamma> a) (comp (opt_level fe) \<Gamma> b) (etype \<Gamma> a) (etype \<Gamma> b)))"
proof -
  have "length (code cs) + length (assemble (comp (opt_level fe) \<Gamma> a)) + length (assemble (comp (opt_level fe) \<Gamma> b)) + 3 \<le> BC_MAX_CODE"
    using ready_room [OF assms(2)] code_len [of "opt_level fe" \<Gamma> a] code_len [of "opt_level fe" \<Gamma> b] by simp
  moreover have "{etype \<Gamma> a, etype \<Gamma> b} \<subseteq> {TI, TF}"
    using ready_type [OF ready_left [OF assms(2)]] ready_type [OF ready_right [OF assms(2)]] by auto
  ultimately show ?thesis using assms(1) unfolding emits_def etype.simps by blast
qed

lemma comp_plain: "fuse_bits lvl \<Gamma> op a b = None \<Longrightarrow>
    comp lvl \<Gamma> (E_BIN op a b) = binary_code op (comp lvl \<Gamma> a) (comp lvl \<Gamma> b) (etype \<Gamma> a) (etype \<Gamma> b)"
  by (simp add: binary_code_def operands_def Let_def)

lemma no_fuse: "op \<noteq> O_IDIV \<Longrightarrow> fuse_bits lvl \<Gamma> op a b = None"
  by (simp add: fuse_bits_def split: option.split)

lemma skip_op [simp]: "source_skip_space (0x20 # op_text op @ t) = op_text op @ t"
  by (cases op; (cases "case op of O_CMP r \<Rightarrow> r | _ \<Rightarrow> EQ")?) (auto simp: source_skip_space_def)

lemma power_layer:
  assumes "layer fe \<Gamma> d U 1"
  shows "layer fe \<Gamma> d (source_parse_power_expr U) 2"
proof -
  have "layer fe \<Gamma> d (source_parse_power_expr U) (Suc 1)"
  proof (rule chain [OF assms, where loop = "\<lambda>k es t. power_loop k U t"])
    fix op a b cs rest k
    assume l: "op_level op = Suc 1" and h: "fits 1 b" "depth b < d" and r: "ready fe \<Gamma> cs (E_BIN op a b)" and s: "stops rest" "quiet 1 rest"
    have op: "op = O_POW" using l by (cases op) auto
    show "power_loop (Suc k) U (type_code (etype \<Gamma> a)) (put cs (comp (opt_level fe) \<Gamma> a)) (0x20 # op_text op @ 0x20 # print_exp b @ rest) =
        power_loop k U (type_code (etype \<Gamma> (E_BIN op a b))) (put cs (comp (opt_level fe) \<Gamma> (E_BIN op a b))) rest"
      using right_operand [OF assms h r s] emitsD [OF emits_power, of fe \<Gamma> cs a b] r ready_room [OF r] op
      by (simp add: source_skip_space_def comp_plain no_fuse del: comp.simps code_put)
  qed (simp_all add: source_parse_power_expr_def quiet_def Let_def)
  then show ?thesis by (simp add: eval_nat_numeral)
qed

lemma shift_layer:
  assumes "layer fe \<Gamma> d U 4"
  shows "layer fe \<Gamma> d (source_parse_shift_expr U) 5"
proof -
  have "layer fe \<Gamma> d (source_parse_shift_expr U) (Suc 4)"
  proof (rule chain [OF assms, where loop = "\<lambda>k es t. shift_loop k U t"])
    fix op a b cs rest k
    assume l: "op_level op = Suc 4" and h: "fits 4 b" "depth b < d" and r: "ready fe \<Gamma> cs (E_BIN op a b)" and s: "stops rest" "quiet 4 rest"
    obtain v where op: "(op, v) \<in> {(O_SHL, OP_SHL), (O_SHR, OP_SHR)}" using l by (cases op) auto
    then have "shift_op_at (op_text op @ t) = Some v" "drop 2 (op_text op @ t) = t" for t by (auto simp: shift_op_at_def)
    then show "shift_loop (Suc k) U (type_code (etype \<Gamma> a)) (put cs (comp (opt_level fe) \<Gamma> a)) (0x20 # op_text op @ 0x20 # print_exp b @ rest) =
        shift_loop k U (type_code (etype \<Gamma> (E_BIN op a b))) (put cs (comp (opt_level fe) \<Gamma> (E_BIN op a b))) rest"
      using right_operand [OF assms h r s] emitsD [OF emits_int r, of v] r ready_room [OF r] op
      by (auto simp add: comp_plain no_fuse simp del: comp.simps code_put drop_append)
  qed (simp_all add: source_parse_shift_expr_def quiet_def Let_def)
  then show ?thesis by (simp add: eval_nat_numeral)
qed
text \<open>An operand of a logical operator: a shift expression or a comparison of two.\<close>

definition cmp_expr :: "parser \<Rightarrow> parser" where
  "cmp_expr S cs pp =
     (let (left, cs1, p1) = S cs pp in
      if has_error cs1 then (0, cs1, pp)
      else case compare_tail S left cs1 p1 of (cs2, None) \<Rightarrow> (0, cs2, pp) | (cs2, Some (t, p2)) \<Rightarrow> (t, cs2, p2))"

lemma compare_tail_None: "compare_tail S left cs p = (cs2, None) \<Longrightarrow> has_error cs2"
  by (auto simp: compare_tail_def Let_def split: option.splits prod.splits if_splits)

lemma cmp_exprE:
  assumes "cmp_expr S cs pp = (t, cs2, p2)" "\<not> has_error cs2"
  obtains left cs1 p1 where "S cs pp = (left, cs1, p1)" "\<not> has_error cs1" "compare_tail S left cs1 p1 = (cs2, Some (t, p2))"
  using assms compare_tail_None [of S] by (auto simp: cmp_expr_def Let_def split: prod.splits if_splits option.splits)

lemma match_compare: "source_match_compare (0x20 # rel_text r @ 0x20 # t) = Some (r, 0x20 # t)"
  by (cases r) (simp_all add: source_match_compare_def source_skip_space_def)

lemma cmp_layer:
  assumes S: "layer fe \<Gamma> d S 5"
  shows "layer fe \<Gamma> d (cmp_expr S) 6"
  unfolding layer_def parses_def
proof (intro allI impI)
  fix e cs bl rest
  assume f: "fits 6 e" "depth e < d" and r: "ready fe \<Gamma> cs e" and b: "list_all is_blank bl" and s: "stops rest" and q: "quiet 6 rest"
  show "cmp_expr S cs (bl @ print_exp e @ rest) = (type_code (etype \<Gamma> e), put cs (comp (opt_level fe) \<Gamma> e), rest)"
  proof (cases "fits 5 e")
    case True
    have "source_match_compare rest = None" using q by (simp add: quiet_def Let_def)
    then show ?thesis
      using layerD [OF S True f(2) r b s quiet_down [OF q]] ready_room [OF r] by (simp add: cmp_expr_def compare_tail_def)
  next
    case False
    then obtain op x y where e0: "e = E_BIN op x y" "op_level op = 6" using f by (cases e) auto
    then obtain rel where e: "e = E_BIN (O_CMP rel) x y" by (cases op) auto
    let ?r = "0x20 # op_text (O_CMP rel) @ 0x20 # print_exp y @ rest"
    have xy: "fits 5 x" "fits 5 y" "depth x < d" "depth y < d" using f e by auto
    have q5: "quiet 5 ?r" "quiet 5 rest" using after_op [of 5 "O_CMP rel" "print_exp y @ rest"] quiet_down [OF q, of 5] by simp_all
    note rr = r [unfolded e]
    note left = layerD [OF S xy(1,3) ready_left [OF rr] b after_op_stops q5(1)]
    note right = right_operand [OF S xy(2,4) rr s q5(2)]
    show ?thesis
      using left right emitsD [OF emits_compare rr] ready_room [OF r] e match_compare [of rel "print_exp y @ rest"]
      by (simp add: cmp_expr_def compare_tail_def comp_plain no_fuse del: comp.simps code_put)
  qed
qed

lemma bool_op_text: "op_level op = 7 \<Longrightarrow>
    \<exists>v. (op, v) \<in> {(O_AND, OP_AND), (O_OR, OP_OR), (O_XOR, OP_XOR)} \<and> (\<forall>t. bool_op_at (op_text op @ 0x20 # t) = Some (v, 0x20 # t))"
  by (cases op) (auto simp: bool_op_at_def source_keyword_def same_name_def tolower8_def isnamechar_def isalnum8_def isalpha8_def isdigit8_def is_suffix_char_def)

lemma bool_step:
  assumes "cmp_expr S cs q = (right, cs2, p2)" "\<not> has_error cs2" "bool_op_at (source_skip_space pp) = Some (v, q)"
  shows "bool_loop (Suc n) S left cs pp =
     (let (ty, cs3) = source_emit_int_binary cs2 left right (length (code cs)) v in bool_loop n S ty cs3 p2)"
proof -
  obtain l cs1 p1 where "S cs q = (l, cs1, p1)" "\<not> has_error cs1" "compare_tail S l cs1 p1 = (cs2, Some (right, p2))"
    using cmp_exprE [OF assms(1,2)] by blast
  then show ?thesis by (simp add: assms(3) Let_def)
qed

lemma expression_start:
  assumes "cmp_expr S cs p = (t, cs1, p1)" "\<not> has_error cs1"
  shows "expression_over S cs p = bool_loop (Suc (length p1)) S t cs1 p1"
proof -
  obtain l cs0 p0 where "S cs p = (l, cs0, p0)" "\<not> has_error cs0" "compare_tail S l cs0 p0 = (cs1, Some (t, p1))"
    using cmp_exprE [OF assms] by blast
  then show ?thesis by (simp add: expression_over_def Let_def)
qed

lemma bool_layer:
  assumes S: "layer fe \<Gamma> d S 5"
  shows "layer fe \<Gamma> d (expression_over S) 7"
proof -
  note U = cmp_layer [OF S]
  have "layer fe \<Gamma> d (expression_over S) (Suc 6)"
  proof (rule chain [OF U, where loop = "\<lambda>k es t. bool_loop k S t"])
    fix op a b cs rest k
    assume l: "op_level op = Suc 6" and h: "fits 6 b" "depth b < d" and r: "ready fe \<Gamma> cs (E_BIN op a b)" and s: "stops rest" "quiet 6 rest"
    obtain v where op: "(op, v) \<in> {(O_AND, OP_AND), (O_OR, OP_OR), (O_XOR, OP_XOR)}"
      and at: "\<And>t. bool_op_at (op_text op @ 0x20 # t) = Some (v, 0x20 # t)" using bool_op_text [of op] l by auto
    have em: "emits op (\<lambda>cs l r n. source_emit_int_binary cs l r n v)" using op by (intro emits_int) auto
    have nf: "fuse_bits (opt_level fe) \<Gamma> op a b = None" using op by (intro no_fuse) auto
    note step = bool_step [OF right_operand [OF U h r s], where pp = "0x20 # op_text op @ 0x20 # print_exp b @ rest" and v = v and left = "type_code (etype \<Gamma> a)" and n = k]
    show "bool_loop (Suc k) S (type_code (etype \<Gamma> a)) (put cs (comp (opt_level fe) \<Gamma> a)) (0x20 # op_text op @ 0x20 # print_exp b @ rest) =
        bool_loop k S (type_code (etype \<Gamma> (E_BIN op a b))) (put cs (comp (opt_level fe) \<Gamma> (E_BIN op a b))) rest"
      using step at ready_room [OF r] by (simp add: emitsD [OF em r] comp_plain [OF nf] del: comp.simps code_put bool_loop.simps)
  qed (simp_all add: expression_start quiet_def Let_def)
  then show ?thesis by (simp add: eval_nat_numeral)
qed
section \<open>The bytes the fusions look at\<close>

lemma comp_not_Nil: "comp lvl \<Gamma> e \<noteq> []"
  by (induction e) (auto simp: fused_def Let_def split: option.split prod.split)

lemma assemble_Nil_iff [simp]: "assemble is = [] \<longleftrightarrow> is = []"
  by (cases "is") auto

lemma first_push:
  assumes "hd (encode i) = OP_PUSH_INT"
  shows "\<exists>v. i = I_PUSH_INT v"
proof -
  have ok: "for_ok i" using assms by (cases i) (auto simp: for_ok_def code_FOR_INIT_def code_FOR_NEXT_def opcodes split: vty.splits)
  obtain t where "encode i = OP_PUSH_INT # t" using assms by (cases "encode i") auto
  then have "decode (OP_PUSH_INT # t) = Instr i []" using decode_encode [OF ok, of "[]"] by (simp del: decode_simp)
  then show ?thesis by (auto simp: decode_lookup get64_def ret_def split: if_splits)
qed

lemma first_load:
  assumes "hd (encode i) = code_LOAD sc TI"
  shows "\<exists>n. i = I_LOAD sc TI n"
proof -
  have ok: "for_ok i" using assms by (cases i; cases sc) (auto simp: for_ok_def code_FOR_INIT_def code_FOR_NEXT_def code_LOAD_def opcodes split: vty.splits)
  obtain t where "encode i = code_LOAD sc TI # t" using assms by (cases "encode i") auto
  then have "decode (code_LOAD sc TI # t) = Instr i []" using decode_encode [OF ok, of "[]"] by (simp del: decode_simp)
  then show ?thesis by (cases sc) (auto simp: code_LOAD_def decode_lookup get16_def ret_def split: if_splits)
qed

lemma comp_push: "comp lvl \<Gamma> e = [I_PUSH_INT v] \<Longrightarrow> as_literal e = Some v"
proof (induction e)
  case (E_UN u e)
  then show ?case using comp_not_Nil [of lvl \<Gamma> e] by (cases u) (auto simp: append_eq_Cons_conv)
next
  case (E_BIN op a b)
  then show ?case using comp_not_Nil [of lvl \<Gamma> a] comp_not_Nil [of lvl \<Gamma> b]
    by (auto simp: fused_def Let_def append_eq_Cons_conv split: option.splits if_splits)
qed (auto split: prod.splits)

lemma nine_bytes:
  assumes "length (assemble (comp lvl \<Gamma> e)) = 9" "hd (assemble (comp lvl \<Gamma> e)) = OP_PUSH_INT"
  shows "\<exists>v. as_literal e = Some v"
proof -
  obtain i "is" where c: "comp lvl \<Gamma> e = i # is" using comp_not_Nil by (cases "comp lvl \<Gamma> e") auto
  then obtain v where "i = I_PUSH_INT v" using first_push [of i] assms(2) by auto
  then have "comp lvl \<Gamma> e = [I_PUSH_INT v]" using assms(1) c by simp
  then show ?thesis using comp_push by blast
qed

lemma e_not_Nil [simp]: "e16 w \<noteq> []" "e64 v \<noteq> []"
  by (auto simp flip: length_0_conv)

lemma e16_inj [simp]: "e16 w = e16 v \<longleftrightarrow> w = v"
proof -
  have "of_nat (le_dec (e16 x)) = x" for x unfolding e16_def by (rule of_nat_le_dec_enc_unat) simp
  then show ?thesis by metis
qed

lemma last_assemble: "last (assemble (is @ [i])) = last (encode i)"
  by simp

lemma last_slot: "unat slot < BC_MAX_SLOTS \<Longrightarrow> last (e16 slot) \<in> {0, 1}"
proof -
  assume "unat slot < BC_MAX_SLOTS"
  then have "unat slot div 256 = 0 \<or> unat slot div 256 = 1" by (simp add: BC_MAX_SLOTS_def) arith
  then show ?thesis by (auto simp: e16_def numeral_2_eq_2)
qed

text \<open>Only a product ends in the opcode of a multiplication, and nothing here ends in \<open>MULSHR\<close>.\<close>

lemma last_byte:
  assumes "ready fe \<Gamma> cs e" "etype \<Gamma> e = TI"
  shows "last (assemble (comp lvl \<Gamma> e)) \<noteq> OP_MATH_MULSHR \<and> (last (assemble (comp lvl \<Gamma> e)) = OP_MUL_I \<longrightarrow> as_product \<Gamma> e \<noteq> None)"
  using assms
proof (induction e)
  case (E_DEC ds)
  then show ?case by (auto simp: ready_def)
next
  case (E_VAR x)
  obtain sc slot t where g: "\<Gamma> x = (sc, slot, t)" by (cases "\<Gamma> x")
  then have "unat slot < BC_MAX_SLOTS" using E_VAR by (auto simp: ready_def var_ok_def)
  then show ?case using last_slot [of slot] g by (auto simp: opcodes)
next
  case (E_PAREN e)
  then show ?case by (simp add: ready_def)
next
  case (E_UN u e)
  then show ?case by (cases u) (auto simp: ready_def opcodes)
next
  case (E_BIN op a b)
  show ?case
  proof (cases "fuse_bits lvl \<Gamma> op a b")
    case None
    then show ?thesis
      using E_BIN(4) by (cases op) (auto simp: comp_plain binary_code_def result_type_def join_def code_BIN_I_def code_BIN_F_def code_CMP_def
          opcodes simp del: comp.simps split: if_splits rel.splits vty.splits)
  next
    case (Some n)
    then show ?thesis by (simp add: fused_def code_MATH_def opcodes)
  qed
qed auto
section \<open>The fused product\<close>

definition square_bytes :: "u8 list \<Rightarrow> u8 \<Rightarrow> bool" where
  "square_bytes A op \<longleftrightarrow> A ! 0 = op \<and> A ! 3 = op \<and> take 2 (drop 1 A) = take 2 (drop 4 A)"

lemma same_load_square:
  "length A = 6 \<Longrightarrow> same_load (cs\<lparr>code := C @ A @ P\<rparr>) op (length C) (length C + 3) = square_bytes A op"
  by (simp add: same_load_def square_bytes_def nth_append)

lemma square_load: "square_bytes (assemble [I_LOAD sc TI n, I_LOAD sc TI n]) (code_LOAD sc TI)"
  by (simp add: square_bytes_def e16_def numeral_2_eq_2)

lemma square_code:
  assumes "length (assemble ab) = 6" "square_bytes (assemble ab) (code_LOAD sc TI)"
  shows "\<exists>n. ab = [I_LOAD sc TI n, I_LOAD sc TI n]"
proof -
  obtain i "is" where ab: "ab = i # is" using assms(1) by (cases ab) auto
  have "hd (encode i) = code_LOAD sc TI" using assms(2) ab by (cases "encode i") (auto simp: square_bytes_def)
  then obtain n where n: "i = I_LOAD sc TI n" using first_load by blast
  then have l: "length (assemble is) = 3" using assms(1) ab by simp
  then obtain j js where "is": "is = j # js" by (cases "is") auto
  have "hd (encode j) = code_LOAD sc TI" using assms(2) ab n "is" by (cases "encode j") (auto simp: square_bytes_def nth_append)
  then obtain k where k: "j = I_LOAD sc TI k" using first_load by blast
  then have "js = []" using l "is" by simp
  moreover have "n = k" using assms(2) ab n "is" k by (simp add: square_bytes_def)
  ultimately show ?thesis using ab n "is" k by blast
qed

lemma fused_square:
  "fused ab n = (if length (assemble ab) = 6 \<and> (square_bytes (assemble ab) OP_LOAD_I \<or> square_bytes (assemble ab) OP_LOAD_LOCAL_I)
     then [hd ab, I_PUSH_INT (of_nat n), I_MATH SQRDIV] else ab @ [I_PUSH_INT (of_nat n), I_MATH MULDIV])"
proof -
  have sq: "(\<exists>k. ab = [I_LOAD sc TI k, I_LOAD sc TI k]) = (length (assemble ab) = 6 \<and> square_bytes (assemble ab) (code_LOAD sc TI))" for sc
    using square_code square_load by auto
  have "(length ab = 2 \<and> ab ! 0 = ab ! 1 \<and> is_load_i (ab ! 0)) = (\<exists>sc k. ab = [I_LOAD sc TI k, I_LOAD sc TI k])"
    by (auto simp: length_Suc_conv numeral_2_eq_2 is_load_i_def split: instr.splits)
  also have "\<dots> = (length (assemble ab) = 6 \<and> (square_bytes (assemble ab) OP_LOAD_I \<or> square_bytes (assemble ab) OP_LOAD_LOCAL_I))"
    using sq [of Global] sq [of Local] by (auto simp: code_LOAD_def) (metis scope.exhaust)+
  finally show ?thesis by (cases ab) (auto simp: fused_def)
qed
lemma small_power: "n \<le> 62 \<Longrightarrow> unat (of_nat n :: u64) = n"
proof -
  assume "n \<le> 62"
  then have "take_bit 64 n = n" by (intro take_bit_nat_eq_self) (rule less_le_trans [of _ "2 ^ 6"], simp_all)
  then show ?thesis by (simp add: unsigned_of_nat)
qed

lemma splice_tail: "length p = length q \<Longrightarrow> splice (a @ p) (length a) q = a @ q"
  by (simp add: splice_def)

lemma fuse_yes:
  assumes "lvl \<ge> 1" "\<not> has_error cs" "source_power_of_two_bits_i64 v = int n"
    and room: "length (code cs) + length (assemble ab) + 10 \<le> BC_MAX_CODE"
  shows "source_try_fuse_mulshr lvl (put cs (ab @ [I_BIN_I MUL] @ [I_PUSH_INT v])) T_INT T_INT (length (code cs))
      (length (code (put cs (ab @ [I_BIN_I MUL])))) = (True, put cs (fused ab n))"
proof -
  let ?A = "assemble ab" and ?e = "length (code cs)"
  let ?rs = "?e + length ?A + 1"
  let ?cs0 = "put cs (ab @ [I_BIN_I MUL] @ [I_PUSH_INT v])"
  have mul: "code_BIN_I MUL = OP_MUL_I" by (simp add: code_BIN_I_def)
  have c0: "code ?cs0 = (code cs @ ?A) @ OP_MUL_I # OP_PUSH_INT # e64 v" by (simp add: mul)
  have n: "n \<le> 62" using power_bits(1) [OF assms(3)] .
  have at1: "code ?cs0 ! (?rs - 1) = OP_MUL_I" "code ?cs0 ! ?rs = OP_PUSH_INT" unfolding c0 by (simp_all add: nth_append)
  have lit: "code_i64 ?cs0 (?rs + 1) = v" unfolding code_i64_def c0 by (simp add: e64_def of_nat_le_dec_enc_unat)
  have del: "source_delete_bytes ?cs0 (?e + length ?A) 1 = put cs (ab @ [I_PUSH_INT v])"
    unfolding source_delete_bytes_def c0 by (simp add: put_def mul)
  have spl: "splice (code (put cs (ab @ [I_PUSH_INT v]))) (?e + length ?A) (OP_PUSH_INT # le_enc 8 n) =
      code cs @ ?A @ OP_PUSH_INT # le_enc 8 n"
    using splice_tail [of "OP_PUSH_INT # e64 v" "OP_PUSH_INT # le_enc 8 n" "code cs @ ?A"] by simp
  let ?cs2 = "put cs (ab @ [I_PUSH_INT (of_nat n)])"
  have cs2: "(put cs (ab @ [I_PUSH_INT v]))\<lparr>code := code cs @ ?A @ OP_PUSH_INT # le_enc 8 n\<rparr> = ?cs2"
    using n by (simp add: put_def e64_def small_power)
  have sq: "same_load ?cs2 op ?e (?e + 3) = square_bytes ?A op" if "length ?A = 6" for op
    using same_load_square [OF that, where cs = cs and C = "code cs" and P = "OP_PUSH_INT # e64 (of_nat n)"] by (simp add: put_def)
  have emit: "bc_emit_byte (put cs (c @ [I_PUSH_INT (of_nat n)])) (code_MATH f) = put cs (c @ [I_PUSH_INT (of_nat n), I_MATH f])"
    if "length (assemble c) \<le> length ?A" for c f
    using emit1 [of "I_MATH f" "code_MATH f" cs "c @ [I_PUSH_INT (of_nat n)]"] room that by simp
  have sqdel: "source_delete_bytes ?cs2 (?e + 3) 3 = put cs [hd ab, I_PUSH_INT (of_nat n)]" if "length ?A = 6" "square_bytes ?A (code_LOAD sc TI)" for sc
    using square_code [OF that] by (auto simp: source_delete_bytes_def put_def)
  have m: "code_MATH SQRDIV = OP_MATH_SQRDIV" "code_MATH MULDIV = OP_MATH_MULDIV" by (simp_all add: code_MATH_def)
  have len1: "length (assemble [hd ab]) \<le> length ?A" if "length ?A = 6" using that by (cases ab) auto
  have rs: "length (code (put cs (ab @ [I_BIN_I MUL]))) = ?rs" by (simp add: mul)
  have final: "source_try_fuse_mulshr lvl ?cs0 T_INT T_INT ?e ?rs =
     (if length ?A = 6 \<and> same_load ?cs2 OP_LOAD_I ?e (?e + 3) \<or> length ?A = 6 \<and> same_load ?cs2 OP_LOAD_LOCAL_I ?e (?e + 3)
      then (let cs3 = source_delete_bytes ?cs2 (?e + 3) 3 in if has_error cs3 then (False, cs3) else (True, bc_emit_byte cs3 OP_MATH_SQRDIV))
      else (True, bc_emit_byte ?cs2 OP_MATH_MULDIV))"
    using assms(1-3) at1 lit del spl cs2 by (simp add: source_try_fuse_mulshr_def Let_def)
  show ?thesis
  proof (cases "length ?A = 6 \<and> (square_bytes ?A OP_LOAD_I \<or> square_bytes ?A OP_LOAD_LOCAL_I)")
    case True
    then obtain sc where "square_bytes ?A (code_LOAD sc TI)" by (auto simp: code_LOAD_def intro: that [of Global] that [of Local])
    then show ?thesis
      unfolding rs final using sq sqdel [of sc] True emit [OF len1, of SQRDIV] assms(2) by (simp add: fused_square m)
  next
    case False
    then show ?thesis unfolding rs final using sq emit [of ab MULDIV] by (auto simp: fused_square m)
  qed
qed

lemma fuse_no:
  assumes "fuse_bits lvl \<Gamma> O_IDIV a b = None" "ready fe \<Gamma> cs (E_BIN O_IDIV a b)"
  shows "source_try_fuse_mulshr lvl (put cs (comp lvl \<Gamma> a @ comp lvl \<Gamma> b)) (type_code (etype \<Gamma> a)) (type_code (etype \<Gamma> b)) (length (code cs))
      (length (code (put cs (comp lvl \<Gamma> a)))) = (False, put cs (comp lvl \<Gamma> a @ comp lvl \<Gamma> b))"
proof (rule ccontr)
  let ?A = "assemble (comp lvl \<Gamma> a)" and ?B = "assemble (comp lvl \<Gamma> b)"
  let ?cs = "put cs (comp lvl \<Gamma> a @ comp lvl \<Gamma> b)"
  assume "\<not> ?thesis"
  then have l: "lvl \<ge> 1" "etype \<Gamma> a = TI" "etype \<Gamma> b = TI" "length ?B = 9"
    and c: "code ?cs ! (length (code cs) + length ?A - 1) = OP_MUL_I" "code ?cs ! (length (code cs) + length ?A) = OP_PUSH_INT"
    and v: "0 \<le> source_power_of_two_bits_i64 (code_i64 ?cs (length (code cs) + length ?A + 1))"
    by (auto simp: source_try_fuse_mulshr_def Let_def not_less split: if_splits)
  have ne: "?A \<noteq> []" "?B \<noteq> []" using comp_not_Nil by simp_all
  have "last ?A = OP_MUL_I" using c(1) ne by (simp add: nth_append last_conv_nth Suc_le_eq less_diff_conv2 split: if_splits)
  then have p: "as_product \<Gamma> a \<noteq> None" using last_byte [OF ready_left [OF assms(2)] l(2)] by blast
  have "hd ?B = OP_PUSH_INT" using c(2) ne by (simp add: nth_append hd_conv_nth)
  then obtain w where w: "as_literal b = Some w" using nine_bytes l(4) by blast
  then have "comp lvl \<Gamma> b = [I_PUSH_INT w]" using as_literal_spec by blast
  then have "code_i64 ?cs (length (code cs) + length ?A + 1) = w" by (simp add: code_i64_def e64_def of_nat_le_dec_enc_unat)
  then show False using v assms(1) p w l(1) by (auto simp: fuse_bits_def)
qed
section \<open>Products and sums\<close>

lemma fuse_code:
  assumes "ready fe \<Gamma> cs (E_BIN O_IDIV a b)"
  shows "source_try_fuse_mulshr (opt_level fe) (put cs (comp (opt_level fe) \<Gamma> a @ comp (opt_level fe) \<Gamma> b)) (type_code (etype \<Gamma> a)) (type_code (etype \<Gamma> b))
      (length (code cs)) (length (code (put cs (comp (opt_level fe) \<Gamma> a)))) =
     (case fuse_bits (opt_level fe) \<Gamma> O_IDIV a b of
        Some n \<Rightarrow> (True, put cs (comp (opt_level fe) \<Gamma> (E_BIN O_IDIV a b)))
      | None \<Rightarrow> (False, put cs (comp (opt_level fe) \<Gamma> a @ comp (opt_level fe) \<Gamma> b)))"
proof (cases "fuse_bits (opt_level fe) \<Gamma> O_IDIV a b")
  case None
  then show ?thesis using fuse_no [OF None assms] by (simp del: code_put)
next
  case (Some n)
  let ?l = "opt_level fe"
  obtain v x y where v: "as_literal b = Some v" "source_power_of_two_bits_i64 v = int n" "?l \<ge> 1" and p: "as_product \<Gamma> a = Some (x, y)"
    using fuse_bitsD [OF Some] by auto
  let ?ab = "comp ?l \<Gamma> x @ comp ?l \<Gamma> y"
  have a: "comp ?l \<Gamma> a = ?ab @ [I_BIN_I MUL]" "etype \<Gamma> a = TI" using as_product_spec [OF p] by simp_all
  have b: "comp ?l \<Gamma> b = [I_PUSH_INT v]" "etype \<Gamma> b = TI" using as_literal_spec [OF v(1)] by simp_all
  have room: "length (code cs) + length (assemble ?ab) + 10 \<le> BC_MAX_CODE"
    using ready_room [OF assms] code_len [of ?l \<Gamma> a] literal_need [OF v(1)] a(1) by simp
  have "comp ?l \<Gamma> (E_BIN O_IDIV a b) = fused ?ab n" using Some by (simp add: a(1) butlast_append)
  then show ?thesis
    unfolding a b using fuse_yes [OF v(3) _ v(2) room] ready_room [OF assms] Some
    by (simp add: type_codes del: code_put comp.simps)
qed

lemma mul_op_text: "op_level op = 3 \<Longrightarrow> mul_op (op_text op @ 0x20 # t) = Some (op_char op, 0x20 # t)"
  by (cases op) (simp_all add: mul_op_def source_keyword_def same_name_def isnamechar_def isalnum8_def isalpha8_def isdigit8_def is_suffix_char_def)

lemma mul_layer:
  assumes "layer fe \<Gamma> d U 2"
  shows "layer fe \<Gamma> d (source_parse_mul_expr (opt_level fe) U) 3"
proof -
  have "layer fe \<Gamma> d (source_parse_mul_expr (opt_level fe) U) (Suc 2)"
  proof (rule chain [OF assms, where loop = "\<lambda>k es t. mul_loop k (opt_level fe) U es t"])
    fix op a b cs rest k
    assume l: "op_level op = Suc 2" and h: "fits 2 b" "depth b < d" and r: "ready fe \<Gamma> cs (E_BIN op a b)" and s: "stops rest" "quiet 2 rest"
    have op: "op \<in> {O_MUL, O_DIV, O_IDIV, O_MOD, O_ADD, O_SUB}" "(op_char op = CHR 0x5C) = (op = O_IDIV)" using l by (cases op; simp)+
    have t: "mul_op (source_skip_space (0x20 # op_text op @ 0x20 # print_exp b @ rest)) = Some (op_char op, 0x20 # print_exp b @ rest)"
      using mul_op_text l by simp
    note right = right_operand [OF assms h r s] and emit = emitsD [OF emits_numeric [OF op(1)] r]
    show "mul_loop (Suc k) (opt_level fe) U (length (code cs)) (type_code (etype \<Gamma> a)) (put cs (comp (opt_level fe) \<Gamma> a)) (0x20 # op_text op @ 0x20 # print_exp b @ rest) =
        mul_loop k (opt_level fe) U (length (code cs)) (type_code (etype \<Gamma> (E_BIN op a b))) (put cs (comp (opt_level fe) \<Gamma> (E_BIN op a b))) rest"
    proof (cases "fuse_bits (opt_level fe) \<Gamma> op a b")
      case None
      then show ?thesis
        using right emit ready_room [OF r] fuse_code [of fe \<Gamma> cs a b] r op(2) t
        by (cases "op = O_IDIV") (simp_all add: comp_plain del: comp.simps code_put)
    next
      case (Some n)
      then have "op = O_IDIV" using fuse_bitsD by blast
      then show ?thesis
        using right ready_room [OF r] fuse_code [of fe \<Gamma> cs a b] r op(2) t Some
        by (simp add: result_type_def type_codes del: comp.simps code_put)
    qed
  qed (simp_all add: source_parse_mul_expr_def quiet_def Let_def)
  then show ?thesis by (simp add: eval_nat_numeral)
qed

lemma no_mulshradd:
  assumes "ready fe \<Gamma> cs (E_BIN op a b)"
  shows "source_try_fuse_mulshradd lvl (put cs (comp (opt_level fe) \<Gamma> a @ cb)) (type_code (etype \<Gamma> a)) t
     (length (code (put cs (comp (opt_level fe) \<Gamma> a)))) c = (False, put cs (comp (opt_level fe) \<Gamma> a @ cb))"
proof (cases "etype \<Gamma> a = TI")
  case True
  let ?A = "assemble (comp (opt_level fe) \<Gamma> a)"
  have ne: "?A \<noteq> []" using comp_not_Nil by simp
  have "code (put cs (comp (opt_level fe) \<Gamma> a @ cb)) ! (length (code cs) + length ?A - 1) = last ?A"
    using ne by (simp add: nth_append last_conv_nth Suc_le_eq less_diff_conv2)
  then show ?thesis using last_byte [OF ready_left [OF assms] True, of "opt_level fe"] ne
    by (auto simp: source_try_fuse_mulshradd_def get_idx_def)
qed (simp add: source_try_fuse_mulshradd_def type_codes)

lemma add_layer:
  assumes "layer fe \<Gamma> d U 3"
  shows "layer fe \<Gamma> d (source_parse_add_expr (opt_level fe) U) 4"
proof -
  have "layer fe \<Gamma> d (source_parse_add_expr (opt_level fe) U) (Suc 3)"
  proof (rule chain [OF assms, where loop = "\<lambda>k es t. add_loop k (opt_level fe) U t"])
    fix op a b cs rest k
    assume l: "op_level op = Suc 3" and h: "fits 3 b" "depth b < d" and r: "ready fe \<Gamma> cs (E_BIN op a b)" and s: "stops rest" "quiet 3 rest"
    have op: "op = O_ADD \<or> op = O_SUB" using l by (cases op) auto
    then have e: "op \<in> {O_MUL, O_DIV, O_IDIV, O_MOD, O_ADD, O_SUB}" "op \<noteq> O_IDIV" by auto
    show "add_loop (Suc k) (opt_level fe) U (type_code (etype \<Gamma> a)) (put cs (comp (opt_level fe) \<Gamma> a)) (0x20 # op_text op @ 0x20 # print_exp b @ rest) =
        add_loop k (opt_level fe) U (type_code (etype \<Gamma> (E_BIN op a b))) (put cs (comp (opt_level fe) \<Gamma> (E_BIN op a b))) rest"
      using right_operand [OF assms h r s] emitsD [OF emits_numeric [OF e(1)] r] ready_room [OF r] no_mulshradd [OF r] op
      by (auto simp: source_skip_space_def comp_plain [OF no_fuse [OF e(2)]] simp del: comp.simps code_put)
  qed (simp_all add: source_parse_add_expr_def quiet_def Let_def)
  then show ?thesis by (simp add: eval_nat_numeral)
qed

section \<open>Expressions\<close>

theorem expression_layer: "layer fe \<Gamma> n (expression_at n fe) 7"
proof (induction n)
  case 0
  then show ?case by (simp add: layer_def)
next
  case (Suc n)
  have "expression_at (Suc n) fe = expression_over (shift_over fe (source_parse_primary fe (expression_at n fe)))"
    by (intro ext) simp
  then show ?case
    unfolding shift_over_def
    using bool_layer [OF shift_layer [OF add_layer [OF mul_layer [OF power_layer [OF unary_layer [OF primary_layer [OF Suc]]]]]]] by simp
qed

lemma depth_text: "depth e \<le> length (print_exp e)"
  by (induction e) auto

text \<open>The text of a tree in front of what cannot belong to it is compiled to the code of the tree.\<close>

lemma parse_print:
  assumes "fits 7 e" "ready fe \<Gamma> cs e" "list_all is_blank bl" "stops rest" "quiet 7 rest"
  shows "source_parse_expression fe cs (bl @ print_exp e @ rest) = (type_code (etype \<Gamma> e), put cs (comp (opt_level fe) \<Gamma> e), rest)"
  using layerD [OF expression_layer assms(1) _ assms(2-5), of "Suc (length (bl @ print_exp e @ rest))"] depth_text [of e]
  by (simp add: source_parse_expression_def)

section \<open>An example\<close>

definition demo_fe :: frontend where
  "demo_fe = \<lparr>opt_level = 1, escape_active = False, ctrlval_numeric_hint = False, structtbl = [],
     tokentbl = [(bytes_of ''ABS('', T_FUN OR T_INT), (bytes_of ''DAY$'', T_FNA OR T_STR)], commandtbl = [],
     tokenise = (\<lambda>t. t), tokenAS = 0, option_base = 0, line_no = 1, fast_next_loop = False, asm_active = False, asm_lines = [], asm_start_line = 0,
     in_type_block = False, struct_def_inprogress = None, in_struct_fn = False, uses_struct_file_io = False,
     uses_struct_extract_insert = False\<rparr>"

definition demo_slot :: "string \<Rightarrow> u8 \<Rightarrow> BCSlot" where
  "demo_slot x ty = \<lparr>slot_name = bytes_of x, slot_type = ty, slot_is_array = 0, slot_is_const = 0, slot_ndims = 0, slot_dims = [], slot_const_ival = 0, slot_const_fval = 0, slot_struct_idx = -1\<rparr>"

definition demo_cs :: BCCompiler where
  "demo_cs = empty_compiler\<lparr>slots := [demo_slot ''X%'' T_INT, demo_slot ''Y%'' T_INT, demo_slot ''Z'' T_NBR]\<rparr>"

definition demo_env :: scope_env where
  "demo_env x = (if x = bytes_of ''X%'' then (Global, 0, TI) else if x = bytes_of ''Y%'' then (Global, 1, TI) else (Global, 2, TF))"

text \<open>\<open>X% * Y% \ 4 > Z ^ 2 - 1.5\<close>: one fused product, one conversion put in front of the right operand.\<close>

definition demo_exp :: exp where
  "demo_exp = E_BIN (O_CMP GT)
     (E_BIN O_IDIV (E_BIN O_MUL (E_VAR (bytes_of ''X%'')) (E_VAR (bytes_of ''Y%''))) (E_DEC [0x34]))
     (E_BIN O_SUB (E_BIN O_POW (E_VAR (bytes_of ''Z'')) (E_DEC [0x32])) (E_FIX [0x31] [0x35]))"

lemma demo_ready: "ready demo_fe demo_env demo_cs demo_exp"
proof -
  have "var_ok demo_fe demo_cs x (demo_env x)" if "x \<in> vars demo_exp" for x
  proof -
    have "x = bytes_of ''X%'' \<or> x = bytes_of ''Y%'' \<or> x = bytes_of ''Z''" using that by (simp add: demo_exp_def) blast
    moreover have "var_ok demo_fe demo_cs (bytes_of ''X%'') (demo_env (bytes_of ''X%''))" by code_simp
    moreover have "var_ok demo_fe demo_cs (bytes_of ''Y%'') (demo_env (bytes_of ''Y%''))" by code_simp
    moreover have "var_ok demo_fe demo_cs (bytes_of ''Z'') (demo_env (bytes_of ''Z''))" by code_simp
    ultimately show ?thesis by blast
  qed
  moreover have "\<not> has_error demo_cs" "code demo_cs = []" "code_need demo_exp = 51" "literals_ok demo_exp" by code_simp+
  ultimately show ?thesis by (simp add: ready_def BC_MAX_CODE_def)
qed

lemma demo_env_values [simp]:
  "demo_env (bytes_of ''X%'') = (Global, 0, TI)" "demo_env (bytes_of ''Y%'') = (Global, 1, TI)" "demo_env (bytes_of ''Z'') = (Global, 2, TF)"
  "bytes_of ''Y%'' \<noteq> bytes_of ''X%''"
  by code_simp+

lemma demo_numbers:
  "dec_value [0x31] = 1" "dec_value [0x32] = 2" "dec_value [0x34] = 4" "source_power_of_two_bits_i64 4 = 2" "divided sdiv64 60 4 = Ok 15"
  by code_simp+

section \<open>The properties\<close>

text \<open>
  C4: the expression compiler is correct on arithmetic, relational and logical expressions: for
  every tree with the precedence and associativity of the language, in every state of the compiler
  in which its variables are known and its code fits, the text of the tree is compiled to exactly
  the code of the tree - operands left to right, a conversion behind the operand it belongs to,
  a product divided by a power of two fused - with the type of the tree as result, without an error
  and with the text behind it untouched.
\<close>

theorem expression_text_compiles:
  assumes "fits 7 e" "ready fe \<Gamma> cs e" "list_all is_blank bl" "stops rest" "quiet 7 rest"
  shows "source_parse_expression fe cs (bl @ print_exp e @ rest) =
    (type_code (etype \<Gamma> e), cs\<lparr>code := code cs @ assemble (comp (opt_level fe) \<Gamma> e)\<rparr>, rest)"
  using parse_print [OF assms] by (simp add: put_def)

theorem expression_text_compiles_witness:
  "source_parse_expression demo_fe demo_cs (bytes_of ''  X% * Y% '' @ 0x5C # bytes_of '' 4 > Z ^ 2 - 1.5)'') =
    (T_INT, demo_cs\<lparr>code := assemble [I_LOAD Global TI 0, I_LOAD Global TI 1, I_PUSH_INT 2, I_MATH MULDIV, I_CVT_I2F,
       I_LOAD Global TF 2, I_PUSH_INT 2, I_CVT_I2F, I_BIN_F FPOW, I_PUSH_FLT (fix_value [0x31] [0x35]), I_BIN_F FSUB, I_CMP TF GT]\<rparr>, [0x29])"
proof -
  have f: "fits 7 demo_exp" "list_all is_blank [0x20, 0x20]" by code_simp+
  have tx: "[0x20, 0x20] @ print_exp demo_exp @ [0x29] = bytes_of ''  X% * Y% '' @ 0x5C # bytes_of '' 4 > Z ^ 2 - 1.5)''" by code_simp
  have code: "comp (opt_level demo_fe) demo_env demo_exp = [I_LOAD Global TI 0, I_LOAD Global TI 1, I_PUSH_INT 2, I_MATH MULDIV, I_CVT_I2F,
       I_LOAD Global TF 2, I_PUSH_INT 2, I_CVT_I2F, I_BIN_F FPOW, I_PUSH_FLT (fix_value [0x31] [0x35]), I_BIN_F FSUB, I_CMP TF GT]"
    by (simp add: demo_exp_def demo_env_values demo_numbers demo_fe_def fuse_bits_def fused_def join_def cvt_def is_load_i_def result_type_def)
  have ty: "type_code (etype demo_env demo_exp) = T_INT" "code demo_cs = []" by code_simp+
  show ?thesis using expression_text_compiles [OF f(1) demo_ready f(2) quiet_close(1) [of "[]"] quiet_close(2) [where rest = "[]"]] unfolding tx code ty by simp
qed

text \<open>
  C5: compiled expressions compute their value: the code that \<open>source_parse_expression\<close> makes of the
  text, run by the dispatch loop from the state in which the text's variables have their values, ends
  behind the code with the value of the tree pushed, tagged with the type the compiler returned, and
  nothing else changed; or it raises the BASIC error the tree has (a division by zero), with its line;
  or it reaches the undefined conversion, shift or division the tree has.
\<close>

theorem expression_text_computes:
  assumes "fits 7 e" "ready fe \<Gamma> cs e" "list_all is_blank bl" "stops rest" "quiet 7 rest"
    and "source_parse_expression fe cs (bl @ print_exp e @ rest) = (t, cs', rest')"
    and "bytecode s = code cs' @ after" "pc s = int (length (code cs))" "bound \<Gamma> \<rho> s e" "room s (stack_need e)"
  shows "rest' = rest \<and> \<not> has_error cs' \<and>
    (case eval m \<Gamma> \<rho> e of
       Ok v \<Rightarrow> \<exists>n s'. steps m n s = Some (s'\<lparr>pc := int (length (code cs'))\<rparr>) \<and> pushes s s' t v
     | Err msg u \<Rightarrow> \<exists>n s1 s2. steps m n s = Some s1 \<and> step m s1 = Raised (says s msg) s2
     | Fault \<Rightarrow> \<exists>n s1. steps m n s = Some s1 \<and> step m s1 = Wild)"
proof -
  have p: "t = type_code (etype \<Gamma> e)" "cs' = put cs (comp (opt_level fe) \<Gamma> e)" "rest' = rest"
    using assms(6) parse_print [OF assms(1-5)] by simp_all
  have "snd (snd (\<Gamma> x)) \<in> {TI, TF}" if "x \<in> vars e" for x
    using assms(2) that unfolding ready_def by (cases "\<Gamma> x") (force simp: var_ok_def)
  then have w: "well_typed \<Gamma> e" by (simp add: well_typed_def)
  have b: "block s (length (code cs)) (comp (opt_level fe) \<Gamma> e)" using assms(7) p(2) by (simp add: block_def)
  have e: "int (length (code cs) + length (assemble (comp (opt_level fe) \<Gamma> e))) = int (length (code cs'))" using p(2) by simp
  have h: "\<not> has_error cs'" using p(2) ready_room [OF assms(2)] by simp
  show ?thesis
    using comp_steps [OF w assms(9,10) b assms(8), of m] h unfolding e p(1,3) by (auto split: outcome.splits)
qed

definition demo_sum :: exp where
  "demo_sum = E_BIN O_ADD (E_BIN O_IDIV (E_BIN O_MUL (E_VAR (bytes_of ''X%'')) (E_VAR (bytes_of ''Y%''))) (E_DEC [0x34])) (E_DEC [0x31])"

definition demo_vm :: "BCCompiler \<Rightarrow> vm" where
  "demo_vm cs = (bc_vm_init blank_vm cs)\<lparr>globals := (\<lambda>_. 0)(0 := 6, 1 := 10)\<rparr>"

theorem expression_text_computes_witness:
  "\<exists>cs' n s'. source_parse_expression demo_fe demo_cs (bytes_of ''X% * Y% '' @ 0x5C # bytes_of '' 4 + 1)'') = (T_INT, cs', [0x29]) \<and>
     steps no_libm n (demo_vm cs') = Some (s'\<lparr>pc := int (length (code cs'))\<rparr>) \<and> pushes (demo_vm cs') s' T_INT 16"
proof -
  have f: "fits 7 demo_sum" "list_all is_blank []" by code_simp+
  have tx: "[] @ print_exp demo_sum @ [0x29] = bytes_of ''X% * Y% '' @ 0x5C # bytes_of '' 4 + 1)''" by code_simp
  have "vars demo_sum \<subseteq> vars demo_exp" by (simp add: demo_sum_def demo_exp_def)
  moreover have "code demo_cs = []" "code_need demo_sum = 33" "literals_ok demo_sum" by code_simp+
  ultimately have r: "ready demo_fe demo_env demo_cs demo_sum" using demo_ready by (auto simp: ready_def BC_MAX_CODE_def)
  define cs' where "cs' = put demo_cs (comp (opt_level demo_fe) demo_env demo_sum)"
  have ty: "type_code (etype demo_env demo_sum) = T_INT" "code demo_cs = []" by code_simp+
  have c: "source_parse_expression demo_fe demo_cs ([] @ print_exp demo_sum @ [0x29]) = (T_INT, cs', [0x29])"
    using parse_print [OF f(1) r f(2) quiet_close] ty by (simp add: cs'_def)
  let ?s = "demo_vm cs'" and ?\<rho> = "\<lambda>x. if x = bytes_of ''X%'' then 6 else 10 :: u64"
  have s: "bytecode ?s = code cs' @ []" "pc ?s = int (length (code demo_cs))" "sp ?s = -1"
    by (simp_all add: demo_vm_def bc_vm_init_def ty)
  have rd: "reads ?s Global 0 6" "reads ?s Global 1 10"
    by (simp_all add: reads_def demo_vm_def get_cell_def BC_MAX_SLOTS_def)
  have b: "bound demo_env ?\<rho> ?s demo_sum" using rd by (simp add: bound_def demo_sum_def)
  have n: "stack_need demo_sum = 3" by code_simp
  have room: "room ?s (stack_need demo_sum)" using s(3) by (simp add: n limits)
  have v: "eval no_libm demo_env ?\<rho> demo_sum = Ok 16"
    by (simp add: demo_sum_def Let_def convert_def join_def result_type_def demo_numbers)
  show ?thesis
    using expression_text_computes [OF f(1) r f(2) quiet_close c s(1,2) b room, of no_libm] c unfolding tx v by auto
qed

end
