(* ===== verification/ProgSpec.thy ===== *)
theory ProgSpec
  imports ExprExec
begin

text \<open>
  Structured programs over numeric variables as trees: their lines of text, the code a compiler should
  make of them, with every jump's distance, and their meaning as an interpreter with fuel.
\<close>

section \<open>Trees and text\<close>

datatype com = C_NOP | C_LET cstr exp | C_SEQ com com | C_IF exp com com | C_WHILE exp com | C_UNTIL com exp

text \<open>One statement to a line: \<open>IF .. THEN\<close>, \<open>ELSE\<close>, \<open>ENDIF\<close>; \<open>DO WHILE\<close>, \<open>LOOP\<close>; \<open>DO\<close>, \<open>LOOP UNTIL\<close>.\<close>

definition let_line :: "cstr \<Rightarrow> exp \<Rightarrow> cstr" where
  "let_line x e = x @ [0x20, 0x3D, 0x20] @ print_exp e"

definition if_line :: "exp \<Rightarrow> cstr" where
  "if_line e = bytes_of ''IF '' @ print_exp e @ bytes_of '' THEN''"

definition while_line :: "exp \<Rightarrow> cstr" where
  "while_line e = bytes_of ''DO WHILE '' @ print_exp e"

definition until_line :: "exp \<Rightarrow> cstr" where
  "until_line e = bytes_of ''LOOP UNTIL '' @ print_exp e"

fun com_lines :: "com \<Rightarrow> cstr list" where
  "com_lines C_NOP = []"
| "com_lines (C_LET x e) = [let_line x e]"
| "com_lines (C_SEQ a b) = com_lines a @ com_lines b"
| "com_lines (C_IF e a b) = if_line e # com_lines a @ bytes_of ''ELSE'' # com_lines b @ [bytes_of ''ENDIF'']"
| "com_lines (C_WHILE e c) = while_line e # com_lines c @ [bytes_of ''LOOP'']"
| "com_lines (C_UNTIL c e) = bytes_of ''DO'' # com_lines c @ [until_line e]"

abbreviation com_len :: "com \<Rightarrow> int" where
  "com_len c \<equiv> int (length (com_lines c))"

fun com_exps :: "com \<Rightarrow> exp set" where
  "com_exps C_NOP = {}"
| "com_exps (C_LET x e) = {e}"
| "com_exps (C_SEQ a b) = com_exps a \<union> com_exps b"
| "com_exps (C_IF e a b) = {e} \<union> com_exps a \<union> com_exps b"
| "com_exps (C_WHILE e c) = {e} \<union> com_exps c"
| "com_exps (C_UNTIL c e) = {e} \<union> com_exps c"

fun assigned :: "com \<Rightarrow> cstr set" where
  "assigned C_NOP = {}"
| "assigned (C_LET x e) = {x}"
| "assigned (C_SEQ a b) = assigned a \<union> assigned b"
| "assigned (C_IF e a b) = assigned a \<union> assigned b"
| "assigned (C_WHILE e c) = assigned c"
| "assigned (C_UNTIL c e) = assigned c"

definition com_vars :: "com \<Rightarrow> cstr set" where
  "com_vars c = assigned c \<union> (\<Union>e \<in> com_exps c. vars e)"

section \<open>Code\<close>

abbreviation ty_of :: "scope_env \<Rightarrow> cstr \<Rightarrow> vty" where
  "ty_of \<Gamma> x \<equiv> snd (snd (\<Gamma> x))"

abbreviation slot_of :: "scope_env \<Rightarrow> cstr \<Rightarrow> u16" where
  "slot_of \<Gamma> x \<equiv> fst (snd (\<Gamma> x))"

abbreviation code_size :: "instr list \<Rightarrow> int" where
  "code_size is \<equiv> int (length (assemble is))"

text \<open>An assignment; a value that is one variable of the same type is same_but.\<close>

definition let_code :: "int \<Rightarrow> scope_env \<Rightarrow> cstr \<Rightarrow> exp \<Rightarrow> instr list" where
  "let_code lvl \<Gamma> x e =
     (case comp lvl \<Gamma> e of
        [I_LOAD sc t n] \<Rightarrow>
          if lvl \<ge> 1 \<and> t = ty_of \<Gamma> x then [I_MOV_VAR (if t = TI then 1 else 2) n (slot_of \<Gamma> x)]
          else [I_LOAD sc t n] @ cvt t (ty_of \<Gamma> x) @ [I_STORE Global (ty_of \<Gamma> x) (slot_of \<Gamma> x)]
      | is \<Rightarrow> is @ cvt (etype \<Gamma> e) (ty_of \<Gamma> x) @ [I_STORE Global (ty_of \<Gamma> x) (slot_of \<Gamma> x)])"

text \<open>A condition that is a comparison, seen through parentheses and unary plus.\<close>

fun as_compare :: "exp \<Rightarrow> (rel \<times> exp \<times> exp) option" where
  "as_compare (E_PAREN e) = as_compare e"
| "as_compare (E_UN u e) = (if u = U_PLUS then as_compare e else None)"
| "as_compare (E_BIN op a b) = (case op of O_CMP r \<Rightarrow> Some (r, a, b) | _ \<Rightarrow> None)"
| "as_compare _ = None"

fun opposite :: "rel \<Rightarrow> rel" where
  "opposite EQ = NE" | "opposite NE = EQ" | "opposite LT = GE" | "opposite GE = LT" | "opposite GT = LE" | "opposite LE = GT"

fun rel_code :: "rel \<Rightarrow> u8" where
  "rel_code EQ = 1" | "rel_code NE = 2" | "rel_code LT = 3" | "rel_code GT = 4" | "rel_code LE = 5" | "rel_code GE = 6"

definition fused_compare :: "int \<Rightarrow> exp \<Rightarrow> (rel \<times> exp \<times> exp) option" where
  "fused_compare lvl e = (if lvl \<ge> 1 then as_compare e else None)"

text \<open>The jump taken when the condition fails: \<open>JZ\<close>, or one with the comparison turned round.\<close>

definition both_operands :: "int \<Rightarrow> scope_env \<Rightarrow> exp \<Rightarrow> exp \<Rightarrow> instr list" where
  "both_operands lvl \<Gamma> a b =
     (let t = join (etype \<Gamma> a) (etype \<Gamma> b) in comp lvl \<Gamma> a @ cvt (etype \<Gamma> a) t @ comp lvl \<Gamma> b @ cvt (etype \<Gamma> b) t)"

definition jump_unless :: "int \<Rightarrow> scope_env \<Rightarrow> exp \<Rightarrow> int \<Rightarrow> instr list" where
  "jump_unless lvl \<Gamma> e k =
     (let off = word_of_int k in case fused_compare lvl e of
        Some (r, a, b) \<Rightarrow> both_operands lvl \<Gamma> a b @
          [if join (etype \<Gamma> a) (etype \<Gamma> b) = TI then I_JCMP_I (rel_code (opposite r)) off else I_JCMP_F (rel_code (opposite r)) off]
      | None \<Rightarrow> comp lvl \<Gamma> e @ [I_JZ off])"

text \<open>Its size does not depend on the distance. Every line begins with its number (3 bytes); \<open>JMP\<close> takes 3 bytes.\<close>

definition cond_size :: "int \<Rightarrow> scope_env \<Rightarrow> exp \<Rightarrow> int" where
  "cond_size lvl \<Gamma> e = code_size (jump_unless lvl \<Gamma> e 0)"

definition line_mark :: "int \<Rightarrow> instr" where
  "line_mark ln = I_LINE (word_of_int ln)"

definition jump_by :: "int \<Rightarrow> instr" where
  "jump_by k = I_JMP (word_of_int k)"

fun com_code :: "int \<Rightarrow> scope_env \<Rightarrow> int \<Rightarrow> com \<Rightarrow> instr list" where
  "com_code lvl \<Gamma> ln C_NOP = []"
| "com_code lvl \<Gamma> ln (C_LET x e) = line_mark ln # let_code lvl \<Gamma> x e"
| "com_code lvl \<Gamma> ln (C_SEQ a b) = com_code lvl \<Gamma> ln a @ com_code lvl \<Gamma> (ln + com_len a) b"
| "com_code lvl \<Gamma> ln (C_IF e a b) =
     (let els = ln + 1 + com_len a; A = com_code lvl \<Gamma> (ln + 1) a; B = com_code lvl \<Gamma> (els + 1) b in
      line_mark ln # jump_unless lvl \<Gamma> e (code_size A + 6) @ A @
      [line_mark els, jump_by (code_size B + 3)] @ B @ [line_mark (els + 1 + com_len b)])"
| "com_code lvl \<Gamma> ln (C_WHILE e c) =
     (let C = com_code lvl \<Gamma> (ln + 1) c in
      line_mark ln # jump_unless lvl \<Gamma> e (code_size C + 6) @ C @
      [line_mark (ln + 1 + com_len c), jump_by (- (cond_size lvl \<Gamma> e + code_size C + 6))])"
| "com_code lvl \<Gamma> ln (C_UNTIL c e) =
     (let C = com_code lvl \<Gamma> (ln + 1) c in
      line_mark ln # C @ line_mark (ln + 1 + com_len c) # jump_unless lvl \<Gamma> e (- (code_size C + 3 + cond_size lvl \<Gamma> e)))"

section \<open>Meaning\<close>

text \<open>A BASIC error carries the line it stands in.\<close>

type_synonym store = "cstr \<Rightarrow> u64"
type_synonym 'a at_line = "(int, 'a) outcome"

definition on_line :: "int \<Rightarrow> 'a valued \<Rightarrow> 'a at_line" where
  "on_line ln r = (case r of Ok v \<Rightarrow> Ok v | Err e u \<Rightarrow> Err e ln | Fault \<Rightarrow> Fault)"

definition let_value :: "libm \<Rightarrow> scope_env \<Rightarrow> store \<Rightarrow> cstr \<Rightarrow> exp \<Rightarrow> u64 valued" where
  "let_value m \<Gamma> \<rho> x e = bindO (eval m \<Gamma> \<rho> e) (convert (etype \<Gamma> e) (ty_of \<Gamma> x))"

text \<open>
  Whether a condition holds: its value, rounded to an integer, is not zero. A comparison that is fused with the
  jump fails when the opposite comparison holds; on integers, and on doubles without NaN, this is the same.
\<close>

definition plain_truth :: "libm \<Rightarrow> scope_env \<Rightarrow> store \<Rightarrow> exp \<Rightarrow> bool valued" where
  "plain_truth m \<Gamma> \<rho> e = bindO (eval m \<Gamma> \<rho> e) (\<lambda>v. bindO (convert (etype \<Gamma> e) TI v) (\<lambda>i. Ok (i \<noteq> 0)))"

definition compares :: "vty \<Rightarrow> rel \<Rightarrow> u64 \<Rightarrow> u64 \<Rightarrow> bool" where
  "compares t r x y = (if t = TI then cmp_i r x y else cmp_f r x y)"

definition operand_values :: "libm \<Rightarrow> scope_env \<Rightarrow> store \<Rightarrow> exp \<Rightarrow> exp \<Rightarrow> (u64 \<times> u64) valued" where
  "operand_values m \<Gamma> \<rho> a b =
     (let t = join (etype \<Gamma> a) (etype \<Gamma> b) in
      bindO (eval m \<Gamma> \<rho> a) (\<lambda>x. bindO (convert (etype \<Gamma> a) t x) (\<lambda>x'.
        bindO (eval m \<Gamma> \<rho> b) (\<lambda>y. bindO (convert (etype \<Gamma> b) t y) (\<lambda>y'. Ok (x', y'))))))"

definition fused_truth :: "libm \<Rightarrow> scope_env \<Rightarrow> store \<Rightarrow> rel \<Rightarrow> exp \<Rightarrow> exp \<Rightarrow> bool valued" where
  "fused_truth m \<Gamma> \<rho> r a b =
     bindO (operand_values m \<Gamma> \<rho> a b) (\<lambda>(x, y). Ok (\<not> compares (join (etype \<Gamma> a) (etype \<Gamma> b)) (opposite r) x y))"

definition truth :: "int \<Rightarrow> libm \<Rightarrow> scope_env \<Rightarrow> store \<Rightarrow> exp \<Rightarrow> bool valued" where
  "truth lvl m \<Gamma> \<rho> e =
     (case fused_compare lvl e of Some (r, a, b) \<Rightarrow> fused_truth m \<Gamma> \<rho> r a b | None \<Rightarrow> plain_truth m \<Gamma> \<rho> e)"

text \<open>\<open>None\<close>: \<open>n\<close> rounds of the loops do not suffice.\<close>

definition then_run :: "store at_line option \<Rightarrow> (store \<Rightarrow> store at_line option) \<Rightarrow> store at_line option" where
  "then_run r f = (case r of Some (Ok \<rho>) \<Rightarrow> f \<rho> | _ \<Rightarrow> r)"

lemma then_run_cong [fundef_cong]:
  "r = r' \<Longrightarrow> (\<And>\<rho>. r' = Some (Ok \<rho>) \<Longrightarrow> f \<rho> = g \<rho>) \<Longrightarrow> then_run r f = then_run r' g"
  by (auto simp: then_run_def split: option.split outcome.split)

definition decide :: "bool at_line \<Rightarrow> store at_line option \<Rightarrow> store at_line option \<Rightarrow> store at_line option" where
  "decide b x y = (case b of Ok c \<Rightarrow> if c then x else y | Err e l \<Rightarrow> Some (Err e l) | Fault \<Rightarrow> Some Fault)"

text \<open>
  A \<open>WHILE\<close> loop jumps back behind the number of its first line, so from the second round on an error in the condition
  counts for the line of \<open>LOOP\<close>: \<open>cl\<close> is the line the machine is on.
\<close>

function (sequential)
  run_com :: "int \<Rightarrow> libm \<Rightarrow> scope_env \<Rightarrow> nat \<Rightarrow> int \<Rightarrow> com \<Rightarrow> store \<Rightarrow> store at_line option" and
  run_while :: "int \<Rightarrow> libm \<Rightarrow> scope_env \<Rightarrow> nat \<Rightarrow> int \<Rightarrow> int \<Rightarrow> exp \<Rightarrow> com \<Rightarrow> store \<Rightarrow> store at_line option" and
  run_until :: "int \<Rightarrow> libm \<Rightarrow> scope_env \<Rightarrow> nat \<Rightarrow> int \<Rightarrow> com \<Rightarrow> exp \<Rightarrow> store \<Rightarrow> store at_line option" where
  "run_com lvl m \<Gamma> n ln C_NOP \<rho> = Some (Ok \<rho>)"
| "run_com lvl m \<Gamma> n ln (C_LET x e) \<rho> =
     Some (on_line ln (bindO (let_value m \<Gamma> \<rho> x e) (\<lambda>v. Ok (\<rho>(x := v)))))"
| "run_com lvl m \<Gamma> n ln (C_SEQ a b) \<rho> = then_run (run_com lvl m \<Gamma> n ln a \<rho>) (run_com lvl m \<Gamma> n (ln + com_len a) b)"
| "run_com lvl m \<Gamma> n ln (C_IF e a b) \<rho> =
     decide (on_line ln (truth lvl m \<Gamma> \<rho> e)) (run_com lvl m \<Gamma> n (ln + 1) a \<rho>) (run_com lvl m \<Gamma> n (ln + 1 + com_len a + 1) b \<rho>)"
| "run_com lvl m \<Gamma> n ln (C_WHILE e c) \<rho> = run_while lvl m \<Gamma> n ln ln e c \<rho>"
| "run_com lvl m \<Gamma> n ln (C_UNTIL c e) \<rho> = run_until lvl m \<Gamma> n ln c e \<rho>"
| "run_while lvl m \<Gamma> 0 cl ln e c \<rho> = None"
| "run_while lvl m \<Gamma> (Suc n) cl ln e c \<rho> =
     decide (on_line cl (truth lvl m \<Gamma> \<rho> e))
       (then_run (run_com lvl m \<Gamma> n (ln + 1) c \<rho>) (run_while lvl m \<Gamma> n (ln + 1 + com_len c) ln e c)) (Some (Ok \<rho>))"
| "run_until lvl m \<Gamma> 0 ln c e \<rho> = None"
| "run_until lvl m \<Gamma> (Suc n) ln c e \<rho> =
     then_run (run_com lvl m \<Gamma> (Suc n) (ln + 1) c \<rho>) (\<lambda>\<rho>1.
       decide (on_line (ln + 1 + com_len c) (truth lvl m \<Gamma> \<rho>1 e)) (Some (Ok \<rho>1)) (run_until lvl m \<Gamma> n ln c e \<rho>1))"
  by pat_completeness auto

termination
  by (relation "measures
    [\<lambda>x. case x of Inl (_, _, _, n, _) \<Rightarrow> n | Inr (Inl (_, _, _, n, _)) \<Rightarrow> n | Inr (Inr (_, _, _, n, _)) \<Rightarrow> n,
     \<lambda>x. case x of Inl (_, _, _, _, _, c, _) \<Rightarrow> 2 * size c | Inr (Inl (_, _, _, _, _, _, _, c, _)) \<Rightarrow> 2 * size c + 1
       | Inr (Inr (_, _, _, _, _, c, _)) \<Rightarrow> 2 * size c + 1]") auto

end
