(* ===== verification/ProgExec.thy ===== *)
theory ProgExec
  imports ProgSpec
begin

text \<open>
  The code of a structured program, run by the dispatch loop, does what the program means: by induction on the
  interpreter's rounds and the tree, every part of the code takes a state that holds the store to one that holds
  the new store, behind the part; or it raises the error, or runs for as long as one likes.
\<close>

section \<open>States that hold a store\<close>

definition env_ok :: "scope_env \<Rightarrow> cstr set \<Rightarrow> bool" where
  "env_ok \<Gamma> V \<longleftrightarrow>
     (\<forall>x \<in> V. fst (\<Gamma> x) = Global \<and> unat (slot_of \<Gamma> x) < BC_MAX_SLOTS \<and> ty_of \<Gamma> x \<in> {TI, TF}) \<and> inj_on (slot_of \<Gamma>) V"

definition holds :: "scope_env \<Rightarrow> cstr set \<Rightarrow> store \<Rightarrow> vm \<Rightarrow> bool" where
  "holds \<Gamma> V \<rho> s \<longleftrightarrow> (\<forall>x \<in> V. globals s (unat (slot_of \<Gamma> x)) = \<rho> x)"

text \<open>Nothing but the variables, the place and the line differs.\<close>

definition apart :: "vm \<Rightarrow> vm" where
  "apart s = (off_stack s)\<lparr>globals := (\<lambda>_. 0), global_valid := (\<lambda>_. 0), pc := 0, current_line := 0, serviced := 0, loop_poll_counter := 0\<rparr>"

definition same_but :: "scope_env \<Rightarrow> cstr set \<Rightarrow> vm \<Rightarrow> vm \<Rightarrow> bool" where
  "same_but \<Gamma> V s s' \<longleftrightarrow> apart s' = apart s \<and> sp s' = sp s \<and> agrees s s' \<and>
     (\<forall>i. i \<notin> (\<lambda>x. unat (slot_of \<Gamma> x)) ` V \<longrightarrow> globals s' i = globals s i)"

lemma same_but_refl [simp]: "same_but \<Gamma> V s s"
  by (simp add: same_but_def agrees_def)

lemma same_but_trans [trans]: "same_but \<Gamma> V s s1 \<Longrightarrow> same_but \<Gamma> V s1 s2 \<Longrightarrow> same_but \<Gamma> V s s2"
  by (simp add: same_but_def agrees_def)

lemma same_but_fields:
  assumes "same_but \<Gamma> V s s'"
  shows "bytecode s' = bytecode s" "sp s' = sp s" "room s' n = room s n" "block s' p is = block s p is"
proof -
  have a: "apart s' = apart s" and sp: "sp s' = sp s" using assms by (simp_all add: same_but_def)
  show b: "bytecode s' = bytecode s" using arg_cong [OF a, of bytecode] by (simp add: apart_def off_stack_def)
  show "sp s' = sp s" "room s' n = room s n" "block s' p is = block s p is" using sp b by (simp_all add: block_def)
qed

lemma same_but_pc [simp]: "same_but \<Gamma> V s (s'\<lparr>pc := q\<rparr>) = same_but \<Gamma> V s s'" "same_but \<Gamma> V (s\<lparr>pc := q\<rparr>) s' = same_but \<Gamma> V s s'"
  by (simp_all add: same_but_def apart_def off_stack_def agrees_def)

lemma same_but_line [simp]: "same_but \<Gamma> V s (s'\<lparr>current_line := n\<rparr>) = same_but \<Gamma> V s s'"
  by (simp add: same_but_def apart_def off_stack_def agrees_def)

lemma same_but_served [simp]: "same_but \<Gamma> V s (s'\<lparr>serviced := n\<rparr>) = same_but \<Gamma> V s s'"
    "same_but \<Gamma> V s (s'\<lparr>loop_poll_counter := c\<rparr>) = same_but \<Gamma> V s s'"
  by (simp_all add: same_but_def apart_def off_stack_def agrees_def)

lemma holds_upd [simp]: "holds \<Gamma> V \<rho> (s\<lparr>pc := q\<rparr>) = holds \<Gamma> V \<rho> s" "holds \<Gamma> V \<rho> (s\<lparr>current_line := n\<rparr>) = holds \<Gamma> V \<rho> s"
    "holds \<Gamma> V \<rho> (s\<lparr>serviced := k\<rparr>) = holds \<Gamma> V \<rho> s" "holds \<Gamma> V \<rho> (s\<lparr>loop_poll_counter := c\<rparr>) = holds \<Gamma> V \<rho> s"
    "holds \<Gamma> V \<rho> (s\<lparr>sp := z\<rparr>) = holds \<Gamma> V \<rho> s"
  by (simp_all add: holds_def)

text \<open>A value on the stack, popped again, leaves the state as it was.\<close>

lemma popped:
  assumes "pushes s s1 t v" "room s 1"
  shows "same_but \<Gamma> V s (s1\<lparr>sp := sp s\<rparr>)" "holds \<Gamma> V \<rho> s1 = holds \<Gamma> V \<rho> s"
proof -
  have o: "off_stack s1 = off_stack s" using assms by (simp add: pushes_def)
  then have o': "off_stack (s1\<lparr>sp := sp s\<rparr>) = off_stack s" by (simp add: off_stack_def)
  show "same_but \<Gamma> V s (s1\<lparr>sp := sp s\<rparr>)"
    using assms o' off_stack_fields(1) [OF o] by (simp add: same_but_def apart_def pushes_def agrees_def)
  show "holds \<Gamma> V \<rho> s1 = holds \<Gamma> V \<rho> s" using off_stack_fields(1) [OF o] by (simp add: holds_def)
qed

lemma holds_bound:
  assumes "env_ok \<Gamma> V" "holds \<Gamma> V \<rho> s" "vars e \<subseteq> V"
  shows "bound \<Gamma> \<rho> s e" "well_typed \<Gamma> e"
  using assms by (auto simp: bound_def well_typed_def env_ok_def holds_def reads_def get_cell_def)

section \<open>Ways a part of the code can end\<close>

text \<open>\<open>errs\<close> and \<open>crashes\<close> after some steps; \<open>lasts\<close>: at least \<open>n\<close> steps can be made.\<close>

definition errs :: "libm \<Rightarrow> vm \<Rightarrow> string \<Rightarrow> int \<Rightarrow> bool" where
  "errs m s msg ln \<longleftrightarrow> (\<exists>k s1 s2. steps m k s = Some s1 \<and>
     step m s1 = Raised (''[VM line '' @ dec_nat (unat (word_of_int ln :: u16)) @ ''] '' @ msg) s2)"

definition crashes :: "libm \<Rightarrow> vm \<Rightarrow> bool" where
  "crashes m s \<longleftrightarrow> (\<exists>k s1. steps m k s = Some s1 \<and> step m s1 = Wild)"

definition lasts :: "libm \<Rightarrow> nat \<Rightarrow> vm \<Rightarrow> bool" where
  "lasts m n s \<longleftrightarrow> (\<exists>k \<ge> n. steps m k s \<noteq> None)"

lemma errs_after: "steps m k s = Some s1 \<Longrightarrow> errs m s1 msg ln \<Longrightarrow> errs m s msg ln"
  unfolding errs_def using steps_add by blast

lemma crashes_after: "steps m k s = Some s1 \<Longrightarrow> crashes m s1 \<Longrightarrow> crashes m s"
  unfolding crashes_def using steps_add by blast

lemma lasts_after: "steps m k s = Some s1 \<Longrightarrow> lasts m n s1 \<Longrightarrow> lasts m (k + n) s"
  unfolding lasts_def using steps_add by (metis add_left_mono not_Some_eq)

lemma lasts_mono: "lasts m k s \<Longrightarrow> n \<le> k \<Longrightarrow> lasts m n s"
  unfolding lasts_def using le_trans by blast

definition ends :: "libm \<Rightarrow> scope_env \<Rightarrow> cstr set \<Rightarrow> nat \<Rightarrow> vm \<Rightarrow> int \<Rightarrow> store at_line option \<Rightarrow> bool" where
  "ends m \<Gamma> V n s q r =
     (case r of
        None \<Rightarrow> lasts m n s
      | Some (Ok \<rho>) \<Rightarrow> \<exists>k s1. steps m k s = Some s1 \<and> pc s1 = q \<and> holds \<Gamma> V \<rho> s1 \<and> same_but \<Gamma> V s s1
      | Some (Err msg ln) \<Rightarrow> errs m s msg ln
      | Some Fault \<Rightarrow> crashes m s)"

lemma ends_OkI: "steps m k s = Some s1 \<Longrightarrow> pc s1 = q \<Longrightarrow> holds \<Gamma> V \<rho> s1 \<Longrightarrow> same_but \<Gamma> V s s1 \<Longrightarrow> ends m \<Gamma> V n s q (Some (Ok \<rho>))"
  by (auto simp: ends_def)

lemma ends_after:
  assumes "steps m k s = Some s1" "same_but \<Gamma> V s s1" "ends m \<Gamma> V n s1 q r"
  shows "ends m \<Gamma> V n s q r"
proof (cases "\<exists>\<rho>. r = Some (Ok \<rho>)")
  case True
  then obtain \<rho> j s2 where r: "r = Some (Ok \<rho>)" and j: "steps m j s1 = Some s2" "pc s2 = q" "holds \<Gamma> V \<rho> s2" "same_but \<Gamma> V s1 s2"
    using assms(3) by (auto simp: ends_def)
  show ?thesis using steps_add [OF assms(1) j(1)] j(2,3) same_but_trans [OF assms(2) j(4)] r by (auto simp: ends_def)
next
  case False
  have "lasts m n s" if "lasts m n s1" using lasts_mono [OF lasts_after [OF assms(1) that]] by simp
  then show ?thesis
    using False assms(3) errs_after [OF assms(1)] crashes_after [OF assms(1)] by (auto simp: ends_def split: option.splits outcome.splits)
qed

lemma ends_Suc:
  assumes "steps m (Suc k) s = Some s1" "same_but \<Gamma> V s s1" "ends m \<Gamma> V n s1 q r"
  shows "ends m \<Gamma> V (Suc n) s q r"
proof (cases r)
  case None
  then have "lasts m n s1" using assms(3) by (simp add: ends_def)
  then have "lasts m (Suc n) s" using lasts_mono [OF lasts_after [OF assms(1)]] by simp
  then show ?thesis using None by (simp add: ends_def)
next
  case (Some a)
  then show ?thesis using ends_after [OF assms] by (simp add: ends_def)
qed

lemma ends_then:
  assumes "ends m \<Gamma> V n s q r"
    and "\<And>\<rho> s1. r = Some (Ok \<rho>) \<Longrightarrow> pc s1 = q \<Longrightarrow> holds \<Gamma> V \<rho> s1 \<Longrightarrow> same_but \<Gamma> V s s1 \<Longrightarrow> ends m \<Gamma> V n s1 q' (f \<rho>)"
  shows "ends m \<Gamma> V n s q' (then_run r f)"
proof (cases "\<exists>\<rho>. r = Some (Ok \<rho>)")
  case True
  then obtain \<rho> k s1 where r: "r = Some (Ok \<rho>)" and s1: "steps m k s = Some s1" "pc s1 = q" "holds \<Gamma> V \<rho> s1" "same_but \<Gamma> V s s1"
    using assms(1) by (auto simp: ends_def)
  show ?thesis using ends_after [OF s1(1,4) assms(2) [OF r s1(2-4)]] r by (simp add: then_run_def)
next
  case False
  then have "then_run r f = r" by (auto simp: then_run_def split: option.split outcome.split)
  then show ?thesis using assms(1) False by (auto simp: ends_def split: option.splits outcome.splits)
qed

section \<open>Pieces of code\<close>

lemma block_append: "block s p (a @ b) \<longleftrightarrow> block s p a \<and> block s (p + length (assemble a)) b"
proof
  assume "block s p (a @ b)"
  then obtain after where d: "drop p (bytecode s) = assemble a @ assemble b @ after" by (auto simp: block_def assemble_def)
  have "drop (p + length (assemble a)) (bytecode s) = assemble b @ after"
    using arg_cong [OF d, of "drop (length (assemble a))"] by (simp add: add.commute)
  then show "block s p a \<and> block s (p + length (assemble a)) b" using d by (auto simp: block_def)
next
  assume r: "block s p a \<and> block s (p + length (assemble a)) b"
  then obtain u v where u: "drop p (bytecode s) = assemble a @ u" and v: "drop (p + length (assemble a)) (bytecode s) = assemble b @ v"
    by (auto simp: block_def)
  have "u = assemble b @ v" using arg_cong [OF u, of "drop (length (assemble a))"] v by (simp add: add.commute)
  then have "drop p (bytecode s) = assemble (a @ b) @ v" using u by (simp add: assemble_def)
  then show "block s p (a @ b)" by (auto simp: block_def)
qed

lemma block_cong: "bytecode s' = bytecode s \<Longrightarrow> block s' p is = block s p is"
  by (simp add: block_def)

lemma assemble_app [simp]: "assemble (a @ b) = assemble a @ assemble b" "assemble (i # is) = encode i @ assemble is" "assemble [] = []"
  by (simp_all add: assemble_def)

lemma step_block:
  assumes "block s p (i # is)" "pc s = int p" "for_ok i" "i \<noteq> I_END" "i \<noteq> I_HALT"
  shows "step m s = (case exec m i (s\<lparr>pc := int (p + length (encode i))\<rparr>) of
     None \<Rightarrow> Outside (bytecode s ! p) | Some r \<Rightarrow> after_op r)"
  using step_at [OF block_Cons(1) [OF assms(1)] assms(2-5)] .

lemma line_step:
  assumes "block s p (I_LINE n # is)" "pc s = int p"
  shows "steps m 1 s = Some (s\<lparr>pc := int (p + 3), current_line := n\<rparr>)"
proof -
  have "length (encode (I_LINE n)) = 3" by simp
  then show ?thesis using step_block [OF assms, of m] by (simp add: for_ok_def exec_def after_op_def)
qed

lemma arith_piece:
  assumes "list_all arith is" "block s p is" "pc s = int p" "valued_as (straight m is s) s t w"
    and "current_line s = word_of_int ln"
  shows "case w of
      Ok v \<Rightarrow> \<exists>s1. steps m (length is) s = Some (s1\<lparr>pc := int (p + length (assemble is))\<rparr>) \<and> pushes s s1 t v
    | Err msg u \<Rightarrow> errs m s msg ln
    | Fault \<Rightarrow> crashes m s"
proof -
  note r = straight_runs [OF assms(1-3), of m]
  show ?thesis
  proof (cases w)
    case (Ok v)
    then show ?thesis using assms(4) r by (auto simp: valued_as_def runs_to_def)
  next
    case (Err msg u)
    then obtain s1 where "straight m is s = bc_vm_error s1 msg" "off_stack s1 = off_stack s"
      using assms(4) by (auto simp: valued_as_def)
    then have "straight m is s = Err (says s msg) s1"
      using off_stack_fields(7) [of s1 s] by (simp add: bc_vm_error_def says_def)
    then show ?thesis using r Err assms(5) by (auto simp: runs_to_def errs_def says_def)
  next
    case Fault
    then show ?thesis using assms(4) r by (auto simp: valued_as_def runs_to_def crashes_def)
  qed
qed

lemma cvt_arith: "list_all arith (cvt a b)"
  by (simp add: cvt_def)

text \<open>The value of an assignment, with its conversion.\<close>

lemma let_exec:
  assumes "env_ok \<Gamma> V" "holds \<Gamma> V \<rho> s" "vars e \<subseteq> V" "room s (stack_need e)" "t \<in> {TI, TF}"
  shows "valued_as (straight m (comp lvl \<Gamma> e @ cvt (etype \<Gamma> e) t) s) s (type_code t) (bindO (eval m \<Gamma> \<rho> e) (convert (etype \<Gamma> e) t))"
  unfolding straight_append
proof (rule valued_bind [OF _ refl])
  note b = holds_bound [OF assms(1-3)]
  show "valued_as (straight m (comp lvl \<Gamma> e) s) s (type_code (etype \<Gamma> e)) (eval m \<Gamma> \<rho> e)"
    by (rule computesD [OF comp_computes [OF b(2)] b(1) refl assms(4)])
  fix v s1 assume "pushes s s1 (type_code (etype \<Gamma> e)) v"
  then show "valued_as (straight m (cvt (etype \<Gamma> e) t) s1) s (type_code t) (convert (etype \<Gamma> e) t v)"
    using cvt_exec [OF _ _ etype_numeric [OF b(2)] assms(5)] assms(4) stack_need_pos [of e] by simp
qed

text \<open>Storing the value on top of the stack.\<close>

definition stored :: "u16 \<Rightarrow> u64 \<Rightarrow> vm \<Rightarrow> vm" where
  "stored slot v s = s\<lparr>globals := (globals s)(unat slot := v), global_valid := (global_valid s)(unat slot := 1)\<rparr>"

lemma stored_holds:
  assumes "env_ok \<Gamma> V" "x \<in> V" "holds \<Gamma> V \<rho> s" "same_but \<Gamma> V s0 s"
  shows "holds \<Gamma> V (\<rho>(x := v)) (stored (slot_of \<Gamma> x) v s)" "same_but \<Gamma> V s0 (stored (slot_of \<Gamma> x) v s)"
proof -
  have "unat (slot_of \<Gamma> y) \<noteq> unat (slot_of \<Gamma> x)" if "y \<in> V" "y \<noteq> x" for y
    using assms(1,2) that by (auto simp: env_ok_def inj_on_def simp flip: word_unat_eq_iff)
  then show "holds \<Gamma> V (\<rho>(x := v)) (stored (slot_of \<Gamma> x) v s)"
    using assms(3) by (auto simp: holds_def stored_def)
  show "same_but \<Gamma> V s0 (stored (slot_of \<Gamma> x) v s)"
    using assms(2,4) by (auto simp: same_but_def stored_def apart_def off_stack_def agrees_def)
qed

lemma store_step:
  assumes "block s1 p (I_STORE Global t slot # is)" "pc s1 = int p" "t \<in> {TI, TF}" "unat slot < BC_MAX_SLOTS"
    and "pushes s s1' (type_code t) v" "room s 1" "s1 = s1'\<lparr>pc := q\<rparr>"
  shows "steps m 1 s1 = Some (stored slot v (s1'\<lparr>sp := sp s, pc := int (p + 3)\<rparr>))"
proof -
  have e: "length (encode (I_STORE Global t slot)) = 3" using assms(3) by auto
  have f: "0 \<le> sp s1'" "sp s1' < VM_STACK_SIZE" "stack s1' (sp s1') = v" "stack_types s1' (sp s1') = type_code t" "sp s1' - 1 = sp s"
    using assms(5,6) by (simp_all add: pushes_def)
  have "exec m (I_STORE Global t slot) (s1\<lparr>pc := int (p + 3)\<rparr>) = Some (Ok (stored slot v (s1'\<lparr>sp := sp s, pc := int (p + 3)\<rparr>)))"
    using f assms(3,4,7) by (auto simp: exec_def op_store_def POP_as_I_def POP_as_F_def TOS_type_def POP_def set_cell_def set_valid_def
        stored_def type_code_def T_INT_def T_NBR_def)
  then show ?thesis using step_block [OF assms(1,2), of m] e by (simp add: for_ok_def after_op_def)
qed

lemma raw_global:
  assumes "unat n < BC_MAX_SLOTS"
  shows "\<not> raw_local n" "raw_slot n = unat n"
proof -
  have "n < 2 ^ 9" using assms by (simp add: BC_MAX_SLOTS_def word_less_nat_alt)
  then have n: "n AND mask 9 = n" by (rule less_mask_eq)
  have "n AND 0x8000 = n AND (mask 9 AND 0x8000)" "n AND 0x7FFF = n AND (mask 9 AND 0x7FFF)" using n by (metis and.assoc)+
  moreover have "mask 9 AND 0x8000 = (0 :: u16)" "mask 9 AND 0x7FFF = (mask 9 :: u16)" by (simp_all add: mask_numeral)
  ultimately show "\<not> raw_local n" "raw_slot n = unat n" using n by (simp_all add: raw_local_def raw_slot_def)
qed

lemma load_alone:
  assumes "comp lvl \<Gamma> e = [I_LOAD sc t n]"
  shows "\<exists>y \<in> vars e. \<Gamma> y = (sc, n, t) \<and> eval m \<Gamma> \<rho> e = Ok (\<rho> y) \<and> etype \<Gamma> e = t"
  using assms
proof (induction e)
  case (E_UN u e)
  then show ?case by (cases u) (auto simp: append_eq_Cons_conv cvt_def split: if_splits)
next
  case (E_BIN op a b)
  have "op_instr op t' \<noteq> I_LOAD sc t n" for t' by (cases op) auto
  then show ?case using E_BIN.prems by (auto simp: fused_def Let_def append_eq_Cons_conv split: option.splits if_splits)
qed (auto split: prod.splits)

lemma let_code_cases:
  obtains (move) sc n where "comp lvl \<Gamma> e = [I_LOAD sc (ty_of \<Gamma> x) n]" "lvl \<ge> 1"
      "let_code lvl \<Gamma> x e = [I_MOV_VAR (if ty_of \<Gamma> x = TI then 1 else 2) n (slot_of \<Gamma> x)]"
  | (plain) "let_code lvl \<Gamma> x e = comp lvl \<Gamma> e @ cvt (etype \<Gamma> e) (ty_of \<Gamma> x) @ [I_STORE Global (ty_of \<Gamma> x) (slot_of \<Gamma> x)]"
proof (cases "\<exists>sc t n. comp lvl \<Gamma> e = [I_LOAD sc t n]")
  case True
  then obtain sc t n where c: "comp lvl \<Gamma> e = [I_LOAD sc t n]" by blast
  then have "etype \<Gamma> e = t" using load_alone [OF c] by blast
  then show thesis using c move plain by (cases "lvl \<ge> 1 \<and> t = ty_of \<Gamma> x") (auto simp: let_code_def)
next
  case False
  then have "let_code lvl \<Gamma> x e = comp lvl \<Gamma> e @ cvt (etype \<Gamma> e) (ty_of \<Gamma> x) @ [I_STORE Global (ty_of \<Gamma> x) (slot_of \<Gamma> x)]"
    by (auto simp: let_code_def split: list.split instr.split)
  then show thesis by (rule plain)
qed

lemma move_step:
  assumes "block s p [I_MOV_VAR (if t = TI then 1 else 2) n slot]" "pc s = int p" "t \<in> {TI, TF}"
    and "unat n < BC_MAX_SLOTS" "unat slot < BC_MAX_SLOTS"
  shows "steps m 1 s = Some (stored slot (globals s (unat n)) (s\<lparr>pc := int (p + 6)\<rparr>))"
proof -
  let ?i = "I_MOV_VAR (if t = TI then 1 else 2) n slot"
  have e: "length (encode ?i) = 6" by simp
  have "exec m ?i (s\<lparr>pc := int (p + 6)\<rparr>) = Some (Ok (stored slot (globals s (unat n)) (s\<lparr>pc := int (p + 6)\<rparr>)))"
    using assms(3-5) raw_global by (auto simp: exec_def op_mov_var_def mov_cell_def mov_done_def BC_MOV_INT_def BC_MOV_FLT_def get_cell_def
        set_cell_def set_valid_def stored_def)
  then show ?thesis using step_block [OF assms(1,2), of m] e by (simp add: for_ok_def after_op_def)
qed

lemma let_ends:
  assumes "env_ok \<Gamma> V" "x \<in> V" "vars e \<subseteq> V" "holds \<Gamma> V \<rho> s" "room s (stack_need e)"
    and "block s p (let_code lvl \<Gamma> x e)" "pc s = int p" "current_line s = word_of_int ln"
  shows "ends m \<Gamma> V n s (int p + code_size (let_code lvl \<Gamma> x e)) (Some (on_line ln (bindO (let_value m \<Gamma> \<rho> x e) (\<lambda>v. Ok (\<rho>(x := v))))))"
proof -
  let ?t = "ty_of \<Gamma> x" and ?slot = "slot_of \<Gamma> x"
  have t: "?t \<in> {TI, TF}" and sl: "unat ?slot < BC_MAX_SLOTS" using assms(1,2) by (auto simp: env_ok_def)
  show ?thesis
  proof (rule let_code_cases [of lvl \<Gamma> e x])
    fix sc k assume c: "comp lvl \<Gamma> e = [I_LOAD sc ?t k]"
      and code: "let_code lvl \<Gamma> x e = [I_MOV_VAR (if ?t = TI then 1 else 2) k ?slot]"
    obtain y where y: "y \<in> vars e" "\<Gamma> y = (sc, k, ?t)" "eval m \<Gamma> \<rho> e = Ok (\<rho> y)" "etype \<Gamma> e = ?t" using load_alone [OF c] by blast
    have k: "unat k < BC_MAX_SLOTS" "globals s (unat k) = \<rho> y"
      using assms(1,3,4) y by (auto simp: env_ok_def holds_def dest!: subsetD)
    note st = move_step [OF assms(6) [unfolded code] assms(7) t k(1) sl, of m]
    have "let_value m \<Gamma> \<rho> x e = Ok (\<rho> y)" using y by (simp add: let_value_def convert_def)
    then show ?thesis
      using st stored_holds [OF assms(1,2), of \<rho> "s\<lparr>pc := int (p + 6)\<rparr>" s "\<rho> y"] assms(4) k
      unfolding code by (auto simp: ends_def on_line_def stored_def intro!: exI [of _ 1])
  next
    assume code: "let_code lvl \<Gamma> x e = comp lvl \<Gamma> e @ cvt (etype \<Gamma> e) ?t @ [I_STORE Global ?t ?slot]"
    let ?is = "comp lvl \<Gamma> e @ cvt (etype \<Gamma> e) ?t" and ?w = "let_value m \<Gamma> \<rho> x e"
    have b: "block s p ?is" "block s (p + length (assemble ?is)) [I_STORE Global ?t ?slot]"
      using assms(6) unfolding code by (simp_all add: block_append add.assoc)
    have ar: "list_all arith ?is" using comp_arith [OF holds_bound(2) [OF assms(1,4,3)]] cvt_arith by simp
    have "valued_as (straight m ?is s) s (type_code ?t) ?w"
      using let_exec [OF assms(1,4,3,5) t] by (simp add: let_value_def)
    note ap = arith_piece [OF ar b(1) assms(7) this assms(8)]
    show ?thesis
    proof (cases ?w)
      case (Ok v)
      then obtain s1 where s1: "steps m (length ?is) s = Some (s1\<lparr>pc := int (p + length (assemble ?is))\<rparr>)" "pushes s s1 (type_code ?t) v"
        using ap by auto
      let ?s1 = "s1\<lparr>pc := int (p + length (assemble ?is))\<rparr>" and ?s2 = "s1\<lparr>sp := sp s, pc := int (p + length (assemble ?is) + 3)\<rparr>"
      have rm: "room s 1" using assms(5) stack_need_pos [of e] by simp
      have "bytecode ?s1 = bytecode s" using off_stack_fields(6) [OF pushes_off [OF s1(2)]] by simp
      then have "block ?s1 (p + length (assemble ?is)) [I_STORE Global ?t ?slot]" using b(2) by (simp add: block_def)
      note st = store_step [OF this _ t sl s1(2) rm refl, of m]
      have st: "steps m (length ?is + 1) s = Some (stored ?slot v ?s2)" by (rule steps_add [OF s1(1)]) (use st in simp)
      note pop = popped [OF s1(2) rm, of \<Gamma> V]
      have h: "holds \<Gamma> V \<rho> ?s2" "same_but \<Gamma> V s ?s2" using pop assms(4) by simp_all
      have "pc (stored ?slot v ?s2) = int p + code_size (let_code lvl \<Gamma> x e)" using t unfolding code by (auto simp: stored_def)
      then have "ends m \<Gamma> V n s (int p + code_size (let_code lvl \<Gamma> x e)) (Some (Ok (\<rho>(x := v))))"
        by (rule ends_OkI [OF st _ stored_holds [OF assms(1,2) h]])
      then show ?thesis using Ok by (simp add: on_line_def)
    qed (use ap in \<open>auto simp: ends_def on_line_def\<close>)
  qed
qed

section \<open>Conditions\<close>

lemma as_compare_spec:
  assumes "as_compare e = Some (r, a, b)"
  shows "comp lvl \<Gamma> e = both_operands lvl \<Gamma> a b @ [I_CMP (join (etype \<Gamma> a) (etype \<Gamma> b)) r]" "etype \<Gamma> e = TI" "vars e = vars a \<union> vars b"
    "stack_need e = max (stack_need a) (1 + stack_need b)"
proof -
  have "comp lvl \<Gamma> e = both_operands lvl \<Gamma> a b @ [I_CMP (join (etype \<Gamma> a) (etype \<Gamma> b)) r] \<and> etype \<Gamma> e = TI \<and>
    vars e = vars a \<union> vars b \<and> stack_need e = max (stack_need a) (1 + stack_need b)"
    using assms
  proof (induction e)
    case (E_BIN op a' b')
    then have o: "op = O_CMP r" "a' = a" "b' = b" by (auto split: binop.splits)
    have "fuse_bits lvl \<Gamma> (O_CMP r) a b = None" by (auto simp: fuse_bits_def split: option.split)
    then show ?case using o by (simp add: both_operands_def Let_def result_type_def)
  qed (auto split: if_splits)
  then show "comp lvl \<Gamma> e = both_operands lvl \<Gamma> a b @ [I_CMP (join (etype \<Gamma> a) (etype \<Gamma> b)) r]" "etype \<Gamma> e = TI" "vars e = vars a \<union> vars b"
    "stack_need e = max (stack_need a) (1 + stack_need b)" by simp_all
qed

text \<open>Two operands on the stack.\<close>

definition valued_pair :: "vm res \<Rightarrow> vm \<Rightarrow> u8 \<Rightarrow> (u64 \<times> u64) valued \<Rightarrow> bool" where
  "valued_pair r s t w =
     (case w of
        Ok (x, y) \<Rightarrow> \<exists>s1 s2. r = Ok s2 \<and> pushes s s1 t x \<and> pushes s1 s2 t y
      | Err e u \<Rightarrow> \<exists>s1. r = bc_vm_error s1 e \<and> off_stack s1 = off_stack s
      | Fault \<Rightarrow> r = Fault)"

lemma valued_pair_bind:
  assumes "valued_as r b t w" "off_stack b = off_stack s"
    and "\<And>v s'. w = Ok v \<Longrightarrow> pushes b s' t v \<Longrightarrow> valued_pair (f s') s t2 (g v)"
  shows "valued_pair (bindO r f) s t2 (bindO w g)"
proof (cases w)
  case (Ok v)
  then obtain s' where "r = Ok s'" "pushes b s' t v" using assms(1) by (auto simp: valued_as_def)
  then show ?thesis using assms(3) [OF Ok] Ok by simp
qed (use assms(1,2) in \<open>auto simp: valued_as_def valued_pair_def\<close>)

lemma operands_exec:
  assumes "env_ok \<Gamma> V" "holds \<Gamma> V \<rho> s" "vars a \<union> vars b \<subseteq> V" "room s (max (stack_need a) (1 + stack_need b))"
  shows "valued_pair (straight m (both_operands lvl \<Gamma> a b) s) s (type_code (join (etype \<Gamma> a) (etype \<Gamma> b))) (operand_values m \<Gamma> \<rho> a b)"
proof -
  let ?t = "join (etype \<Gamma> a) (etype \<Gamma> b)"
  have t: "?t \<in> {TI, TF}" by (simp add: join_def)
  have rm: "room s (stack_need a)" "room s 1" "sp s + 1 + stack_need b < VM_STACK_SIZE"
    using assms(4) stack_need_pos [of a] by auto
  have vb: "vars a \<subseteq> V" "vars b \<subseteq> V" using assms(3) by simp_all
  note wb = holds_bound(2) [OF assms(1,2) vb(2)]
  have eq: "straight m (both_operands lvl \<Gamma> a b) s =
      bindO (straight m (comp lvl \<Gamma> a @ cvt (etype \<Gamma> a) ?t) s) (\<lambda>s1. bindO (straight m (comp lvl \<Gamma> b) s1) (straight m (cvt (etype \<Gamma> b) ?t)))"
    by (simp add: both_operands_def Let_def straight_append_fun bindO_assoc)
  have ev: "operand_values m \<Gamma> \<rho> a b =
      bindO (bindO (eval m \<Gamma> \<rho> a) (convert (etype \<Gamma> a) ?t)) (\<lambda>x. bindO (eval m \<Gamma> \<rho> b) (\<lambda>y. bindO (convert (etype \<Gamma> b) ?t y) (\<lambda>y'. Ok (x, y'))))"
    by (simp add: operand_values_def Let_def bindO_assoc)
  show ?thesis
    unfolding eq ev
  proof (rule valued_pair_bind [OF let_exec [OF assms(1,2) vb(1) rm(1) t] refl])
    fix x s1 assume s1: "pushes s s1 (type_code ?t) x"
    have rm1: "room s1 (stack_need b)" "room s1 1" using rm pushes_sp [OF s1] stack_need_pos [of b] by simp_all
    have h1: "holds \<Gamma> V \<rho> s1" using popped(2) [OF s1 rm(2)] assms(2) by simp
    note b1 = holds_bound(1) [OF assms(1) h1 vb(2)]
    show "valued_pair (bindO (straight m (comp lvl \<Gamma> b) s1) (straight m (cvt (etype \<Gamma> b) ?t))) s (type_code ?t)
        (bindO (eval m \<Gamma> \<rho> b) (\<lambda>y. bindO (convert (etype \<Gamma> b) ?t y) (\<lambda>y'. Ok (x, y'))))"
    proof (rule valued_pair_bind [OF computesD [OF comp_computes [OF wb] b1 refl rm1(1)] pushes_off [OF s1]])
      fix y s2 assume "pushes s1 s2 (type_code (etype \<Gamma> b)) y"
      then have "valued_as (straight m (cvt (etype \<Gamma> b) ?t) s2) s1 (type_code ?t) (convert (etype \<Gamma> b) ?t y)"
        using cvt_exec [OF _ rm1(2) etype_numeric [OF wb] t] by simp
      then show "valued_pair (straight m (cvt (etype \<Gamma> b) ?t) s2) s (type_code ?t) (bindO (convert (etype \<Gamma> b) ?t y) (\<lambda>y'. Ok (x, y')))"
        using s1 pushes_off [OF s1] by (cases "convert (etype \<Gamma> b) ?t y") (auto simp: valued_as_def valued_pair_def)
    qed
  qed
qed

lemma pair_piece:
  assumes "list_all arith is" "block s p is" "pc s = int p" "valued_pair (straight m is s) s t w"
    and "current_line s = word_of_int ln"
  shows "case w of
      Ok (x, y) \<Rightarrow> \<exists>s1 s2. steps m (length is) s = Some (s2\<lparr>pc := int (p + length (assemble is))\<rparr>) \<and> pushes s s1 t x \<and> pushes s1 s2 t y
    | Err msg u \<Rightarrow> errs m s msg ln
    | Fault \<Rightarrow> crashes m s"
proof (cases w)
  case (Ok v)
  obtain x y where v: "v = (x, y)" by (cases v)
  then obtain s1 s2 where r: "straight m is s = Ok s2" "pushes s s1 t x" "pushes s1 s2 t y"
    using assms(4) Ok by (auto simp: valued_pair_def)
  have "steps m (length is) s = Some (s2\<lparr>pc := int (p + length (assemble is))\<rparr>)"
    using straight_runs [OF assms(1-3), of m] r(1) by (simp add: runs_to_def)
  then show ?thesis unfolding Ok v outcome.case prod.case using r(2,3) by blast
next
  case (Err msg u)
  then have "valued_as (straight m is s) s t (Err msg u)" using assms(4) by (simp add: valued_pair_def valued_as_def)
  then show ?thesis using arith_piece [OF assms(1-3) _ assms(5)] Err by fastforce
next
  case Fault
  then have "valued_as (straight m is s) s t Fault" using assms(4) by (simp add: valued_pair_def valued_as_def)
  then show ?thesis using arith_piece [OF assms(1-3) _ assms(5)] Fault by fastforce
qed

lemma rel_jump_at:
  "pc (rel_jump off s) = pc s + sint off" "holds \<Gamma> V \<rho> (rel_jump off s) = holds \<Gamma> V \<rho> s" "same_but \<Gamma> V s0 (rel_jump off s) = same_but \<Gamma> V s0 s"
  "current_line (rel_jump off s) = current_line s"
  by (simp_all add: rel_jump_def bc_vm_poll_interrupts_def Let_def)

text \<open>The state behind the popped operands of a jump.\<close>

definition taken :: "bool \<Rightarrow> u16 \<Rightarrow> vm \<Rightarrow> vm" where
  "taken c off s = (if c then rel_jump off s else s)"

lemma taken_at:
  "pc (taken c off s) = pc s + (if c then sint off else 0)" "holds \<Gamma> V \<rho> (taken c off s) = holds \<Gamma> V \<rho> s"
  "same_but \<Gamma> V s0 (taken c off s) = same_but \<Gamma> V s0 s" "current_line (taken c off s) = current_line s"
  by (simp_all add: taken_def rel_jump_at)

lemma upd_swap: "s\<lparr>pc := a, sp := b\<rparr> = s\<lparr>sp := b, pc := a\<rparr>"
  by (cases s) simp

lemma jcmp_step:
  assumes "block s2' p [if t = TI then I_JCMP_I (rel_code r) off else I_JCMP_F (rel_code r) off]" "pc s2' = int p" "t \<in> {TI, TF}"
    and "pushes s s1 (type_code t) x" "pushes s1 s2 (type_code t) y" "room s 2" "s2' = s2\<lparr>pc := q\<rparr>"
  shows "steps m 1 s2' = Some (taken (compares t r x y) off (s2\<lparr>sp := sp s, pc := int (p + 4)\<rparr>))"
proof -
  let ?i = "if t = TI then I_JCMP_I (rel_code r) off else I_JCMP_F (rel_code r) off" and ?q = "int (p + 4)"
  have e: "length (encode ?i) = 4" by simp
  have ro: "rel_of (rel_code r) = Some r" by (cases r) (simp_all add: rel_of_def)
  have rm: "room s 1" "room s1 1" using assms(6) pushes_sp [OF assms(4)] by simp_all
  have p2: "POP s2 = Ok (y, s2\<lparr>sp := sp s1\<rparr>)" using pop_of [OF assms(5)] rm(2) by simp
  have p1: "POP (s2\<lparr>sp := sp s1\<rparr>) = Ok (x, s2\<lparr>sp := sp s\<rparr>)" using pop_of [OF under_top [OF assms(4,5)]] rm(1) by simp
  have P: "POP (s2'\<lparr>pc := ?q\<rparr>) = Ok (y, s2\<lparr>sp := sp s1, pc := ?q\<rparr>)" "POP (s2\<lparr>sp := sp s1, pc := ?q\<rparr>) = Ok (x, s2\<lparr>sp := sp s, pc := ?q\<rparr>)"
    using assms(4-7) under_top [OF assms(4,5)] by (simp_all add: POP_def pushes_def upd_swap)
  have "exec m ?i (s2'\<lparr>pc := ?q\<rparr>) = Some (Ok (taken (compares t r x y) off (s2\<lparr>sp := sp s, pc := ?q\<rparr>)))"
    using P ro assms(3) by (auto simp: exec_def op_jcmp_i_def op_jcmp_f_def compares_def taken_def)
  then show ?thesis using step_block [OF assms(1,2), of m] e by (simp add: for_ok_def after_op_def)
qed

lemma jz_step:
  assumes "block s1' p [I_JZ off]" "pc s1' = int p" "t \<in> {TI, TF}"
    and "pushes s s1 (type_code t) v" "room s 1" "s1' = s1\<lparr>pc := q\<rparr>"
  shows "case convert t TI v of
      Ok i \<Rightarrow> steps m 1 s1' = Some (taken (i = 0) off (s1\<lparr>sp := sp s, pc := int (p + 3)\<rparr>))
    | Err e u \<Rightarrow> False
    | Fault \<Rightarrow> step m s1' = Wild"
proof -
  have e: "length (encode (I_JZ off)) = 3" by simp
  have f: "0 \<le> sp s1" "sp s1 < VM_STACK_SIZE" "stack s1 (sp s1) = v" "stack_types s1 (sp s1) = type_code t" "sp s1 - 1 = sp s"
    using assms(4,5) by (simp_all add: pushes_def)
  have "exec m (I_JZ off) (s1'\<lparr>pc := int (p + 3)\<rparr>) = Some (case convert t TI v of
      Ok i \<Rightarrow> Ok (taken (i = 0) off (s1\<lparr>sp := sp s, pc := int (p + 3)\<rparr>)) | _ \<Rightarrow> Fault)"
    using f assms(3,6) by (auto simp: exec_def op_jz_def prim_defs convert_def type_code_def T_INT_def T_NBR_def taken_def upd_swap split: option.splits)
  moreover have "convert t TI v \<noteq> Err e u" for e u by (auto simp: convert_def split: option.splits)
  ultimately show ?thesis using step_block [OF assms(1,2), of m] e
    by (cases "convert t TI v") (auto simp: for_ok_def after_op_def)
qed

lemma cond_ends:
  assumes "env_ok \<Gamma> V" "vars e \<subseteq> V" "holds \<Gamma> V \<rho> s" "room s (stack_need e)"
    and "block s p (jump_unless lvl \<Gamma> e d)" "pc s = int p" "current_line s = word_of_int ln"
  shows "case truth lvl m \<Gamma> \<rho> e of
      Ok b \<Rightarrow> \<exists>k s1. steps m (Suc k) s = Some s1 \<and> pc s1 = int p + code_size (jump_unless lvl \<Gamma> e d) + (if b then 0 else sint (word_of_int d :: u16)) \<and>
        holds \<Gamma> V \<rho> s1 \<and> same_but \<Gamma> V s s1 \<and> current_line s1 = current_line s
    | Err msg u \<Rightarrow> errs m s msg ln
    | Fault \<Rightarrow> crashes m s"
proof (cases "fused_compare lvl e")
  case None
  let ?is = "comp lvl \<Gamma> e"
  have code: "jump_unless lvl \<Gamma> e d = ?is @ [I_JZ (word_of_int d)]" using None by (simp add: jump_unless_def Let_def)
  have rm: "room s 1" using assms(4) stack_need_pos [of e] by simp
  note b = assms(5) [unfolded code block_append] and w = holds_bound [OF assms(1,3,2)]
  note ap = arith_piece [OF comp_arith [OF w(2)] b [THEN conjunct1] assms(6) computesD [OF comp_computes [OF w(2)] w(1) refl assms(4)] assms(7)]
  have tr: "truth lvl m \<Gamma> \<rho> e = plain_truth m \<Gamma> \<rho> e" using None by (simp add: truth_def)
  show ?thesis
  proof (cases "eval m \<Gamma> \<rho> e")
    case (Ok v)
    then obtain s1 where s1: "steps m (length ?is) s = Some (s1\<lparr>pc := int (p + length (assemble ?is))\<rparr>)" "pushes s s1 (type_code (etype \<Gamma> e)) v"
      using ap [where m = m] by auto
    let ?s1 = "s1\<lparr>pc := int (p + length (assemble ?is))\<rparr>"
    have "bytecode ?s1 = bytecode s" using off_stack_fields(6) [OF pushes_off [OF s1(2)]] by simp
    then have "block ?s1 (p + length (assemble ?is)) [I_JZ (word_of_int d)]" using b by (simp add: block_def)
    note j = jz_step [OF this _ etype_numeric [OF w(2)] s1(2) rm refl, of m]
    note pop = popped [OF s1(2) rm, of \<Gamma> V]
    show ?thesis
    proof (cases "convert (etype \<Gamma> e) TI v")
      case c: (Ok i)
      let ?s2 = "taken (i = 0) (word_of_int d) (s1\<lparr>sp := sp s, pc := int (p + length (assemble ?is) + 3)\<rparr>)"
      have "steps m (length ?is + 1) s = Some ?s2" by (rule steps_add [OF s1(1)]) (use j c in simp)
      then have "steps m (Suc (length ?is)) s = Some ?s2" by simp
      moreover have "pc ?s2 = int p + code_size (jump_unless lvl \<Gamma> e d) + (if i \<noteq> 0 then 0 else sint (word_of_int d :: u16))"
        unfolding code by (simp add: taken_at)
      moreover have "holds \<Gamma> V \<rho> ?s2" "same_but \<Gamma> V s ?s2" "current_line ?s2 = current_line s"
        using pop assms(3) off_stack_fields(7) [OF pushes_off [OF s1(2)]] by (simp_all add: taken_at)
      moreover have tv: "truth lvl m \<Gamma> \<rho> e = Ok (i \<noteq> 0)" using Ok c tr by (simp add: plain_truth_def)
      ultimately show ?thesis unfolding tv outcome.case by blast
    next
      case (Err e u)
      then show ?thesis using j by simp
    next
      case Fault
      then show ?thesis using Ok tr j s1(1) by (auto simp: plain_truth_def crashes_def)
    qed
  qed (use ap [where m = m] tr in \<open>auto simp: plain_truth_def\<close>)
next
  case (Some rab)
  obtain r a b where rab: "rab = (r, a, b)" by (cases rab)
  let ?is = "both_operands lvl \<Gamma> a b" and ?t = "join (etype \<Gamma> a) (etype \<Gamma> b)"
  have cmp: "as_compare e = Some (r, a, b)" using Some rab by (simp add: fused_compare_def split: if_splits)
  note sp = as_compare_spec [OF cmp]
  have code: "jump_unless lvl \<Gamma> e d = ?is @ [if ?t = TI then I_JCMP_I (rel_code (opposite r)) (word_of_int d) else I_JCMP_F (rel_code (opposite r)) (word_of_int d)]"
    using Some rab by (simp add: jump_unless_def Let_def)
  have tr: "truth lvl m \<Gamma> \<rho> e = fused_truth m \<Gamma> \<rho> r a b" using Some rab by (simp add: truth_def)
  have t: "?t \<in> {TI, TF}" by (simp add: join_def)
  have rm: "room s (max (stack_need a) (1 + stack_need b))" "room s 2" "room s 1" using assms(4) sp(4) stack_need_pos [of b] by auto
  have vb: "vars a \<union> vars b \<subseteq> V" using assms(2) sp(3) by simp
  have ar: "list_all arith ?is"
    using comp_arith [OF holds_bound(2) [OF assms(1,3,2)], of lvl] sp(1) [of lvl \<Gamma>] by simp
  note b = assms(5) [unfolded code block_append]
  note pp = pair_piece [OF ar b [THEN conjunct1] assms(6) operands_exec [OF assms(1,3) vb rm(1)] assms(7)]
  show ?thesis
  proof (cases "operand_values m \<Gamma> \<rho> a b")
    case (Ok v)
    obtain x y where v: "v = (x, y)" by (cases v)
    then obtain s1 s2 where s2: "steps m (length ?is) s = Some (s2\<lparr>pc := int (p + length (assemble ?is))\<rparr>)"
      "pushes s s1 (type_code ?t) x" "pushes s1 s2 (type_code ?t) y"
      using pp [where m = m] Ok by auto
    let ?s2 = "s2\<lparr>pc := int (p + length (assemble ?is))\<rparr>" and ?c = "compares ?t (opposite r) x y"
    let ?s3 = "taken ?c (word_of_int d) (s2\<lparr>sp := sp s, pc := int (p + length (assemble ?is) + 4)\<rparr>)"
    have "bytecode ?s2 = bytecode s"
      using off_stack_fields(6) [OF pushes_off [OF s2(2)]] off_stack_fields(6) [OF pushes_off [OF s2(3)]] by simp
    then have "block ?s2 (p + length (assemble ?is)) [if ?t = TI then I_JCMP_I (rel_code (opposite r)) (word_of_int d) else I_JCMP_F (rel_code (opposite r)) (word_of_int d)]"
      using b by (simp add: block_def)
    note j = jcmp_step [OF this _ t s2(2,3) rm(2) refl, of m]
    have p1: "pushes s (s2\<lparr>sp := sp s1\<rparr>) (type_code ?t) x" by (rule under_top [OF s2(2,3)])
    have pop: "same_but \<Gamma> V s (s2\<lparr>sp := sp s\<rparr>)" "holds \<Gamma> V \<rho> s2" using popped [OF p1 rm(3), of \<Gamma> V] assms(3) by simp_all
    have "steps m (length ?is + 1) s = Some ?s3" by (rule steps_add [OF s2(1)]) (use j in simp)
    then have "steps m (Suc (length ?is)) s = Some ?s3" by simp
    moreover have "pc ?s3 = int p + code_size (jump_unless lvl \<Gamma> e d) + (if \<not> ?c then 0 else sint (word_of_int d :: u16))"
      unfolding code by (simp add: taken_at)
    moreover have "holds \<Gamma> V \<rho> ?s3" "same_but \<Gamma> V s ?s3" "current_line ?s3 = current_line s"
      using pop off_stack_fields(7) [OF pushes_off [OF s2(2)]] off_stack_fields(7) [OF pushes_off [OF s2(3)]] by (simp_all add: taken_at)
    moreover have tv: "truth lvl m \<Gamma> \<rho> e = Ok (\<not> ?c)" using Ok v tr by (simp add: fused_truth_def)
    ultimately show ?thesis unfolding tv outcome.case by blast
  qed (use pp [where m = m] tr in \<open>auto simp: fused_truth_def\<close>)
qed

section \<open>Programs\<close>

lemma jmp_step:
  assumes "block s p (I_JMP off # is)" "pc s = int p"
  shows "steps m 1 s = Some (rel_jump off (s\<lparr>pc := int (p + 3)\<rparr>))"
proof -
  have "length (encode (I_JMP off)) = 3" by simp
  then show ?thesis using step_block [OF assms, of m] by (simp add: for_ok_def exec_def after_op_def op_jmp_def)
qed

lemma sint_off:
  assumes "- (2 ^ 15) \<le> k" "k < 2 ^ 15"
  shows "sint (word_of_int k :: u16) = k"
  using assms by (simp add: signed_of_int signed_take_bit_int_eq_self)

lemma jump_unless_size: "code_size (jump_unless lvl \<Gamma> e k) = cond_size lvl \<Gamma> e"
  by (auto simp: cond_size_def jump_unless_def Let_def split: option.split)

text \<open>A line's number and then a part of the code that ends.\<close>

lemma ends_line:
  assumes "block s p (line_mark ln # is)" "pc s = int p" "holds \<Gamma> V \<rho> s"
    and "\<And>s1. pc s1 = int (p + 3) \<Longrightarrow> current_line s1 = word_of_int ln \<Longrightarrow> holds \<Gamma> V \<rho> s1 \<Longrightarrow> same_but \<Gamma> V s s1 \<Longrightarrow> ends m \<Gamma> V n s1 q r"
  shows "ends m \<Gamma> V n s q r"
  by (rule ends_after [OF line_step [OF assms(1) [unfolded line_mark_def] assms(2)] _ assms(4)]) (use assms(3) in simp_all)

lemma ends_jump:
  assumes "block s p (jump_by k # is)" "pc s = int p" "holds \<Gamma> V \<rho> s" "- (2 ^ 15) \<le> k" "k < 2 ^ 15"
    and "\<And>s1. pc s1 = int p + 3 + k \<Longrightarrow> current_line s1 = current_line s \<Longrightarrow> holds \<Gamma> V \<rho> s1 \<Longrightarrow> same_but \<Gamma> V s s1 \<Longrightarrow> ends m \<Gamma> V n s1 q r"
  shows "ends m \<Gamma> V n s q r"
proof (rule ends_after [OF jmp_step [OF assms(1) [unfolded jump_by_def] assms(2)]])
  let ?s1 = "rel_jump (word_of_int k) (s\<lparr>pc := int (p + 3)\<rparr>)"
  show mv: "same_but \<Gamma> V s ?s1" by (simp add: rel_jump_at)
  then show "ends m \<Gamma> V n ?s1 q r" using assms(3) mv sint_off [OF assms(4,5)] by (intro assms(6)) (simp_all add: rel_jump_at)
qed

text \<open>A condition, and what follows when it holds and when it does not.\<close>

lemma ends_cond:
  assumes "env_ok \<Gamma> V" "vars e \<subseteq> V" "holds \<Gamma> V \<rho> s" "room s (stack_need e)"
    and "block s p (jump_unless lvl \<Gamma> e k)" "pc s = int p" "current_line s = word_of_int ln" "- (2 ^ 15) \<le> k" "k < 2 ^ 15"
    and "\<And>s1. pc s1 = int p + cond_size lvl \<Gamma> e \<Longrightarrow> current_line s1 = word_of_int ln \<Longrightarrow> holds \<Gamma> V \<rho> s1 \<Longrightarrow> same_but \<Gamma> V s s1 \<Longrightarrow> ends m \<Gamma> V n s1 q x"
    and "\<And>s1. pc s1 = int p + cond_size lvl \<Gamma> e + k \<Longrightarrow> current_line s1 = word_of_int ln \<Longrightarrow> holds \<Gamma> V \<rho> s1 \<Longrightarrow> same_but \<Gamma> V s s1 \<Longrightarrow> ends m \<Gamma> V n s1 q y"
    and "n' \<le> Suc n"
  shows "ends m \<Gamma> V n' s q (decide (on_line ln (truth lvl m \<Gamma> \<rho> e)) x y)"
proof -
  have weak: "ends m \<Gamma> V n' s q r" if "ends m \<Gamma> V (Suc n) s q r" for r
    using that assms(12) lasts_mono [of m "Suc n" s n'] by (auto simp: ends_def split: option.splits outcome.splits)
  note c = cond_ends [OF assms(1-7), of m]
  show ?thesis
  proof (cases "truth lvl m \<Gamma> \<rho> e")
    case (Ok b)
    then obtain j s1 where s1: "steps m (Suc j) s = Some s1"
      "pc s1 = int p + code_size (jump_unless lvl \<Gamma> e k) + (if b then 0 else sint (word_of_int k :: u16))"
      "holds \<Gamma> V \<rho> s1" "same_but \<Gamma> V s s1" "current_line s1 = current_line s"
      using c by auto
    have "ends m \<Gamma> V n s1 q (if b then x else y)"
      using assms(10) [of s1] assms(11) [of s1] s1 assms(7) sint_off [OF assms(8,9)] jump_unless_size by auto
    then show ?thesis using Ok by (simp add: decide_def on_line_def weak [OF ends_Suc [OF s1(1,4)]])
  qed (use c in \<open>auto simp: decide_def on_line_def ends_def\<close>)
qed



definition fits_vm :: "scope_env \<Rightarrow> cstr set \<Rightarrow> vm \<Rightarrow> com \<Rightarrow> bool" where
  "fits_vm \<Gamma> V s c \<longleftrightarrow> env_ok \<Gamma> V \<and> com_vars c \<subseteq> V \<and> (\<forall>e \<in> com_exps c. room s (stack_need e))"

lemma fits_vm_same: "same_but \<Gamma> V s s' \<Longrightarrow> fits_vm \<Gamma> V s' c = fits_vm \<Gamma> V s c"
  using same_but_fields(2) [of \<Gamma> V s s'] by (simp add: fits_vm_def)

lemma fits_vm_parts [simp]:
  "fits_vm \<Gamma> V s (C_SEQ a b) \<longleftrightarrow> fits_vm \<Gamma> V s a \<and> fits_vm \<Gamma> V s b"
  "fits_vm \<Gamma> V s (C_IF e a b) \<longleftrightarrow> fits_vm \<Gamma> V s a \<and> fits_vm \<Gamma> V s b \<and> vars e \<subseteq> V \<and> room s (stack_need e)"
  "fits_vm \<Gamma> V s (C_WHILE e c) \<longleftrightarrow> fits_vm \<Gamma> V s c \<and> vars e \<subseteq> V \<and> room s (stack_need e)"
  "fits_vm \<Gamma> V s (C_UNTIL c e) \<longleftrightarrow> fits_vm \<Gamma> V s c \<and> vars e \<subseteq> V \<and> room s (stack_need e)"
  "fits_vm \<Gamma> V s (C_LET x e) \<longleftrightarrow> env_ok \<Gamma> V \<and> x \<in> V \<and> vars e \<subseteq> V \<and> room s (stack_need e)"
  by (auto simp: fits_vm_def com_vars_def)

lemma fits_vm_env: "fits_vm \<Gamma> V s c \<Longrightarrow> env_ok \<Gamma> V"
  by (simp add: fits_vm_def)

abbreviation com_size :: "int \<Rightarrow> scope_env \<Rightarrow> int \<Rightarrow> com \<Rightarrow> int" where
  "com_size lvl \<Gamma> ln c \<equiv> code_size (com_code lvl \<Gamma> ln c)"

text \<open>The sizes of the parts.\<close>

lemma mark_sizes [simp]: "length (encode (line_mark ln)) = 3" "length (encode (jump_by k)) = 3"
  by (simp_all add: line_mark_def jump_by_def)

lemma cond_size_pos [simp]: "0 \<le> cond_size lvl \<Gamma> e"
  by (simp add: cond_size_def)

lemma com_sizes:
  "com_size lvl \<Gamma> ln (C_SEQ a b) = com_size lvl \<Gamma> ln a + com_size lvl \<Gamma> (ln + com_len a) b"
  "com_size lvl \<Gamma> ln (C_IF e a b) = com_size lvl \<Gamma> (ln + 1) a + com_size lvl \<Gamma> (ln + 1 + com_len a + 1) b + cond_size lvl \<Gamma> e + 12"
  "com_size lvl \<Gamma> ln (C_WHILE e c) = com_size lvl \<Gamma> (ln + 1) c + cond_size lvl \<Gamma> e + 9"
  "com_size lvl \<Gamma> ln (C_UNTIL c e) = com_size lvl \<Gamma> (ln + 1) c + cond_size lvl \<Gamma> e + 6"
  by (simp_all add: Let_def jump_unless_size)

text \<open>Where the parts of a statement begin.\<close>

lemma block_parts:
  "block s p (i # is) \<longleftrightarrow> block s p [i] \<and> block s (p + length (encode i)) is"
  using block_append [of s p "[i]" "is"] by simp

lemma if_blocks:
  assumes "block s p (com_code lvl \<Gamma> ln (C_IF e a b))"
  shows "block s p (line_mark ln # jump_unless lvl \<Gamma> e (com_size lvl \<Gamma> (ln + 1) a + 6))"
    "block s (p + 3 + nat (cond_size lvl \<Gamma> e)) (com_code lvl \<Gamma> (ln + 1) a)"
    "block s (p + 3 + nat (cond_size lvl \<Gamma> e + com_size lvl \<Gamma> (ln + 1) a)) [line_mark (ln + 1 + com_len a), jump_by (com_size lvl \<Gamma> (ln + 1 + com_len a + 1) b + 3)]"
    "block s (p + 3 + nat (cond_size lvl \<Gamma> e + com_size lvl \<Gamma> (ln + 1) a + 6)) (com_code lvl \<Gamma> (ln + 1 + com_len a + 1) b)"
    "block s (p + 3 + nat (cond_size lvl \<Gamma> e + com_size lvl \<Gamma> (ln + 1) a + 6 + com_size lvl \<Gamma> (ln + 1 + com_len a + 1) b)) [line_mark (ln + 1 + com_len a + 1 + com_len b)]"
proof -
  have j: "length (assemble (jump_unless lvl \<Gamma> e off)) = nat (cond_size lvl \<Gamma> e)" for off using jump_unless_size [of lvl \<Gamma> e off] by linarith
  note b = assms [unfolded com_code.simps Let_def, folded append_Cons]
  show "block s p (line_mark ln # jump_unless lvl \<Gamma> e (com_size lvl \<Gamma> (ln + 1) a + 6))"
    "block s (p + 3 + nat (cond_size lvl \<Gamma> e)) (com_code lvl \<Gamma> (ln + 1) a)"
    "block s (p + 3 + nat (cond_size lvl \<Gamma> e + com_size lvl \<Gamma> (ln + 1) a)) [line_mark (ln + 1 + com_len a), jump_by (com_size lvl \<Gamma> (ln + 1 + com_len a + 1) b + 3)]"
    "block s (p + 3 + nat (cond_size lvl \<Gamma> e + com_size lvl \<Gamma> (ln + 1) a + 6)) (com_code lvl \<Gamma> (ln + 1 + com_len a + 1) b)"
    "block s (p + 3 + nat (cond_size lvl \<Gamma> e + com_size lvl \<Gamma> (ln + 1) a + 6 + com_size lvl \<Gamma> (ln + 1 + com_len a + 1) b)) [line_mark (ln + 1 + com_len a + 1 + com_len b)]"
    using b unfolding block_append by (simp_all add: j nat_add_distrib add.assoc)
qed

lemma if_ends:
  assumes f: "fits_vm \<Gamma> V s (C_IF e a b)" "holds \<Gamma> V \<rho> s" "block s p (com_code lvl \<Gamma> ln (C_IF e a b))" "pc s = int p"
    and sz: "com_size lvl \<Gamma> ln (C_IF e a b) < 2 ^ 15"
    and A: "\<And>s1 p1. same_but \<Gamma> V s s1 \<Longrightarrow> holds \<Gamma> V \<rho> s1 \<Longrightarrow> block s1 p1 (com_code lvl \<Gamma> (ln + 1) a) \<Longrightarrow> pc s1 = int p1 \<Longrightarrow>
      ends m \<Gamma> V n s1 (int p1 + com_size lvl \<Gamma> (ln + 1) a) x"
    and B: "\<And>s1 p1. same_but \<Gamma> V s s1 \<Longrightarrow> holds \<Gamma> V \<rho> s1 \<Longrightarrow> block s1 p1 (com_code lvl \<Gamma> (ln + 1 + com_len a + 1) b) \<Longrightarrow> pc s1 = int p1 \<Longrightarrow>
      ends m \<Gamma> V n s1 (int p1 + com_size lvl \<Gamma> (ln + 1 + com_len a + 1) b) y"
  shows "ends m \<Gamma> V n s (int p + com_size lvl \<Gamma> ln (C_IF e a b)) (decide (on_line ln (truth lvl m \<Gamma> \<rho> e)) x y)"
proof -
  let ?q = "int p + com_size lvl \<Gamma> ln (C_IF e a b)" and ?S = "cond_size lvl \<Gamma> e" and ?a = "com_size lvl \<Gamma> (ln + 1) a"
  let ?b = "com_size lvl \<Gamma> (ln + 1 + com_len a + 1) b"
  note bl = if_blocks [OF f(3)] and len = sz [unfolded com_sizes]
  have q: "?q = int p + 12 + ?S + ?a + ?b" using com_sizes(2) [of lvl \<Gamma> ln e a b] by linarith
  have bd: "?a < 2 ^ 15 - 12" "?b < 2 ^ 15 - 12" using len cond_size_pos [of lvl \<Gamma> e] by linarith+
  \<comment> \<open>\<open>ENDIF\<close> only notes its line\<close>
  have fin: "ends m \<Gamma> V n s1 ?q (Some (Ok \<rho>1))"
    if "same_but \<Gamma> V s s1" "holds \<Gamma> V \<rho>1 s1" "pc s1 = int p + 9 + ?S + ?a + ?b" for s1 \<rho>1
  proof -
    let ?e = "p + 3 + nat (?S + ?a + 6 + ?b)"
    have pc: "pc s1 = int ?e" using that by simp
    have "block s1 ?e [line_mark (ln + 1 + com_len a + 1 + com_len b)]" using bl(5) same_but_fields(4) [OF that(1)] by simp
    from ends_OkI [OF line_step [OF this [unfolded line_mark_def] pc]] show ?thesis using that q by simp
  qed
  show ?thesis
  proof (rule ends_line [OF bl(1) f(4) f(2)])
    fix s1 assume s1: "pc s1 = int (p + 3)" "current_line s1 = word_of_int ln" "holds \<Gamma> V \<rho> s1" "same_but \<Gamma> V s s1"
    have b1: "block s1 (p + 3) (jump_unless lvl \<Gamma> e (?a + 6))"
      using block_Cons(2) [OF bl(1)] same_but_fields(4) [OF s1(4)] by simp
    have f1: "env_ok \<Gamma> V" "vars e \<subseteq> V" "room s1 (stack_need e)"
      using f(1) same_but_fields(2) [OF s1(4)] fits_vm_env [of \<Gamma> V s a] by simp_all
    show "ends m \<Gamma> V n s1 ?q (decide (on_line ln (truth lvl m \<Gamma> \<rho> e)) x y)"
    proof (rule ends_cond [OF f1(1,2) s1(3) f1(3) b1 s1(1,2)])
      show "- (2 ^ 15) \<le> ?a + 6" "?a + 6 < 2 ^ 15" "n \<le> Suc n" using bd by simp_all
    next
      fix s2 assume s2: "pc s2 = int (p + 3) + ?S" "current_line s2 = word_of_int ln" "holds \<Gamma> V \<rho> s2" "same_but \<Gamma> V s1 s2"
      have m2: "same_but \<Gamma> V s s2" by (rule same_but_trans [OF s1(4) s2(4)])
      have "block s2 (p + 3 + nat ?S) (com_code lvl \<Gamma> (ln + 1) a)" using bl(2) same_but_fields(4) [OF m2] by simp
      from A [OF m2 s2(3) this] have Aa: "ends m \<Gamma> V n s2 (int (p + 3) + ?S + ?a) x" using s2(1) by simp
      have "ends m \<Gamma> V n s2 ?q (then_run x (\<lambda>\<rho>1. Some (Ok \<rho>1)))"
      proof (rule ends_then [OF Aa])
        fix \<rho>1 s3 assume s3: "x = Some (Ok \<rho>1)" "pc s3 = int (p + 3) + ?S + ?a" "holds \<Gamma> V \<rho>1 s3" "same_but \<Gamma> V s2 s3"
        have m3: "same_but \<Gamma> V s s3" by (rule same_but_trans [OF m2 s3(4)])
        let ?p3 = "p + 3 + nat (?S + ?a)"
        have b3: "block s3 ?p3 [line_mark (ln + 1 + com_len a), jump_by (?b + 3)]" and pc3: "pc s3 = int ?p3"
          using bl(3) same_but_fields(4) [OF m3] s3(2) by simp_all
        show "ends m \<Gamma> V n s3 ?q (Some (Ok \<rho>1))"
        proof (rule ends_line [OF b3 pc3 s3(3)])
          fix s4 assume s4: "pc s4 = int (?p3 + 3)" "current_line s4 = word_of_int (ln + 1 + com_len a)" "holds \<Gamma> V \<rho>1 s4" "same_but \<Gamma> V s3 s4"
          have b4: "block s4 (?p3 + 3) [jump_by (?b + 3)]"
            using block_Cons(2) [OF b3] same_but_fields(4) [OF s4(4)] by simp
          show "ends m \<Gamma> V n s4 ?q (Some (Ok \<rho>1))"
          proof (rule ends_jump [OF b4 s4(1,3)])
            show "- (2 ^ 15) \<le> ?b + 3" "?b + 3 < 2 ^ 15" using bd by simp_all
          next
            fix s5 assume s5: "pc s5 = int (?p3 + 3) + 3 + (?b + 3)" "holds \<Gamma> V \<rho>1 s5" "same_but \<Gamma> V s4 s5"
            have "pc s5 = ?q" using s5(1) q by simp
            then show "ends m \<Gamma> V n s5 ?q (Some (Ok \<rho>1))" using ends_OkI [of m 0 s5 s5] s5(2) by simp
          qed
        qed
      qed
      moreover have "then_run x (\<lambda>\<rho>1. Some (Ok \<rho>1)) = x" by (auto simp: then_run_def split: option.split outcome.split)
      ultimately show "ends m \<Gamma> V n s2 ?q x" by simp
    next
      fix s2 assume s2: "pc s2 = int (p + 3) + ?S + (?a + 6)" "current_line s2 = word_of_int ln" "holds \<Gamma> V \<rho> s2" "same_but \<Gamma> V s1 s2"
      have m2: "same_but \<Gamma> V s s2" by (rule same_but_trans [OF s1(4) s2(4)])
      have "block s2 (p + 3 + nat (?S + ?a + 6)) (com_code lvl \<Gamma> (ln + 1 + com_len a + 1) b)" using bl(4) same_but_fields(4) [OF m2] by simp
      from B [OF m2 s2(3) this] have Bb: "ends m \<Gamma> V n s2 (int (p + 3) + ?S + ?a + 6 + ?b) y" using s2(1) by (simp add: add.assoc)
      have "ends m \<Gamma> V n s2 ?q (then_run y (\<lambda>\<rho>1. Some (Ok \<rho>1)))"
      proof (rule ends_then [OF Bb])
        fix \<rho>1 s3 assume s3: "pc s3 = int (p + 3) + ?S + ?a + 6 + ?b" "holds \<Gamma> V \<rho>1 s3" "same_but \<Gamma> V s2 s3"
        show "ends m \<Gamma> V n s3 ?q (Some (Ok \<rho>1))" by (rule fin [OF same_but_trans [OF m2 s3(3)] s3(2)]) (use s3(1) in simp)
      qed
      moreover have "then_run y (\<lambda>\<rho>1. Some (Ok \<rho>1)) = y" by (auto simp: then_run_def split: option.split outcome.split)
      ultimately show "ends m \<Gamma> V n s2 ?q y" by simp
    qed
  qed
qed

lemma while_blocks:
  assumes "block s p (com_code lvl \<Gamma> ln (C_WHILE e c))"
  shows "block s p [line_mark ln]" "block s (p + 3) (jump_unless lvl \<Gamma> e (com_size lvl \<Gamma> (ln + 1) c + 6))"
    "block s (p + 3 + nat (cond_size lvl \<Gamma> e)) (com_code lvl \<Gamma> (ln + 1) c)"
    "block s (p + 3 + nat (cond_size lvl \<Gamma> e + com_size lvl \<Gamma> (ln + 1) c))
       [line_mark (ln + 1 + com_len c), jump_by (- (cond_size lvl \<Gamma> e + com_size lvl \<Gamma> (ln + 1) c + 6))]"
proof -
  have j: "length (assemble (jump_unless lvl \<Gamma> e off)) = nat (cond_size lvl \<Gamma> e)" for off using jump_unless_size [of lvl \<Gamma> e off] by linarith
  have b: "block s p ([line_mark ln] @ jump_unless lvl \<Gamma> e (com_size lvl \<Gamma> (ln + 1) c + 6) @ com_code lvl \<Gamma> (ln + 1) c @
      [line_mark (ln + 1 + com_len c), jump_by (- (cond_size lvl \<Gamma> e + com_size lvl \<Gamma> (ln + 1) c + 6))])"
    using assms by (simp add: Let_def)
  then show "block s p [line_mark ln]" "block s (p + 3) (jump_unless lvl \<Gamma> e (com_size lvl \<Gamma> (ln + 1) c + 6))"
    "block s (p + 3 + nat (cond_size lvl \<Gamma> e)) (com_code lvl \<Gamma> (ln + 1) c)"
    "block s (p + 3 + nat (cond_size lvl \<Gamma> e + com_size lvl \<Gamma> (ln + 1) c))
       [line_mark (ln + 1 + com_len c), jump_by (- (cond_size lvl \<Gamma> e + com_size lvl \<Gamma> (ln + 1) c + 6))]"
    unfolding block_append by (simp_all add: j nat_add_distrib add.assoc)
qed

lemma until_blocks:
  assumes "block s p (com_code lvl \<Gamma> ln (C_UNTIL c e))"
  shows "block s p [line_mark ln]" "block s (p + 3) (com_code lvl \<Gamma> (ln + 1) c)"
    "block s (p + 3 + nat (com_size lvl \<Gamma> (ln + 1) c)) (line_mark (ln + 1 + com_len c) #
       jump_unless lvl \<Gamma> e (- (com_size lvl \<Gamma> (ln + 1) c + 3 + cond_size lvl \<Gamma> e)))"
proof -
  have b: "block s p ([line_mark ln] @ com_code lvl \<Gamma> (ln + 1) c @ line_mark (ln + 1 + com_len c) #
       jump_unless lvl \<Gamma> e (- (com_size lvl \<Gamma> (ln + 1) c + 3 + cond_size lvl \<Gamma> e)))"
    using assms by (simp add: Let_def)
  then show "block s p [line_mark ln]" "block s (p + 3) (com_code lvl \<Gamma> (ln + 1) c)"
    "block s (p + 3 + nat (com_size lvl \<Gamma> (ln + 1) c)) (line_mark (ln + 1 + com_len c) #
       jump_unless lvl \<Gamma> e (- (com_size lvl \<Gamma> (ln + 1) c + 3 + cond_size lvl \<Gamma> e)))"
    unfolding block_append by simp_all
qed

text \<open>One round of a loop, from behind the number of its first line: \<open>next_round\<close> is the loop with less fuel.\<close>

lemma while_round:
  assumes f: "fits_vm \<Gamma> V s (C_WHILE e c)" "holds \<Gamma> V \<rho> s" "block s p (com_code lvl \<Gamma> ln (C_WHILE e c))" "pc s = int p + 3"
    "current_line s = word_of_int cl"
    and sz: "com_size lvl \<Gamma> ln (C_WHILE e c) < 2 ^ 15"
    and C: "\<And>s1 p1. same_but \<Gamma> V s s1 \<Longrightarrow> holds \<Gamma> V \<rho> s1 \<Longrightarrow> block s1 p1 (com_code lvl \<Gamma> (ln + 1) c) \<Longrightarrow> pc s1 = int p1 \<Longrightarrow>
      ends m \<Gamma> V n s1 (int p1 + com_size lvl \<Gamma> (ln + 1) c) x"
    and W: "\<And>s1 \<rho>1. x = Some (Ok \<rho>1) \<Longrightarrow> same_but \<Gamma> V s s1 \<Longrightarrow> holds \<Gamma> V \<rho>1 s1 \<Longrightarrow> pc s1 = int p + 3 \<Longrightarrow>
      current_line s1 = word_of_int (ln + 1 + com_len c) \<Longrightarrow> ends m \<Gamma> V n s1 (int p + com_size lvl \<Gamma> ln (C_WHILE e c)) (next_round \<rho>1)"
  shows "ends m \<Gamma> V (Suc n) s (int p + com_size lvl \<Gamma> ln (C_WHILE e c))
    (decide (on_line cl (truth lvl m \<Gamma> \<rho> e)) (then_run x next_round) (Some (Ok \<rho>)))"
proof -
  let ?q = "int p + com_size lvl \<Gamma> ln (C_WHILE e c)" and ?S = "cond_size lvl \<Gamma> e" and ?c = "com_size lvl \<Gamma> (ln + 1) c"
  note bl = while_blocks [OF f(3)]
  have q: "?q = int p + 9 + ?S + ?c" using com_sizes(3) [of lvl \<Gamma> ln e c] by linarith
  have bd: "?S + ?c < 2 ^ 15 - 9" "?c < 2 ^ 15 - 9" using sz [unfolded com_sizes] cond_size_pos [of lvl \<Gamma> e] by linarith+
  have f1: "env_ok \<Gamma> V" "vars e \<subseteq> V" "room s (stack_need e)" using f(1) fits_vm_env [of \<Gamma> V s c] by simp_all
  have pc: "pc s = int (p + 3)" using f(4) by simp
  show ?thesis
  proof (rule ends_cond [OF f1(1,2) f(2) f1(3) bl(2) pc f(5)])
    show "- (2 ^ 15) \<le> ?c + 6" "?c + 6 < 2 ^ 15" "Suc n \<le> Suc n" using bd by simp_all
  next
    fix s2 assume s2: "pc s2 = int (p + 3) + ?S" "holds \<Gamma> V \<rho> s2" "same_but \<Gamma> V s s2"
    have "block s2 (p + 3 + nat ?S) (com_code lvl \<Gamma> (ln + 1) c)" using bl(3) same_but_fields(4) [OF s2(3)] by simp
    from C [OF s2(3,2) this] have Cc: "ends m \<Gamma> V n s2 (int (p + 3) + ?S + ?c) x" using s2(1) by simp
    show "ends m \<Gamma> V n s2 ?q (then_run x next_round)"
    proof (rule ends_then [OF Cc])
      fix \<rho>1 s3 assume s3: "x = Some (Ok \<rho>1)" "pc s3 = int (p + 3) + ?S + ?c" "holds \<Gamma> V \<rho>1 s3" "same_but \<Gamma> V s2 s3"
      have m3: "same_but \<Gamma> V s s3" by (rule same_but_trans [OF s2(3) s3(4)])
      let ?p3 = "p + 3 + nat (?S + ?c)"
      have b3: "block s3 ?p3 [line_mark (ln + 1 + com_len c), jump_by (- (?S + ?c + 6))]" and pc3: "pc s3 = int ?p3"
        using bl(4) same_but_fields(4) [OF m3] s3(2) by simp_all
      show "ends m \<Gamma> V n s3 ?q (next_round \<rho>1)"
      proof (rule ends_line [OF b3 pc3 s3(3)])
        fix s4 assume s4: "pc s4 = int (?p3 + 3)" "current_line s4 = word_of_int (ln + 1 + com_len c)" "holds \<Gamma> V \<rho>1 s4" "same_but \<Gamma> V s3 s4"
        have b4: "block s4 (?p3 + 3) [jump_by (- (?S + ?c + 6))]" using block_Cons(2) [OF b3] same_but_fields(4) [OF s4(4)] by simp
        show "ends m \<Gamma> V n s4 ?q (next_round \<rho>1)"
        proof (rule ends_jump [OF b4 s4(1,3)])
          show "- (2 ^ 15) \<le> - (?S + ?c + 6)" "- (?S + ?c + 6) < 2 ^ 15" using bd cond_size_pos [of lvl \<Gamma> e] by linarith+
        next
          fix s5 assume s5: "pc s5 = int (?p3 + 3) + 3 + - (?S + ?c + 6)" "current_line s5 = current_line s4" "holds \<Gamma> V \<rho>1 s5" "same_but \<Gamma> V s4 s5"
          have "same_but \<Gamma> V s s5" by (rule same_but_trans [OF m3 same_but_trans [OF s4(4) s5(4)]])
          then show "ends m \<Gamma> V n s5 ?q (next_round \<rho>1)" using s5 s4(2) by (intro W [OF s3(1)]) simp_all
        qed
      qed
    qed
  next
    fix s2 assume s2: "pc s2 = int (p + 3) + ?S + (?c + 6)" "holds \<Gamma> V \<rho> s2" "same_but \<Gamma> V s s2"
    then have "pc s2 = ?q" using q by simp
    then show "ends m \<Gamma> V n s2 ?q (Some (Ok \<rho>))" using ends_OkI [of m 0 s2 s2] s2(2) by simp
  qed
qed

lemma until_round:
  assumes f: "fits_vm \<Gamma> V s (C_UNTIL c e)" "block s p (com_code lvl \<Gamma> ln (C_UNTIL c e))" "pc s = int p + 3" "holds \<Gamma> V \<rho> s"
    and sz: "com_size lvl \<Gamma> ln (C_UNTIL c e) < 2 ^ 15"
    and C: "\<And>s1 p1. same_but \<Gamma> V s s1 \<Longrightarrow> holds \<Gamma> V \<rho> s1 \<Longrightarrow> block s1 p1 (com_code lvl \<Gamma> (ln + 1) c) \<Longrightarrow> pc s1 = int p1 \<Longrightarrow>
      ends m \<Gamma> V (Suc n) s1 (int p1 + com_size lvl \<Gamma> (ln + 1) c) x"
    and W: "\<And>s1 \<rho>1. x = Some (Ok \<rho>1) \<Longrightarrow> same_but \<Gamma> V s s1 \<Longrightarrow> holds \<Gamma> V \<rho>1 s1 \<Longrightarrow> pc s1 = int p + 3 \<Longrightarrow>
      ends m \<Gamma> V n s1 (int p + com_size lvl \<Gamma> ln (C_UNTIL c e)) (next_round \<rho>1)"
  shows "ends m \<Gamma> V (Suc n) s (int p + com_size lvl \<Gamma> ln (C_UNTIL c e))
    (then_run x (\<lambda>\<rho>1. decide (on_line (ln + 1 + com_len c) (truth lvl m \<Gamma> \<rho>1 e)) (Some (Ok \<rho>1)) (next_round \<rho>1)))"
proof -
  let ?q = "int p + com_size lvl \<Gamma> ln (C_UNTIL c e)" and ?S = "cond_size lvl \<Gamma> e" and ?c = "com_size lvl \<Gamma> (ln + 1) c"
  let ?l = "ln + 1 + com_len c"
  note bl = until_blocks [OF f(2)]
  have q: "?q = int p + 6 + ?S + ?c" using com_sizes(4) [of lvl \<Gamma> ln c e] by linarith
  have bd: "?S + ?c < 2 ^ 15 - 6" using sz [unfolded com_sizes] by linarith
  have f1: "env_ok \<Gamma> V" "vars e \<subseteq> V" "room s (stack_need e)" using f(1) fits_vm_env [of \<Gamma> V s c] by simp_all
  \<comment> \<open>the last line: at least one step before the next round\<close>
  have tail: "ends m \<Gamma> V (Suc n) s2 ?q (decide (on_line ?l (truth lvl m \<Gamma> \<rho>1 e)) (Some (Ok \<rho>1)) (next_round \<rho>1))"
    if x: "x = Some (Ok \<rho>1)" and s2: "pc s2 = int (p + 3) + ?c" "holds \<Gamma> V \<rho>1 s2" "same_but \<Gamma> V s s2" for \<rho>1 s2
  proof (rule ends_line)
    let ?p2 = "p + 3 + nat ?c"
    show b2: "block s2 ?p2 (line_mark ?l # jump_unless lvl \<Gamma> e (- (?c + 3 + ?S)))" using bl(3) same_but_fields(4) [OF s2(3)] by simp
    show "pc s2 = int ?p2" "holds \<Gamma> V \<rho>1 s2" using s2 by simp_all
    fix s3 assume s3: "pc s3 = int (?p2 + 3)" "current_line s3 = word_of_int ?l" "holds \<Gamma> V \<rho>1 s3" "same_but \<Gamma> V s2 s3"
    have m3: "same_but \<Gamma> V s s3" by (rule same_but_trans [OF s2(3) s3(4)])
    have b3: "block s3 (?p2 + 3) (jump_unless lvl \<Gamma> e (- (?c + 3 + ?S)))" using block_Cons(2) [OF b2] same_but_fields(4) [OF s3(4)] by simp
    have r3: "room s3 (stack_need e)" using f1(3) same_but_fields(2) [OF m3] by simp
    show "ends m \<Gamma> V (Suc n) s3 ?q (decide (on_line ?l (truth lvl m \<Gamma> \<rho>1 e)) (Some (Ok \<rho>1)) (next_round \<rho>1))"
    proof (rule ends_cond [OF f1(1,2) s3(3) r3 b3 s3(1,2)])
      show "- (2 ^ 15) \<le> - (?c + 3 + ?S)" "- (?c + 3 + ?S) < 2 ^ 15" "Suc n \<le> Suc n" using bd cond_size_pos [of lvl \<Gamma> e] by linarith+
    next
      fix s4 assume s4: "pc s4 = int (?p2 + 3) + ?S" "holds \<Gamma> V \<rho>1 s4" "same_but \<Gamma> V s3 s4"
      then have "pc s4 = ?q" using q by simp
      then show "ends m \<Gamma> V n s4 ?q (Some (Ok \<rho>1))" using ends_OkI [of m 0 s4 s4] s4(2) by simp
    next
      fix s4 assume s4: "pc s4 = int (?p2 + 3) + ?S + - (?c + 3 + ?S)" "holds \<Gamma> V \<rho>1 s4" "same_but \<Gamma> V s3 s4"
      have "same_but \<Gamma> V s s4" by (rule same_but_trans [OF m3 s4(3)])
      then show "ends m \<Gamma> V n s4 ?q (next_round \<rho>1)" using s4 by (intro W [OF x]) simp_all
    qed
  qed
  have "ends m \<Gamma> V (Suc n) s (int (p + 3) + ?c) x" by (rule C) (use f(3,4) bl(2) in simp_all)
  then show ?thesis by (rule ends_then) (rule tail)
qed

lemma lasts_0: "lasts m 0 s"
  by (auto simp: lasts_def intro!: exI [of _ 0])

lemma com_ends_aux:
  "\<lbrakk>fits_vm \<Gamma> V s c; holds \<Gamma> V \<rho> s; block s p (com_code lvl \<Gamma> ln c); pc s = int p; com_size lvl \<Gamma> ln c < 2 ^ 15\<rbrakk> \<Longrightarrow>
    ends m \<Gamma> V n s (int p + com_size lvl \<Gamma> ln c) (run_com lvl m \<Gamma> n ln c \<rho>)"
  "\<lbrakk>fits_vm \<Gamma> V s (C_WHILE e c); holds \<Gamma> V \<rho> s; block s p (com_code lvl \<Gamma> ln (C_WHILE e c)); pc s = int p + 3; current_line s = word_of_int cl;
      com_size lvl \<Gamma> ln (C_WHILE e c) < 2 ^ 15\<rbrakk> \<Longrightarrow>
    ends m \<Gamma> V n s (int p + com_size lvl \<Gamma> ln (C_WHILE e c)) (run_while lvl m \<Gamma> n cl ln e c \<rho>)"
  "\<lbrakk>fits_vm \<Gamma> V s (C_UNTIL c e); holds \<Gamma> V \<rho> s; block s p (com_code lvl \<Gamma> ln (C_UNTIL c e)); pc s = int p + 3;
      com_size lvl \<Gamma> ln (C_UNTIL c e) < 2 ^ 15\<rbrakk> \<Longrightarrow>
    ends m \<Gamma> V n s (int p + com_size lvl \<Gamma> ln (C_UNTIL c e)) (run_until lvl m \<Gamma> n ln c e \<rho>)"
proof (induction lvl m \<Gamma> n ln c \<rho> and lvl m \<Gamma> n cl ln e c \<rho> and lvl m \<Gamma> n ln c e \<rho> arbitrary: s p and s p and s p
    rule: run_com_run_while_run_until.induct)
  case (1 lvl m \<Gamma> n ln \<rho>)
  then show ?case by (auto simp: ends_def intro!: exI [of _ 0])
next
  case (2 lvl m \<Gamma> n ln x e \<rho>)
  have b: "block s p (line_mark ln # let_code lvl \<Gamma> x e)" using 2 by simp
  show ?case
  proof (rule ends_line [OF b 2(4) 2(2)])
    fix s1 assume s1: "pc s1 = int (p + 3)" "current_line s1 = word_of_int ln" "holds \<Gamma> V \<rho> s1" "same_but \<Gamma> V s s1"
    have f: "fits_vm \<Gamma> V s1 (C_LET x e)" using 2(1) fits_vm_same [OF s1(4)] by blast
    have b1: "block s1 (p + 3) (let_code lvl \<Gamma> x e)"
      using block_Cons(2) [OF b] same_but_fields(4) [OF s1(4)] by simp
    show "ends m \<Gamma> V n s1 (int p + com_size lvl \<Gamma> ln (C_LET x e)) (run_com lvl m \<Gamma> n ln (C_LET x e) \<rho>)"
      using let_ends [of \<Gamma> V x e \<rho> s1 "p + 3" lvl ln m n] f s1 b1 by (simp add: add.assoc)
  qed
next
  case (3 lvl m \<Gamma> n ln a b \<rho>)
  let ?A = "com_code lvl \<Gamma> ln a" and ?B = "com_code lvl \<Gamma> (ln + com_len a) b"
  have bl: "block s p ?A" "block s (p + length (assemble ?A)) ?B" using 3(5) by (simp_all add: block_append)
  have sz: "com_size lvl \<Gamma> ln (C_SEQ a b) = code_size ?A + code_size ?B" by (simp add: com_sizes)
  have A: "ends m \<Gamma> V n s (int p + code_size ?A) (run_com lvl m \<Gamma> n ln a \<rho>)"
    by (rule 3(1)) (use 3(3-7) bl sz in simp_all)
  show ?case
    unfolding run_com.simps
  proof (rule ends_then [OF A])
    fix \<rho>1 s1 assume s1: "run_com lvl m \<Gamma> n ln a \<rho> = Some (Ok \<rho>1)" "pc s1 = int p + code_size ?A" "holds \<Gamma> V \<rho>1 s1" "same_but \<Gamma> V s s1"
    have "ends m \<Gamma> V n s1 (int (p + length (assemble ?A)) + code_size ?B) (run_com lvl m \<Gamma> n (ln + com_len a) b \<rho>1)"
      by (rule 3(2) [OF s1(1)]) (use 3(3-7) bl sz s1 fits_vm_same [OF s1(4)] same_but_fields(4) [OF s1(4)] in simp_all)
    then show "ends m \<Gamma> V n s1 (int p + com_size lvl \<Gamma> ln (C_SEQ a b)) (run_com lvl m \<Gamma> n (ln + com_len a) b \<rho>1)"
      by (simp add: com_sizes add.assoc)
  qed
next
  case (4 lvl m \<Gamma> n ln e a b \<rho>)
  have sz: "com_size lvl \<Gamma> (ln + 1) a < 2 ^ 15" "com_size lvl \<Gamma> (ln + 1 + com_len a + 1) b < 2 ^ 15"
    using 4(7) [unfolded com_sizes] cond_size_pos [of lvl \<Gamma> e] by linarith+
  have f: "fits_vm \<Gamma> V s a" "fits_vm \<Gamma> V s b" using 4(3) by simp_all
  show ?case
    unfolding run_com.simps
  proof (rule if_ends [OF 4(3-7)])
    fix s1 p1 assume "same_but \<Gamma> V s s1" "holds \<Gamma> V \<rho> s1" "block s1 p1 (com_code lvl \<Gamma> (ln + 1) a)" "pc s1 = int p1"
    then show "ends m \<Gamma> V n s1 (int p1 + com_size lvl \<Gamma> (ln + 1) a) (run_com lvl m \<Gamma> n (ln + 1) a \<rho>)"
      using 4(1) sz f fits_vm_same by blast
  next
    fix s1 p1 assume "same_but \<Gamma> V s s1" "holds \<Gamma> V \<rho> s1" "block s1 p1 (com_code lvl \<Gamma> (ln + 1 + com_len a + 1) b)" "pc s1 = int p1"
    then show "ends m \<Gamma> V n s1 (int p1 + com_size lvl \<Gamma> (ln + 1 + com_len a + 1) b) (run_com lvl m \<Gamma> n (ln + 1 + com_len a + 1) b \<rho>)"
      using 4(2) sz f fits_vm_same by blast
  qed
next
  case (5 lvl m \<Gamma> n ln e c \<rho>)
  have b: "block s p (line_mark ln # [])" using while_blocks(1) [OF 5(4)] .
  show ?case
    unfolding run_com.simps
  proof (rule ends_line [OF b 5(5,3)])
    fix s1 assume s1: "pc s1 = int (p + 3)" "current_line s1 = word_of_int ln" "holds \<Gamma> V \<rho> s1" "same_but \<Gamma> V s s1"
    show "ends m \<Gamma> V n s1 (int p + com_size lvl \<Gamma> ln (C_WHILE e c)) (run_while lvl m \<Gamma> n ln ln e c \<rho>)"
      using 5(1) 5(2,4,6) s1 fits_vm_same [OF s1(4)] same_but_fields(4) [OF s1(4)] by (metis of_nat_add of_nat_numeral)
  qed
next
  case (6 lvl m \<Gamma> n ln c e \<rho>)
  have b: "block s p (line_mark ln # [])" using until_blocks(1) [OF 6(4)] .
  show ?case
    unfolding run_com.simps
  proof (rule ends_line [OF b 6(5,3)])
    fix s1 assume s1: "pc s1 = int (p + 3)" "current_line s1 = word_of_int ln" "holds \<Gamma> V \<rho> s1" "same_but \<Gamma> V s s1"
    show "ends m \<Gamma> V n s1 (int p + com_size lvl \<Gamma> ln (C_UNTIL c e)) (run_until lvl m \<Gamma> n ln c e \<rho>)"
      using 6(1) 6(2,4,6) s1 fits_vm_same [OF s1(4)] same_but_fields(4) [OF s1(4)] by (metis of_nat_add of_nat_numeral)
  qed
next
  case (7 lvl m \<Gamma> cl ln e c \<rho>)
  show ?case by (simp add: ends_def lasts_0)
next
  case (8 lvl m \<Gamma> n cl ln e c \<rho>)
  have sz: "com_size lvl \<Gamma> (ln + 1) c < 2 ^ 15" using 8(8) [unfolded com_sizes] cond_size_pos [of lvl \<Gamma> e] by linarith
  have f: "fits_vm \<Gamma> V s c" using 8(3) by simp
  show ?case
    unfolding run_while.simps
  proof (rule while_round [OF 8(3-8)])
    fix s1 p1 assume "same_but \<Gamma> V s s1" "holds \<Gamma> V \<rho> s1" "block s1 p1 (com_code lvl \<Gamma> (ln + 1) c)" "pc s1 = int p1"
    then show "ends m \<Gamma> V n s1 (int p1 + com_size lvl \<Gamma> (ln + 1) c) (run_com lvl m \<Gamma> n (ln + 1) c \<rho>)"
      using 8(1) sz f fits_vm_same by blast
  next
    fix s1 \<rho>1 assume r: "run_com lvl m \<Gamma> n (ln + 1) c \<rho> = Some (Ok \<rho>1)" and s1: "same_but \<Gamma> V s s1" "holds \<Gamma> V \<rho>1 s1" "pc s1 = int p + 3"
      "current_line s1 = word_of_int (ln + 1 + com_len c)"
    have fb: "fits_vm \<Gamma> V s1 (C_WHILE e c)" "block s1 p (com_code lvl \<Gamma> ln (C_WHILE e c))"
      using 8(3,5) fits_vm_same [OF s1(1)] same_but_fields(4) [OF s1(1)] by blast+
    show "ends m \<Gamma> V n s1 (int p + com_size lvl \<Gamma> ln (C_WHILE e c)) (run_while lvl m \<Gamma> n (ln + 1 + com_len c) ln e c \<rho>1)"
      by (rule 8(2) [OF r fb(1) s1(2) fb(2) s1(3,4) 8(8)])
  qed
next
  case (9 lvl m \<Gamma> ln c e \<rho>)
  show ?case by (simp add: ends_def lasts_0)
next
  case (10 lvl m \<Gamma> n ln c e \<rho>)
  have sz: "com_size lvl \<Gamma> (ln + 1) c < 2 ^ 15" using 10(7) [unfolded com_sizes] cond_size_pos [of lvl \<Gamma> e] by linarith
  have f: "fits_vm \<Gamma> V s c" using 10(3) by simp
  show ?case
    unfolding run_until.simps
  proof (rule until_round [OF 10(3,5,6,4,7)])
    fix s1 p1 assume "same_but \<Gamma> V s s1" "holds \<Gamma> V \<rho> s1" "block s1 p1 (com_code lvl \<Gamma> (ln + 1) c)" "pc s1 = int p1"
    then show "ends m \<Gamma> V (Suc n) s1 (int p1 + com_size lvl \<Gamma> (ln + 1) c) (run_com lvl m \<Gamma> (Suc n) (ln + 1) c \<rho>)"
      using 10(1) sz f fits_vm_same by blast
  next
    fix s1 \<rho>1 assume r: "run_com lvl m \<Gamma> (Suc n) (ln + 1) c \<rho> = Some (Ok \<rho>1)" and s1: "same_but \<Gamma> V s s1" "holds \<Gamma> V \<rho>1 s1" "pc s1 = int p + 3"
    have fb: "fits_vm \<Gamma> V s1 (C_UNTIL c e)" "block s1 p (com_code lvl \<Gamma> ln (C_UNTIL c e))"
      using 10(3,5) fits_vm_same [OF s1(1)] same_but_fields(4) [OF s1(1)] by blast+
    show "ends m \<Gamma> V n s1 (int p + com_size lvl \<Gamma> ln (C_UNTIL c e)) (run_until lvl m \<Gamma> n ln c e \<rho>1)"
      by (rule 10(2) [OF r fb(1) s1(2) fb(2) s1(3) 10(7)])
  qed
qed

lemmas com_ends = com_ends_aux(1)

end
