(* ===== verification/ProgParse.thy ===== *)
theory ProgParse
  imports ExprParse ProgExec SrcLine
begin

text \<open>
  The statement compiler on the text of a structured program: line by line it emits the code of the tree, with the
  jumps over branches and loops filled in, and leaves tables and nesting as they were.
\<close>

section \<open>Jumps\<close>

text \<open>Where the distance of a jump at the end of the code is written.\<close>

definition jump_head :: "int \<Rightarrow> scope_env \<Rightarrow> exp \<Rightarrow> u8 list" where
  "jump_head lvl \<Gamma> e =
     (case fused_compare lvl e of
        Some (r, a, b) \<Rightarrow> assemble (both_operands lvl \<Gamma> a b) @
          [if join (etype \<Gamma> a) (etype \<Gamma> b) = TI then OP_JCMP_I else OP_JCMP_F, rel_code (opposite r)]
      | None \<Rightarrow> assemble (comp lvl \<Gamma> e) @ [OP_JZ])"

lemma assemble_jump: "assemble (jump_unless lvl \<Gamma> e k) = jump_head lvl \<Gamma> e @ e16 (word_of_int k)"
  by (auto simp: jump_unless_def jump_head_def Let_def split: option.split)

lemma assemble_jump_by: "assemble [jump_by k] = OP_JMP # e16 (word_of_int k)"
  by (simp add: jump_by_def)

text \<open>
  A condition whose last byte is taken for a comparison, without being one, spoils the jump: the compiler looks at
  the last byte of the code, not at the last instruction.
\<close>

definition branch_ok :: "int \<Rightarrow> scope_env \<Rightarrow> exp \<Rightarrow> bool" where
  "branch_ok lvl \<Gamma> e \<longleftrightarrow>
     (lvl \<ge> 1 \<longrightarrow> as_compare e = None \<longrightarrow> source_jcmp_relation (last (assemble (comp lvl \<Gamma> e))) OP_JZ = None)"

lemma compare_relation:
  "t \<in> {TI, TF} \<Longrightarrow> source_jcmp_relation (code_CMP t r) OP_JZ = Some (if t = TI then OP_JCMP_I else OP_JCMP_F, rel_code (opposite r))"
  by (cases r) (auto simp: source_jcmp_relation_def code_CMP_def Let_def opcodes)

lemma operands_nonempty: "assemble (both_operands lvl \<Gamma> a b) \<noteq> []"
proof -
  have "assemble (comp lvl \<Gamma> a) \<noteq> []"
  proof -
    obtain i "is" where "comp lvl \<Gamma> a = i # is" using comp_nonempty [of lvl \<Gamma> a] by (cases "comp lvl \<Gamma> a") auto
    moreover have "encode i \<noteq> []" for i by (cases i) auto
    ultimately show ?thesis by simp
  qed
  then show ?thesis by (simp add: both_operands_def Let_def)
qed

lemma compare_code:
  assumes "as_compare e = Some (r, a, b)"
  shows "assemble (comp lvl \<Gamma> e) = assemble (both_operands lvl \<Gamma> a b) @ [code_CMP (join (etype \<Gamma> a) (etype \<Gamma> b)) r]"
  using assms
proof (induction e)
  case (E_BIN op a' b')
  then have o: "op = O_CMP r" "a' = a" "b' = b" by (auto split: binop.splits)
  have "fuse_bits lvl \<Gamma> (O_CMP r) a b = None" by (auto simp: fuse_bits_def split: option.split)
  then show ?case using o by (simp add: both_operands_def Let_def result_type_def)
qed (auto split: if_splits)

lemma ucast_down: "(ucast (word_of_int k :: u32) :: u16) = word_of_int k"
  by transfer simp

lemma ucast_nat: "(ucast (of_nat n :: u32) :: u16) = of_nat n"
  using ucast_down [of "int n"] by simp

lemma rel_distance: "(ucast (word_of_int (int n + k) - (word_of_nat n :: u32)) :: u16) = word_of_int k"
proof -
  have "word_of_int (int n + k) - (word_of_nat n :: u32) = word_of_int k" by simp
  then show ?thesis using ucast_down by simp
qed

lemma bytes_put: "length (code cs) + length bs \<le> BC_MAX_CODE \<Longrightarrow> emit_bytes cs bs = cs\<lparr>code := code cs @ bs\<rparr>"
  by (rule emit_ok)

text \<open>A jump at the end of the code, as both emitters leave it.\<close>

definition with_jump :: "int \<Rightarrow> scope_env \<Rightarrow> exp \<Rightarrow> BCCompiler \<Rightarrow> BCCompiler" where
  "with_jump lvl \<Gamma> e cs = cs\<lparr>code := code cs @ jump_head lvl \<Gamma> e\<rparr>"

lemma jump_emitters:
  assumes "length (code cs) + length (assemble (comp lvl \<Gamma> e)) + 4 \<le> BC_MAX_CODE" "branch_ok lvl \<Gamma> e" "\<not> has_error cs"
  shows "source_emit_jmp_placeholder lvl (put cs (comp lvl \<Gamma> e)) OP_JZ =
      (let cs2 = with_jump lvl \<Gamma> e cs in (bc_emit_i16 cs2 0, of_nat (length (code cs2))))" (is ?A)
    "source_emit_rel_jump lvl (put cs (comp lvl \<Gamma> e)) OP_JZ t =
      (let cs2 = with_jump lvl \<Gamma> e cs in bc_emit_i16 cs2 (ucast (t - (of_nat (length (code cs2)) + 2))))" (is ?B)
    "length (jump_head lvl \<Gamma> e) \<le> length (assemble (comp lvl \<Gamma> e)) + 1" (is ?C)
proof -
  have "?A \<and> ?B \<and> ?C"
  proof (cases "fused_compare lvl e")
    case None
    then have l: "lvl \<ge> 1 \<Longrightarrow> as_compare e = None" by (simp add: fused_compare_def split: if_splits)
    have ne: "assemble (comp lvl \<Gamma> e) \<noteq> []"
    proof -
      obtain i "is" where "comp lvl \<Gamma> e = i # is" using comp_nonempty [of lvl \<Gamma> e] by (cases "comp lvl \<Gamma> e") auto
      moreover have "encode i \<noteq> []" by (cases i) auto
      ultimately show ?thesis by simp
    qed
    have "last_compare lvl (put cs (comp lvl \<Gamma> e)) OP_JZ = None" using assms(2) l ne by (simp add: last_compare_def branch_ok_def)
    then show ?thesis
      using None assms(1) by (simp add: source_emit_jmp_placeholder_def source_emit_rel_jump_def Let_def with_jump_def jump_head_def bc_emit_byte_def bytes_put put_def)
  next
    case (Some rab)
    obtain r a b where rab: "rab = (r, a, b)" by (cases rab)
    have cmp: "as_compare e = Some (r, a, b)" and l: "lvl \<ge> 1" using Some rab by (simp_all add: fused_compare_def split: if_splits)
    let ?t = "join (etype \<Gamma> a) (etype \<Gamma> b)"
    have t: "?t \<in> {TI, TF}" by (simp add: join_def)
    note c = compare_code [OF cmp, of lvl \<Gamma>]
    have lc: "last_compare lvl (put cs (comp lvl \<Gamma> e)) OP_JZ = Some (if ?t = TI then OP_JCMP_I else OP_JCMP_F, rel_code (opposite r))"
      using l compare_relation [OF t] c by (simp add: last_compare_def)
    have d: "source_delete_bytes (put cs (comp lvl \<Gamma> e)) (length (code cs) + length (assemble (both_operands lvl \<Gamma> a b))) (Suc 0) = cs\<lparr>code := code cs @ assemble (both_operands lvl \<Gamma> a b)\<rparr>"
      by (simp add: source_delete_bytes_def c put_def)
    show ?thesis
      using Some rab assms(1,3) c
      by (simp add: source_emit_jmp_placeholder_def source_emit_rel_jump_def lc d Let_def with_jump_def jump_head_def
          bc_emit_byte_def bytes_put)
  qed
  then show ?A ?B ?C by simp_all
qed

text \<open>The two ways a conditional jump is emitted: with a place for the distance, or with the distance at once.\<close>

lemma emit_placeholder:
  assumes "length (code cs) + length (assemble (comp lvl \<Gamma> e)) + 4 \<le> BC_MAX_CODE" "branch_ok lvl \<Gamma> e" "\<not> has_error cs"
  shows "source_emit_jmp_placeholder lvl (put cs (comp lvl \<Gamma> e)) OP_JZ =
    (put cs (jump_unless lvl \<Gamma> e 0), of_nat (length (code cs) + length (jump_head lvl \<Gamma> e)))"
  using jump_emitters(1,3) [OF assms] assms(1)
  by (simp add: Let_def with_jump_def bc_emit_i16_def bytes_put put_def assemble_jump e16_def)

lemma emit_jump_back:
  assumes "length (code cs) + length (assemble (comp lvl \<Gamma> e)) + 4 \<le> BC_MAX_CODE" "branch_ok lvl \<Gamma> e" "\<not> has_error cs"
    and "t = word_of_int (int (length (code cs)) + cond_size lvl \<Gamma> e + k)"
  shows "source_emit_rel_jump lvl (put cs (comp lvl \<Gamma> e)) OP_JZ t = put cs (jump_unless lvl \<Gamma> e k)"
proof -
  have z: "cond_size lvl \<Gamma> e = int (length (jump_head lvl \<Gamma> e)) + 2" by (simp add: cond_size_def assemble_jump)
  have "t - (of_nat (length (code (with_jump lvl \<Gamma> e cs))) + 2) = word_of_int k" by (simp add: assms(4) z with_jump_def)
  then show ?thesis
    using jump_emitters(2,3) [OF assms(1-3)] assms(1) ucast_down [of k]
    by (simp add: Let_def bc_emit_i16_def bytes_put put_def assemble_jump e16_def with_jump_def)
qed

lemma emit_jmp:
  assumes "length (code cs) + 3 \<le> BC_MAX_CODE"
  shows "source_emit_jmp_placeholder lvl cs OP_JMP = (put cs [jump_by 0], of_nat (length (code cs) + 1))"
    "t = word_of_int (int (length (code cs)) + 3 + k) \<Longrightarrow> jmp_back cs t = put cs [jump_by k]"
proof -
  have "source_jcmp_relation c OP_JMP = None" for c by (simp add: source_jcmp_relation_def opcodes)
  then have l: "last_compare lvl cs OP_JMP = None" by (simp add: last_compare_def)
  show "source_emit_jmp_placeholder lvl cs OP_JMP = (put cs [jump_by 0], of_nat (length (code cs) + 1))"
    using assms by (simp add: source_emit_jmp_placeholder_def l Let_def bc_emit_byte_def bc_emit_i16_def bytes_put put_def jump_by_def e16_def)
  show "jmp_back cs t = put cs [jump_by k]" if t: "t = word_of_int (int (length (code cs)) + 3 + k)"
  proof -
    have "t - (of_nat (Suc (length (code cs))) + 2) = word_of_int k" by (simp add: t)
    then show ?thesis using assms ucast_down [of k]
      by (simp add: jmp_back_def here_def Let_def bc_emit_byte_def bc_emit_i16_def bytes_put put_def jump_by_def e16_def)
  qed
qed

lemma unat_small: "n < 2 ^ 31 \<Longrightarrow> unat (of_nat n :: u32) = n"
  by (simp add: unsigned_of_nat take_bit_nat_eq_self)

text \<open>Filling in a distance: what stands behind the place is the way to go.\<close>

lemma fill_in:
  assumes "code cs = pre @ e16 w @ post" "length (code cs) < 2 ^ 31"
  shows "source_patch_jmp_here cs (of_nat (length pre)) = Some (cs\<lparr>code := pre @ e16 (word_of_int (int (length post))) @ post\<rparr>)"
proof -
  have len: "length (code cs) = length pre + 2 + length post" using assms(1) by simp
  have u: "unat (of_nat (length pre) :: u32) = length pre" using assms(2) len by (simp add: unat_small)
  have n: "\<not> (of_nat (length pre) + of_nat (Suc (Suc 0)) > (of_nat (length (code cs)) :: u32))"
  proof -
    have "unat (of_nat (length pre + 2) :: u32) = length pre + 2" "unat (of_nat (length (code cs)) :: u32) = length (code cs)"
      by (rule unat_small; use assms(2) len in simp)+
    then have "(of_nat (length pre + 2) :: u32) \<le> of_nat (length (code cs))" unfolding word_le_nat_alt using len by linarith
    then show ?thesis by (simp add: not_less add.commute)
  qed
  have d: "(ucast (of_nat (length (code cs)) - (of_nat (length pre) + 2) :: u32) :: u16) = word_of_int (int (length post))"
    using ucast_down [of "int (length post)"] by (simp add: len)
  show ?thesis
    using n u len by (simp add: source_patch_jmp_here_def bc_patch_i16_def d patch_bytes_def splice_def assms(1) ucast_nat flip: e16_def)
qed

section \<open>Assignments\<close>

text \<open>The variables are known globals, the compiler is at the top level of a program without routines.\<close>

definition setting :: "frontend \<Rightarrow> scope_env \<Rightarrow> cstr set \<Rightarrow> BCCompiler \<Rightarrow> bool" where
  "setting fe \<Gamma> V cs \<longleftrightarrow>
     \<not> has_error cs \<and> error_msg cs = [] \<and> current_subfun cs < 0 \<and> subfuns cs = [] \<and>
     (\<forall>x \<in> V. var_ok fe cs x (\<Gamma> x) \<and> fst (\<Gamma> x) = Global \<and> slot_type (slots cs ! unat (slot_of \<Gamma> x)) \<noteq> T_STRUCT)"

definition plain_fe :: "frontend \<Rightarrow> bool" where
  "plain_fe fe \<longleftrightarrow> \<not> uses_struct_file_io fe \<and> \<not> in_type_block fe \<and> \<not> in_struct_fn fe \<and> \<not> asm_active fe \<and> \<not> fast_next_loop fe \<and>
     \<not> ctrlval_numeric_hint fe"

text \<open>The tables a variable is looked up in.\<close>

lemma setting_cong:
  "setting fe \<Gamma> V (cs\<lparr>code := c\<rparr>) = setting fe \<Gamma> V cs" "setting fe \<Gamma> V (cs\<lparr>linemap := lm\<rparr>) = setting fe \<Gamma> V cs"
  "setting fe \<Gamma> V (cs\<lparr>cs_line := l\<rparr>) = setting fe \<Gamma> V cs" "setting fe \<Gamma> V (cs\<lparr>error_line := l\<rparr>) = setting fe \<Gamma> V cs"
  "setting fe \<Gamma> V (cs\<lparr>nest_stack := ns\<rparr>) = setting fe \<Gamma> V cs" "setting (fe\<lparr>line_no := k\<rparr>) \<Gamma> V cs = setting fe \<Gamma> V cs"
  by (simp_all add: setting_def var_ok_def plain_name_def name_type_def place_def source_default_var_type_def bc_find_slot_def
      bc_find_local_def cong: if_cong)

lemma setting_put [simp]: "setting fe \<Gamma> V (put cs is) = setting fe \<Gamma> V cs"
  by (simp add: put_def setting_cong)

lemma plain_fe_line [simp]: "plain_fe (fe\<lparr>line_no := k\<rparr>) = plain_fe fe"
  by (simp add: plain_fe_def)

lemma setting_ready:
  assumes "setting fe \<Gamma> V cs" "vars e \<subseteq> V" "literals_ok e" "length (code cs) + code_need e \<le> BC_MAX_CODE"
  shows "ready fe \<Gamma> cs e"
  using assms by (auto simp: setting_def ready_def)

lemma nothing_behind [simp]: "stops []" "quiet 7 []"
  by (simp_all add: stops_def quiet_def source_skip_space_def at_def mul_op_def shift_op_at_def bool_op_at_def keyword_start
      source_match_compare_def source_keyword_def same_name_def)

lemma comp_first:
  "well_typed \<Gamma> e \<Longrightarrow> \<exists>i is. comp lvl \<Gamma> e = i # is \<and> ((\<exists>sc t n. i = I_LOAD sc t n \<and> t \<noteq> TS) \<or> (\<exists>v. i = I_PUSH_INT v) \<or> (\<exists>v. i = I_PUSH_FLT v))"
proof (induction e rule: measure_induct_rule [where f = size])
  case (less e)
  show ?case
  proof (cases e)
    case (E_VAR x)
    then show ?thesis using less.prems by (cases "\<Gamma> x") (auto simp: well_typed_def)
  next
    case (E_PAREN a)
    then show ?thesis using less by (simp add: well_typed_def)
  next
    case (E_UN u a)
    then have "\<exists>i is. comp lvl \<Gamma> a = i # is \<and> ((\<exists>sc t n. i = I_LOAD sc t n \<and> t \<noteq> TS) \<or> (\<exists>v. i = I_PUSH_INT v) \<or> (\<exists>v. i = I_PUSH_FLT v))"
      using less by (simp add: well_typed_def)
    then show ?thesis using E_UN by auto
  next
    case (E_BIN op a b)
    then have a: "\<exists>i is. comp lvl \<Gamma> a = i # is \<and> ((\<exists>sc t n. i = I_LOAD sc t n \<and> t \<noteq> TS) \<or> (\<exists>v. i = I_PUSH_INT v) \<or> (\<exists>v. i = I_PUSH_FLT v))"
      using less by (simp add: well_typed_def)
    show ?thesis
    proof (cases "fuse_bits lvl \<Gamma> op a b")
      case None
      then show ?thesis using a E_BIN by (auto simp: Let_def)
    next
      case (Some n)
      obtain x y where "as_product \<Gamma> a = Some (x, y)" using fuse_bits_Some [OF Some] by blast
      note p = as_product_spec(1) [OF this]
      have "butlast (comp lvl \<Gamma> a) \<noteq> []" using comp_nonempty [of lvl \<Gamma> x] unfolding p by (simp add: butlast_append)
      then obtain i "is" where b: "butlast (comp lvl \<Gamma> a) = i # is" by (cases "butlast (comp lvl \<Gamma> a)") auto
      then have "\<exists>j js. comp lvl \<Gamma> a = i # js" using comp_nonempty [of lvl \<Gamma> a] by (cases "comp lvl \<Gamma> a") (auto split: if_splits)
      moreover have "\<exists>js. fused (i # is) n = i # js" by (auto simp: fused_def)
      ultimately show ?thesis using a E_BIN Some b by auto
    qed
  qed auto
qed

lemma mov_kind_load:
  "t \<in> {TI, TF} \<Longrightarrow> t' \<in> {TI, TF} \<Longrightarrow> mov_kind (type_code t) (code_LOAD Global t') = (if t' = t then Some (if t = TI then 1 else 2, False) else None)"
  "t \<in> {TI, TF} \<Longrightarrow> mov_kind (type_code t) OP_PUSH_INT = None" "t \<in> {TI, TF} \<Longrightarrow> mov_kind (type_code t) OP_PUSH_FLT = None"
  by (auto simp: mov_kind_def type_code_def code_LOAD_def T_INT_def T_NBR_def T_STR_def opcodes)

lemma fuse_move:
  assumes "well_typed \<Gamma> e" "t \<in> {TI, TF}" "\<forall>y \<in> vars e. fst (\<Gamma> y) = Global"
    and "length (code cs) + 6 \<le> BC_MAX_CODE" "\<not> has_error cs" "t = ty_of \<Gamma> x" "slot = slot_of \<Gamma> x"
  shows "source_try_fuse_mov_assignment lvl (put cs (comp lvl \<Gamma> e)) (length (code cs)) slot False (type_code t) =
    (if \<exists>n. comp lvl \<Gamma> e = [I_LOAD Global t n] \<and> lvl \<ge> 1 then (True, put cs (let_code lvl \<Gamma> x e)) else (False, put cs (comp lvl \<Gamma> e)))"
proof -
  obtain i "is" where c: "comp lvl \<Gamma> e = i # is"
    and i: "(\<exists>sc t n. i = I_LOAD sc t n \<and> t \<noteq> TS) \<or> (\<exists>v. i = I_PUSH_INT v) \<or> (\<exists>v. i = I_PUSH_FLT v)"
    using comp_first [OF assms(1)] by blast
  show ?thesis
  proof (cases "is = [] \<and> (\<exists>sc t n. i = I_LOAD sc t n)")
    case True
    then obtain sc t' n where il: "comp lvl \<Gamma> e = [I_LOAD sc t' n]" using c by auto
    then obtain y where "y \<in> vars e" "\<Gamma> y = (sc, n, t')" using load_alone by blast
    then have sc: "sc = Global" and t': "t' \<in> {TI, TF}" using assms(1,3) by (auto simp: well_typed_def)
    have "unat n < 65536" using unsigned_less [of n] by simp
    then have n: "of_nat (le_dec (le_enc 2 (unat n))) = n" by (simp add: le_dec_enc)
    show ?thesis
      using il sc t' assms(2,4-7) mov_kind_load(1) [of t t']
      by (auto simp: source_try_fuse_mov_assignment_def put_def e16_def n Let_def source_delete_bytes_def bc_emit_byte_def bc_emit_u16_def bytes_put
          let_code_def nth_append)
  next
    case False
    have l: "length (encode i) + length (assemble is) \<noteq> 3"
    proof (cases "is")
      case Nil
      then show ?thesis using False i by (auto simp: e64_def)
    next
      case (Cons j js)
      have "0 < length (encode j)" using encode_nonempty [of j] by simp
      then show ?thesis using i Cons by (auto simp: e64_def e16_def)
    qed
    have "\<not> (\<exists>n. comp lvl \<Gamma> e = [I_LOAD Global t n] \<and> lvl \<ge> 1)" using False c by auto
    moreover have "length (code (put cs (comp lvl \<Gamma> e))) \<noteq> length (code cs) + 3" using l by (simp add: c)
    ultimately show ?thesis by (simp add: source_try_fuse_mov_assignment_def)
  qed
qed

lemma numeric_types [simp]:
  "t \<in> {TI, TF} \<Longrightarrow> \<not> is_str (type_code t)" "type_code TI = T_INT" "type_code TF = T_NBR"
  by (auto simp: type_code_def is_str_def T_INT_def T_NBR_def T_STR_def)

lemma store_converted:
  assumes "t \<in> {TI, TF}" "et \<in> {TI, TF}" "length (code cs) + 4 \<le> BC_MAX_CODE"
  shows "source_emit_store_converted cs slot (type_code t) (type_code et) False = put cs (cvt et t @ [I_STORE Global t slot])"
proof -
  have st: "bc_emit_store_var c slot 4 False = put c [I_STORE Global TI slot]" "bc_emit_store_var c slot 1 False = put c [I_STORE Global TF slot]"
    if "length (code c) + 3 \<le> BC_MAX_CODE" for c
    using that by (simp_all add: bc_emit_store_var_def vty_of_def scope_of_def bc_emit_byte_def bc_emit_u16_def bytes_put put_def e16_def T_INT_def T_NBR_def)
  have cv: "bc_emit_byte cs OP_CVT_I2F = put cs [I_CVT_I2F]" "bc_emit_byte cs OP_CVT_F2I = put cs [I_CVT_F2I]"
    using assms(3) by (simp_all add: bc_emit_byte_def bytes_put put_def)
  show ?thesis
    using assms
    by (elim insertE emptyE; simp add: source_emit_store_converted_def st cv cvt_def T_INT_def T_NBR_def T_STR_def)
qed

lemma stops_eq [simp]: "stops (0x20 # 0x3D # t)"
  by (simp add: stops_def source_skip_space_def)

lemma setting_var:
  assumes "setting fe \<Gamma> V cs" "x \<in> V"
  shows "plain_name fe x" "name_type cs x = type_code (ty_of \<Gamma> x)" "ty_of \<Gamma> x \<in> {TI, TF}" "place cs x = Some (Global, slot_of \<Gamma> x)"
    "unat (slot_of \<Gamma> x) < BC_MAX_SLOTS" "slot_type (slots cs ! unat (bc_find_slot cs x)) \<noteq> T_STRUCT" "fst (\<Gamma> x) = Global"
    "source_resolve_var cs x ty True = (cs, slot_of \<Gamma> x, False)"
proof -
  obtain sc sl t where g: "\<Gamma> x = (sc, sl, t)" by (cases "\<Gamma> x")
  have ok: "var_ok fe cs x (\<Gamma> x)" "fst (\<Gamma> x) = Global" "slot_type (slots cs ! unat (slot_of \<Gamma> x)) \<noteq> T_STRUCT" "current_subfun cs < 0"
    using assms by (auto simp: setting_def)
  then show "plain_name fe x" "name_type cs x = type_code (ty_of \<Gamma> x)" "ty_of \<Gamma> x \<in> {TI, TF}" "unat (slot_of \<Gamma> x) < BC_MAX_SLOTS" "fst (\<Gamma> x) = Global"
    using g by (auto simp: var_ok_def)
  show pl: "place cs x = Some (Global, slot_of \<Gamma> x)" using ok g by (auto simp: var_ok_def)
  then have "bc_find_slot cs x = slot_of \<Gamma> x" using ok(4) by (auto simp: place_def Let_def split: if_splits)
  then show "slot_type (slots cs ! unat (bc_find_slot cs x)) \<noteq> T_STRUCT" using ok(3) by simp
  show "source_resolve_var cs x ty True = (cs, slot_of \<Gamma> x, False)" using resolve_place [OF pl] by simp
qed

lemma setting_well_typed: "setting fe \<Gamma> V cs \<Longrightarrow> vars e \<subseteq> V \<Longrightarrow> well_typed \<Gamma> e \<and> (\<forall>y \<in> vars e. fst (\<Gamma> y) = Global)"
  using setting_var(3,7) by (fastforce simp: well_typed_def)

lemma no_dot_base: "0x2E \<notin> set x \<Longrightarrow> takeWhile (\<lambda>c. c \<noteq> 0x2E) x = x"
  by (simp add: takeWhile_eq_all_conv) blast

lemma let_compiles:
  assumes s: "setting fe \<Gamma> V cs" "x \<in> V" "vars e \<subseteq> V" "fits 7 e" "literals_ok e" "\<not> same_name x (bytes_of ''PIN'')"
    and room: "length (code cs) + code_need e + 4 \<le> BC_MAX_CODE"
  shows "source_compile_assignment fe (source_parse_expression fe) cs (let_line x e) = Some (put cs (let_code (opt_level fe) \<Gamma> x e), [])"
proof -
  note v = setting_var [OF s(1,2)] and wt = setting_well_typed [OF s(1,3)]
  have et: "etype \<Gamma> e \<in> {TI, TF}" using etype_numeric wt by blast
  let ?tail = "0x20 # 0x3D # 0x20 # print_exp e"
  have tx: "let_line x e = x @ ?tail" by (simp add: let_line_def)
  have pv: "source_parse_varname (x @ ?tail) = Some (x, if is_suffix_char (last x) then bc_type_from_suffix (last x) else 0, ?tail)"
    by (rule parse_plain_varname [OF v(1)]) simp
  have dot: "0x2E \<notin> set x" "x \<noteq> []" using plain_nameD [OF v(1)] by simp_all
  have whole: "\<not> source_lhs_is_whole_struct fe cs (x @ ?tail)"
    using v(6) dot by (simp add: source_lhs_is_whole_struct_def pv Let_def)
  have st: "source_try_begin_struct_field_store fe E x cs p = None" for E p
    using dot by (simp add: source_try_begin_struct_field_store_def struct_base_of_def Let_def)
  have sk: "source_skip_space ?tail = 0x3D # 0x20 # print_exp e" by (simp add: source_skip_space_def)
  have ty: "(if (if is_suffix_char (last x) then bc_type_from_suffix (last x) else 0) = 0 then source_default_var_type cs x
      else (if is_suffix_char (last x) then bc_type_from_suffix (last x) else 0)) = type_code (ty_of \<Gamma> x)"
    using v(2) suffix_type [of "last x"] by (auto simp: name_type_def)
  have rd: "ready fe \<Gamma> cs e" by (rule setting_ready [OF s(1,3,5)]) (use room in simp)
  have E: "source_parse_expression fe cs (0x20 # print_exp e) = (type_code (etype \<Gamma> e), put cs (comp (opt_level fe) \<Gamma> e), [])"
    using parse_print [OF s(4) rd, of "[0x20]" "[]"] by (simp add: is_blank_def)
  have he: "\<not> has_error cs" using s(1) by (simp add: setting_def)
  have cn: "3 \<le> code_need e" by (induction e) auto
  note fu = fuse_move [of \<Gamma> e "ty_of \<Gamma> x" cs x "slot_of \<Gamma> x" "opt_level fe", OF wt [THEN conjunct1] v(3) wt [THEN conjunct2] _ he refl refl]
  have len: "length (code (put cs (comp (opt_level fe) \<Gamma> e))) + 4 \<le> BC_MAX_CODE" using room code_len [of "opt_level fe" \<Gamma> e] by simp
  have as: "assign_scalar fe (source_parse_expression fe) (slot_of \<Gamma> x) False (type_code (ty_of \<Gamma> x)) cs (0x3D # 0x20 # print_exp e) =
    Some (put cs (let_code (opt_level fe) \<Gamma> x e), [])"
  proof (cases "\<exists>n. comp (opt_level fe) \<Gamma> e = [I_LOAD Global (ty_of \<Gamma> x) n] \<and> opt_level fe \<ge> 1")
    case True
    then show ?thesis using fu room cn he et v(3) E
      by (auto simp: assign_scalar_def assign_value_def expr_or_def source_skip_space_def type_clash_def Let_def)
  next
    case False
    have "let_code (opt_level fe) \<Gamma> x e = comp (opt_level fe) \<Gamma> e @ cvt (etype \<Gamma> e) (ty_of \<Gamma> x) @ [I_STORE Global (ty_of \<Gamma> x) (slot_of \<Gamma> x)]"
    proof (rule let_code_cases [of "opt_level fe" \<Gamma> e x])
      fix sc n assume c: "comp (opt_level fe) \<Gamma> e = [I_LOAD sc (ty_of \<Gamma> x) n]" "1 \<le> opt_level fe"
      then have "sc = Global" using load_alone [OF c(1)] wt by fastforce
      then show ?thesis using c False by blast
    qed simp
    then show ?thesis using fu room cn he et v(3) E False store_converted [OF v(3) et len]
      by (auto simp: assign_scalar_def assign_value_def expr_or_def source_skip_space_def type_clash_def Let_def)
  qed
  show ?thesis
    unfolding tx source_compile_assignment_def
    using whole pv s(6) st v(8) as
    by (simp add: sk ty [simplified] source_name_eq_def Let_def)
qed

end
