(* ===== verification/ProgText.thy ===== *)
theory ProgText
  imports ProgParse
begin

text \<open>
  The lines of a structured program, as the line compiler sees them: no line is taken for a label, a comment, a
  bridged statement or another statement than its own.
\<close>

section \<open>Characters\<close>

text \<open>Characters with no meaning of their own outside expressions: no quote, comment, colon, \<open>#\<close> or line end.\<close>

definition calm :: "u8 \<Rightarrow> bool" where
  "calm c \<longleftrightarrow> c \<notin> {0, 0x0A, 0x0D, 0x22, 0x23, 0x27, 0x3A}"

lemma calm_chars [simp]: "isnamechar c \<Longrightarrow> calm c" "is_suffix_char c \<Longrightarrow> calm c" "isdigit8 c \<Longrightarrow> calm c"
proof -
  have "list_all (\<lambda>n. isnamechar (of_nat n) \<or> is_suffix_char (of_nat n) \<or> isdigit8 (of_nat n) \<longrightarrow> calm (of_nat n)) [0..<256]" by code_simp
  then have "isnamechar c \<or> is_suffix_char c \<or> isdigit8 c \<longrightarrow> calm c" by (rule all_u8)
  then show "isnamechar c \<Longrightarrow> calm c" "is_suffix_char c \<Longrightarrow> calm c" "isdigit8 c \<Longrightarrow> calm c" by blast+
qed

lemma calm_syms [simp]: "calm 0x20" "calm 0x28" "calm 0x29" "calm 0x2E" "calm 0x3D"
  by (simp_all add: calm_def)

lemma calm_name:
  assumes "plain_name fe x"
  shows "list_all calm x"
proof -
  have b: "list_all calm (name_body x)" using assms by (auto simp: plain_name_def list_all_iff)
  show ?thesis
  proof (cases "is_suffix_char (last x)")
    case True
    have "x = butlast x @ [last x]" using assms by (simp add: plain_name_def)
    then show ?thesis using b True by (metis calm_chars(2) list.pred_inject list_all_append name_body_def)
  next
    case False
    then show ?thesis using b by (simp add: name_body_def)
  qed
qed

lemma calm_ops: "list_all calm (op_text op)" "list_all calm (unop_text u)"
proof -
  show "list_all calm (op_text op)" by (cases op rule: op_text.cases; simp add: calm_def; rename_tac r; case_tac r; simp add: calm_def)
  show "list_all calm (unop_text u)" by (cases u) (simp_all add: calm_def)
qed

lemma calm_exp:
  "literals_ok e \<Longrightarrow> \<forall>x \<in> vars e. plain_name fe x \<Longrightarrow> list_all calm (print_exp e)"
proof (induction e)
  case (E_BIN op a b)
  then show ?case using calm_ops(1) [of op] by simp
next
  case (E_UN u e)
  then show ?case using calm_ops(2) [of u] by simp
next
  case (E_VAR x)
  then show ?case by (simp add: calm_name)
qed (auto simp: list_all_iff)

section \<open>Scanning for a word\<close>

text \<open>The first place of a word that is not part of a longer one.\<close>

definition word_here :: "cstr \<Rightarrow> cstr \<Rightarrow> bool" where
  "word_here k p \<longleftrightarrow> same_name (take (length k) p) k \<and> \<not> isnamechar (at (drop (length k) p))"

fun find_word :: "cstr \<Rightarrow> bool \<Rightarrow> cstr \<Rightarrow> cstr option" where
  "find_word k prev [] = None"
| "find_word k prev (c # p) = (if \<not> prev \<and> word_here k (c # p) then Some (c # p) else find_word k (isnamechar c) p)"

lemma find_kw_word: "list_all calm p \<Longrightarrow> find_kw k False prev p = find_word k prev p"
  by (induction p arbitrary: prev) (auto simp: word_here_def calm_def)
text \<open>A text that does not go on with a name.\<close>

definition breaks :: "cstr \<Rightarrow> bool" where
  "breaks rest \<longleftrightarrow> rest = [] \<or> \<not> isnamechar (hd rest)"

lemma breaks_simps [simp]: "breaks []" "breaks (c # p) \<longleftrightarrow> \<not> isnamechar c"
  by (simp_all add: breaks_def)

lemma breaks_at: "breaks rest \<longleftrightarrow> \<not> isnamechar (at rest)"
  by (cases rest) (simp_all add: at_def isnamechar_def isalnum8_def isalpha8_def isdigit8_def)

lemma not_namechars [simp]:
  "\<not> isnamechar 0" "\<not> isnamechar 0x20" "\<not> isnamechar 0x28" "\<not> isnamechar 0x29" "\<not> isnamechar 0x2D" "\<not> isnamechar 0x2B" "\<not> isnamechar 0x3D" "isnamechar 0x2E"
  "\<not> isnamechar 0x2C" "\<not> isnamechar 0x3A" "\<not> isnamechar 0x0A"
  by (simp_all add: isnamechar_def isalnum8_def isalpha8_def isdigit8_def)

definition is_word :: "cstr \<Rightarrow> bool" where
  "is_word k \<longleftrightarrow> k \<noteq> [] \<and> list_all isalpha8 k"

lemma is_wordD: "is_word k \<Longrightarrow> k \<noteq> []" "is_word k \<Longrightarrow> list_all isnamechar k"
  by (auto simp: is_word_def list_all_iff isnamechar_def isalnum8_def)

lemma word_here_break:
  assumes "is_word k" "\<not> isnamechar c"
  shows "\<not> word_here k (c # p)"
proof
  assume "word_here k (c # p)"
  then have n: "same_name (take (length k) (c # p)) k" by (simp add: word_here_def)
  then have "length k \<le> length (c # p)" using same_name_length by fastforce
  then have "isnamechar ((c # p) ! 0)" using n same_name_isnamechar is_wordD [OF assms(1)] by blast
  then show False using assms(2) by simp
qed

lemma find_word_break: "is_word k \<Longrightarrow> \<not> isnamechar c \<Longrightarrow> find_word k prev (c # p) = find_word k False p"
  using word_here_break by simp

lemma find_word_prev: "is_word k \<Longrightarrow> breaks rest \<Longrightarrow> find_word k prev rest = find_word k False rest"
  by (cases rest) (simp_all add: word_here_break)

lemma word_here_word:
  assumes "is_word k" "list_all isnamechar w" "breaks rest"
  shows "word_here k (w @ rest) \<longleftrightarrow> same_name w k"
proof (cases "length w" "length k" rule: linorder_cases)
  case less
  have "\<not> same_name (take (length k) (w @ rest)) k"
  proof
    assume a: "same_name (take (length k) (w @ rest)) k"
    then have l: "length k \<le> length (w @ rest)" using same_name_length by fastforce
    then have "isnamechar ((w @ rest) ! length w)" using a less same_name_isnamechar is_wordD(2) [OF assms(1)] by blast
    moreover have "rest \<noteq> []" using l less by auto
    ultimately show False using assms(3) by (simp add: nth_append breaks_def hd_conv_nth)
  qed
  moreover have "\<not> same_name w k" using less same_name_length by fastforce
  ultimately show ?thesis by (simp add: word_here_def)
next
  case equal
  then show ?thesis using assms(3) by (auto simp: word_here_def breaks_at)
next
  case greater
  have "isnamechar (at (drop (length k) (w @ rest)))"
    using greater assms(2) at_nth [of "length k" "w @ rest"] by (simp add: nth_append list_all_length del: drop_append)
  moreover have "\<not> same_name w k" using greater same_name_length by fastforce
  ultimately show ?thesis by (simp add: word_here_def)
qed

lemma find_word_inside: "list_all isnamechar w \<Longrightarrow> find_word k True (w @ rest) = find_word k True rest"
  by (induction w) simp_all

lemma find_word_pass:
  assumes "is_word k" "list_all isnamechar w" "breaks rest" "\<not> same_name w k"
  shows "find_word k False (w @ rest) = find_word k False rest"
proof (cases w)
  case (Cons c v)
  have "\<not> word_here k (w @ rest)" using word_here_word [OF assms(1-3)] assms(4) by simp
  then have "find_word k False (w @ rest) = find_word k True rest" using Cons assms(2) find_word_inside [of v k rest] by simp
  then show ?thesis using find_word_prev [OF assms(1,3)] by simp
qed simp

lemma find_word_stop: "is_word k \<Longrightarrow> list_all isnamechar k \<Longrightarrow> breaks rest \<Longrightarrow> find_word k False (k @ rest) = Some (k @ rest)"
  using word_here_word [of k k rest] is_wordD(1) [of k] by (cases k) simp_all

text \<open>The words inside expressions.\<close>

definition op_words :: "cstr list" where
  "op_words = map bytes_of [''MOD'', ''AND'', ''OR'', ''XOR'', ''NOT'', ''INV'']"

definition lacks :: "cstr \<Rightarrow> exp \<Rightarrow> bool" where
  "lacks k e \<longleftrightarrow> is_word k \<and> \<not> list_ex (\<lambda>w. same_name w k) op_words \<and> (\<forall>x \<in> vars e. \<not> same_name (name_body x) k)"

lemma lacks_parts [simp]:
  "lacks k (E_PAREN e) = lacks k e" "lacks k (E_UN u e) = lacks k e" "lacks k (E_BIN op a b) \<longleftrightarrow> lacks k a \<and> lacks k b"
  by (auto simp: lacks_def)
lemma suffix_breaks: "is_suffix_char c \<Longrightarrow> \<not> isnamechar c"
  by (auto simp: is_suffix_char_def isnamechar_def isalnum8_def isalpha8_def isdigit8_def)

lemma start_namechar: "isnamestart c \<Longrightarrow> isnamechar c"
  by (auto simp: isnamestart_def isnamechar_def isalnum8_def)

lemma name_parts:
  assumes "plain_name fe x"
  obtains t where "x = name_body x @ t" "t = [] \<or> (\<exists>c. t = [c] \<and> is_suffix_char c)" "list_all isnamechar (name_body x)" "name_body x \<noteq> []"
proof -
  have x: "x \<noteq> []" "isnamestart (hd x)" "list_all isnamechar (name_body x)" using assms by (simp_all add: plain_name_def)
  show thesis
  proof (cases "is_suffix_char (last x)")
    case True
    have "butlast x \<noteq> []"
    proof
      assume "butlast x = []"
      then have "last x = hd x" using x(1) by (cases x) auto
      then show False using True x(2) suffix_breaks start_namechar by metis
    qed
    then show ?thesis using that [of "[last x]"] True x by (simp add: name_body_def)
  next
    case False
    then show ?thesis using that [of "[]"] x by (simp add: name_body_def)
  qed
qed

lemma find_word_name:
  assumes "plain_name fe x" "is_word k" "\<not> same_name (name_body x) k" "breaks rest"
  shows "find_word k False (x @ rest) = find_word k False rest"
proof (rule name_parts [OF assms(1)])
  fix t assume t: "x = name_body x @ t" "t = [] \<or> (\<exists>c. t = [c] \<and> is_suffix_char c)" "list_all isnamechar (name_body x)"
  have "breaks (t @ rest)" using t(2) assms(4) suffix_breaks by auto
  then have "find_word k False (name_body x @ (t @ rest)) = find_word k False (t @ rest)" by (rule find_word_pass [OF assms(2) t(3) _ assms(3)])
  also have "\<dots> = find_word k False rest"
    using t(2)
  proof
    assume "\<exists>c. t = [c] \<and> is_suffix_char c"
    then obtain c where "t = [c]" "\<not> isnamechar c" using suffix_breaks by blast
    then show ?thesis using find_word_break [OF assms(2), of c False rest] by (simp del: find_word.simps)
  qed simp
  finally show ?thesis by (subst t(1)) simp
qed

lemma tolower_digit: "isdigit8 (tolower8 c) = isdigit8 c" "isalpha8 c \<Longrightarrow> \<not> isdigit8 c"
proof -
  have "list_all (\<lambda>n. isdigit8 (tolower8 (of_nat n)) = isdigit8 (of_nat n) \<and> (isalpha8 (of_nat n) \<longrightarrow> \<not> isdigit8 (of_nat n))) [0..<256]" by code_simp
  then have "isdigit8 (tolower8 c) = isdigit8 c \<and> (isalpha8 c \<longrightarrow> \<not> isdigit8 c)" by (rule all_u8)
  then show "isdigit8 (tolower8 c) = isdigit8 c" "isalpha8 c \<Longrightarrow> \<not> isdigit8 c" by blast+
qed

lemma digits_word: "isdigit8 c \<Longrightarrow> is_word k \<Longrightarrow> \<not> same_name (c # w) k"
proof
  assume a: "isdigit8 c" "is_word k" "same_name (c # w) k"
  then obtain d k' where "k = d # k'" by (cases k) (auto simp: is_word_def)
  then have "tolower8 c = tolower8 d" "isalpha8 d" using a by (simp_all add: same_name_def is_word_def)
  then show False using a(1) tolower_digit by metis
qed

lemma rel_text_symbols: "list_all (\<lambda>c. \<not> isnamechar c) (rel_text r)" "rel_text r \<noteq> []"
  by (cases r; simp add: isnamechar_def isalnum8_def isalpha8_def isdigit8_def)+

lemma op_text_words:
  "list_all (\<lambda>c. \<not> isnamechar c) (op_text op) \<or> op_text op \<in> set op_words \<and> list_all isnamechar (op_text op)"
proof (cases op)
  case (O_CMP r)
  then show ?thesis using rel_text_symbols by simp
qed (simp_all add: op_words_def isnamechar_def isalnum8_def isalpha8_def isdigit8_def)

lemma find_word_symbols: "is_word k \<Longrightarrow> list_all (\<lambda>c. \<not> isnamechar c) w \<Longrightarrow> find_word k prev (w @ 0x20 # rest) = find_word k False rest"
  by (induction w arbitrary: prev) (simp_all add: word_here_break)
lemma breaks_rest: "rest = [] \<or> hd rest \<in> {0x20, 0x29} \<Longrightarrow> breaks rest"
  by (cases rest) auto

lemma find_word_exp:
  assumes "literals_ok e" "\<forall>x \<in> vars e. plain_name fe x" "lacks k e" "rest = [] \<or> hd rest \<in> {0x20, 0x29}"
  shows "find_word k False (print_exp e @ rest) = find_word k False rest"
  using assms
proof (induction e arbitrary: rest)
  case (E_DEC ds)
  have k: "is_word k" using E_DEC.prems by (simp add: lacks_def)
  obtain c ds' where "ds = c # ds'" "isdigit8 c" using E_DEC.prems by (cases ds) auto
  then have "\<not> same_name ds k" using digits_word [OF _ k] by blast
  moreover have "list_all isnamechar ds" using E_DEC.prems by (auto simp: list_all_iff isnamechar_def isalnum8_def)
  ultimately show ?case using find_word_pass [OF k _ breaks_rest] E_DEC.prems by simp
next
  case (E_FIX a b)
  have k: "is_word k" using E_FIX.prems by (simp add: lacks_def)
  obtain c a' where "a = c # a'" "isdigit8 c" using E_FIX.prems by (cases a) auto
  then have "\<not> same_name (a @ 0x2E # b) k" using digits_word [OF _ k] by (metis append_Cons)
  moreover have "list_all isnamechar (a @ 0x2E # b)" using E_FIX.prems by (auto simp: list_all_iff isnamechar_def isalnum8_def)
  ultimately show ?case using find_word_pass [OF k _ breaks_rest, of "a @ 0x2E # b" rest] E_FIX.prems by simp
next
  case (E_VAR x)
  then show ?case using find_word_name [of fe x k rest] breaks_rest [of rest] by (simp add: lacks_def)
next
  case (E_PAREN e)
  have k: "is_word k" using E_PAREN.prems by (simp add: lacks_def)
  show ?case using E_PAREN.IH [of "0x29 # rest"] E_PAREN.prems by (simp add: word_here_break [OF k])
next
  case (E_UN u e)
  have k: "is_word k" "\<forall>w \<in> set op_words. \<not> same_name w k" using E_UN.prems by (simp_all add: lacks_def list_ex_iff)
  have w: "find_word k False (v @ 0x20 # t) = find_word k False t" if "v \<in> set op_words" "list_all isnamechar v" for v t
    using find_word_pass [of k v "0x20 # t"] that k by (simp add: word_here_break)
  have "find_word k False (unop_text u @ print_exp e @ rest) = find_word k False (print_exp e @ rest)"
  proof (cases u)
    case U_NOT
    then show ?thesis using w [of "bytes_of ''NOT''" "print_exp e @ rest"] by (simp add: op_words_def isnamechar_def isalnum8_def isalpha8_def)
  next
    case U_INV
    then show ?thesis using w [of "bytes_of ''INV''" "print_exp e @ rest"] by (simp add: op_words_def isnamechar_def isalnum8_def isalpha8_def)
  qed (simp_all add: word_here_break [OF k(1)])
  then show ?case using E_UN by simp
next
  case (E_BIN op a b)
  have k: "is_word k" "\<forall>w \<in> set op_words. \<not> same_name w k" using E_BIN.prems by (simp_all add: lacks_def list_ex_iff)
  have "find_word k False (print_exp a @ 0x20 # op_text op @ 0x20 # print_exp b @ rest) = find_word k False (0x20 # op_text op @ 0x20 # print_exp b @ rest)"
    using E_BIN.IH(1) [of "0x20 # op_text op @ 0x20 # print_exp b @ rest"] E_BIN.prems by simp
  also have "\<dots> = find_word k False (op_text op @ 0x20 # print_exp b @ rest)" by (simp add: word_here_break [OF k(1)])
  also have "\<dots> = find_word k False (print_exp b @ rest)"
    using op_text_words [of op]
  proof
    assume "list_all (\<lambda>c. \<not> isnamechar c) (op_text op)"
    then show ?thesis by (rule find_word_symbols [OF k(1)])
  next
    assume "op_text op \<in> set op_words \<and> list_all isnamechar (op_text op)"
    then show ?thesis using find_word_pass [OF k(1), of "op_text op" "0x20 # print_exp b @ rest"] k by (simp add: word_here_break)
  qed
  also have "\<dots> = find_word k False rest" using E_BIN by simp
  finally show ?case by simp
qed
section \<open>What the dispatcher does not see in such a text\<close>

lemma calm_tail: "list_all calm p \<Longrightarrow> list_all calm (source_skip_space p)" "list_all calm p \<Longrightarrow> list_all calm (drop n p)"
  by (auto simp: source_skip_space_def list_all_iff dest: set_dropWhileD in_set_dropD)

lemma find_word_skip: "is_word k \<Longrightarrow> find_word k False (source_skip_space p) = find_word k False p"
proof (induction p)
  case (Cons c p)
  then show ?case
    by (cases "c = 0x20 \<or> c = 0x09") (auto simp: source_skip_space_def word_here_break isnamechar_def isalnum8_def isalpha8_def isdigit8_def)
qed (simp add: source_skip_space_def)

lemma no_ctrlval_call:
  assumes "list_all calm p" "find_word (bytes_of ''CTRLVAL'') False p = None"
  shows "\<not> source_stmt_contains_ctrlval_call p"
proof -
  let ?k = "bytes_of ''CTRLVAL''"
  have len: "length ?k = 7" by code_simp
  have "\<not> ctrlval_scan False prev p" if "list_all calm p" "find_word ?k prev p = None" for p prev
    using that
  proof (induction p arbitrary: prev)
    case (Cons c p)
    have "\<not> (same_name (take 7 (c # p)) ?k \<and> at (source_skip_space (drop 7 (c # p))) = 0x28)" if np: "\<not> prev"
    proof
      assume a: "same_name (take 7 (c # p)) ?k \<and> at (source_skip_space (drop 7 (c # p))) = 0x28"
      have "\<not> isnamechar (at (drop 7 (c # p)))"
      proof
        assume n: "isnamechar (at (drop 7 (c # p)))"
        then have "\<not> is_blank (at (drop 7 (c # p)))" by (auto simp: is_blank_def isnamechar_def isalnum8_def isalpha8_def isdigit8_def)
        then have "at (source_skip_space (drop 7 (c # p))) = at (drop 7 (c # p))" by (metis skip_none)
        then show False using a n by simp
      qed
      then have "word_here ?k (c # p)" using a len by (simp add: word_here_def)
      then show False using Cons.prems np by simp
    qed
    moreover have "find_word ?k (isnamechar c) p = None" using Cons.prems by (auto split: if_splits)
    ultimately show ?case using Cons by (auto simp: calm_def)
  qed simp
  moreover have "is_word ?k" by code_simp
  ultimately have "\<not> ctrlval_scan False False (source_skip_space p)" using assms calm_tail(1) find_word_skip by simp
  then show ?thesis by (simp add: source_stmt_contains_ctrlval_call_def Let_def)
qed

lemma calm_number: "list_all calm p \<Longrightarrow> \<not> variable_file_number q False p"
  by (induction p) (auto simp: calm_def)

lemma calm_split: "list_all calm p \<Longrightarrow> split_statement w False p = (p, [])"
  by (induction p) (auto simp: calm_def)

lemma no_bridged: "subfuns cs = [] \<Longrightarrow> \<not> references_bridged n cs q p"
  by (induction n arbitrary: q p) (auto simp: is_bridged_def bc_find_subfun_def Let_def split: list.split)

lemma calm_at: "list_all calm p \<Longrightarrow> at p \<notin> {0x0A, 0x0D, 0x22, 0x23, 0x27, 0x3A}"
  by (cases p) (auto simp: calm_def at_def)

lemma calm_label: "list_all calm p \<Longrightarrow> label_at p = None"
  using calm_at [of "source_skip_space (drop n (source_skip_space p))" for n] calm_tail
  by (auto simp: label_at_def Let_def)

section \<open>Lines\<close>

text \<open>A line with one statement on it, no number, no label, no call of \<open>CTRLVAL\<close>.\<close>

definition plain_line :: "cstr \<Rightarrow> bool" where
  "plain_line l \<longleftrightarrow>
     list_all calm l \<and> isnamestart (at l) \<and> length l \<le> STRINGSIZE \<and> find_word (bytes_of ''CTRLVAL'') False l = None \<and>
     \<not> word_here (bytes_of ''REM'') l"

lemma plain_line_bridge:
  assumes "plain_line l" "plain_fe fe" "subfuns cs = []"
  shows "early_bridge fe cs l = None"
proof -
  have "\<not> source_stmt_contains_ctrlval_call l" using assms no_ctrlval_call by (simp add: plain_line_def)
  then show ?thesis
    using assms no_bridged [OF assms(3)] calm_number [of l False]
    by (simp add: early_bridge_def Let_def plain_fe_def plain_line_def source_stmt_references_bridged_subfun_def)
qed

text \<open>What a line does before its statement.\<close>

definition begun :: "int \<Rightarrow> BCCompiler \<Rightarrow> BCCompiler" where
  "begun ln cs = put (cs\<lparr>cs_line := word_of_int ln, linemap := linemap cs @ [\<lparr>lm_lineno = word_of_int ln, lm_offset = here cs\<rparr>]\<rparr>) [line_mark ln]"

lemma start_chars: "isnamestart c \<Longrightarrow> c \<noteq> 0 \<and> c \<noteq> 0x27 \<and> \<not> isdigit8 c \<and> \<not> is_blank c \<and> c \<noteq> 0x3F"
  using tolower_digit(2) [of c] by (auto simp: isnamestart_def isalpha8_def isdigit8_def is_blank_def)

lemma line_opens:
  assumes "plain_line l" "plain_fe fe" "subfuns cs = []" "\<not> has_error cs" "length (linemap cs) < BC_MAX_LINEMAP" "length (code cs) + 3 \<le> BC_MAX_CODE"
  shows "source_compile_line fe cs l = statement_at (Suc (length l)) fe (begun (line_no fe) cs) l"
proof -
  have l: "list_all calm l" "isnamestart (at l)" "length l \<le> STRINGSIZE" "\<not> word_here (bytes_of ''REM'') l" using assms(1) by (simp_all add: plain_line_def)
  note c = start_chars [OF l(2)]
  have sk: "source_skip_space l = l" using c skip_none by blast
  have dg: "takeWhile isdigit8 l = []" using c by (cases l) (simp_all add: at_def)
  have sn: "split_number l = (0, l)" by (simp add: split_number_def sk dg Let_def)
  have rem: "bytes_of ''REM'' = [0x52, 0x45, 0x4D]" by code_simp
  have ne: "\<not> source_line_empty_or_comment l" using c l(4) by (simp add: source_line_empty_or_comment_def sk word_here_def Let_def rem numeral_3_eq_3)
  have lb: "source_try_register_label x l = (x, None)" for x by (simp add: source_try_register_label_def calm_label [OF l(1)])
  have sp: "split_statement w False l = (l, [])" for w by (rule calm_split [OF l(1)])
  let ?b = "begun (line_no fe) cs"
  have b: "bc_emit_u16 (bc_emit_byte (fst (bc_add_linemap_entry (cs\<lparr>cs_line := word_of_int (line_no fe)\<rparr>) (word_of_int (line_no fe))
      (here (cs\<lparr>cs_line := word_of_int (line_no fe)\<rparr>)))) OP_LINE) (word_of_int (line_no fe)) = ?b"
    using assms(5,6) by (simp add: bc_add_linemap_entry_def begun_def bc_emit_u16_def bc_emit_byte_def bytes_put put_def line_mark_def here_def e16_def)
  have "has_error ?b = has_error cs" by (simp add: begun_def)
  then have "line_statements (Suc (length l)) fe ?b l = source_compile_statement fe ?b l"
    using c l(3) assms(4) by (auto simp: sk lb sp at_def Let_def split: bind_splits)
  then show ?thesis
    using assms(2) b
    by (simp add: source_compile_line_def sn ne plain_fe_def Let_def source_compile_statement_def del: line_statements.simps statement_at.simps)
qed
section \<open>Finding the statement\<close>

definition statement_words :: "string list" where
  "statement_words =
     [''PRINT'', ''OPTION'', ''TYPE'', ''CONST'', ''DIM'', ''DATA'', ''READ'', ''RESTORE'', ''INC'', ''FASTGFX'', ''FRAMEBUFFER'', ''RANDOMIZE'',
      ''PAUSE'', ''SETPIN'', ''PWM'', ''SERVO'', ''ERROR'', ''OPEN'', ''DRIVE'', ''CLOSE'', ''SEEK'', ''MKDIR'', ''CHDIR'', ''RMDIR'', ''KILL'',
      ''RENAME'', ''COPY'', ''RUN'', ''CLS'', ''COLOUR'', ''COLOR'', ''FONT'', ''BOX'', ''RBOX'', ''ARC'', ''TRIANGLE'', ''POLYGON'', ''CIRCLE'',
      ''LINE'', ''PIXEL'', ''TEXT'', ''SELECT'', ''CASE'', ''LOCAL'', ''STATIC'', ''SUB'', ''FUNCTION'', ''ELSEIF'', ''ELSE'', ''ENDIF'', ''END IF'',
      ''END'', ''DO'', ''LOOP'', ''EXIT'', ''CONTINUE'', ''IF'', ''FOR'', ''NEXT'', ''GOTO'', ''GOSUB'', ''ON'', ''RETURN'', ''LET'']"

lemma table_words: "map fst (statement_table S) = statement_words"
  by (simp add: statement_table_def device_table_def control_table_def statement_words_def)

lemma find_pairs: "find (\<lambda>(w, f). P w) t = map_option (\<lambda>k. (k, the (map_of t k))) (find P (map fst t))"
proof (induction t)
  case (Cons x t)
  obtain w f where "x = (w, f)" by (cases x)
  then show ?case using Cons by (cases "P w") (auto simp: find_Some_iff option.map_comp intro!: option.map_cong dest: sym)
qed simp

lemma find_statement_words:
  assumes "at p \<noteq> 0x3F"
  shows "find_statement S p = map_option (\<lambda>k. (the (map_of (statement_table S) k), the (kw p k))) (find (takes p) statement_words)"
  using assms by (simp add: find_statement_def find_pairs [of "takes p"] table_words option.map_comp comp_def)

text \<open>Keywords are words, but for \<open>END IF\<close>, where \<open>END\<close> is one.\<close>

lemma words_ok: "k \<in> set statement_words \<Longrightarrow> k \<noteq> ''END IF'' \<Longrightarrow> is_word (bytes_of k)"
proof -
  have "list_all (\<lambda>k. k \<noteq> ''END IF'' \<longrightarrow> is_word (bytes_of k)) statement_words" by code_simp
  then show "k \<in> set statement_words \<Longrightarrow> k \<noteq> ''END IF'' \<Longrightarrow> is_word (bytes_of k)" by (simp add: list_all_iff)
qed

lemma kw_here: "kw p k = (if word_here (bytes_of k) p \<and> \<not> is_suffix_char (at (drop (length (bytes_of k)) p)) \<and> length (bytes_of k) \<le> length p then Some (drop (length (bytes_of k)) p) else None)"
  by (auto simp: kw_def source_keyword_def word_here_def Let_def)

lemma end_if_end: "kw p ''END IF'' \<noteq> None \<Longrightarrow> kw p ''END'' \<noteq> None"
proof -
  have e: "bytes_of ''END IF'' = [0x45, 0x4E, 0x44, 0x20, 0x49, 0x46]" "bytes_of ''END'' = [0x45, 0x4E, 0x44]" by code_simp+
  have b: "tolower8 c = tolower8 0x20 \<Longrightarrow> c = 0x20" for c
  proof -
    have "list_all (\<lambda>n. tolower8 (of_nat n) = tolower8 0x20 \<longrightarrow> (of_nat n :: u8) = 0x20) [0..<256]" by code_simp
    then have "tolower8 c = tolower8 0x20 \<longrightarrow> c = 0x20" by (rule all_u8)
    then show "tolower8 c = tolower8 0x20 \<Longrightarrow> c = 0x20" by blast
  qed
  assume "kw p ''END IF'' \<noteq> None"
  then have n: "same_name (take 6 p) [0x45, 0x4E, 0x44, 0x20, 0x49, 0x46]" "6 \<le> length p"
    by (auto simp: kw_here word_here_def e eval_nat_numeral split: if_splits)
  then obtain a1 a2 a3 a4 q where p: "p = a1 # a2 # a3 # a4 # q"
    by (auto simp: Suc_le_length_iff numeral_eq_Suc)
  have "tolower8 a4 = tolower8 0x20" using n p by (simp add: same_name_def)
  then have "a4 = 0x20" by (rule b)
  then show "kw p ''END'' \<noteq> None" using n p by (simp add: kw_here word_here_def e same_name_def is_suffix_char_def)
qed

text \<open>A text that begins with a word.\<close>

lemma takes_word:
  assumes "list_all isnamechar w" "breaks t" "\<not> is_suffix_char (at t)" "\<not> same_name w (bytes_of ''END'')" "\<not> same_name w (bytes_of ''ON'')"
  shows "k \<in> set statement_words \<Longrightarrow> takes (w @ t) k = same_name w (bytes_of k)"
    "is_word (bytes_of k) \<Longrightarrow> kw (w @ t) k = (if same_name w (bytes_of k) then Some t else None)"
proof -
  show k: "kw (w @ t) k = (if same_name w (bytes_of k) then Some t else None)" if "is_word (bytes_of k)" for k
    using word_here_word [OF that assms(1,2)] same_name_length [of w "bytes_of k"] assms(3) by (auto simp: kw_here)
  show "takes (w @ t) k = same_name w (bytes_of k)" if "k \<in> set statement_words"
  proof (cases "k = ''END IF''")
    case True
    have "is_word (bytes_of ''END'')" by code_simp
    then have "kw (w @ t) ''END'' = None" using k assms(4) by simp
    then have "kw (w @ t) ''END IF'' = None" using end_if_end by blast
    moreover have "\<not> same_name w (bytes_of ''END IF'')"
    proof
      assume n: "same_name w (bytes_of ''END IF'')"
      have e: "bytes_of ''END IF'' = [0x45, 0x4E, 0x44, 0x20, 0x49, 0x46]" by code_simp
      have "\<not> isnamechar (w ! 3)" 
        using same_name_nth [OF n, of 3] isnamechar_tolower [of "w ! 3"] isnamechar_tolower [of "0x20"] by (simp add: e)
      then show False using assms(1) same_name_length [OF n] by (simp add: e list_all_length)
    qed
    ultimately show ?thesis using True by (simp add: takes_def)
  next
    case False
    then show ?thesis using k [OF words_ok [OF that False]] assms(5) by (auto simp: takes_def)
  qed
qed

lemma statement_here:
  assumes "list_all isnamechar w" "w \<noteq> []" "breaks t" "\<not> is_suffix_char (at t)" "\<not> same_name w (bytes_of ''END'')" "\<not> same_name w (bytes_of ''ON'')"
    and "find (\<lambda>k. same_name w (bytes_of k)) statement_words = Some k" "map_of (statement_table S) k = Some f"
  shows "find_statement S (w @ t) = Some (f, t)"
proof -
  have "at (w @ t) \<noteq> 0x3F" using assms(1,2) by (cases w) (auto simp: isnamechar_def isalnum8_def isalpha8_def isdigit8_def)
  note f = find_statement_words [OF this, of S]
  have "find (takes (w @ t)) statement_words = find (\<lambda>k. same_name w (bytes_of k)) statement_words"
    using takes_word(1) [OF assms(1,3-6)] by (intro List.find_cong) auto
  moreover have k: "k \<in> set statement_words" "same_name w (bytes_of k)" using assms(7) by (auto simp: find_Some_iff)
  moreover have "kw (w @ t) k = Some t"
  proof -
    have "takes (w @ t) k" using takes_word(1) [OF assms(1,3-6) k(1)] k(2) by simp
    then obtain q where q: "kw (w @ t) k = Some q" by (auto simp: takes_def split: option.splits)
    have "length (bytes_of k) = length w" using same_name_length [OF k(2)] by simp
    then show ?thesis using q by (simp add: kw_here split: if_splits)
  qed
  ultimately show ?thesis using f assms(7,8) by simp
qed
lemma keyword_entries:
  "find (\<lambda>k. same_name (bytes_of ''IF'') (bytes_of k)) statement_words = Some ''IF''" "map_of (statement_table S) ''IF'' = Some (source_compile_if S)"
  "find (\<lambda>k. same_name (bytes_of ''ELSE'') (bytes_of k)) statement_words = Some ''ELSE''" "map_of (statement_table S) ''ELSE'' = Some (else_stmt S)"
  "find (\<lambda>k. same_name (bytes_of ''ENDIF'') (bytes_of k)) statement_words = Some ''ENDIF''" "map_of (statement_table S) ''ENDIF'' = Some (closing source_compile_endif)"
  "find (\<lambda>k. same_name (bytes_of ''DO'') (bytes_of k)) statement_words = Some ''DO''" "map_of (statement_table S) ''DO'' = Some (plain source_compile_do)"
  "find (\<lambda>k. same_name (bytes_of ''LOOP'') (bytes_of k)) statement_words = Some ''LOOP''" "map_of (statement_table S) ''LOOP'' = Some source_compile_loop"
  by (code_simp, simp add: statement_table_def device_table_def control_table_def)+

definition stop_word :: "cstr \<Rightarrow> bool" where
  "stop_word w \<longleftrightarrow> list_all isnamechar w \<and> w \<noteq> [] \<and> \<not> same_name w (bytes_of ''END'') \<and> \<not> same_name w (bytes_of ''ON'')"

lemma keyword_statements:
  assumes "breaks t" "\<not> is_suffix_char (at t)"
  shows "find_statement S (bytes_of ''IF'' @ t) = Some (source_compile_if S, t)" "find_statement S (bytes_of ''ELSE'' @ t) = Some (else_stmt S, t)"
    "find_statement S (bytes_of ''ENDIF'' @ t) = Some (closing source_compile_endif, t)" "find_statement S (bytes_of ''DO'' @ t) = Some (plain source_compile_do, t)"
    "find_statement S (bytes_of ''LOOP'' @ t) = Some (source_compile_loop, t)"
proof -
  have w: "list_all (\<lambda>w. stop_word (bytes_of w)) [''IF'', ''ELSE'', ''ENDIF'', ''DO'', ''LOOP'']" by code_simp
  have s: "find_statement S (bytes_of w @ t) = Some (f, t)"
    if "stop_word (bytes_of w)" "find (\<lambda>k. same_name (bytes_of w) (bytes_of k)) statement_words = Some w" "map_of (statement_table S) w = Some f" for w f
    using that statement_here [OF _ _ assms, of "bytes_of w" w S f] by (simp add: stop_word_def)
  show "find_statement S (bytes_of ''IF'' @ t) = Some (source_compile_if S, t)" "find_statement S (bytes_of ''ELSE'' @ t) = Some (else_stmt S, t)"
    "find_statement S (bytes_of ''ENDIF'' @ t) = Some (closing source_compile_endif, t)" "find_statement S (bytes_of ''DO'' @ t) = Some (plain source_compile_do, t)"
    "find_statement S (bytes_of ''LOOP'' @ t) = Some (source_compile_loop, t)"
    using w s keyword_entries by simp_all
qed

text \<open>The rooms a line needs.\<close>

definition line_room :: "BCCompiler \<Rightarrow> nat \<Rightarrow> bool" where
  "line_room cs n \<longleftrightarrow> \<not> has_error cs \<and> length (linemap cs) < BC_MAX_LINEMAP \<and> length (code cs) + 3 + n \<le> BC_MAX_CODE"

lemma statement_plain:
  assumes "plain_line l" "plain_fe fe" "subfuns cs = []"
  shows "statement_at (Suc n) fe cs l =
    (case find_statement (statement_at n) l of
       Some (f, q) \<Rightarrow> run_statement f fe cs q
     | None \<Rightarrow> (case name_statement fe cs l of
          Some r \<Rightarrow> r | None \<Rightarrow> Some (fe, emit_bridge_cmd fe (''Unsupported source command near: '' @ cstr_string (take 24 l)) cs l)))"
proof -
  have l: "list_all calm l" "isnamestart (at l)" using assms(1) by (simp_all add: plain_line_def)
  have sk: "source_skip_space l = l" using start_chars [OF l(2)] skip_none by blast
  have lb: "source_try_register_label cs l = (cs, None)" by (simp add: source_try_register_label_def calm_label [OF l(1)])
  show ?thesis using plain_line_bridge [OF assms] by (simp add: statement_over_def sk lb Let_def split: option.split)
qed

lemma begun_fields [simp]:
  "has_error (begun ln cs) = has_error cs" "subfuns (begun ln cs) = subfuns cs" "code (begun ln cs) = code cs @ assemble [line_mark ln]"
  "nest_stack (begun ln cs) = nest_stack cs" "setting fe \<Gamma> V (begun ln cs) = setting fe \<Gamma> V cs" "error_msg (begun ln cs) = error_msg cs"
  "linemap (begun ln cs) = linemap cs @ [\<lparr>lm_lineno = word_of_int ln, lm_offset = here cs\<rparr>]" "current_subfun (begun ln cs) = current_subfun cs"
  by (simp_all add: begun_def put_def setting_cong)

lemma line_of_keyword:
  assumes "plain_line l" "plain_fe fe" "subfuns cs = []" "line_room cs n" "find_statement (statement_at (length l)) l = Some (f, q)"
  shows "source_compile_line fe cs l = run_statement f fe (begun (line_no fe) cs) q"
  using assms line_opens [OF assms(1-3)] statement_plain [OF assms(1,2), of "begun (line_no fe) cs" "length l"] by (simp add: line_room_def del: statement_at.simps)

lemma line_of_name:
  assumes "plain_line l" "plain_fe fe" "subfuns cs = []" "line_room cs n" "find_statement (statement_at (length l)) l = None"
    "name_statement fe (begun (line_no fe) cs) l = Some r"
  shows "source_compile_line fe cs l = r"
  using assms line_opens [OF assms(1-3)] statement_plain [OF assms(1,2), of "begun (line_no fe) cs" "length l"] by (simp add: line_room_def del: statement_at.simps)

section \<open>Names\<close>

text \<open>Variables: no word the line compilers look for; assigned variables: no statement begins with the name.\<close>

definition free_name :: "cstr \<Rightarrow> bool" where
  "free_name x \<longleftrightarrow> \<not> list_ex (\<lambda>k. same_name (name_body x) (bytes_of k)) [''THEN'', ''CTRLVAL'']"

definition target_ok :: "frontend \<Rightarrow> cstr \<Rightarrow> bool" where
  "target_ok fe x \<longleftrightarrow> \<not> list_ex (\<lambda>k. same_name (name_body x) (bytes_of k)) (''PIN'' # ''REM'' # statement_words) \<and> \<not> source_name_is_command fe (name_body x)"

lemma words_free: "is_word (bytes_of ''THEN'')" "is_word (bytes_of ''CTRLVAL'')" "is_word (bytes_of ''REM'')"
  "\<not> list_ex (\<lambda>w. same_name w (bytes_of ''THEN'')) op_words" "\<not> list_ex (\<lambda>w. same_name w (bytes_of ''CTRLVAL'')) op_words"
  by code_simp+

lemma free_lacks: "\<forall>x \<in> vars e. free_name x \<Longrightarrow> lacks (bytes_of ''THEN'') e \<and> lacks (bytes_of ''CTRLVAL'') e"
  using words_free by (simp add: lacks_def free_name_def)
text \<open>The texts of the lines.\<close>

lemma name_word_here:
  assumes "plain_name fe x" "is_word k" "breaks rest"
  shows "word_here k (x @ rest) \<longleftrightarrow> same_name (name_body x) k"
proof (rule name_parts [OF assms(1)])
  fix t assume t: "x = name_body x @ t" "t = [] \<or> (\<exists>c. t = [c] \<and> is_suffix_char c)" "list_all isnamechar (name_body x)"
  have "breaks (t @ rest)" using t(2) assms(3) suffix_breaks by auto
  then have "word_here k (name_body x @ (t @ rest)) \<longleftrightarrow> same_name (name_body x) k" by (rule word_here_word [OF assms(2) t(3)])
  then show ?thesis by (subst t(1)) simp
qed

lemma exp_no_word:
  "literals_ok e \<Longrightarrow> \<forall>x \<in> vars e. plain_name fe x \<Longrightarrow> lacks k e \<Longrightarrow> find_word k False (print_exp e) = None"
  using find_word_exp [of e fe k "[]"] by simp

definition exp_text_ok :: "frontend \<Rightarrow> exp \<Rightarrow> bool" where
  "exp_text_ok fe e \<longleftrightarrow> literals_ok e \<and> (\<forall>x \<in> vars e. plain_name fe x \<and> free_name x)"

lemma exp_text:
  assumes "exp_text_ok fe e"
  shows "list_all calm (print_exp e)" "find_word (bytes_of ''CTRLVAL'') False (print_exp e) = None"
    "find_word (bytes_of ''THEN'') False (print_exp e @ 0x20 # t) = find_word (bytes_of ''THEN'') False t"
    "find_word (bytes_of ''CTRLVAL'') False (print_exp e @ 0x20 # t) = find_word (bytes_of ''CTRLVAL'') False t"
proof -
  have l: "lacks (bytes_of ''THEN'') e" "lacks (bytes_of ''CTRLVAL'') e" "literals_ok e" "\<forall>x \<in> vars e. plain_name fe x"
    using assms free_lacks by (auto simp: exp_text_ok_def)
  show "list_all calm (print_exp e)" using calm_exp l by blast
  show "find_word (bytes_of ''CTRLVAL'') False (print_exp e) = None" using exp_no_word l by blast
  show "find_word (bytes_of ''THEN'') False (print_exp e @ 0x20 # t) = find_word (bytes_of ''THEN'') False t"
    using find_word_exp [OF l(3,4,1), of "0x20 # t"] words_free(1) by (simp add: word_here_break)
  show "find_word (bytes_of ''CTRLVAL'') False (print_exp e @ 0x20 # t) = find_word (bytes_of ''CTRLVAL'') False t"
    using find_word_exp [OF l(3,4,2), of "0x20 # t"] words_free(2) by (simp add: word_here_break)
qed

lemma let_line_plain:
  assumes "exp_text_ok fe e" "plain_name fe x" "free_name x" "target_ok fe x" "length (let_line x e) \<le> STRINGSIZE"
  shows "plain_line (let_line x e)" "find_statement S (let_line x e) = None"
proof -
  let ?t = "0x20 # 0x3D # 0x20 # print_exp e"
  have l: "let_line x e = x @ ?t" by (simp add: let_line_def)
  have x: "x \<noteq> []" "isnamestart (hd x)" using assms(2) by (simp_all add: plain_name_def)
  have w: "\<not> word_here (bytes_of k) (x @ ?t)" if "is_word (bytes_of k)" "\<not> same_name (name_body x) (bytes_of k)" for k
    using name_word_here [OF assms(2) that(1), of ?t] that(2) by simp
  have c: "find_word (bytes_of ''CTRLVAL'') False (x @ ?t) = None"
    using find_word_name [OF assms(2) words_free(2), of ?t] assms(3) exp_text(2) [OF assms(1)] words_free(2) by (simp add: free_name_def word_here_break)
  show pl: "plain_line (let_line x e)"
    using assms(4,5) calm_name [OF assms(2)] exp_text(1) [OF assms(1)] x c w [OF words_free(3)]
    by (simp add: plain_line_def l at_append target_ok_def)
  have k: "kw (x @ ?t) k = None" if "k \<in> set statement_words" "k \<noteq> ''END IF''" for k
  proof -
    have "\<not> same_name (name_body x) (bytes_of k)" using assms(4) that(1) by (auto simp: target_ok_def list_ex_iff)
    then show ?thesis using w words_ok [OF that] by (simp add: kw_here)
  qed
  have "''END'' \<in> set statement_words" by (simp add: statement_words_def)
  then have "kw (x @ ?t) ''END IF'' = None" using k end_if_end by fastforce
  then have "kw (x @ ?t) k = None" if "k \<in> set statement_words" for k using k that by (cases "k = ''END IF''") auto
  then have "\<forall>k \<in> set statement_words. \<not> takes (x @ ?t) k" by (simp add: takes_def)
  then have "find (takes (x @ ?t)) statement_words = None" by (simp add: find_None_iff)
  moreover have "at (x @ ?t) \<noteq> 0x3F" using x start_chars by (simp add: at_append)
  ultimately show "find_statement S (let_line x e) = None" using find_statement_words by (simp add: l)
qed

lemma word_line_plain:
  assumes "is_word w" "list_all calm t" "breaks t" "length (w @ t) \<le> STRINGSIZE" "find_word (bytes_of ''CTRLVAL'') False t = None"
    "\<not> same_name w (bytes_of ''CTRLVAL'')" "\<not> same_name w (bytes_of ''REM'')"
  shows "plain_line (w @ t)"
proof -
  note w = is_wordD [OF assms(1)]
  have "list_all calm w" using w(2) by (auto simp: list_all_iff)
  moreover have "isnamestart (at (w @ t))" using assms(1) by (cases w) (simp_all add: is_word_def isnamestart_def)
  moreover have "find_word (bytes_of ''CTRLVAL'') False (w @ t) = None"
    using find_word_pass [OF words_free(2) w(2) assms(3,6)] assms(5) by simp
  moreover have "\<not> word_here (bytes_of ''REM'') (w @ t)" using word_here_word [OF words_free(3) w(2) assms(3)] assms(7) by simp
  ultimately show ?thesis using assms by (simp add: plain_line_def)
qed

lemma keyword_lines_plain:
  assumes "exp_text_ok fe e"
  shows "length (if_line e) \<le> STRINGSIZE \<Longrightarrow> plain_line (if_line e)" "plain_line (bytes_of ''ELSE'')" "plain_line (bytes_of ''ENDIF'')"
    "length (while_line e) \<le> STRINGSIZE \<Longrightarrow> plain_line (while_line e)" "plain_line (bytes_of ''LOOP'')" "plain_line (bytes_of ''DO'')"
    "length (until_line e) \<le> STRINGSIZE \<Longrightarrow> plain_line (until_line e)"
proof -
  note e = exp_text [OF assms]
  let ?ok = "\<lambda>w. is_word (bytes_of w) \<and> \<not> same_name (bytes_of w) (bytes_of ''CTRLVAL'') \<and> \<not> same_name (bytes_of w) (bytes_of ''REM'')"
  have w: "?ok ''IF''" "?ok ''DO''" "?ok ''LOOP''" by code_simp+
  have b: "bytes_of ''IF '' = bytes_of ''IF'' @ [0x20]" "bytes_of ''DO WHILE '' = bytes_of ''DO'' @ 0x20 # bytes_of ''WHILE'' @ [0x20]"
    "bytes_of ''LOOP UNTIL '' = bytes_of ''LOOP'' @ 0x20 # bytes_of ''UNTIL'' @ [0x20]" "bytes_of '' THEN'' = 0x20 # bytes_of ''THEN''" by code_simp+
  have c: "list_all calm (bytes_of ''THEN'')" "list_all calm (bytes_of ''WHILE'')" "list_all calm (bytes_of ''UNTIL'')"
    "find_word (bytes_of ''CTRLVAL'') False (bytes_of ''THEN'') = None" by code_simp+
  have f: "find_word (bytes_of ''CTRLVAL'') False (bytes_of v @ 0x20 # t) = find_word (bytes_of ''CTRLVAL'') False t"
    if "is_word (bytes_of v)" "\<not> same_name (bytes_of v) (bytes_of ''CTRLVAL'')" for v t
    using find_word_pass [OF words_free(2) is_wordD(2) [OF that(1)] _ that(2), of "0x20 # t"] words_free(2) by (simp add: word_here_break)
  have v: "?ok ''WHILE''" "?ok ''UNTIL''" by code_simp+
  note n = word_here_break [OF words_free(2)]
  show "plain_line (bytes_of ''ELSE'')" "plain_line (bytes_of ''ENDIF'')" "plain_line (bytes_of ''LOOP'')" "plain_line (bytes_of ''DO'')" by code_simp+
  show "length (if_line e) \<le> STRINGSIZE \<Longrightarrow> plain_line (if_line e)"
    using word_line_plain [of "bytes_of ''IF''" "0x20 # print_exp e @ 0x20 # bytes_of ''THEN''"] w e c n by (simp add: if_line_def b)
  show "length (while_line e) \<le> STRINGSIZE \<Longrightarrow> plain_line (while_line e)"
    using word_line_plain [of "bytes_of ''DO''" "0x20 # bytes_of ''WHILE'' @ 0x20 # print_exp e"] w e c n f v by (simp add: while_line_def b)
  show "length (until_line e) \<le> STRINGSIZE \<Longrightarrow> plain_line (until_line e)"
    using word_line_plain [of "bytes_of ''LOOP''" "0x20 # bytes_of ''UNTIL'' @ 0x20 # print_exp e"] w e c n f v by (simp add: until_line_def b)
qed
section \<open>Assignments on a line\<close>

lemma run_plain: "f fe (source_parse_expression fe) cs q = Some (cs', []) \<Longrightarrow> run_statement (plain f) fe cs q = Some (fe, cs')"
  by (simp add: run_statement_def plain_def source_statement_end_def source_skip_space_def at_def)

lemma run_front: "f fe cs q = Some (fe', cs', []) \<Longrightarrow> run_statement f fe cs q = Some (fe', cs')"
  by (simp add: run_statement_def source_statement_end_def source_skip_space_def at_def)

lemma setting_text: "setting fe \<Gamma> V cs \<Longrightarrow> vars e \<subseteq> V \<Longrightarrow> literals_ok e \<Longrightarrow> \<forall>x \<in> V. free_name x \<Longrightarrow> exp_text_ok fe e"
  using setting_var(1) by (fastforce simp: exp_text_ok_def)

lemma name_let:
  assumes "plain_name fe x" "target_ok fe x"
  shows "name_statement fe cs (let_line x e) = Some (run_statement (plain source_compile_assignment) fe cs (let_line x e))"
proof -
  let ?t = "0x20 # 0x3D # 0x20 # print_exp e"
  have l: "let_line x e = x @ ?t" by (simp add: let_line_def)
  have pv: "source_parse_varname (x @ ?t) = Some (x, if is_suffix_char (last x) then bc_type_from_suffix (last x) else 0, ?t)"
    by (rule parse_plain_varname [OF assms(1)]) simp
  have x: "x \<noteq> []" "isnamestart (hd x)" using assms(1) by (simp_all add: plain_name_def)
  have n: "(if (if is_suffix_char (last x) then bc_type_from_suffix (last x) else 0) \<noteq> 0 then butlast x else x) = name_body x"
    using suffix_type [of "last x"] by (simp add: name_body_def)
  have s: "source_skip_space ?t = 0x3D # 0x20 # print_exp e" by (simp add: source_skip_space_def)
  show ?thesis
    using assms(2) x n unfolding l name_statement_def pv
    by (simp add: s at_append target_ok_def Let_def)
qed

lemma line_let:
  assumes "setting fe \<Gamma> V cs" "plain_fe fe" "x \<in> V" "vars e \<subseteq> V" "fits 7 e" "literals_ok e" "\<forall>x \<in> V. free_name x" "target_ok fe x"
    and "length (let_line x e) \<le> STRINGSIZE" "line_room cs (code_need e + 4)"
  shows "source_compile_line fe cs (let_line x e) = Some (fe, put (begun (line_no fe) cs) (let_code (opt_level fe) \<Gamma> x e))"
proof -
  note t = setting_text [OF assms(1,4,6,7)] and p = setting_var(1) [OF assms(1,3)]
  have f: "free_name x" using assms(3,7) by blast
  have sf: "subfuns cs = []" using assms(1) by (simp add: setting_def)
  note l = let_line_plain [OF t p f assms(8,9)]
  have pin: "\<not> same_name x (bytes_of ''PIN'')"
  proof
    assume "same_name x (bytes_of ''PIN'')"
    moreover have "is_word (bytes_of ''PIN'')" by code_simp
    ultimately have "word_here (bytes_of ''PIN'') (x @ [])" by (simp add: word_here_def same_name_length at_def isnamechar_def isalnum8_def isalpha8_def isdigit8_def)
    then have "same_name (name_body x) (bytes_of ''PIN'')" using name_word_here [OF p \<open>is_word _\<close>, of "[]"] by simp
    then show False using assms(8) by (simp add: target_ok_def)
  qed
  have "source_compile_assignment fe (source_parse_expression fe) (begun (line_no fe) cs) (let_line x e) =
      Some (put (begun (line_no fe) cs) (let_code (opt_level fe) \<Gamma> x e), [])"
    using assms by (intro let_compiles [OF _ assms(3-6) pin]) (simp_all add: line_room_def)
  then show ?thesis
    using line_of_name [OF l(1) assms(2) sf assms(10) l(2) name_let [OF p assms(8)]] run_plain [where f = source_compile_assignment] by simp
qed

section \<open>Branches on a line\<close>

lemma plain_hint [simp]: "plain_fe fe \<Longrightarrow> fe\<lparr>ctrlval_numeric_hint := False\<rparr> = fe" "plain_fe fe \<Longrightarrow> fe\<lparr>fast_next_loop := False\<rparr> = fe"
  by (simp_all add: plain_fe_def)

lemma quiet_blank [simp]: "stops [0x20]" "quiet 7 [0x20]"
  by (simp_all add: stops_def quiet_def source_skip_space_def at_def mul_op_def shift_op_at_def bool_op_at_def keyword_start
      source_match_compare_def source_keyword_def same_name_def)

lemma statement_ends [simp]: "source_statement_end cs [] = cs" "source_statement_end cs [0x20] = cs"
  by (simp_all add: source_statement_end_def source_skip_space_def at_def)

lemma parse_condition:
  assumes "setting fe \<Gamma> V cs" "vars e \<subseteq> V" "fits 7 e" "literals_ok e" "length (code cs) + code_need e \<le> BC_MAX_CODE" "rest \<in> {[], [0x20]}"
  shows "source_parse_expression fe cs (0x20 # print_exp e @ rest) = (type_code (etype \<Gamma> e), put cs (comp (opt_level fe) \<Gamma> e), rest)"
    "\<not> type_code (etype \<Gamma> e) = T_STR"
proof -
  have "ready fe \<Gamma> cs e" by (rule setting_ready [OF assms(1,2,4)]) (use assms(5) in simp)
  then show "source_parse_expression fe cs (0x20 # print_exp e @ rest) = (type_code (etype \<Gamma> e), put cs (comp (opt_level fe) \<Gamma> e), rest)"
    using parse_print [OF assms(3), of fe \<Gamma> cs "[0x20]" rest] assms(6) by (auto simp: is_blank_def)
  have "etype \<Gamma> e \<in> {TI, TF}" using etype_numeric setting_well_typed [OF assms(1,2)] by blast
  then show "\<not> type_code (etype \<Gamma> e) = T_STR" by (auto simp: T_INT_def T_NBR_def T_STR_def)
qed

lemma split_then:
  assumes "exp_text_ok fe e" "length (print_exp e) + 2 \<le> STRINGSIZE"
  shows "split_if (0x20 # print_exp e @ bytes_of '' THEN'') = Some (0x20 # print_exp e @ [0x20], [])"
proof -
  have b: "bytes_of '' THEN'' = 0x20 # bytes_of ''THEN''" "length (bytes_of ''THEN'') = 4" by code_simp+
  have c: "list_all calm (bytes_of ''THEN'')" by code_simp
  have "find_word (bytes_of ''THEN'') False (bytes_of ''THEN'') = Some (bytes_of ''THEN'')" by code_simp
  then have "find_word (bytes_of ''THEN'') False (0x20 # print_exp e @ 0x20 # bytes_of ''THEN'') = Some (bytes_of ''THEN'')"
    using exp_text(3) [OF assms(1)] word_here_break [OF words_free(1)] by simp
  then have "source_find_keyword_outside_string (0x20 # print_exp e @ bytes_of '' THEN'') ''THEN'' = Some (bytes_of ''THEN'')"
    using find_kw_word exp_text(1) [OF assms(1)] c by (simp add: source_find_keyword_outside_string_def b del: find_kw.simps)
  then show ?thesis using assms(2) by (simp add: split_if_def b Let_def)
qed
lemma condition_text:
  assumes "exp_text_ok fe e" "plain_fe fe"
  shows "condition fe cs (0x20 # print_exp e @ [0x20]) = source_parse_expression fe cs (0x20 # print_exp e @ [0x20])"
proof -
  have "find_word (bytes_of ''CTRLVAL'') False (0x20 # print_exp e @ [0x20]) = None"
    using exp_text(4) [OF assms(1), of "[]"] word_here_break [OF words_free(2)] by simp
  then have "\<not> source_stmt_contains_ctrlval_call (0x20 # print_exp e @ [0x20])"
    using exp_text(1) [OF assms(1)] no_ctrlval_call [of "0x20 # print_exp e @ [0x20]"] by simp
  then show ?thesis using assms(2) by (simp add: condition_def)
qed

text \<open>An entry of the nesting stack on top.\<close>

definition nested :: "BCNestEntry \<Rightarrow> BCCompiler \<Rightarrow> BCCompiler" where
  "nested e cs = cs\<lparr>nest_stack := nest_stack cs @ [e]\<rparr>"

definition open_if :: "u32 \<Rightarrow> BCNestEntry" where
  "open_if a = (nest_zero NEST_IF)\<lparr>ne_addr1 := a, ne_addr2 := no_addr\<rparr>"

definition open_do :: "u32 \<Rightarrow> u32 \<Rightarrow> BCNestEntry" where
  "open_do a b = (nest_zero NEST_DO)\<lparr>ne_addr1 := a, ne_addr2 := b\<rparr>"

lemma nested_open: "length (nest_stack cs) < BC_MAX_NEST \<Longrightarrow> nest_open ty f cs = nested (f (nest_zero ty)) cs"
  by (simp add: nest_open_def bc_nest_push_def bc_nest_top_def set_entry_def nested_def)

lemma nested_put: "nested e (put cs is) = put (nested e cs) is"
  by (simp add: nested_def put_def)

lemma put_fields [simp]:
  "nest_stack (put cs is) = nest_stack cs" "linemap (put cs is) = linemap cs" "error_msg (put cs is) = error_msg cs" "subfuns (put cs is) = subfuns cs"
  "current_subfun (put cs is) = current_subfun cs"
  by (simp_all add: put_def)

lemma nested_fields [simp]:
  "has_error (nested e cs) = has_error cs" "code (nested e cs) = code cs" "setting fe \<Gamma> V (nested e cs) = setting fe \<Gamma> V cs" "linemap (nested e cs) = linemap cs"
  "nest_stack (nested e cs) = nest_stack cs @ [e]"
  by (simp_all add: nested_def setting_cong)

lemma nest_top_nested [simp]:
  "bc_nest_top (nested e cs) = Some (length (nest_stack cs))" "top_is (nested e cs) ty = (if ne_type e = ty then Some (length (nest_stack cs)) else None)"
  "ne_type e = ty \<Longrightarrow> bc_nest_find (nested e cs) ty = Some (length (nest_stack cs))" "set_entry (length (nest_stack cs)) f (nested e cs) = nested (f e) cs"
  by (simp_all add: nested_def bc_nest_top_def top_is_def bc_nest_find_def set_entry_def)

lemma kw_same: "is_word (bytes_of k) \<Longrightarrow> breaks t \<Longrightarrow> \<not> is_suffix_char (at t) \<Longrightarrow> kw (bytes_of k @ t) k = Some t"
  using word_here_word [of "bytes_of k" "bytes_of k" t] is_wordD(2) by (simp add: kw_here)

lemma not_suffix [simp]: "\<not> is_suffix_char 0" "\<not> is_suffix_char 0x20"
  by (simp_all add: is_suffix_char_def)

lemma line_if:
  assumes "setting fe \<Gamma> V cs" "plain_fe fe" "vars e \<subseteq> V" "fits 7 e" "literals_ok e" "\<forall>x \<in> V. free_name x" "branch_ok (opt_level fe) \<Gamma> e"
    and "length (if_line e) \<le> STRINGSIZE" "line_room cs (code_need e + 4)" "length (nest_stack cs) < BC_MAX_NEST"
  shows "source_compile_line fe cs (if_line e) =
    Some (fe, nested (open_if (of_nat (length (code cs) + 3 + length (jump_head (opt_level fe) \<Gamma> e)))) (put (begun (line_no fe) cs) (jump_unless (opt_level fe) \<Gamma> e 0)))"
proof -
  note t = setting_text [OF assms(1,3,5,6)]
  have sf: "subfuns cs = []" using assms(1) by (simp add: setting_def)
  let ?q = "0x20 # print_exp e @ bytes_of '' THEN''" and ?b = "begun (line_no fe) cs" and ?lvl = "opt_level fe"
  have b: "bytes_of ''IF '' = bytes_of ''IF'' @ [0x20]" "length (bytes_of '' THEN'') = 5" "length (bytes_of ''IF '') = 3" by code_simp+
  have l: "if_line e = bytes_of ''IF'' @ ?q" by (simp add: if_line_def b(1))
  have f: "find_statement S (if_line e) = Some (source_compile_if S, ?q)" for S
    unfolding l by (rule keyword_statements) simp_all
  have room: "length (code ?b) + code_need e + 4 \<le> BC_MAX_CODE" "\<not> has_error ?b" using assms(9) by (simp_all add: line_room_def)
  have len: "length (assemble (comp ?lvl \<Gamma> e)) \<le> code_need e" by (rule code_len)
  have E: "condition fe ?b (0x20 # print_exp e @ [0x20]) = (type_code (etype \<Gamma> e), put ?b (comp ?lvl \<Gamma> e), [0x20])" "type_code (etype \<Gamma> e) \<noteq> T_STR"
    using parse_condition [of fe \<Gamma> V ?b e "[0x20]"] condition_text [OF t assms(2)] assms(1,3-5) room by simp_all
  have j: "source_emit_jmp_placeholder ?lvl (put ?b (comp ?lvl \<Gamma> e)) OP_JZ =
      (put ?b (jump_unless ?lvl \<Gamma> e 0), of_nat (length (code ?b) + length (jump_head ?lvl \<Gamma> e)))"
    by (rule emit_placeholder) (use room len assms(7) in linarith)+
  have sp: "split_if ?q = Some (0x20 # print_exp e @ [0x20], [])"
    by (rule split_then [OF t]) (use assms(8) in \<open>simp add: if_line_def b\<close>)
  have "source_compile_if S fe ?b ?q =
      Some (fe, nested (open_if (of_nat (length (code ?b) + length (jump_head ?lvl \<Gamma> e)))) (put ?b (jump_unless ?lvl \<Gamma> e 0)), [])" for S
    using room(2) E j assms(10)
    by (simp add: source_compile_if_def sp nested_open open_if_def source_line_empty_or_comment_def source_skip_space_def at_def)
  then have "run_statement (source_compile_if (statement_at (length (if_line e)))) fe ?b ?q =
      Some (fe, nested (open_if (of_nat (length (code ?b) + length (jump_head ?lvl \<Gamma> e)))) (put ?b (jump_unless ?lvl \<Gamma> e 0)))"
    by (rule run_front)
  then show ?thesis
    using line_of_keyword [OF keyword_lines_plain(1) [OF t assms(8)] assms(2) sf assms(9) f] by (simp add: line_mark_def)
qed

end
