(* ===== verification/ProgLines.thy ===== *)
theory ProgLines
  imports ProgText
begin

text \<open>
  The line compiler on structured programs: what each line does to the code, the table of lines and the nesting
  stack, and by induction over the tree, what a whole program leaves behind.
\<close>

section \<open>Single lines\<close>

lemma numeric_condition: "setting fe \<Gamma> V cs \<Longrightarrow> vars e \<subseteq> V \<Longrightarrow> no_string w (type_code (etype \<Gamma> e)) c = c"
  using etype_numeric setting_well_typed by (fastforce simp: no_string_def T_INT_def T_NBR_def T_STR_def)

lemma line_while:
  assumes "setting fe \<Gamma> V cs" "plain_fe fe" "vars e \<subseteq> V" "fits 7 e" "literals_ok e" "\<forall>x \<in> V. free_name x" "branch_ok (opt_level fe) \<Gamma> e"
    and "length (while_line e) \<le> STRINGSIZE" "line_room cs (code_need e + 4)" "length (nest_stack cs) < BC_MAX_NEST"
  shows "source_compile_line fe cs (while_line e) =
    Some (fe, nested (open_do (of_nat (length (code cs) + 3)) (of_nat (length (code cs) + 3 + length (jump_head (opt_level fe) \<Gamma> e))))
      (put (begun (line_no fe) cs) (jump_unless (opt_level fe) \<Gamma> e 0)))"
proof -
  note t = setting_text [OF assms(1,3,5,6)]
  have sf: "subfuns cs = []" using assms(1) by (simp add: setting_def)
  let ?q = "0x20 # bytes_of ''WHILE'' @ 0x20 # print_exp e" and ?b = "begun (line_no fe) cs" and ?lvl = "opt_level fe"
  have b: "bytes_of ''DO WHILE '' = bytes_of ''DO'' @ 0x20 # bytes_of ''WHILE'' @ [0x20]" "is_word (bytes_of ''WHILE'')" by code_simp+
  have l: "while_line e = bytes_of ''DO'' @ ?q" by (simp add: while_line_def b(1))
  have f: "find_statement S (while_line e) = Some (plain source_compile_do, ?q)" for S
    unfolding l by (rule keyword_statements) simp_all
  let ?c = "nested (open_do (here ?b) no_addr) ?b"
  have room: "length (code ?c) + code_need e + 4 \<le> BC_MAX_CODE" "\<not> has_error ?c" using assms(9) by (simp_all add: line_room_def)
  have len: "length (assemble (comp ?lvl \<Gamma> e)) \<le> code_need e" by (rule code_len)
  have E: "source_parse_expression fe ?c (0x20 # print_exp e) = (type_code (etype \<Gamma> e), put ?c (comp ?lvl \<Gamma> e), [])"
    using parse_condition(1) [of fe \<Gamma> V ?c e "[]"] assms(1,3-5) room by simp
  have j: "source_emit_jmp_placeholder ?lvl (put ?c (comp ?lvl \<Gamma> e)) OP_JZ =
      (put ?c (jump_unless ?lvl \<Gamma> e 0), of_nat (length (code ?c) + length (jump_head ?lvl \<Gamma> e)))"
    by (rule emit_placeholder) (use room len assms(7) in linarith)+
  have sk: "source_skip_space ?q = bytes_of ''WHILE'' @ 0x20 # print_exp e" using b(2) by (simp add: source_skip_space_def bytes_of_def)
  have k: "kw (bytes_of ''WHILE'' @ 0x20 # print_exp e) ''WHILE'' = Some (0x20 # print_exp e)" by (rule kw_same [OF b(2)]) simp_all
  have n: "nest_open NEST_DO (\<lambda>e. e\<lparr>ne_addr1 := here ?b, ne_addr2 := no_addr\<rparr>) ?b = ?c" using assms(10) by (simp add: nested_open open_do_def)
  have a: "set_entry (length (nest_stack ?b)) f (put (nested x ?b) is) = put (nested (f x) ?b) is" for f x "is"
    by (simp add: set_entry_def nested_def put_def)
  have "source_compile_do fe (source_parse_expression fe) ?b ?q =
      Some (put (nested (open_do (here ?b) (of_nat (length (code ?b) + length (jump_head ?lvl \<Gamma> e)))) ?b) (jump_unless ?lvl \<Gamma> e 0), [])"
    using E j a numeric_condition [OF assms(1,3)] by (simp add: source_compile_do_def do_cond_def sk k n open_do_def)
  then have "run_statement (plain source_compile_do) fe ?b ?q =
      Some (fe, put (nested (open_do (here ?b) (of_nat (length (code ?b) + length (jump_head ?lvl \<Gamma> e)))) ?b) (jump_unless ?lvl \<Gamma> e 0))"
    by (rule run_plain [where f = source_compile_do])
  then show ?thesis
    using line_of_keyword [OF keyword_lines_plain(4) [OF t assms(8)] assms(2) sf assms(9) f] by (simp add: line_mark_def nested_put here_def)
qed

lemma plain_keyword_lines: "plain_line (bytes_of ''ELSE'')" "plain_line (bytes_of ''ENDIF'')" "plain_line (bytes_of ''LOOP'')" "plain_line (bytes_of ''DO'')"
  by code_simp+

lemma keyword_alone:
  "find_statement S (bytes_of ''ELSE'') = Some (else_stmt S, [])" "find_statement S (bytes_of ''ENDIF'') = Some (closing source_compile_endif, [])"
  "find_statement S (bytes_of ''DO'') = Some (plain source_compile_do, [])" "find_statement S (bytes_of ''LOOP'') = Some (source_compile_loop, [])"
  using keyword_statements [of "[]" S] by (simp_all add: at_def)

lemma kw_nothing [simp]: "kw [] k = (if bytes_of k = [] then Some [] else None)"
  by (simp add: kw_def source_keyword_def at_def same_name_def)

lemma line_do:
  assumes "subfuns cs = []" "plain_fe fe" "line_room cs n" "length (nest_stack cs) < BC_MAX_NEST"
  shows "source_compile_line fe cs (bytes_of ''DO'') = Some (fe, nested (open_do (of_nat (length (code cs) + 3)) no_addr) (begun (line_no fe) cs))"
proof -
  let ?b = "begun (line_no fe) cs"
  have w: "bytes_of ''WHILE'' \<noteq> []" "bytes_of ''UNTIL'' \<noteq> []" by code_simp+
  have "source_compile_do fe (source_parse_expression fe) ?b [] = Some (nested (open_do (here ?b) no_addr) ?b, [])"
    using assms(4) w by (simp add: source_compile_do_def source_skip_space_def nested_open open_do_def)
  then have "run_statement (plain source_compile_do) fe ?b [] = Some (fe, nested (open_do (here ?b) no_addr) ?b)"
    by (rule run_plain [where f = source_compile_do])
  then show ?thesis
    using line_of_keyword [OF plain_keyword_lines(4) assms(2,1,3) keyword_alone(3)] by (simp add: here_def line_mark_def)
qed
text \<open>An \<open>IF\<close> entry behind \<open>ELSE\<close>: one jump waits for the end.\<close>

definition open_else :: "u32 \<Rightarrow> BCNestEntry" where
  "open_else a = (nest_zero NEST_IF)\<lparr>ne_addr1 := no_addr, ne_addr2 := no_addr, ne_exit_fixups := [a], ne_has_else := 1\<rparr>"

lemma max_code: "BC_MAX_CODE < 2 ^ 31"
  by (simp add: BC_MAX_CODE_def)

lemma some_addr: "n < 2 ^ 31 \<Longrightarrow> of_nat n \<noteq> no_addr"
proof
  assume "n < 2 ^ 31" "of_nat n = no_addr"
  then have "n = unat no_addr" using unat_small by metis
  then show False using \<open>n < 2 ^ 31\<close> by (simp add: no_addr_def)
qed

lemma begun_nested: "begun ln (nested e cs) = nested e (begun ln cs)"
  by (simp add: begun_def nested_def put_def here_def)

lemma pop_nested: "bc_nest_pop (nested e cs) = cs"
  by (simp add: bc_nest_pop_def nested_def)

lemma nested_code: "(nested e cs)\<lparr>code := b\<rparr> = nested e (cs\<lparr>code := b\<rparr>)"
  by (simp add: nested_def)

lemma put_inside: "put (nested e cs) is = nested e (put cs is)"
  by (simp add: nested_def put_def)

lemma fill_nested:
  assumes "code cs = pre @ e16 w @ post" "length (code cs) \<le> BC_MAX_CODE"
  shows "source_patch_jmp_here (nested e cs) (of_nat (length pre)) = Some (nested e (cs\<lparr>code := pre @ e16 (word_of_int (int (length post))) @ post\<rparr>))"
  using fill_in [of "nested e cs" pre w post] assms max_code by (simp add: nested_code)

lemma add_exit_nested: "add_exit (length (nest_stack c)) a (nested e c) = nested (if length (ne_exit_fixups e) < 64 then e\<lparr>ne_exit_fixups := ne_exit_fixups e @ [a]\<rparr> else e) c"
  unfolding add_exit_def nest_top_nested(4) by simp

lemma top_entry [simp]: "(nest_stack cs @ [e]) ! length (nest_stack cs) = e"
  by simp

lemma line_else:
  assumes "subfuns c = []" "plain_fe fe" "line_room c 3" "code c = pre @ e16 w @ A"
  shows "source_compile_line fe (nested (open_if (of_nat (length pre))) c) (bytes_of ''ELSE'') =
    Some (fe, nested (open_else (of_nat (length pre + length A + 6)))
      ((begun (line_no fe) c)\<lparr>code := pre @ e16 (word_of_int (int (length A) + 6)) @ A @ assemble [line_mark (line_no fe), jump_by 0]\<rparr>))"
proof -
  define a where "a = (of_nat (length pre + length A + 6) :: u32)"
  define top where "top = open_if (of_nat (length pre))"
  define B where "B = A @ assemble [line_mark (line_no fe), jump_by 0]"
  define b where "b = begun (line_no fe) c"
  define c1 where "c1 = put b [jump_by 0]"
  define c2 where "c2 = c1\<lparr>code := pre @ e16 (word_of_int (int (length B))) @ B\<rparr>"
  have ns: "nest_stack b = nest_stack c" "nest_stack c1 = nest_stack c" "nest_stack c2 = nest_stack c" by (simp_all add: b_def c1_def c2_def)
  have room: "length (code b) + 3 \<le> BC_MAX_CODE" using assms(3) by (simp add: line_room_def b_def line_mark_def)
  have lb: "length (code b) = length pre + length A + 5" using assms(4) by (simp add: line_mark_def b_def)
  have lB: "int (length B) = int (length A) + 6" by (simp add: B_def line_mark_def jump_by_def)
  have j: "source_emit_jmp_placeholder (opt_level fe) (nested top b) OP_JMP = (nested top c1, a)"
    using emit_jmp(1) [of "nested top b" "opt_level fe"] room lb by (simp add: put_inside c1_def a_def ac_simps)
  have x: "add_exit (length (nest_stack c)) a (nested top c1) = nested (top\<lparr>ne_exit_fixups := [a]\<rparr>) c1"
    using add_exit_nested [of c1] by (simp add: ns top_def open_if_def nest_zero_def)
  have f: "source_patch_jmp_here (nested (top\<lparr>ne_exit_fixups := [a]\<rparr>) c1) (of_nat (length pre)) = Some (nested (top\<lparr>ne_exit_fixups := [a]\<rparr>) c2)"
    unfolding c2_def by (rule fill_nested [of _ pre w]) (use assms(4) room in \<open>simp_all add: c1_def b_def B_def jump_by_def\<close>)
  have pa: "ne_addr1 top = of_nat (length pre)" "of_nat (length pre) \<noteq> no_addr"
    using some_addr [of "length pre"] room lb max_code by (simp_all add: top_def open_if_def)
  have "end_branch (opt_level fe) (length (nest_stack c)) (nested top b) = Some (nested (top\<lparr>ne_exit_fixups := [a]\<rparr>) c2)"
    using f pa ns top_entry [of c1 top] by (simp add: end_branch_def j x patch_if_def)
  moreover have "set_entry (length (nest_stack c)) f (nested y c2) = nested (f y) c2" for f y
    using nest_top_nested(4) [of c2] ns by simp
  moreover have "top_is (nested top b) NEST_IF = Some (length (nest_stack c))" by (simp add: ns top_def open_if_def nest_zero_def)
  ultimately have "source_compile_else fe (nested top b) [] = Some (nested (open_else a) c2, [])"
    by (simp add: source_compile_else_def source_skip_space_def top_def open_if_def open_else_def nest_zero_def)
  then have "else_stmt S fe (nested top b) [] = Some (fe, nested (open_else a) c2, [])" for S
    by (simp add: else_stmt_def source_skip_space_def plain_def bytes_of_def)
  then have r: "run_statement (else_stmt S) fe (nested top b) [] = Some (fe, nested (open_else a) c2)" for S
    by (rule run_front)
  have lr: "subfuns (nested top c) = []" "line_room (nested top c) 3" using assms(1,3) by (simp_all add: nested_def line_room_def)
  have c2: "c2 = (begun (line_no fe) c)\<lparr>code := pre @ e16 (word_of_int (int (length A) + 6)) @ A @ assemble [line_mark (line_no fe), jump_by 0]\<rparr>"
    unfolding c2_def lB by (simp add: c1_def b_def B_def put_def)
  show ?thesis
    using line_of_keyword [OF plain_keyword_lines(1) assms(2) lr keyword_alone(1)] r
    unfolding top_def [symmetric] a_def [symmetric] c2 [symmetric] by (simp only: begun_nested b_def)
qed

lemma line_endif:
  assumes "subfuns c = []" "plain_fe fe" "line_room c 0" "code c = pre @ e16 w @ B"
  shows "source_compile_line fe (nested (open_else (of_nat (length pre))) c) (bytes_of ''ENDIF'') =
    Some (fe, (begun (line_no fe) c)\<lparr>code := pre @ e16 (word_of_int (int (length B) + 3)) @ B @ assemble [line_mark (line_no fe)]\<rparr>)"
proof -
  define top where "top = open_else (of_nat (length pre))"
  define b where "b = begun (line_no fe) c"
  define C where "C = B @ assemble [line_mark (line_no fe)]"
  define c2 where "c2 = b\<lparr>code := pre @ e16 (word_of_int (int (length C))) @ C\<rparr>"
  have ns: "nest_stack b = nest_stack c" by (simp add: b_def)
  have room: "length (code b) \<le> BC_MAX_CODE" using assms(3) by (simp add: line_room_def b_def line_mark_def)
  have f: "source_patch_jmp_here (nested top b) (of_nat (length pre)) = Some (nested top c2)"
    unfolding c2_def by (rule fill_nested [of _ pre w]) (use assms(4) room in \<open>simp_all add: b_def C_def\<close>)
  have e: "ne_addr1 top = no_addr" "ne_exit_fixups top = [of_nat (length pre)]" "ne_type top = NEST_IF"
    by (simp_all add: top_def open_else_def nest_zero_def)
  have "source_compile_endif (nested top b) = Some c2"
    using f top_entry [of b top] by (simp add: source_compile_endif_def e patch_if_def pop_nested ns)
  then have "closing source_compile_endif fe (nested top b) [] = Some (fe, c2, [])" by (simp add: closing_def)
  then have r: "run_statement (closing source_compile_endif) fe (nested top b) [] = Some (fe, c2)" by (rule run_front)
  have lr: "subfuns (nested top c) = []" "line_room (nested top c) 0" using assms(1,3) by (simp_all add: nested_def line_room_def)
  have lC: "int (length C) = int (length B) + 3" by (simp add: C_def line_mark_def)
  have c2: "c2 = (begun (line_no fe) c)\<lparr>code := pre @ e16 (word_of_int (int (length B) + 3)) @ B @ assemble [line_mark (line_no fe)]\<rparr>"
    unfolding c2_def lC by (simp add: b_def C_def)
  show ?thesis
    using line_of_keyword [OF plain_keyword_lines(2) assms(2) lr keyword_alone(2)] r
    unfolding top_def [symmetric] c2 [symmetric] by (simp only: begun_nested b_def)
qed

text \<open>A loop at the top level is never converted for the register machine; the attempt leaves only its line.\<close>

lemma no_fast_loop:
  assumes "current_subfun cs < 0" "\<not> has_error cs" "error_msg cs = []"
  shows "\<exists>el. try_fast False t cs = Some (cs\<lparr>error_line := el\<rparr>)"
proof -
  have "nlocals (fc_init cs n) = 0" for n using assms(1) by (simp add: fc_init_def)
  then have "\<exists>msg. source_convert_fast_loop cs (unat t) = Some (bc_set_error cs msg, False)" by (auto simp: source_convert_fast_loop_def Let_def)
  then obtain msg where "source_convert_fast_loop cs (unat t) = Some (bc_set_error cs msg, False)" by blast
  then have "try_fast False t cs = Some (cs\<lparr>error_line := cs_line cs\<rparr>)" using assms by (cases cs) (simp add: try_fast_def bc_set_error_def)
  then show ?thesis by blast
qed

lemma find_do:
  "ne_type e = NEST_DO \<Longrightarrow> (case bc_nest_find (nested e cs) NEST_DO of Some i \<Rightarrow> Some i | None \<Rightarrow> bc_nest_find (nested e cs) NEST_WHILE) = Some (length (nest_stack cs))"
  by simp

lemma nested_inner [simp]:
  "current_subfun (nested e cs) = current_subfun cs" "error_msg (nested e cs) = error_msg cs" "subfuns (nested e cs) = subfuns cs"
  by (simp_all add: nested_def)

lemma line_loop:
  assumes "subfuns c = []" "current_subfun c < 0" "error_msg c = []" "plain_fe fe" "line_room c 3" "code c = pre @ e16 w @ C"
    and "int start = int (length (code c)) + 6 + k"
  shows "\<exists>el. source_compile_line fe (nested (open_do (of_nat start) (of_nat (length pre))) c) (bytes_of ''LOOP'') =
    Some (fe, (begun (line_no fe) c)\<lparr>code := pre @ e16 (word_of_int (int (length C) + 6)) @ C @ assemble [line_mark (line_no fe), jump_by k], error_line := el\<rparr>)"
proof -
  define top where "top = open_do (of_nat start) (of_nat (length pre))"
  define b where "b = begun (line_no fe) c"
  define D where "D = C @ assemble [line_mark (line_no fe), jump_by k]"
  define c1 where "c1 = put b [jump_by k]"
  define c2 where "c2 = c1\<lparr>code := pre @ e16 (word_of_int (int (length D))) @ D\<rparr>"
  have ns: "nest_stack b = nest_stack c" by (simp add: b_def)
  have room: "length (code b) + 3 \<le> BC_MAX_CODE" "\<not> has_error b" using assms(5) by (simp_all add: line_room_def b_def line_mark_def)
  have lb: "length (code b) = length (code c) + 3" by (simp add: line_mark_def b_def)
  have e: "ne_addr1 top = of_nat start" "ne_addr2 top = of_nat (length pre)" "ne_type top = NEST_DO" "ne_exit_fixups top = []" "ne_continue_fixups top = []"
    by (simp_all add: top_def open_do_def nest_zero_def)
  have "(of_nat start :: u32) = word_of_int (int start)" by simp
  also have "\<dots> = word_of_int (int (length (code (nested top b))) + 3 + k)" using assms(7) lb by (simp only: nested_fields) (simp add: algebra_simps)
  finally have j: "jmp_back (nested top b) (of_nat start) = nested top c1"
    using emit_jmp(2) [of "nested top b" "of_nat start" k] room by (simp add: put_inside c1_def)
  have f: "source_patch_jmp_here (nested top c1) (of_nat (length pre)) = Some (nested top c2)"
    unfolding c2_def by (rule fill_nested [of _ pre w]) (use assms(6) room in \<open>simp_all add: c1_def b_def D_def jump_by_def\<close>)
  have pa: "of_nat (length pre) \<noteq> no_addr" using some_addr [of "length pre"] room assms(6) lb max_code by simp
  have wd: "bytes_of ''WHILE'' \<noteq> []" "bytes_of ''UNTIL'' \<noteq> []" by code_simp+
  have lj: "loop_jump fe E top (nested top b) [] = (nested top c1, [])" for E using wd by (simp add: loop_jump_def e j)
  obtain el where el: "try_fast False (of_nat start) c2 = Some (c2\<lparr>error_line := el\<rparr>)"
    using no_fast_loop [of c2] assms(2,3) room(2) by (auto simp: c2_def c1_def b_def)
  have fn: "\<not> fast_next_loop fe" using assms(4) by (simp add: plain_fe_def)
  have "source_compile_loop fe (nested top b) [] = Some (fe, c2\<lparr>error_line := el\<rparr>, [])"
    using f pa el fn assms(4) find_do [of top b] e top_entry [of b top]
    by (simp add: source_compile_loop_def source_skip_space_def lj patch_if_def pop_nested Let_def)
  then have r: "run_statement source_compile_loop fe (nested top b) [] = Some (fe, c2\<lparr>error_line := el\<rparr>)" by (rule run_front)
  have lr: "subfuns (nested top c) = []" "line_room (nested top c) 3" using assms(1,5) by (simp_all add: line_room_def)
  have lD: "int (length D) = int (length C) + 6" by (simp add: D_def line_mark_def jump_by_def)
  have c2: "c2 = (begun (line_no fe) c)\<lparr>code := pre @ e16 (word_of_int (int (length C) + 6)) @ C @ assemble [line_mark (line_no fe), jump_by k]\<rparr>"
    unfolding c2_def lD by (simp add: c1_def b_def D_def put_def)
  show ?thesis
    using line_of_keyword [OF plain_keyword_lines(3) assms(4) lr keyword_alone(4)] r
    unfolding top_def [symmetric] c2 [symmetric] by (auto simp only: begun_nested b_def)
qed

lemma line_until:
  assumes "setting fe \<Gamma> V c" "plain_fe fe" "vars e \<subseteq> V" "fits 7 e" "literals_ok e" "\<forall>x \<in> V. free_name x" "branch_ok (opt_level fe) \<Gamma> e"
    and "length (until_line e) \<le> STRINGSIZE" "line_room c (code_need e + 4)"
    and "int start = int (length (code c)) + 3 + cond_size (opt_level fe) \<Gamma> e + k"
  shows "\<exists>el. source_compile_line fe (nested (open_do (of_nat start) no_addr) c) (until_line e) =
    Some (fe, (put (begun (line_no fe) c) (jump_unless (opt_level fe) \<Gamma> e k))\<lparr>error_line := el\<rparr>)"
proof -
  define top where "top = open_do (of_nat start) no_addr"
  define b where "b = begun (line_no fe) c"
  note t = setting_text [OF assms(1,3,5,6)]
  have s: "subfuns c = []" "current_subfun c < 0" "error_msg c = []" using assms(1) by (simp_all add: setting_def)
  let ?q = "0x20 # bytes_of ''UNTIL'' @ 0x20 # print_exp e" and ?lvl = "opt_level fe"
  have bb: "bytes_of ''LOOP UNTIL '' = bytes_of ''LOOP'' @ 0x20 # bytes_of ''UNTIL'' @ [0x20]" "is_word (bytes_of ''UNTIL'')" by code_simp+
  have l: "until_line e = bytes_of ''LOOP'' @ ?q" by (simp add: until_line_def bb(1))
  have f: "find_statement S (until_line e) = Some (source_compile_loop, ?q)" for S
    unfolding l by (rule keyword_statements) simp_all
  have room: "length (code (nested top b)) + code_need e + 4 \<le> BC_MAX_CODE" "\<not> has_error (nested top b)"
    using assms(9) by (simp_all add: line_room_def b_def)
  have len: "length (assemble (comp ?lvl \<Gamma> e)) \<le> code_need e" by (rule code_len)
  have ns: "nest_stack b = nest_stack c" by (simp add: b_def)
  have st: "setting fe \<Gamma> V (nested top b)" using assms(1) by (simp add: b_def)
  have E: "source_parse_expression fe (nested top b) (0x20 # print_exp e) = (type_code (etype \<Gamma> e), put (nested top b) (comp ?lvl \<Gamma> e), [])"
    using parse_condition(1) [OF st assms(3-5), of "[]"] room by simp
  have j: "source_emit_rel_jump ?lvl (put (nested top b) (comp ?lvl \<Gamma> e)) OP_JZ (of_nat start) = put (nested top b) (jump_unless ?lvl \<Gamma> e k)"
  proof (rule emit_jump_back)
    have "(of_nat start :: u32) = word_of_int (int start)" by simp
    also have "\<dots> = word_of_int (int (length (code (nested top b))) + cond_size ?lvl \<Gamma> e + k)"
      using assms(10) by (simp only: nested_fields) (simp add: b_def line_mark_def algebra_simps)
    finally show "(of_nat start :: u32) = word_of_int (int (length (code (nested top b))) + cond_size ?lvl \<Gamma> e + k)" .
  qed (use room len assms(7) in linarith)+
  have sk: "source_skip_space ?q = bytes_of ''UNTIL'' @ 0x20 # print_exp e" by (simp add: source_skip_space_def bytes_of_def)
  have k: "kw (bytes_of ''UNTIL'' @ 0x20 # print_exp e) ''UNTIL'' = Some (0x20 # print_exp e)" by (rule kw_same [OF bb(2)]) simp_all
  have nk: "kw (bytes_of ''UNTIL'' @ 0x20 # print_exp e) ''WHILE'' = None"
    by (simp add: kw_here word_here_def bytes_of_def same_name_def tolower8_def)
  have e: "ne_addr1 top = of_nat start" "ne_addr2 top = no_addr" "ne_type top = NEST_DO" "ne_exit_fixups top = []" "ne_continue_fixups top = []"
    by (simp_all add: top_def open_do_def nest_zero_def)
  have lj: "loop_jump fe (source_parse_expression fe) top (nested top b) (bytes_of ''UNTIL'' @ 0x20 # print_exp e) =
      (put (nested top b) (jump_unless ?lvl \<Gamma> e k), [])"
    using E j numeric_condition [OF assms(1,3)] by (simp add: loop_jump_def e k nk loop_cond_def)
  obtain el where el: "try_fast False (of_nat start) (put b (jump_unless ?lvl \<Gamma> e k)) = Some ((put b (jump_unless ?lvl \<Gamma> e k))\<lparr>error_line := el\<rparr>)"
    using no_fast_loop [of "put b (jump_unless ?lvl \<Gamma> e k)"] s room(2) by (auto simp: b_def)
  have fn: "\<not> fast_next_loop fe" using assms(2) by (simp add: plain_fe_def)
  have "source_compile_loop fe (nested top b) ?q = Some (fe, (put b (jump_unless ?lvl \<Gamma> e k))\<lparr>error_line := el\<rparr>, [])"
    using el fn assms(2) find_do [of top b] e top_entry [of b top]
    by (simp add: source_compile_loop_def sk lj patch_if_def put_inside pop_nested Let_def)
  then have r: "run_statement source_compile_loop fe (nested top b) ?q = Some (fe, (put b (jump_unless ?lvl \<Gamma> e k))\<lparr>error_line := el\<rparr>)" by (rule run_front)
  have lr: "subfuns (nested top c) = []" "line_room (nested top c) (code_need e + 4)" using s(1) assms(9) by (simp_all add: line_room_def)
  show ?thesis
    using line_of_keyword [OF keyword_lines_plain(7) [OF t assms(8)] assms(2) lr f] r
    unfolding top_def [symmetric] by (auto simp only: begun_nested b_def)
qed

section \<open>Sequences of lines\<close>

text \<open>What a program leaves: its code, an entry of the line table for every line, the numbers of the last lines.\<close>

definition grown :: "nat \<Rightarrow> BCCompiler \<Rightarrow> u8 list \<Rightarrow> BCCompiler \<Rightarrow> bool" where
  "grown n cs bs cs' \<longleftrightarrow>
     (\<exists>cl lm el. length lm = n \<and> cs' = cs\<lparr>code := code cs @ bs, cs_line := cl, linemap := linemap cs @ lm, error_line := el\<rparr>)"

lemma grown_refl [simp]: "grown 0 cs [] cs"
  unfolding grown_def by (intro exI [of _ "cs_line cs"] exI [of _ "[]"] exI [of _ "error_line cs"]) simp

lemma grown_trans:
  assumes "grown n cs a cs1" "grown k cs1 b cs2"
  shows "grown (n + k) cs (a @ b) cs2"
proof -
  obtain cl lm el where 1: "length lm = n" "cs1 = cs\<lparr>code := code cs @ a, cs_line := cl, linemap := linemap cs @ lm, error_line := el\<rparr>"
    using assms(1) by (auto simp: grown_def)
  obtain cl' lm' el' where 2: "length lm' = k" "cs2 = cs1\<lparr>code := code cs1 @ b, cs_line := cl', linemap := linemap cs1 @ lm', error_line := el'\<rparr>"
    using assms(2) by (auto simp: grown_def)
  have "cs2 = cs\<lparr>code := code cs @ (a @ b), cs_line := cl', linemap := linemap cs @ (lm @ lm'), error_line := el'\<rparr>"
    using 1(2) 2(2) by simp
  then show ?thesis using 1(1) 2(1) unfolding grown_def by (intro exI [of _ cl'] exI [of _ "lm @ lm'"] exI [of _ el']) simp
qed

lemma grown_fields:
  assumes "grown n cs bs cs'"
  shows "code cs' = code cs @ bs" "has_error cs' = has_error cs" "nest_stack cs' = nest_stack cs" "length (linemap cs') = length (linemap cs) + n"
    "subfuns cs' = subfuns cs" "current_subfun cs' = current_subfun cs" "error_msg cs' = error_msg cs" "setting fe \<Gamma> V cs' = setting fe \<Gamma> V cs"
  using assms by (auto simp: grown_def setting_cong)

lemma grown_begun: "grown 1 cs (assemble [line_mark ln]) (begun ln cs)"
proof -
  have "begun ln cs = cs\<lparr>code := code cs @ assemble [line_mark ln], cs_line := word_of_int ln,
      linemap := linemap cs @ [\<lparr>lm_lineno = word_of_int ln, lm_offset = here cs\<rparr>], error_line := error_line cs\<rparr>"
    by (cases cs) (simp add: begun_def put_def here_def)
  then show ?thesis unfolding grown_def
    by (intro exI [of _ "word_of_int ln"] exI [of _ "[\<lparr>lm_lineno = word_of_int ln, lm_offset = here cs\<rparr>]"] exI [of _ "error_line cs"]) simp
qed

lemma grown_code: "grown n cs a cs' \<Longrightarrow> bs = code cs @ b \<Longrightarrow> grown n cs b (cs'\<lparr>code := bs\<rparr>)"
  unfolding grown_def
proof (elim exE conjE)
  fix cl lm el assume "length lm = n" "bs = code cs @ b" "cs' = cs\<lparr>code := code cs @ a, cs_line := cl, linemap := linemap cs @ lm, error_line := el\<rparr>"
  then show "\<exists>cl lm el. length lm = n \<and> cs'\<lparr>code := bs\<rparr> = cs\<lparr>code := code cs @ b, cs_line := cl, linemap := linemap cs @ lm, error_line := el\<rparr>"
    by (intro exI [of _ cl] exI [of _ lm] exI [of _ el]) simp
qed

lemma grown_put: "grown n cs a cs' \<Longrightarrow> grown n cs (a @ assemble is) (put cs' is)"
  unfolding put_def by (rule grown_code) (simp_all add: grown_fields)

lemma grown_error_line: "grown n cs a cs' \<Longrightarrow> grown n cs a (cs'\<lparr>error_line := l\<rparr>)"
  unfolding grown_def
proof (elim exE conjE)
  fix cl lm el assume "length lm = n" "cs' = cs\<lparr>code := code cs @ a, cs_line := cl, linemap := linemap cs @ lm, error_line := el\<rparr>"
  then show "\<exists>cl lm el. length lm = n \<and> cs'\<lparr>error_line := l\<rparr> = cs\<lparr>code := code cs @ a, cs_line := cl, linemap := linemap cs @ lm, error_line := el\<rparr>"
    by (intro exI [of _ cl] exI [of _ lm] exI [of _ l]) simp
qed

lemma grown_nested: "grown n (nested e c) bs x \<Longrightarrow> \<exists>c'. x = nested e c' \<and> grown n c bs c'"
proof -
  assume "grown n (nested e c) bs x"
  then obtain cl lm el where g: "length lm = n"
      "x = (nested e c)\<lparr>code := code c @ bs, cs_line := cl, linemap := linemap c @ lm, error_line := el\<rparr>" by (auto simp: grown_def)
  have "x = nested e (c\<lparr>code := code c @ bs, cs_line := cl, linemap := linemap c @ lm, error_line := el\<rparr>)"
    unfolding g(2) by (cases c) (simp add: nested_def)
  then show ?thesis using g(1) unfolding grown_def by blast
qed

text \<open>Lines with the numbers of a file, compiled one after the other.\<close>

fun numbered :: "int \<Rightarrow> cstr list \<Rightarrow> (cstr \<times> int) list" where
  "numbered ln [] = []"
| "numbered ln (l # ls) = (l, ln) # numbered (ln + 1) ls"

lemma numbered_append: "numbered ln (a @ b) = numbered ln a @ numbered (ln + int (length a)) b"
  by (induction a arbitrary: ln) (simp_all add: algebra_simps)

definition compiles :: "frontend \<Rightarrow> cstr list \<Rightarrow> int \<Rightarrow> BCCompiler \<Rightarrow> BCCompiler \<Rightarrow> bool" where
  "compiles fe ls ln cs cs' \<longleftrightarrow> (\<exists>k. compile_lines (numbered ln ls) fe cs = Some (fe\<lparr>line_no := k\<rparr>, cs'))"

lemma compile_lines_append:
  "compile_lines (a @ b) fe cs = Option.bind (compile_lines a fe cs) (\<lambda>(fe1, cs1). compile_lines b fe1 cs1)"
proof (induction a arbitrary: fe cs)
  case (Cons x a)
  obtain l n where x: "x = (l, n)" by (cases x)
  have "has_error cs \<Longrightarrow> compile_lines b fe cs = Some (fe, cs)" by (cases b) auto
  then show ?case using Cons x by (cases "source_compile_line (fe\<lparr>line_no := n\<rparr>) cs l") auto
qed simp

lemma compiles_Nil [simp]: "compiles fe [] ln cs cs"
  unfolding compiles_def by (intro exI [of _ "line_no fe"]) simp

lemma fe_line [simp]: "\<exists>k. fe = fe\<lparr>line_no := k\<rparr>" "\<exists>k. fe\<lparr>line_no := j\<rparr> = fe\<lparr>line_no := k\<rparr>"
proof -
  show "\<exists>k. fe = fe\<lparr>line_no := k\<rparr>" by (rule exI [of _ "line_no fe"]) simp
  show "\<exists>k. fe\<lparr>line_no := j\<rparr> = fe\<lparr>line_no := k\<rparr>" by (rule exI [of _ j]) simp
qed

lemma compiles_line: "compiles (fe\<lparr>line_no := k\<rparr>) ls ln cs cs' = compiles fe ls ln cs cs'"
  by (cases ls) (auto simp: compiles_def)

lemma compiles_append:
  assumes "compiles fe a ln cs cs1" "compiles fe b (ln + int (length a)) cs1 cs2"
  shows "compiles fe (a @ b) ln cs cs2"
proof -
  obtain k where "compile_lines (numbered ln a) fe cs = Some (fe\<lparr>line_no := k\<rparr>, cs1)" using assms(1) by (auto simp: compiles_def)
  moreover have "compiles (fe\<lparr>line_no := k\<rparr>) b (ln + int (length a)) cs1 cs2" using assms(2) by (simp only: compiles_line)
  then obtain j where "compile_lines (numbered (ln + int (length a)) b) (fe\<lparr>line_no := k\<rparr>) cs1 = Some (fe\<lparr>line_no := j\<rparr>, cs2)"
    by (auto simp: compiles_def)
  ultimately show ?thesis unfolding compiles_def by (simp add: numbered_append compile_lines_append)
qed

lemma compiles_one:
  assumes "\<not> has_error cs" "source_compile_line (fe\<lparr>line_no := ln\<rparr>) cs l = Some (fe\<lparr>line_no := ln\<rparr>, cs')"
  shows "compiles fe [l] ln cs cs'"
  unfolding compiles_def by (intro exI [of _ ln]) (simp add: assms)

lemma compiles_Cons: "compiles fe [l] ln cs cs1 \<Longrightarrow> compiles fe ls (ln + 1) cs1 cs2 \<Longrightarrow> compiles fe (l # ls) ln cs cs2"
  using compiles_append [of fe "[l]" ln cs cs1 ls cs2] by simp

section \<open>Programs\<close>

definition exp_ok :: "cstr set \<Rightarrow> exp \<Rightarrow> bool" where
  "exp_ok V e \<longleftrightarrow> fits 7 e \<and> literals_ok e \<and> vars e \<subseteq> V"

definition short :: "cstr \<Rightarrow> bool" where
  "short l \<longleftrightarrow> length l \<le> STRINGSIZE"

fun com_ok :: "frontend \<Rightarrow> scope_env \<Rightarrow> cstr set \<Rightarrow> com \<Rightarrow> bool" where
  "com_ok fe \<Gamma> V C_NOP \<longleftrightarrow> True"
| "com_ok fe \<Gamma> V (C_LET x e) \<longleftrightarrow> x \<in> V \<and> target_ok fe x \<and> exp_ok V e \<and> short (let_line x e)"
| "com_ok fe \<Gamma> V (C_SEQ a b) \<longleftrightarrow> com_ok fe \<Gamma> V a \<and> com_ok fe \<Gamma> V b"
| "com_ok fe \<Gamma> V (C_IF e a b) \<longleftrightarrow> exp_ok V e \<and> branch_ok (opt_level fe) \<Gamma> e \<and> short (if_line e) \<and> com_ok fe \<Gamma> V a \<and> com_ok fe \<Gamma> V b"
| "com_ok fe \<Gamma> V (C_WHILE e c) \<longleftrightarrow> exp_ok V e \<and> branch_ok (opt_level fe) \<Gamma> e \<and> short (while_line e) \<and> com_ok fe \<Gamma> V c"
| "com_ok fe \<Gamma> V (C_UNTIL c e) \<longleftrightarrow> exp_ok V e \<and> branch_ok (opt_level fe) \<Gamma> e \<and> short (until_line e) \<and> com_ok fe \<Gamma> V c"

text \<open>Bytes of code that suffice while the program is compiled, and the depth of its blocks.\<close>

fun com_need :: "com \<Rightarrow> nat" where
  "com_need C_NOP = 0"
| "com_need (C_LET x e) = code_need e + 7"
| "com_need (C_SEQ a b) = com_need a + com_need b"
| "com_need (C_IF e a b) = code_need e + 7 + com_need a + 6 + com_need b + 3"
| "com_need (C_WHILE e c) = code_need e + 7 + com_need c + 6"
| "com_need (C_UNTIL c e) = 3 + com_need c + code_need e + 7"

fun nesting :: "com \<Rightarrow> nat" where
  "nesting C_NOP = 0"
| "nesting (C_LET x e) = 0"
| "nesting (C_SEQ a b) = max (nesting a) (nesting b)"
| "nesting (C_IF e a b) = Suc (max (nesting a) (nesting b))"
| "nesting (C_WHILE e c) = Suc (nesting c)"
| "nesting (C_UNTIL c e) = Suc (nesting c)"

lemma jump_head_len: "length (jump_head lvl \<Gamma> e) \<le> code_need e + 1"
proof -
  have l: "length (assemble (comp lvl \<Gamma> e)) \<le> code_need e" by (rule code_len)
  show ?thesis
  proof (cases "fused_compare lvl e")
    case (Some rab)
    obtain r a b where rab: "rab = (r, a, b)" by (cases rab)
    then have "as_compare e = Some (r, a, b)" using Some by (simp add: fused_compare_def split: if_splits)
    then show ?thesis using compare_code [of e r a b lvl \<Gamma>] l Some rab by (simp add: jump_head_def)
  qed (use l in \<open>simp add: jump_head_def\<close>)
qed

lemma jump_len: "length (assemble (jump_unless lvl \<Gamma> e k)) = length (jump_head lvl \<Gamma> e) + 2"
  by (simp add: assemble_jump)

lemma code_need_pos: "3 \<le> code_need e"
  by (induction e) auto

lemma let_len: "length (assemble (let_code lvl \<Gamma> x e)) \<le> code_need e + 4"
proof (rule let_code_cases [of lvl \<Gamma> e x])
  fix sc n assume "comp lvl \<Gamma> e = [I_LOAD sc (ty_of \<Gamma> x) n]" "1 \<le> lvl"
  then show ?thesis using code_need_pos [of e] by (simp add: let_code_def)
next
  assume "let_code lvl \<Gamma> x e = comp lvl \<Gamma> e @ cvt (etype \<Gamma> e) (ty_of \<Gamma> x) @ [I_STORE Global (ty_of \<Gamma> x) (slot_of \<Gamma> x)]"
  then show ?thesis using code_len [of lvl \<Gamma> e] cvt_len [of "etype \<Gamma> e" "ty_of \<Gamma> x"] by simp
qed

lemma mark_len [simp]: "length (assemble [line_mark ln]) = 3" "length (assemble [jump_by k]) = 3"
  by simp_all

lemma com_need_bound: "length (assemble (com_code lvl \<Gamma> ln c)) \<le> com_need c"
proof (induction c arbitrary: ln)
  case (C_LET x e)
  then show ?case using let_len [of lvl \<Gamma> x e] by simp
next
  case (C_SEQ a b)
  show ?case using add_mono [OF C_SEQ(1) C_SEQ(2)] by (simp add: Let_def)
next
  case (C_IF e a b)
  show ?case using C_IF(1) [of "ln + 1"] C_IF(2) [of "ln + 1 + com_len a + 1"] jump_head_len [of lvl \<Gamma> e] by (simp add: Let_def jump_len)
next
  case (C_WHILE e c)
  show ?case using C_WHILE [of "ln + 1"] jump_head_len [of lvl \<Gamma> e] by (simp add: Let_def jump_len)
next
  case (C_UNTIL c e)
  show ?case using C_UNTIL [of "ln + 1"] jump_head_len [of lvl \<Gamma> e] by (simp add: Let_def jump_len)
qed simp

definition fits_tables :: "frontend \<Rightarrow> scope_env \<Rightarrow> cstr set \<Rightarrow> com \<Rightarrow> BCCompiler \<Rightarrow> bool" where
  "fits_tables fe \<Gamma> V c cs \<longleftrightarrow>
     setting fe \<Gamma> V cs \<and> length (code cs) + com_need c \<le> BC_MAX_CODE \<and> length (linemap cs) + length (com_lines c) \<le> BC_MAX_LINEMAP \<and>
     length (nest_stack cs) + nesting c \<le> BC_MAX_NEST"

definition compiled :: "frontend \<Rightarrow> scope_env \<Rightarrow> int \<Rightarrow> com \<Rightarrow> BCCompiler \<Rightarrow> BCCompiler \<Rightarrow> bool" where
  "compiled fe \<Gamma> ln c cs cs' \<longleftrightarrow>
     compiles fe (com_lines c) ln cs cs' \<and> grown (length (com_lines c)) cs (assemble (com_code (opt_level fe) \<Gamma> ln c)) cs'"

lemma setting_fields: "setting fe \<Gamma> V cs \<Longrightarrow> \<not> has_error cs \<and> subfuns cs = [] \<and> current_subfun cs < 0 \<and> error_msg cs = []"
  by (simp add: setting_def)

lemma target_line [simp]: "target_ok (fe\<lparr>line_no := k\<rparr>) x = target_ok fe x"
  by (simp add: target_ok_def source_name_is_command_def)

lemma setting_line [simp]: "setting (fe\<lparr>line_no := k\<rparr>) \<Gamma> V cs = setting fe \<Gamma> V cs"
  by (simp add: setting_cong)

lemma let_line_compiled:
  assumes "com_ok fe \<Gamma> V (C_LET x e)" "fits_tables fe \<Gamma> V (C_LET x e) cs" "plain_fe fe" "\<forall>x \<in> V. free_name x"
  shows "\<exists>cs'. compiled fe \<Gamma> ln (C_LET x e) cs cs'"
proof -
  let ?cs = "put (begun ln cs) (let_code (opt_level fe) \<Gamma> x e)"
  have s: "setting fe \<Gamma> V cs" using assms(2) by (simp add: fits_tables_def)
  have "source_compile_line (fe\<lparr>line_no := ln\<rparr>) cs (let_line x e) = Some (fe\<lparr>line_no := ln\<rparr>, ?cs)"
    using line_let [of "fe\<lparr>line_no := ln\<rparr>" \<Gamma> V cs x e] assms setting_fields [OF s]
    by (simp add: fits_tables_def exp_ok_def short_def line_room_def)
  then have "compiles fe [let_line x e] ln cs ?cs" using setting_fields [OF s] by (intro compiles_one) simp_all
  moreover have "grown 1 cs (assemble [line_mark ln] @ assemble (let_code (opt_level fe) \<Gamma> x e)) ?cs"
    by (rule grown_put [OF grown_begun])
  ultimately show ?thesis unfolding compiled_def by (intro exI [of _ ?cs]) simp
qed

lemma seq_compiled:
  assumes "fits_tables fe \<Gamma> V (C_SEQ a b) cs"
    and a: "\<And>ln cs. fits_tables fe \<Gamma> V a cs \<Longrightarrow> \<exists>cs'. compiled fe \<Gamma> ln a cs cs'"
    and b: "\<And>ln cs. fits_tables fe \<Gamma> V b cs \<Longrightarrow> \<exists>cs'. compiled fe \<Gamma> ln b cs cs'"
  shows "\<exists>cs'. compiled fe \<Gamma> ln (C_SEQ a b) cs cs'"
proof -
  have "length (nest_stack cs) + nesting (C_SEQ a b) \<le> BC_MAX_NEST" using assms(1) unfolding fits_tables_def by blast
  then have m: "length (nest_stack cs) + nesting a \<le> BC_MAX_NEST" "length (nest_stack cs) + nesting b \<le> BC_MAX_NEST"
    unfolding nesting.simps by linarith+
  have "fits_tables fe \<Gamma> V a cs" using assms(1) m unfolding fits_tables_def by simp
  then obtain cs1 where 1: "compiled fe \<Gamma> ln a cs cs1" using a by blast
  then have g: "grown (length (com_lines a)) cs (assemble (com_code (opt_level fe) \<Gamma> ln a)) cs1" by (simp add: compiled_def)
  have "fits_tables fe \<Gamma> V b cs1"
    using assms(1) m grown_fields [OF g] com_need_bound [of "opt_level fe" \<Gamma> ln a] unfolding fits_tables_def by simp
  then obtain cs2 where 2: "compiled fe \<Gamma> (ln + com_len a) b cs1 cs2" using b by blast
  have "compiled fe \<Gamma> ln (C_SEQ a b) cs cs2"
    using 1 2 compiles_append grown_trans [OF g] unfolding compiled_def by (force simp: Let_def)
  then show ?thesis by blast
qed

text \<open>The statements inside a block, compiled with the block's entry on the stack.\<close>

lemma body_compiled:
  assumes "\<And>ln cs. fits_tables fe \<Gamma> V a cs \<Longrightarrow> \<exists>cs'. compiled fe \<Gamma> ln a cs cs'" "fits_tables fe \<Gamma> V a (nested ent c)"
  obtains c' where "compiles fe (com_lines a) ln (nested ent c) (nested ent c')"
    "grown (length (com_lines a)) c (assemble (com_code (opt_level fe) \<Gamma> ln a)) c'"
proof -
  obtain x where x: "compiled fe \<Gamma> ln a (nested ent c) x" using assms by blast
  then obtain c' where "x = nested ent c'" "grown (length (com_lines a)) c (assemble (com_code (opt_level fe) \<Gamma> ln a)) c'"
    using grown_nested unfolding compiled_def by blast
  then show thesis using that x unfolding compiled_def by blast
qed

lemma while_compiled:
  assumes "com_ok fe \<Gamma> V (C_WHILE e c)" "fits_tables fe \<Gamma> V (C_WHILE e c) cs" "plain_fe fe" "\<forall>x \<in> V. free_name x"
    and body: "\<And>ln cs. fits_tables fe \<Gamma> V c cs \<Longrightarrow> \<exists>cs'. compiled fe \<Gamma> ln c cs cs'"
  shows "\<exists>cs'. compiled fe \<Gamma> ln (C_WHILE e c) cs cs'"
proof -
  let ?lvl = "opt_level fe" and ?fe = "fe\<lparr>line_no := ln\<rparr>"
  define lp where "lp = ln + 1 + com_len c"
  define C where "C = assemble (com_code ?lvl \<Gamma> (ln + 1) c)"
  define pre where "pre = code cs @ assemble [line_mark ln] @ jump_head ?lvl \<Gamma> e"
  define top where "top = open_do (of_nat (length (code cs) + 3)) (of_nat (length pre))"
  define c1 where "c1 = put (begun ln cs) (jump_unless ?lvl \<Gamma> e 0)"
  note f = assms(2) [unfolded fits_tables_def]
  have s: "setting fe \<Gamma> V cs" using f by simp
  note sf = setting_fields [OF s]
  have cond: "vars e \<subseteq> V" "fits 7 e" "literals_ok e" "branch_ok ?lvl \<Gamma> e" "length (while_line e) \<le> STRINGSIZE"
    using assms(1) by (simp_all add: exp_ok_def short_def)
  have lpre: "length pre = length (code cs) + 3 + length (jump_head ?lvl \<Gamma> e)" by (simp add: pre_def)
  have "source_compile_line ?fe cs (while_line e) = Some (?fe, nested top c1)"
    using line_while [of ?fe \<Gamma> V cs e] s assms(3,4) cond f sf by (simp add: line_room_def top_def c1_def lpre)
  then have l1: "compiles fe [while_line e] ln cs (nested top c1)" using sf by (intro compiles_one) simp_all
  have g1: "grown 1 cs (assemble [line_mark ln] @ assemble (jump_unless ?lvl \<Gamma> e 0)) c1" unfolding c1_def by (rule grown_put [OF grown_begun])
  have k1: "code c1 = pre @ e16 (word_of_int 0)" by (simp add: c1_def pre_def assemble_jump)
  have "fits_tables fe \<Gamma> V c (nested top c1)"
    using f grown_fields [OF g1] jump_head_len [of ?lvl \<Gamma> e] by (simp add: fits_tables_def jump_len)
  from body_compiled [OF body this, of "ln + 1"]
  obtain c2 where l2: "compiles fe (com_lines c) (ln + 1) (nested top c1) (nested top c2)" and g2: "grown (length (com_lines c)) c1 C c2"
    unfolding C_def by blast
  have g12: "grown (1 + length (com_lines c)) cs ((assemble [line_mark ln] @ assemble (jump_unless ?lvl \<Gamma> e 0)) @ C) c2"
    by (rule grown_trans [OF g1 g2])
  note s2 = grown_fields [OF g12] and k2 = grown_fields(1) [OF g2, unfolded k1]
  define k where "k = - (cond_size ?lvl \<Gamma> e + int (length C) + 6)"
  have cz: "cond_size ?lvl \<Gamma> e = int (length (jump_head ?lvl \<Gamma> e)) + 2" by (simp add: cond_size_def jump_len)
  have lC: "length C \<le> com_need c" unfolding C_def by (rule com_need_bound)
  have "\<exists>el. source_compile_line (fe\<lparr>line_no := lp\<rparr>) (nested top c2) (bytes_of ''LOOP'') =
    Some (fe\<lparr>line_no := lp\<rparr>, (begun lp c2)\<lparr>code := pre @ e16 (word_of_int (int (length C) + 6)) @ C @ assemble [line_mark lp, jump_by k], error_line := el\<rparr>)"
    using line_loop [of c2 "fe\<lparr>line_no := lp\<rparr>" pre "word_of_int 0" C "length (code cs) + 3" k] sf s2(2,4-7) assms(3) f k2 lC jump_head_len [of ?lvl \<Gamma> e] cz lpre
    by (simp add: line_room_def k_def top_def)
  then obtain el where lo: "source_compile_line (fe\<lparr>line_no := lp\<rparr>) (nested top c2) (bytes_of ''LOOP'') =
    Some (fe\<lparr>line_no := lp\<rparr>, (begun lp c2)\<lparr>code := pre @ e16 (word_of_int (int (length C) + 6)) @ C @ assemble [line_mark lp, jump_by k], error_line := el\<rparr>)" ..
  define c3 where "c3 = (begun lp c2)\<lparr>code := pre @ e16 (word_of_int (int (length C) + 6)) @ C @ assemble [line_mark lp, jump_by k], error_line := el\<rparr>"
  have l3: "compiles fe [bytes_of ''LOOP''] lp (nested top c2) c3" using lo sf s2(2) unfolding c3_def by (intro compiles_one) simp_all
  have g3: "grown (1 + length (com_lines c) + 1) cs (assemble (com_code ?lvl \<Gamma> ln (C_WHILE e c))) c3"
    unfolding c3_def
    by (rule grown_error_line, rule grown_code [OF grown_trans [OF g12 grown_begun]])
      (simp add: pre_def assemble_jump C_def Let_def k_def lp_def)
  have "compiles fe (com_lines (C_WHILE e c)) ln cs c3"
    using compiles_Cons [OF l1 compiles_append [OF l2]] l3 by (simp add: lp_def)
  then have "compiled fe \<Gamma> ln (C_WHILE e c) cs c3" using g3 by (simp add: compiled_def)
  then show ?thesis by blast
qed

lemma until_compiled:
  assumes "com_ok fe \<Gamma> V (C_UNTIL c e)" "fits_tables fe \<Gamma> V (C_UNTIL c e) cs" "plain_fe fe" "\<forall>x \<in> V. free_name x"
    and body: "\<And>ln cs. fits_tables fe \<Gamma> V c cs \<Longrightarrow> \<exists>cs'. compiled fe \<Gamma> ln c cs cs'"
  shows "\<exists>cs'. compiled fe \<Gamma> ln (C_UNTIL c e) cs cs'"
proof -
  let ?lvl = "opt_level fe" and ?fe = "fe\<lparr>line_no := ln\<rparr>"
  define lp where "lp = ln + 1 + com_len c"
  define C where "C = assemble (com_code ?lvl \<Gamma> (ln + 1) c)"
  define top where "top = open_do (of_nat (length (code cs) + 3)) no_addr"
  define c1 where "c1 = begun ln cs"
  note f = assms(2) [unfolded fits_tables_def]
  have s: "setting fe \<Gamma> V cs" using f by simp
  note sf = setting_fields [OF s]
  have cond: "vars e \<subseteq> V" "fits 7 e" "literals_ok e" "branch_ok ?lvl \<Gamma> e" "length (until_line e) \<le> STRINGSIZE"
    using assms(1) by (simp_all add: exp_ok_def short_def)
  have "source_compile_line ?fe cs (bytes_of ''DO'') = Some (?fe, nested top c1)"
    using line_do [of cs ?fe 0] assms(3) f sf by (simp add: line_room_def top_def c1_def)
  then have l1: "compiles fe [bytes_of ''DO''] ln cs (nested top c1)" using sf by (intro compiles_one) simp_all
  have g1: "grown 1 cs (assemble [line_mark ln]) c1" unfolding c1_def by (rule grown_begun)
  have "fits_tables fe \<Gamma> V c (nested top c1)" using f grown_fields [OF g1] by (simp add: fits_tables_def)
  from body_compiled [OF body this, of "ln + 1"]
  obtain c2 where l2: "compiles fe (com_lines c) (ln + 1) (nested top c1) (nested top c2)" and g2: "grown (length (com_lines c)) c1 C c2"
    unfolding C_def by blast
  have g12: "grown (1 + length (com_lines c)) cs (assemble [line_mark ln] @ C) c2" by (rule grown_trans [OF g1 g2])
  note s2 = grown_fields [OF g12]
  define k where "k = - (int (length C) + 3 + cond_size ?lvl \<Gamma> e)"
  have lC: "length C \<le> com_need c" unfolding C_def by (rule com_need_bound)
  have "\<exists>el. source_compile_line (fe\<lparr>line_no := lp\<rparr>) (nested top c2) (until_line e) =
      Some (fe\<lparr>line_no := lp\<rparr>, (put (begun lp c2) (jump_unless ?lvl \<Gamma> e k))\<lparr>error_line := el\<rparr>)"
    using line_until [of "fe\<lparr>line_no := lp\<rparr>" \<Gamma> V c2 e "length (code cs) + 3" k] s assms(3,4) cond s2(1,2,4,8) sf f lC
    by (simp add: line_room_def k_def top_def)
  then obtain el where lo: "source_compile_line (fe\<lparr>line_no := lp\<rparr>) (nested top c2) (until_line e) =
      Some (fe\<lparr>line_no := lp\<rparr>, (put (begun lp c2) (jump_unless ?lvl \<Gamma> e k))\<lparr>error_line := el\<rparr>)" ..
  define c3 where "c3 = (put (begun lp c2) (jump_unless ?lvl \<Gamma> e k))\<lparr>error_line := el\<rparr>"
  have l3: "compiles fe [until_line e] lp (nested top c2) c3" using lo sf s2(2) unfolding c3_def by (intro compiles_one) simp_all
  have "grown (1 + length (com_lines c) + 1) cs (((assemble [line_mark ln] @ C) @ assemble [line_mark lp]) @ assemble (jump_unless ?lvl \<Gamma> e k)) c3"
    unfolding c3_def by (rule grown_error_line, rule grown_put, rule grown_trans [OF g12 grown_begun])
  moreover have "((assemble [line_mark ln] @ C) @ assemble [line_mark lp]) @ assemble (jump_unless ?lvl \<Gamma> e k) = assemble (com_code ?lvl \<Gamma> ln (C_UNTIL c e))"
    by (simp add: C_def Let_def k_def lp_def)
  ultimately have g3: "grown (1 + length (com_lines c) + 1) cs (assemble (com_code ?lvl \<Gamma> ln (C_UNTIL c e))) c3" by simp
  have "compiles fe (com_lines (C_UNTIL c e)) ln cs c3"
    using compiles_Cons [OF l1 compiles_append [OF l2]] l3 by (simp add: lp_def)
  then have "compiled fe \<Gamma> ln (C_UNTIL c e) cs c3" using g3 by (simp add: compiled_def)
  then show ?thesis by blast
qed

lemma if_compiled:
  assumes "com_ok fe \<Gamma> V (C_IF e a b)" "fits_tables fe \<Gamma> V (C_IF e a b) cs" "plain_fe fe" "\<forall>x \<in> V. free_name x"
    and a: "\<And>ln cs. fits_tables fe \<Gamma> V a cs \<Longrightarrow> \<exists>cs'. compiled fe \<Gamma> ln a cs cs'"
    and b: "\<And>ln cs. fits_tables fe \<Gamma> V b cs \<Longrightarrow> \<exists>cs'. compiled fe \<Gamma> ln b cs cs'"
  shows "\<exists>cs'. compiled fe \<Gamma> ln (C_IF e a b) cs cs'"
proof -
  let ?lvl = "opt_level fe" and ?fe = "fe\<lparr>line_no := ln\<rparr>"
  define els where "els = ln + 1 + com_len a"
  define fin where "fin = els + 1 + com_len b"
  define A where "A = assemble (com_code ?lvl \<Gamma> (ln + 1) a)"
  define B where "B = assemble (com_code ?lvl \<Gamma> (els + 1) b)"
  define pre where "pre = code cs @ assemble [line_mark ln] @ jump_head ?lvl \<Gamma> e"
  define top where "top = open_if (of_nat (length pre))"
  define c1 where "c1 = put (begun ln cs) (jump_unless ?lvl \<Gamma> e 0)"
  note f = assms(2) [unfolded fits_tables_def]
  have s: "setting fe \<Gamma> V cs" using f by simp
  note sf = setting_fields [OF s]
  have "length (nest_stack cs) + nesting (C_IF e a b) \<le> BC_MAX_NEST" using f by blast
  then have m: "Suc (length (nest_stack cs) + nesting a) \<le> BC_MAX_NEST" "Suc (length (nest_stack cs) + nesting b) \<le> BC_MAX_NEST"
    unfolding nesting.simps by linarith+
  have cond: "vars e \<subseteq> V" "fits 7 e" "literals_ok e" "branch_ok ?lvl \<Gamma> e" "length (if_line e) \<le> STRINGSIZE"
    using assms(1) by (simp_all add: exp_ok_def short_def)
  have lpre: "length pre = length (code cs) + 3 + length (jump_head ?lvl \<Gamma> e)" by (simp add: pre_def)
  have lA: "length A \<le> com_need a" and lB: "length B \<le> com_need b" unfolding A_def B_def by (rule com_need_bound)+
  have "source_compile_line ?fe cs (if_line e) = Some (?fe, nested top c1)"
    using line_if [of ?fe \<Gamma> V cs e] s assms(3,4) cond f sf by (simp add: line_room_def top_def c1_def lpre)
  then have l1: "compiles fe [if_line e] ln cs (nested top c1)" using sf by (intro compiles_one) simp_all
  have g1: "grown 1 cs (assemble [line_mark ln] @ assemble (jump_unless ?lvl \<Gamma> e 0)) c1" unfolding c1_def by (rule grown_put [OF grown_begun])
  have k1: "code c1 = pre @ e16 (word_of_int 0)" by (simp add: c1_def pre_def assemble_jump)
  have "fits_tables fe \<Gamma> V a (nested top c1)"
    using f m grown_fields [OF g1] jump_head_len [of ?lvl \<Gamma> e] unfolding fits_tables_def by (simp add: jump_len)
  from body_compiled [OF a this, of "ln + 1"]
  obtain c2 where l2: "compiles fe (com_lines a) (ln + 1) (nested top c1) (nested top c2)" and g2: "grown (length (com_lines a)) c1 A c2"
    unfolding A_def by blast
  have g12: "grown (1 + length (com_lines a)) cs ((assemble [line_mark ln] @ assemble (jump_unless ?lvl \<Gamma> e 0)) @ A) c2"
    by (rule grown_trans [OF g1 g2])
  note s2 = grown_fields [OF g12] and k2 = grown_fields(1) [OF g2, unfolded k1]
  define pre2 where "pre2 = pre @ e16 (word_of_int (int (length A) + 6)) @ A @ assemble [line_mark els] @ [OP_JMP]"
  have lpre2: "length pre2 = length pre + length A + 6" by (simp add: pre2_def)
  define top2 where "top2 = open_else (of_nat (length pre2))"
  define c3 where "c3 = (begun els c2)\<lparr>code := pre2 @ e16 (word_of_int 0)\<rparr>"
  have k3: "code c3 = pre2 @ e16 (word_of_int 0)" by (simp add: c3_def)
  have j: "pre2 @ e16 (word_of_int 0) = pre @ e16 (word_of_int (int (length A) + 6)) @ A @ assemble [line_mark els, jump_by 0]"
    by (simp add: pre2_def jump_by_def)
  have "source_compile_line (fe\<lparr>line_no := els\<rparr>) (nested top c2) (bytes_of ''ELSE'') = Some (fe\<lparr>line_no := els\<rparr>, nested top2 c3)"
    using line_else [of c2 "fe\<lparr>line_no := els\<rparr>" pre "word_of_int 0" A] sf s2(2,4,5) assms(3) f k2 lA lpre jump_head_len [of ?lvl \<Gamma> e]
    unfolding top_def top2_def lpre2 c3_def j by (simp add: line_room_def)
  then have l3: "compiles fe [bytes_of ''ELSE''] els (nested top c2) (nested top2 c3)" using sf s2(2) by (intro compiles_one) simp_all
  have g3: "grown (1 + length (com_lines a) + 1) cs (assemble (line_mark ln # jump_unless ?lvl \<Gamma> e (int (length A) + 6)) @ A @ assemble [line_mark els, jump_by 0]) c3"
    unfolding c3_def by (rule grown_code [OF grown_trans [OF g12 grown_begun]]) (simp only: j, simp add: pre_def assemble_jump)
  note s3 = grown_fields [OF g3]
  have "fits_tables fe \<Gamma> V b (nested top2 c3)"
    using f m s s3 jump_head_len [of ?lvl \<Gamma> e] lA unfolding fits_tables_def by (simp add: jump_len)
  from body_compiled [OF b this, of "els + 1"]
  obtain c4 where l4: "compiles fe (com_lines b) (els + 1) (nested top2 c3) (nested top2 c4)" and g4: "grown (length (com_lines b)) c3 B c4"
    unfolding B_def by blast
  note g34 = grown_trans [OF g3 g4]
  note s4 = grown_fields [OF g34] and k4 = grown_fields(1) [OF g4, unfolded k3]
  define c5 where "c5 = (begun fin c4)\<lparr>code := pre2 @ e16 (word_of_int (int (length B) + 3)) @ B @ assemble [line_mark fin]\<rparr>"
  have "source_compile_line (fe\<lparr>line_no := fin\<rparr>) (nested top2 c4) (bytes_of ''ENDIF'') = Some (fe\<lparr>line_no := fin\<rparr>, c5)"
    using line_endif [of c4 "fe\<lparr>line_no := fin\<rparr>" pre2 "word_of_int 0" B] sf s4(2,4,5) assms(3) f k4 lA lB lpre lpre2 jump_head_len [of ?lvl \<Gamma> e]
    unfolding top2_def c5_def by (simp add: line_room_def)
  then have l5: "compiles fe [bytes_of ''ENDIF''] fin (nested top2 c4) c5" using sf s4(2) by (intro compiles_one) simp_all
  have "grown (1 + length (com_lines a) + 1 + length (com_lines b) + 1) cs (assemble (com_code ?lvl \<Gamma> ln (C_IF e a b))) c5"
    unfolding c5_def
    by (rule grown_code [OF grown_trans [OF g34 grown_begun]]) (simp add: pre2_def pre_def assemble_jump A_def B_def Let_def els_def fin_def jump_by_def)
  moreover have "compiles fe (com_lines (C_IF e a b)) ln cs c5"
  proof -
    have "compiles fe (com_lines b @ [bytes_of ''ENDIF'']) (els + 1) (nested top2 c3) c5" using compiles_append [OF l4] l5 by (simp add: fin_def)
    then have "compiles fe (bytes_of ''ELSE'' # com_lines b @ [bytes_of ''ENDIF'']) els (nested top c2) c5" by (rule compiles_Cons [OF l3])
    then show ?thesis using compiles_Cons [OF l1 compiles_append [OF l2]] by (simp add: els_def)
  qed
  ultimately have "compiled fe \<Gamma> ln (C_IF e a b) cs c5" by (simp add: compiled_def)
  then show ?thesis by blast
qed

lemma com_compiles:
  assumes "plain_fe fe" "\<forall>x \<in> V. free_name x"
  shows "com_ok fe \<Gamma> V c \<Longrightarrow> fits_tables fe \<Gamma> V c cs \<Longrightarrow> \<exists>cs'. compiled fe \<Gamma> ln c cs cs'"
proof (induction c arbitrary: ln cs)
  case C_NOP
  have "compiled fe \<Gamma> ln C_NOP cs cs" by (simp add: compiled_def)
  then show ?case by blast
next
  case (C_LET x e)
  then show ?case using let_line_compiled assms by blast
next
  case (C_SEQ a b)
  have "com_ok fe \<Gamma> V a" "com_ok fe \<Gamma> V b" using C_SEQ.prems by simp_all
  then show ?case using seq_compiled [OF C_SEQ.prems(2)] C_SEQ.IH by blast
next
  case (C_IF e a b)
  have "com_ok fe \<Gamma> V a" "com_ok fe \<Gamma> V b" using C_IF.prems by simp_all
  then show ?case using if_compiled [OF C_IF.prems assms] C_IF.IH by blast
next
  case (C_WHILE e c)
  have "com_ok fe \<Gamma> V c" using C_WHILE.prems by simp
  then show ?case using while_compiled [OF C_WHILE.prems assms] C_WHILE.IH by blast
next
  case (C_UNTIL c e)
  have "com_ok fe \<Gamma> V c" using C_UNTIL.prems by simp
  then show ?case using until_compiled [OF C_UNTIL.prems assms] C_UNTIL.IH by blast
qed

end
