(* ===== verification/ProgFile.thy ===== *)
theory ProgFile
  imports ProgLines
begin

text \<open>
  From lines to files: the declarations at the head of a program, the text of a whole file as the compiler cuts it into
  logical lines, the prescans over it, and \<open>bc_compile_source\<close> on structured programs.
\<close>

section \<open>Declarations\<close>

definition dim_line :: "cstr \<Rightarrow> cstr" where
  "dim_line x = bytes_of ''DIM '' @ x"

definition name_vty :: "cstr \<Rightarrow> vty" where
  "name_vty x = (if last x = 0x25 then TI else TF)"

text \<open>A declared scalar is set to zero.\<close>

definition dim_code :: "nat \<Rightarrow> vty \<Rightarrow> instr list" where
  "dim_code i t = [I_PUSH_ZERO] @ cvt TI t @ [I_STORE Global t (of_nat i)]"

definition new_slot :: "cstr \<Rightarrow> BCSlot" where
  "new_slot x = \<lparr>slot_name = x, slot_type = type_code (name_vty x), slot_is_array = 0, slot_is_const = 0, slot_ndims = 0, slot_dims = replicate MAXDIM 0,
     slot_const_ival = 0, slot_const_fval = 0, slot_struct_idx = -1\<rparr>"

text \<open>A numeric name that is no type, and none of the words the compiler looks for in a whole line or file.\<close>

definition dim_ok :: "frontend \<Rightarrow> cstr \<Rightarrow> bool" where
  "dim_ok fe x \<longleftrightarrow> plain_name fe x \<and> last x \<noteq> 0x24 \<and> free_name x \<and>
     \<not> list_ex (\<lambda>k. same_name (name_body x) (bytes_of k)) [''INTEGER'', ''FLOAT'', ''STRING'', ''LENGTH'', ''STRUCT'']"

definition with_slot :: "cstr \<Rightarrow> BCCompiler \<Rightarrow> BCCompiler" where
  "with_slot x cs = cs\<lparr>slots := slots cs @ [new_slot x]\<rparr>"

lemma word_at_here: "word_at p k = word_here (bytes_of k) p"
  by (simp add: word_at_def word_here_def bytes_of_def)

lemma type_words: "is_word (bytes_of ''INTEGER'')" "is_word (bytes_of ''FLOAT'')" "is_word (bytes_of ''STRING'')" "is_word (bytes_of ''LENGTH'')"
    "is_word (bytes_of ''STRUCT'')" "is_word (bytes_of ''AS'')"
  by code_simp+

lemma no_scalar_type:
  assumes "dim_ok fe x"
  shows "scalar_type_at x = None"
  using assms name_word_here [of fe x _ "[]"] type_words by (simp add: dim_ok_def scalar_type_at_def word_at_here)

lemma calm_length: "list_all calm p \<Longrightarrow> has_length_clause False prev p \<Longrightarrow> find_word (bytes_of ''LENGTH'') prev p \<noteq> None"
  by (induction p arbitrary: prev) (auto simp: calm_def word_at_here)

lemma no_as_clause: "list_all (\<lambda>c. isnamechar c \<or> is_suffix_char c) p \<Longrightarrow> source_peek_dim_struct_type fe p = -1"
proof (induction p)
  case (Cons c p)
  show ?case
  proof (cases "word_at (c # p) ''AS''")
    case True
    have e: "\<not> isnamestart (at (drop 1 p))"
    proof -
      have "bytes_of ''AS'' = [0x41, 0x53]" by code_simp
      then have "\<not> isnamechar (at (drop 1 p))" using True by (simp add: word_at_here word_here_def)
      then show ?thesis using start_namechar by blast
    qed
    have "source_skip_space (drop 1 p) = drop 1 p"
    proof -
      have "list_all (\<lambda>c. isnamechar c \<or> is_suffix_char c) (drop 1 p)" using Cons.prems by (auto simp: list_all_iff dest: in_set_dropD)
      then have "\<not> is_blank (at (drop 1 p))"
        by (cases "drop 1 p") (auto simp: at_def is_blank_def is_suffix_char_def isnamechar_def isalnum8_def isalpha8_def isdigit8_def)
      then show ?thesis by (rule skip_none)
    qed
    then show ?thesis using True e by (simp add: Let_def)
  next
    case False
    then show ?thesis using Cons by auto
  qed
qed simp

lemma name_class:
  assumes "plain_name fe x"
  shows "list_all (\<lambda>c. isnamechar c \<or> is_suffix_char c) x"
proof (rule name_parts [OF assms])
  fix t assume t: "x = name_body x @ t" "t = [] \<or> (\<exists>c. t = [c] \<and> is_suffix_char c)" "list_all isnamechar (name_body x)"
  have "list_all (\<lambda>c. isnamechar c \<or> is_suffix_char c) (name_body x @ t)" using t(2,3) by (auto simp: list_all_iff)
  then show ?thesis using t(1) by simp
qed

lemma no_comma: "list_all (\<lambda>c. isnamechar c \<or> is_suffix_char c) p \<Longrightarrow> dropWhile (\<lambda>c. c \<noteq> 0x2C) p = []"
proof -
  assume "list_all (\<lambda>c. isnamechar c \<or> is_suffix_char c) p"
  then have "\<forall>c \<in> set p. c \<noteq> 0x2C" by (auto simp: list_all_iff is_suffix_char_def)
  then show ?thesis by simp
qed

lemma not_sized:
  assumes "plain_name fe x"
  shows "\<not> source_peek_dim_has_sized_array x"
proof (rule name_parts [OF assms])
  fix t assume t: "x = name_body x @ t" "t = [] \<or> (\<exists>c. t = [c] \<and> is_suffix_char c)" "list_all isnamechar (name_body x)" "name_body x \<noteq> []"
  have "isnamestart (hd x)" "x \<noteq> []" using assms by (simp_all add: plain_name_def)
  then have sk: "source_skip_space x = x" using start_not_blank by (intro skip_none) (simp add: at_def split: list.split, metis list.sel(1))
  have "dropWhile isnamechar (name_body x @ t) = t"
    using t(2,3) suffix_breaks by (auto simp: dropWhile_append list_all_iff)
  then have "dropWhile isnamechar x = t" using t(1) by simp
  moreover have "source_skip_space (if is_suffix_char (at t) then drop 1 t else t) = []" using t(2) by (auto simp: source_skip_space_def at_def is_suffix_char_def)
  moreover have "at [] = (0 :: u8)" by (simp add: at_def)
  ultimately show ?thesis by (simp add: source_peek_dim_has_sized_array_def sk Let_def)
qed

lemma dim_plain:
  assumes "dim_ok fe x"
  shows "\<not> dim_needs_bridge fe' x" "type_prefix (0x20 # x) = (0, x)"
proof -
  have p: "plain_name fe x" "x \<noteq> []" "isnamestart (hd x)" using assms by (simp_all add: dim_ok_def plain_name_def)
  note c = name_class [OF p(1)]
  have sk: "source_skip_space x = x" using p start_not_blank by (intro skip_none) (simp add: at_def split: list.split, metis list.sel(1))
  have "dim_args (Suc (length x)) x \<in> {[], [x]}"
    using no_comma [OF c] p(2) by (cases x) (auto simp: at_def)
  moreover have "find_word (bytes_of ''LENGTH'') False (x @ []) = None"
    using find_word_name [OF p(1) type_words(4), of "[]"] assms by (simp add: dim_ok_def)
  then have "\<not> has_length_clause False False x" using calm_length [OF calm_name [OF p(1)], of False] by auto
  ultimately show "\<not> dim_needs_bridge fe' x" using no_as_clause [OF c] not_sized [OF p(1)] by (auto simp: dim_needs_bridge_def)
  have "source_skip_space (0x20 # x) = x" using sk by (simp add: source_skip_space_def)
  then show "type_prefix (0x20 # x) = (0, x)" using no_scalar_type [OF assms] by (simp add: type_prefix_def)
qed

text \<open>The line of a declaration: one more slot, which is set to zero.\<close>

lemma dim_entries:
  "find (\<lambda>k. same_name (bytes_of ''DIM'') (bytes_of k)) statement_words = Some ''DIM''" "map_of (statement_table S) ''DIM'' = Some (plain source_compile_dim)"
  by (code_simp, simp add: statement_table_def device_table_def control_table_def)

lemma dim_line_plain:
  assumes "dim_ok fe x" "length (dim_line x) \<le> STRINGSIZE"
  shows "plain_line (dim_line x)" "find_statement S (dim_line x) = Some (plain source_compile_dim, 0x20 # x)"
proof -
  have p: "plain_name fe x" "free_name x" using assms(1) by (simp_all add: dim_ok_def)
  have b: "bytes_of ''DIM '' = bytes_of ''DIM'' @ [0x20]" by code_simp
  have d: "is_word (bytes_of ''DIM'')" "\<not> same_name (bytes_of ''DIM'') (bytes_of ''CTRLVAL'')" "\<not> same_name (bytes_of ''DIM'') (bytes_of ''REM'')"
    "\<not> same_name (bytes_of ''DIM'') (bytes_of ''END'')" "\<not> same_name (bytes_of ''DIM'') (bytes_of ''ON'')"
    by code_simp+
  have l: "dim_line x = bytes_of ''DIM'' @ (0x20 # x)" by (simp add: dim_line_def b)
  have "find_word (bytes_of ''CTRLVAL'') False (x @ []) = None"
    using find_word_name [OF p(1) words_free(2), of "[]"] p(2) by (simp add: free_name_def)
  then show "plain_line (dim_line x)"
    using word_line_plain [OF d(1), of "0x20 # x"] calm_name [OF p(1)] assms(2) d word_here_break [OF words_free(2)] by (simp add: l)
  show "find_statement S (dim_line x) = Some (plain source_compile_dim, 0x20 # x)"
    unfolding l by (rule statement_here [OF is_wordD(2) [OF d(1)] is_wordD(1) [OF d(1)] _ _ d(4,5) dim_entries]) simp_all
qed

lemma suffix_vtype:
  assumes "dim_ok fe x"
  shows "(if (if is_suffix_char (last x) then bc_type_from_suffix (last x) else 0) \<noteq> 0 then (if is_suffix_char (last x) then bc_type_from_suffix (last x) else 0)
      else T_NBR) = type_code (name_vty x)"
  using assms by (auto simp: dim_ok_def name_vty_def is_suffix_char_def bc_type_from_suffix_def T_INT_def T_NBR_def)

lemma default_store:
  assumes "t \<in> {TI, TF}" "length (code cs) + 5 \<le> BC_MAX_CODE"
  shows "source_emit_default_store cs (of_nat i) (type_code t) False = put cs (dim_code i t)"
proof -
  have z: "bc_emit_byte cs OP_PUSH_ZERO = put cs [I_PUSH_ZERO]" using assms(2) by (simp add: bc_emit_byte_def bytes_put put_def)
  have n: "type_code t \<noteq> T_STR" using assms(1) by (auto simp: T_INT_def T_NBR_def T_STR_def)
  have "source_emit_store_converted (put cs [I_PUSH_ZERO]) (of_nat i) (type_code t) (type_code TI) False =
      put (put cs [I_PUSH_ZERO]) (cvt TI t @ [I_STORE Global t (of_nat i)])"
    using assms by (intro store_converted) simp_all
  then show ?thesis using z n by (simp add: source_emit_default_store_def dim_code_def)
qed

lemma run_dim:
  assumes "dim_ok fe x" "\<not> has_error cs" "length (code cs) + 5 \<le> BC_MAX_CODE" "bc_find_slot cs x = 0xFFFF" "length (slots cs) < BC_MAX_SLOTS"
  shows "source_compile_dim fe E cs (0x20 # x) = Some (put (with_slot x cs) (dim_code (length (slots cs)) (name_vty x)), [])"
proof -
  have p: "plain_name fe x" "length x \<le> MAXVARLEN" using assms(1) by (simp_all add: dim_ok_def plain_name_def)
  have "\<forall>c \<in> set x. c \<noteq> 0" using calm_name [OF p(1)] by (auto simp: list_all_iff calm_def)
  then have sn: "stored_name MAXVARLEN x = x" using p(2) by (simp add: stored_name_def c_strlen_bytes_def takeWhile_eq_all_conv)
  define sf where "sf = (if is_suffix_char (last x) then bc_type_from_suffix (last x) else 0)"
  have "source_parse_varname (x @ []) = Some (x, sf, [])" unfolding sf_def by (rule parse_plain_varname [OF p(1)]) simp
  then have pv: "source_parse_varname x = Some (x, sf, [])" by simp
  have vt: "(if sf \<noteq> 0 then sf else T_NBR) = type_code (name_vty x)" unfolding sf_def by (rule suffix_vtype [OF assms(1)])
  have nil: "source_skip_space [] = []" "at [] = (0 :: u8)" by (simp_all add: source_skip_space_def at_def)
  have as: "source_parse_as_type_clause fe [] = (0, [])"
    by (simp add: source_parse_as_type_clause_def source_parse_as_type_clause_ex_def source_skip_space_def bytes_of_def)
  have slot: "source_resolve_global cs x (type_code (name_vty x)) True = (with_slot x cs, of_nat (length (slots cs)))"
    using assms(4,5) by (simp add: source_resolve_global_def bc_add_slot_def sn with_slot_def new_slot_def)
  have nt: "name_vty x \<in> {TI, TF}" by (simp add: name_vty_def)
  have ds: "source_emit_default_store (with_slot x cs) (of_nat (length (slots cs))) (type_code (name_vty x)) False =
      put (with_slot x cs) (dim_code (length (slots cs)) (name_vty x))"
    using assms(3) by (intro default_store [OF nt]) (simp add: with_slot_def)
  have "dim_one_scalar fe E x sf (type_code (name_vty x)) cs [] = (True, put (with_slot x cs) (dim_code (length (slots cs)) (name_vty x)), [])"
    using slot ds by (simp add: dim_one_scalar_def as nil)
  then have "dim_list (Suc (length x)) fe E 0 cs x = (put (with_slot x cs) (dim_code (length (slots cs)) (name_vty x)), [])"
    using assms(2) vt by (cases "sf = 0") (simp_all add: pv nil Let_def)
  then show ?thesis using dim_plain [OF assms(1)] by (simp add: source_compile_dim_def)
qed

lemma begun_slot: "with_slot x (begun ln cs) = begun ln (with_slot x cs)" "slots (begun ln cs) = slots cs" "bc_find_slot (begun ln cs) x = bc_find_slot cs x"
  by (simp_all add: with_slot_def begun_def put_def here_def bc_find_slot_def)

lemma line_dim:
  assumes "dim_ok fe x" "plain_fe fe" "subfuns cs = []" "line_room cs 5" "bc_find_slot cs x = 0xFFFF" "length (slots cs) < BC_MAX_SLOTS"
    and "length (dim_line x) \<le> STRINGSIZE"
  shows "source_compile_line fe cs (dim_line x) =
    Some (fe, put (begun (line_no fe) (with_slot x cs)) (dim_code (length (slots cs)) (name_vty x)))"
proof -
  let ?b = "begun (line_no fe) cs"
  have "source_compile_dim fe (source_parse_expression fe) ?b (0x20 # x) = Some (put (with_slot x ?b) (dim_code (length (slots ?b)) (name_vty x)), [])"
    using assms(4-6) by (intro run_dim [OF assms(1)]) (simp_all add: line_room_def begun_slot)
  then have "run_statement (plain source_compile_dim) fe ?b (0x20 # x) = Some (fe, put (with_slot x ?b) (dim_code (length (slots ?b)) (name_vty x)))"
    by (rule run_plain [where f = source_compile_dim])
  then show ?thesis
    using line_of_keyword [OF dim_line_plain(1) [OF assms(1,7)] assms(2-4) dim_line_plain(2) [OF assms(1,7)]] by (simp add: begun_slot)
qed

section \<open>Lists of declarations\<close>

fun dims_code :: "int \<Rightarrow> nat \<Rightarrow> cstr list \<Rightarrow> instr list" where
  "dims_code ln i [] = []"
| "dims_code ln i (x # xs) = line_mark ln # dim_code i (name_vty x) @ dims_code (ln + 1) (i + 1) xs"

definition apart_names :: "cstr list \<Rightarrow> bool" where
  "apart_names xs \<longleftrightarrow> sorted_wrt (\<lambda>x y. \<not> same_name x y) xs"

definition with_slots :: "cstr list \<Rightarrow> BCCompiler \<Rightarrow> BCCompiler" where
  "with_slots xs cs = cs\<lparr>slots := slots cs @ map new_slot xs\<rparr>"

lemma with_slots_simps [simp]:
  "with_slots [] cs = cs" "with_slots xs (with_slot x cs) = with_slots (x # xs) cs"
  "code (with_slots xs cs) = code cs" "has_error (with_slots xs cs) = has_error cs" "subfuns (with_slots xs cs) = subfuns cs"
  "current_subfun (with_slots xs cs) = current_subfun cs" "error_msg (with_slots xs cs) = error_msg cs" "linemap (with_slots xs cs) = linemap cs"
  "slots (with_slots xs cs) = slots cs @ map new_slot xs" "nest_stack (with_slots xs cs) = nest_stack cs"
  "code (with_slot x cs) = code cs" "has_error (with_slot x cs) = has_error cs" "subfuns (with_slot x cs) = subfuns cs" "linemap (with_slot x cs) = linemap cs"
  "slots (with_slot x cs) = slots cs @ [new_slot x]"
  by (simp_all add: with_slots_def with_slot_def)

lemma grown_slots: "grown n cs b cs' \<Longrightarrow> grown n (with_slots xs cs) b (with_slots xs cs') \<and> slots cs' = slots cs"
  unfolding grown_def
proof (elim exE conjE)
  fix cl lm el assume "length lm = n" "cs' = cs\<lparr>code := code cs @ b, cs_line := cl, linemap := linemap cs @ lm, error_line := el\<rparr>"
  then show "(\<exists>cl lm el. length lm = n \<and> with_slots xs cs' =
      (with_slots xs cs)\<lparr>code := code (with_slots xs cs) @ b, cs_line := cl, linemap := linemap (with_slots xs cs) @ lm, error_line := el\<rparr>) \<and> slots cs' = slots cs"
    by (intro conjI exI [of _ cl] exI [of _ lm] exI [of _ el]) (cases cs, simp_all add: with_slots_def)
qed

lemma dim_len: "t \<in> {TI, TF} \<Longrightarrow> length (assemble (dim_code i t)) \<le> 5"
  by (auto simp: dim_code_def cvt_def)

lemma new_name [simp]: "slot_name (new_slot x) = x" "slot_type (new_slot x) = type_code (name_vty x)" "slot_is_const (new_slot x) = 0"
  by (simp_all add: new_slot_def)

lemma dims_compiled:
  assumes "plain_fe fe"
  shows "\<lbrakk>list_all (dim_ok fe) xs; \<forall>x \<in> set xs. short (dim_line x); \<forall>x \<in> set xs. \<forall>s \<in> set (slots cs). \<not> same_name (slot_name s) x; apart_names xs;
      \<not> has_error cs; subfuns cs = []; length (slots cs) + length xs \<le> BC_MAX_SLOTS; length (linemap cs) + length xs \<le> BC_MAX_LINEMAP;
      length (code cs) + 8 * length xs \<le> BC_MAX_CODE\<rbrakk> \<Longrightarrow>
    \<exists>cs'. compiles fe (map dim_line xs) ln cs cs' \<and> grown (length xs) (with_slots xs cs) (assemble (dims_code ln (length (slots cs)) xs)) cs'"
proof (induction xs arbitrary: ln cs)
  case Nil
  show ?case by (intro exI [of _ cs]) simp
next
  case (Cons x xs)
  let ?fe = "fe\<lparr>line_no := ln\<rparr>" and ?n = "length (slots cs)" and ?t = "name_vty x"
  define cs1 where "cs1 = put (begun ln (with_slot x cs)) (dim_code ?n ?t)"
  have t: "?t \<in> {TI, TF}" by (simp add: name_vty_def)
  have "bc_find_slot cs x = 0xFFFF"
    using Cons.prems(3) find_index_None_iff [of "\<lambda>s. same_name (slot_name s) x" "slots cs"] by (auto simp: bc_find_slot_def)
  moreover have "dim_ok ?fe x" using Cons.prems(1) by (simp add: dim_ok_def plain_name_def)
  ultimately have "source_compile_line ?fe cs (dim_line x) = Some (?fe, cs1)"
    using line_dim [of ?fe x cs] assms Cons.prems by (simp add: short_def line_room_def cs1_def)
  then have l: "compiles fe [dim_line x] ln cs cs1" using Cons.prems(5) by (intro compiles_one)
  have g: "grown 1 (with_slot x cs) (assemble [line_mark ln] @ assemble (dim_code ?n ?t)) cs1"
    unfolding cs1_def by (rule grown_put [OF grown_begun])
  have s1: "slots cs1 = slots cs @ [new_slot x]" by (simp add: cs1_def put_def begun_def)
  have "\<forall>y \<in> set xs. \<not> same_name x y" using Cons.prems(4) by (simp add: apart_names_def)
  then obtain cs' where r: "compiles fe (map dim_line xs) (ln + 1) cs1 cs'"
      "grown (length xs) (with_slots xs cs1) (assemble (dims_code (ln + 1) (length (slots cs1)) xs)) cs'"
    using Cons.IH [of cs1 "ln + 1"] Cons.prems grown_fields [OF g] dim_len [OF t, of ?n] s1 by (auto simp: apart_names_def)
  have "compiles fe (map dim_line (x # xs)) ln cs cs'" using compiles_Cons [OF l r(1)] by simp
  moreover have "grown (1 + length xs) (with_slots (x # xs) cs) ((assemble [line_mark ln] @ assemble (dim_code ?n ?t)) @ assemble (dims_code (ln + 1) (length (slots cs1)) xs)) cs'"
    using grown_trans [OF grown_slots [OF g, THEN conjunct1, of xs] r(2)] by simp
  ultimately show ?case using s1 by (intro exI [of _ cs']) simp
qed

text \<open>Where the declared variables are.\<close>

definition decl_env :: "cstr list \<Rightarrow> scope_env" where
  "decl_env xs x = (Global, (case find_index (\<lambda>y. same_name y x) xs of Some i \<Rightarrow> of_nat i | None \<Rightarrow> 0), name_vty x)"

lemma find_declared:
  assumes "apart_names xs" "x \<in> set xs"
  obtains i where "i < length xs" "xs ! i = x" "find_index (\<lambda>y. same_name y x) xs = Some i"
proof -
  obtain i where i: "find_index (\<lambda>y. same_name y x) xs = Some i"
    using assms(2) find_index_None_iff [of "\<lambda>y. same_name y x" xs] by fastforce
  have f: "i < length xs" "same_name (xs ! i) x" using find_index_Some [OF i] by simp_all
  obtain j where j: "j < length xs" "xs ! j = x" using assms(2) by (metis in_set_conv_nth)
  have "i = j"
  proof (rule ccontr)
    assume "i \<noteq> j"
    then show False
      using assms(1) f j same_name_sym unfolding apart_names_def by (metis linorder_neqE_nat sorted_wrt_nth_less)
  qed
  then show thesis using that f i j by blast
qed

lemma small_index: "i < BC_MAX_SLOTS \<Longrightarrow> unat (of_nat i :: u16) = i \<and> (of_nat i :: u16) \<noteq> 0xFFFF"
proof -
  assume "i < BC_MAX_SLOTS"
  then have i: "i < 65535" by (simp add: limits)
  then have u: "unat (of_nat i :: u16) = i" by (simp add: unsigned_of_nat take_bit_nat_eq_self)
  have "(of_nat i :: u16) \<noteq> 0xFFFF"
  proof
    assume "(of_nat i :: u16) = 0xFFFF"
    then have "unat (of_nat i :: u16) = 65535" by simp
    then show False using u i by simp
  qed
  then show "unat (of_nat i :: u16) = i \<and> (of_nat i :: u16) \<noteq> 0xFFFF" using u by simp
qed

lemma decl_env_ok:
  assumes "apart_names xs" "length xs \<le> BC_MAX_SLOTS"
  shows "env_ok (decl_env xs) (set xs)"
proof -
  have "inj_on (slot_of (decl_env xs)) (set xs)"
  proof (rule inj_onI)
    fix x y assume "x \<in> set xs" "y \<in> set xs" and e: "slot_of (decl_env xs) x = slot_of (decl_env xs) y"
    then obtain i j where i: "i < length xs" "xs ! i = x" "find_index (\<lambda>z. same_name z x) xs = Some i"
        and j: "j < length xs" "xs ! j = y" "find_index (\<lambda>z. same_name z y) xs = Some j"
      using find_declared [OF assms(1)] by metis
    have "(of_nat i :: u16) = of_nat j" using e i(3) j(3) by (simp add: decl_env_def)
    then have "i = j" using small_index [of i] small_index [of j] i(1) j(1) assms(2) by (metis order_less_le_trans)
    then show "x = y" using i(2) j(2) by simp
  qed
  moreover have "unat (slot_of (decl_env xs) x) < BC_MAX_SLOTS" if "x \<in> set xs" for x
  proof (rule find_declared [OF assms(1) that])
    fix i assume "i < length xs" "find_index (\<lambda>y. same_name y x) xs = Some i"
    then show ?thesis using small_index [of i] assms(2) by (simp add: decl_env_def)
  qed
  ultimately show ?thesis by (simp add: env_ok_def decl_env_def name_vty_def)
qed

lemma decl_setting:
  assumes "slots cs = map new_slot xs" "\<not> has_error cs" "error_msg cs = []" "current_subfun cs < 0" "subfuns cs = []"
    and "list_all (dim_ok fe) xs" "apart_names xs" "length xs \<le> BC_MAX_SLOTS"
  shows "setting fe (decl_env xs) (set xs) cs"
proof -
  have v: "var_ok fe cs x (decl_env xs x) \<and> slot_type (slots cs ! unat (slot_of (decl_env xs) x)) \<noteq> T_STRUCT" if x: "x \<in> set xs" for x
  proof (rule find_declared [OF assms(7) x])
    fix i assume i: "i < length xs" "xs ! i = x" "find_index (\<lambda>y. same_name y x) xs = Some i"
    have ii: "unat (of_nat i :: u16) = i" "(of_nat i :: u16) \<noteq> 0xFFFF" "i < BC_MAX_SLOTS" using small_index [of i] i(1) assms(8) by auto
    have d: "dim_ok fe x" using assms(6) x by (simp add: list_all_iff)
    have fm: "find_index (\<lambda>s. same_name (slot_name s) x) (map new_slot ys) = find_index (\<lambda>y. same_name y x) ys" for ys
      by (induction ys) simp_all
    have s: "bc_find_slot cs x = of_nat i" using i(3) fm [of xs] assms(1) by (simp add: bc_find_slot_def)
    have t: "slots cs ! i = new_slot x" using assms(1) i(1,2) by simp
    have dt: "source_default_var_type cs x = type_code (name_vty x)" using s ii t assms(4) by (simp add: source_default_var_type_def Let_def)
    have "name_type cs x = type_code (name_vty x)"
      using dt suffix_vtype [OF d] suffix_type [of "last x"] by (auto simp: name_type_def split: if_splits)
    moreover have "place cs x = Some (Global, of_nat i)" using s ii assms(4) by (simp add: place_def)
    moreover have "plain_name fe x" using d by (simp add: dim_ok_def)
    moreover have "name_vty x \<in> {TI, TF}" by (simp add: name_vty_def)
    moreover have "type_code (name_vty x) \<noteq> T_STRUCT" by (simp add: name_vty_def type_code_def T_INT_def T_NBR_def T_STRUCT_def)
    ultimately show ?thesis using i(3) ii t by (simp add: var_ok_def decl_env_def)
  qed
  then show ?thesis using assms by (simp add: setting_def decl_env_def)
qed

section \<open>Files\<close>

definition source_text :: "cstr list \<Rightarrow> cstr" where
  "source_text ls = concat (map (\<lambda>l. l @ [0x0A]) ls)"

text \<open>A line that the passes over the whole file pass over.\<close>

definition file_line :: "cstr \<Rightarrow> bool" where
  "file_line l \<longleftrightarrow> plain_line l \<and> list_all (\<lambda>k. \<not> word_here (bytes_of k) l) [''OPTION'', ''TYPE'', ''SUB'', ''FUNCTION'', ''END''] \<and>
     find_word (bytes_of ''STRUCT'') False l = None"

lemma plain_body:
  assumes "plain_line l"
  shows "body_of l = l" "source_skip_space l = l" "\<not> source_line_empty_or_comment l" "\<not> opens_asm l" "l \<noteq> []"
proof -
  have l: "isnamestart (at l)" "\<not> word_here (bytes_of ''REM'') l" using assms by (simp_all add: plain_line_def)
  note c = start_chars [OF l(1)]
  show sk: "source_skip_space l = l" using c skip_none by blast
  have dg: "takeWhile isdigit8 l = []" using c by (cases l) (simp_all add: at_def)
  show "body_of l = l" by (simp add: body_of_def split_number_def sk dg Let_def)
  have rem: "bytes_of ''REM'' = [0x52, 0x45, 0x4D]" by code_simp
  show "\<not> source_line_empty_or_comment l" using c l(2) by (simp add: source_line_empty_or_comment_def sk word_here_def Let_def rem numeral_3_eq_3)
  show ne: "l \<noteq> []" using c by (auto simp: at_def)
  have "tolower8 (at l) \<noteq> 0x27" using start_namechar [OF l(1)] isnamechar_tolower [of "at l"] by (auto simp: isnamechar_def isalnum8_def isalpha8_def isdigit8_def tolower8_def)
  then show "\<not> opens_asm l" using ne by (cases l) (auto simp: opens_asm_def starts_with_def same_name_def bytes_of_def tolower8_def)
qed

lemma logical_lines_text:
  assumes "\<forall>l \<in> set ls. file_line l" "length (source_text ls) \<le> n"
  shows "logical_lines n (source_text ls, k, 0) = numbered k ls"
  using assms
proof (induction ls arbitrary: n k)
  case Nil
  then show ?case by (cases n) (simp_all add: source_text_def source_read_logical_line_def)
next
  case (Cons l ls)
  let ?r = "source_text ls"
  have s: "source_text (l # ls) = l @ 0x0A # ?r" by (simp add: source_text_def)
  obtain m where m: "n = Suc m" using Cons.prems(2) s by (cases n) auto
  have f: "file_line l" "plain_line l" using Cons.prems(1) by (simp_all add: file_line_def)
  have nl: "\<forall>c \<in> set l. \<not> is_newline c" "length l \<le> STRINGSIZE" using f(2) by (auto simp: plain_line_def list_all_iff calm_def is_newline_def)
  have t: "takeWhile (\<lambda>b. \<not> is_newline b) (l @ 0x0A # ?r) = l"
    using nl(1) by (subst takeWhile_append2) (simp_all add: is_newline_def)
  have kn: "kw l ''OPTION'' = None" using f(1) by (simp add: file_line_def kw_here)
  have "join_lines (Suc i) 0 [] k (l @ 0x0A # ?r) = (l, k + 1, ?r)" for i
    using nl(2) t by (simp add: skip_newline_def is_newline_def Let_def)
  then have "source_read_logical_line (source_text (l # ls), k, 0) = Some (l, k, (?r, k + 1, 0))"
    by (simp add: s source_read_logical_line_def source_update_continuation_setting_def plain_body(1) [OF f(2)] kn del: join_lines.simps)
  then show ?case using Cons s m by simp
qed

lemma lines_of_text: "\<forall>l \<in> set ls. file_line l \<Longrightarrow> lines_of (source_text ls) = numbered 1 ls"
  by (simp add: lines_of_def start_of_def logical_lines_text)

lemma skip_asm_text: "\<forall>l \<in> set ls. file_line l \<Longrightarrow> skip_asm False (numbered k ls) = numbered k ls"
  by (induction ls arbitrary: k) (simp_all add: file_line_def plain_body Let_def)

lemma prescan_text:
  assumes "\<forall>l \<in> set ls. file_line l"
  shows "source_prescan_types fe (source_text ls) = fe"
proof -
  have "fold (\<lambda>(l, n). prescan_line l) (numbered k ls) (fe, None) = (fe, None)" for k
    using assms
  proof (induction ls arbitrary: k)
    case (Cons l ls)
    have "\<not> word_at l ''TYPE''" "body_of l = l" using Cons.prems plain_body(1) by (simp_all add: file_line_def word_at_here)
    then have "prescan_line l (fe, None) = (fe, None)" by (simp add: prescan_line_def Let_def)
    then show ?case using Cons by simp
  qed simp
  then show ?thesis using assms by (simp add: source_prescan_types_def lines_of_text skip_asm_text)
qed

lemma end_routine: "\<not> word_here (bytes_of ''END'') l \<Longrightarrow> \<not> word_at l ''END SUB'' \<and> \<not> word_at l ''END FUNCTION''"
proof -
  have e: "bytes_of ''END SUB'' = bytes_of ''END'' @ 0x20 # bytes_of ''SUB''" "bytes_of ''END FUNCTION'' = bytes_of ''END'' @ 0x20 # bytes_of ''FUNCTION''"
    "length (bytes_of ''END'') = 3" by code_simp+
  have b: "tolower8 c = 0x20 \<Longrightarrow> c = 0x20" for c
  proof -
    have "list_all (\<lambda>n. tolower8 (of_nat n) = 0x20 \<longrightarrow> (of_nat n :: u8) = 0x20) [0..<256]" by code_simp
    then have "tolower8 c = 0x20 \<longrightarrow> c = 0x20" by (rule all_u8)
    then show "tolower8 c = 0x20 \<Longrightarrow> c = 0x20" by blast
  qed
  have "word_here (bytes_of ''END'') l" if w: "word_here (bytes_of ''END'' @ 0x20 # k) l" for k
  proof -
    have n: "same_name (take (length (bytes_of ''END'' @ 0x20 # k)) l) (bytes_of ''END'' @ 0x20 # k)" using w by (simp add: word_here_def)
    then have le: "4 + length k \<le> length l" using same_name_length [OF n] e(3) by simp
    have "same_name (take 3 l) (bytes_of ''END'')"
    proof -
      have "take 3 (map tolower8 (take (length (bytes_of ''END'' @ 0x20 # k)) l)) = take 3 (map tolower8 (bytes_of ''END'' @ 0x20 # k))"
        using n by (simp only: same_name_def)
      then show ?thesis using e(3) by (simp add: same_name_def take_map min_def)
    qed
    moreover have "l ! 3 = 0x20"
    proof -
      have "tolower8 (take (length (bytes_of ''END'' @ 0x20 # k)) l ! 3) = tolower8 ((bytes_of ''END'' @ 0x20 # k) ! 3)"
        by (rule same_name_nth [OF n]) (use e(3) in simp)
      then have "tolower8 (l ! 3) = 0x20" using e(3) by (simp add: nth_append tolower8_def)
      then show ?thesis by (rule b)
    qed
    moreover have "at (drop 3 l) = l ! 3" using le by (intro at_nth) simp
    ultimately show ?thesis by (simp add: word_here_def e(3))
  qed
  then show "\<not> word_here (bytes_of ''END'') l \<Longrightarrow> \<not> word_at l ''END SUB'' \<and> \<not> word_at l ''END FUNCTION''"
    unfolding word_at_here e(1,2) by blast
qed

lemma predeclare_text:
  assumes "\<forall>l \<in> set ls. file_line l"
  shows "\<exists>cl. source_predeclare_subfuns fe cs (source_text ls) = cs\<lparr>cs_line := cl\<rparr>"
proof -
  have "\<exists>cl. fold (\<lambda>(l, n). predeclare_step fe l n) (numbered k ls) (cs, -1) = (cs\<lparr>cs_line := cl\<rparr>, -1)" for k
    using assms
  proof (induction ls arbitrary: k cs)
    case Nil
    show ?case by (intro exI [of _ "cs_line cs"]) simp
  next
    case (Cons l ls)
    have f: "file_line l" "plain_line l" using Cons.prems by (simp_all add: file_line_def)
    note b = plain_body [OF f(2)]
    have w: "\<not> word_at l ''SUB''" "\<not> word_at l ''FUNCTION''" "\<not> word_at l ''END SUB''" "\<not> word_at l ''END FUNCTION''"
      "kw l ''SUB'' = None" "kw l ''FUNCTION'' = None"
      using f(1) end_routine by (simp_all add: file_line_def word_at_here kw_here)
    have "predeclare_step fe l k (cs, -1) = (if has_error cs then (cs, -1) else (cs\<lparr>cs_line := word_of_int k\<rparr>, -1))"
      using b w by (simp add: predeclare_step_def source_predeclare_line_def opened_routine_def Let_def)
    then obtain c where "predeclare_step fe l k (cs, -1) = (cs\<lparr>cs_line := c\<rparr>, -1)"
      by (cases "has_error cs") (auto intro: that [of "cs_line cs"])
    moreover obtain cl where "fold (\<lambda>(l, n). predeclare_step fe l n) (numbered (k + 1) ls) (cs\<lparr>cs_line := c\<rparr>, -1) = (cs\<lparr>cs_line := cl\<rparr>, -1)"
      using Cons.IH [of "k + 1" "cs\<lparr>cs_line := c\<rparr>"] Cons.prems by auto
    ultimately show ?case by auto
  qed
  then show ?thesis using assms by (auto simp: source_predeclare_subfuns_def lines_of_text skip_asm_text) (metis fst_conv)
qed

lemma find_word_line:
  assumes "is_word k"
  shows "find_word k prev l = None \<Longrightarrow> find_word k prev (l @ 0x0A # rest) = find_word k False rest"
proof (induction l arbitrary: prev)
  case Nil
  show ?case using find_word_break [OF assms, of "0x0A" prev rest] by simp
next
  case (Cons c l)
  have "word_here k (c # l)" if w: "word_here k (c # l @ 0x0A # rest)"
  proof -
    have n: "same_name (take (length k) ((c # l) @ 0x0A # rest)) k" "\<not> isnamechar (at (drop (length k) ((c # l) @ 0x0A # rest)))"
      using w by (simp_all add: word_here_def)
    have le: "length k \<le> length (c # l)"
    proof (rule ccontr)
      assume a: "\<not> length k \<le> length (c # l)"
      have "length k \<le> length ((c # l) @ 0x0A # rest)" using same_name_length [OF n(1)] by simp
      then have "isnamechar (((c # l) @ 0x0A # rest) ! length (c # l))"
        using same_name_isnamechar [OF n(1) _ is_wordD(2) [OF assms]] a by (meson not_le_imp_less)
      then show False by (simp add: nth_append)
    qed
    have "drop (length k) ((c # l) @ 0x0A # rest) = drop (length k) (c # l) @ 0x0A # rest" unfolding drop_append using le by simp
    then have "at (drop (length k) (c # l)) = 0 \<or> at (drop (length k) (c # l)) = at (drop (length k) ((c # l) @ 0x0A # rest))"
      by (cases "drop (length k) (c # l)") (simp_all add: at_def)
    moreover have "take (length k) ((c # l) @ 0x0A # rest) = take (length k) (c # l)" unfolding take_append using le by simp
    then have "same_name (take (length k) (c # l)) k" using n(1) by (simp only:)
    ultimately show ?thesis using n(2) by (auto simp: word_here_def)
  qed
  then show ?case using Cons by (auto split: if_splits)
qed

lemma no_struct_text: "\<forall>l \<in> set ls. file_line l \<Longrightarrow> find_word (bytes_of ''STRUCT'') False (source_text ls) = None"
  using find_word_line [OF type_words(5)] by (induction ls) (simp_all add: source_text_def file_line_def)

lemma struct_subcmd_word: "struct_subcmd wanted prev p \<Longrightarrow> find_word (bytes_of ''STRUCT'') prev p \<noteq> None"
  by (induction p arbitrary: prev) (auto simp: word_at_here)

lemma no_struct_io:
  assumes "\<forall>l \<in> set ls. file_line l"
  shows "\<not> source_program_uses_struct_file_io (source_text ls)" "\<not> source_program_uses_struct_extract_insert (source_text ls)"
  using no_struct_text [OF assms] struct_subcmd_word [where prev = False and p = "source_text ls"]
  by (auto simp: source_program_uses_struct_file_io_def source_program_uses_struct_extract_insert_def source_program_uses_struct_subcmd_def)

lemma struct_word: "\<not> list_ex (\<lambda>w. same_name w (bytes_of ''STRUCT'')) op_words"
  by code_simp

lemma struct_exp:
  assumes "exp_ok V e" "\<forall>x \<in> V. dim_ok fe x"
  shows "exp_text_ok fe e" "find_word (bytes_of ''STRUCT'') False (print_exp e) = None"
    "find_word (bytes_of ''STRUCT'') False (print_exp e @ 0x20 # t) = find_word (bytes_of ''STRUCT'') False t"
proof -
  have x: "\<forall>x \<in> vars e. plain_name fe x \<and> free_name x \<and> \<not> same_name (name_body x) (bytes_of ''STRUCT'')" "literals_ok e"
    using assms by (auto simp: exp_ok_def dim_ok_def)
  then show "exp_text_ok fe e" by (simp add: exp_text_ok_def)
  have k: "lacks (bytes_of ''STRUCT'') e" using x struct_word type_words(5) by (simp add: lacks_def)
  then show "find_word (bytes_of ''STRUCT'') False (print_exp e) = None" using exp_no_word x by blast
  show "find_word (bytes_of ''STRUCT'') False (print_exp e @ 0x20 # t) = find_word (bytes_of ''STRUCT'') False t"
    using find_word_exp [OF x(2) _ k, of fe "0x20 # t"] x(1) word_here_break [OF type_words(5)] by simp
qed

definition file_words :: "string list" where
  "file_words = [''OPTION'', ''TYPE'', ''SUB'', ''FUNCTION'', ''END'', ''STRUCT'']"

lemma file_words_ok: "list_all (\<lambda>k. is_word (bytes_of k)) file_words"
  by code_simp

lemma word_line_file:
  assumes "plain_line (w @ t)" "is_word w" "breaks t" "find_word (bytes_of ''STRUCT'') False t = None"
    and "list_all (\<lambda>k. \<not> same_name w (bytes_of k)) file_words"
  shows "file_line (w @ t)"
proof -
  note w = is_wordD(2) [OF assms(2)]
  have "\<not> word_here (bytes_of k) (w @ t)" if "k \<in> set file_words" for k
    using word_here_word [OF _ w assms(3), of "bytes_of k"] that assms(5) file_words_ok by (simp add: list_all_iff)
  moreover have "find_word (bytes_of ''STRUCT'') False (w @ t) = None"
    using find_word_pass [OF type_words(5) w assms(3)] assms(4,5) by (simp add: file_words_def)
  ultimately show ?thesis using assms(1) by (simp add: file_line_def file_words_def)
qed

lemma let_line_file:
  assumes "exp_ok V e" "\<forall>x \<in> V. dim_ok fe x" "x \<in> V" "target_ok fe x" "short (let_line x e)"
  shows "file_line (let_line x e)"
proof -
  note e = struct_exp [OF assms(1,2)]
  have x: "plain_name fe x" "free_name x" "\<not> same_name (name_body x) (bytes_of ''STRUCT'')" using assms(2,3) by (auto simp: dim_ok_def)
  have l: "let_line x e = x @ (0x20 # 0x3D # 0x20 # print_exp e)" by (simp add: let_line_def)
  have pl: "plain_line (let_line x e)" using let_line_plain(1) [OF e(1) x(1,2) assms(4)] assms(5) by (simp add: short_def)
  have "\<not> word_here (bytes_of k) (let_line x e)" if "k \<in> set [''OPTION'', ''TYPE'', ''SUB'', ''FUNCTION'', ''END'']" for k
  proof -
    have "is_word (bytes_of k)" using that file_words_ok by (auto simp: file_words_def)
    moreover have "k \<in> set statement_words" using that by (auto simp: statement_words_def)
    then have "\<not> same_name (name_body x) (bytes_of k)" using assms(4) by (auto simp: target_ok_def list_ex_iff)
    ultimately show ?thesis unfolding l using name_word_here [OF x(1)] by simp
  qed
  moreover have "find_word (bytes_of ''STRUCT'') False (let_line x e) = None"
    using find_word_name [OF x(1) type_words(5) x(3), of "0x20 # 0x3D # 0x20 # print_exp e"] e(2) word_here_break [OF type_words(5)]
    by (simp add: l)
  ultimately show ?thesis using pl by (simp add: file_line_def)
qed

lemma dim_line_file:
  assumes "dim_ok fe x" "short (dim_line x)"
  shows "file_line (dim_line x)"
proof -
  have b: "bytes_of ''DIM '' = bytes_of ''DIM'' @ [0x20]" by code_simp
  have l: "dim_line x = bytes_of ''DIM'' @ (0x20 # x)" by (simp add: dim_line_def b)
  have d: "is_word (bytes_of ''DIM'')" "list_all (\<lambda>k. \<not> same_name (bytes_of ''DIM'') (bytes_of k)) file_words" by code_simp+
  have x: "plain_name fe x" "\<not> same_name (name_body x) (bytes_of ''STRUCT'')" using assms(1) by (auto simp: dim_ok_def)
  have "find_word (bytes_of ''STRUCT'') False (0x20 # x) = None"
    using find_word_name [OF x(1) type_words(5) x(2), of "[]"] word_here_break [OF type_words(5)] by simp
  then show ?thesis
    using word_line_file [OF _ d(1) _ _ d(2), of "0x20 # x"] dim_line_plain(1) [OF assms(1)] assms(2) by (simp add: l short_def)
qed

lemma keyword_lines_file:
  assumes "exp_ok V e" "\<forall>x \<in> V. dim_ok fe x"
  shows "short (if_line e) \<Longrightarrow> file_line (if_line e)" "file_line (bytes_of ''ELSE'')" "file_line (bytes_of ''ENDIF'')"
    "short (while_line e) \<Longrightarrow> file_line (while_line e)" "file_line (bytes_of ''LOOP'')" "file_line (bytes_of ''DO'')"
    "short (until_line e) \<Longrightarrow> file_line (until_line e)"
proof -
  note e = struct_exp [OF assms]
  note pl = keyword_lines_plain [OF e(1)]
  show "file_line (bytes_of ''ELSE'')" "file_line (bytes_of ''ENDIF'')" "file_line (bytes_of ''LOOP'')" "file_line (bytes_of ''DO'')" by code_simp+
  let ?ok = "\<lambda>w. is_word (bytes_of w) \<and> list_all (\<lambda>k. \<not> same_name (bytes_of w) (bytes_of k)) file_words"
  have w: "?ok ''IF''" "?ok ''DO''" "?ok ''LOOP''" "?ok ''WHILE''" "?ok ''UNTIL''" by code_simp+
  have b: "bytes_of ''IF '' = bytes_of ''IF'' @ [0x20]" "bytes_of ''DO WHILE '' = bytes_of ''DO'' @ 0x20 # bytes_of ''WHILE'' @ [0x20]"
    "bytes_of ''LOOP UNTIL '' = bytes_of ''LOOP'' @ 0x20 # bytes_of ''UNTIL'' @ [0x20]" "bytes_of '' THEN'' = 0x20 # bytes_of ''THEN''" by code_simp+
  note n = word_here_break [OF type_words(5)]
  have t: "find_word (bytes_of ''STRUCT'') False (bytes_of ''THEN'') = None" by code_simp
  have f: "find_word (bytes_of ''STRUCT'') False (bytes_of v @ 0x20 # t) = find_word (bytes_of ''STRUCT'') False t" if "?ok v" for v t
    using find_word_pass [OF type_words(5) is_wordD(2), of "bytes_of v" "0x20 # t"] that n by (simp add: file_words_def)
  show "short (if_line e) \<Longrightarrow> file_line (if_line e)"
    using word_line_file [of "bytes_of ''IF''" "0x20 # print_exp e @ 0x20 # bytes_of ''THEN''"] pl(1) w e(3) n t
    by (simp add: if_line_def b short_def)
  show "short (while_line e) \<Longrightarrow> file_line (while_line e)"
    using word_line_file [of "bytes_of ''DO''" "0x20 # bytes_of ''WHILE'' @ 0x20 # print_exp e"] pl(4) w e(2) n f
    by (simp add: while_line_def b short_def)
  show "short (until_line e) \<Longrightarrow> file_line (until_line e)"
    using word_line_file [of "bytes_of ''LOOP''" "0x20 # bytes_of ''UNTIL'' @ 0x20 # print_exp e"] pl(7) w e(2) n f
    by (simp add: until_line_def b short_def)
qed

lemma com_lines_file:
  assumes "\<forall>x \<in> V. dim_ok fe x"
  shows "com_ok fe \<Gamma> V c \<Longrightarrow> \<forall>l \<in> set (com_lines c). file_line l"
proof (induction c)
  case (C_LET x e)
  then show ?case using let_line_file [OF _ assms] by simp
next
  case (C_IF e a b)
  then have "exp_ok V e" by simp
  then show ?case using keyword_lines_file(1-3) [OF _ assms] C_IF by auto
next
  case (C_WHILE e c)
  then have "exp_ok V e" by simp
  then show ?case using keyword_lines_file(4,5) [OF _ assms] C_WHILE by auto
next
  case (C_UNTIL c e)
  then have "exp_ok V e" by simp
  then show ?case using keyword_lines_file(6,7) [OF _ assms] C_UNTIL by auto
qed auto

section \<open>Whole programs\<close>

text \<open>Declarations first, a structured program behind them; the code ends with \<open>END\<close>.\<close>

definition program_lines :: "cstr list \<Rightarrow> com \<Rightarrow> cstr list" where
  "program_lines xs c = map dim_line xs @ com_lines c"

definition program_code :: "int \<Rightarrow> cstr list \<Rightarrow> com \<Rightarrow> instr list" where
  "program_code lvl xs c = dims_code 1 0 xs @ com_code lvl (decl_env xs) (1 + int (length xs)) c @ [I_END]"

definition program_ok :: "frontend \<Rightarrow> cstr list \<Rightarrow> com \<Rightarrow> bool" where
  "program_ok fe xs c \<longleftrightarrow>
     list_all (dim_ok fe) xs \<and> list_all (\<lambda>x. short (dim_line x)) xs \<and> apart_names xs \<and> com_ok fe (decl_env xs) (set xs) c \<and>
     length xs \<le> BC_MAX_SLOTS \<and> 8 * length xs + com_need c + 1 \<le> BC_MAX_CODE \<and> length xs + length (com_lines c) \<le> BC_MAX_LINEMAP \<and>
     nesting c \<le> BC_MAX_NEST"

lemma dims_len: "length (assemble (dims_code ln i xs)) \<le> 8 * length xs"
proof (induction xs arbitrary: ln i)
  case (Cons x xs)
  have "name_vty x \<in> {TI, TF}" by (simp add: name_vty_def)
  then show ?case using Cons [of "ln + 1" "i + 1"] dim_len [of "name_vty x" i] by simp
qed simp

lemma program_compiles:
  assumes "plain_fe fe" "program_ok fe xs c" "slots cs = []" "code cs = []" "\<not> has_error cs" "subfuns cs = []" "error_msg cs = []" "current_subfun cs < 0"
    "linemap cs = []" "nest_stack cs = []"
  shows "\<exists>cs'. compiles fe (program_lines xs c) 1 cs cs' \<and> grown (length (program_lines xs c)) (with_slots xs cs)
    (assemble (dims_code 1 0 xs) @ assemble (com_code (opt_level fe) (decl_env xs) (1 + int (length xs)) c)) cs'"
proof -
  let ?\<Gamma> = "decl_env xs"
  note ok = assms(2) [unfolded program_ok_def]
  have "\<exists>cs1. compiles fe (map dim_line xs) 1 cs cs1 \<and> grown (length xs) (with_slots xs cs) (assemble (dims_code 1 (length (slots cs)) xs)) cs1"
    using ok assms by (intro dims_compiled [OF assms(1)]) (simp_all add: list_all_iff)
  then obtain cs1 where 1: "compiles fe (map dim_line xs) 1 cs cs1" "grown (length xs) (with_slots xs cs) (assemble (dims_code 1 0 xs)) cs1"
    using assms(3) by auto
  note g = grown_fields [OF 1(2)]
  have "slots cs1 = map new_slot xs" using grown_slots [OF 1(2), of "[]"] assms(3) by simp
  then have s: "setting fe ?\<Gamma> (set xs) cs1" using ok g assms by (intro decl_setting) simp_all
  have "fits_tables fe ?\<Gamma> (set xs) c cs1" using s g ok assms dims_len [of 1 0 xs] by (simp add: fits_tables_def)
  moreover have "\<forall>x \<in> set xs. free_name x" "com_ok fe ?\<Gamma> (set xs) c" using ok by (auto simp: list_all_iff dim_ok_def)
  ultimately obtain cs2 where 2: "compiled fe ?\<Gamma> (1 + int (length xs)) c cs1 cs2" using com_compiles [OF assms(1)] by blast
  have "compiles fe (program_lines xs c) 1 cs cs2"
    unfolding program_lines_def by (rule compiles_append [OF 1(1)]) (use 2 in \<open>simp add: compiled_def\<close>)
  moreover have "grown (length (program_lines xs c)) (with_slots xs cs)
    (assemble (dims_code 1 0 xs) @ assemble (com_code (opt_level fe) ?\<Gamma> (1 + int (length xs)) c)) cs2"
    using grown_trans [OF 1(2)] 2 by (simp add: compiled_def program_lines_def)
  ultimately show ?thesis by blast
qed

lemma compile_source_program:
  assumes "\<not> ctrlval_numeric_hint host" "program_ok (fresh_frontend host) xs c"
  shows "\<exists>cs. bc_compile_source host (bc_compiler_init b) (source_text (program_lines xs c)) = Some cs \<and> \<not> has_error cs \<and>
    code cs = assemble (program_code (opt_level host) xs c) \<and> slots cs = map new_slot xs \<and> nest_stack cs = [] \<and>
    length (linemap cs) = length (program_lines xs c)"
proof -
  let ?fe = "fresh_frontend host" and ?src = "source_text (program_lines xs c)"
  have pf: "plain_fe ?fe" using assms(1) by (simp add: plain_fe_def fresh_frontend_def)
  note ok = assms(2) [unfolded program_ok_def]
  have "\<forall>x \<in> set xs. dim_ok ?fe x" using ok by (simp add: list_all_iff)
  then have fl: "\<forall>l \<in> set (program_lines xs c). file_line l"
    using com_lines_file [of "set xs" ?fe "decl_env xs" c] dim_line_file ok by (auto simp: program_lines_def list_all_iff)
  obtain cl where pd: "source_predeclare_subfuns ?fe (bc_compiler_init b) ?src = (bc_compiler_init b)\<lparr>cs_line := cl\<rparr>"
    using predeclare_text [OF fl] by blast
  define cs0 where "cs0 = (bc_compiler_init b)\<lparr>cs_line := cl\<rparr>"
  have i: "slots cs0 = []" "code cs0 = []" "\<not> has_error cs0" "subfuns cs0 = []" "error_msg cs0 = []" "current_subfun cs0 < 0" "linemap cs0 = []"
      "nest_stack cs0 = []" "fixups cs0 = []"
    by (simp_all add: cs0_def bc_compiler_init_def)
  obtain cs1 where 1: "compiles ?fe (program_lines xs c) 1 cs0 cs1" "grown (length (program_lines xs c)) (with_slots xs cs0)
    (assemble (dims_code 1 0 xs) @ assemble (com_code (opt_level ?fe) (decl_env xs) (1 + int (length xs)) c)) cs1"
    using program_compiles [OF pf assms(2) i(1-8)] by blast
  note g = grown_fields [OF 1(2)]
  have s1: "slots cs1 = map new_slot xs" using grown_slots [OF 1(2), of "[]"] i by simp
  have f1: "fixups cs1 = []" using 1(2) i by (auto simp: grown_def with_slots_def)
  have o: "opt_level ?fe = opt_level host" by (simp add: fresh_frontend_def)
  obtain k where k: "compile_lines (numbered 1 (program_lines xs c)) ?fe cs0 = Some (?fe\<lparr>line_no := k\<rparr>, cs1)" using 1(1) by (auto simp: compiles_def)
  have fe: "?fe\<lparr>uses_struct_file_io := False, uses_struct_extract_insert := False\<rparr> = ?fe" by (simp add: fresh_frontend_def)
  have len: "length (code cs1) < BC_MAX_CODE"
    using g(1) i(2) ok dims_len [of 1 0 xs] com_need_bound [of "opt_level ?fe" "decl_env xs" "1 + int (length xs)" c] by simp
  then have e: "bc_emit_byte cs1 OP_END = put cs1 [I_END]" by (simp add: bc_emit_byte_def bytes_put put_def)
  have "bc_compile_source host (bc_compiler_init b) ?src = bc_resolve_fixups (put cs1 [I_END])"
    using k g i e no_struct_io [OF fl] fe
    by (simp add: bc_compile_source_def prescan_text [OF fl] pd [folded cs0_def] lines_of_text [OF fl] Let_def)
  then have "bc_compile_source host (bc_compiler_init b) ?src = Some (put cs1 [I_END])"
    using f1 by (simp add: bc_resolve_fixups_def put_def)
  then show ?thesis using g i s1 by (simp add: program_code_def o put_def)
qed

end
