(* ===== verification/ProgRun.thy ===== *)
theory ProgRun
  imports ProgFile
begin

text \<open>
  Compiled programs, run from the first instruction: declarations, statements, the end of the program; what the level
  of optimisation may change and what it may not; an example, and the properties of whole programs.
\<close>

section \<open>Running declarations\<close>

lemma zero_step:
  assumes "block s p (I_PUSH_ZERO # is)" "pc s = int p" "room s 1"
  shows "\<exists>s1. step m s = Next (s1\<lparr>pc := int (p + 1)\<rparr>) \<and> pushes s s1 T_INT 0"
proof -
  obtain s1 where s1: "push T_INT 0 s = Ok s1" "pushes s s1 T_INT 0" using push_pushes [of s T_INT 0] assms(3) by auto
  have "exec m I_PUSH_ZERO (s\<lparr>pc := int (p + 1)\<rparr>) = Some (Ok (s1\<lparr>pc := int (p + 1)\<rparr>))"
    using s1(1) at_pc_push [of "int (p + 1)" T_INT 0 s] by (simp add: exec_def PUSH_I_def at_pc_def)
  then have "step m s = Next (s1\<lparr>pc := int (p + 1)\<rparr>)" using step_block [OF assms(1,2), of m] by (simp add: for_ok_def after_op_def)
  then show ?thesis using s1(2) by blast
qed

lemma i2f_step:
  assumes "block s2 p (I_CVT_I2F # is)" "s2 = s1\<lparr>pc := int p\<rparr>" "pushes s s1 T_INT v" "room s 1"
  shows "\<exists>s3. step m s2 = Next (s3\<lparr>pc := int (p + 1)\<rparr>) \<and> pushes s s3 T_NBR (f_of_i64 v)"
proof -
  have "-1 \<le> sp s" "sp s + 1 < VM_STACK_SIZE" using assms(4) by simp_all
  note top = top_of [OF assms(3) this]
  obtain s3 where s3: "set_TOS (f_of_i64 v) s1 = Ok s3" "pushes s s3 T_INT (f_of_i64 v)" using top(3) by blast
  obtain s4 where s4: "set_TOS_type T_NBR s3 = Ok s4" "pushes s s4 T_NBR (f_of_i64 v)" using top_of(4) [OF s3(2)] assms(4) by blast
  have "exec m I_CVT_I2F s1 = Some (Ok s4)" using top(1) s3(1) s4(1) by (simp add: exec_def op_cvt_i2f_def)
  then have "exec m I_CVT_I2F (s2\<lparr>pc := int (p + 1)\<rparr>) = Some (Ok (s4\<lparr>pc := int (p + 1)\<rparr>))"
    using exec_pc [of I_CVT_I2F m "int (p + 1)" s1] by (simp add: assms(2) at_pc_def)
  then have "step m s2 = Next (s4\<lparr>pc := int (p + 1)\<rparr>)" using step_block [OF assms(1), of m] assms(2) by (simp add: for_ok_def after_op_def)
  then show ?thesis using s4(2) by blast
qed

lemma dim_steps:
  assumes "env_ok \<Gamma> V" "x \<in> V" "slot_of \<Gamma> x = of_nat i" "ty_of \<Gamma> x = t" "holds \<Gamma> V (\<lambda>_. 0) s" "room s 1"
    and "block s p (dim_code i t)" "pc s = int p"
  shows "\<exists>k s1. steps m k s = Some s1 \<and> pc s1 = int p + code_size (dim_code i t) \<and> holds \<Gamma> V (\<lambda>_. 0) s1 \<and> same_but \<Gamma> V s s1"
proof -
  have t: "t \<in> {TI, TF}" and sl: "unat (of_nat i :: u16) < BC_MAX_SLOTS" using assms(1-4) by (auto simp: env_ok_def)
  have z: "f_of_i64 0 = 0" by code_simp
  let ?n = "length (cvt TI t)"
  have l: "length (assemble (cvt TI t)) = ?n" by (simp add: cvt_def)
  have b: "block s p (I_PUSH_ZERO # cvt TI t @ [I_STORE Global t (of_nat i)])" using assms(7) by (simp add: dim_code_def)
  have bb: "block s (p + 1) (cvt TI t @ [I_STORE Global t (of_nat i)])" using b block_append [of s p "[I_PUSH_ZERO]" "cvt TI t @ [I_STORE Global t (of_nat i)]"] by simp
  obtain s1 where s1: "step m s = Next (s1\<lparr>pc := int (p + 1)\<rparr>)" "pushes s s1 T_INT 0" using zero_step [OF b assms(8,6), of m] by blast
  have "\<exists>s2. steps m ?n (s1\<lparr>pc := int (p + 1)\<rparr>) = Some (s2\<lparr>pc := int (p + 1 + ?n)\<rparr>) \<and> pushes s s2 (type_code t) 0"
  proof (cases "t = TI")
    case True
    then show ?thesis using s1(2) by (auto simp: cvt_def intro: exI [of _ s1])
  next
    case False
    then have tf: "t = TF" using t by simp
    have "bytecode s1 = bytecode s" using off_stack_fields(6) [OF pushes_off [OF s1(2)]] .
    then have "block (s1\<lparr>pc := int (p + 1)\<rparr>) (p + 1) (I_CVT_I2F # [I_STORE Global t (of_nat i)])"
      using bb tf by (simp add: block_def cvt_def)
    then obtain s3 where "step m (s1\<lparr>pc := int (p + 1)\<rparr>) = Next (s3\<lparr>pc := int (p + 1 + 1)\<rparr>)" "pushes s s3 T_NBR 0"
      using i2f_step [OF _ refl s1(2) assms(6), of "p + 1"] z by fastforce
    then show ?thesis using tf by (auto simp: cvt_def intro!: exI [of _ s3])
  qed
  then obtain s2 where s2: "steps m ?n (s1\<lparr>pc := int (p + 1)\<rparr>) = Some (s2\<lparr>pc := int (p + 1 + ?n)\<rparr>)" "pushes s s2 (type_code t) 0" by blast
  have s12: "steps m (1 + ?n) s = Some (s2\<lparr>pc := int (p + 1 + ?n)\<rparr>)" using steps_add [OF steps_1 [OF s1(1)] s2(1)] .
  have "bytecode s2 = bytecode s" using off_stack_fields(6) [OF pushes_off [OF s2(2)]] .
  then have b2: "block (s2\<lparr>pc := int (p + 1 + ?n)\<rparr>) (p + 1 + ?n) [I_STORE Global t (of_nat i)]"
    using bb unfolding block_append l by (simp add: block_def)
  let ?s3 = "s2\<lparr>sp := sp s, pc := int (p + 1 + ?n + 3)\<rparr>"
  note st = store_step [OF b2 _ t sl s2(2) assms(6) refl, of m]
  have st: "steps m (1 + ?n + 1) s = Some (stored (of_nat i) 0 ?s3)" by (rule steps_add [OF s12]) (use st in simp)
  note pop = popped [OF s2(2) assms(6), of \<Gamma> V]
  have h: "holds \<Gamma> V (\<lambda>_. 0) ?s3" "same_but \<Gamma> V s ?s3" using pop assms(5) by simp_all
  note sh = stored_holds [OF assms(1,2) h, of 0, unfolded assms(3)]
  have "(\<lambda>_. 0 :: u64)(x := 0) = (\<lambda>_. 0)" by auto
  moreover have "pc (stored (of_nat i) 0 ?s3) = int p + code_size (dim_code i t)" using t l by (auto simp: stored_def dim_code_def)
  ultimately show ?thesis using st sh by (intro exI [of _ "1 + ?n + 1"] exI [of _ "stored (of_nat i) 0 ?s3"]) simp
qed

lemma dims_steps:
  "\<lbrakk>env_ok \<Gamma> V; \<forall>j < length xs. xs ! j \<in> V \<and> slot_of \<Gamma> (xs ! j) = of_nat (i + j) \<and> ty_of \<Gamma> (xs ! j) = name_vty (xs ! j);
     holds \<Gamma> V (\<lambda>_. 0) s; room s 1; block s p (dims_code ln i xs); pc s = int p\<rbrakk> \<Longrightarrow>
   \<exists>k s1. steps m k s = Some s1 \<and> pc s1 = int p + code_size (dims_code ln i xs) \<and> holds \<Gamma> V (\<lambda>_. 0) s1 \<and> same_but \<Gamma> V s s1"
proof (induction xs arbitrary: ln i s p)
  case Nil
  show ?case using Nil by (intro exI [of _ 0] exI [of _ s]) simp
next
  case (Cons x xs)
  let ?d = "dim_code i (name_vty x)" and ?s1 = "s\<lparr>pc := int (p + 3), current_line := word_of_int ln\<rparr>"
  have x: "x \<in> V" "slot_of \<Gamma> x = of_nat i" "ty_of \<Gamma> x = name_vty x" using Cons.prems(2) [rule_format, of 0] by simp_all
  have b: "block s p (I_LINE (word_of_int ln) # ?d @ dims_code (ln + 1) (i + 1) xs)" using Cons.prems(5) by (simp add: line_mark_def)
  have s1: "steps m 1 s = Some ?s1" using line_step [OF b Cons.prems(6)] .
  have l3: "length (assemble [I_LINE (word_of_int ln)]) = 3" by simp
  have "block s p ([I_LINE (word_of_int ln)] @ ?d @ dims_code (ln + 1) (i + 1) xs)" using b by simp
  then have bd: "block s (p + 3) ?d" "block s (p + 3 + length (assemble ?d)) (dims_code (ln + 1) (i + 1) xs)"
    unfolding block_append l3 by blast+
  have b1: "block ?s1 (p + 3) ?d" "block s (p + 3 + length (assemble ?d)) (dims_code (ln + 1) (i + 1) xs)"
    using bd block_cong [of ?s1 s "p + 3" ?d] by simp_all
  obtain k s2 where s2: "steps m k ?s1 = Some s2" "pc s2 = int (p + 3) + code_size ?d" "holds \<Gamma> V (\<lambda>_. 0) s2" "same_but \<Gamma> V ?s1 s2"
    using dim_steps [OF Cons.prems(1) x _ _ b1(1), of m] Cons.prems(3,4) by auto
  have sm: "same_but \<Gamma> V s s2" using s2(4) by (rule same_but_trans [rotated]) simp
  note f = same_but_fields [OF sm]
  have "\<forall>j < length xs. xs ! j \<in> V \<and> slot_of \<Gamma> (xs ! j) = of_nat (i + 1 + j) \<and> ty_of \<Gamma> (xs ! j) = name_vty (xs ! j)"
    using Cons.prems(2) by (metis (no_types, lifting) Suc_less_eq add.assoc length_Cons nth_Cons_Suc plus_1_eq_Suc)
  then obtain k2 s3 where s3: "steps m k2 s2 = Some s3" "pc s3 = int (p + 3 + length (assemble ?d)) + code_size (dims_code (ln + 1) (i + 1) xs)"
      "holds \<Gamma> V (\<lambda>_. 0) s3" "same_but \<Gamma> V s2 s3"
    using Cons.IH [of "i + 1" s2 "p + 3 + length (assemble ?d)" "ln + 1"] Cons.prems(1,4) s2 b1(2) f by auto
  have "steps m (1 + k + k2) s = Some s3" using steps_add [OF steps_add [OF s1 s2(1)] s3(1)] .
  then show ?case using s3 same_but_trans [OF sm s3(4)] by (intro exI [of _ "1 + k + k2"] exI [of _ s3]) simp
qed

section \<open>Running programs\<close>

lemma com_ok_vars: "com_ok fe \<Gamma> V c \<Longrightarrow> com_vars c \<subseteq> V"
proof -
  have "com_ok fe \<Gamma> V c \<Longrightarrow> assigned c \<subseteq> V \<and> (\<forall>e \<in> com_exps c. vars e \<subseteq> V)"
    by (induction c) (auto simp: exp_ok_def)
  then show "com_ok fe \<Gamma> V c \<Longrightarrow> com_vars c \<subseteq> V" by (auto simp: com_vars_def)
qed

definition stack_ok :: "com \<Rightarrow> bool" where
  "stack_ok c \<longleftrightarrow> (\<forall>e \<in> com_exps c. stack_need e \<le> VM_STACK_SIZE)"

lemma run_after: "steps m k s = Some s1 \<Longrightarrow> run m (k + 1) skip s = run m 1 skip s1"
  by (rule run_steps)

lemma end_step:
  assumes "block s p [I_END]" "pc s = int p"
  shows "run m 1 skip s = Finished (s\<lparr>pc := int (p + 1)\<rparr>)"
proof -
  obtain after where d: "drop p (bytecode s) = encode I_END @ after" using assms(1) by (auto simp: block_def)
  have len: "length (bytecode s) - p = 1 + length after" using arg_cong [OF d, of length] by simp
  then have "p < length (bytecode s)" "length (bytecode s) - length after = p + 1" by simp_all
  moreover have "decode (drop (nat (pc s)) (bytecode s)) = Instr I_END after"
    using decode_encode [of I_END after] d assms(2) by (simp add: for_ok_def)
  ultimately have "step m s = Halted (s\<lparr>pc := int (p + 1)\<rparr>)" unfolding step_def assms(2) nat_int by (simp add: Let_def)
  then show ?thesis by simp
qed

lemma program_run:
  assumes "code cs = assemble (program_code lvl xs c)" "apart_names xs" "length xs \<le> BC_MAX_SLOTS" "com_vars c \<subseteq> set xs" "stack_ok c"
    and "com_size lvl (decl_env xs) (1 + int (length xs)) c < 2 ^ 15"
  shows "case run_com lvl m (decl_env xs) n (1 + int (length xs)) c (\<lambda>_. 0) of
      None \<Rightarrow> \<exists>k \<ge> n. steps m k (bc_vm_init v cs) \<noteq> None
    | Some (Ok \<rho>) \<Rightarrow> \<exists>k s. run m k 0 (bc_vm_init v cs) = Finished s \<and> holds (decl_env xs) (set xs) \<rho> s
    | Some (Err msg ln) \<Rightarrow> \<exists>k s. run m k 0 (bc_vm_init v cs) = Aborted (''[VM line '' @ dec_nat (unat (word_of_int ln :: u16)) @ ''] '' @ msg) s
    | Some Fault \<Rightarrow> \<exists>k. run m k 0 (bc_vm_init v cs) = Crashed"
proof -
  let ?\<Gamma> = "decl_env xs" and ?V = "set xs" and ?s = "bc_vm_init v cs" and ?D = "dims_code 1 0 xs"
  let ?C = "com_code lvl ?\<Gamma> (1 + int (length xs)) c"
  have bc: "bytecode ?s = assemble (?D @ ?C @ [I_END])" "pc ?s = int 0" "sp ?s = -1" "globals ?s = (\<lambda>_. 0)"
    using assms(1) by (simp_all add: bc_vm_init_def program_code_def)
  have "block ?s 0 (?D @ ?C @ [I_END])" unfolding block_def using bc(1) by (intro exI [of _ "[]"]) simp
  then have b: "block ?s 0 ?D" "block ?s (length (assemble ?D)) ?C" "block ?s (length (assemble ?D) + length (assemble ?C)) [I_END]"
    unfolding block_append by simp_all
  have env: "env_ok ?\<Gamma> ?V" by (rule decl_env_ok [OF assms(2,3)])
  have h0: "holds ?\<Gamma> ?V (\<lambda>_. 0) ?s" using bc(4) by (simp add: holds_def)
  have rm: "room ?s k \<longleftrightarrow> k \<le> VM_STACK_SIZE" for k using bc(3) by auto
  have one: "(1 :: int) \<le> VM_STACK_SIZE" by (simp add: limits)
  have d: "\<forall>j < length xs. xs ! j \<in> ?V \<and> slot_of ?\<Gamma> (xs ! j) = of_nat (0 + j) \<and> ty_of ?\<Gamma> (xs ! j) = name_vty (xs ! j)"
  proof (intro allI impI)
    fix j assume j: "j < length xs"
    then have x: "xs ! j \<in> ?V" by simp
    obtain i where i: "i < length xs" "xs ! i = xs ! j" "find_index (\<lambda>y. same_name y (xs ! j)) xs = Some i" using find_declared [OF assms(2) x] .
    have "i = j" using assms(2) i(1,2) j unfolding apart_names_def by (metis linorder_neqE_nat same_name_refl sorted_wrt_nth_less)
    then show "xs ! j \<in> ?V \<and> slot_of ?\<Gamma> (xs ! j) = of_nat (0 + j) \<and> ty_of ?\<Gamma> (xs ! j) = name_vty (xs ! j)" using i x by (simp add: decl_env_def)
  qed
  obtain k1 s1 where s1: "steps m k1 ?s = Some s1" "pc s1 = int (length (assemble ?D))" "holds ?\<Gamma> ?V (\<lambda>_. 0) s1" "same_but ?\<Gamma> ?V ?s s1"
    using dims_steps [OF env d h0 _ b(1) bc(2), of m] rm one by auto
  note f = same_but_fields [OF s1(4)]
  have fv: "fits_vm ?\<Gamma> ?V s1 c" using env assms(4,5) rm f(3) by (simp add: fits_vm_def stack_ok_def)
  have b1: "block s1 (length (assemble ?D)) ?C" using b(2) f(4) by simp
  let ?q = "int (length (assemble ?D)) + com_size lvl ?\<Gamma> (1 + int (length xs)) c" and ?r = "run_com lvl m ?\<Gamma> n (1 + int (length xs)) c (\<lambda>_. 0)"
  have e: "ends m ?\<Gamma> ?V n s1 ?q ?r" by (rule com_ends [OF fv s1(3) b1 s1(2) assms(6)])
  show ?thesis
  proof (cases ?r)
    case None
    then have "lasts m n s1" using e by (simp add: ends_def)
    then have "lasts m n ?s" using lasts_after [OF s1(1)] lasts_mono by (metis le_add2)
    then show ?thesis using None by (simp add: lasts_def)
  next
    case (Some o')
    show ?thesis
    proof (cases o')
      case (Ok \<rho>)
      then obtain k2 s2 where s2: "steps m k2 s1 = Some s2" "pc s2 = ?q" "holds ?\<Gamma> ?V \<rho> s2" "same_but ?\<Gamma> ?V s1 s2"
        using e Some by (auto simp: ends_def)
      have "block s2 (length (assemble ?D) + length (assemble ?C)) [I_END]"
        using b(3) f(4) same_but_fields(4) [OF s2(4)] by simp
      then have en: "run m 1 0 s2 = Finished (s2\<lparr>pc := int (length (assemble ?D) + length (assemble ?C) + 1)\<rparr>)"
        using s2(2) by (intro end_step) simp_all
      have "run m (k1 + k2 + 1) 0 ?s = Finished (s2\<lparr>pc := int (length (assemble ?D) + length (assemble ?C) + 1)\<rparr>)"
        using run_after [OF steps_add [OF s1(1) s2(1)]] en by simp
      then show ?thesis
        using Some Ok s2(3)
        by (auto simp del: run.simps intro!: exI [of _ "k1 + k2 + 1"] exI [of _ "s2\<lparr>pc := int (length (assemble ?D) + length (assemble ?C) + 1)\<rparr>"])
    next
      case (Err msg ln)
      then obtain k2 s2 s3 where s2: "steps m k2 s1 = Some s2"
          "step m s2 = Raised (''[VM line '' @ dec_nat (unat (word_of_int ln :: u16)) @ ''] '' @ msg) s3"
        using e Some by (auto simp: ends_def errs_def)
      have "run m (k1 + k2 + 1) 0 ?s = Aborted (''[VM line '' @ dec_nat (unat (word_of_int ln :: u16)) @ ''] '' @ msg) s3"
        using run_after [OF steps_add [OF s1(1) s2(1)]] s2(2) by simp
      then show ?thesis using Some Err by (auto simp del: run.simps)
    next
      case Fault
      then obtain k2 s2 where s2: "steps m k2 s1 = Some s2" "step m s2 = Wild" using e Some by (auto simp: ends_def crashes_def)
      have "run m (k1 + k2 + 1) 0 ?s = Crashed" using run_after [OF steps_add [OF s1(1) s2(1)]] s2(2) by simp
      then show ?thesis using Some Fault by (auto simp del: run.simps)
    qed
  qed
qed

section \<open>The level of optimisation\<close>

text \<open>Comparisons that decide a branch compare integers.\<close>

definition int_compare :: "scope_env \<Rightarrow> exp \<Rightarrow> bool" where
  "int_compare \<Gamma> e = (case as_compare e of Some (r, a, b) \<Rightarrow> etype \<Gamma> a = TI \<and> etype \<Gamma> b = TI | None \<Rightarrow> True)"

fun int_conditions :: "scope_env \<Rightarrow> com \<Rightarrow> bool" where
  "int_conditions \<Gamma> C_NOP \<longleftrightarrow> True"
| "int_conditions \<Gamma> (C_LET x e) \<longleftrightarrow> True"
| "int_conditions \<Gamma> (C_SEQ a b) \<longleftrightarrow> int_conditions \<Gamma> a \<and> int_conditions \<Gamma> b"
| "int_conditions \<Gamma> (C_IF e a b) \<longleftrightarrow> int_compare \<Gamma> e \<and> int_conditions \<Gamma> a \<and> int_conditions \<Gamma> b"
| "int_conditions \<Gamma> (C_WHILE e c) \<longleftrightarrow> int_compare \<Gamma> e \<and> int_conditions \<Gamma> c"
| "int_conditions \<Gamma> (C_UNTIL c e) \<longleftrightarrow> int_compare \<Gamma> e \<and> int_conditions \<Gamma> c"

lemma compare_eval:
  "as_compare e = Some (r, a, b) \<Longrightarrow> eval m \<Gamma> \<rho> e = eval m \<Gamma> \<rho> (E_BIN (O_CMP r) a b) \<and> etype \<Gamma> e = TI"
proof (induction e)
  case (E_UN u e)
  have "bindO z (\<lambda>v. Ok v) = z" for z :: "u64 valued" by (cases z) simp_all
  then show ?case using E_UN by (auto split: if_splits)
next
  case (E_BIN op a' b')
  then show ?case by (auto simp: result_type_def split: binop.splits)
qed auto

lemma opposite_int: "cmp_i (opposite r) x y = (\<not> cmp_i r x y)"
  by (cases r) (auto simp: cmp_i_def)

lemma truth_level:
  assumes "int_compare \<Gamma> e"
  shows "truth lvl m \<Gamma> \<rho> e = plain_truth m \<Gamma> \<rho> e"
proof (cases "fused_compare lvl e")
  case (Some rab)
  obtain r a b where rab: "rab = (r, a, b)" by (cases rab)
  then have c: "as_compare e = Some (r, a, b)" using Some by (simp add: fused_compare_def split: if_splits)
  have t: "etype \<Gamma> a = TI" "etype \<Gamma> b = TI" using assms c by (simp_all add: int_compare_def)
  have z: "bool_i64 p \<noteq> 0 \<longleftrightarrow> p" for p by simp
  show ?thesis
    using compare_eval [OF c, of m \<Gamma> \<rho>] t opposite_int z
    by (simp add: truth_def Some rab fused_truth_def plain_truth_def operand_values_def Let_def join_def convert_def compares_def bindO_assoc)
qed (simp add: truth_def)

lemma run_level:
  "int_conditions \<Gamma> c \<Longrightarrow> run_com lvl m \<Gamma> n ln c \<rho> = run_com lvl2 m \<Gamma> n ln c \<rho>"
  "int_compare \<Gamma> e \<Longrightarrow> int_conditions \<Gamma> c \<Longrightarrow> run_while lvl m \<Gamma> n cl ln e c \<rho> = run_while lvl2 m \<Gamma> n cl ln e c \<rho>"
  "int_compare \<Gamma> e \<Longrightarrow> int_conditions \<Gamma> c \<Longrightarrow> run_until lvl m \<Gamma> n ln c e \<rho> = run_until lvl2 m \<Gamma> n ln c e \<rho>"
proof (induction lvl m \<Gamma> n ln c \<rho> and lvl m \<Gamma> n cl ln e c \<rho> and lvl m \<Gamma> n ln c e \<rho> rule: run_com_run_while_run_until.induct)
  case (3 lvl m \<Gamma> n ln a b \<rho>)
  then show ?case by (auto intro: then_run_cong)
next
  case (4 lvl m \<Gamma> n ln e a b \<rho>)
  then show ?case using truth_level [of \<Gamma> e lvl] truth_level [of \<Gamma> e lvl2] by simp
next
  case (8 lvl m \<Gamma> n cl ln e c \<rho>)
  have "then_run (run_com lvl m \<Gamma> n (ln + 1) c \<rho>) (run_while lvl m \<Gamma> n (ln + 1 + com_len c) ln e c) =
      then_run (run_com lvl2 m \<Gamma> n (ln + 1) c \<rho>) (run_while lvl2 m \<Gamma> n (ln + 1 + com_len c) ln e c)"
    using 8 by (intro then_run_cong) simp_all
  then show ?case using truth_level [of \<Gamma> e lvl] truth_level [of \<Gamma> e lvl2] 8 by simp
next
  case (10 lvl m \<Gamma> n ln c e \<rho>)
  then show ?case using truth_level [of \<Gamma> e lvl] truth_level [of \<Gamma> e lvl2] by (auto intro!: then_run_cong)
qed simp_all

lemma finished_stops: "run m k 0 s = Finished s1 \<Longrightarrow> k \<le> n \<Longrightarrow> steps m n s = None"
proof (induction k arbitrary: s n)
  case (Suc k)
  obtain j where n: "n = Suc j" using Suc.prems(2) by (cases n) auto
  show ?case using Suc n by (auto split: progress.splits)
qed simp

lemma run_more: "run m k 0 s = r \<Longrightarrow> (\<forall>x. r \<noteq> Running x) \<Longrightarrow> run m (k + j) 0 s = r"
  by (induction k arbitrary: s) (auto split: progress.splits)

lemma run_unique: "run m k 0 s = r \<Longrightarrow> run m j 0 s = q \<Longrightarrow> (\<forall>x. r \<noteq> Running x) \<Longrightarrow> (\<forall>x. q \<noteq> Running x) \<Longrightarrow> r = q"
  using run_more [of m k s r j] run_more [of m j s q k] by (simp add: add.commute)

text \<open>
  With doubles this is not so: a comparison with NaN fails, but so does the opposite one, and the branch that asks for the
  opposite is entered.
\<close>

lemma nan_order: "f_is_nan f_nan" "\<not> f_lt f_nan x" "\<not> f_le x f_nan"
proof -
  show n: "f_is_nan f_nan" by (simp add: f_is_nan_def f_mag_def f_inf_mag_def f_nan_def)
  then show "\<not> f_lt f_nan x" "\<not> f_le x f_nan" by (simp_all add: f_lt_def f_le_def f_eq_def)
qed

lemma nan_condition:
  assumes "e = E_BIN (O_CMP LT) (E_VAR x) (E_VAR y)" "etype \<Gamma> (E_VAR x) = TF" "etype \<Gamma> (E_VAR y) = TF" "\<rho> x = f_nan"
  shows "truth 0 m \<Gamma> \<rho> e = Ok False" "truth 1 m \<Gamma> \<rho> e = Ok True"
proof -
  have z: "bool_i64 p = 0 \<longleftrightarrow> \<not> p" for p by simp
  show "truth 0 m \<Gamma> \<rho> e = Ok False"
    using assms z nan_order by (simp add: truth_def fused_compare_def plain_truth_def Let_def join_def convert_def cmp_f_def result_type_def)
  show "truth 1 m \<Gamma> \<rho> e = Ok True"
    using assms nan_order
    by (simp add: truth_def fused_compare_def fused_truth_def operand_values_def Let_def join_def convert_def compares_def cmp_f_def)
qed

section \<open>An example\<close>

definition demo_names :: "cstr list" where
  "demo_names = map bytes_of [''X%'', ''Y%'']"

abbreviation demo_x :: exp where "demo_x \<equiv> E_VAR (bytes_of ''X%'')"
abbreviation demo_y :: exp where "demo_y \<equiv> E_VAR (bytes_of ''Y%'')"
abbreviation digit_exp :: "u8 \<Rightarrow> exp" where "digit_exp d \<equiv> E_DEC [d]"

definition demo_com :: com where
  "demo_com = C_SEQ (C_LET (bytes_of ''X%'') (digit_exp 0x33))
    (C_SEQ (C_UNTIL (C_SEQ (C_LET (bytes_of ''Y%'') (E_BIN O_ADD demo_y demo_x)) (C_LET (bytes_of ''X%'') (E_BIN O_SUB demo_x (digit_exp 0x31))))
              (E_BIN (O_CMP EQ) demo_x (digit_exp 0x30)))
     (C_IF (E_BIN (O_CMP GT) demo_y (digit_exp 0x35)) (C_LET (bytes_of ''Y%'') (E_BIN O_MUL demo_y (digit_exp 0x32)))
        (C_LET (bytes_of ''Y%'') (digit_exp 0x30))))"

definition demo_source :: cstr where
  "demo_source = source_text (map bytes_of [''DIM X%'', ''DIM Y%'', ''X% = 3'', ''DO'', ''Y% = Y% + X%'', ''X% = X% - 1'', ''LOOP UNTIL X% = 0'',
     ''IF Y% > 5 THEN'', ''Y% = Y% * 2'', ''ELSE'', ''Y% = 0'', ''ENDIF''])"

lemma demo_text: "source_text (program_lines demo_names demo_com) = demo_source"
  by code_simp

lemma demo_ok: "program_ok (fresh_frontend demo_fe) demo_names demo_com"
proof -
  let ?fe = "fresh_frontend demo_fe"
  have d: "list_all (dim_ok ?fe) demo_names" "apart_names demo_names" by code_simp+
  have s: "list_all (\<lambda>x. short (dim_line x)) demo_names" by code_simp
  have c: "com_ok ?fe (decl_env demo_names) (set demo_names) demo_com"
    unfolding demo_com_def com_ok.simps by (intro conjI; ((simp add: branch_ok_def; fail) | code_simp))
  have n: "length demo_names = 2" "com_need demo_com = 148" "length (com_lines demo_com) = 10" "nesting demo_com = 1" by code_simp+
  show ?thesis using d s c by (simp add: program_ok_def n limits)
qed

lemma demo_values [simp]:
  "decl_env demo_names (bytes_of ''X%'') = (Global, 0, TI)" "decl_env demo_names (bytes_of ''Y%'') = (Global, 1, TI)"
  "dec_value [0x30] = 0" "dec_value [0x31] = 1" "dec_value [0x32] = 2" "dec_value [0x33] = 3" "dec_value [0x35] = 5" "opt_level demo_fe = 1"
  "name_vty (bytes_of ''X%'') = TI" "name_vty (bytes_of ''Y%'') = TI" "length demo_names = 2"
  by code_simp+

lemma demo_code: "program_code (opt_level demo_fe) demo_names demo_com =
   [I_LINE 1, I_PUSH_ZERO, I_STORE Global TI 0, I_LINE 2, I_PUSH_ZERO, I_STORE Global TI 1, I_LINE 3, I_PUSH_INT 3, I_STORE Global TI 0,
    I_LINE 4, I_LINE 5, I_LOAD Global TI 1, I_LOAD Global TI 0, I_BIN_I ADD, I_STORE Global TI 1,
    I_LINE 6, I_LOAD Global TI 0, I_PUSH_INT 1, I_BIN_I SUB, I_STORE Global TI 0, I_LINE 7, I_LOAD Global TI 0, I_PUSH_INT 0, I_JCMP_I 2 (-51),
    I_LINE 8, I_LOAD Global TI 1, I_PUSH_INT 5, I_JCMP_I 5 25, I_LINE 9, I_LOAD Global TI 1, I_PUSH_INT 2, I_BIN_I MUL, I_STORE Global TI 1,
    I_LINE 10, I_JMP 18, I_LINE 11, I_PUSH_INT 0, I_STORE Global TI 1, I_LINE 12, I_END]"
  by (simp add: program_code_def demo_com_def Let_def let_code_def cvt_def jump_unless_def fused_compare_def both_operands_def join_def
      cond_size_def line_mark_def jump_by_def fuse_bits_def dim_code_def result_type_def, simp add: demo_names_def dim_code_def line_mark_def cvt_def)

lemma demo_run: "\<exists>\<rho>. run_com (opt_level demo_fe) no_libm (decl_env demo_names) 3 3 demo_com (\<lambda>_. 0) = Some (Ok \<rho>) \<and> \<rho> (bytes_of ''X%'') = 0 \<and> \<rho> (bytes_of ''Y%'') = 12"
proof -
  have "case run_com (opt_level demo_fe) no_libm (decl_env demo_names) 3 3 demo_com (\<lambda>_. 0) of
      Some (Ok \<rho>) \<Rightarrow> \<rho> (bytes_of ''X%'') = 0 \<and> \<rho> (bytes_of ''Y%'') = 12 | _ \<Rightarrow> False" by code_simp
  then show ?thesis by (auto split: option.splits outcome.splits)
qed

section \<open>The properties\<close>

text \<open>
  C1: source programs compile to the code they should: the text of a program - declarations of numeric variables, then
  assignments, \<open>IF .. ELSE .. ENDIF\<close>, \<open>DO WHILE .. LOOP\<close> and \<open>DO .. LOOP UNTIL\<close>, nested as one likes, a statement to a line -
  passes all passes of the compiler without an error and yields exactly the instructions of the tree with all jumps filled in, one slot for every
  variable, one line table entry for every line, and no open block, at every level of optimisation.
\<close>

theorem source_program_compiles:
  assumes "\<not> ctrlval_numeric_hint host" "program_ok (fresh_frontend host) xs c"
  shows "\<exists>cs. bc_compile_source host (bc_compiler_init b) (source_text (program_lines xs c)) = Some cs \<and> \<not> has_error cs \<and>
    code cs = assemble (program_code (opt_level host) xs c) \<and> slots cs = map new_slot xs \<and> nest_stack cs = [] \<and>
    length (linemap cs) = length (program_lines xs c)"
  by (rule compile_source_program [OF assms])

theorem source_program_compiles_witness:
  "\<exists>cs. bc_compile_source demo_fe (bc_compiler_init empty_compiler) demo_source = Some cs \<and> \<not> has_error cs \<and> code cs = assemble
   [I_LINE 1, I_PUSH_ZERO, I_STORE Global TI 0, I_LINE 2, I_PUSH_ZERO, I_STORE Global TI 1, I_LINE 3, I_PUSH_INT 3, I_STORE Global TI 0,
    I_LINE 4, I_LINE 5, I_LOAD Global TI 1, I_LOAD Global TI 0, I_BIN_I ADD, I_STORE Global TI 1,
    I_LINE 6, I_LOAD Global TI 0, I_PUSH_INT 1, I_BIN_I SUB, I_STORE Global TI 0, I_LINE 7, I_LOAD Global TI 0, I_PUSH_INT 0, I_JCMP_I 2 (-51),
    I_LINE 8, I_LOAD Global TI 1, I_PUSH_INT 5, I_JCMP_I 5 25, I_LINE 9, I_LOAD Global TI 1, I_PUSH_INT 2, I_BIN_I MUL, I_STORE Global TI 1,
    I_LINE 10, I_JMP 18, I_LINE 11, I_PUSH_INT 0, I_STORE Global TI 1, I_LINE 12, I_END]"
proof -
  have h: "\<not> ctrlval_numeric_hint demo_fe" by (simp add: demo_fe_def)
  show ?thesis using source_program_compiles [OF h demo_ok, of empty_compiler] unfolding demo_code demo_text by blast
qed

text \<open>
  C2: compiled programs do what their text means: the virtual machine, started on what \<open>bc_compile_source\<close> makes of the text of a
  program, stops at the end with every variable holding the value that the statements, read as such, give it; or it
  stops with the error of the first statement that has one, and its line; or runs into the undefined conversion or
  shift the program has; and when the statements do not come to an end in \<open>n\<close> rounds of the loops, neither does the machine in \<open>n\<close> instructions.
\<close>

theorem source_program_runs:
  assumes "\<not> ctrlval_numeric_hint host" "program_ok (fresh_frontend host) xs c" "stack_ok c"
    and "com_size (opt_level host) (decl_env xs) (1 + int (length xs)) c < 2 ^ 15"
    and "bc_compile_source host (bc_compiler_init b) (source_text (program_lines xs c)) = Some cs"
  shows "case run_com (opt_level host) m (decl_env xs) n (1 + int (length xs)) c (\<lambda>_. 0) of
      None \<Rightarrow> \<exists>k \<ge> n. steps m k (bc_vm_init v cs) \<noteq> None
    | Some (Ok \<rho>) \<Rightarrow> \<exists>k s. run m k 0 (bc_vm_init v cs) = Finished s \<and> (\<forall>x \<in> set xs. globals s (unat (slot_of (decl_env xs) x)) = \<rho> x)
    | Some (Err msg ln) \<Rightarrow> \<exists>k s. run m k 0 (bc_vm_init v cs) = Aborted (''[VM line '' @ dec_nat (unat (word_of_int ln :: u16)) @ ''] '' @ msg) s
    | Some Fault \<Rightarrow> \<exists>k. run m k 0 (bc_vm_init v cs) = Crashed"
proof -
  have "code cs = assemble (program_code (opt_level host) xs c)" using compile_source_program [OF assms(1,2), of b] assms(5) by auto
  then show ?thesis
    using program_run [OF _ _ _ _ assms(3,4)] assms(2) com_ok_vars unfolding holds_def program_ok_def by blast
qed

lemma demo_sizes: "stack_ok demo_com" "com_size 1 (decl_env demo_names) 3 demo_com < 2 ^ 15"
proof -
  show "stack_ok demo_com" by (simp add: stack_ok_def demo_com_def limits)
  have "com_need demo_com = 148" by code_simp
  then show "com_size 1 (decl_env demo_names) 3 demo_com < 2 ^ 15" using com_need_bound [of 1 "decl_env demo_names" 3 demo_com] by simp
qed

theorem source_program_runs_witness:
  "\<exists>cs k s. bc_compile_source demo_fe (bc_compiler_init empty_compiler) demo_source = Some cs \<and>
    run no_libm k 0 (bc_vm_init blank_vm cs) = Finished s \<and> globals s 0 = 0 \<and> globals s 1 = 12"
proof -
  have h: "\<not> ctrlval_numeric_hint demo_fe" by (simp add: demo_fe_def)
  obtain cs where cs: "bc_compile_source demo_fe (bc_compiler_init empty_compiler) (source_text (program_lines demo_names demo_com)) = Some cs"
    using compile_source_program [OF h demo_ok] by blast
  obtain \<rho> where r: "run_com (opt_level demo_fe) no_libm (decl_env demo_names) 3 3 demo_com (\<lambda>_. 0) = Some (Ok \<rho>)"
      "\<rho> (bytes_of ''X%'') = 0" "\<rho> (bytes_of ''Y%'') = 12"
    using demo_run by blast
  have "com_size (opt_level demo_fe) (decl_env demo_names) (1 + int (length demo_names)) demo_com < 2 ^ 15" using demo_sizes(2) by simp
  note run = source_program_runs [OF h demo_ok demo_sizes(1) this cs, where m = no_libm and n = 3 and v = blank_vm]
  have n: "1 + int (length demo_names) = 3" "bytes_of ''X%'' \<in> set demo_names" "bytes_of ''Y%'' \<in> set demo_names" by (simp_all add: demo_names_def)
  obtain k s where "run no_libm k 0 (bc_vm_init blank_vm cs) = Finished s"
      "\<forall>x \<in> set demo_names. globals s (unat (slot_of (decl_env demo_names) x)) = \<rho> x"
    using run unfolding n(1) r(1) by auto
  then show ?thesis using cs n(2,3) r(2,3) unfolding demo_text by fastforce
qed

text \<open>
  C3: the optimiser does not change results: a program whose branches compare integers, compiled at two levels of
  optimisation - jumps fused with comparisons and products fused with divisions, or not - ends at the one level with the
  values with which it ends at the other.
\<close>

theorem levels_agree:
  assumes "\<not> ctrlval_numeric_hint host" "stack_ok c" "int_conditions (decl_env xs) c"
    and "program_ok (fresh_frontend (host\<lparr>opt_level := i\<rparr>)) xs c" "com_size i (decl_env xs) (1 + int (length xs)) c < 2 ^ 15"
    and "program_ok (fresh_frontend (host\<lparr>opt_level := j\<rparr>)) xs c" "com_size j (decl_env xs) (1 + int (length xs)) c < 2 ^ 15"
    and "bc_compile_source (host\<lparr>opt_level := i\<rparr>) (bc_compiler_init b) (source_text (program_lines xs c)) = Some csi"
    and "bc_compile_source (host\<lparr>opt_level := j\<rparr>) (bc_compiler_init b) (source_text (program_lines xs c)) = Some csj"
    and "run m k 0 (bc_vm_init v csi) = Finished s"
  shows "\<exists>k' s'. run m k' 0 (bc_vm_init v csj) = Finished s' \<and>
    (\<forall>x \<in> set xs. globals s' (unat (slot_of (decl_env xs) x)) = globals s (unat (slot_of (decl_env xs) x)))"
proof -
  let ?\<Gamma> = "decl_env xs" and ?ln = "1 + int (length xs)"
  have h: "\<not> ctrlval_numeric_hint (host\<lparr>opt_level := l\<rparr>)" for l using assms(1) by simp
  have ci: "code csi = assemble (program_code i xs c)" using compile_source_program [OF h assms(4), of b] assms(8) by auto
  have cj: "code csj = assemble (program_code j xs c)" using compile_source_program [OF h assms(6), of b] assms(9) by auto
  have p: "apart_names xs" "length xs \<le> BC_MAX_SLOTS" "com_vars c \<subseteq> set xs" using assms(4) com_ok_vars unfolding program_ok_def by blast+
  note ri = program_run [OF ci p assms(2,5), where m = m and n = "Suc k" and v = v] and rj = program_run [OF cj p assms(2,7), where m = m and n = "Suc k" and v = v]
  have same: "run_com j m ?\<Gamma> (Suc k) ?ln c (\<lambda>_. 0) = run_com i m ?\<Gamma> (Suc k) ?ln c (\<lambda>_. 0)" by (rule run_level(1) [OF assms(3)])
  note u = run_unique [OF assms(10)]
  show ?thesis
  proof (cases "run_com i m ?\<Gamma> (Suc k) ?ln c (\<lambda>_. 0)")
    case None
    then obtain k' where "k' \<ge> Suc k" "steps m k' (bc_vm_init v csi) \<noteq> None" using ri by auto
    then show ?thesis using finished_stops [OF assms(10), of k'] by simp
  next
    case (Some r)
    show ?thesis
    proof (cases r)
      case (Ok \<rho>)
      obtain k1 s1 where "run m k1 0 (bc_vm_init v csi) = Finished s1" and h1: "holds ?\<Gamma> (set xs) \<rho> s1" using ri Some Ok by auto
      then have "s1 = s" using u by fastforce
      moreover obtain k2 s2 where "run m k2 0 (bc_vm_init v csj) = Finished s2" "holds ?\<Gamma> (set xs) \<rho> s2" using rj same Some Ok by auto
      ultimately show ?thesis using h1 by (auto simp: holds_def)
    next
      case (Err msg l)
      then obtain k1 s1 t where "run m k1 0 (bc_vm_init v csi) = Aborted t s1" using ri Some by auto
      from u [OF this] show ?thesis by simp
    next
      case Fault
      then obtain k1 where "run m k1 0 (bc_vm_init v csi) = Crashed" using ri Some by auto
      from u [OF this] show ?thesis by simp
    qed
  qed
qed

lemma demo_level0:
  "program_ok (fresh_frontend (demo_fe\<lparr>opt_level := 0\<rparr>)) demo_names demo_com" "com_size 0 (decl_env demo_names) 3 demo_com < 2 ^ 15"
  "run_com 0 no_libm (decl_env demo_names) n 3 demo_com \<rho> = run_com (opt_level demo_fe) no_libm (decl_env demo_names) n 3 demo_com \<rho>"
  "int_conditions (decl_env demo_names) demo_com"
proof -
  let ?fe = "fresh_frontend (demo_fe\<lparr>opt_level := 0\<rparr>)"
  have "list_all (dim_ok ?fe) demo_names" by code_simp
  moreover have "com_ok ?fe (decl_env demo_names) (set demo_names) demo_com"
    unfolding demo_com_def com_ok.simps by (intro conjI; ((simp add: branch_ok_def; fail) | code_simp))
  ultimately show "program_ok ?fe demo_names demo_com" using demo_ok by (simp add: program_ok_def)
  have "com_need demo_com = 148" by code_simp
  then show "com_size 0 (decl_env demo_names) 3 demo_com < 2 ^ 15" using com_need_bound [of 0 "decl_env demo_names" 3 demo_com] by simp
  show i: "int_conditions (decl_env demo_names) demo_com" by (simp add: demo_com_def int_compare_def)
  show "run_com 0 no_libm (decl_env demo_names) n 3 demo_com \<rho> = run_com (opt_level demo_fe) no_libm (decl_env demo_names) n 3 demo_com \<rho>"
    by (rule run_level(1) [OF i])
qed

theorem levels_agree_witness:
  "\<exists>cs k s. bc_compile_source demo_fe (bc_compiler_init empty_compiler) demo_source = Some cs \<and>
    run no_libm k 0 (bc_vm_init blank_vm cs) = Finished s \<and> globals s 1 = 12"
proof -
  let ?h0 = "demo_fe\<lparr>opt_level := 0\<rparr>" and ?src = "source_text (program_lines demo_names demo_com)"
  have h: "\<not> ctrlval_numeric_hint demo_fe" "\<not> ctrlval_numeric_hint ?h0" "demo_fe\<lparr>opt_level := 1\<rparr> = demo_fe" by (simp_all add: demo_fe_def)
  have n: "1 + int (length demo_names) = 3" "bytes_of ''Y%'' \<in> set demo_names" by (simp_all add: demo_names_def)
  obtain cs0 where cs0: "bc_compile_source ?h0 (bc_compiler_init empty_compiler) ?src = Some cs0" "code cs0 = assemble (program_code 0 demo_names demo_com)"
    using compile_source_program [OF h(2) demo_level0(1), of empty_compiler] by auto
  obtain cs1 where cs1: "bc_compile_source (demo_fe\<lparr>opt_level := 1\<rparr>) (bc_compiler_init empty_compiler) ?src = Some cs1"
    using compile_source_program [OF h(1) demo_ok, of empty_compiler] h(3) by auto
  have ok1: "program_ok (fresh_frontend (demo_fe\<lparr>opt_level := 1\<rparr>)) demo_names demo_com" using demo_ok unfolding h(3) .
  have p: "apart_names demo_names" "length demo_names \<le> BC_MAX_SLOTS" "com_vars demo_com \<subseteq> set demo_names"
    using demo_ok com_ok_vars unfolding program_ok_def by blast+
  have z: "com_size 0 (decl_env demo_names) (1 + int (length demo_names)) demo_com < 2 ^ 15"
    "com_size 1 (decl_env demo_names) (1 + int (length demo_names)) demo_com < 2 ^ 15"
    using demo_level0(2) demo_sizes(2) unfolding n(1) by blast+
  obtain \<rho> where r: "run_com 0 no_libm (decl_env demo_names) 3 3 demo_com (\<lambda>_. 0) = Some (Ok \<rho>)" "\<rho> (bytes_of ''Y%'') = 12"
    using demo_run demo_level0(3) by auto
  have "\<exists>k s. run no_libm k 0 (bc_vm_init blank_vm cs0) = Finished s \<and> holds (decl_env demo_names) (set demo_names) \<rho> s"
    using program_run [OF cs0(2) p demo_sizes(1) z(1), where m = no_libm and n = 3 and v = blank_vm] unfolding n(1) r(1) by simp
  then obtain k s where "run no_libm k 0 (bc_vm_init blank_vm cs0) = Finished s" and hs: "holds (decl_env demo_names) (set demo_names) \<rho> s" by blast
  from levels_agree [OF h(1) demo_sizes(1) demo_level0(4,1) z(1) ok1 z(2) cs0(1) cs1 this(1)]
  obtain k' s' where "run no_libm k' 0 (bc_vm_init blank_vm cs1) = Finished s'"
      "\<forall>x \<in> set demo_names. globals s' (unat (slot_of (decl_env demo_names) x)) = globals s (unat (slot_of (decl_env demo_names) x))" by blast
  moreover have "globals s (unat (slot_of (decl_env demo_names) (bytes_of ''Y%''))) = 12" using hs n(2) r(2) unfolding holds_def by metis
  ultimately show ?thesis using cs1 n(2) unfolding h(3) demo_text by fastforce
qed

end
