(* ===== verification/Spec2Isabelle.thy ===== *)
theory Spec2Isabelle
  imports Prelude VmInt F64 MMHeap Bytecode Compiler SrcEmit MStr VmState VmOps VmArr VmCall VmStr Vm
    RegOps VmFast
    VmInv VmLoop VmFrames VmArrays VmText SrcExpr SrcFast SrcStmt SrcSub SrcLoop SrcAsm SrcDev SrcLine
    ExprSpec ExprExec ExprLex ExprParse ProgSpec ProgExec ProgParse ProgText ProgLines ProgFile ProgRun
begin

text \<open>
  A verification library for the MMBasic bytecode compiler and virtual machine of PicoMite
  (\<open>src/runtime/vm\<close>) and the parts of the interpreter core they stand on (\<open>src/core/mmbasic\<close>).

  The program. A BASIC program is compiled line by line from its source text (\<open>bc_source.c\<close>) through a
  table-keeping core (\<open>bc_compiler_core.c\<close>) into bytecode (\<open>bytecode.h\<close>), which one dispatch loop
  executes (\<open>bc_vm.c\<close>). Arrays and string variables live in a page heap (\<open>Memory.c\<close>); strings are counted,
  their first byte the length (\<open>MMBasic.c\<close>).

  The theories, in the order of the data flow:
  \<^item> \<open>Prelude\<close>: machine words by the code's names, little-endian bytes, C strings, outcomes
    (\<open>Ok\<close>, \<open>Err\<close> a BASIC error with its state, \<open>Fault\<close> undefined behaviour of the C code).
  \<^item> \<open>VmInt\<close>, \<open>F64\<close>: the 64-bit helpers of \<open>bc_vm.c\<close> and IEEE binary64 on bit patterns.
  \<^item> \<open>MMHeap\<close>: the two-bit page map of \<open>Memory.c\<close>: allocation from the top, release, sizes, counters.
  \<^item> \<open>Bytecode\<close>: opcodes and limits of \<open>bytecode.h\<close>, the instructions as a datatype, \<open>decode\<close> reading
    them as the dispatch loop does and \<open>encode\<close> writing them as the emitters do.
  \<^item> \<open>Compiler\<close>: \<open>BCCompiler\<close> as a record and every operation of \<open>bc_compiler_core.c\<close>; an array with a
    count is a list. \<open>SrcEmit\<close>: the code generator's part of \<open>bc_source.c\<close>.
  \<^item> \<open>MStr\<close>: string helpers and \<open>IntToStr\<close> of \<open>MMBasic.c\<close>, over an explicit memory.
  \<^item> \<open>VmState\<close>, \<open>VmOps\<close>, \<open>VmArr\<close>, \<open>VmCall\<close>, \<open>VmStr\<close>, \<open>Vm\<close>: \<open>BCVMState\<close> as a record, one definition
    per opcode of \<open>bc_vm.c\<close>, and \<open>step\<close>, one round of the dispatch loop. Stack and tables are functions
    with their pointers as integers; an index outside a table is \<open>Fault\<close>. Scalars are 64-bit words whose
    reading (integer, double, string address) the type tag gives.
  \<^item> \<open>SrcExpr\<close>: the expression compiler of \<open>bc_source.c\<close>, from the text of an expression to emitted bytes,
    one definition per precedence level. \<open>ExprSpec\<close>: expressions as trees, their printed text, the code they
    should have and the value they should take, each by recursion over the tree.
  \<^item> \<open>SrcStmt\<close>, \<open>SrcSub\<close>, \<open>SrcLoop\<close>, \<open>SrcDev\<close>: the statements of \<open>bc_source.c\<close>, one definition per
    \<open>source_compile_\<close> function: assignment, FOR, GOTO, INC, DATA, bridged statements; TYPE, DIM, LOCAL,
    STATIC, SUB and FUNCTION, calls; DO, SELECT, IF, EXIT; PRINT, files, pins, drawing. A statement takes the
    expression compiler, the compiler state and the text, and gives the new state and the rest of the text.
  \<^item> \<open>SrcFast\<close>: \<open>source_convert_fast_loop\<close>, which translates the bytecode of a finished loop into a block for
    the register machine. \<open>RegOps\<close>, \<open>VmFast\<close>: the micro-operations of \<open>bytecode.h\<close> and their machine
    behind \<open>OP_FAST_LOOP\<close>; \<open>step_fast\<close> is \<open>step\<close> with this instruction.
  \<^item> \<open>SrcAsm\<close>: the inline assembler of such blocks. \<open>SrcLine\<close>: the dispatcher over statements,
    logical lines, the prescan, and \<open>bc_compile_source\<close>, from a program text to the compiled tables.
  \<^item> \<open>ExprExec\<close>: the emitted code, run. \<open>ExprLex\<close>, \<open>ExprParse\<close>: the compiler on printed text.
  \<^item> \<open>ProgSpec\<close>: structured programs as trees (assignment, IF, DO WHILE, DO UNTIL), their lines, the code they
    should have and their meaning. \<open>ProgExec\<close>: that code, run. \<open>ProgParse\<close>, \<open>ProgText\<close>, \<open>ProgLines\<close>,
    \<open>ProgFile\<close>: the compiler on an assignment, on the words of a line, on whole statements, and on a whole file with
    its declarations. \<open>ProgRun\<close>: the compiled file in the machine.
  \<^item> \<open>VmInv\<close>, \<open>VmLoop\<close>, \<open>VmFrames\<close>, \<open>VmArrays\<close>, \<open>VmText\<close>: the properties of running programs.

  What the lemmas show. \<open>MMHeap\<close>: what an allocation takes, that it is disjoint from all live blocks, when it is
  refused, and that release undoes it, for every well-formed page map. \<open>Bytecode\<close>: \<open>decode\<close> inverts \<open>encode\<close>
  at any position. \<open>Compiler\<close>: table bounds, error stability, constants, fixups and name resolution as
  invariants over all operations. \<open>VmInv\<close>: a set of predicates closed under composition (\<open>keeps\<close>,
  \<open>kv\<close>, \<open>kp\<close>) carries the stack discipline through all opcodes, for any bytecode whatever. \<open>VmLoop\<close>: the number of
  rounds of integer FOR loops. \<open>VmFrames\<close>: what calls and returns restore, and reference parameters.
  \<open>VmArrays\<close>, \<open>VmText\<close>: storage of arrays and strings. \<open>ExprExec\<close> to \<open>ExprParse\<close>: printing an expression,
  compiling the text and running the bytes gives the value of the tree, at any position of a larger text and a
  larger code; one layer of the grammar is one lemma, from the primaries up (\<open>layer\<close>).
  \<open>ProgSpec\<close> to \<open>ProgRun\<close> do the same for files: \<open>line_if\<close>, \<open>line_while\<close> and their like say what one
  line does to code, line table and open blocks, \<open>com_compiles\<close> puts them together by induction over the tree,
  \<open>compile_source_program\<close> adds prescans and declarations, and \<open>program_run\<close> executes the result.

  Bounds and fuel. \<open>run\<close> takes a number of instructions; statements about it are for some or for every number.
  Scans of the page map run over its \<open>npages\<close>; \<open>IntToStr\<close> has 65 digits of room, enough for 64 bits in base 2.
  The expression compiler recurses through parentheses and unary operators; its fuel is the length of the text plus
  one, since every level consumes a byte, and its loops over operators count their rounds the same way. So do the
  loops over arguments and declarations; a one-line IF compiles a shorter text, and every line of a program takes at
  least one character. \<open>op_fast_loop\<close> takes a number of micro-operations and is \<open>None\<close> when they do not suffice.
  The meaning of a structured program takes a number of rounds for its loops and is \<open>None\<close> when they do not suffice; then
  the machine has not stopped after as many instructions. Programs are bounded as the compiler's tables are: code
  (\<open>com_need\<close>) and jumps (15 bits), 64 open blocks, lines of at most 255 characters (\<open>program_ok\<close>).
  A \<open>None\<close> of a statement or of \<open>bc_compile_source\<close> is a read or write outside a C array.

  Not modelled: struct arrays in the virtual machine, the bridge to the interpreter, system calls and devices (the
  model stops with an error of its own there), the token interpreter itself, and everything outside
  \<open>runtime/vm\<close> and \<open>core/mmbasic\<close>. The tokeniser that bridged statements call and the port's tables are the record
  \<open>frontend\<close>; the C library's transcendental functions are the record \<open>libm\<close>, an argument of the step function. The
  compiler's tables are allocated once; that this succeeds is taken for granted.
\<close>

end
